(* ===== verification/Prelude.thy ===== *)
theory Prelude
  imports Complex_Main "HOL-Library.Word" "HOL-Library.List_Lexorder" "HOL-Library.Char_ord"
    "HOL-Library.Multiset"
begin

unbundle bit_operations_syntax

text \<open>
  What every component theory shares: the model's types for the Go values that occur
  everywhere (byte strings, \<open>time.Time\<close>, \<open>time.Duration\<close>, \<open>int64\<close> counters, maps with an
  explicit iteration order), the few functions of Go's standard library the sources call on
  them, stable sorting by a \<open>less\<close> function, and the generic lemmas and fact collections the
  component proofs use.
\<close>

named_theorems model_defs \<open>small definitions the component proofs always unfold\<close>
named_theorems inv_intros \<open>an operation preserves its component's invariant\<close>

section \<open>Values\<close>

text \<open>
  A Go string is a sequence of bytes; so is a HOL \<open>string\<close> (a \<open>char\<close> is 8 bits wide). Its
  order \<open><\<close> is the bytewise lexicographic order of \<open>HOL-Library.List_Lexorder\<close>, as Go's.
\<close>

type_synonym gostring = string

text \<open>
  A \<open>time.Time\<close> is the number of nanoseconds since Go's zero time, so \<open>IsZero\<close> is \<open>= 0\<close>.
  A \<open>time.Duration\<close> is a number of nanoseconds in the int64 range; \<open>Time.Sub\<close> saturates at
  the ends of that range.
\<close>

type_synonym time = int
type_synonym duration = int

definition minDuration :: duration where
  "minDuration = - (2 ^ 63)"

definition maxDuration :: duration where
  "maxDuration = 2 ^ 63 - 1"

definition Millisecond :: duration where
  "Millisecond = 1000000"

definition Second :: duration where
  "Second = 1000000000"

definition Minute :: duration where
  "Minute = 60 * Second"

definition Hour :: duration where
  "Hour = 60 * Minute"

definition IsZero :: "time \<Rightarrow> bool" where
  "IsZero t = (t = 0)"

definition time_Sub :: "time \<Rightarrow> time \<Rightarrow> duration" where
  "time_Sub t u = max minDuration (min maxDuration (t - u))"

lemmas duration_defs = Millisecond_def Second_def Minute_def Hour_def

lemma time_Sub_le_iff: "0 \<le> d \<Longrightarrow> d < maxDuration \<Longrightarrow> time_Sub t u \<le> d \<longleftrightarrow> t - u \<le> d"
  by (auto simp: time_Sub_def minDuration_def maxDuration_def)

text \<open>An \<open>int64\<close> revision counter is a 64-bit word; its sign is read with \<open>sint\<close>.\<close>

type_synonym i64 = "64 word"

lemma word_inc_neq: "(w :: i64) + 1 \<noteq> w"
  by simp

lemma sint_inc_i64:
  fixes w :: i64
  assumes "sint w < 2 ^ 63 - 1"
  shows "sint (w + 1) = sint w + 1"
proof -
  have "sint (w + 1) = signed_take_bit 63 (sint w + 1)"
    by (simp add: signed_take_bit_add sint_word_ariths)
  moreover have "- (2 ^ 63) \<le> sint w"
    using sint_ge [of w] by simp
  ultimately show ?thesis
    using assms by (simp add: signed_take_bit_int_eq_self)
qed

section \<open>Maps and their iteration order\<close>

text \<open>
  A Go map is a HOL map. \<open>range\<close> over a map visits every key once, in an order the language
  leaves open: an operation that iterates takes the order as a list argument, and its theorems
  hold for every list that is an iteration order of the map.
\<close>

definition iter_order :: "'k list \<Rightarrow> ('k \<rightharpoonup> 'v) \<Rightarrow> bool" where
  "iter_order ks m \<longleftrightarrow> distinct ks \<and> set ks = dom m"

lemma iter_order_mem: "iter_order ks m \<Longrightarrow> k \<in> set ks \<longleftrightarrow> m k \<noteq> None"
  by (auto simp: iter_order_def dom_def)

lemma iter_order_sort:
  "iter_order ks m \<Longrightarrow> iter_order ks' m \<Longrightarrow> sort ks = sort (ks' :: 'k :: linorder list)"
  unfolding iter_order_def by (metis sorted_list_of_set_sort_remdups distinct_remdups_id)

section \<open>Sorting with a less function\<close>

text \<open>
  \<open>sort.SliceStable(xs, less)\<close> returns the elements in an order in which no later element is
  less than an earlier one, elements that are not ordered by \<open>less\<close> keeping their places. Go
  promises this for a strict weak order only; the model inserts the elements one by one, and
  the locale below shows that its result is the only list with these properties.
\<close>

fun insert_by :: "('a \<Rightarrow> 'a \<Rightarrow> bool) \<Rightarrow> 'a \<Rightarrow> 'a list \<Rightarrow> 'a list" where
  "insert_by lt x [] = [x]"
| "insert_by lt x (y # ys) = (if lt y x then y # insert_by lt x ys else x # y # ys)"

definition sort_stable :: "('a \<Rightarrow> 'a \<Rightarrow> bool) \<Rightarrow> 'a list \<Rightarrow> 'a list" where
  "sort_stable lt xs = foldr (insert_by lt) xs []"

lemma sort_stable_Nil [simp]: "sort_stable lt [] = []"
  by (simp add: sort_stable_def)

lemma sort_stable_Cons [simp]: "sort_stable lt (x # xs) = insert_by lt x (sort_stable lt xs)"
  by (simp add: sort_stable_def)

lemma mset_insert_by [simp]: "mset (insert_by lt x xs) = add_mset x (mset xs)"
  by (induction xs) auto

lemma mset_sort_stable [simp]: "mset (sort_stable lt xs) = mset xs"
  by (induction xs) auto

lemma set_sort_stable [simp]: "set (sort_stable lt xs) = set xs"
  using mset_sort_stable by (rule mset_eq_setD)

lemma length_sort_stable [simp]: "length (sort_stable lt xs) = length xs"
  using mset_sort_stable by (rule mset_eq_length)

lemma sort_stable_eq_Nil [simp]: "sort_stable lt xs = [] \<longleftrightarrow> xs = []"
  by (metis length_0_conv length_sort_stable)

lemma insert_by_cong:
  "(\<And>y. y \<in> set ys \<Longrightarrow> lt y x = lt' y x) \<Longrightarrow> insert_by lt x ys = insert_by lt' x ys"
  by (induction ys) auto

lemma sort_stable_less_cong:
  "(\<And>x y. x \<in> set xs \<Longrightarrow> y \<in> set xs \<Longrightarrow> lt x y = lt' x y) \<Longrightarrow> sort_stable lt xs = sort_stable lt' xs"
proof (induction xs)
  case (Cons x xs)
  then have "sort_stable lt xs = sort_stable lt' xs" by simp
  moreover have "insert_by lt x (sort_stable lt' xs) = insert_by lt' x (sort_stable lt' xs)"
    using Cons.prems by (intro insert_by_cong) simp
  ultimately show ?case by simp
qed simp

locale strict_weak_order =
  fixes lt :: "'a \<Rightarrow> 'a \<Rightarrow> bool"
  assumes irrefl: "\<not> lt x x"
    and cotrans: "lt x z \<Longrightarrow> lt x y \<or> lt y z"
    and trans: "lt x y \<Longrightarrow> lt y z \<Longrightarrow> lt x z"
begin

lemma asym: "lt x y \<Longrightarrow> \<not> lt y x"
  using irrefl trans by blast

lemma not_lt_trans: "\<not> lt y x \<Longrightarrow> \<not> lt z y \<Longrightarrow> \<not> lt z x"
  using cotrans by blast

lemma sorted_insert_by:
  "sorted_wrt (\<lambda>x y. \<not> lt y x) xs \<Longrightarrow> sorted_wrt (\<lambda>x y. \<not> lt y x) (insert_by lt x xs)"
proof (induction xs)
  case Nil
  then show ?case by simp
next
  case (Cons y ys)
  have set_eq: "set (insert_by lt x ys) = insert x (set ys)"
    using mset_insert_by [of lt x ys] by (metis set_mset_add_mset_insert set_mset_mset)
  show ?case
  proof (cases "lt y x")
    case True
    with Cons set_eq asym [OF True] show ?thesis by auto
  next
    case False
    with Cons.prems not_lt_trans [OF False] show ?thesis by auto
  qed
qed

theorem sorted_sort_stable: "sorted_wrt (\<lambda>x y. \<not> lt y x) (sort_stable lt xs)"
  by (induction xs) (auto intro: sorted_insert_by)

lemma insert_by_least: "(\<And>y. y \<in> set ys \<Longrightarrow> \<not> lt y x) \<Longrightarrow> insert_by lt x ys = x # ys"
  by (cases ys) auto

theorem sort_stable_sorted:
  "sorted_wrt (\<lambda>x y. \<not> lt y x) xs \<Longrightarrow> sort_stable lt xs = xs"
  by (induction xs) (auto simp: insert_by_least)

end

text \<open>
  When \<open>less\<close> also separates any two elements of the list, the result does not depend on the
  order the list came in.
\<close>

locale strict_total_on = strict_weak_order lt for lt :: "'a \<Rightarrow> 'a \<Rightarrow> bool" +
  fixes sep :: "'a \<Rightarrow> 'b"
  assumes total: "sep x \<noteq> sep y \<Longrightarrow> lt x y \<or> lt y x"
begin

lemma sorted_perm_unique:
  assumes "mset xs = mset ys" and "inj_on sep (set xs)"
    and "sorted_wrt (\<lambda>x y. \<not> lt y x) xs" and "sorted_wrt (\<lambda>x y. \<not> lt y x) ys"
  shows "xs = ys"
  using assms
proof (induction xs arbitrary: ys)
  case Nil
  then show ?case by simp
next
  case (Cons x xs)
  from Cons.prems(1) obtain y ys' where ys: "ys = y # ys'"
    by (cases ys) auto
  have sets: "insert x (set xs) = insert y (set ys')"
    using mset_eq_setD [OF Cons.prems(1)] by (simp add: ys)
  have "x = y"
  proof (rule ccontr)
    assume "x \<noteq> y"
    with sets have "x \<in> set ys'" and "y \<in> set xs" by auto
    with Cons.prems(3,4) ys have "\<not> lt y x" and "\<not> lt x y" by auto
    with total have "sep x = sep y" by blast
    with \<open>x \<noteq> y\<close> \<open>y \<in> set xs\<close> Cons.prems(2) show False by (auto simp: inj_on_def)
  qed
  moreover have "xs = ys'"
    using Cons.prems ys \<open>x = y\<close> by (intro Cons.IH) (auto simp: inj_on_def)
  ultimately show ?case by (simp add: ys)
qed

theorem sort_stable_cong:
  assumes "mset xs = mset ys" and "inj_on sep (set xs)"
  shows "sort_stable lt xs = sort_stable lt ys"
  using assms by (intro sorted_perm_unique) (auto simp: sorted_sort_stable)

end

section \<open>String functions\<close>

text \<open>
  The functions of package \<open>strings\<close> the sources call, on bytes. Case mapping and white space
  follow Go on ASCII; a byte from 128 up (a part of a multi-byte rune) is left alone by
  \<open>ToLower\<close> and is never white space.
\<close>

definition is_space :: "char \<Rightarrow> bool" where
  "is_space c = (of_char c = (32 :: nat) \<or> (9 \<le> (of_char c :: nat) \<and> (of_char c :: nat) \<le> 13))"

definition is_digit :: "char \<Rightarrow> bool" where
  "is_digit c = (48 \<le> (of_char c :: nat) \<and> (of_char c :: nat) \<le> 57)"

definition is_lower :: "char \<Rightarrow> bool" where
  "is_lower c = (97 \<le> (of_char c :: nat) \<and> (of_char c :: nat) \<le> 122)"

definition is_upper :: "char \<Rightarrow> bool" where
  "is_upper c = (65 \<le> (of_char c :: nat) \<and> (of_char c :: nat) \<le> 90)"

definition to_lower_char :: "char \<Rightarrow> char" where
  "to_lower_char c = (if is_upper c then char_of ((of_char c :: nat) + 32) else c)"

definition ToLower :: "gostring \<Rightarrow> gostring" where
  "ToLower s = map to_lower_char s"

definition TrimSpace :: "gostring \<Rightarrow> gostring" where
  "TrimSpace s = rev (dropWhile is_space (rev (dropWhile is_space s)))"

definition EqualFold :: "gostring \<Rightarrow> gostring \<Rightarrow> bool" where
  "EqualFold s t = (ToLower s = ToLower t)"

definition HasPrefix :: "gostring \<Rightarrow> gostring \<Rightarrow> bool" where
  "HasPrefix s p = (take (length p) s = p)"

text \<open>\<open>strings.Index\<close>: the position of the first occurrence, \<open>None\<close> for Go's \<open>-1\<close>.\<close>

fun str_Index :: "gostring \<Rightarrow> gostring \<Rightarrow> nat option" where
  "str_Index [] p = (if p = [] then Some 0 else None)"
| "str_Index (c # s) p =
     (if HasPrefix (c # s) p then Some 0 else map_option Suc (str_Index s p))"

definition str_Contains :: "gostring \<Rightarrow> gostring \<Rightarrow> bool" where
  "str_Contains s p = (str_Index s p \<noteq> None)"

text \<open>\<open>strings.Fields\<close>: the maximal runs of non-space bytes.\<close>

fun fields_acc :: "gostring \<Rightarrow> gostring \<Rightarrow> gostring list" where
  "fields_acc cur [] = (if cur = [] then [] else [cur])"
| "fields_acc cur (c # s) =
     (if is_space c then (if cur = [] then fields_acc [] s else cur # fields_acc [] s)
      else fields_acc (cur @ [c]) s)"

definition Fields :: "gostring \<Rightarrow> gostring list" where
  "Fields s = fields_acc [] s"

text \<open>\<open>strings.Split(s, sep)\<close> for a one-byte separator.\<close>

fun split_acc :: "char \<Rightarrow> gostring \<Rightarrow> gostring \<Rightarrow> gostring list" where
  "split_acc sep cur [] = [cur]"
| "split_acc sep cur (c # s) =
     (if c = sep then cur # split_acc sep [] s else split_acc sep (cur @ [c]) s)"

definition str_Split :: "char \<Rightarrow> gostring \<Rightarrow> gostring list" where
  "str_Split sep s = split_acc sep [] s"

lemma dropWhile_hd: "dropWhile P xs \<noteq> [] \<Longrightarrow> \<not> P (hd (dropWhile P xs))"
  by (induction xs) auto

lemma dropWhile_id: "xs = [] \<or> \<not> P (hd xs) \<Longrightarrow> dropWhile P xs = xs"
  by (cases xs) auto

lemma TrimSpace_ends:
  assumes "TrimSpace s \<noteq> []"
  shows "\<not> is_space (hd (TrimSpace s))" and "\<not> is_space (last (TrimSpace s))"
proof -
  let ?t = "dropWhile is_space s"
  let ?u = "dropWhile is_space (rev ?t)"
  have u: "?u \<noteq> []" using assms by (simp add: TrimSpace_def)
  then show "\<not> is_space (last (TrimSpace s))"
    using dropWhile_hd [of is_space "rev ?t"] by (simp add: TrimSpace_def last_rev)
  obtain v where v: "rev ?t = v @ ?u"
    by (metis takeWhile_dropWhile_id)
  then have "?t = rev ?u @ rev v"
    by (metis rev_append rev_rev_ident)
  moreover from u have "rev ?u \<noteq> []" by simp
  ultimately have "?t \<noteq> []" and "hd ?t = hd (rev ?u)"
    by (metis append_is_Nil_conv, metis hd_append2)
  then show "\<not> is_space (hd (TrimSpace s))"
    using dropWhile_hd [of is_space s] by (simp add: TrimSpace_def)
qed

lemma TrimSpace_idem [simp]: "TrimSpace (TrimSpace s) = TrimSpace s"
proof (cases "TrimSpace s = []")
  case True
  moreover have "TrimSpace [] = []" by (simp add: TrimSpace_def)
  ultimately show ?thesis by simp
next
  case False
  from TrimSpace_ends [OF this] False show ?thesis
    by (subst TrimSpace_def) (simp add: dropWhile_id hd_rev)
qed

lemma to_lower_char_idem [simp]: "to_lower_char (to_lower_char c) = to_lower_char c"
  by (auto simp: to_lower_char_def is_upper_def of_char_of)

lemma ToLower_idem [simp]: "ToLower (ToLower s) = ToLower s"
  by (simp add: ToLower_def)

lemma ToLower_append [simp]: "ToLower (s @ t) = ToLower s @ ToLower t"
  by (simp add: ToLower_def)

lemma length_ToLower [simp]: "length (ToLower s) = length s"
  by (simp add: ToLower_def)

lemma HasPrefix_append [simp]: "HasPrefix (p @ s) p"
  by (simp add: HasPrefix_def)

lemma HasPrefix_iff: "HasPrefix s p \<longleftrightarrow> (\<exists>t. s = p @ t)"
  by (metis HasPrefix_append HasPrefix_def append_take_drop_id)

lemma str_Index_single_append:
  "c \<notin> set s \<Longrightarrow> str_Index (s @ c # t) [c] = Some (length s)"
  by (induction s) (auto simp: HasPrefix_def)

lemma str_Index_single_SomeD:
  "str_Index s [c] = Some i \<Longrightarrow> i < length s \<and> s ! i = c \<and> c \<notin> set (take i s)"
  by (induction s arbitrary: i) (auto simp: HasPrefix_def split: if_splits)

lemma str_Index_None_iff: "str_Index s [c] = None \<longleftrightarrow> c \<notin> set s"
  by (induction s) (auto simp: HasPrefix_def)

section \<open>Lists\<close>

lemma map_filter_eq_filter: "map f (filter P xs) = filter Q (map f xs)"
  if "\<And>x. x \<in> set xs \<Longrightarrow> P x = Q (f x)"
  using that by (induction xs) auto

lemma distinct_map_filterI: "distinct (map f xs) \<Longrightarrow> distinct (map f (filter P xs))"
  by (simp add: distinct_map_filter)

text \<open>The first element of a list with a property: the \<open>for ... if ... return\<close> of the sources.\<close>

lemma find_SomeD: "List.find P xs = Some x \<Longrightarrow> x \<in> set xs \<and> P x"
  by (auto simp: find_Some_iff)

lemma find_None_iff_all: "List.find P xs = None \<longleftrightarrow> (\<forall>x \<in> set xs. \<not> P x)"
  by (auto simp: find_None_iff)

section \<open>Building strict weak orders\<close>

text \<open>Comparing by a key, and by a second order where the first does not decide.\<close>

lemma strict_weak_order_key: "strict_weak_order (\<lambda>x y. f x < (f y :: 'b :: linorder))"
  by unfold_locales auto

definition lex_less :: "('a \<Rightarrow> 'a \<Rightarrow> bool) \<Rightarrow> ('a \<Rightarrow> 'a \<Rightarrow> bool) \<Rightarrow> 'a \<Rightarrow> 'a \<Rightarrow> bool" where
  "lex_less lt1 lt2 x y = (lt1 x y \<or> (\<not> lt1 y x \<and> lt2 x y))"

lemma strict_weak_order_lex:
  assumes "strict_weak_order lt1" and "strict_weak_order lt2"
  shows "strict_weak_order (lex_less lt1 lt2)"
proof -
  note 1 = strict_weak_order.irrefl [OF assms(1)] strict_weak_order.trans [OF assms(1)]
    strict_weak_order.cotrans [OF assms(1)]
  note 2 = strict_weak_order.irrefl [OF assms(2)] strict_weak_order.trans [OF assms(2)]
    strict_weak_order.cotrans [OF assms(2)]
  show ?thesis
  proof
    show "\<not> lex_less lt1 lt2 x x" for x
      using 1 2 by (simp add: lex_less_def)
    show "lex_less lt1 lt2 x y \<or> lex_less lt1 lt2 y z" if "lex_less lt1 lt2 x z" for x y z
      using that 1(2,3) 2(3) unfolding lex_less_def by metis
    show "lex_less lt1 lt2 x z" if "lex_less lt1 lt2 x y" "lex_less lt1 lt2 y z" for x y z
      using that 1(2,3) 2(2) unfolding lex_less_def by metis
  qed
qed

lemma lex_less_key:
  fixes f :: "'a \<Rightarrow> 'b :: linorder"
  shows "lex_less (\<lambda>x y. f x < f y) lt x y = (if f x \<noteq> f y then f x < f y else lt x y)"
  by (cases "f x" "f y" rule: linorder_cases) (auto simp: lex_less_def)

end
