(* ===== verification/ModelTypes.thy ===== *)
theory ModelTypes
  imports Prelude
begin

text \<open>
  Package \<open>internal/model\<close>: identities (\<open>identity.go\<close>), access classes, three-valued
  capabilities, models, routes and catalog snapshots (\<open>types.go\<close>), failures and the routing
  action they decide (\<open>failure.go\<close>). The string-typed enums become datatypes whose last
  constructor holds any other string (the zero value is that constructor on the empty string).
\<close>

section \<open>Identities (identity.go)\<close>

type_synonym CanonicalModelKey = gostring
type_synonym ProviderModelID = gostring
type_synonym RouteID = gostring

datatype model_error =
    EmptyCanonicalKey
  | CanonicalKeyTooLong nat
  | InvalidCanonicalKey gostring
  | InvalidProviderSegment gostring
  | EmptyModelSegment
  | ModelSegmentSeparator gostring
  | ProviderModelIDTooLong nat
  | InvalidProviderModelID gostring
  | InvalidRouteName gostring
  | EmptyRouteModel
  | RouteModelSeparator gostring
  | EmptyRouteID
  | EmptyRouteModelID
  | EmptyRouteProvider
  | EmptyRouteUpstream
  | InvalidRouteAccess
  | NegativeRevision i64
  | NilModels
  | EmptyFailureClass
  | InvalidFailureScope gostring

text \<open>The regular expressions \<open>keyRe\<close> and \<open>provider\<close>: a first byte, then a run to the end.\<close>

definition key_start :: "char \<Rightarrow> bool" where
  "key_start c = (is_lower c \<or> is_digit c)"

definition keyRe :: "gostring \<Rightarrow> bool" where
  "keyRe s = (s \<noteq> [] \<and> key_start (hd s) \<and>
     list_all (\<lambda>c. key_start c \<or> c = CHR ''.'' \<or> c = CHR ''_'' \<or> c = CHR ''-'') (tl s))"

definition providerRe :: "gostring \<Rightarrow> bool" where
  "providerRe s = (s \<noteq> [] \<and> key_start (hd s) \<and>
     list_all (\<lambda>c. key_start c \<or> c = CHR ''_'' \<or> c = CHR ''-'') (tl s))"

definition NewCanonicalModelKey :: "gostring \<Rightarrow> model_error + CanonicalModelKey" where
  "NewCanonicalModelKey s0 =
     (let s = ToLower (TrimSpace s0) in
      if s = [] then Inl EmptyCanonicalKey
      else if 128 < length s then Inl (CanonicalKeyTooLong (length s))
      else if \<not> keyRe s then Inl (InvalidCanonicalKey s)
      else Inr s)"

definition NewProviderModelID :: "gostring \<Rightarrow> gostring \<Rightarrow> model_error + ProviderModelID" where
  "NewProviderModelID prov mdl =
     (if \<not> providerRe prov then Inl (InvalidProviderSegment prov)
      else if mdl = [] then Inl EmptyModelSegment
      else if CHR ''/'' \<in> set mdl \<or> CHR 0x5C \<in> set mdl then Inl (ModelSegmentSeparator mdl)
      else let pid = prov @ ''/'' @ mdl in
        if 256 < length pid then Inl (ProviderModelIDTooLong (length pid)) else Inr pid)"

text \<open>\<open>ProviderModelID.Parse\<close>: \<open>i <= 0\<close> covers the \<open>-1\<close> of a missing separator.\<close>

definition id_Parse :: "ProviderModelID \<Rightarrow> model_error + (gostring \<times> gostring)" where
  "id_Parse s = (case str_Index s ''/'' of
       None \<Rightarrow> Inl (InvalidProviderModelID s)
     | Some i \<Rightarrow> if i = 0 \<or> i = length s - 1 then Inl (InvalidProviderModelID s)
         else Inr (take i s, drop (i + 1) s))"

definition NewRouteID :: "gostring \<Rightarrow> gostring \<Rightarrow> model_error + RouteID" where
  "NewRouteID routeName mdl =
     (if \<not> providerRe routeName then Inl (InvalidRouteName routeName)
      else if mdl = [] then Inl EmptyRouteModel
      else if str_Contains mdl ''::'' then Inl (RouteModelSeparator mdl)
      else Inr (routeName @ ''::'' @ mdl))"

subsection \<open>Identity lemmas\<close>

lemma key_start_not_special: "key_start c \<Longrightarrow> c \<noteq> CHR ''/'' \<and> c \<noteq> CHR '':''"
  by (auto simp: key_start_def is_lower_def is_digit_def)

lemma providerRe_no_sep:
  assumes "providerRe s"
  shows "CHR ''/'' \<notin> set s" and "CHR '':'' \<notin> set s" and "s \<noteq> []"
  using assms
  by (cases s; auto simp: providerRe_def list_all_iff dest: key_start_not_special)+

lemma id_Parse_SomeI:
  "CHR ''/'' \<notin> set p \<Longrightarrow> p \<noteq> [] \<Longrightarrow> m \<noteq> [] \<Longrightarrow> id_Parse (p @ CHR ''/'' # m) = Inr (p, m)"
  by (simp add: id_Parse_def str_Index_single_append)

lemma id_Parse_InrD:
  assumes "id_Parse s = Inr (p, m)"
  shows "s = p @ CHR ''/'' # m" and "CHR ''/'' \<notin> set p" and "p \<noteq> []" and "m \<noteq> []"
proof -
  from assms obtain i where i: "str_Index s ''/'' = Some i" and ne: "i \<noteq> 0" "i \<noteq> length s - 1"
    and pm: "p = take i s" "m = drop (i + 1) s"
    by (auto simp: id_Parse_def split: option.splits if_splits)
  from str_Index_single_SomeD [OF i] have *: "i < length s" "s ! i = CHR ''/''"
    "CHR ''/'' \<notin> set (take i s)" by auto
  then show "s = p @ CHR ''/'' # m" and "CHR ''/'' \<notin> set p" and "p \<noteq> []" and "m \<noteq> []"
    using ne pm id_take_nth_drop [of i s] by auto
qed

lemma NewProviderModelID_Parse:
  "NewProviderModelID prov mdl = Inr pid \<Longrightarrow> id_Parse pid = Inr (prov, mdl)"
  by (auto simp: NewProviderModelID_def Let_def split: if_splits
      intro!: id_Parse_SomeI dest: providerRe_no_sep)

lemma str_Index_double_append:
  "CHR '':'' \<notin> set s \<Longrightarrow> str_Index (s @ CHR '':'' # CHR '':'' # t) ''::'' = Some (length s)"
  by (induction s) (auto simp: HasPrefix_def)

section \<open>Access classes and capabilities (types.go)\<close>

datatype AccessClass =
    AccessUnknown
  | AccessFree
  | AccessFreeTier
  | AccessPaid
  | AccessOther gostring

fun AutoRoutable :: "AccessClass \<Rightarrow> bool" where
  "AutoRoutable a = (a = AccessFree \<or> a = AccessFreeTier)"

definition Probeable :: "AccessClass \<Rightarrow> bool" where
  "Probeable a = AutoRoutable a"

text \<open>The string of an access class, \<open>string(a)\<close>.\<close>

fun AccessClass_str :: "AccessClass \<Rightarrow> gostring" where
  "AccessClass_str AccessUnknown = ''Unknown''"
| "AccessClass_str AccessFree = ''Free''"
| "AccessClass_str AccessFreeTier = ''Free-tier''"
| "AccessClass_str AccessPaid = ''Paid''"
| "AccessClass_str (AccessOther s) = s"

datatype Capability =
    CapStreaming
  | CapTools
  | CapVision
  | CapStructuredOutput
  | CapReasoning
  | CapOther gostring

datatype CapabilityState = CapabilityUnknown | CapabilityUnsupported | CapabilitySupported

type_synonym CapabilitySet = "16 word"

fun capabilityBit :: "Capability \<Rightarrow> CapabilitySet" where
  "capabilityBit CapStreaming = push_bit 0 1"
| "capabilityBit CapTools = push_bit 1 1"
| "capabilityBit CapVision = push_bit 2 1"
| "capabilityBit CapStructuredOutput = push_bit 3 1"
| "capabilityBit CapReasoning = push_bit 4 1"
| "capabilityBit (CapOther _) = 0"

record Capabilities =
  cap_Streaming :: bool
  cap_Tools :: bool
  cap_Vision :: bool
  cap_StructuredOutput :: bool
  cap_Reasoning :: bool
  cap_Unknown :: CapabilitySet
  cap_ContextLength :: int
  cap_MaxOutput :: int

record RequestRequirements =
  req_Streaming :: bool
  req_Tools :: bool
  req_Vision :: bool
  req_StructuredOutput :: bool
  req_Reasoning :: bool
  req_MinContextLength :: int
  req_MaxOutputTokens :: int

definition IsUnknown :: "Capabilities \<Rightarrow> Capability \<Rightarrow> bool" where
  "IsUnknown c cap = (cap_Unknown c AND capabilityBit cap \<noteq> 0)"

definition MarkUnknown :: "Capability \<Rightarrow> Capabilities \<Rightarrow> Capabilities" where
  "MarkUnknown cap c = c\<lparr>cap_Unknown := cap_Unknown c OR capabilityBit cap\<rparr>"

definition State :: "Capabilities \<Rightarrow> Capability \<Rightarrow> CapabilityState" where
  "State c cap =
     (if IsUnknown c cap then CapabilityUnknown
      else case cap of
        CapStreaming \<Rightarrow> if cap_Streaming c then CapabilitySupported else CapabilityUnsupported
      | CapTools \<Rightarrow> if cap_Tools c then CapabilitySupported else CapabilityUnsupported
      | CapVision \<Rightarrow> if cap_Vision c then CapabilitySupported else CapabilityUnsupported
      | CapStructuredOutput \<Rightarrow>
          if cap_StructuredOutput c then CapabilitySupported else CapabilityUnsupported
      | CapReasoning \<Rightarrow> if cap_Reasoning c then CapabilitySupported else CapabilityUnsupported
      | CapOther _ \<Rightarrow> CapabilityUnknown)"

text \<open>\<open>intersectFeature\<close> returns the pair \<open>(value, unknown)\<close>.\<close>

definition intersectFeature :: "bool \<Rightarrow> bool \<Rightarrow> bool \<Rightarrow> bool \<Rightarrow> bool \<times> bool" where
  "intersectFeature a aUnknown b bUnknown =
     (if (\<not> aUnknown \<and> \<not> a) \<or> (\<not> bUnknown \<and> \<not> b) then (False, False)
      else if aUnknown \<or> bUnknown then (a \<and> b, True)
      else (a \<and> b, False))"

definition minPositive :: "int \<Rightarrow> int \<Rightarrow> int" where
  "minPositive a b = (if a \<le> 0 then b else if b \<le> 0 then a else if a < b then a else b)"

definition Intersect :: "Capabilities \<Rightarrow> Capabilities \<Rightarrow> Capabilities" where
  "Intersect c d =
     (let (streaming, streamingUnknown) = intersectFeature (cap_Streaming c)
            (IsUnknown c CapStreaming) (cap_Streaming d) (IsUnknown d CapStreaming);
          (tools, toolsUnknown) = intersectFeature (cap_Tools c)
            (IsUnknown c CapTools) (cap_Tools d) (IsUnknown d CapTools);
          (vision, visionUnknown) = intersectFeature (cap_Vision c)
            (IsUnknown c CapVision) (cap_Vision d) (IsUnknown d CapVision);
          (structured, structuredUnknown) = intersectFeature (cap_StructuredOutput c)
            (IsUnknown c CapStructuredOutput) (cap_StructuredOutput d) (IsUnknown d CapStructuredOutput);
          (reasoning, reasoningUnknown) = intersectFeature (cap_Reasoning c)
            (IsUnknown c CapReasoning) (cap_Reasoning d) (IsUnknown d CapReasoning);
          u0 = 0;
          u1 = (if streamingUnknown then u0 OR capabilityBit CapStreaming else u0);
          u2 = (if toolsUnknown then u1 OR capabilityBit CapTools else u1);
          u3 = (if visionUnknown then u2 OR capabilityBit CapVision else u2);
          u4 = (if structuredUnknown then u3 OR capabilityBit CapStructuredOutput else u3);
          u5 = (if reasoningUnknown then u4 OR capabilityBit CapReasoning else u4)
      in \<lparr>cap_Streaming = streaming, cap_Tools = tools, cap_Vision = vision,
          cap_StructuredOutput = structured, cap_Reasoning = reasoning, cap_Unknown = u5,
          cap_ContextLength = minPositive (cap_ContextLength c) (cap_ContextLength d),
          cap_MaxOutput = minPositive (cap_MaxOutput c) (cap_MaxOutput d)\<rparr>)"

definition Supports :: "Capabilities \<Rightarrow> RequestRequirements \<Rightarrow> bool" where
  "Supports c req =
     (if req_Streaming req \<and> State c CapStreaming \<noteq> CapabilitySupported then False
      else if req_Tools req \<and> State c CapTools \<noteq> CapabilitySupported then False
      else if req_Vision req \<and> State c CapVision \<noteq> CapabilitySupported then False
      else if req_StructuredOutput req \<and> State c CapStructuredOutput \<noteq> CapabilitySupported then False
      else if req_Reasoning req \<and> State c CapReasoning \<noteq> CapabilitySupported then False
      else if 0 < req_MinContextLength req \<and> 0 < cap_ContextLength c
        \<and> cap_ContextLength c < req_MinContextLength req then False
      else if 0 < req_MaxOutputTokens req \<and> 0 < cap_MaxOutput c
        \<and> cap_MaxOutput c < req_MaxOutputTokens req then False
      else True)"

subsection \<open>The three-valued reading of a capability set\<close>

text \<open>
  The specification of \<open>Intersect\<close>: on each feature, unsupported wins, both sides supported
  give supported, and anything else stays unknown.
\<close>

fun state_meet :: "CapabilityState \<Rightarrow> CapabilityState \<Rightarrow> CapabilityState" where
  "state_meet CapabilityUnsupported _ = CapabilityUnsupported"
| "state_meet _ CapabilityUnsupported = CapabilityUnsupported"
| "state_meet CapabilitySupported CapabilitySupported = CapabilitySupported"
| "state_meet _ _ = CapabilityUnknown"

lemma state_meet_comm: "state_meet a b = state_meet b a"
  by (cases a; cases b) auto

lemma state_meet_assoc: "state_meet (state_meet a b) c = state_meet a (state_meet b c)"
  by (cases a; cases b; cases c) auto

lemma state_meet_Supported_iff:
  "state_meet a b = CapabilitySupported \<longleftrightarrow> a = CapabilitySupported \<and> b = CapabilitySupported"
  by (cases a; cases b) auto

lemma IsUnknown_bit:
  "IsUnknown c CapStreaming = bit (cap_Unknown c) 0"
  "IsUnknown c CapTools = bit (cap_Unknown c) 1"
  "IsUnknown c CapVision = bit (cap_Unknown c) 2"
  "IsUnknown c CapStructuredOutput = bit (cap_Unknown c) 3"
  "IsUnknown c CapReasoning = bit (cap_Unknown c) 4"
  "IsUnknown c (CapOther s) = False"
  by (simp_all only: IsUnknown_def capabilityBit.simps flip: bit_iff_and_push_bit_not_eq_0) simp_all

lemma bit_push_1: "bit (push_bit n 1 :: 16 word) m \<longleftrightarrow> m = n \<and> n < 16"
  by (auto simp: bit_exp_iff)

lemma intersectFeature_unknown:
  "snd (intersectFeature a au b bu) \<longleftrightarrow> (au \<or> a) \<and> (bu \<or> b) \<and> (au \<or> bu)"
  by (auto simp: intersectFeature_def)

lemma intersectFeature_value:
  "\<not> snd (intersectFeature a au b bu) \<Longrightarrow>
     fst (intersectFeature a au b bu) \<longleftrightarrow> (a \<and> \<not> au) \<and> (b \<and> \<not> bu)"
  by (auto simp: intersectFeature_def split: if_splits)

lemma Intersect_sel:
  "cap_Streaming (Intersect c d) = fst (intersectFeature (cap_Streaming c)
     (IsUnknown c CapStreaming) (cap_Streaming d) (IsUnknown d CapStreaming))"
  "cap_Tools (Intersect c d) = fst (intersectFeature (cap_Tools c)
     (IsUnknown c CapTools) (cap_Tools d) (IsUnknown d CapTools))"
  "cap_Vision (Intersect c d) = fst (intersectFeature (cap_Vision c)
     (IsUnknown c CapVision) (cap_Vision d) (IsUnknown d CapVision))"
  "cap_StructuredOutput (Intersect c d) = fst (intersectFeature (cap_StructuredOutput c)
     (IsUnknown c CapStructuredOutput) (cap_StructuredOutput d) (IsUnknown d CapStructuredOutput))"
  "cap_Reasoning (Intersect c d) = fst (intersectFeature (cap_Reasoning c)
     (IsUnknown c CapReasoning) (cap_Reasoning d) (IsUnknown d CapReasoning))"
  "cap_ContextLength (Intersect c d) = minPositive (cap_ContextLength c) (cap_ContextLength d)"
  "cap_MaxOutput (Intersect c d) = minPositive (cap_MaxOutput c) (cap_MaxOutput d)"
  by (simp_all add: Intersect_def Let_def split: prod.splits)

lemma Intersect_IsUnknown:
  "IsUnknown (Intersect c d) CapStreaming = snd (intersectFeature (cap_Streaming c)
     (IsUnknown c CapStreaming) (cap_Streaming d) (IsUnknown d CapStreaming))"
  "IsUnknown (Intersect c d) CapTools = snd (intersectFeature (cap_Tools c)
     (IsUnknown c CapTools) (cap_Tools d) (IsUnknown d CapTools))"
  "IsUnknown (Intersect c d) CapVision = snd (intersectFeature (cap_Vision c)
     (IsUnknown c CapVision) (cap_Vision d) (IsUnknown d CapVision))"
  "IsUnknown (Intersect c d) CapStructuredOutput = snd (intersectFeature (cap_StructuredOutput c)
     (IsUnknown c CapStructuredOutput) (cap_StructuredOutput d) (IsUnknown d CapStructuredOutput))"
  "IsUnknown (Intersect c d) CapReasoning = snd (intersectFeature (cap_Reasoning c)
     (IsUnknown c CapReasoning) (cap_Reasoning d) (IsUnknown d CapReasoning))"
  by (simp_all add: Intersect_def Let_def IsUnknown_bit(1-5) bit_or_iff bit_push_1
      del: push_bit_of_1 split: prod.splits)

lemmas Intersect_facts = Intersect_sel Intersect_IsUnknown

lemma State_Intersect:
  "State (Intersect c d) cap = state_meet (State c cap) (State d cap)"
proof (cases cap)
  case (CapOther s)
  then show ?thesis by (simp add: State_def IsUnknown_bit(6))
qed (auto simp: State_def Intersect_facts intersectFeature_unknown intersectFeature_value)

text \<open>A numeric limit \<open>l\<close> (0 or less: unknown) leaves room for a requirement \<open>r\<close>.\<close>

definition limit_ok :: "int \<Rightarrow> int \<Rightarrow> bool" where
  "limit_ok l r \<longleftrightarrow> \<not> (0 < r \<and> 0 < l \<and> l < r)"

lemma limit_ok_minPositive: "limit_ok (minPositive a b) r \<longleftrightarrow> limit_ok a r \<and> limit_ok b r"
  by (auto simp: minPositive_def limit_ok_def)

lemma Supports_iff:
  "Supports c req \<longleftrightarrow>
     (req_Streaming req \<longrightarrow> State c CapStreaming = CapabilitySupported) \<and>
     (req_Tools req \<longrightarrow> State c CapTools = CapabilitySupported) \<and>
     (req_Vision req \<longrightarrow> State c CapVision = CapabilitySupported) \<and>
     (req_StructuredOutput req \<longrightarrow> State c CapStructuredOutput = CapabilitySupported) \<and>
     (req_Reasoning req \<longrightarrow> State c CapReasoning = CapabilitySupported) \<and>
     limit_ok (cap_ContextLength c) (req_MinContextLength req) \<and>
     limit_ok (cap_MaxOutput c) (req_MaxOutputTokens req)"
  by (auto simp: Supports_def limit_ok_def)

lemma Supports_Intersect: "Supports (Intersect c d) req \<longleftrightarrow> Supports c req \<and> Supports d req"
  unfolding Supports_iff State_Intersect state_meet_Supported_iff Intersect_sel limit_ok_minPositive
  by blast

section \<open>Models, routes, snapshots (types.go)\<close>

record CanonicalModel =
  cm_Key :: CanonicalModelKey
  cm_Alias :: gostring
  cm_Source :: gostring

record ProviderModel =
  pm_ID :: ProviderModelID
  pm_CanonicalKey :: CanonicalModelKey
  pm_DisplayName :: gostring
  pm_Base :: Capabilities
  pm_UpstreamID :: gostring

record ProviderRoute =
  rt_ID :: RouteID
  rt_ModelID :: ProviderModelID
  rt_Provider :: gostring
  rt_UpstreamModelID :: gostring
  rt_CredentialID :: gostring
  rt_Access :: AccessClass
  rt_CapabilityOverride :: "Capabilities option"
  rt_Enabled :: bool
  rt_AutoRouteAllowed :: "bool option"
  rt_ProbeAllowed :: "bool option"
  rt_DefaultSelected :: "bool option"

definition EffectiveAccess :: "ProviderRoute \<Rightarrow> AccessClass" where
  "EffectiveAccess r = (if rt_Access r = AccessOther [] then AccessUnknown else rt_Access r)"

definition AllowsAutomaticRouting :: "ProviderRoute \<Rightarrow> bool" where
  "AllowsAutomaticRouting r = (case rt_AutoRouteAllowed r of
       Some b \<Rightarrow> b
     | None \<Rightarrow> AutoRoutable (EffectiveAccess r))"

definition AllowsProbe :: "ProviderRoute \<Rightarrow> bool" where
  "AllowsProbe r = (case rt_ProbeAllowed r of
       Some b \<Rightarrow> b
     | None \<Rightarrow> Probeable (EffectiveAccess r))"

definition SelectedByDefault :: "ProviderRoute \<Rightarrow> bool" where
  "SelectedByDefault r = (case rt_DefaultSelected r of None \<Rightarrow> False | Some b \<Rightarrow> b)"

definition EffectiveCapabilities :: "ProviderRoute \<Rightarrow> Capabilities \<Rightarrow> Capabilities" where
  "EffectiveCapabilities r base = (case rt_CapabilityOverride r of
       None \<Rightarrow> base
     | Some ov \<Rightarrow> Intersect base ov)"

definition RouteAccess :: "ProviderRoute \<Rightarrow> AccessClass" where
  "RouteAccess r = EffectiveAccess r"

text \<open>\<open>None\<close> is Go's nil error.\<close>

definition route_Validate :: "ProviderRoute \<Rightarrow> model_error option" where
  "route_Validate r =
     (if rt_ID r = [] then Some EmptyRouteID
      else if rt_ModelID r = [] then Some EmptyRouteModelID
      else if rt_Provider r = [] then Some EmptyRouteProvider
      else if rt_UpstreamModelID r = [] then Some EmptyRouteUpstream
      else if EffectiveAccess r \<noteq> AccessUnknown \<and> EffectiveAccess r \<noteq> AccessFree
        \<and> EffectiveAccess r \<noteq> AccessFreeTier \<and> EffectiveAccess r \<noteq> AccessPaid
      then Some InvalidRouteAccess
      else None)"

text \<open>The map field of a snapshot may be nil, hence the \<open>option\<close>; a nil map has no keys.\<close>

record CatalogSnapshot =
  cs_Revision :: i64
  cs_CreatedAt :: time
  cs_Models :: "(ProviderModelID \<rightharpoonup> ProviderModel) option"

definition snap_models :: "CatalogSnapshot \<Rightarrow> ProviderModelID \<rightharpoonup> ProviderModel" where
  "snap_models s = (case cs_Models s of None \<Rightarrow> Map.empty | Some m \<Rightarrow> m)"

text \<open>A copy of a snapshot is the snapshot itself: HOL values have no aliases.\<close>

definition snap_Clone :: "CatalogSnapshot option \<Rightarrow> CatalogSnapshot option" where
  "snap_Clone s = (case s of None \<Rightarrow> None | Some sn \<Rightarrow> Some sn)"

definition snap_Validate :: "CatalogSnapshot \<Rightarrow> model_error option" where
  "snap_Validate s =
     (if sint (cs_Revision s) < 0 then Some (NegativeRevision (cs_Revision s))
      else case cs_Models s of None \<Rightarrow> Some NilModels | Some _ \<Rightarrow> None)"

lemma snap_Clone_id [simp]: "snap_Clone s = s"
  by (cases s) (simp_all add: snap_Clone_def)

lemma snap_Validate_None_iff:
  "snap_Validate s = None \<longleftrightarrow> 0 \<le> sint (cs_Revision s) \<and> cs_Models s \<noteq> None"
  by (auto simp: snap_Validate_def split: option.splits)

section \<open>Failures (failure.go)\<close>

datatype FailureClass =
    FailureCanceled
  | FailureTimeout
  | FailureRateLimited
  | FailureAuth
  | FailureBadRequest
  | FailureServerError
  | FailureProtocol
  | FailureNetwork
  | FailureUnknown
  | FailureClassOther gostring

datatype FailureScope =
    ScopeRequest
  | ScopeModel
  | ScopeRoute
  | ScopeCredential
  | ScopeProvider
  | ScopeOther gostring

record Failure =
  f_Class :: FailureClass
  f_Scope :: FailureScope

definition NewFailure :: "FailureClass \<Rightarrow> FailureScope \<Rightarrow> Failure" where
  "NewFailure c s = \<lparr>f_Class = c, f_Scope = s\<rparr>"

definition failure_Validate :: "Failure \<Rightarrow> model_error option" where
  "failure_Validate f =
     (if f_Class f = FailureClassOther [] then Some EmptyFailureClass
      else case f_Scope f of ScopeOther s \<Rightarrow> Some (InvalidFailureScope s) | _ \<Rightarrow> None)"

datatype FailureAction =
    ActionStop
  | ActionNextRoute
  | ActionNextModel
  | ActionDisableCredential
  | ActionDisableRoute
  | ActionCooldownProvider

definition DecideFailureAction :: "Failure \<Rightarrow> FailureAction" where
  "DecideFailureAction f =
     (if f_Scope f = ScopeRequest \<or> f_Class f = FailureCanceled \<or> f_Class f = FailureUnknown
      then ActionStop
      else case f_Class f of
        FailureAuth \<Rightarrow>
          if f_Scope f = ScopeCredential then ActionDisableCredential else ActionStop
      | FailureRateLimited \<Rightarrow>
          if f_Scope f = ScopeProvider then ActionCooldownProvider else ActionNextRoute
      | FailureTimeout \<Rightarrow> ActionNextRoute
      | FailureNetwork \<Rightarrow> ActionNextRoute
      | FailureServerError \<Rightarrow> ActionNextModel
      | FailureProtocol \<Rightarrow> ActionDisableRoute
      | FailureBadRequest \<Rightarrow> ActionStop
      | _ \<Rightarrow> ActionStop)"

definition HTTPStatus :: "Failure \<Rightarrow> int" where
  "HTTPStatus f = (case f_Class f of
       FailureRateLimited \<Rightarrow> 429
     | FailureBadRequest \<Rightarrow> 400
     | _ \<Rightarrow> 502)"

lemma NewFailure_sel [simp]: "f_Class (NewFailure c s) = c" "f_Scope (NewFailure c s) = s"
  by (simp_all add: NewFailure_def)

lemma DecideFailureAction_request: "f_Scope f = ScopeRequest \<Longrightarrow> DecideFailureAction f = ActionStop"
  by (simp add: DecideFailureAction_def)

section \<open>Sample values\<close>

text \<open>A model and a route the witnesses are built from.\<close>

definition sample_model :: "gostring \<Rightarrow> ProviderModel" where
  "sample_model pid = \<lparr>pm_ID = pid, pm_CanonicalKey = [], pm_DisplayName = pid,
     pm_Base = \<lparr>cap_Streaming = True, cap_Tools = False, cap_Vision = False,
       cap_StructuredOutput = False, cap_Reasoning = False, cap_Unknown = 0,
       cap_ContextLength = 0, cap_MaxOutput = 0\<rparr>, pm_UpstreamID = pid\<rparr>"

definition sample_route :: "gostring \<Rightarrow> gostring \<Rightarrow> AccessClass \<Rightarrow> ProviderRoute" where
  "sample_route rid pid access = \<lparr>rt_ID = rid, rt_ModelID = pid, rt_Provider = ''p'',
     rt_UpstreamModelID = pid, rt_CredentialID = ''c'', rt_Access = access,
     rt_CapabilityOverride = None, rt_Enabled = True, rt_AutoRouteAllowed = None,
     rt_ProbeAllowed = None, rt_DefaultSelected = None\<rparr>"

section \<open>Properties\<close>

text \<open>Combining a model's capabilities with a route's override is the three-valued meet on every
  feature (unsupported wins, supported needs both sides, anything else is unknown), so a route supports
  a request exactly when both sides do; unknown never counts as supported.\<close>

theorem Intersect_is_meet:
  "State (Intersect c d) cap = state_meet (State c cap) (State d cap) \<and>
   Supports (Intersect c d) req = (Supports c req \<and> Supports d req)"
  using State_Intersect Supports_Intersect by blast

text \<open>A model identity is at most 256 bytes and splits back into the provider and the model it was
  made from, and only an identity with two non-empty segments splits.\<close>

theorem identity_roundtrip:
  assumes "NewProviderModelID prov mdl = Inr pid"
  shows "id_Parse pid = Inr (prov, mdl) \<and> length pid \<le> 256 \<and>
    (id_Parse s = Inr (p, m)) = (s = p @ ''/'' @ m \<and> p \<noteq> [] \<and> m \<noteq> [] \<and> CHR ''/'' \<notin> set p)"
proof -
  have "length pid \<le> 256"
    using assms by (auto simp: NewProviderModelID_def Let_def split: if_splits)
  moreover have "(id_Parse s = Inr (p, m)) = (s = p @ ''/'' @ m \<and> p \<noteq> [] \<and> m \<noteq> [] \<and> CHR ''/'' \<notin> set p)"
    using id_Parse_InrD [of s p m] id_Parse_SomeI [of p m] by auto
  ultimately show ?thesis using NewProviderModelID_Parse [OF assms] by blast
qed

theorem identity_roundtrip_witness: "id_Parse ''gemini/g-1'' = Inr (''gemini'', ''g-1'')"
  using identity_roundtrip [of "''gemini''" "''g-1''" "''gemini/g-1''"]
  by (simp add: NewProviderModelID_def providerRe_def key_start_def is_lower_def is_digit_def)

end
