(* ===== verification/Provider.thy ===== *)
theory Provider
  imports ModelTypes
begin

text \<open>
  Package \<open>internal/provider\<close>: the normalized request and stream events, and the error values
  that carry a classified failure from a provider to the gateway. A Go error is a chain: each
  value may unwrap to another, and \<open>errors.As\<close>/\<open>errors.Is\<close> look along the chain for the
  first value of a type or an equal value. The chain is explicit here, so every classification
  the gateway makes of an error is a function of it.
\<close>

section \<open>Error values\<close>

text \<open>
  \<open>NetError\<close> stands for any value of the interface \<open>net.Error\<close> (its \<open>Timeout()\<close>, its text,
  what it wraps), \<open>WrapError\<close> for \<open>fmt.Errorf("...%w", err)\<close>, \<open>PlainError\<close> for
  \<open>errors.New\<close> and for errors of foreign types the code never looks into.
\<close>

datatype goerr =
    UnsupportedError gostring gostring
  | FailureError Failure "goerr option" int
  | StatusError int
  | ErrCanceled
  | ErrDeadlineExceeded
  | ErrEOF
  | NetError bool gostring "goerr option"
  | WrapError gostring goerr
  | PlainError gostring

fun err_Unwrap :: "goerr \<Rightarrow> goerr option" where
  "err_Unwrap (FailureError _ cause _) = cause"
| "err_Unwrap (NetError _ _ inner) = inner"
| "err_Unwrap (WrapError _ e) = Some e"
| "err_Unwrap _ = None"

function (sequential) err_chain :: "goerr \<Rightarrow> goerr list" where
  "err_chain e = e # (case err_Unwrap e of None \<Rightarrow> [] | Some e' \<Rightarrow> err_chain e')"
  by pat_completeness auto

termination
  by (relation "measure size") (auto elim!: err_Unwrap.elims)

declare err_chain.simps [simp del]

lemma err_chain_simps [simp]:
  "err_chain (UnsupportedError p r) = [UnsupportedError p r]"
  "err_chain (FailureError f None s) = [FailureError f None s]"
  "err_chain (FailureError f (Some e) s) = FailureError f (Some e) s # err_chain e"
  "err_chain (StatusError c) = [StatusError c]"
  "err_chain ErrCanceled = [ErrCanceled]"
  "err_chain ErrDeadlineExceeded = [ErrDeadlineExceeded]"
  "err_chain ErrEOF = [ErrEOF]"
  "err_chain (NetError t x None) = [NetError t x None]"
  "err_chain (NetError t x (Some e)) = NetError t x (Some e) # err_chain e"
  "err_chain (WrapError x e) = WrapError x e # err_chain e"
  "err_chain (PlainError x) = [PlainError x]"
  by (simp_all add: err_chain.simps)

text \<open>\<open>errors.As\<close> for the target types the code asks for, and \<open>errors.Is\<close>.\<close>

fun first_some :: "('a \<Rightarrow> 'b option) \<Rightarrow> 'a list \<Rightarrow> 'b option" where
  "first_some f [] = None"
| "first_some f (x # xs) = (case f x of Some y \<Rightarrow> Some y | None \<Rightarrow> first_some f xs)"

fun sel_Unsupported :: "goerr \<Rightarrow> (gostring \<times> gostring) option" where
  "sel_Unsupported (UnsupportedError p r) = Some (p, r)"
| "sel_Unsupported _ = None"

fun sel_Failure :: "goerr \<Rightarrow> (Failure \<times> goerr option \<times> int) option" where
  "sel_Failure (FailureError f c s) = Some (f, c, s)"
| "sel_Failure _ = None"

fun sel_NetTimeout :: "goerr \<Rightarrow> bool option" where
  "sel_NetTimeout (NetError t _ _) = Some t"
| "sel_NetTimeout ErrDeadlineExceeded = Some True"
| "sel_NetTimeout _ = None"

fun sel_StatusCode :: "goerr \<Rightarrow> int option" where
  "sel_StatusCode (StatusError c) = Some c"
| "sel_StatusCode _ = None"

definition as_Unsupported :: "goerr \<Rightarrow> (gostring \<times> gostring) option" where
  "as_Unsupported e = first_some sel_Unsupported (err_chain e)"

definition as_Failure :: "goerr \<Rightarrow> (Failure \<times> goerr option \<times> int) option" where
  "as_Failure e = first_some sel_Failure (err_chain e)"

definition as_NetTimeout :: "goerr \<Rightarrow> bool option" where
  "as_NetTimeout e = first_some sel_NetTimeout (err_chain e)"

definition as_StatusCode :: "goerr \<Rightarrow> int option" where
  "as_StatusCode e = first_some sel_StatusCode (err_chain e)"

definition err_Is :: "goerr \<Rightarrow> goerr \<Rightarrow> bool" where
  "err_Is e target = (target \<in> set (err_chain e))"

lemmas err_queries = as_Unsupported_def as_Failure_def as_NetTimeout_def as_StatusCode_def err_Is_def

section \<open>Constructors and texts of errors (provider.go)\<close>

definition NewFailureError :: "Failure \<Rightarrow> goerr option \<Rightarrow> goerr" where
  "NewFailureError f cause = FailureError f cause
     (case cause of None \<Rightarrow> 0
      | Some e \<Rightarrow> (case as_StatusCode e of None \<Rightarrow> 0 | Some c \<Rightarrow> c))"

definition NewHTTPFailureError :: "Failure \<Rightarrow> int \<Rightarrow> goerr option \<Rightarrow> goerr" where
  "NewHTTPFailureError f status cause = FailureError f cause status"

definition NewStatusError :: "int \<Rightarrow> goerr" where
  "NewStatusError c = StatusError c"

fun FailureClass_str :: "FailureClass \<Rightarrow> gostring" where
  "FailureClass_str FailureCanceled = ''Canceled''"
| "FailureClass_str FailureTimeout = ''Timeout''"
| "FailureClass_str FailureRateLimited = ''RateLimited''"
| "FailureClass_str FailureAuth = ''Auth''"
| "FailureClass_str FailureBadRequest = ''BadRequest''"
| "FailureClass_str FailureServerError = ''ServerError''"
| "FailureClass_str FailureProtocol = ''Protocol''"
| "FailureClass_str FailureNetwork = ''Network''"
| "FailureClass_str FailureUnknown = ''Unknown''"
| "FailureClass_str (FailureClassOther s) = s"

text \<open>\<open>strconv.Itoa\<close>\<close>

fun nat_digits :: "nat \<Rightarrow> gostring" where
  "nat_digits n = (if n < 10 then [char_of (48 + n)] else nat_digits (n div 10) @ [char_of (48 + n mod 10)])"

declare nat_digits.simps [simp del]

definition Itoa :: "int \<Rightarrow> gostring" where
  "Itoa n = (if n < 0 then CHR ''-'' # nat_digits (nat (- n)) else nat_digits (nat n))"

fun err_Error :: "goerr \<Rightarrow> gostring" where
  "err_Error (UnsupportedError p r) = ''unsupported parameter '' @ p @ '': '' @ r"
| "err_Error (FailureError f None _) = FailureClass_str (f_Class f)"
| "err_Error (FailureError f (Some e) _) = FailureClass_str (f_Class f) @ '': '' @ err_Error e"
| "err_Error (StatusError c) = ''upstream status '' @ Itoa c"
| "err_Error ErrCanceled = ''context canceled''"
| "err_Error ErrDeadlineExceeded = ''context deadline exceeded''"
| "err_Error ErrEOF = ''EOF''"
| "err_Error (NetError _ text _) = text"
| "err_Error (WrapError text e) = text @ err_Error e"
| "err_Error (PlainError text) = text"

lemma NewFailureError_as_Failure [simp]:
  "\<exists>s. as_Failure (NewFailureError f c) = Some (f, c, s)"
  by (cases c) (auto simp: NewFailureError_def err_queries)

lemma NewFailureError_as_Unsupported:
  "as_Unsupported (NewFailureError f c) =
     (case c of None \<Rightarrow> None | Some e \<Rightarrow> as_Unsupported e)"
  by (cases c) (auto simp: NewFailureError_def err_queries)

lemma as_Failure_NewFailureError_PlainError [simp]:
  "as_Failure (NewFailureError f (Some (PlainError x))) = Some (f, Some (PlainError x), 0)"
  "as_Unsupported (NewFailureError f (Some (PlainError x))) = None"
  by (simp_all add: NewFailureError_def err_queries)

section \<open>Requests and stream events (provider.go)\<close>

text \<open>A decoded JSON value; \<open>json.RawMessage\<close> stays a byte string.\<close>

datatype json =
    JNull
  | JBool bool
  | JNum gostring
  | JStr gostring
  | JArr "json list"
  | JObj "(gostring \<times> json) list"

record TokenUsage =
  tu_Prompt :: int
  tu_Completion :: int
  tu_Total :: int

definition no_tokens :: TokenUsage where
  "no_tokens = \<lparr>tu_Prompt = 0, tu_Completion = 0, tu_Total = 0\<rparr>"

record StreamEvent =
  ev_DeltaText :: gostring
  ev_ChoiceIndex :: int
  ev_ToolCalls :: "gostring list"
  ev_ReasoningContent :: gostring
  ev_FinishReason :: gostring
  ev_Usage :: "TokenUsage option"

definition Semantic :: "StreamEvent \<Rightarrow> bool" where
  "Semantic e = (ev_DeltaText e \<noteq> [] \<or> ev_ToolCalls e \<noteq> [] \<or> ev_ReasoningContent e \<noteq> []
     \<or> ev_FinishReason e \<noteq> [])"

record FunctionCall =
  fc_Name :: gostring
  fc_Arguments :: gostring

record ToolCall =
  tc_ID :: gostring
  tc_Type :: gostring
  tc_Function :: FunctionCall

record Message =
  msg_Role :: gostring
  msg_Content :: json
  msg_ToolCalls :: "ToolCall list"
  msg_ToolCallID :: gostring
  msg_Name :: gostring

record ToolSpec =
  ts_Type :: gostring
  ts_Name :: gostring
  ts_Description :: gostring
  ts_Schema :: gostring

record Extension =
  ext_Name :: gostring
  ext_Value :: json

text \<open>\<open>Extensions\<close> is a map; the list is its contents in the order \<open>range\<close> visits them.\<close>

record NormalizedRequest =
  nr_Messages :: "Message list"
  nr_Tools :: "ToolSpec list"
  nr_ToolChoice :: gostring
  nr_ResponseFormat :: gostring
  nr_Reasoning :: gostring
  nr_Stream :: bool
  nr_MaxTokens :: int
  nr_Temperature :: "gostring option"
  nr_Extensions :: "(gostring \<times> Extension) list"

record ProviderAvailability =
  pa_ID :: gostring
  pa_Available :: bool
  pa_ErrorCode :: gostring
  pa_Message :: gostring

record RoutedCatalog =
  rc_Snapshot :: "CatalogSnapshot option"
  rc_Routes :: "ProviderModelID \<rightharpoonup> ProviderRoute list"
  rc_Providers :: "ProviderAvailability list"

end
