(* ===== verification/Health.thy ===== *)
theory Health
  imports Provider
begin

text \<open>
  Package \<open>internal/health\<close>: per-route health (cooldown, quota, failure count) and provider
  concurrency slots. The manager is a record, every method a function on it; the clock readings
  the methods take are arguments. \<open>AcquireSlot\<close> is split as the code is: one iteration of its
  loop under the lock (\<open>acquire_try\<close>), and the interleaving of goroutines as a step relation.
\<close>

section \<open>Routes (health.go)\<close>

definition DefaultCooldown :: duration where
  "DefaultCooldown = 30 * Second"

record RouteSnapshot =
  hs_CoolingUntil :: time
  hs_QuotaExhausted :: bool
  hs_ConsecutiveFailures :: int

record Manager =
  hm_routes :: "gostring \<rightharpoonup> RouteSnapshot"
  hm_provCap :: "gostring \<Rightarrow> int"
  hm_inFlight :: "gostring \<Rightarrow> int"

definition emptySnapshot_health :: RouteSnapshot where
  "emptySnapshot_health = \<lparr>hs_CoolingUntil = 0, hs_QuotaExhausted = False, hs_ConsecutiveFailures = 0\<rparr>"

text \<open>The two counters' maps read 0 for a missing key, so they are total functions.\<close>

definition health_New :: Manager where
  "health_New = \<lparr>hm_routes = Map.empty, hm_provCap = (\<lambda>_. 0), hm_inFlight = (\<lambda>_. 0)\<rparr>"

definition stateLocked :: "Manager \<Rightarrow> gostring \<Rightarrow> RouteSnapshot" where
  "stateLocked m r = (case hm_routes m r of None \<Rightarrow> emptySnapshot_health | Some s \<Rightarrow> s)"

definition RouteFailure :: "time \<Rightarrow> gostring \<Rightarrow> duration \<Rightarrow> Manager \<Rightarrow> Manager" where
  "RouteFailure now r cooldown m =
     (let cd = (if cooldown \<le> 0 then DefaultCooldown else cooldown);
          s = stateLocked m r
      in m\<lparr>hm_routes := (hm_routes m)(r \<mapsto>
            s\<lparr>hs_ConsecutiveFailures := hs_ConsecutiveFailures s + 1, hs_CoolingUntil := now + cd\<rparr>)\<rparr>)"

definition RouteSuccess :: "gostring \<Rightarrow> Manager \<Rightarrow> Manager" where
  "RouteSuccess r m =
     m\<lparr>hm_routes := (hm_routes m)(r \<mapsto>
        (stateLocked m r)\<lparr>hs_ConsecutiveFailures := 0, hs_CoolingUntil := 0\<rparr>)\<rparr>"

definition MarkQuotaExhausted :: "gostring \<Rightarrow> Manager \<Rightarrow> Manager" where
  "MarkQuotaExhausted r m =
     m\<lparr>hm_routes := (hm_routes m)(r \<mapsto> (stateLocked m r)\<lparr>hs_QuotaExhausted := True\<rparr>)\<rparr>"

definition ResetQuota :: "gostring \<Rightarrow> Manager \<Rightarrow> Manager" where
  "ResetQuota r m =
     m\<lparr>hm_routes := (hm_routes m)(r \<mapsto> (stateLocked m r)\<lparr>hs_QuotaExhausted := False\<rparr>)\<rparr>"

definition Available :: "time \<Rightarrow> Manager \<Rightarrow> gostring \<Rightarrow> bool" where
  "Available now m r = (case hm_routes m r of
       None \<Rightarrow> True
     | Some s \<Rightarrow> if hs_QuotaExhausted s then False
         else IsZero (hs_CoolingUntil s) \<or> hs_CoolingUntil s < now)"

definition health_Snapshot :: "Manager \<Rightarrow> gostring \<Rightarrow> RouteSnapshot" where
  "health_Snapshot m r = (case hm_routes m r of None \<Rightarrow> emptySnapshot_health | Some s \<Rightarrow> s)"

lemmas health_route_defs = RouteFailure_def RouteSuccess_def MarkQuotaExhausted_def ResetQuota_def
  stateLocked_def health_Snapshot_def emptySnapshot_health_def Let_def

lemma Available_iff:
  "Available now m r \<longleftrightarrow> \<not> hs_QuotaExhausted (health_Snapshot m r) \<and>
     (hs_CoolingUntil (health_Snapshot m r) = 0 \<or> hs_CoolingUntil (health_Snapshot m r) < now)"
  by (auto simp: Available_def health_Snapshot_def emptySnapshot_health_def IsZero_def
      split: option.splits)

lemma health_Snapshot_upd:
  "health_Snapshot (RouteFailure now r cd m) q = (if q = r then (health_Snapshot m r)
     \<lparr>hs_ConsecutiveFailures := hs_ConsecutiveFailures (health_Snapshot m r) + 1,
      hs_CoolingUntil := now + (if cd \<le> 0 then DefaultCooldown else cd)\<rparr> else health_Snapshot m q)"
  "health_Snapshot (RouteSuccess r m) q = (if q = r then (health_Snapshot m r)
     \<lparr>hs_ConsecutiveFailures := 0, hs_CoolingUntil := 0\<rparr> else health_Snapshot m q)"
  "health_Snapshot (MarkQuotaExhausted r m) q =
     (if q = r then (health_Snapshot m r)\<lparr>hs_QuotaExhausted := True\<rparr> else health_Snapshot m q)"
  "health_Snapshot (ResetQuota r m) q =
     (if q = r then (health_Snapshot m r)\<lparr>hs_QuotaExhausted := False\<rparr> else health_Snapshot m q)"
  by (auto simp: health_route_defs)

section \<open>Provider slots (health.go)\<close>

definition SetProviderCap :: "gostring \<Rightarrow> int \<Rightarrow> Manager \<Rightarrow> Manager" where
  "SetProviderCap p n m = m\<lparr>hm_provCap := (hm_provCap m)(p := n)\<rparr>"

definition ProviderCap :: "Manager \<Rightarrow> gostring \<Rightarrow> int" where
  "ProviderCap m p = hm_provCap m p"

text \<open>
  One iteration of \<open>AcquireSlot\<close> under the lock: the context's error, a slot, or (\<open>TryWait\<close>)
  the goroutine goes to sleep on the provider's channel until \<open>notifyLocked\<close> closes it.
\<close>

datatype try_result = TryErr goerr | TrySlot Manager | TryWait

definition acquire_try :: "goerr option \<Rightarrow> gostring \<Rightarrow> Manager \<Rightarrow> try_result" where
  "acquire_try ctxErr p m = (case ctxErr of
       Some e \<Rightarrow> TryErr e
     | None \<Rightarrow>
         if hm_provCap m p \<le> 0 \<or> hm_inFlight m p < hm_provCap m p
         then TrySlot (m\<lparr>hm_inFlight := (hm_inFlight m)(p := hm_inFlight m p + 1)\<rparr>)
         else TryWait)"

definition ReleaseSlot :: "gostring \<Rightarrow> Manager \<Rightarrow> Manager" where
  "ReleaseSlot p m = (if 0 < hm_inFlight m p
     then m\<lparr>hm_inFlight := (hm_inFlight m)(p := hm_inFlight m p - 1)\<rparr> else m)"

text \<open>
  The goroutines around the manager, numbered: each is outside \<open>AcquireSlot\<close>, about to take the
  lock, asleep on the channel, holding a release function that has not run, or holding one that
  has. \<open>notifyLocked\<close> wakes every sleeper of its provider, and \<open>sync.Once\<close> makes a second call
  of a release function do nothing.
\<close>

datatype client = Outside | Trying gostring | Sleeping gostring | Holding gostring | Released gostring

record slots =
  sl_mgr :: Manager
  sl_clients :: "nat \<Rightarrow> client"

definition wake :: "gostring \<Rightarrow> (nat \<Rightarrow> client) \<Rightarrow> nat \<Rightarrow> client" where
  "wake p cs = (\<lambda>j. if cs j = Sleeping p then Trying p else cs j)"

inductive slot_step :: "slots \<Rightarrow> slots \<Rightarrow> bool" where
  enter: "sl_clients s i = Outside \<or> (\<exists>q. sl_clients s i = Released q) \<Longrightarrow>
     slot_step s (s\<lparr>sl_clients := (sl_clients s)(i := Trying p)\<rparr>)"
| acquire: "sl_clients s i = Trying p \<Longrightarrow> acquire_try None p (sl_mgr s) = TrySlot m' \<Longrightarrow>
     slot_step s (s\<lparr>sl_mgr := m', sl_clients := (sl_clients s)(i := Holding p)\<rparr>)"
| sleep: "sl_clients s i = Trying p \<Longrightarrow> acquire_try None p (sl_mgr s) = TryWait \<Longrightarrow>
     slot_step s (s\<lparr>sl_clients := (sl_clients s)(i := Sleeping p)\<rparr>)"
| cancel: "sl_clients s i = Trying p \<or> sl_clients s i = Sleeping p \<Longrightarrow>
     slot_step s (s\<lparr>sl_clients := (sl_clients s)(i := Outside)\<rparr>)"
| release: "sl_clients s i = Holding p \<Longrightarrow>
     slot_step s (s\<lparr>sl_mgr := ReleaseSlot p (sl_mgr s),
        sl_clients := wake p ((sl_clients s)(i := Released p))\<rparr>)"
| release_again: "sl_clients s i = Released p \<Longrightarrow> slot_step s s"
| set_cap: "slot_step s (s\<lparr>sl_mgr := SetProviderCap p n (sl_mgr s),
        sl_clients := wake p (sl_clients s)\<rparr>)"

inductive_cases slot_stepE: "slot_step s t"

definition init_slots :: slots where
  "init_slots = \<lparr>sl_mgr = health_New, sl_clients = (\<lambda>_. Outside)\<rparr>"

inductive slots_reachable :: "slots \<Rightarrow> bool" where
  slots_start: "slots_reachable init_slots"
| slots_step: "slots_reachable s \<Longrightarrow> slot_step s t \<Longrightarrow> slots_reachable t"

text \<open>
  The invariant: the counter of a provider is the number of goroutines holding one of its slots.
\<close>

definition holders :: "(nat \<Rightarrow> client) \<Rightarrow> gostring \<Rightarrow> nat set" where
  "holders cs p = {i. cs i = Holding p}"

definition slots_inv :: "slots \<Rightarrow> bool" where
  "slots_inv s \<longleftrightarrow> (\<forall>p. finite (holders (sl_clients s) p) \<and>
     hm_inFlight (sl_mgr s) p = int (card (holders (sl_clients s) p)))"

lemma holders_wake [simp]: "holders (wake p cs) q = holders cs q"
  by (auto simp: holders_def wake_def)

lemma holders_upd [simp]:
  "holders (cs(i := c)) q = (if c = Holding q then insert i (holders cs q) else holders cs q - {i})"
  by (auto simp: holders_def)

lemma holders_mem [simp]: "i \<in> holders cs p \<longleftrightarrow> cs i = Holding p"
  by (simp add: holders_def)

lemma slots_inv_init: "slots_inv init_slots"
  by (simp add: slots_inv_def init_slots_def holders_def health_New_def)

lemma slot_step_inv: "slot_step s t \<Longrightarrow> slots_inv s \<Longrightarrow> slots_inv t"
proof (induction rule: slot_step.induct)
  case (acquire s i p m')
  then have m': "m' = (sl_mgr s)\<lparr>hm_inFlight := (hm_inFlight (sl_mgr s))(p := hm_inFlight (sl_mgr s) p + 1)\<rparr>"
    by (auto simp: acquire_try_def split: if_splits)
  with acquire show ?case by (auto simp: slots_inv_def)
next
  case (release s i p)
  then have "0 < card (holders (sl_clients s) p)"
    by (auto simp: slots_inv_def card_gt_0_iff intro: exI [of _ i] simp flip: holders_mem)
  with release show ?case
    by (auto simp: slots_inv_def ReleaseSlot_def card_Diff_singleton_if)
qed (auto simp: slots_inv_def SetProviderCap_def)

lemma slots_reachable_inv: "slots_reachable s \<Longrightarrow> slots_inv s"
  by (induction rule: slots_reachable.induct) (auto intro: slots_inv_init slot_step_inv)

text \<open>A slot is granted only below a positive cap.\<close>

lemma acquire_try_TrySlotD:
  "acquire_try ctx p m = TrySlot m' \<Longrightarrow>
     ctx = None \<and> (0 < hm_provCap m p \<longrightarrow> hm_inFlight m' p \<le> hm_provCap m p) \<and>
     hm_provCap m' = hm_provCap m"
  by (auto simp: acquire_try_def split: option.splits if_splits)

text \<open>
  No wake-up is lost: a goroutine sleeps only while its provider has a cap and every slot under
  the cap is taken.
\<close>

definition sleepers_inv :: "slots \<Rightarrow> bool" where
  "sleepers_inv s \<longleftrightarrow> (\<forall>i p. sl_clients s i = Sleeping p \<longrightarrow>
     0 < hm_provCap (sl_mgr s) p \<and> hm_provCap (sl_mgr s) p \<le> hm_inFlight (sl_mgr s) p)"

lemma wake_Sleeping [simp]: "wake p cs i = Sleeping q \<longleftrightarrow> cs i = Sleeping q \<and> q \<noteq> p"
  by (auto simp: wake_def)

lemma slot_step_sleepers: "slot_step s t \<Longrightarrow> sleepers_inv s \<Longrightarrow> sleepers_inv t"
proof (induction rule: slot_step.induct)
  case (acquire s i p m')
  then show ?case
    by (force simp: sleepers_inv_def acquire_try_def split: if_splits)
next
  case (sleep s i p)
  then show ?case by (auto simp: sleepers_inv_def acquire_try_def split: if_splits)
next
  case (release s i p)
  then show ?case by (auto simp: sleepers_inv_def ReleaseSlot_def)
next
  case (set_cap s p n)
  then show ?case by (auto simp: sleepers_inv_def SetProviderCap_def)
qed (auto simp: sleepers_inv_def)

lemma sleepers_inv_init: "sleepers_inv init_slots"
  by (simp add: sleepers_inv_def init_slots_def)

lemma slots_reachable_sleepers: "slots_reachable s \<Longrightarrow> sleepers_inv s"
  by (induction rule: slots_reachable.induct) (auto intro: slot_step_sleepers sleepers_inv_init)

lemma slots_reachable_acquired:
  assumes "slots_reachable s" and "sl_clients s i = Trying p"
    and "acquire_try None p (sl_mgr s) = TrySlot m'"
  shows "slots_reachable (s\<lparr>sl_mgr := m', sl_clients := (sl_clients s)(i := Holding p)\<rparr>)"
  using slots_step [OF assms(1) slot_step.acquire [OF assms(2,3)]] .

section \<open>Properties\<close>

text \<open>After a failure a route is unavailable exactly until its cooldown has passed (30 seconds if
  none is given), a success makes it available again at once, a spent quota keeps it unavailable
  whatever succeeds, and no operation on a route touches another.\<close>

theorem cooldown_spec:
  assumes "now + (if cd \<le> 0 then DefaultCooldown else cd) \<noteq> 0"
  shows "Available t (RouteFailure now r cd m) r =
      (\<not> hs_QuotaExhausted (health_Snapshot m r) \<and> now + (if cd \<le> 0 then DefaultCooldown else cd) < t) \<and>
    Available t (RouteSuccess r m) r = (\<not> hs_QuotaExhausted (health_Snapshot m r)) \<and>
    \<not> Available t (RouteSuccess r (MarkQuotaExhausted r m)) r \<and>
    Available t (ResetQuota r (MarkQuotaExhausted r m)) r = Available t (ResetQuota r m) r \<and>
    (q = r \<or> (Available t (RouteFailure now r cd m) q = Available t m q \<and>
      Available t (RouteSuccess r m) q = Available t m q \<and>
      Available t (MarkQuotaExhausted r m) q = Available t m q \<and>
      Available t (ResetQuota r m) q = Available t m q))"
  using assms by (simp add: Available_iff health_Snapshot_upd)

theorem cooldown_spec_witness:
  "\<not> Available (31 * Second) (RouteFailure (5 * Second) ''r'' 0 health_New) ''r'' \<and>
   Available (36 * Second) (RouteFailure (5 * Second) ''r'' 0 health_New) ''r''"
  using cooldown_spec [of "5 * Second" 0 "31 * Second" "''r''" health_New "''r''"]
    cooldown_spec [of "5 * Second" 0 "36 * Second" "''r''" health_New "''r''"]
  by (simp add: DefaultCooldown_def duration_defs health_New_def health_Snapshot_def emptySnapshot_health_def)

text \<open>C31: in every interleaving of acquiring, sleeping, cancelling, releasing (also twice) and changing
  caps, a provider's counter is the number of goroutines that hold one of its slots, a slot is granted
  only when that number stays within a positive cap, and a goroutine sleeps only while every slot under
  the cap is taken, so no wake-up is lost.\<close>

theorem slots_safe:
  assumes "slots_reachable s"
  shows "finite (holders (sl_clients s) p) \<and>
    hm_inFlight (sl_mgr s) p = int (card (holders (sl_clients s) p)) \<and>
    (case acquire_try None p (sl_mgr s) of
       TryErr e \<Rightarrow> False
     | TrySlot m' \<Rightarrow> hm_inFlight m' p = int (card (holders (sl_clients s) p)) + 1 \<and>
         (hm_provCap m' p \<le> 0 \<or> hm_inFlight m' p \<le> hm_provCap m' p)
     | TryWait \<Rightarrow> 0 < hm_provCap (sl_mgr s) p \<and> hm_provCap (sl_mgr s) p \<le> int (card (holders (sl_clients s) p))) \<and>
    (sl_clients s i \<noteq> Sleeping p \<or>
      0 < hm_provCap (sl_mgr s) p \<and> hm_provCap (sl_mgr s) p \<le> int (card (holders (sl_clients s) p)))"
proof -
  have inv: "finite (holders (sl_clients s) p)" "hm_inFlight (sl_mgr s) p = int (card (holders (sl_clients s) p))"
    using slots_reachable_inv [OF assms] by (simp_all add: slots_inv_def)
  moreover have "sl_clients s i \<noteq> Sleeping p \<or>
      0 < hm_provCap (sl_mgr s) p \<and> hm_provCap (sl_mgr s) p \<le> int (card (holders (sl_clients s) p))"
    using slots_reachable_sleepers [OF assms] inv(2) unfolding sleepers_inv_def by metis
  ultimately show ?thesis by (auto simp: acquire_try_def)
qed

theorem slots_safe_witness:
  "hm_inFlight (sl_mgr init_slots) ''p'' = 0"
  using slots_safe [OF slots_start, of "''p''" 0]
  by (simp add: init_slots_def holders_def)

end
