(* ===== verification/Float64.thy ===== *)
theory Float64
  imports Prelude "HOL-Library.Log_Nat"
begin

text \<open>
  Go's \<open>float64\<close>: an IEEE 754 binary64 value is NaN, an infinity or a finite number, the latter
  a rational. Every arithmetic operation rounds its exact result to the nearest binary64 number
  (ties to even), as Go on amd64 does operation by operation; the sign of a zero is not kept (no
  source divides by a computed zero or reads a sign bit). The definitions compute, so witnesses
  evaluate scores and averages to the last bit. The lemmas say that rounding is monotone and
  leaves representable numbers alone, which is what the score and latency properties rest on.
\<close>

datatype float64 = NaN | PInf | NInf | Fin rat

section \<open>Rounding\<close>

text \<open>The exponent of the leading bit of a positive rational: \<open>2^e \<le> x < 2^(e+1)\<close>.\<close>

definition ilog2 :: "rat \<Rightarrow> int" where
  "ilog2 x = (let (p, q) = quotient_of x; k = bitlen p - bitlen q
     in if 2 powi k \<le> x then k else k - 1)"

definition round_half_even :: "rat \<Rightarrow> int" where
  "round_half_even x = (let n = \<lfloor>x\<rfloor>; d = x - of_int n
     in if d < 1 / 2 then n else if 1 / 2 < d then n + 1 else if even n then n else n + 1)"

definition binade :: "rat \<Rightarrow> int" where
  "binade x = max (ilog2 x) (- 1022)"

definition ulp :: "rat \<Rightarrow> rat" where
  "ulp x = 2 powi (binade x - 52)"

definition fround_pos :: "rat \<Rightarrow> rat" where
  "fround_pos x = of_int (round_half_even (x / ulp x)) * ulp x"

definition fround :: "rat \<Rightarrow> rat" where
  "fround x = (if x = 0 then 0 else if 0 < x then fround_pos x else - fround_pos (- x))"

definition fl :: "rat \<Rightarrow> float64" where
  "fl x = (let y = fround x
     in if y \<noteq> 0 \<and> 1024 \<le> ilog2 \<bar>y\<bar> then (if 0 < y then PInf else NInf) else Fin y)"

subsection \<open>Rounding is monotone\<close>

lemma nat_diff_distrib_one: "nat (b - 1) = nat b - 1"
  by linarith

lemma ilog2_bounds:
  assumes "0 < x"
  shows "2 powi (ilog2 x) \<le> x" and "x < 2 powi (ilog2 x + 1)"
proof -
  obtain p q where pq: "quotient_of x = (p, q)" by (cases "quotient_of x")
  then have q: "0 < q" and x: "x = of_int p / of_int q"
    by (auto simp: quotient_of_denom_pos quotient_of_div)
  with assms have p: "0 < p" by (simp add: zero_less_divide_iff)
  define a b where "a = nat (bitlen p)" and "b = nat (bitlen q)"
  have bits: "2 ^ (a - 1) \<le> p" "p < 2 ^ a" "2 ^ (b - 1) \<le> q" "q < 2 ^ b"
    using bitlen_bounds [OF p] bitlen_bounds [OF q] unfolding a_def b_def nat_diff_distrib_one by auto
  have "0 < bitlen p" and "0 < bitlen q"
    using p q bitlen_nonneg [of p] bitlen_nonneg [of q] bitlen_eq_zero_iff [of p]
      bitlen_eq_zero_iff [of q] by linarith+
  then have ab: "bitlen p = int a" "bitlen q = int b" "0 < a" "0 < b"
    by (simp_all add: a_def b_def)
  let ?k = "int a - int b"
  have k1: "?k - 1 = int (a - 1) - int b" and k2: "?k + 1 = int a - int (b - 1)"
    using ab by auto
  have e1: "(2 :: rat) powi (?k - 1) = 2 ^ (a - 1) / 2 ^ b"
    and e2: "(2 :: rat) powi (?k + 1) = 2 ^ a / 2 ^ (b - 1)"
    unfolding k1 k2 by (simp_all add: power_int_diff del: of_nat_diff)
  have r: "(2 :: rat) ^ (a - 1) \<le> of_int p" "of_int p < (2 :: rat) ^ a"
    "(2 :: rat) ^ (b - 1) \<le> of_int q" "of_int q < (2 :: rat) ^ b"
    using bits by (metis of_int_le_iff of_int_less_iff of_int_numeral of_int_power)+
  have lo: "2 powi (?k - 1) \<le> x"
    unfolding e1 x using r q p by (intro frac_le) auto
  have hi: "x < 2 powi (?k + 1)"
    unfolding e2 x using r q p by (intro frac_less) auto
  have "ilog2 x = (if 2 powi ?k \<le> x then ?k else ?k - 1)"
    by (simp add: ilog2_def pq ab)
  then show "2 powi (ilog2 x) \<le> x" and "x < 2 powi (ilog2 x + 1)"
    using lo hi by (auto split: if_splits)
qed

lemma powi_2_less_iff: "(2 :: rat) powi a < 2 powi b \<longleftrightarrow> a < b"
  using power_int_strict_increasing [of a b "2 :: rat"] power_int_increasing [of b a "2 :: rat"]
  by force

lemma ilog2_mono:
  assumes "0 < x" and "x \<le> y"
  shows "ilog2 x \<le> ilog2 y"
proof -
  have "2 powi (ilog2 x) \<le> x" and "y < 2 powi (ilog2 y + 1)"
    using ilog2_bounds assms by auto
  with assms(2) have "(2 :: rat) powi (ilog2 x) < 2 powi (ilog2 y + 1)" by linarith
  then show ?thesis by (simp add: powi_2_less_iff)
qed

lemma round_half_even_bounds: "of_int n \<le> x \<Longrightarrow> n \<le> round_half_even x"
  and round_half_even_upper: "x \<le> of_int n \<Longrightarrow> round_half_even x \<le> n"
proof -
  show "n \<le> round_half_even x" if "of_int n \<le> x"
    using that le_floor_iff [of n x] by (auto simp: round_half_even_def Let_def)
  show "round_half_even x \<le> n" if "x \<le> of_int n"
  proof (cases "\<lfloor>x\<rfloor> = n")
    case True
    with that have "x = of_int n" by linarith
    then show ?thesis by (simp add: round_half_even_def)
  next
    case False
    with that have "\<lfloor>x\<rfloor> + 1 \<le> n" by linarith
    then show ?thesis by (auto simp: round_half_even_def Let_def)
  qed
qed

lemma round_half_even_of_int [simp]: "round_half_even (of_int n) = n"
  by (simp add: round_half_even_def)

lemma round_half_even_mono:
  assumes "x \<le> y"
  shows "round_half_even x \<le> round_half_even y"
proof (cases "\<lfloor>x\<rfloor> = \<lfloor>y\<rfloor>")
  case True
  with assms show ?thesis by (auto simp: round_half_even_def Let_def)
next
  case False
  with floor_mono [OF assms] have "\<lfloor>x\<rfloor> + 1 \<le> \<lfloor>y\<rfloor>" by linarith
  moreover have "round_half_even x \<le> \<lfloor>x\<rfloor> + 1" and "\<lfloor>y\<rfloor> \<le> round_half_even y"
    by (auto simp: round_half_even_def Let_def)
  ultimately show ?thesis by linarith
qed

lemma ulp_pos: "0 < ulp x"
  by (simp add: ulp_def)

lemma binade_upper: "0 < x \<Longrightarrow> x < 2 powi (binade x + 1)"
proof -
  assume x: "0 < x"
  have "x < 2 powi (ilog2 x + 1)" by (rule ilog2_bounds(2)) (rule x)
  also have "\<dots> \<le> 2 powi (binade x + 1)"
    by (rule power_int_increasing) (auto simp: binade_def)
  finally show ?thesis .
qed

lemma two_powi_53: "2 powi (binade x + 1) = of_int (2 ^ 53) * ulp x"
  unfolding ulp_def by (simp add: power_int_add power_int_diff)

lemma two_powi_52: "2 powi (binade x) = of_int (2 ^ 52) * ulp x"
  unfolding ulp_def by (simp add: power_int_diff)

lemma fround_pos_upper: "0 < x \<Longrightarrow> fround_pos x \<le> 2 powi (binade x + 1)"
  using binade_upper [of x] ulp_pos [of x]
  unfolding fround_pos_def two_powi_53
  by (intro mult_right_mono of_int_le_iff [THEN iffD2] round_half_even_upper) (auto simp: field_simps)

lemma fround_pos_lower:
  assumes "0 < x" and "- 1022 < binade x"
  shows "2 powi (binade x) \<le> fround_pos x"
proof -
  have "binade x = ilog2 x" using assms(2) by (auto simp: binade_def)
  then have "2 powi (binade x) \<le> x" using ilog2_bounds(1) [OF assms(1)] by simp
  then show ?thesis
    using ulp_pos [of x] unfolding fround_pos_def two_powi_52
    by (intro mult_right_mono of_int_le_iff [THEN iffD2] round_half_even_bounds) (auto simp: field_simps)
qed

lemma fround_pos_nonneg: "0 < x \<Longrightarrow> 0 \<le> fround_pos x"
  using ulp_pos [of x] round_half_even_bounds [of 0 "x / ulp x"]
  by (simp add: fround_pos_def)

lemma fround_pos_mono:
  assumes "0 < x" and "x \<le> y"
  shows "fround_pos x \<le> fround_pos y"
proof (cases "binade x = binade y")
  case True
  then have "ulp x = ulp y" by (simp add: ulp_def)
  with assms show ?thesis
    using ulp_pos [of y] unfolding fround_pos_def
    by (simp add: round_half_even_mono divide_right_mono mult_right_mono)
next
  case False
  moreover have "binade x \<le> binade y"
    using ilog2_mono [OF assms] by (auto simp: binade_def)
  moreover have "- 1022 \<le> binade x" by (simp add: binade_def)
  ultimately have lt: "binade x + 1 \<le> binade y" and "- 1022 < binade y" by auto
  have "fround_pos x \<le> 2 powi (binade x + 1)" using assms(1) by (rule fround_pos_upper)
  also have "\<dots> \<le> 2 powi (binade y)" using lt by (intro power_int_increasing) auto
  also have "\<dots> \<le> fround_pos y"
    using assms \<open>- 1022 < binade y\<close> by (intro fround_pos_lower) auto
  finally show ?thesis .
qed

lemma fround_0 [simp]: "fround 0 = 0"
  by (simp add: fround_def)

lemma fround_minus: "fround (- x) = - fround x"
  by (auto simp: fround_def)

lemma fround_mono:
  assumes "x \<le> y"
  shows "fround x \<le> fround y"
proof -
  consider "0 < x" | "x \<le> 0" "0 \<le> y" | "y < 0" using assms by linarith
  then show ?thesis
  proof cases
    case 1
    with assms show ?thesis by (simp add: fround_def fround_pos_mono)
  next
    case 2
    then have "fround x \<le> 0" and "0 \<le> fround y"
      using fround_pos_nonneg [of "- x"] fround_pos_nonneg [of y] by (auto simp: fround_def)
    then show ?thesis by linarith
  next
    case 3
    with assms show ?thesis by (simp add: fround_def fround_pos_mono)
  qed
qed

subsection \<open>Representable numbers are left alone\<close>

definition representable :: "rat \<Rightarrow> bool" where
  "representable x \<longleftrightarrow> (\<exists>m k. x = of_int m * 2 powi k \<and> \<bar>m\<bar> < 2 ^ 53 \<and> - 1074 \<le> k \<and> k \<le> 971)"

lemma fround_pos_exact:
  assumes "0 < x" and x: "x = of_int m * 2 powi k" and m: "\<bar>m\<bar> < 2 ^ 53" and k: "- 1074 \<le> k"
  shows "fround_pos x = x"
proof -
  have "of_int m < (2 :: rat) ^ 53"
    using m by (metis abs_less_iff of_int_less_iff of_int_numeral of_int_power)
  then have "x < 2 ^ 53 * 2 powi k"
    by (simp add: x)
  also have "\<dots> = 2 powi (k + 53)" by (simp add: power_int_add)
  finally have "2 powi (ilog2 x) < (2 :: rat) powi (k + 53)"
    using ilog2_bounds(1) [OF assms(1)] by linarith
  then have "binade x - 52 \<le> k" using k by (auto simp: powi_2_less_iff binade_def)
  then obtain j where j: "k = (binade x - 52) + int j" by (metis zle_iff_zadd)
  have "(2 :: rat) powi k = 2 ^ j * ulp x"
    by (subst j) (simp add: power_int_add ulp_def)
  then have "of_int m * (2 :: rat) powi k = of_int (m * 2 ^ j) * ulp x" by simp
  from trans [OF x this] have "x / ulp x = of_int (m * 2 ^ j)" and "of_int (m * 2 ^ j) * ulp x = x"
    using ulp_pos [of x] by (simp_all add: field_simps)
  then show ?thesis
    by (simp only: fround_pos_def round_half_even_of_int)
qed

lemma fround_representable: "representable x \<Longrightarrow> fround x = x"
proof -
  assume "representable x"
  then obtain m k where x: "x = of_int m * 2 powi k" and m: "\<bar>m\<bar> < 2 ^ 53" and k: "- 1074 \<le> k"
    by (auto simp: representable_def)
  then have m': "- x = of_int (- m) * 2 powi k" "\<bar>- m\<bar> < 2 ^ 53" by simp_all
  consider "x = 0" | "0 < x" | "0 < - x" by linarith
  then show ?thesis
  proof cases
    case 2
    then show ?thesis using fround_pos_exact [OF 2 x m k] by (simp add: fround_def)
  next
    case 3
    then show ?thesis using fround_pos_exact [OF 3 m' k] by (simp add: fround_def)
  qed simp
qed

lemma fround_of_int: "\<bar>m\<bar> < 2 ^ 53 \<Longrightarrow> fround (of_int m) = of_int m"
  by (rule fround_representable, unfold representable_def, rule exI [of _ m], rule exI [of _ 0]) simp

lemma fround_numeral: "(numeral n :: int) < 2 ^ 53 \<Longrightarrow> fround (numeral n) = numeral n"
  using fround_of_int [of "numeral n"] by simp

lemma fround_1 [simp]: "fround 1 = 1"
  using fround_of_int [of 1] by simp

lemma fround_nonneg: "0 \<le> x \<Longrightarrow> 0 \<le> fround x"
  using fround_mono [of 0 x] by simp

lemma fround_bound: "\<bar>m\<bar> < 2 ^ 53 \<Longrightarrow> x \<le> of_int m \<Longrightarrow> fround x \<le> of_int m"
  using fround_mono [of x "of_int m"] by (simp add: fround_of_int)

section \<open>Arithmetic and comparison\<close>

fun fneg :: "float64 \<Rightarrow> float64" where
  "fneg NaN = NaN"
| "fneg PInf = NInf"
| "fneg NInf = PInf"
| "fneg (Fin x) = Fin (- x)"

fun fadd :: "float64 \<Rightarrow> float64 \<Rightarrow> float64" where
  "fadd (Fin x) (Fin y) = fl (x + y)"
| "fadd NaN _ = NaN"
| "fadd _ NaN = NaN"
| "fadd PInf NInf = NaN"
| "fadd NInf PInf = NaN"
| "fadd PInf _ = PInf"
| "fadd _ PInf = PInf"
| "fadd NInf _ = NInf"
| "fadd _ NInf = NInf"

definition fsub :: "float64 \<Rightarrow> float64 \<Rightarrow> float64" where
  "fsub a b = fadd a (fneg b)"

fun fsign :: "float64 \<Rightarrow> int" where
  "fsign NaN = 0"
| "fsign PInf = 1"
| "fsign NInf = - 1"
| "fsign (Fin x) = (if x < 0 then - 1 else if x = 0 then 0 else 1)"

definition inf_of_sign :: "int \<Rightarrow> float64" where
  "inf_of_sign s = (if s = 0 then NaN else if 0 < s then PInf else NInf)"

fun fmul :: "float64 \<Rightarrow> float64 \<Rightarrow> float64" where
  "fmul (Fin x) (Fin y) = fl (x * y)"
| "fmul NaN _ = NaN"
| "fmul _ NaN = NaN"
| "fmul a b = inf_of_sign (fsign a * fsign b)"

text \<open>Division by a finite number other than zero, the only division the sources do.\<close>

fun fdiv :: "float64 \<Rightarrow> float64 \<Rightarrow> float64" where
  "fdiv (Fin x) (Fin y) = (if y = 0 then inf_of_sign (fsign (Fin x)) else fl (x / y))"
| "fdiv NaN _ = NaN"
| "fdiv _ NaN = NaN"
| "fdiv (Fin x) _ = Fin 0"
| "fdiv a (Fin y) = inf_of_sign (fsign a * (if y < 0 then - 1 else 1))"
| "fdiv _ _ = NaN"

text \<open>Comparisons are false as soon as one side is NaN.\<close>

fun flt :: "float64 \<Rightarrow> float64 \<Rightarrow> bool" where
  "flt (Fin x) (Fin y) = (x < y)"
| "flt NaN _ = False"
| "flt _ NaN = False"
| "flt a PInf = (a \<noteq> PInf)"
| "flt NInf b = (b \<noteq> NInf)"
| "flt _ _ = False"

fun fle :: "float64 \<Rightarrow> float64 \<Rightarrow> bool" where
  "fle (Fin x) (Fin y) = (x \<le> y)"
| "fle NaN _ = False"
| "fle _ NaN = False"
| "fle _ PInf = True"
| "fle NInf _ = True"
| "fle _ _ = False"

definition feq :: "float64 \<Rightarrow> float64 \<Rightarrow> bool" where
  "feq a b = (a \<noteq> NaN \<and> a = b)"

definition IsNaN :: "float64 \<Rightarrow> bool" where
  "IsNaN x = (x = NaN)"

text \<open>\<open>math.IsInf(x, 0)\<close>\<close>

definition IsInf :: "float64 \<Rightarrow> bool" where
  "IsInf x = (x = PInf \<or> x = NInf)"

text \<open>The conversion \<open>float64(n)\<close> of an integer.\<close>

definition float_of_int :: "int \<Rightarrow> float64" where
  "float_of_int n = fl (of_int n)"

text \<open>Overflow, read as a comparison with \<open>2^1024\<close>.\<close>

lemma ilog2_ge_iff: "0 < x \<Longrightarrow> k \<le> ilog2 x \<longleftrightarrow> 2 powi k \<le> x"
proof -
  assume x: "0 < x"
  have "2 powi k \<le> x" if "k \<le> ilog2 x"
    using power_int_increasing [OF that, of "2 :: rat"] ilog2_bounds(1) [OF x] by simp
  moreover have "k \<le> ilog2 x" if "2 powi k \<le> x"
    using that ilog2_bounds(2) [OF x] powi_2_less_iff [of k "ilog2 x + 1"] by linarith
  ultimately show ?thesis by blast
qed

lemma fl_alt:
  "fl x = (let y = fround x
     in if 2 ^ 1024 \<le> y then PInf else if y \<le> - (2 ^ 1024) then NInf else Fin y)"
proof -
  have "(2 :: rat) powi 1024 = 2 ^ 1024"
    by (rule power_int_numeral)
  moreover have "(0 :: rat) < 2 ^ 1024" by (rule zero_less_power) simp
  ultimately show ?thesis
    using ilog2_ge_iff [of "fround x" 1024] ilog2_ge_iff [of "- fround x" 1024]
    by (auto simp: fl_def Let_def)
qed

lemma fl_0 [simp]: "fl 0 = Fin 0"
  by (simp add: fl_def)

lemma fl_Fin_cases: "fl x = PInf \<or> fl x = NInf \<or> fl x = Fin (fround x)"
  by (auto simp: fl_alt Let_def)

lemma fl_not_NaN [simp]: "fl x \<noteq> NaN"
  by (auto simp: fl_alt Let_def)

lemma fle_refl: "a \<noteq> NaN \<Longrightarrow> fle a a"
  by (cases a) auto

lemma fle_trans: "fle a b \<Longrightarrow> fle b c \<Longrightarrow> fle a c"
  by (cases a; cases b; cases c) auto

lemma fle_linear: "a \<noteq> NaN \<Longrightarrow> b \<noteq> NaN \<Longrightarrow> fle a b \<or> fle b a"
  by (cases a; cases b) auto

lemma flt_iff_not_fle: "a \<noteq> NaN \<Longrightarrow> b \<noteq> NaN \<Longrightarrow> flt a b \<longleftrightarrow> \<not> fle b a"
  by (cases a; cases b) auto

lemma flt_irrefl [simp]: "\<not> flt a a"
  by (cases a) auto

lemma flt_trans: "flt a b \<Longrightarrow> flt b c \<Longrightarrow> flt a c"
  by (cases a; cases b; cases c) auto

lemma flt_linear: "a \<noteq> NaN \<Longrightarrow> b \<noteq> NaN \<Longrightarrow> a \<noteq> b \<Longrightarrow> flt a b \<or> flt b a"
  by (cases a; cases b) auto

lemma fl_mono: "x \<le> y \<Longrightarrow> fle (fl x) (fl y)"
  using fround_mono [of x y] by (auto simp: fl_alt Let_def)

lemma fl_FinI: "\<bar>fround x\<bar> < 2 ^ 1024 \<Longrightarrow> fl x = Fin (fround x)"
  by (auto simp: fl_alt Let_def)

lemma fl_bounded:
  assumes "0 \<le> x" and "x \<le> of_int m" and "m < 2 ^ 53"
  shows "fl x = Fin (fround x)" and "0 \<le> fround x" and "fround x \<le> of_int m"
proof -
  have "(0 :: rat) \<le> of_int m" using assms by linarith
  then have m: "0 \<le> m" by simp
  then show le: "fround x \<le> of_int m" using assms by (intro fround_bound) auto
  show nonneg: "0 \<le> fround x" using assms(1) by (rule fround_nonneg)
  have "of_int m < (2 :: rat) ^ 53"
    using assms(3) by (metis of_int_less_iff of_int_numeral of_int_power)
  also have "(2 :: rat) ^ 53 \<le> 2 ^ 1024" by (rule power_increasing) auto
  finally show "fl x = Fin (fround x)"
    using le nonneg by (intro fl_FinI) auto
qed

lemma fl_of_int: "\<bar>m\<bar> < 2 ^ 53 \<Longrightarrow> fl (of_int m) = Fin (of_int m)"
  using fl_bounded(1) [of "of_int m" m] fl_bounded(1) [of "of_int (- m)" "- m"]
  by (cases "0 \<le> m") (auto simp: fround_of_int fl_alt fround_minus Let_def)

lemma float_of_int_exact: "\<bar>n\<bar> < 2 ^ 53 \<Longrightarrow> float_of_int n = Fin (of_int n)"
  by (simp add: float_of_int_def fl_of_int)

lemma fl_Fin_representable:
  assumes "representable x" and "\<bar>x\<bar> < 2 ^ 1024"
  shows "fl x = Fin x"
  using assms fround_representable fl_FinI [of x] by auto

end
