(* ===== verification/Latency.thy ===== *)
theory Latency
  imports Health Float64
begin

text \<open>
  Package \<open>internal/latency\<close>: the exponentially weighted averages of time to first token per
  route, and the views of them: the fresh value routing uses, the effective and the displayed
  one. Samples and averages are \<open>float64\<close> values, clock readings are arguments.
\<close>

section \<open>The moving average (latency.go)\<close>

text \<open>The constants \<open>Alpha\<close> and \<open>1 - Alpha\<close> (exact constant arithmetic, then one conversion).\<close>

definition Alpha :: float64 where
  "Alpha = fl (1 / 4)"

definition OneMinusAlpha :: float64 where
  "OneMinusAlpha = fl (1 - 1 / 4)"

definition UnknownMs :: float64 where
  "UnknownMs = Fin 0"

record EWMA =
  ew_val :: float64
  ew_n :: nat

definition ewma_New :: EWMA where
  "ewma_New = \<lparr>ew_val = Fin 0, ew_n = 0\<rparr>"

definition ewma_Add :: "float64 \<Rightarrow> EWMA \<Rightarrow> EWMA" where
  "ewma_Add sampleMs e =
     \<lparr>ew_val = (if ew_n e = 0 then sampleMs
        else fadd (fmul Alpha sampleMs) (fmul OneMinusAlpha (ew_val e))),
      ew_n = ew_n e + 1\<rparr>"

text \<open>A Go result pair \<open>(ms, ok)\<close> is an option.\<close>

definition ewma_Value :: "EWMA \<Rightarrow> float64 option" where
  "ewma_Value e = (if ew_n e = 0 then None else Some (ew_val e))"

definition ewma_Samples :: "EWMA \<Rightarrow> nat" where
  "ewma_Samples e = ew_n e"

record Stats =
  st_ProbeTTFT :: EWMA
  st_RequestTTFT :: EWMA
  st_RequestTotal :: EWMA
  st_LastProbeAt :: time
  st_LastRequestAt :: time
  st_LastProbeOutcome :: gostring
  st_LastProbeAttemptAt :: time

definition NewStats :: Stats where
  "NewStats = \<lparr>st_ProbeTTFT = ewma_New, st_RequestTTFT = ewma_New, st_RequestTotal = ewma_New,
     st_LastProbeAt = 0, st_LastRequestAt = 0, st_LastProbeOutcome = [], st_LastProbeAttemptAt = 0\<rparr>"

section \<open>The registry (latency.go)\<close>

type_synonym Registry = "gostring \<rightharpoonup> Stats"

definition NewRegistry :: Registry where
  "NewRegistry = Map.empty"

text \<open>\<open>For\<close> creates missing stats; \<open>with_stats\<close> is \<open>For\<close> followed by an update in place.\<close>

definition reg_For :: "Registry \<Rightarrow> gostring \<Rightarrow> Stats" where
  "reg_For r routeID = (case r routeID of None \<Rightarrow> NewStats | Some s \<Rightarrow> s)"

definition with_stats :: "gostring \<Rightarrow> (Stats \<Rightarrow> Stats) \<Rightarrow> Registry \<Rightarrow> Registry" where
  "with_stats routeID f r = r(routeID \<mapsto> f (reg_For r routeID))"

definition RecordProbe :: "time \<Rightarrow> gostring \<Rightarrow> float64 \<Rightarrow> Registry \<Rightarrow> Registry" where
  "RecordProbe now routeID ttftMs r =
     (if flt UnknownMs ttftMs
      then with_stats routeID (\<lambda>s. s\<lparr>st_ProbeTTFT := ewma_Add ttftMs (st_ProbeTTFT s),
             st_LastProbeAt := now, st_LastProbeOutcome := ''success''\<rparr>) r
      else r)"

definition AgeProbe :: "gostring \<Rightarrow> duration \<Rightarrow> Registry \<Rightarrow> Registry" where
  "AgeProbe routeID delta r = with_stats routeID (\<lambda>s.
     if IsZero (st_LastProbeAt s) then s else s\<lparr>st_LastProbeAt := st_LastProbeAt s - delta\<rparr>) r"

definition BeginProbe :: "time \<Rightarrow> gostring \<Rightarrow> Registry \<Rightarrow> Registry" where
  "BeginProbe now routeID r = with_stats routeID (\<lambda>s.
     s\<lparr>st_LastProbeAttemptAt := now, st_LastProbeOutcome := ''probing''\<rparr>) r"

definition MarkProbeFailure :: "gostring \<Rightarrow> gostring \<Rightarrow> Registry \<Rightarrow> Registry" where
  "MarkProbeFailure routeID outcome r = with_stats routeID (\<lambda>s. s\<lparr>st_LastProbeOutcome := outcome\<rparr>) r"

definition RecordRequest :: "time \<Rightarrow> gostring \<Rightarrow> float64 \<Rightarrow> float64 \<Rightarrow> Registry \<Rightarrow> Registry" where
  "RecordRequest now routeID ttftMs totalMs r = with_stats routeID (\<lambda>s.
     let s1 = (if flt UnknownMs ttftMs
               then s\<lparr>st_RequestTTFT := ewma_Add ttftMs (st_RequestTTFT s), st_LastRequestAt := now\<rparr>
               else s)
     in if flt UnknownMs totalMs
        then s1\<lparr>st_RequestTotal := ewma_Add totalMs (st_RequestTotal s1)\<rparr> else s1) r"

definition fresh :: "time \<Rightarrow> duration \<Rightarrow> time \<Rightarrow> bool" where
  "fresh now maxAge t = (0 < maxAge \<and> \<not> IsZero t \<and> time_Sub now t \<le> maxAge)"

definition FreshTTFT :: "Registry \<Rightarrow> gostring \<Rightarrow> time \<Rightarrow> duration \<Rightarrow> float64 option" where
  "FreshTTFT r routeID now maxAge = (case r routeID of
       None \<Rightarrow> None
     | Some s \<Rightarrow>
         (case (if fresh now maxAge (st_LastProbeAt s) then ewma_Value (st_ProbeTTFT s) else None) of
            Some v \<Rightarrow> Some v
          | None \<Rightarrow> if fresh now maxAge (st_LastRequestAt s)
              then ewma_Value (st_RequestTTFT s) else None))"

definition EffectiveTTFT :: "Registry \<Rightarrow> gostring \<Rightarrow> float64 option" where
  "EffectiveTTFT r routeID = (case r routeID of
       None \<Rightarrow> None
     | Some s \<Rightarrow> (case ewma_Value (st_ProbeTTFT s) of
            Some v \<Rightarrow> Some v
          | None \<Rightarrow> ewma_Value (st_RequestTTFT s)))"

record SampleView =
  sv_Known :: bool
  sv_Fresh :: bool
  sv_ValueMs :: float64
  sv_Source :: gostring
  sv_MeasuredAt :: time
  sv_ProbeOutcome :: gostring
  sv_ProbeAttemptAt :: time

definition emptySampleView :: SampleView where
  "emptySampleView = \<lparr>sv_Known = False, sv_Fresh = False, sv_ValueMs = Fin 0, sv_Source = [],
     sv_MeasuredAt = 0, sv_ProbeOutcome = [], sv_ProbeAttemptAt = 0\<rparr>"

definition latency_Snapshot :: "Registry \<Rightarrow> gostring \<Rightarrow> time \<Rightarrow> duration \<Rightarrow> SampleView" where
  "latency_Snapshot r routeID now maxAge = (case r routeID of
       None \<Rightarrow> emptySampleView
     | Some s \<Rightarrow>
        (let probe = ewma_Value (st_ProbeTTFT s); request = ewma_Value (st_RequestTTFT s);
             view = emptySampleView\<lparr>sv_ProbeOutcome := st_LastProbeOutcome s,
               sv_ProbeAttemptAt := st_LastProbeAttemptAt s\<rparr>;
             probe_view = view\<lparr>sv_Known := True, sv_ValueMs := ew_val (st_ProbeTTFT s),
               sv_Source := ''probe'', sv_MeasuredAt := st_LastProbeAt s\<rparr>;
             request_view = view\<lparr>sv_Known := True, sv_ValueMs := ew_val (st_RequestTTFT s),
               sv_Source := ''request'', sv_MeasuredAt := st_LastRequestAt s\<rparr>
         in if probe \<noteq> None \<and> fresh now maxAge (st_LastProbeAt s) then probe_view\<lparr>sv_Fresh := True\<rparr>
            else if request \<noteq> None \<and> fresh now maxAge (st_LastRequestAt s)
            then request_view\<lparr>sv_Fresh := True\<rparr>
            else if request \<noteq> None \<and> (probe = None \<or> st_LastProbeAt s < st_LastRequestAt s)
            then request_view
            else if probe \<noteq> None then probe_view
            else view))"

lemmas latency_defs = RecordProbe_def AgeProbe_def BeginProbe_def MarkProbeFailure_def
  RecordRequest_def with_stats_def reg_For_def NewStats_def ewma_New_def

section \<open>The timer (latency.go)\<close>

record Timer =
  tm_start :: time
  tm_recorded :: bool

definition Start :: "time \<Rightarrow> Timer" where
  "Start now = \<lparr>tm_start = now, tm_recorded = False\<rparr>"

definition OnSemanticEvent :: "time \<Rightarrow> Timer \<Rightarrow> Timer \<times> duration option" where
  "OnSemanticEvent now t = (if tm_recorded t then (t, None)
     else (t\<lparr>tm_recorded := True\<rparr>, Some (time_Sub now (tm_start t))))"

definition Elapsed :: "time \<Rightarrow> Timer \<Rightarrow> duration" where
  "Elapsed now t = time_Sub now (tm_start t)"

definition Recorded :: "Timer \<Rightarrow> bool" where
  "Recorded t = tm_recorded t"

section \<open>Invariant and views\<close>

text \<open>
  What every operation keeps: averages that hold a sample hold a number above or equal to zero
  (never NaN), and a route with a probe (request) sample has a time of measurement unless its
  timestamp was aged or read as the zero time.
\<close>

definition ewma_ok :: "EWMA \<Rightarrow> bool" where
  "ewma_ok e \<longleftrightarrow> fle (Fin 0) (ew_val e)"

definition stats_ok :: "Stats \<Rightarrow> bool" where
  "stats_ok s \<longleftrightarrow> ewma_ok (st_ProbeTTFT s) \<and> ewma_ok (st_RequestTTFT s) \<and> ewma_ok (st_RequestTotal s)"

definition registry_ok :: "Registry \<Rightarrow> bool" where
  "registry_ok r \<longleftrightarrow> (\<forall>s \<in> ran r. stats_ok s)"

lemma Alpha_val: "Alpha = Fin (1 / 4)"
  by code_simp

lemma OneMinusAlpha_val: "OneMinusAlpha = Fin (3 / 4)"
  by code_simp

lemma fle_0_cases: "fle (Fin 0) x \<longleftrightarrow> x = PInf \<or> (\<exists>q. x = Fin q \<and> 0 \<le> q)"
  by (cases x) auto

lemma fl_nonneg: "0 \<le> x \<Longrightarrow> fle (Fin 0) (fl x)"
  using fl_mono [of 0 x] by simp

lemma ewma_step_nonneg:
  assumes "fle (Fin 0) x" and "fle (Fin 0) y"
  shows "fle (Fin 0) (fadd (fmul (Fin (1 / 4)) x) (fmul (Fin (3 / 4)) y))"
proof -
  have mul: "fle (Fin 0) (fmul (Fin q) z)" if "fle (Fin 0) z" "0 < q" for q z
    using that by (auto simp: fle_0_cases [of z] fl_nonneg inf_of_sign_def)
  have add: "fle (Fin 0) (fadd a b)" if "fle (Fin 0) a" "fle (Fin 0) b" for a b
    using that by (auto simp: fle_0_cases [of a] fle_0_cases [of b] fl_nonneg)
  show ?thesis using assms by (intro add mul) auto
qed

lemma ewma_Add_ok: "ewma_ok e \<Longrightarrow> fle (Fin 0) x \<Longrightarrow> ewma_ok (ewma_Add x e)"
  by (auto simp: ewma_ok_def ewma_Add_def Alpha_val OneMinusAlpha_val intro: ewma_step_nonneg
      simp del: fadd.simps fmul.simps)

lemma flt_UnknownMs: "flt UnknownMs x \<Longrightarrow> fle (Fin 0) x"
  by (cases x) (auto simp: UnknownMs_def)

lemma NewStats_ok: "stats_ok NewStats"
  by (simp add: stats_ok_def ewma_ok_def NewStats_def ewma_New_def)

lemma reg_For_ok: "registry_ok r \<Longrightarrow> stats_ok (reg_For r k)"
  by (auto simp: registry_ok_def reg_For_def NewStats_ok ran_def split: option.splits)

lemma with_stats_ok:
  "registry_ok r \<Longrightarrow> (\<And>s. stats_ok s \<Longrightarrow> stats_ok (f s)) \<Longrightarrow> registry_ok (with_stats k f r)"
  using reg_For_ok [of r k] by (auto simp: with_stats_def registry_ok_def ran_def)

lemma registry_ok_ops [inv_intros]:
  "registry_ok NewRegistry"
  "registry_ok r \<Longrightarrow> registry_ok (RecordProbe now k x r)"
  "registry_ok r \<Longrightarrow> registry_ok (AgeProbe k d r)"
  "registry_ok r \<Longrightarrow> registry_ok (BeginProbe now k r)"
  "registry_ok r \<Longrightarrow> registry_ok (MarkProbeFailure k out r)"
  "registry_ok r \<Longrightarrow> registry_ok (RecordRequest now k x y r)"
  by (auto simp: NewRegistry_def RecordProbe_def AgeProbe_def BeginProbe_def MarkProbeFailure_def
      RecordRequest_def Let_def stats_ok_def intro!: with_stats_ok ewma_Add_ok
      dest: flt_UnknownMs) (auto simp: registry_ok_def)

lemma ewma_Value_SomeD: "ewma_Value e = Some v \<Longrightarrow> v = ew_val e \<and> 0 < ew_n e"
  by (auto simp: ewma_Value_def split: if_splits)

text \<open>The displayed view and the routing value agree: fresh means the same value in both.\<close>

lemma Snapshot_FreshTTFT:
  "FreshTTFT r k now d = (let v = latency_Snapshot r k now d in if sv_Fresh v then Some (sv_ValueMs v) else None)"
  by (auto simp: FreshTTFT_def latency_Snapshot_def Let_def ewma_Value_def emptySampleView_def
      split: option.splits)

lemma FreshTTFT_SomeD:
  assumes "FreshTTFT r k now d = Some v"
  shows "\<exists>s. r k = Some s \<and> 0 < d \<and>
    ((fresh now d (st_LastProbeAt s) \<and> ewma_Value (st_ProbeTTFT s) = Some v) \<or>
     (fresh now d (st_LastRequestAt s) \<and> ewma_Value (st_RequestTTFT s) = Some v))"
  using assms by (auto simp: FreshTTFT_def fresh_def split: option.splits if_splits)

text \<open>Everything that happens to a registry, in any order, with any sample whatsoever.\<close>

inductive registry_reachable :: "Registry \<Rightarrow> bool" where
  new: "registry_reachable NewRegistry"
| probe: "registry_reachable r \<Longrightarrow> registry_reachable (RecordProbe now k x r)"
| age: "registry_reachable r \<Longrightarrow> registry_reachable (AgeProbe k d r)"
| begin_probe: "registry_reachable r \<Longrightarrow> registry_reachable (BeginProbe now k r)"
| probe_failure: "registry_reachable r \<Longrightarrow> registry_reachable (MarkProbeFailure k out r)"
| request: "registry_reachable r \<Longrightarrow> registry_reachable (RecordRequest now k x y r)"

lemma registry_reachable_ok: "registry_reachable r \<Longrightarrow> registry_ok r"
  by (induction rule: registry_reachable.induct) (auto intro: inv_intros)

lemma registry_ok_FreshTTFT:
  "registry_ok r \<Longrightarrow> FreshTTFT r k now d = Some v \<Longrightarrow> fle (Fin 0) v"
  by (auto dest!: FreshTTFT_SomeD ewma_Value_SomeD simp: registry_ok_def ran_def stats_ok_def ewma_ok_def)

lemma registry_ok_EffectiveTTFT:
  "registry_ok r \<Longrightarrow> EffectiveTTFT r k = Some v \<Longrightarrow> fle (Fin 0) v"
  by (fastforce simp: EffectiveTTFT_def registry_ok_def ran_def stats_ok_def ewma_ok_def
      dest!: ewma_Value_SomeD split: option.splits)

section \<open>Properties\<close>

text \<open>Whatever samples were recorded, NaN, negative and infinite ones included, every average a
  registry hands out is a number that is not negative, and the value routing uses is exactly the one
  the displayed snapshot marks as fresh.\<close>

theorem latency_averages_sound:
  assumes "registry_reachable r"
  shows "pred_option (fle (Fin 0)) (FreshTTFT r k now d) \<and> pred_option (fle (Fin 0)) (EffectiveTTFT r k) \<and>
    FreshTTFT r k now d = (if sv_Fresh (latency_Snapshot r k now d)
      then Some (sv_ValueMs (latency_Snapshot r k now d)) else None)"
proof (intro conjI)
  show "pred_option (fle (Fin 0)) (FreshTTFT r k now d)"
    using registry_ok_FreshTTFT [OF registry_reachable_ok [OF assms]]
    by (cases "FreshTTFT r k now d") simp_all
  show "pred_option (fle (Fin 0)) (EffectiveTTFT r k)"
    using registry_ok_EffectiveTTFT [OF registry_reachable_ok [OF assms]]
    by (cases "EffectiveTTFT r k") simp_all
  show "FreshTTFT r k now d = (if sv_Fresh (latency_Snapshot r k now d)
      then Some (sv_ValueMs (latency_Snapshot r k now d)) else None)"
    using Snapshot_FreshTTFT [of r k now d] by (simp add: Let_def)
qed

theorem latency_averages_sound_witness:
  "FreshTTFT (RecordProbe 5 ''r'' (Fin 8) (RecordProbe 4 ''r'' NaN NewRegistry)) ''r'' 6 10 = Some (Fin 8)"
  using latency_averages_sound [OF registry_reachable.probe [OF registry_reachable.probe [OF registry_reachable.new]],
      of 5 "''r''" "Fin 8" 4 "''r''" NaN "''r''" 6 10]
  by (simp add: latency_Snapshot_def latency_defs NewRegistry_def UnknownMs_def ewma_Add_def
      ewma_Value_def fresh_def IsZero_def time_Sub_def emptySampleView_def Let_def
      minDuration_def maxDuration_def)

end
