(* ===== verification/Router.thy ===== *)
theory Router
  imports Latency
begin

text \<open>
  Package \<open>internal/router\<close>: the eligibility chain of \<open>Filter\<close> (catalog, routes, enabled,
  capability, protocol, health, access) and the ranking of the eligible candidates by score,
  time to first token and identity. The health manager is consulted at one clock reading per
  call of \<open>Filter\<close>.
\<close>

section \<open>Candidates and inputs (filter.go)\<close>

record Candidate =
  cd_Model :: ProviderModel
  cd_Route :: ProviderRoute

definition EffectiveCaps :: "Candidate \<Rightarrow> Capabilities" where
  "EffectiveCaps c = EffectiveCapabilities (cd_Route c) (pm_Base (cd_Model c))"

datatype reason =
    NotInCatalog
  | NoEnabledRoute
  | CapabilityMismatch
  | ProtocolIncompatible
  | HealthUnavailable
  | AccessNotAllowed

record Exclusion =
  ex_ID :: ProviderModelID
  ex_Reason :: reason

record EligibilityResult =
  er_Eligible :: "Candidate list"
  er_Excluded :: "Exclusion list"

record FilterInput =
  fi_ExplicitID :: ProviderModelID
  fi_Pool :: "ProviderModelID list"
  fi_Catalog :: "CatalogSnapshot option"
  fi_Routes :: "ProviderModelID \<rightharpoonup> ProviderRoute list"
  fi_Reqs :: RequestRequirements
  fi_AllowPaid :: bool
  fi_AllowUnknown :: bool
  fi_ProtocolCompatible :: "(ProviderRoute \<Rightarrow> bool) option"
  fi_Health :: "(Manager \<times> time) option"

definition ids :: "FilterInput \<Rightarrow> ProviderModelID list" where
  "ids inp = (if fi_ExplicitID inp \<noteq> [] then [fi_ExplicitID inp] else fi_Pool inp)"

definition routeAccessAllowed :: "AccessClass \<Rightarrow> bool \<Rightarrow> bool \<Rightarrow> bool" where
  "routeAccessAllowed a allowPaid allowUnknown =
     (if AutoRoutable a then True
      else if a = AccessPaid then allowPaid
      else if a = AccessUnknown then allowUnknown
      else False)"

definition exclude :: "ProviderModelID \<Rightarrow> reason \<Rightarrow> EligibilityResult \<Rightarrow> EligibilityResult" where
  "exclude mid why res = res\<lparr>er_Excluded := er_Excluded res @ [\<lparr>ex_ID = mid, ex_Reason = why\<rparr>]\<rparr>"

section \<open>Filter (filter.go)\<close>

text \<open>The body of the inner loop, for one route of a model in the catalog.\<close>

definition filter_route :: "FilterInput \<Rightarrow> ProviderModelID \<Rightarrow> ProviderModel \<Rightarrow> ProviderRoute \<Rightarrow>
    EligibilityResult \<Rightarrow> EligibilityResult" where
  "filter_route inp mid pm route res =
     (if \<not> rt_Enabled route then res
      else if \<not> Supports (EffectiveCapabilities route (pm_Base pm)) (fi_Reqs inp)
      then exclude mid CapabilityMismatch res
      else if (case fi_ProtocolCompatible inp of None \<Rightarrow> False | Some f \<Rightarrow> \<not> f route)
      then exclude mid ProtocolIncompatible res
      else if (case fi_Health inp of None \<Rightarrow> False
        | Some (h, now) \<Rightarrow> \<not> Available now h (rt_ID route))
      then exclude mid HealthUnavailable res
      else if \<not> AllowsAutomaticRouting route \<and>
        \<not> routeAccessAllowed (EffectiveAccess route) (fi_AllowPaid inp) (fi_AllowUnknown inp)
      then exclude mid AccessNotAllowed res
      else res\<lparr>er_Eligible := er_Eligible res @ [\<lparr>cd_Model = pm, cd_Route = route\<rparr>]\<rparr>)"

fun filter_routes :: "FilterInput \<Rightarrow> ProviderModelID \<Rightarrow> ProviderModel \<Rightarrow> ProviderRoute list \<Rightarrow>
    EligibilityResult \<Rightarrow> EligibilityResult" where
  "filter_routes inp mid pm [] res = res"
| "filter_routes inp mid pm (r # rs) res = filter_routes inp mid pm rs (filter_route inp mid pm r res)"

text \<open>The outer loop over the ids, with the set of ids already seen.\<close>

fun filter_ids :: "FilterInput \<Rightarrow> CatalogSnapshot \<Rightarrow> ProviderModelID list \<Rightarrow> ProviderModelID set \<Rightarrow>
    EligibilityResult \<Rightarrow> EligibilityResult" where
  "filter_ids inp cat [] seen res = res"
| "filter_ids inp cat (mid # rest) seen res =
     (if mid \<in> seen then filter_ids inp cat rest seen res
      else filter_ids inp cat rest (insert mid seen)
        (case snap_models cat mid of
           None \<Rightarrow> exclude mid NotInCatalog res
         | Some pm \<Rightarrow> (case fi_Routes inp mid of
              None \<Rightarrow> exclude mid NoEnabledRoute res
            | Some routes \<Rightarrow>
                if routes = [] then exclude mid NoEnabledRoute res
                else filter_routes inp mid pm routes res)))"

definition Filter :: "FilterInput \<Rightarrow> EligibilityResult" where
  "Filter inp = (case fi_Catalog inp of
       None \<Rightarrow> \<lparr>er_Eligible = [], er_Excluded = []\<rparr>
     | Some cat \<Rightarrow> filter_ids inp cat (ids inp) {} \<lparr>er_Eligible = [], er_Excluded = []\<rparr>)"

subsection \<open>What the chain lets through\<close>

definition route_eligible :: "FilterInput \<Rightarrow> ProviderModel \<Rightarrow> ProviderRoute \<Rightarrow> bool" where
  "route_eligible inp pm r \<longleftrightarrow>
     rt_Enabled r \<and>
     Supports (EffectiveCapabilities r (pm_Base pm)) (fi_Reqs inp) \<and>
     (\<forall>f. fi_ProtocolCompatible inp = Some f \<longrightarrow> f r) \<and>
     (\<forall>h now. fi_Health inp = Some (h, now) \<longrightarrow> Available now h (rt_ID r)) \<and>
     (AllowsAutomaticRouting r \<or>
      routeAccessAllowed (EffectiveAccess r) (fi_AllowPaid inp) (fi_AllowUnknown inp))"

lemma exclude_Eligible [simp]: "er_Eligible (exclude mid why res) = er_Eligible res"
  by (simp add: exclude_def)

lemma filter_route_Eligible:
  "er_Eligible (filter_route inp mid pm r res) =
     er_Eligible res @ (if route_eligible inp pm r then [\<lparr>cd_Model = pm, cd_Route = r\<rparr>] else [])"
  by (auto simp: filter_route_def route_eligible_def split: option.splits)

lemma filter_routes_Eligible:
  "er_Eligible (filter_routes inp mid pm rs res) =
     er_Eligible res @ map (\<lambda>r. \<lparr>cd_Model = pm, cd_Route = r\<rparr>) (filter (route_eligible inp pm) rs)"
  by (induction rs arbitrary: res) (auto simp: filter_route_Eligible)

definition id_candidates :: "FilterInput \<Rightarrow> CatalogSnapshot \<Rightarrow> ProviderModelID \<Rightarrow> Candidate list" where
  "id_candidates inp cat mid = (case snap_models cat mid of None \<Rightarrow> []
     | Some pm \<Rightarrow> (case fi_Routes inp mid of None \<Rightarrow> []
       | Some rs \<Rightarrow> map (\<lambda>r. \<lparr>cd_Model = pm, cd_Route = r\<rparr>) (filter (route_eligible inp pm) rs)))"

fun first_seen :: "'a set \<Rightarrow> 'a list \<Rightarrow> 'a list" where
  "first_seen seen [] = []"
| "first_seen seen (x # xs) =
     (if x \<in> seen then first_seen seen xs else x # first_seen (insert x seen) xs)"

lemma set_first_seen: "set (first_seen seen xs) = set xs - seen"
  by (induction xs arbitrary: seen) auto

lemma distinct_first_seen: "distinct (first_seen seen xs)"
  by (induction xs arbitrary: seen) (auto simp: set_first_seen)

lemma filter_ids_Eligible:
  "er_Eligible (filter_ids inp cat xs seen res) =
     er_Eligible res @ concat (map (id_candidates inp cat) (first_seen seen xs))"
  by (induction xs arbitrary: seen res)
    (auto simp: id_candidates_def filter_routes_Eligible split: option.splits)

lemma Filter_Eligible:
  "er_Eligible (Filter inp) = (case fi_Catalog inp of None \<Rightarrow> []
     | Some cat \<Rightarrow> concat (map (id_candidates inp cat) (first_seen {} (ids inp))))"
  by (simp add: Filter_def filter_ids_Eligible split: option.splits)

lemma Filter_mem_iff:
  "c \<in> set (er_Eligible (Filter inp)) \<longleftrightarrow>
     (\<exists>cat mid rs. fi_Catalog inp = Some cat \<and> mid \<in> set (ids inp) \<and>
        snap_models cat mid = Some (cd_Model c) \<and> fi_Routes inp mid = Some rs \<and>
        cd_Route c \<in> set rs \<and> route_eligible inp (cd_Model c) (cd_Route c))"
proof -
  have "c \<in> set (id_candidates inp cat mid) \<longleftrightarrow> (\<exists>rs. snap_models cat mid = Some (cd_Model c) \<and>
      fi_Routes inp mid = Some rs \<and> cd_Route c \<in> set rs \<and>
      route_eligible inp (cd_Model c) (cd_Route c))" for cat mid
    by (cases c; cases "snap_models cat mid"; cases "fi_Routes inp mid")
      (auto simp: id_candidates_def)
  then show ?thesis
    by (cases "fi_Catalog inp") (auto simp: Filter_Eligible set_first_seen)
qed

text \<open>A weaker access policy only adds candidates.\<close>

lemma routeAccessAllowed_mono:
  "routeAccessAllowed a p u \<Longrightarrow> (p \<Longrightarrow> p') \<Longrightarrow> (u \<Longrightarrow> u') \<Longrightarrow> routeAccessAllowed a p' u'"
  by (auto simp: routeAccessAllowed_def split: if_splits)

section \<open>Ranking (filter.go)\<close>

type_synonym TTFTLookup = "gostring \<Rightarrow> float64 option"
type_synonym ScoreLookup = "Candidate \<Rightarrow> float64 option"

definition validRankScore :: "float64 option \<Rightarrow> float64 option" where
  "validRankScore s = (case s of None \<Rightarrow> None
     | Some x \<Rightarrow> if IsNaN x \<or> IsInf x then None else Some x)"

definition validTTFT :: "float64 option \<Rightarrow> float64 option" where
  "validTTFT s = (case s of None \<Rightarrow> None
     | Some ms \<Rightarrow> if IsNaN ms \<or> IsInf ms \<or> flt ms (Fin 0) then None else Some ms)"

definition rankByTTFT :: "Candidate \<Rightarrow> Candidate \<Rightarrow> TTFTLookup option \<Rightarrow> bool" where
  "rankByTTFT lc rc ttft =
     (let left = (case ttft of None \<Rightarrow> None | Some f \<Rightarrow> validTTFT (f (rt_ID (cd_Route lc))));
          right = (case ttft of None \<Rightarrow> None | Some f \<Rightarrow> validTTFT (f (rt_ID (cd_Route rc))))
      in if (left \<noteq> None) \<noteq> (right \<noteq> None) then left \<noteq> None
         else if left \<noteq> None \<and> \<not> feq (the left) (the right) then flt (the left) (the right)
         else if pm_ID (cd_Model lc) \<noteq> pm_ID (cd_Model rc)
         then pm_ID (cd_Model lc) < pm_ID (cd_Model rc)
         else rt_ID (cd_Route lc) < rt_ID (cd_Route rc))"

definition rank_less :: "TTFTLookup option \<Rightarrow> ScoreLookup option \<Rightarrow> Candidate \<Rightarrow> Candidate \<Rightarrow> bool" where
  "rank_less ttft score ci cj = (case score of
       None \<Rightarrow> rankByTTFT ci cj ttft
     | Some sc \<Rightarrow>
        (let left = validRankScore (sc ci); right = validRankScore (sc cj)
         in if (left \<noteq> None) \<noteq> (right \<noteq> None) then left \<noteq> None
            else if left \<noteq> None \<and> \<not> feq (the left) (the right) then flt (the right) (the left)
            else rankByTTFT ci cj ttft))"

definition RankWithScore :: "Candidate list \<Rightarrow> TTFTLookup option \<Rightarrow> ScoreLookup option \<Rightarrow> Candidate list" where
  "RankWithScore cs ttft score = sort_stable (rank_less ttft score) cs"

definition Rank :: "Candidate list \<Rightarrow> TTFTLookup option \<Rightarrow> Candidate list" where
  "Rank cs ttft = RankWithScore cs ttft None"

subsection \<open>The ranking is a strict weak order that separates identities\<close>

definition known_first :: "('a \<Rightarrow> float64 option) \<Rightarrow> (float64 \<Rightarrow> float64 \<Rightarrow> bool) \<Rightarrow> 'a \<Rightarrow> 'a \<Rightarrow> bool" where
  "known_first key lt x y = (case key x of
       None \<Rightarrow> False
     | Some a \<Rightarrow> (case key y of None \<Rightarrow> True | Some b \<Rightarrow> lt a b))"

lemma known_first_swo:
  assumes "\<And>x. key x \<noteq> Some NaN"
  shows "strict_weak_order (known_first key flt)"
    and "strict_weak_order (known_first key (\<lambda>a b. flt b a))"
proof -
  have lin: "flt a b \<or> flt b c" if "flt a c" "key x = Some b" for a b c x
    using that assms [of x] flt_linear flt_trans by (metis flt.simps(2,3) flt_irrefl)
  show "strict_weak_order (known_first key flt)"
    by unfold_locales (auto simp: known_first_def split: option.splits dest: flt_trans lin)
  show "strict_weak_order (known_first key (\<lambda>a b. flt b a))"
    by unfold_locales (auto simp: known_first_def split: option.splits dest: flt_trans lin)
qed

definition ttft_key :: "TTFTLookup option \<Rightarrow> Candidate \<Rightarrow> float64 option" where
  "ttft_key ttft c = (case ttft of None \<Rightarrow> None | Some f \<Rightarrow> validTTFT (f (rt_ID (cd_Route c))))"

definition score_key :: "ScoreLookup option \<Rightarrow> Candidate \<Rightarrow> float64 option" where
  "score_key score c = (case score of None \<Rightarrow> None | Some sc \<Rightarrow> validRankScore (sc c))"

definition cand_id :: "Candidate \<Rightarrow> ProviderModelID \<times> RouteID" where
  "cand_id c = (pm_ID (cd_Model c), rt_ID (cd_Route c))"

definition id_less :: "Candidate \<Rightarrow> Candidate \<Rightarrow> bool" where
  "id_less = lex_less (\<lambda>c d. pm_ID (cd_Model c) < pm_ID (cd_Model d))
     (\<lambda>c d. rt_ID (cd_Route c) < rt_ID (cd_Route d))"

lemma key_not_NaN: "ttft_key ttft c \<noteq> Some NaN" "score_key score c \<noteq> Some NaN"
  by (auto simp: ttft_key_def score_key_def validTTFT_def validRankScore_def IsNaN_def
      split: option.splits if_splits)

lemma known_first_asym_flt: "\<lbrakk>a \<noteq> NaN; b \<noteq> NaN; a \<noteq> b\<rbrakk> \<Longrightarrow> flt a b = (\<not> flt b a)"
  using flt_linear flt_trans flt_irrefl by blast

lemma prefer_known:
  assumes "key c \<noteq> Some NaN" and "key d \<noteq> Some NaN"
    and "\<And>a b. a \<noteq> NaN \<Longrightarrow> b \<noteq> NaN \<Longrightarrow> a \<noteq> b \<Longrightarrow> lt a b = (\<not> lt b a)" and "\<And>a. \<not> lt a a"
  shows "lex_less (known_first key lt) lt2 c d =
    (if (key c \<noteq> None) \<noteq> (key d \<noteq> None) then key c \<noteq> None
     else if key c \<noteq> None \<and> \<not> feq (the (key c)) (the (key d)) then lt (the (key c)) (the (key d))
     else lt2 c d)"
proof (cases "key c = None \<or> key d = None")
  case True
  then show ?thesis by (auto simp: known_first_def lex_less_def)
next
  case False
  then obtain a b where ab: "key c = Some a" "key d = Some b" by auto
  then have ne: "a \<noteq> NaN" "b \<noteq> NaN" using assms(1,2) by auto
  then consider "a = b" | "a \<noteq> b" "lt a b" "\<not> lt b a" | "a \<noteq> b" "\<not> lt a b" "lt b a"
    using assms(3) [OF ne] by blast
  then show ?thesis
    using assms(4) ne by cases (simp_all add: ab feq_def known_first_def lex_less_def)
qed

lemma id_less_iff:
  "id_less c d = (if pm_ID (cd_Model c) \<noteq> pm_ID (cd_Model d)
     then pm_ID (cd_Model c) < pm_ID (cd_Model d) else rt_ID (cd_Route c) < rt_ID (cd_Route d))"
  unfolding id_less_def by (rule lex_less_key)

lemma rankByTTFT_lex:
  "rankByTTFT c d ttft = lex_less (known_first (ttft_key ttft) flt) id_less c d"
  unfolding rankByTTFT_def Let_def ttft_key_def [symmetric] id_less_iff [symmetric]
  by (rule prefer_known [symmetric], rule key_not_NaN, rule key_not_NaN,
      rule known_first_asym_flt, assumption+, rule flt_irrefl)

lemma rank_less_lex:
  "rank_less ttft score c d = lex_less (known_first (score_key score) (\<lambda>a b. flt b a))
     (lex_less (known_first (ttft_key ttft) flt) id_less) c d"
proof (cases score)
  case None
  then show ?thesis
    by (simp add: rank_less_def rankByTTFT_lex lex_less_def [of "known_first (score_key None) _"]
        known_first_def [of "score_key None"] score_key_def)
next
  case (Some sc)
  then have "validRankScore (sc c) = score_key score c" for c
    by (simp add: score_key_def)
  with Some show ?thesis
    unfolding rank_less_def Let_def rankByTTFT_lex
    by (simp only: option.case)
      (rule prefer_known [symmetric], rule key_not_NaN, rule key_not_NaN,
        rule known_first_asym_flt, assumption, assumption, erule not_sym, rule flt_irrefl)
qed

lemma id_less_swo: "strict_weak_order id_less"
  unfolding id_less_def by (intro strict_weak_order_lex strict_weak_order_key)

interpretation rank: strict_total_on "rank_less ttft score" cand_id for ttft score
proof -
  have "rank_less ttft score = lex_less (known_first (score_key score) (\<lambda>a b. flt b a))
      (lex_less (known_first (ttft_key ttft) flt) id_less)"
    by (intro ext) (rule rank_less_lex)
  moreover have "strict_weak_order \<dots>"
    by (intro strict_weak_order_lex known_first_swo id_less_swo key_not_NaN)
  ultimately have swo: "strict_weak_order (rank_less ttft score)" by simp
  have "id_less c d \<or> id_less d c" if "cand_id c \<noteq> cand_id d" for c d
    using that by (auto simp: id_less_def lex_less_def cand_id_def)
  then have "rank_less ttft score c d \<or> rank_less ttft score d c" if "cand_id c \<noteq> cand_id d" for c d
    using that by (auto simp: rank_less_lex lex_less_def)
  with swo show "strict_total_on (rank_less ttft score) cand_id"
    by (simp add: strict_total_on_def strict_total_on_axioms_def)
qed

lemma mset_RankWithScore [simp]: "mset (RankWithScore cs ttft score) = mset cs"
  by (simp add: RankWithScore_def)

lemma set_RankWithScore [simp]: "set (RankWithScore cs ttft score) = set cs"
  by (simp add: RankWithScore_def)

lemma set_Rank [simp]: "set (Rank cs ttft) = set cs" and mset_Rank [simp]: "mset (Rank cs ttft) = mset cs"
  by (simp_all add: Rank_def)

section \<open>Properties\<close>

definition sample_candidate :: "gostring \<Rightarrow> gostring \<Rightarrow> Candidate" where
  "sample_candidate rid pid = \<lparr>cd_Model = sample_model pid, cd_Route = sample_route rid pid AccessFree\<rparr>"

text \<open>C27: a candidate comes out of the filter exactly when its model is asked for and in the catalog,
  its route belongs to that model, is enabled, supports the request after the override, speaks the
  protocol, is healthy now, and its access is allowed; and a model listed twice yields no candidate
  twice, the order being that of the first mentions.\<close>

theorem Filter_exact:
  "(c \<in> set (er_Eligible (Filter inp))) =
     (\<exists>cat mid rs. fi_Catalog inp = Some cat \<and> mid \<in> set (ids inp) \<and>
        snap_models cat mid = Some (cd_Model c) \<and> fi_Routes inp mid = Some rs \<and>
        cd_Route c \<in> set rs \<and> route_eligible inp (cd_Model c) (cd_Route c)) \<and>
   er_Eligible (Filter inp) = (case fi_Catalog inp of None \<Rightarrow> []
     | Some cat \<Rightarrow> concat (map (id_candidates inp cat) (first_seen {} (ids inp))))"
  using Filter_mem_iff [of c inp] Filter_Eligible [of inp] by blast

text \<open>C28: without the paid opt-in no route whose access is Paid is ever a candidate, unless the route's
  own policy allows it to be routed automatically.\<close>

theorem no_paid_without_opt_in:
  assumes "\<not> fi_AllowPaid inp" and "c \<in> set (er_Eligible (Filter inp))"
    and "rt_AutoRouteAllowed (cd_Route c) \<noteq> Some True"
  shows "EffectiveAccess (cd_Route c) \<noteq> AccessPaid"
  using assms
  by (auto simp: Filter_mem_iff route_eligible_def routeAccessAllowed_def AllowsAutomaticRouting_def
      split: option.splits)

definition sample_input :: "AccessClass \<Rightarrow> FilterInput" where
  "sample_input access = \<lparr>fi_ExplicitID = [], fi_Pool = [''p/a''],
     fi_Catalog = Some \<lparr>cs_Revision = 1, cs_CreatedAt = 0, cs_Models = Some [''p/a'' \<mapsto> sample_model ''p/a'']\<rparr>,
     fi_Routes = [''p/a'' \<mapsto> [sample_route ''r1'' ''p/a'' access]],
     fi_Reqs = \<lparr>req_Streaming = True, req_Tools = False, req_Vision = False, req_StructuredOutput = False,
       req_Reasoning = False, req_MinContextLength = 0, req_MaxOutputTokens = 0\<rparr>,
     fi_AllowPaid = False, fi_AllowUnknown = False, fi_ProtocolCompatible = None, fi_Health = None\<rparr>"

lemma sample_input_Eligible:
  "er_Eligible (Filter (sample_input AccessFree)) = [sample_candidate ''r1'' ''p/a'']"
  by (simp add: Filter_def sample_input_def ids_def snap_models_def filter_route_def sample_route_def
      sample_model_def sample_candidate_def Supports_def State_def IsUnknown_def EffectiveCapabilities_def
      AllowsAutomaticRouting_def EffectiveAccess_def)

theorem no_paid_without_opt_in_witness:
  "EffectiveAccess (cd_Route (sample_candidate ''r1'' ''p/a'')) \<noteq> AccessPaid"
  using no_paid_without_opt_in [of "sample_input AccessFree" "sample_candidate ''r1'' ''p/a''"]
  by (simp add: sample_input_Eligible) (simp add: sample_input_def sample_candidate_def sample_route_def)

text \<open>Ranking permutes the candidates; a candidate with a usable score precedes every one without,
  a higher score precedes a lower one, and among equals a lower known time to first token does.\<close>

theorem RankWithScore_order:
  assumes "i < j" and "j < length cs"
  shows "mset (RankWithScore cs ttft score) = mset cs \<and>
    (let c = RankWithScore cs ttft score ! i; d = RankWithScore cs ttft score ! j
     in \<not> known_first (score_key score) (\<lambda>a b. flt b a) d c \<and>
        (known_first (score_key score) (\<lambda>a b. flt b a) c d \<or> \<not> known_first (ttft_key ttft) flt d c))"
proof -
  have len: "length (RankWithScore cs ttft score) = length cs" by (simp add: RankWithScore_def)
  have "sorted_wrt (\<lambda>x y. \<not> rank_less ttft score y x) (RankWithScore cs ttft score)"
    unfolding RankWithScore_def by (rule rank.sorted_sort_stable)
  then have "\<not> rank_less ttft score (RankWithScore cs ttft score ! j) (RankWithScore cs ttft score ! i)"
    using assms len by (simp add: sorted_wrt_iff_nth_less)
  then show ?thesis by (auto simp: rank_less_lex lex_less_def Let_def)
qed

theorem RankWithScore_order_witness:
  "\<not> known_first (score_key (Some (\<lambda>c. if rt_ID (cd_Route c) = ''r1'' then None else Some (Fin 7))))
     (\<lambda>a b. flt b a)
     (RankWithScore [sample_candidate ''r1'' ''p/a'', sample_candidate ''r2'' ''p/b''] None
        (Some (\<lambda>c. if rt_ID (cd_Route c) = ''r1'' then None else Some (Fin 7))) ! 1)
     (RankWithScore [sample_candidate ''r1'' ''p/a'', sample_candidate ''r2'' ''p/b''] None
        (Some (\<lambda>c. if rt_ID (cd_Route c) = ''r1'' then None else Some (Fin 7))) ! 0)"
  using RankWithScore_order [of 0 1 "[sample_candidate ''r1'' ''p/a'', sample_candidate ''r2'' ''p/b'']"]
  unfolding Let_def by force

end
