(* ===== verification/Matcher.thy ===== *)
theory Matcher
  imports Router
begin

text \<open>
  Package \<open>internal/matcher\<close>: binding a provider model to a benchmark record by normalized
  names. Names are compared after \<open>normalize\<close>; dates and deployment words at the end are
  dropped for a family match. The two regular expressions are written as predicates on the
  suffix they match; Unicode classes are modelled on ASCII, a byte from 128 up counting as a
  letter.
\<close>

section \<open>Records (matcher.go)\<close>

datatype MatchMethod = MatchZero | MatchNone | MatchExact | MatchFamily | MatchVariant

definition ExactConfidence :: float64 where
  "ExactConfidence = fl 1"

definition FamilyConfidence :: float64 where
  "FamilyConfidence = fl (3 / 4)"

definition VariantConfidence :: float64 where
  "VariantConfidence = fl (1 / 2)"

record BenchmarkModel =
  bm_SourceModelID :: gostring
  bm_CanonicalModelKey :: CanonicalModelKey
  bm_Name :: gostring
  bm_Aliases :: "gostring list"

record BenchmarkBinding =
  bb_CanonicalModelKey :: CanonicalModelKey
  bb_SourceModelID :: gostring
  bb_Confidence :: float64
  bb_MatchMethod :: MatchMethod

record Matcher =
  mt_ExactConfidence :: float64
  mt_FamilyConfidence :: float64
  mt_VariantConfidence :: float64

definition matcher_New :: Matcher where
  "matcher_New = \<lparr>mt_ExactConfidence = ExactConfidence, mt_FamilyConfidence = FamilyConfidence,
     mt_VariantConfidence = VariantConfidence\<rparr>"

text \<open>The zero binding (a missing map entry) and the \<open>MatchNone\<close> binding.\<close>

definition zeroBinding :: BenchmarkBinding where
  "zeroBinding = \<lparr>bb_CanonicalModelKey = [], bb_SourceModelID = [], bb_Confidence = Fin 0,
     bb_MatchMethod = MatchZero\<rparr>"

definition noBinding :: BenchmarkBinding where
  "noBinding = zeroBinding\<lparr>bb_MatchMethod := MatchNone\<rparr>"

section \<open>Names (matcher.go)\<close>

definition keep_char :: "char \<Rightarrow> bool" where
  "keep_char c = (is_lower c \<or> is_upper c \<or> is_digit c \<or> 128 \<le> (of_char c :: nat) \<or> c = CHR ''.'')"

fun normalize_loop :: "gostring \<Rightarrow> bool \<Rightarrow> gostring \<Rightarrow> gostring" where
  "normalize_loop b separator [] = b"
| "normalize_loop b separator (r # s) =
     (if keep_char r
      then normalize_loop ((if separator \<and> b \<noteq> [] then b @ ''-'' else b) @ [r]) False s
      else normalize_loop b True s)"

definition str_Trim :: "char \<Rightarrow> gostring \<Rightarrow> gostring" where
  "str_Trim c s = rev (dropWhile (\<lambda>x. x = c) (rev (dropWhile (\<lambda>x. x = c) s)))"

definition normalize :: "gostring \<Rightarrow> gostring" where
  "normalize value = str_Trim CHR ''-'' (normalize_loop [] False (ToLower (TrimSpace value)))"

fun normalizedUnique_loop :: "gostring set \<Rightarrow> gostring list \<Rightarrow> gostring list" where
  "normalizedUnique_loop seen [] = []"
| "normalizedUnique_loop seen (v # vs) =
     (let value = normalize v
      in if value = [] then normalizedUnique_loop seen vs
         else if value \<in> seen then normalizedUnique_loop seen vs
         else value # normalizedUnique_loop (insert value seen) vs)"

definition normalizedUnique :: "gostring list \<Rightarrow> gostring list" where
  "normalizedUnique values = normalizedUnique_loop {} values"

definition providerNames :: "ProviderModel \<Rightarrow> gostring list" where
  "providerNames pm = normalizedUnique
     ([pm_CanonicalKey pm, pm_UpstreamID pm, pm_DisplayName pm] @
      (case id_Parse (pm_ID pm) of Inr (_, segment) \<Rightarrow> [segment] | Inl _ \<Rightarrow> []))"

definition benchmarkNames :: "BenchmarkModel \<Rightarrow> gostring list" where
  "benchmarkNames b = normalizedUnique ([bm_CanonicalModelKey b, bm_Name b] @ bm_Aliases b)"

text \<open>
  \<open>re.ReplaceAllString(s, "")\<close> for an expression anchored at the end: the leftmost start of a
  matching suffix is where the string is cut.
\<close>

fun cut_suffix :: "(gostring \<Rightarrow> bool) \<Rightarrow> gostring \<Rightarrow> gostring" where
  "cut_suffix P [] = []"
| "cut_suffix P (c # s) = (if P (c # s) then [] else c # cut_suffix P s)"

fun matches_shape :: "gostring \<Rightarrow> gostring \<Rightarrow> bool" where
  "matches_shape [] [] = True"
| "matches_shape (p # ps) (c # cs) =
     ((if p = CHR ''d'' then is_digit c else c = p) \<and> matches_shape ps cs)"
| "matches_shape _ _ = False"

definition dateSuffix :: "gostring \<Rightarrow> bool" where
  "dateSuffix s = (matches_shape ''-dddd'' s \<or> matches_shape ''-dddd-dd'' s \<or>
     matches_shape ''-dddd-dd-dd'' s)"

definition deploymentSuffix :: "gostring \<Rightarrow> bool" where
  "deploymentSuffix s = (case s of [] \<Rightarrow> False
     | c # rest \<Rightarrow> c = CHR ''-'' \<and>
         list_all (\<lambda>w. w \<in> {''free'', ''paid'', ''preview'', ''latest'', ''it''})
           (str_Split CHR ''-'' rest))"

definition trim_family :: "gostring \<Rightarrow> gostring" where
  "trim_family v = cut_suffix deploymentSuffix (cut_suffix dateSuffix v)"

lemma cut_suffix_prefix: "\<exists>t. s = cut_suffix P s @ t"
  by (induction s) auto

lemma trim_family_length: "trim_family v \<noteq> v \<Longrightarrow> length (trim_family v) < length v"
proof -
  obtain t where t: "v = cut_suffix dateSuffix v @ t" using cut_suffix_prefix by blast
  obtain u where u: "cut_suffix dateSuffix v = trim_family v @ u"
    unfolding trim_family_def using cut_suffix_prefix by blast
  assume "trim_family v \<noteq> v"
  with t u have "u @ t \<noteq> []" by auto
  then show ?thesis
    by (subst t, subst u) auto
qed

function family_loop :: "gostring \<Rightarrow> gostring" where
  "family_loop value = (let trimmed = trim_family value
     in if trimmed = value then value else family_loop trimmed)"
  by pat_completeness auto

termination
  by (relation "measure length") (auto simp: trim_family_length)

declare family_loop.simps [simp del]

definition familyKey :: "gostring \<Rightarrow> gostring" where
  "familyKey value = family_loop (normalize value)"

fun common_prefix :: "'a list \<Rightarrow> 'a list \<Rightarrow> nat" where
  "common_prefix (x # xs) (y # ys) = (if x = y then Suc (common_prefix xs ys) else 0)"
| "common_prefix _ _ = 0"

definition variantMatch :: "gostring \<Rightarrow> gostring \<Rightarrow> bool" where
  "variantMatch left right =
     (let leftTokens = str_Split CHR ''-'' (normalize left);
          rightTokens = str_Split CHR ''-'' (normalize right)
      in if length leftTokens < 2 \<or> length rightTokens < 2 then False
         else let common = common_prefix leftTokens rightTokens;
                  shorter = min (length leftTokens) (length rightTokens)
              in 2 \<le> common \<and> common = shorter \<and> length leftTokens \<noteq> length rightTokens)"

section \<open>Matching (matcher.go)\<close>

definition any_pair :: "('a \<Rightarrow> 'b \<Rightarrow> bool) \<Rightarrow> 'a list \<Rightarrow> 'b list \<Rightarrow> bool" where
  "any_pair P xs ys = list_ex (\<lambda>x. list_ex (P x) ys) xs"

definition matchMethod :: "ProviderModel \<Rightarrow> BenchmarkModel \<Rightarrow> MatchMethod \<times> int" where
  "matchMethod pm b =
     (if pm_CanonicalKey pm \<noteq> [] \<and> bm_CanonicalModelKey b \<noteq> [] \<and>
         normalize (pm_CanonicalKey pm) = normalize (bm_CanonicalModelKey b)
      then (MatchExact, 3)
      else let ps = providerNames pm; bs = benchmarkNames b
      in if any_pair (\<lambda>l r. l \<noteq> [] \<and> l = r) ps bs then (MatchExact, 3)
         else if any_pair (\<lambda>l r. l \<noteq> [] \<and> r \<noteq> [] \<and> familyKey l = familyKey r) ps bs
         then (MatchFamily, 2)
         else if any_pair variantMatch ps bs then (MatchVariant, 1)
         else (MatchNone, - 1))"

definition bindingKey :: "ProviderModel \<Rightarrow> BenchmarkModel \<Rightarrow> CanonicalModelKey" where
  "bindingKey pm b =
     (if pm_CanonicalKey pm \<noteq> [] then pm_CanonicalKey pm
      else if bm_CanonicalModelKey b \<noteq> [] then bm_CanonicalModelKey b
      else case first_some (\<lambda>name. let key = familyKey name in if key \<noteq> [] then Some key else None)
             (providerNames pm) of Some key \<Rightarrow> key | None \<Rightarrow> [])"

definition confidence :: "Matcher \<Rightarrow> MatchMethod \<Rightarrow> float64" where
  "confidence m method =
     (let value = (case method of
            MatchExact \<Rightarrow> mt_ExactConfidence m
          | MatchFamily \<Rightarrow> mt_FamilyConfidence m
          | MatchVariant \<Rightarrow> mt_VariantConfidence m
          | _ \<Rightarrow> Fin 0)
      in if flt value (Fin 0) then Fin 0 else if flt (Fin 1) value then Fin 1 else value)"

definition make_binding :: "Matcher \<Rightarrow> ProviderModel \<Rightarrow> BenchmarkModel \<Rightarrow> BenchmarkBinding" where
  "make_binding m pm b =
     \<lparr>bb_CanonicalModelKey = bindingKey pm b, bb_SourceModelID = bm_SourceModelID b,
      bb_Confidence = confidence m (fst (matchMethod pm b)),
      bb_MatchMethod = fst (matchMethod pm b)\<rparr>"

text \<open>The loop of \<open>MatchUnique\<close>: best binding, its rank, ambiguity.\<close>

fun unique_loop :: "Matcher \<Rightarrow> ProviderModel \<Rightarrow> BenchmarkModel list \<Rightarrow>
    BenchmarkBinding \<times> int \<times> bool \<Rightarrow> BenchmarkBinding \<times> int \<times> bool" where
  "unique_loop m pm [] st = st"
| "unique_loop m pm (b # bs) (best, bestRank, ambiguous) = unique_loop m pm bs
     (if TrimSpace (bm_SourceModelID b) = [] then (best, bestRank, ambiguous)
      else let rank = snd (matchMethod pm b); binding = make_binding m pm b
      in if rank < 0 \<or> rank < bestRank then (best, bestRank, ambiguous)
         else if bestRank < rank then (binding, rank, False)
         else if bb_SourceModelID binding \<noteq> bb_SourceModelID best then (best, bestRank, True)
         else (best, bestRank, ambiguous))"

definition MatchUnique :: "Matcher \<Rightarrow> ProviderModel \<Rightarrow> BenchmarkModel list \<Rightarrow> BenchmarkBinding \<times> bool" where
  "MatchUnique m pm bs =
     (case unique_loop m pm bs (noBinding, - 1, False) of
        (best, bestRank, ambiguous) \<Rightarrow> (best, 0 \<le> bestRank \<and> \<not> ambiguous))"

definition betterTie :: "BenchmarkBinding \<Rightarrow> BenchmarkBinding \<Rightarrow> bool" where
  "betterTie candidate current =
     (if bb_MatchMethod current = MatchNone then True
      else if \<not> feq (bb_Confidence candidate) (bb_Confidence current)
      then flt (bb_Confidence current) (bb_Confidence candidate)
      else bb_SourceModelID candidate < bb_SourceModelID current)"

fun match_loop :: "Matcher \<Rightarrow> ProviderModel \<Rightarrow> BenchmarkModel list \<Rightarrow>
    BenchmarkBinding \<times> int \<Rightarrow> BenchmarkBinding \<times> int" where
  "match_loop m pm [] st = st"
| "match_loop m pm (b # bs) (best, bestRank) = match_loop m pm bs
     (if TrimSpace (bm_SourceModelID b) = [] then (best, bestRank)
      else let rank = snd (matchMethod pm b); binding = make_binding m pm b
      in if rank < bestRank then (best, bestRank)
         else if rank = - 1 then (best, bestRank)
         else if bestRank < rank \<or> betterTie binding best then (binding, rank)
         else (best, bestRank))"

definition Match :: "Matcher \<Rightarrow> ProviderModel \<Rightarrow> BenchmarkModel list \<Rightarrow> BenchmarkBinding" where
  "Match m pm bs = fst (match_loop m pm bs (noBinding, - 1))"

text \<open>Keyed by \<open>pm.ID\<close>; a later model with the same id replaces an earlier one.\<close>

definition MatchAll :: "ProviderModel list \<Rightarrow> BenchmarkModel list \<Rightarrow> ProviderModelID \<rightharpoonup> BenchmarkBinding" where
  "MatchAll pms bs = foldl (\<lambda>r pm. r(pm_ID pm \<mapsto> Match matcher_New pm bs)) Map.empty pms"

definition StableBindings :: "ProviderModelID list \<Rightarrow> (ProviderModelID \<rightharpoonup> BenchmarkBinding) \<Rightarrow>
    (ProviderModelID \<times> BenchmarkBinding) list" where
  "StableBindings ord bindings = map (\<lambda>k. (k, the (bindings k))) (sort ord)"

section \<open>What a unique match is\<close>

definition rank :: "ProviderModel \<Rightarrow> BenchmarkModel \<Rightarrow> int" where
  "rank pm b = snd (matchMethod pm b)"

text \<open>A record that can bind the model: a source id, and a match of some kind.\<close>

definition usable :: "ProviderModel \<Rightarrow> BenchmarkModel \<Rightarrow> bool" where
  "usable pm b \<longleftrightarrow> TrimSpace (bm_SourceModelID b) \<noteq> [] \<and> 0 \<le> rank pm b"

fun method_of_rank :: "int \<Rightarrow> MatchMethod" where
  "method_of_rank r = (if r = 3 then MatchExact else if r = 2 then MatchFamily
     else if r = 1 then MatchVariant else MatchNone)"

lemma matchMethod_rank: "fst (matchMethod pm b) = method_of_rank (rank pm b)"
  and rank_cases: "rank pm b \<in> {- 1, 1, 2, 3}"
  by (simp_all add: matchMethod_def rank_def Let_def)

lemma make_binding_sel [simp]:
  "bb_SourceModelID (make_binding m pm b) = bm_SourceModelID b"
  "bb_MatchMethod (make_binding m pm b) = method_of_rank (rank pm b)"
  "bb_Confidence (make_binding m pm b) = confidence m (method_of_rank (rank pm b))"
  by (simp_all add: make_binding_def matchMethod_rank del: method_of_rank.simps)

lemma unique_loop_append:
  "unique_loop m pm (xs @ ys) st = unique_loop m pm ys (unique_loop m pm xs st)"
  by (induction m pm xs st rule: unique_loop.induct) auto

definition unique_spec :: "Matcher \<Rightarrow> ProviderModel \<Rightarrow> BenchmarkModel list \<Rightarrow>
    BenchmarkBinding \<Rightarrow> int \<Rightarrow> bool \<Rightarrow> bool" where
  "unique_spec m pm bs best br amb \<longleftrightarrow>
     (br = - 1 \<and> best = noBinding \<and> \<not> amb \<and> (\<forall>b \<in> set bs. \<not> usable pm b)) \<or>
     (\<exists>b \<in> set bs. usable pm b \<and> rank pm b = br \<and> best = make_binding m pm b \<and>
        (\<forall>c \<in> set bs. usable pm c \<longrightarrow> rank pm c \<le> br) \<and>
        (amb \<longleftrightarrow> (\<exists>c \<in> set bs. usable pm c \<and> rank pm c = br \<and>
           bm_SourceModelID c \<noteq> bm_SourceModelID b)))"

lemma unique_step_spec:
  assumes "unique_spec m pm bs best br amb"
    and "unique_loop m pm [b] (best, br, amb) = (best', br', amb')"
  shows "unique_spec m pm (bs @ [b]) best' br' amb'"
proof (cases "usable pm b")
  case False
  with assms(2) rank_cases [of pm b] have "(best', br', amb') = (best, br, amb)"
    by (auto simp: usable_def rank_def Let_def split: if_splits)
  with assms(1) False show ?thesis by (auto simp: unique_spec_def)
next
  case True
  then have u: "TrimSpace (bm_SourceModelID b) \<noteq> []" "0 \<le> rank pm b"
    by (auto simp: usable_def)
  consider "br < rank pm b" | "rank pm b = br" | "rank pm b < br" by linarith
  then show ?thesis
  proof cases
    case 1
    with assms(2) u have *: "best' = make_binding m pm b" "br' = rank pm b" "\<not> amb'"
      by (auto simp: rank_def Let_def split: if_splits)
    from assms(1) 1 have "\<forall>c \<in> set bs. usable pm c \<longrightarrow> rank pm c < rank pm b"
      by (auto simp: unique_spec_def)
    with True * show ?thesis by (auto simp: unique_spec_def intro!: bexI [of _ b])
  next
    case 2
    with u assms(1) obtain d where d: "d \<in> set bs" "usable pm d" "rank pm d = br"
      "best = make_binding m pm d" "\<forall>c \<in> set bs. usable pm c \<longrightarrow> rank pm c \<le> br"
      "amb \<longleftrightarrow> (\<exists>c \<in> set bs. usable pm c \<and> rank pm c = br \<and> bm_SourceModelID c \<noteq> bm_SourceModelID d)"
      by (auto simp: unique_spec_def)
    from assms(2) 2 u d(4) have *: "best' = best" "br' = br"
      "amb' \<longleftrightarrow> amb \<or> bm_SourceModelID b \<noteq> bm_SourceModelID d"
      by (auto simp: rank_def Let_def split: if_splits)
    have "d \<in> set (bs @ [b])" "\<forall>c \<in> set (bs @ [b]). usable pm c \<longrightarrow> rank pm c \<le> br"
      "amb' \<longleftrightarrow> (\<exists>c \<in> set (bs @ [b]). usable pm c \<and> rank pm c = br \<and> bm_SourceModelID c \<noteq> bm_SourceModelID d)"
      using d(1,5,6) * 2 True by auto
    with d(2-4) * show ?thesis unfolding unique_spec_def by blast
  next
    case 3
    with assms(2) u have *: "(best', br', amb') = (best, br, amb)"
      by (auto simp: rank_def Let_def split: if_splits)
    from 3 u have "br \<noteq> - 1" by simp
    with assms(1) obtain d where d: "d \<in> set bs" "usable pm d" "rank pm d = br"
      "best = make_binding m pm d" "\<forall>c \<in> set bs. usable pm c \<longrightarrow> rank pm c \<le> br"
      "amb \<longleftrightarrow> (\<exists>c \<in> set bs. usable pm c \<and> rank pm c = br \<and> bm_SourceModelID c \<noteq> bm_SourceModelID d)"
      by (auto simp: unique_spec_def)
    have "d \<in> set (bs @ [b])" "\<forall>c \<in> set (bs @ [b]). usable pm c \<longrightarrow> rank pm c \<le> br"
      "amb \<longleftrightarrow> (\<exists>c \<in> set (bs @ [b]). usable pm c \<and> rank pm c = br \<and> bm_SourceModelID c \<noteq> bm_SourceModelID d)"
      using d(1,5,6) 3 by auto
    with d(2-4) * show ?thesis unfolding unique_spec_def by blast
  qed
qed

lemma unique_loop_spec:
  "unique_loop m pm bs (noBinding, - 1, False) = (best, br, amb) \<Longrightarrow> unique_spec m pm bs best br amb"
proof (induction bs arbitrary: best br amb rule: rev_induct)
  case Nil
  then show ?case by (simp add: unique_spec_def)
next
  case (snoc b bs)
  obtain best0 br0 amb0 where st: "unique_loop m pm bs (noBinding, - 1, False) = (best0, br0, amb0)"
    by (cases "unique_loop m pm bs (noBinding, - 1, False)")
  with snoc.prems have "unique_loop m pm [b] (best0, br0, amb0) = (best, br, amb)"
    by (simp add: unique_loop_append)
  with snoc.IH [OF st] show ?case by (rule unique_step_spec)
qed

text \<open>The strongest usable record, and no equally strong one of another source.\<close>

definition unique_best :: "ProviderModel \<Rightarrow> BenchmarkModel list \<Rightarrow> BenchmarkModel \<Rightarrow> bool" where
  "unique_best pm bs b \<longleftrightarrow> b \<in> set bs \<and> usable pm b \<and>
     (\<forall>c \<in> set bs. usable pm c \<longrightarrow> rank pm c \<le> rank pm b \<and>
        (rank pm c = rank pm b \<longrightarrow> bm_SourceModelID c = bm_SourceModelID b))"

lemma MatchUnique_True_iff:
  "snd (MatchUnique m pm bs) \<longleftrightarrow> (\<exists>b. unique_best pm bs b)"
proof -
  obtain best br amb where st: "unique_loop m pm bs (noBinding, - 1, False) = (best, br, amb)"
    by (cases "unique_loop m pm bs (noBinding, - 1, False)")
  then have mu: "snd (MatchUnique m pm bs) \<longleftrightarrow> 0 \<le> br \<and> \<not> amb" by (simp add: MatchUnique_def)
  from unique_loop_spec [OF st] show ?thesis
    unfolding unique_spec_def mu
  proof (elim disjE bexE conjE)
    assume "br = - 1" and "\<forall>b \<in> set bs. \<not> usable pm b"
    then show "(0 \<le> br \<and> \<not> amb) = (\<exists>b. unique_best pm bs b)"
      by (auto simp: unique_best_def)
  next
    fix b
    assume b: "b \<in> set bs" "usable pm b" "rank pm b = br"
      "\<forall>c \<in> set bs. usable pm c \<longrightarrow> rank pm c \<le> br"
      and amb: "amb = (\<exists>c \<in> set bs. usable pm c \<and> rank pm c = br \<and> bm_SourceModelID c \<noteq> bm_SourceModelID b)"
    from b have "0 \<le> br" by (auto simp: usable_def)
    moreover have "unique_best pm bs b" if "\<not> amb"
      using that b(1,2,4) unfolding amb unique_best_def b(3) by blast
    moreover have "\<not> amb" if "unique_best pm bs d" for d
    proof -
      have "rank pm b \<le> rank pm d" and "rank pm d \<le> br"
        using that b(1,2,4) unfolding unique_best_def by blast+
      with b(3) have eq: "rank pm d = br" by simp
      have best: "bm_SourceModelID c = bm_SourceModelID d"
        if "c \<in> set bs" "usable pm c" "rank pm c = br" for c
        using \<open>unique_best pm bs d\<close> that unfolding unique_best_def eq by blast
      show ?thesis
        unfolding amb by (metis best b(1-3))
    qed
    ultimately show "(0 \<le> br \<and> \<not> amb) = (\<exists>b. unique_best pm bs b)" by blast
  qed
qed

lemma MatchUnique_binding:
  assumes "MatchUnique m pm bs = (binding, True)"
  shows "\<exists>b. unique_best pm bs b \<and> binding = make_binding m pm b"
proof -
  obtain best br amb where st: "unique_loop m pm bs (noBinding, - 1, False) = (best, br, amb)"
    by (cases "unique_loop m pm bs (noBinding, - 1, False)")
  with assms have "binding = best" "0 \<le> br" "\<not> amb" by (auto simp: MatchUnique_def)
  with unique_loop_spec [OF st] show ?thesis
    by (auto simp: unique_spec_def unique_best_def)
qed

lemma unique_best_same:
  assumes "unique_best pm bs b" and "unique_best pm bs' c" and "set bs = set bs'"
  shows "rank pm b = rank pm c" and "bm_SourceModelID b = bm_SourceModelID c"
proof -
  have "rank pm b \<le> rank pm c" and "rank pm c \<le> rank pm b"
    using assms unfolding unique_best_def by blast+
  then show eq: "rank pm b = rank pm c" by simp
  show "bm_SourceModelID b = bm_SourceModelID c"
    using assms eq unfolding unique_best_def by metis
qed

section \<open>Properties\<close>

text \<open>A model gets a benchmark binding exactly when one record (up to its source id) matches it more
  strongly than every other usable record, and the binding is that record's, with the confidence of the
  kind of match.\<close>

theorem MatchUnique_exact:
  "snd (MatchUnique m pm bs) = (\<exists>b. unique_best pm bs b \<and> fst (MatchUnique m pm bs) = make_binding m pm b)"
proof (cases "snd (MatchUnique m pm bs)")
  case True
  then have "MatchUnique m pm bs = (fst (MatchUnique m pm bs), True)" by (metis prod.collapse)
  from MatchUnique_binding [OF this] True show ?thesis by auto
next
  case False
  then show ?thesis using MatchUnique_True_iff [of m pm bs] by blast
qed

text \<open>The order in which the benchmark records come does not matter: two lists with the same records
  agree on whether there is a binding, and on its source, confidence and kind of match.\<close>

theorem MatchUnique_order:
  assumes "set bs = set bs'"
  shows "snd (MatchUnique m pm bs) = snd (MatchUnique m pm bs') \<and>
    (snd (MatchUnique m pm bs) = False \<or>
     bb_SourceModelID (fst (MatchUnique m pm bs)) = bb_SourceModelID (fst (MatchUnique m pm bs')) \<and>
     bb_Confidence (fst (MatchUnique m pm bs)) = bb_Confidence (fst (MatchUnique m pm bs')) \<and>
     bb_MatchMethod (fst (MatchUnique m pm bs)) = bb_MatchMethod (fst (MatchUnique m pm bs')))"
proof -
  have best: "unique_best pm bs = unique_best pm bs'"
    using assms by (simp add: unique_best_def fun_eq_iff)
  have same: "snd (MatchUnique m pm bs) = snd (MatchUnique m pm bs')"
    by (simp only: MatchUnique_True_iff best)
  show ?thesis
  proof (cases "snd (MatchUnique m pm bs)")
    case True
    then have "MatchUnique m pm bs = (fst (MatchUnique m pm bs), True)"
      "MatchUnique m pm bs' = (fst (MatchUnique m pm bs'), True)" using same by (metis prod.collapse)+
    from MatchUnique_binding [OF this(1)] MatchUnique_binding [OF this(2)]
    obtain b c where "unique_best pm bs b" "unique_best pm bs' c"
      and eq: "fst (MatchUnique m pm bs) = make_binding m pm b" "fst (MatchUnique m pm bs') = make_binding m pm c"
      by blast
    from unique_best_same [OF this(1,2) assms] same show ?thesis unfolding eq by simp
  qed (use same in blast)
qed

definition sample_benchmark :: "gostring \<Rightarrow> BenchmarkModel" where
  "sample_benchmark name = \<lparr>bm_SourceModelID = name, bm_CanonicalModelKey = [], bm_Name = name, bm_Aliases = []\<rparr>"

theorem MatchUnique_order_witness:
  "snd (MatchUnique matcher_New (sample_model ''p/a'') [sample_benchmark ''x'', sample_benchmark ''y'']) =
   snd (MatchUnique matcher_New (sample_model ''p/a'') [sample_benchmark ''y'', sample_benchmark ''x''])"
  using MatchUnique_order [of "[sample_benchmark ''x'', sample_benchmark ''y'']"
      "[sample_benchmark ''y'', sample_benchmark ''x'']" matcher_New "sample_model ''p/a''"]
  by auto

end
