(* ===== verification/Scoring.thy ===== *)
theory Scoring
  imports Matcher
begin

text \<open>
  Package \<open>internal/scoring\<close>, file \<open>scoring.go\<close>: performance and routing scores on the 0..100
  scale and mid-rank percentiles, in \<open>float64\<close> arithmetic operation by operation. A nil metric
  pointer is \<open>None\<close>. \<open>sort.Float64s\<close> is stable sorting by \<open><\<close> and \<open>sort.Search\<close> the binary
  search of Go's library; both meet only finite numbers here.
\<close>

section \<open>Constants and metrics (scoring.go)\<close>

definition UnknownScore :: float64 where
  "UnknownScore = Fin 50"

definition CapabilityWeight :: float64 where
  "CapabilityWeight = fl (55 / 100)"

definition AvailabilityWeight :: float64 where
  "AvailabilityWeight = fl (30 / 100)"

definition IntelligenceWeight :: float64 where
  "IntelligenceWeight = fl (15 / 100)"

definition PerformanceWeight :: float64 where
  "PerformanceWeight = fl (70 / 100)"

definition LatencyWeight :: float64 where
  "LatencyWeight = fl (30 / 100)"

record Metrics =
  me_Capability :: "float64 option"
  me_Availability :: "float64 option"
  me_Intelligence :: "float64 option"

definition noMetrics :: Metrics where
  "noMetrics = \<lparr>me_Capability = None, me_Availability = None, me_Intelligence = None\<rparr>"

record Result =
  re_Performance :: float64
  re_EffectivePerformance :: float64
  re_Latency :: float64
  re_RoutingScore :: float64
  re_Confidence :: float64
  re_HasPerformanceData :: bool

section \<open>Clamping (scoring.go)\<close>

definition finite_f :: "float64 \<Rightarrow> bool" where
  "finite_f value = (\<not> IsNaN value \<and> \<not> IsInf value)"

definition validSample :: "float64 \<Rightarrow> bool" where
  "validSample value = (finite_f value \<and> fle (Fin 0) value)"

definition neutralIfNonFinite :: "float64 \<Rightarrow> float64" where
  "neutralIfNonFinite value = (if \<not> finite_f value then UnknownScore else value)"

definition clampUnit :: "float64 \<Rightarrow> float64" where
  "clampUnit value =
     (if \<not> finite_f value \<or> flt value (Fin 0) then Fin 0
      else if flt (Fin 1) value then Fin 1
      else value)"

definition clampScore :: "float64 \<Rightarrow> float64" where
  "clampScore value =
     (if \<not> finite_f value then UnknownScore
      else if flt value (Fin 0) then Fin 0
      else if flt (Fin 100) value then Fin 100
      else value)"

definition metricOrNeutral :: "float64 option \<Rightarrow> float64 \<times> bool" where
  "metricOrNeutral value = (case value of
       None \<Rightarrow> (UnknownScore, False)
     | Some v \<Rightarrow> if \<not> finite_f v then (UnknownScore, False) else (clampScore v, True))"

section \<open>Scores (scoring.go)\<close>

definition Performance :: "Metrics \<Rightarrow> float64" where
  "Performance metrics =
     (let capability = fst (metricOrNeutral (me_Capability metrics));
          availability = fst (metricOrNeutral (me_Availability metrics));
          intelligence = fst (metricOrNeutral (me_Intelligence metrics))
      in clampScore (fadd (fadd (fmul CapabilityWeight capability)
                                (fmul AvailabilityWeight availability))
                          (fmul IntelligenceWeight intelligence)))"

definition HasPerformanceData :: "Metrics \<Rightarrow> bool" where
  "HasPerformanceData metrics =
     (snd (metricOrNeutral (me_Capability metrics)) \<or>
      snd (metricOrNeutral (me_Availability metrics)) \<or>
      snd (metricOrNeutral (me_Intelligence metrics)))"

definition Effective :: "float64 \<Rightarrow> float64 \<Rightarrow> float64" where
  "Effective performance conf =
     (let performance = (if \<not> finite_f performance then UnknownScore else performance);
          performance = clampScore performance;
          conf = clampUnit conf
      in clampScore (fadd (fmul conf performance)
                          (fmul (fsub (Fin 1) conf) UnknownScore)))"

definition Routing :: "float64 \<Rightarrow> float64 \<Rightarrow> float64" where
  "Routing effectivePerformance latencyScore =
     clampScore (fadd (fmul PerformanceWeight (clampScore effectivePerformance))
                      (fmul LatencyWeight (clampScore latencyScore)))"

definition Score :: "Metrics \<Rightarrow> float64 \<Rightarrow> float64 \<Rightarrow> Result" where
  "Score metrics conf latencyScore =
     (let hasData = HasPerformanceData metrics;
          performance = Performance metrics;
          conf = (if \<not> hasData then Fin 0 else conf);
          effective = Effective performance conf;
          latencyScore = neutralIfNonFinite latencyScore
      in \<lparr>re_Performance = performance,
          re_EffectivePerformance = effective,
          re_Latency = clampScore latencyScore,
          re_RoutingScore = Routing effective latencyScore,
          re_Confidence = clampUnit conf,
          re_HasPerformanceData = hasData\<rparr>)"

section \<open>Percentiles (scoring.go)\<close>

definition finiteValues :: "float64 list \<Rightarrow> float64 list" where
  "finiteValues values = filter validSample values"

text \<open>\<open>sort.Search(n, f)\<close>: binary search between \<open>i\<close> and \<open>j\<close>.\<close>

function search_loop :: "(nat \<Rightarrow> bool) \<Rightarrow> nat \<Rightarrow> nat \<Rightarrow> nat" where
  "search_loop f i j =
     (if i < j
      then let h = (i + j) div 2 in if \<not> f h then search_loop f (h + 1) j else search_loop f i h
      else i)"
  by pat_completeness auto

termination
  by (relation "measure (\<lambda>(f, i, j). j - i)") auto

declare search_loop.simps [simp del]

definition sort_Search :: "nat \<Rightarrow> (nat \<Rightarrow> bool) \<Rightarrow> nat" where
  "sort_Search n f = search_loop f 0 n"

definition SearchFloat64s :: "float64 list \<Rightarrow> float64 \<Rightarrow> nat" where
  "SearchFloat64s a x = sort_Search (length a) (\<lambda>i. fle x (a ! i))"

definition Percentile :: "float64 \<Rightarrow> float64 list \<Rightarrow> bool \<Rightarrow> float64" where
  "Percentile value population higherIsBetter =
     (if \<not> validSample value then UnknownScore
      else let clean = finiteValues population
        in if length clean < 2 then UnknownScore
           else let clean = sort_stable flt clean;
                    lower = SearchFloat64s clean value;
                    upper = sort_Search (length clean) (\<lambda>i. flt value (clean ! i));
                    upper = (if lower = upper then lower else upper);
                    rank = fdiv (fsub (fadd (float_of_int (int lower)) (float_of_int (int upper)))
                                      (Fin 1)) (Fin 2);
                    percentile = fdiv (fmul (Fin 100) rank)
                                      (float_of_int (int (length clean) - 1));
                    percentile = (if \<not> higherIsBetter then fsub (Fin 100) percentile
                                  else percentile)
             in clampScore percentile)"

definition PercentileRank :: "float64 \<Rightarrow> float64 list \<Rightarrow> bool \<Rightarrow> float64" where
  "PercentileRank value population higherIsBetter = Percentile value population higherIsBetter"

definition Percentiles :: "float64 list \<Rightarrow> bool \<Rightarrow> float64 list" where
  "Percentiles values higherIsBetter = map (\<lambda>value. Percentile value values higherIsBetter) values"

section \<open>Bounds\<close>

lemma finite_f_iff: "finite_f x \<longleftrightarrow> (\<exists>r. x = Fin r)"
  by (cases x) (auto simp: finite_f_def IsNaN_def IsInf_def)

lemma finite_f_simps [simp]: "finite_f (Fin r)" "\<not> finite_f NaN" "\<not> finite_f PInf" "\<not> finite_f NInf"
  by (simp_all add: finite_f_iff)

definition in_range :: "rat \<Rightarrow> float64 \<Rightarrow> bool" where
  "in_range b x = (case x of Fin r \<Rightarrow> 0 \<le> r \<and> r \<le> b | _ \<Rightarrow> False)"

lemma in_range_iff: "in_range b x \<longleftrightarrow> (\<exists>r. x = Fin r \<and> 0 \<le> r \<and> r \<le> b)"
  by (auto simp: in_range_def split: float64.splits)

lemma clampScore_range [simp]: "in_range 100 (clampScore x)"
  by (cases x) (auto simp: clampScore_def in_range_def UnknownScore_def)

lemma clampUnit_range [simp]: "in_range 1 (clampUnit x)"
  by (cases x) (auto simp: clampUnit_def in_range_def)

lemma clampScore_id: "in_range 100 x \<Longrightarrow> clampScore x = x"
  by (auto simp: clampScore_def in_range_iff)

lemma clampScore_idem [simp]: "clampScore (clampScore x) = clampScore x"
  by (simp add: clampScore_id)

lemma metricOrNeutral_range [simp]: "in_range 100 (fst (metricOrNeutral v))"
  by (simp add: metricOrNeutral_def split: option.split) (simp add: in_range_def UnknownScore_def)

lemma clampScore_mono: "fle x y \<Longrightarrow> finite_f x \<Longrightarrow> finite_f y \<Longrightarrow> fle (clampScore x) (clampScore y)"
  by (auto simp: finite_f_iff clampScore_def)

section \<open>Binary search\<close>

lemma search_loop_least:
  assumes mono: "\<And>a b. a \<le> b \<Longrightarrow> b < n \<Longrightarrow> f a \<Longrightarrow> f b"
    and "i \<le> j" and "j \<le> n" and "\<forall>k < i. \<not> f k" and "\<forall>k < n. j \<le> k \<longrightarrow> f k"
  shows "search_loop f i j \<le> n \<and> (\<forall>k < n. f k \<longleftrightarrow> search_loop f i j \<le> k)"
  using assms(2-5)
proof (induction "j - i" arbitrary: i j rule: less_induct)
  case less
  show ?case
  proof (cases "i < j")
    case False
    then have "search_loop f i j = i" by (subst search_loop.simps) simp
    with False less.prems show ?thesis by (metis le_antisym leI)
  next
    case True
    let ?h = "(i + j) div 2"
    have h: "i \<le> ?h" "?h < j" using True by auto
    show ?thesis
    proof (cases "f ?h")
      case True
      have "\<forall>k < n. ?h \<le> k \<longrightarrow> f k" using mono True by blast
      with less.hyps [of ?h i] less.prems h True \<open>i < j\<close> show ?thesis
        by (subst (1 2) search_loop.simps) simp
    next
      case False
      have "\<not> f k" if "k < ?h + 1" for k
        using mono [of k ?h] False that h less.prems(2) by auto
      with less.hyps [of j "?h + 1"] less.prems h False \<open>i < j\<close> show ?thesis
        by (subst (1 2) search_loop.simps) simp
    qed
  qed
qed

lemma sort_Search_least:
  assumes "\<And>a b. a \<le> b \<Longrightarrow> b < n \<Longrightarrow> f a \<Longrightarrow> f b"
  shows "sort_Search n f \<le> n \<and> (\<forall>k < n. f k \<longleftrightarrow> sort_Search n f \<le> k)"
  unfolding sort_Search_def by (rule search_loop_least) (use assms in auto)

text \<open>On a list sorted by \<open>le\<close> an upward closed predicate is found at the number of elements below it.\<close>

lemma sort_Search_count:
  assumes "sorted_wrt le xs" and refl: "\<And>x. x \<in> set xs \<Longrightarrow> le x x"
    and up: "\<And>x y. x \<in> set xs \<Longrightarrow> y \<in> set xs \<Longrightarrow> le x y \<Longrightarrow> P x \<Longrightarrow> P y"
  shows "sort_Search (length xs) (\<lambda>i. P (xs ! i)) = length (filter (\<lambda>x. \<not> P x) xs)"
proof -
  let ?s = "sort_Search (length xs) (\<lambda>i. P (xs ! i))"
  have "le (xs ! a) (xs ! b)" if "a \<le> b" "b < length xs" for a b
    using that assms(1) refl by (cases "a = b") (auto simp: sorted_wrt_iff_nth_less)
  then have "P (xs ! b)" if "a \<le> b" "b < length xs" "P (xs ! a)" for a b
    using that up [of "xs ! a" "xs ! b"] by auto
  then have s: "?s \<le> length xs" "\<forall>k < length xs. P (xs ! k) \<longleftrightarrow> ?s \<le> k"
    using sort_Search_least [of "length xs" "\<lambda>i. P (xs ! i)"] by blast+
  have "{i. i < length xs \<and> \<not> P (xs ! i)} = {..< ?s}"
    using s by (auto simp: not_le intro: less_le_trans)
  then show ?thesis by (simp add: length_filter_conv_card)
qed

text \<open>The strict order of \<open>float64\<close> on finite values, as \<open>sort.Float64s\<close> meets them.\<close>

definition fin_val :: "float64 \<Rightarrow> rat" where
  "fin_val x = (case x of Fin r \<Rightarrow> r | _ \<Rightarrow> 0)"

lemma flt_fin_val: "finite_f x \<Longrightarrow> finite_f y \<Longrightarrow> flt x y \<longleftrightarrow> fin_val x < fin_val y"
  and fle_fin_val: "finite_f x \<Longrightarrow> finite_f y \<Longrightarrow> fle x y \<longleftrightarrow> fin_val x \<le> fin_val y"
  by (cases x; cases y; simp add: fin_val_def)+

lemma sorted_floats:
  assumes "\<forall>x \<in> set xs. finite_f x"
  shows "sorted_wrt fle (sort_stable flt xs)"
proof -
  have "sort_stable flt xs = sort_stable (\<lambda>x y. fin_val x < fin_val y) xs"
    using assms by (intro sort_stable_less_cong) (simp add: flt_fin_val)
  moreover have "sorted_wrt (\<lambda>x y. \<not> fin_val y < fin_val x) (sort_stable (\<lambda>x y. fin_val x < fin_val y) xs)"
    using strict_weak_order.sorted_sort_stable [OF strict_weak_order_key] by blast
  moreover have "finite_f x" if "x \<in> set (sort_stable flt xs)" for x
    using that assms by simp
  ultimately show ?thesis
    by (auto simp: fle_fin_val elim!: sorted_wrt_mono_rel [rotated])
qed

section \<open>Percentiles count\<close>

text \<open>
  The specification of a percentile: how many valid samples lie below the value and how many
  do not lie above it, without sorting or searching.
\<close>

definition mid_rank_score :: "nat \<Rightarrow> nat \<Rightarrow> nat \<Rightarrow> bool \<Rightarrow> float64" where
  "mid_rank_score below notAbove n higherIsBetter =
     (let rank = fdiv (fsub (fadd (float_of_int (int below)) (float_of_int (int notAbove)))
                            (Fin 1)) (Fin 2);
          percentile = fdiv (fmul (Fin 100) rank) (float_of_int (int n - 1))
      in clampScore (if \<not> higherIsBetter then fsub (Fin 100) percentile else percentile))"

definition percentile_spec :: "float64 \<Rightarrow> float64 list \<Rightarrow> bool \<Rightarrow> float64" where
  "percentile_spec v population higherIsBetter =
     (let samples = filter validSample population
      in if validSample v \<and> 2 \<le> length samples
         then mid_rank_score (length (filter (\<lambda>x. flt x v) samples))
                (length (filter (\<lambda>x. fle x v) samples)) (length samples) higherIsBetter
         else UnknownScore)"

lemma length_filter_sort_stable: "length (filter P (sort_stable lt xs)) = length (filter P xs)"
  by (metis mset_filter mset_sort_stable size_mset)

lemma validSample_finite: "validSample x \<Longrightarrow> finite_f x"
  by (simp add: validSample_def)

lemma search_lower:
  assumes "\<forall>x \<in> set xs. finite_f x" and "finite_f v"
  shows "SearchFloat64s (sort_stable flt xs) v = length (filter (\<lambda>x. flt x v) xs)"
proof -
  have "SearchFloat64s (sort_stable flt xs) v = length (filter (\<lambda>x. \<not> fle v x) (sort_stable flt xs))"
    unfolding SearchFloat64s_def using assms
    by (intro sort_Search_count [OF sorted_floats]) (auto simp: fle_fin_val)
  also have "\<dots> = length (filter (\<lambda>x. \<not> fle v x) xs)"
    by (rule length_filter_sort_stable)
  also have "filter (\<lambda>x. \<not> fle v x) xs = filter (\<lambda>x. flt x v) xs"
    using assms by (intro filter_cong) (auto simp: fle_fin_val flt_fin_val)
  finally show ?thesis .
qed

lemma search_upper:
  assumes "\<forall>x \<in> set xs. finite_f x" and "finite_f v"
  shows "sort_Search (length xs) (\<lambda>i. flt v (sort_stable flt xs ! i)) = length (filter (\<lambda>x. fle x v) xs)"
proof -
  have "sort_Search (length (sort_stable flt xs)) (\<lambda>i. flt v (sort_stable flt xs ! i)) =
    length (filter (\<lambda>x. \<not> flt v x) (sort_stable flt xs))"
    using assms by (intro sort_Search_count [OF sorted_floats]) (auto simp: fle_fin_val flt_fin_val)
  also have "\<dots> = length (filter (\<lambda>x. \<not> flt v x) xs)"
    by (rule length_filter_sort_stable)
  also have "filter (\<lambda>x. \<not> flt v x) xs = filter (\<lambda>x. fle x v) xs"
    using assms by (intro filter_cong) (auto simp: fle_fin_val flt_fin_val)
  finally show ?thesis by simp
qed

lemma Percentile_spec_eq: "Percentile v pop h = percentile_spec v pop h"
proof (cases "validSample v \<and> 2 \<le> length (finiteValues pop)")
  case True
  then have "\<forall>x \<in> set (finiteValues pop). finite_f x" and "finite_f v"
    by (auto simp: finiteValues_def validSample_finite)
  note search = search_lower [OF this] search_upper [OF this]
  from True show ?thesis
    by (simp add: Percentile_def percentile_spec_def mid_rank_score_def Let_def search
        flip: finiteValues_def)
next
  case False
  then show ?thesis
    by (auto simp: Percentile_def percentile_spec_def Let_def finiteValues_def)
qed

section \<open>Monotonicity\<close>

lemma fl_in_range: "0 \<le> x \<Longrightarrow> x \<le> of_int m \<Longrightarrow> m < 2 ^ 53 \<Longrightarrow> in_range (of_int m) (fl x)"
  using fl_bounded [of x m] by (simp add: in_range_iff)

lemma fle_fl: "x \<le> y \<Longrightarrow> fl x = Fin a \<Longrightarrow> fl y = Fin b \<Longrightarrow> a \<le> b"
  using fl_mono [of x y] by simp

lemma fmul_mono:
  assumes "0 \<le> w" and "fle x y" and "finite_f x" and "finite_f y"
  shows "fle (fmul (Fin w) x) (fmul (Fin w) y)"
  using assms by (auto simp: finite_f_iff intro!: fl_mono mult_left_mono)

lemma fadd_mono:
  assumes "fle a b" and "fle c d" and "finite_f a" "finite_f b" "finite_f c" "finite_f d"
  shows "fle (fadd a c) (fadd b d)"
  using assms by (auto simp: finite_f_iff intro!: fl_mono add_mono)

lemma fmul_range:
  assumes "0 \<le> w" and "w \<le> 1" and "in_range 100 x"
  shows "in_range 100 (fmul (Fin w) x)"
proof -
  from assms(3) obtain r where r: "x = Fin r" "0 \<le> r" "r \<le> 100" by (auto simp: in_range_iff)
  then have "w * r \<le> 1 * 100" using assms by (intro mult_mono) auto
  with r assms show ?thesis
    using fl_in_range [of "w * r" 100] by simp
qed

lemma fadd_range:
  assumes "in_range (of_int a) x" and "in_range (of_int b) y" and "a + b < 2 ^ 53"
  shows "in_range (of_int (a + b)) (fadd x y)"
  using assms fl_in_range [of _ "a + b"] by (auto simp: in_range_iff)

lemma in_range_finite: "in_range b x \<Longrightarrow> finite_f x"
  by (auto simp: in_range_iff)

lemma weights_range:
  "in_range 1 CapabilityWeight" "in_range 1 AvailabilityWeight" "in_range 1 IntelligenceWeight"
  "in_range 1 PerformanceWeight" "in_range 1 LatencyWeight"
  using fl_in_range [of _ 1]
  by (simp_all add: CapabilityWeight_def AvailabilityWeight_def IntelligenceWeight_def
      PerformanceWeight_def LatencyWeight_def)

lemma weighted_mono:
  assumes "in_range 1 w" and "fle x y" and "finite_f x" and "finite_f y"
  shows "fle (fmul w x) (fmul w y)"
  using assms fmul_mono by (auto simp: in_range_iff simp del: fmul.simps)

lemma weighted_range: "in_range 1 w \<Longrightarrow> in_range 100 x \<Longrightarrow> in_range 100 (fmul w x)"
  using fmul_range by (auto simp: in_range_iff simp del: fmul.simps)

lemma weighted_finite: "in_range 1 w \<Longrightarrow> in_range 100 x \<Longrightarrow> finite_f (fmul w x)"
  by (rule in_range_finite [OF weighted_range])

lemma sum_finite: "in_range 100 x \<Longrightarrow> in_range 100 y \<Longrightarrow> finite_f (fadd x y)"
  and sum3_finite: "in_range 100 x \<Longrightarrow> in_range 100 y \<Longrightarrow> in_range 100 z \<Longrightarrow> finite_f (fadd (fadd x y) z)"
proof -
  have 2: "in_range 200 (fadd x y)" if "in_range 100 x" "in_range 100 y" for x y
    using fadd_range [of 100 x 100 y] that by simp
  show "finite_f (fadd x y)" if "in_range 100 x" "in_range 100 y"
    using 2 [OF that] by (rule in_range_finite)
  show "finite_f (fadd (fadd x y) z)" if "in_range 100 x" "in_range 100 y" "in_range 100 z"
    using fadd_range [of 200 "fadd x y" 100 z] 2 [OF that(1,2)] that(3)
    by (simp add: in_range_finite)
qed

lemmas score_ranges = weights_range weighted_range clampScore_range clampUnit_range
  metricOrNeutral_range

lemmas score_intros = clampScore_mono fadd_mono weighted_mono weighted_finite score_ranges

text \<open>One metric is known not to be better: missing on both sides, or known and not larger.\<close>

definition metric_le :: "float64 option \<Rightarrow> float64 option \<Rightarrow> bool" where
  "metric_le a b = (case (a, b) of
       (None, None) \<Rightarrow> True
     | (Some x, Some y) \<Rightarrow> finite_f x \<and> finite_f y \<and> fle x y
     | _ \<Rightarrow> False)"

definition metrics_le :: "Metrics \<Rightarrow> Metrics \<Rightarrow> bool" where
  "metrics_le m n = (metric_le (me_Capability m) (me_Capability n) \<and>
     metric_le (me_Availability m) (me_Availability n) \<and>
     metric_le (me_Intelligence m) (me_Intelligence n))"

lemma metricOrNeutral_mono:
  assumes "metric_le a b"
  shows "fle (fst (metricOrNeutral a)) (fst (metricOrNeutral b))"
    and "snd (metricOrNeutral a) = snd (metricOrNeutral b)"
  using assms clampScore_mono
  by (auto simp: metric_le_def metricOrNeutral_def UnknownScore_def split: option.splits)

lemma Performance_mono:
  assumes "metrics_le m n"
  shows "fle (Performance m) (Performance n)"
  using assms unfolding Performance_def metrics_le_def Let_def
  by (intro score_intros sum3_finite sum_finite metricOrNeutral_mono
      in_range_finite [OF metricOrNeutral_range]) auto

lemma complement_range: "in_range 1 (fsub (Fin 1) (clampUnit c))"
proof -
  obtain r where "clampUnit c = Fin r" "0 \<le> r" "r \<le> 1"
    using clampUnit_range [of c] by (auto simp: in_range_iff)
  then show ?thesis using fl_in_range [of "1 - r" 1] by (simp add: fsub_def)
qed

lemma UnknownScore_facts:
  "in_range 100 UnknownScore" "finite_f UnknownScore" "fle UnknownScore UnknownScore"
  by (simp_all add: UnknownScore_def in_range_def)

lemma Effective_mono:
  assumes "in_range 100 p" and "in_range 100 q" and "fle p q"
  shows "fle (Effective p c) (Effective q c)"
  using assms unfolding Effective_def Let_def
  by (simp add: in_range_finite clampScore_id,
      intro score_intros sum_finite complement_range UnknownScore_facts)
     (auto simp: in_range_finite)

lemma Routing_mono:
  assumes "fle p q" and "fle l k" and "finite_f p" "finite_f q" "finite_f l" "finite_f k"
  shows "fle (Routing p l) (Routing q k)"
  using assms unfolding Routing_def
  by (intro score_intros sum_finite in_range_finite [OF clampScore_range])

lemma Performance_range [simp]: "in_range 100 (Performance m)"
  and Effective_range [simp]: "in_range 100 (Effective p c)"
  and Routing_range [simp]: "in_range 100 (Routing p l)"
  by (simp_all add: Performance_def Effective_def Routing_def Let_def)

lemma Effective_0: "Effective p (Fin 0) = Fin 50"
proof -
  obtain r where "clampScore (if \<not> finite_f p then UnknownScore else p) = Fin r"
    using clampScore_range [unfolded in_range_iff] by blast
  moreover have "fl 1 = Fin 1" "fl 50 = Fin 50"
    using fl_of_int [of 1] fl_of_int [of 50] by simp_all
  ultimately show ?thesis
    by (simp add: Effective_def Let_def clampUnit_def fsub_def UnknownScore_def
        clampScore_id in_range_def)
qed

section \<open>Properties\<close>

text \<open>Every number in a score result is finite and on its scale, whatever the inputs,
  NaN and the infinities included.\<close>

theorem Score_in_range:
  "in_range 100 (re_Performance (Score m c l)) \<and> in_range 100 (re_EffectivePerformance (Score m c l)) \<and>
   in_range 100 (re_Latency (Score m c l)) \<and> in_range 100 (re_RoutingScore (Score m c l)) \<and>
   in_range 1 (re_Confidence (Score m c l))"
  by (simp add: Score_def Let_def)

text \<open>A record that is at least as good on every known metric never gets a lower
  performance, effective or routing score at the same confidence and a latency score at least as
  good.\<close>

theorem Score_mono:
  assumes "metrics_le m n" and "fle l k" and "finite_f l" and "finite_f k"
  shows "fle (re_Performance (Score m c l)) (re_Performance (Score n c k)) \<and>
    fle (re_EffectivePerformance (Score m c l)) (re_EffectivePerformance (Score n c k)) \<and>
    fle (re_RoutingScore (Score m c l)) (re_RoutingScore (Score n c k))"
proof -
  have data: "HasPerformanceData m = HasPerformanceData n"
    using assms(1) metricOrNeutral_mono(2) unfolding metrics_le_def HasPerformanceData_def by blast
  have perf: "fle (Performance m) (Performance n)"
    using assms(1) by (rule Performance_mono)
  then have eff: "fle (Effective (Performance m) d) (Effective (Performance n) d)" for d
    by (intro Effective_mono) simp_all
  then have "fle (Routing (Effective (Performance m) d) l) (Routing (Effective (Performance n) d) k)" for d
    using assms(2-4) by (intro Routing_mono) (auto simp: in_range_finite [OF Effective_range])
  with perf eff show ?thesis
    using assms(3,4) by (simp add: Score_def Let_def data neutralIfNonFinite_def)
qed

theorem Score_mono_witness:
  "fle (re_RoutingScore (Score noMetrics (Fin 1) (Fin 10))) (re_RoutingScore (Score noMetrics (Fin 1) (Fin 90)))"
  using Score_mono [of noMetrics noMetrics "Fin 10" "Fin 90" "Fin 1"]
  by (simp add: metrics_le_def metric_le_def noMetrics_def)

text \<open>Without usable benchmark data (no record, or none of its metrics finite) the confidence
  is ignored: the effective performance is exactly the neutral 50 and the routing score depends on
  the latency alone.\<close>

theorem Score_neutral:
  assumes "\<not> HasPerformanceData m"
  shows "re_EffectivePerformance (Score m c l) = Fin 50 \<and> re_Confidence (Score m c l) = Fin 0 \<and>
    re_RoutingScore (Score m c l) = Routing UnknownScore (neutralIfNonFinite l)"
  using assms by (simp add: Score_def Let_def Effective_0 clampUnit_def UnknownScore_def)

theorem Score_neutral_witness:
  "re_EffectivePerformance (Score (noMetrics\<lparr>me_Capability := Some NaN\<rparr>) (Fin 1) PInf) = Fin 50"
  using Score_neutral [of "noMetrics\<lparr>me_Capability := Some NaN\<rparr>" "Fin 1" PInf]
  by (simp add: HasPerformanceData_def metricOrNeutral_def noMetrics_def)

lemma fl_finite_abs:
  assumes "\<bar>x\<bar> \<le> of_int m" and "m < 2 ^ 53"
  shows "\<exists>r. fl x = Fin r \<and> \<bar>r\<bar> \<le> of_int m"
proof (cases "0 \<le> x")
  case True
  with fl_bounded [of x m] assms show ?thesis by auto
next
  case False
  then have "0 \<le> - x" "- x \<le> of_int m" using assms by auto
  note neg = fl_bounded [OF this assms(2)]
  then have abs: "\<bar>fround x\<bar> \<le> of_int m" by (simp add: fround_minus)
  moreover have "of_int m < (2 :: rat) ^ 53"
    using assms(2) by (metis of_int_less_iff of_int_numeral of_int_power)
  moreover have "(2 :: rat) ^ 53 \<le> 2 ^ 1024" by (rule power_increasing) auto
  ultimately have "fl x = Fin (fround x)" by (intro fl_FinI) linarith
  with abs show ?thesis by blast
qed

lemma fl_of_nat: "n < 2 ^ 40 \<Longrightarrow> float_of_int (int n) = Fin (of_nat n)"
  using float_of_int_exact [of "int n"] by simp

text \<open>The raw percentile as a function of the rank sum: finite, and monotone in it.\<close>

definition raw_percentile :: "nat \<Rightarrow> nat \<Rightarrow> float64" where
  "raw_percentile s n = fl (fround (100 * fround ((of_nat s - 1) / 2)) / (of_nat n - 1))"

lemma raw_percentile_mono: "s \<le> t \<Longrightarrow> 2 \<le> n \<Longrightarrow> fle (raw_percentile s n) (raw_percentile t n)"
  unfolding raw_percentile_def
  by (intro fl_mono divide_right_mono fround_mono mult_left_mono diff_right_mono) auto

lemma fl_abs_fround: "\<bar>x\<bar> \<le> of_int m \<Longrightarrow> m < 2 ^ 53 \<Longrightarrow> fl x = Fin (fround x) \<and> \<bar>fround x\<bar> \<le> of_int m"
  using fl_finite_abs [of x m] fl_Fin_cases [of x] by auto

lemma raw_percentile_steps:
  assumes "below \<le> n" and "upTo \<le> n" and "2 \<le> n" and "n < 2 ^ 40"
  shows "fdiv (fmul (Fin 100) (fdiv (fsub (fadd (float_of_int (int below)) (float_of_int (int upTo)))
      (Fin 1)) (Fin 2))) (float_of_int (int n - 1)) = raw_percentile (below + upTo) n"
    and "\<exists>r. raw_percentile (below + upTo) n = Fin r \<and> \<bar>r\<bar> \<le> of_int (100 * 2 ^ 41)"
proof -
  let ?s = "below + upTo"
  have s: "?s < 2 ^ 41" using assms by simp
  let ?h = "(of_nat ?s - 1) / 2 :: rat"
  have sum: "fl (of_nat ?s) = Fin (of_nat ?s)"
    using fl_of_int [of "int ?s"] s by simp
  have diff: "fl (of_nat ?s - 1) = Fin (of_nat ?s - 1)"
    using fl_of_int [of "int ?s - 1"] s by simp
  have "(of_nat ?s :: rat) \<le> of_int (2 ^ 41)"
    using s by (metis less_imp_le of_int_of_nat_eq of_int_le_iff of_nat_less_iff of_nat_numeral of_nat_power)
  then have "\<bar>?h\<bar> \<le> of_int (2 ^ 41)" by (auto simp: abs_le_iff)
  then have half: "fl ?h = Fin (fround ?h)" "\<bar>fround ?h\<bar> \<le> of_int (2 ^ 41)"
    using fl_abs_fround [of ?h "2 ^ 41"] by auto
  then have "\<bar>100 * fround ?h\<bar> \<le> of_int (100 * 2 ^ 41)" by (auto simp: abs_le_iff)
  then have hundred: "fl (100 * fround ?h) = Fin (fround (100 * fround ?h))"
    "\<bar>fround (100 * fround ?h)\<bar> \<le> of_int (100 * 2 ^ 41)"
    using fl_abs_fround [of "100 * fround ?h" "100 * 2 ^ 41"] by auto
  have n: "float_of_int (int n - 1) = Fin (of_nat n - 1)" "(1 :: rat) \<le> of_nat n - 1"
    using float_of_int_exact [of "int n - 1"] assms by auto
  have nats: "float_of_int (int below) = Fin (of_nat below)" "float_of_int (int upTo) = Fin (of_nat upTo)"
    using fl_of_nat assms by auto
  from n(2) show "fdiv (fmul (Fin 100) (fdiv (fsub (fadd (float_of_int (int below)) (float_of_int (int upTo)))
      (Fin 1)) (Fin 2))) (float_of_int (int n - 1)) = raw_percentile ?s n"
    using sum diff half(1) hundred(1) assms(3) by (simp add: n nats raw_percentile_def fsub_def)
  let ?p = "fround (100 * fround ?h) / (of_nat n - 1)"
  have "\<bar>?p\<bar> = \<bar>fround (100 * fround ?h)\<bar> / (of_nat n - 1)"
    using n(2) by simp
  also have "\<dots> \<le> \<bar>fround (100 * fround ?h)\<bar> / 1"
    using n(2) by (intro divide_left_mono) auto
  finally have "\<bar>?p\<bar> \<le> of_int (100 * 2 ^ 41)" using hundred(2) by linarith
  then show "\<exists>r. raw_percentile ?s n = Fin r \<and> \<bar>r\<bar> \<le> of_int (100 * 2 ^ 41)"
    unfolding raw_percentile_def using fl_abs_fround [of ?p "100 * 2 ^ 41"] by simp
qed

lemma mid_rank_score_raw:
  assumes "below \<le> n" and "upTo \<le> n" and "2 \<le> n" and "n < 2 ^ 40"
  shows "mid_rank_score below upTo n h =
    clampScore (if h then raw_percentile (below + upTo) n
                else fsub (Fin 100) (raw_percentile (below + upTo) n))"
  unfolding mid_rank_score_def Let_def raw_percentile_steps(1) [OF assms] by simp

lemma mid_rank_score_mono:
  assumes "l + u \<le> l' + u'" and "l \<le> n" "u \<le> n" "l' \<le> n" "u' \<le> n" and n: "2 \<le> n" "n < 2 ^ 40"
  shows "fle (mid_rank_score l u n True) (mid_rank_score l' u' n True)"
    and "fle (mid_rank_score l' u' n False) (mid_rank_score l u n False)"
proof -
  from raw_percentile_steps(2) [OF assms(2,3) n] obtain r
    where r: "raw_percentile (l + u) n = Fin r" "\<bar>r\<bar> \<le> of_int (100 * 2 ^ 41)" by blast
  from raw_percentile_steps(2) [OF assms(4,5) n] obtain r'
    where r': "raw_percentile (l' + u') n = Fin r'" "\<bar>r'\<bar> \<le> of_int (100 * 2 ^ 41)" by blast
  have le: "r \<le> r'" using raw_percentile_mono [OF assms(1) n(1)] r(1) r'(1) by simp
  then show "fle (mid_rank_score l u n True) (mid_rank_score l' u' n True)"
    unfolding mid_rank_score_raw [OF assms(2,3) n] mid_rank_score_raw [OF assms(4,5) n] r(1) r'(1)
    using clampScore_mono [of "Fin r" "Fin r'"] by simp
  have fin: "finite_f (fl (100 - x))" if "\<bar>x\<bar> \<le> of_int (100 * 2 ^ 41)" for x
  proof -
    have "\<bar>100 - x\<bar> \<le> of_int (100 + 100 * 2 ^ 41)" using that by (auto simp: abs_le_iff)
    then show ?thesis using fl_abs_fround [of "100 - x" "100 + 100 * 2 ^ 41"] by auto
  qed
  have "fle (fl (100 - r')) (fl (100 - r))" using le by (intro fl_mono) simp
  then show "fle (mid_rank_score l' u' n False) (mid_rank_score l u n False)"
    unfolding mid_rank_score_raw [OF assms(2,3) n] mid_rank_score_raw [OF assms(4,5) n] r(1) r'(1)
    using clampScore_mono [OF _ fin [OF r'(2)] fin [OF r(2)]] by (simp add: fsub_def)
qed

lemma length_filter_mono: "(\<And>x. x \<in> set xs \<Longrightarrow> P x \<Longrightarrow> Q x) \<Longrightarrow> length (filter P xs) \<le> length (filter Q xs)"
  by (induction xs) (auto simp: le_SucI)

lemma Percentile_perm: "mset pop = mset pop' \<Longrightarrow> Percentile v pop h = Percentile v pop' h"
proof -
  assume eq: "mset pop = mset pop'"
  have len: "length (filter P (filter validSample pop)) = length (filter P (filter validSample pop'))" for P
    using eq by (metis mset_filter size_mset)
  from len [of "\<lambda>_. True"] show ?thesis
    by (simp add: Percentile_spec_eq percentile_spec_def Let_def len del: filter_filter)
qed

text \<open>Sorting and the two binary searches compute the mid-rank from the number of valid
  samples below the value and of those not above it, so the percentile does not depend on the order
  of the population.\<close>

theorem Percentile_counts:
  "Percentile v pop h = percentile_spec v pop h \<and>
   (mset pop = mset pop' \<longrightarrow> Percentile v pop h = Percentile v pop' h)"
  by (intro conjI impI Percentile_spec_eq Percentile_perm)

theorem Percentile_counts_witness:
  "Percentile (Fin 3) [Fin 1, NaN, Fin 3, Fin 5] True = Percentile (Fin 3) [Fin 5, Fin 3, NaN, Fin 1] True"
  by (rule mp [OF conjunct2 [OF Percentile_counts]]) simp

text \<open>With higher-is-better a larger value never gets a smaller percentile in the same
  population, and with lower-is-better never a larger one.\<close>

theorem Percentile_mono:
  assumes "validSample v" and "validSample w" and "fle v w" and "length pop < 2 ^ 40"
  shows "fle (Percentile v pop True) (Percentile w pop True) \<and>
    fle (Percentile w pop False) (Percentile v pop False)"
proof (cases "2 \<le> length (filter validSample pop)")
  case False
  with assms show ?thesis
    by (simp add: Percentile_spec_eq percentile_spec_def UnknownScore_facts del: filter_filter)
next
  case True
  let ?xs = "filter validSample pop"
  let ?lt = "\<lambda>v. length (filter (\<lambda>x. flt x v) ?xs)" and ?le = "\<lambda>v. length (filter (\<lambda>x. fle x v) ?xs)"
  have fin: "finite_f x" if "x \<in> set ?xs" for x using that by (simp add: validSample_finite)
  have vw: "finite_f v" "finite_f w" using assms by (auto simp: validSample_finite)
  have n: "length ?xs < 2 ^ 40"
    using assms(4) length_filter_le [of validSample pop] by linarith
  have lt: "?lt v \<le> ?lt w"
    using fin vw assms(3) by (intro length_filter_mono) (auto simp: flt_fin_val fle_fin_val)
  have le: "?le v \<le> ?le w"
    using fin vw assms(3) by (intro length_filter_mono) (auto simp: fle_fin_val)
  have "?lt v + ?le v \<le> ?lt w + ?le w" using lt le by simp
  note mono = mid_rank_score_mono [OF this length_filter_le length_filter_le length_filter_le
      length_filter_le True n]
  have "Percentile u pop h = mid_rank_score (?lt u) (?le u) (length ?xs) h"
    if "validSample u" for u h
    using that True by (simp add: Percentile_spec_eq percentile_spec_def Let_def del: filter_filter)
  with assms(1,2) mono show ?thesis by simp
qed

theorem Percentile_mono_witness:
  "fle (Percentile (Fin 1) [Fin 1, Fin 2, Fin 2, Fin 7] True) (Percentile (Fin 7) [Fin 1, Fin 2, Fin 2, Fin 7] True)"
  using Percentile_mono [of "Fin 1" "Fin 7" "[Fin 1, Fin 2, Fin 2, Fin 7]"]
  by (simp add: validSample_def)

end
