(* ===== verification/BenchmarkCache.thy ===== *)
theory BenchmarkCache
  imports Scoring
begin

text \<open>
  Package \<open>internal/scoring\<close>, file \<open>cache.go\<close>: the versioned benchmark snapshot and its
  last-known-good file. The file system is a map from paths to contents; whether each system call
  succeeds is an argument (\<open>SaveEnv\<close>), so a theorem holds for every pattern of failures. The
  functions that replace the file return every file system they go through, one per system call:
  a crash leaves one of them behind. \<open>json.MarshalIndent\<close> and \<open>json.Unmarshal\<close> are the parameters
  \<open>marshal\<close> and \<open>unmarshal\<close>. \<open>Quote\<close>-formatted names inside error texts are not kept.
\<close>

section \<open>Snapshots (cache.go)\<close>

definition DefaultCacheMaxAge :: duration where
  "DefaultCacheMaxAge = 7 * 24 * Hour"

definition maxSnapshotBytes :: nat where
  "maxSnapshotBytes = 16 * 2 ^ 20"

record Provenance =
  pv_Revision :: gostring
  pv_UpstreamVersion :: gostring
  pv_UpstreamUpdatedAt :: time
  pv_PolicyVersion :: gostring

record Snapshot =
  sn_Version :: gostring
  sn_Source :: gostring
  sn_RetrievedAt :: time
  sn_Benchmarks :: "BenchmarkModel list"
  sn_Models :: "(gostring \<rightharpoonup> Metrics) option"
  sn_Provenance :: "Provenance option"

definition zeroSnapshot :: Snapshot where
  "zeroSnapshot = \<lparr>sn_Version = [], sn_Source = [], sn_RetrievedAt = 0, sn_Benchmarks = [],
     sn_Models = None, sn_Provenance = None\<rparr>"

definition emptySnapshot :: Snapshot where
  "emptySnapshot = zeroSnapshot\<lparr>sn_Models := Some Map.empty\<rparr>"

datatype cache_error =
    EmptyVersion
  | EmptySource
  | ZeroRetrievedAt
  | NilModelMap
  | EmptyBenchmarkID
  | DuplicateBenchmarkID gostring
  | EmptyModelID
  | MetricNotFinite gostring
  | NilCache
  | NilFetch
  | FetchFailed gostring
  | EmptyPath
  | NotExist
  | OSError gostring
  | TooLarge
  | EncodeFailed
  | DecodeFailed

fun benchmark_ids_ok :: "gostring set \<Rightarrow> BenchmarkModel list \<Rightarrow> cache_error option" where
  "benchmark_ids_ok seen [] = None"
| "benchmark_ids_ok seen (b # bs) =
     (let pid = TrimSpace (bm_SourceModelID b)
      in if pid = [] then Some EmptyBenchmarkID
         else if pid \<in> seen then Some (DuplicateBenchmarkID pid)
         else benchmark_ids_ok (insert pid seen) bs)"

definition metric_bad :: "float64 option \<Rightarrow> bool" where
  "metric_bad v = (case v of None \<Rightarrow> False | Some x \<Rightarrow> IsNaN x \<or> IsInf x)"

fun models_ok :: "gostring list \<Rightarrow> (gostring \<rightharpoonup> Metrics) \<Rightarrow> cache_error option" where
  "models_ok [] m = None"
| "models_ok (pid # ks) m =
     (case m pid of
        None \<Rightarrow> models_ok ks m
      | Some metrics \<Rightarrow>
          if TrimSpace pid = [] then Some EmptyModelID
          else if metric_bad (me_Capability metrics) \<or> metric_bad (me_Availability metrics) \<or>
                  metric_bad (me_Intelligence metrics)
          then Some (MetricNotFinite pid)
          else models_ok ks m)"

text \<open>\<open>ks\<close> is the order the model map is ranged over.\<close>

definition snapshot_Validate :: "gostring list \<Rightarrow> Snapshot \<Rightarrow> cache_error option" where
  "snapshot_Validate ks s =
     (if TrimSpace (sn_Version s) = [] then Some EmptyVersion
      else if TrimSpace (sn_Source s) = [] then Some EmptySource
      else if IsZero (sn_RetrievedAt s) then Some ZeroRetrievedAt
      else case sn_Models s of
        None \<Rightarrow> Some NilModelMap
      | Some m \<Rightarrow>
          (case benchmark_ids_ok {} (sn_Benchmarks s) of
             Some e \<Rightarrow> Some e
           | None \<Rightarrow> models_ok ks m))"

definition cloneMetrics :: "Metrics \<Rightarrow> Metrics" where
  "cloneMetrics m =
     \<lparr>me_Capability = (case me_Capability m of Some v \<Rightarrow> Some v | None \<Rightarrow> None),
      me_Availability = (case me_Availability m of Some v \<Rightarrow> Some v | None \<Rightarrow> None),
      me_Intelligence = (case me_Intelligence m of Some v \<Rightarrow> Some v | None \<Rightarrow> None)\<rparr>"

definition snapshot_Clone :: "Snapshot \<Rightarrow> Snapshot" where
  "snapshot_Clone s = s\<lparr>
     sn_Provenance := (case sn_Provenance s of Some p \<Rightarrow> Some p | None \<Rightarrow> None),
     sn_Benchmarks := map (\<lambda>b. b\<lparr>bm_Aliases := [] @ bm_Aliases b\<rparr>) (sn_Benchmarks s),
     sn_Models := map_option (\<lambda>m pid. map_option cloneMetrics (m pid)) (sn_Models s)\<rparr>"

definition IsStale :: "Snapshot \<Rightarrow> time \<Rightarrow> duration \<Rightarrow> bool" where
  "IsStale s now maxAge =
     (if IsZero (sn_RetrievedAt s) then True
      else if maxAge \<le> 0 \<or> now < sn_RetrievedAt s then False
      else time_Sub now (sn_RetrievedAt s) > maxAge)"

definition ScoreBinding :: "Snapshot \<Rightarrow> BenchmarkBinding \<Rightarrow> float64 \<Rightarrow> Result" where
  "ScoreBinding snapshot binding latencyScore =
     (case sn_Models snapshot of
        None \<Rightarrow> Score noMetrics (Fin 0) latencyScore
      | Some models \<Rightarrow>
          if bb_SourceModelID binding = [] then Score noMetrics (Fin 0) latencyScore
          else case models (bb_SourceModelID binding) of
            None \<Rightarrow> Score noMetrics (Fin 0) latencyScore
          | Some metrics \<Rightarrow> Score metrics (bb_Confidence binding) latencyScore)"

lemma snapshot_Clone_eq [simp]: "snapshot_Clone s = s"
proof -
  have "cloneMetrics m = m" for m
    by (cases m) (simp add: cloneMetrics_def split: option.splits)
  moreover have "map_option cloneMetrics x = x" for x
    by (cases x) (auto simp: calculation)
  moreover have "(case x of None \<Rightarrow> None | Some p \<Rightarrow> Some p) = x" for x :: "Provenance option"
    by (cases x) auto
  ultimately have "snapshot_Clone s = s\<lparr>sn_Models := map_option (\<lambda>m. m) (sn_Models s)\<rparr>"
    by (simp add: snapshot_Clone_def map_idI)
  then show ?thesis by (cases "sn_Models s") auto
qed

section \<open>The file (cache.go)\<close>

type_synonym 'c fs = "gostring \<rightharpoonup> 'c"

text \<open>\<open>os.Rename\<close> with the outcome \<open>ok\<close> of the call; it also fails when there is no such file.\<close>

definition os_Rename :: "bool \<Rightarrow> gostring \<Rightarrow> gostring \<Rightarrow> 'c fs \<Rightarrow> cache_error option \<times> 'c fs" where
  "os_Rename ok from target f =
     (case f from of
        None \<Rightarrow> (Some NotExist, f)
      | Some c \<Rightarrow> if ok then (None, (f(from := None))(target := Some c)) else (Some (OSError ''rename''), f))"

definition os_Remove :: "bool \<Rightarrow> gostring \<Rightarrow> 'c fs \<Rightarrow> 'c fs" where
  "os_Remove ok p f = (if ok then f(p := None) else f)"

definition bak :: "gostring \<Rightarrow> gostring" where
  "bak p = p @ ''.bak''"

record 'c SaveEnv =
  ev_mkdir :: bool
  ev_create :: bool
  ev_tmpName :: gostring
  ev_chmodTmp :: bool
  ev_write :: bool
  ev_partial :: 'c
  ev_sync :: bool
  ev_close :: bool
  ev_rename1 :: bool
  ev_rename2 :: bool
  ev_rename3 :: bool
  ev_restore :: bool
  ev_removeBak :: bool
  ev_removeBak2 :: bool
  ev_removeTmp :: bool
  ev_protect :: bool

text \<open>The result and the file systems gone through, the last one being the current one.\<close>

definition replaceFile ::
  "'c SaveEnv \<Rightarrow> gostring \<Rightarrow> gostring \<Rightarrow> 'c fs \<Rightarrow> cache_error option \<times> 'c fs list" where
  "replaceFile env tempName targetName f0 =
     (case os_Rename (ev_rename1 env) tempName targetName f0 of
        (None, f1) \<Rightarrow> (None, [f1])
      | (Some _, f1) \<Rightarrow>
          (let backupName = bak targetName;
               f2 = os_Remove (ev_removeBak env) backupName f1
           in case os_Rename (ev_rename2 env) targetName backupName f2 of
                (err, f3) \<Rightarrow>
                  if err \<noteq> None \<and> err \<noteq> Some NotExist then (err, [f2, f3])
                  else let backupMoved = (err = None)
                    in case os_Rename (ev_rename3 env) tempName targetName f3 of
                      (Some e, f4) \<Rightarrow>
                        if backupMoved
                        then (Some e, [f2, f3, f4, snd (os_Rename (ev_restore env) backupName targetName f4)])
                        else (Some e, [f2, f3, f4])
                    | (None, f4) \<Rightarrow>
                        if backupMoved
                        then (None, [f2, f3, f4, os_Remove (ev_removeBak2 env) backupName f4])
                        else (None, [f2, f3, f4])))"

text \<open>The deferred \<open>os.Remove(tmpName)\<close> ends every path after the file is created.\<close>

definition with_cleanup ::
  "'c SaveEnv \<Rightarrow> cache_error option \<Rightarrow> 'c fs list \<Rightarrow> cache_error option \<times> 'c fs list" where
  "with_cleanup env err fss = (err, fss @ [os_Remove (ev_removeTmp env) (ev_tmpName env) (last fss)])"

definition write_and_replace ::
  "'c SaveEnv \<Rightarrow> gostring \<Rightarrow> 'c \<Rightarrow> 'c \<Rightarrow> 'c fs \<Rightarrow> cache_error option \<times> 'c fs list" where
  "write_and_replace env path noBytes data f0 =
     (let tmp = ev_tmpName env;
          f1 = f0(tmp \<mapsto> noBytes);
          f2 = f0(tmp \<mapsto> ev_partial env);
          f3 = f0(tmp \<mapsto> data)
      in if \<not> ev_chmodTmp env then (Some (OSError ''protect temporary snapshot''), [f0, f1])
         else if \<not> ev_write env then (Some (OSError ''write temporary snapshot''), [f0, f1, f2])
         else if \<not> ev_sync env then (Some (OSError ''sync temporary snapshot''), [f0, f1, f2, f3])
         else if \<not> ev_close env then (Some (OSError ''close temporary snapshot''), [f0, f1, f2, f3])
         else case replaceFile env tmp path f3 of
           (Some e, fss) \<Rightarrow> (Some e, [f0, f1, f2, f3] @ fss)
         | (None, fss) \<Rightarrow>
             if \<not> ev_protect env then (Some (OSError ''protect snapshot''), [f0, f1, f2, f3] @ fss)
             else (None, [f0, f1, f2, f3] @ fss))"

definition saveLocked ::
  "(Snapshot \<Rightarrow> 'c option) \<Rightarrow> 'c \<Rightarrow> 'c SaveEnv \<Rightarrow> gostring \<Rightarrow> Snapshot \<Rightarrow> 'c fs \<Rightarrow>
   cache_error option \<times> 'c fs list" where
  "saveLocked marshal noBytes env path snapshot f0 =
     (if TrimSpace path = [] then (Some EmptyPath, [f0])
      else if \<not> ev_mkdir env then (Some (OSError ''create cache directory''), [f0])
      else case marshal snapshot of
        None \<Rightarrow> (Some EncodeFailed, [f0])
      | Some data \<Rightarrow>
          if \<not> ev_create env then (Some (OSError ''create temporary snapshot''), [f0])
          else case write_and_replace env path noBytes data f0 of
            (err, fss) \<Rightarrow> with_cleanup env err fss)"

record LoadEnv =
  ev_read :: bool
  ev_recover :: bool
  ev_read2 :: bool

definition os_ReadFile :: "bool \<Rightarrow> gostring \<Rightarrow> 'c fs \<Rightarrow> cache_error + 'c" where
  "os_ReadFile ok p f = (case f p of
       None \<Rightarrow> Inl NotExist
     | Some c \<Rightarrow> if ok then Inr c else Inl (OSError ''read''))"

definition loadLocked ::
  "('c \<Rightarrow> Snapshot option) \<Rightarrow> ('c \<Rightarrow> nat) \<Rightarrow> (Snapshot \<Rightarrow> gostring list) \<Rightarrow> LoadEnv \<Rightarrow> gostring \<Rightarrow>
   'c fs \<Rightarrow> (cache_error + Snapshot) \<times> 'c fs" where
  "loadLocked unmarshal nbytes order env path f0 =
     (if TrimSpace path = [] then (Inl EmptyPath, f0)
      else let r = os_ReadFile (ev_read env) path f0;
               (r, f1) = (case r of
                   Inl NotExist \<Rightarrow>
                     (case os_Rename (ev_recover env) (bak path) path f0 of
                        (None, f1) \<Rightarrow> (os_ReadFile (ev_read2 env) path f1, f1)
                      | (Some _, f1) \<Rightarrow> (r, f1))
                 | _ \<Rightarrow> (r, f0))
        in case r of
          Inl e \<Rightarrow> (Inl e, f1)
        | Inr data \<Rightarrow>
            if nbytes data > maxSnapshotBytes then (Inl TooLarge, f1)
            else case unmarshal data of
              None \<Rightarrow> (Inl DecodeFailed, f1)
            | Some snapshot \<Rightarrow>
                (case snapshot_Validate (order snapshot) snapshot of
                   Some e \<Rightarrow> (Inl e, f1)
                 | None \<Rightarrow> (Inr (snapshot_Clone snapshot), f1)))"

section \<open>The cache (cache.go)\<close>

record Cache =
  ca_path :: gostring
  ca_maxAge :: duration

definition NewCache :: "gostring \<Rightarrow> duration \<Rightarrow> Cache" where
  "NewCache path maxAge =
     \<lparr>ca_path = path, ca_maxAge = (if maxAge \<le> 0 then DefaultCacheMaxAge else maxAge)\<rparr>"

definition cache_Path :: "Cache option \<Rightarrow> gostring" where
  "cache_Path c = (case c of None \<Rightarrow> [] | Some c \<Rightarrow> ca_path c)"

definition Save ::
  "(Snapshot \<Rightarrow> 'c option) \<Rightarrow> 'c \<Rightarrow> (Snapshot \<Rightarrow> gostring list) \<Rightarrow> 'c SaveEnv \<Rightarrow> Cache option \<Rightarrow>
   Snapshot \<Rightarrow> 'c fs \<Rightarrow> cache_error option \<times> 'c fs list" where
  "Save marshal noBytes order env c snapshot f =
     (case c of
        None \<Rightarrow> (Some NilCache, [f])
      | Some c \<Rightarrow>
          (case snapshot_Validate (order snapshot) snapshot of
             Some e \<Rightarrow> (Some e, [f])
           | None \<Rightarrow> saveLocked marshal noBytes env (ca_path c) (snapshot_Clone snapshot) f))"

definition Load ::
  "('c \<Rightarrow> Snapshot option) \<Rightarrow> ('c \<Rightarrow> nat) \<Rightarrow> (Snapshot \<Rightarrow> gostring list) \<Rightarrow> LoadEnv \<Rightarrow> Cache option \<Rightarrow>
   'c fs \<Rightarrow> (cache_error + Snapshot) \<times> 'c fs" where
  "Load unmarshal nbytes order env c f =
     (case c of
        None \<Rightarrow> (Inl NilCache, f)
      | Some c \<Rightarrow> loadLocked unmarshal nbytes order env (ca_path c) f)"

definition LoadLastKnownGood ::
  "('c \<Rightarrow> Snapshot option) \<Rightarrow> ('c \<Rightarrow> nat) \<Rightarrow> (Snapshot \<Rightarrow> gostring list) \<Rightarrow> LoadEnv \<Rightarrow> Cache option \<Rightarrow>
   'c fs \<Rightarrow> (cache_error + Snapshot) \<times> 'c fs" where
  "LoadLastKnownGood unmarshal nbytes order env c f = Load unmarshal nbytes order env c f"

datatype SourceKind = SourceLive | SourceCache | SourceDefault

record Resolution =
  rs_Snapshot :: Snapshot
  rs_Source :: SourceKind
  rs_UsedCache :: bool
  rs_Stale :: bool
  rs_LiveError :: "cache_error option"
  rs_CacheError :: "cache_error option"

text \<open>\<open>fetch\<close> is \<open>None\<close> for a nil function, else what the call returns.\<close>

definition Resolve ::
  "(Snapshot \<Rightarrow> 'c option) \<Rightarrow> 'c \<Rightarrow> ('c \<Rightarrow> Snapshot option) \<Rightarrow> ('c \<Rightarrow> nat) \<Rightarrow>
   (Snapshot \<Rightarrow> gostring list) \<Rightarrow> 'c SaveEnv \<Rightarrow> LoadEnv \<Rightarrow> Cache option \<Rightarrow>
   (cache_error + Snapshot) option \<Rightarrow> time \<Rightarrow> 'c fs \<Rightarrow> Resolution \<times> 'c fs" where
  "Resolve marshal noBytes unmarshal nbytes order senv lenv c fetch now f =
     (let resolution = \<lparr>rs_Snapshot = emptySnapshot, rs_Source = SourceDefault, rs_UsedCache = False,
            rs_Stale = False, rs_LiveError = None, rs_CacheError = None\<rparr>
      in case c of
        None \<Rightarrow> (resolution\<lparr>rs_CacheError := Some NilCache\<rparr>, f)
      | Some cache \<Rightarrow>
          let live = (case fetch of
                None \<Rightarrow> Inl NilFetch
              | Some (Inl e) \<Rightarrow> Inl e
              | Some (Inr s) \<Rightarrow> (case snapshot_Validate (order s) s of Some e \<Rightarrow> Inl e | None \<Rightarrow> Inr s))
          in case live of
            Inr s \<Rightarrow>
              let (saveErr, fss) = Save marshal noBytes order senv c s f
              in (resolution\<lparr>rs_Source := SourceLive, rs_Snapshot := snapshot_Clone s,
                    rs_CacheError := saveErr\<rparr>, last fss)
          | Inl err \<Rightarrow>
              let resolution = resolution\<lparr>rs_LiveError := Some err\<rparr>
              in case Load unmarshal nbytes order lenv c f of
                (Inr cached, f') \<Rightarrow>
                  (resolution\<lparr>rs_Source := SourceCache, rs_Snapshot := cached, rs_UsedCache := True,
                     rs_Stale := IsStale cached now (ca_maxAge cache)\<rparr>, f')
              | (Inl err, f') \<Rightarrow> (resolution\<lparr>rs_CacheError := Some err\<rparr>, f'))"

section \<open>What can be recovered from a file system\<close>

text \<open>The content a later \<open>Load\<close> would read: the file, or else its backup.\<close>

definition recoverable :: "gostring \<Rightarrow> 'c fs \<Rightarrow> 'c option" where
  "recoverable path f = (case f path of Some c \<Rightarrow> Some c | None \<Rightarrow> f (bak path))"

lemma bak_neq [simp]: "bak p \<noteq> p" "p \<noteq> bak p"
  by (simp_all add: bak_def)

lemma replaceFile_recoverable:
  assumes "f0 path = Some old" and "f0 tmp = Some data" and "tmp \<noteq> path" and "tmp \<noteq> bak path"
  shows "\<forall>f \<in> set (snd (replaceFile env tmp path f0)). recoverable path f \<in> {Some old, Some data}"
    and "fst (replaceFile env tmp path f0) = None \<Longrightarrow>
      last (snd (replaceFile env tmp path f0)) path = Some data"
    and "snd (replaceFile env tmp path f0) \<noteq> []"
  using assms
  by (auto simp: replaceFile_def os_Rename_def os_Remove_def recoverable_def Let_def split: if_splits)

lemma write_and_replace_recoverable:
  assumes "f0 path = Some old" and "ev_tmpName env \<noteq> path" and "ev_tmpName env \<noteq> bak path"
  shows "\<forall>f \<in> set (snd (write_and_replace env path noBytes data f0)).
      recoverable path f \<in> {Some old, Some data}"
    and "fst (write_and_replace env path noBytes data f0) = None \<Longrightarrow>
      last (snd (write_and_replace env path noBytes data f0)) path = Some data"
    and "snd (write_and_replace env path noBytes data f0) \<noteq> []"
proof -
  have pre: "recoverable path (f0(ev_tmpName env \<mapsto> c)) = Some old" "recoverable path f0 = Some old" for c
    using assms by (auto simp: recoverable_def)
  obtain e fss where r: "replaceFile env (ev_tmpName env) path (f0(ev_tmpName env \<mapsto> data)) = (e, fss)"
    by (cases "replaceFile env (ev_tmpName env) path (f0(ev_tmpName env \<mapsto> data))")
  have "(f0(ev_tmpName env \<mapsto> data)) path = Some old" "(f0(ev_tmpName env \<mapsto> data)) (ev_tmpName env) = Some data"
    using assms by auto
  note replace = replaceFile_recoverable [where env = env, OF this assms(2,3), unfolded r, simplified]
  show "\<forall>f \<in> set (snd (write_and_replace env path noBytes data f0)).
      recoverable path f \<in> {Some old, Some data}"
    using replace(1) by (cases e) (simp_all add: write_and_replace_def Let_def r pre)
  show "last (snd (write_and_replace env path noBytes data f0)) path = Some data"
    if "fst (write_and_replace env path noBytes data f0) = None"
    using that replace(2,3) assms(2)
    by (cases e) (simp_all add: write_and_replace_def Let_def r split: if_splits)
  show "snd (write_and_replace env path noBytes data f0) \<noteq> []"
    by (cases e) (simp_all add: write_and_replace_def Let_def r)
qed

lemma saveLocked_recoverable:
  assumes "f0 path = Some old" and "ev_tmpName env \<noteq> path" and "ev_tmpName env \<noteq> bak path"
  shows "\<forall>f \<in> set (snd (saveLocked marshal noBytes env path s f0)).
      recoverable path f = Some old \<or> recoverable path f = marshal s"
    and "fst (saveLocked marshal noBytes env path s f0) = None \<Longrightarrow>
      marshal s \<noteq> None \<and> last (snd (saveLocked marshal noBytes env path s f0)) path = marshal s"
proof -
  have rm: "recoverable path (os_Remove ok (ev_tmpName env) f) = recoverable path f"
    "os_Remove ok (ev_tmpName env) f path = f path" for ok f
    using assms by (auto simp: recoverable_def os_Remove_def split: option.split)
  have f0: "recoverable path f0 = Some old" using assms by (simp add: recoverable_def)
  note steps = write_and_replace_recoverable
    [where ?f0.0 = f0 and path = path and env = env and noBytes = noBytes, OF assms]
  have last: "recoverable path (last (snd (write_and_replace env path noBytes data f0))) \<in> {Some old, Some data}"
    for data using steps(1,3) [of data] by (meson last_in_set)
  show "\<forall>f \<in> set (snd (saveLocked marshal noBytes env path s f0)).
      recoverable path f = Some old \<or> recoverable path f = marshal s"
    using steps(1) last f0
    by (auto simp: saveLocked_def with_cleanup_def rm case_prod_beta split: option.split)
  show "marshal s \<noteq> None \<and> last (snd (saveLocked marshal noBytes env path s f0)) path = marshal s"
    if "fst (saveLocked marshal noBytes env path s f0) = None"
    using that steps(2)
    by (auto simp: saveLocked_def with_cleanup_def rm case_prod_beta split: if_splits option.splits)
qed

section \<open>Properties\<close>

text \<open>Whatever system calls fail, and wherever the process is stopped while it saves, the
  last-known-good file or its backup still holds the old snapshot or the complete new one; and a
  save that reports success has the new one in place.\<close>

theorem Save_crash_safe:
  assumes "f0 (ca_path c) = Some old" and "ev_tmpName env \<noteq> ca_path c"
    and "ev_tmpName env \<noteq> bak (ca_path c)"
  shows "(\<forall>f \<in> set (snd (Save marshal noBytes order env (Some c) s f0)).
      recoverable (ca_path c) f = Some old \<or> recoverable (ca_path c) f = marshal s) \<and>
    (fst (Save marshal noBytes order env (Some c) s f0) = None \<longrightarrow>
      last (snd (Save marshal noBytes order env (Some c) s f0)) (ca_path c) = marshal s)"
  using saveLocked_recoverable [of f0 "ca_path c" old env marshal noBytes s] assms
  by (auto simp: Save_def recoverable_def split: option.splits)

definition sample_env :: "gostring SaveEnv" where
  "sample_env = \<lparr>ev_mkdir = True, ev_create = True, ev_tmpName = ''t'', ev_chmodTmp = True,
     ev_write = True, ev_partial = [], ev_sync = True, ev_close = True, ev_rename1 = False,
     ev_rename2 = True, ev_rename3 = False, ev_restore = False, ev_removeBak = True,
     ev_removeBak2 = True, ev_removeTmp = True, ev_protect = True\<rparr>"

theorem Save_crash_safe_witness:
  "list_all (\<lambda>f. recoverable ''p'' f = Some ''old'' \<or> recoverable ''p'' f = Some [])
     (snd (Save (\<lambda>s. Some (sn_Version s)) [] (\<lambda>_. []) sample_env (Some (NewCache ''p'' 0))
        emptySnapshot [''p'' \<mapsto> ''old'']))"
  using Save_crash_safe [of "[''p'' \<mapsto> ''old'']" "NewCache ''p'' 0" "''old''" sample_env
      "\<lambda>s. Some (sn_Version s)" "[]" "\<lambda>_. []" emptySnapshot]
  by (simp add: NewCache_def sample_env_def bak_def emptySnapshot_def zeroSnapshot_def list_all_iff)

text \<open>Resolving never fails: the live snapshot is used exactly when the fetch returned a valid
  one; otherwise the cached one, stale or not, if it loads; otherwise the neutral empty snapshot.
  The model map of the result is never nil.\<close>

theorem Resolve_last_known_good:
  "case Resolve marshal noBytes unmarshal nbytes order senv lenv (Some c) fetch now f of
     (r, _) \<Rightarrow> (rs_Source r = SourceLive \<longleftrightarrow>
         (\<exists>s. fetch = Some (Inr s) \<and> snapshot_Validate (order s) s = None)) \<and>
       (rs_Source r = SourceLive \<longrightarrow> fetch = Some (Inr (rs_Snapshot r)) \<and> rs_LiveError r = None) \<and>
       (rs_Source r = SourceCache \<longleftrightarrow> rs_LiveError r \<noteq> None \<and>
          fst (Load unmarshal nbytes order lenv (Some c) f) = Inr (rs_Snapshot r)) \<and>
       (rs_Source r = SourceDefault \<longrightarrow> rs_Snapshot r = emptySnapshot \<and> rs_CacheError r \<noteq> None) \<and>
       sn_Models (rs_Snapshot r) \<noteq> None"
proof -
  have valid: "sn_Models s \<noteq> None" if "snapshot_Validate ks s = None" for ks s
    using that by (auto simp: snapshot_Validate_def split: if_splits option.splits)
  have load: "sn_Models s \<noteq> None" if "Load unmarshal nbytes order lenv (Some c) f = (Inr s, f')" for s f'
    using that valid
    by (auto simp: Load_def loadLocked_def Let_def split: if_splits option.splits sum.splits prod.splits)
  show ?thesis
    by (auto simp: Resolve_def Let_def emptySnapshot_def dest: valid load
        split: prod.splits sum.splits option.splits if_splits)
qed

theorem Resolve_last_known_good_witness:
  "sn_Models (rs_Snapshot (fst (Resolve (\<lambda>s. Some (sn_Version s)) [] (\<lambda>_. None) length (\<lambda>_. []) sample_env
     \<lparr>ev_read = True, ev_recover = True, ev_read2 = True\<rparr> (Some (NewCache ''p'' 0)) None 5 Map.empty))) \<noteq> None"
  using Resolve_last_known_good [where marshal = "\<lambda>s. Some (sn_Version s)" and noBytes = "[]" and
      unmarshal = "\<lambda>_. None" and nbytes = length and order = "\<lambda>_. []" and senv = sample_env and
      lenv = "\<lparr>ev_read = True, ev_recover = True, ev_read2 = True\<rparr>" and c = "NewCache ''p'' 0" and
      fetch = None and now = 5 and f = Map.empty]
  by (simp only: case_prod_beta) blast

end
