(* ===== verification/Catalog.thy ===== *)
theory Catalog
  imports BenchmarkCache
begin

text \<open>
  Package \<open>internal/catalog\<close>: the Model Pool with its tombstones (\<open>pool.go\<close>), merging a new
  catalog snapshot into it (\<open>reconcile.go\<close>) and the store that owns both (\<open>store.go\<close>). The pool
  is a value passed through the operations; \<open>tombstones\<close>, a map whose entries are only ever
  \<open>true\<close>, is the set of its keys. A range over the snapshot's models takes the iteration order.
  The store's lock makes each of its operations one step.
\<close>

section \<open>The pool (pool.go)\<close>

datatype PoolMode = ModeAutomatic | ModeManual | ModeOther gostring

record ModelPoolConfig =
  pc_Revision :: i64
  pc_Mode :: PoolMode
  pc_Selected :: "ProviderModelID list"

record PoolState =
  ps_Config :: ModelPoolConfig
  ps_tombstones :: "ProviderModelID set"

datatype catalog_error =
    NegativePoolRevision
  | InvalidPoolMode gostring
  | NilPoolState
  | NilSnapshot
  | SnapshotInvalid model_error
  | RevisionConflict i64 i64

definition config_Clone :: "ModelPoolConfig \<Rightarrow> ModelPoolConfig" where
  "config_Clone c = \<lparr>pc_Revision = pc_Revision c, pc_Mode = pc_Mode c, pc_Selected = pc_Selected c\<rparr>"

definition config_Validate :: "ModelPoolConfig \<Rightarrow> catalog_error option" where
  "config_Validate c =
     (if sint (pc_Revision c) < 0 then Some NegativePoolRevision
      else case pc_Mode c of
        ModeAutomatic \<Rightarrow> None
      | ModeManual \<Rightarrow> None
      | ModeOther m \<Rightarrow> Some (InvalidPoolMode m))"

fun Contains_loop :: "ProviderModelID list \<Rightarrow> ProviderModelID \<Rightarrow> bool" where
  "Contains_loop [] pid = False"
| "Contains_loop (s # ss) pid = (if s = pid then True else Contains_loop ss pid)"

definition Contains :: "ModelPoolConfig \<Rightarrow> ProviderModelID \<Rightarrow> bool" where
  "Contains c pid = Contains_loop (pc_Selected c) pid"

definition zeroConfig :: ModelPoolConfig where
  "zeroConfig = \<lparr>pc_Revision = 0, pc_Mode = ModeAutomatic, pc_Selected = []\<rparr>"

definition NewPoolState :: "ModelPoolConfig option \<Rightarrow> PoolState" where
  "NewPoolState cfg = \<lparr>ps_Config = (case cfg of None \<Rightarrow> zeroConfig | Some c \<Rightarrow> c), ps_tombstones = {}\<rparr>"

definition pool_Clone :: "PoolState option \<Rightarrow> PoolState" where
  "pool_Clone p = (case p of
       None \<Rightarrow> NewPoolState None
     | Some p \<Rightarrow> (NewPoolState (Some (config_Clone (ps_Config p))))
         \<lparr>ps_tombstones := ps_tombstones p\<rparr>)"

fun Select_loop :: "ProviderModelID list \<Rightarrow> PoolState \<Rightarrow> PoolState" where
  "Select_loop [] p = p"
| "Select_loop (pid # pids) p =
     (let cfg = ps_Config p;
          cfg = (if \<not> Contains cfg pid then cfg\<lparr>pc_Selected := pc_Selected cfg @ [pid]\<rparr> else cfg)
      in Select_loop pids (p\<lparr>ps_Config := cfg, ps_tombstones := ps_tombstones p - {pid}\<rparr>))"

text \<open>The common end of the edits: the mode and the next revision.\<close>

definition bump :: "PoolMode \<Rightarrow> ModelPoolConfig \<Rightarrow> ModelPoolConfig" where
  "bump m c = c\<lparr>pc_Mode := m, pc_Revision := pc_Revision c + 1\<rparr>"

definition pool_Select :: "ProviderModelID list \<Rightarrow> PoolState \<Rightarrow> PoolState" where
  "pool_Select pids p = (let p = Select_loop pids p in p\<lparr>ps_Config := bump ModeManual (ps_Config p)\<rparr>)"

fun Deselect_loop :: "ProviderModelID list \<Rightarrow> ProviderModelID list \<Rightarrow> ProviderModelID list" where
  "Deselect_loop pids [] = []"
| "Deselect_loop pids (s # ss) =
     (let remove = list_ex (\<lambda>pid. s = pid) pids
      in if \<not> remove then s # Deselect_loop pids ss else Deselect_loop pids ss)"

definition pool_Deselect :: "ProviderModelID list \<Rightarrow> PoolState \<Rightarrow> PoolState" where
  "pool_Deselect pids p = p\<lparr>ps_Config :=
     bump ModeManual ((ps_Config p)\<lparr>pc_Selected := Deselect_loop pids (pc_Selected (ps_Config p))\<rparr>)\<rparr>"

definition hasDefaultSelectedRoute :: "ProviderRoute list \<Rightarrow> bool" where
  "hasDefaultSelectedRoute routes = list_ex (\<lambda>r. rt_Enabled r \<and> SelectedByDefault r) routes"

definition hasAutoRoutableRoute :: "ProviderRoute list \<Rightarrow> bool" where
  "hasAutoRoutableRoute routes = list_ex (\<lambda>r. rt_Enabled r \<and> AutoRoutable (EffectiveAccess r)) routes"

text \<open>A missing key of a map of slices reads as the empty slice.\<close>

type_synonym Routes = "ProviderModelID \<rightharpoonup> ProviderRoute list"

definition routes_of :: "Routes \<Rightarrow> ProviderModelID \<Rightarrow> ProviderRoute list" where
  "routes_of routes pid = (case routes pid of None \<Rightarrow> [] | Some rs \<Rightarrow> rs)"

text \<open>
  The loop of \<open>SelectAll\<close> and \<open>Reconcile\<close> over the snapshot: append what is wanted and not yet
  selected; the second list holds what was added.
\<close>

fun include_loop ::
  "(ProviderModelID \<Rightarrow> bool) \<Rightarrow> ProviderModelID list \<Rightarrow> ModelPoolConfig \<times> ProviderModelID list \<Rightarrow>
   ModelPoolConfig \<times> ProviderModelID list" where
  "include_loop wanted [] st = st"
| "include_loop wanted (pid # ks) (cfg, added) =
     include_loop wanted ks
       (if wanted pid \<and> \<not> Contains cfg pid
        then (cfg\<lparr>pc_Selected := pc_Selected cfg @ [pid]\<rparr>, added @ [pid])
        else (cfg, added))"

definition pool_SelectAll ::
  "ProviderModelID list \<Rightarrow> CatalogSnapshot option \<Rightarrow> Routes \<Rightarrow> PoolState \<Rightarrow> PoolState" where
  "pool_SelectAll ks catalog routes p =
     (let cfg = (ps_Config p)\<lparr>pc_Mode := ModeAutomatic\<rparr>;
          cfg = (case catalog of
              None \<Rightarrow> cfg
            | Some _ \<Rightarrow> fst (include_loop (\<lambda>pid. hasAutoRoutableRoute (routes_of routes pid)) ks (cfg, [])))
      in \<lparr>ps_Config = cfg\<lparr>pc_Revision := pc_Revision cfg + 1\<rparr>, ps_tombstones = {}\<rparr>)"

definition pool_ClearAll :: "PoolState \<Rightarrow> PoolState" where
  "pool_ClearAll p = \<lparr>ps_Config = bump ModeManual ((ps_Config p)\<lparr>pc_Selected := []\<rparr>), ps_tombstones = {}\<rparr>"

definition pool_Replace ::
  "ProviderModelID list \<Rightarrow> PoolMode \<Rightarrow> PoolState option \<Rightarrow> catalog_error + PoolState" where
  "pool_Replace selected m p = (case p of
       None \<Rightarrow> Inl NilPoolState
     | Some p \<Rightarrow>
         let m = (if m = ModeOther [] then ModeAutomatic else m)
         in if m \<noteq> ModeAutomatic \<and> m \<noteq> ModeManual
            then Inl (InvalidPoolMode (case m of ModeOther s \<Rightarrow> s | _ \<Rightarrow> []))
            else Inr \<lparr>ps_Config = bump m ((ps_Config p)\<lparr>pc_Selected := selected\<rparr>), ps_tombstones = {}\<rparr>)"

section \<open>Reconciliation (reconcile.go)\<close>

record ReconcileResult =
  rr_Added :: "ProviderModelID list"
  rr_Tombstoned :: "ProviderModelID list"
  rr_Restored :: "ProviderModelID list"
  rr_AccessChanged :: "ProviderModelID list"
  rr_Snapshot :: CatalogSnapshot

text \<open>The first loop: tombstones, what was newly tombstoned, what was restored.\<close>

fun tombstone_loop ::
  "(ProviderModelID \<rightharpoonup> ProviderModel) \<Rightarrow> ProviderModelID list \<Rightarrow>
   ProviderModelID set \<times> ProviderModelID list \<times> ProviderModelID list \<Rightarrow>
   ProviderModelID set \<times> ProviderModelID list \<times> ProviderModelID list" where
  "tombstone_loop models [] st = st"
| "tombstone_loop models (pid # pids) (tomb, tombstoned, restored) =
     tombstone_loop models pids
       (if models pid = None
        then (if pid \<notin> tomb then (insert pid tomb, tombstoned @ [pid], restored)
              else (tomb, tombstoned, restored))
        else if pid \<in> tomb then (tomb - {pid}, tombstoned, restored @ [pid])
        else (tomb, tombstoned, restored))"

definition wanted_by_default :: "PoolMode \<Rightarrow> ProviderRoute list \<Rightarrow> bool" where
  "wanted_by_default m rs =
     (hasDefaultSelectedRoute rs \<or> (m = ModeAutomatic \<and> hasAutoRoutableRoute rs))"

definition Reconcile ::
  "ProviderModelID list \<Rightarrow> PoolState option \<Rightarrow> CatalogSnapshot option \<Rightarrow> Routes \<Rightarrow>
   catalog_error + PoolState \<times> ReconcileResult" where
  "Reconcile ks p snap routes =
     (case p of
        None \<Rightarrow> Inl NilPoolState
      | Some p \<Rightarrow>
          (case snap of
             None \<Rightarrow> Inl NilSnapshot
           | Some snap \<Rightarrow>
               (case snap_Validate snap of
                  Some e \<Rightarrow> Inl (SnapshotInvalid e)
                | None \<Rightarrow>
                    let (tomb, tombstoned, restored) =
                          tombstone_loop (snap_models snap) (pc_Selected (ps_Config p)) (ps_tombstones p, [], []);
                        m = pc_Mode (ps_Config p);
                        (cfg, added) = include_loop (\<lambda>pid. wanted_by_default m (routes_of routes pid)) ks
                          (ps_Config p, [])
                    in Inr (\<lparr>ps_Config = cfg\<lparr>pc_Revision := pc_Revision cfg + 1\<rparr>, ps_tombstones = tomb\<rparr>,
                            \<lparr>rr_Added = added, rr_Tombstoned = tombstoned, rr_Restored = restored,
                             rr_AccessChanged = [], rr_Snapshot = snap\<rparr>))))"

fun routeAccessSignature :: "ProviderRoute list \<Rightarrow> gostring" where
  "routeAccessSignature [] = []"
| "routeAccessSignature (r # rs) =
     (if rt_Enabled r
      then rt_ID r @ '':'' @ AccessClass_str (EffectiveAccess r) @ '';'' @ routeAccessSignature rs
      else routeAccessSignature rs)"

definition catalog_lookup :: "CatalogSnapshot option \<Rightarrow> ProviderModelID \<Rightarrow> ProviderModel option" where
  "catalog_lookup s pid = (case s of None \<Rightarrow> None | Some s \<Rightarrow> snap_models s pid)"

definition DetectAccessChanges ::
  "CatalogSnapshot option \<Rightarrow> CatalogSnapshot option \<Rightarrow> Routes \<Rightarrow> Routes \<Rightarrow> ProviderModelID list \<Rightarrow>
   catalog_error + ProviderModelID list" where
  "DetectAccessChanges prev nxt prevRoutes nextRoutes selected =
     (if (case (prev, nxt) of
            (Some a, Some b) \<Rightarrow> sint (cs_Revision b) < sint (cs_Revision a)
          | _ \<Rightarrow> False)
      then (case (prev, nxt) of
          (Some a, Some b) \<Rightarrow> Inl (RevisionConflict (cs_Revision b) (cs_Revision a))
        | _ \<Rightarrow> Inr [])
      else Inr (filter (\<lambda>pid. catalog_lookup prev pid \<noteq> None \<and> catalog_lookup nxt pid \<noteq> None \<and>
             routeAccessSignature (routes_of prevRoutes pid) \<noteq>
             routeAccessSignature (routes_of nextRoutes pid)) selected))"

section \<open>The store (store.go)\<close>

record Store =
  so_pool :: PoolState
  so_catalog :: "CatalogSnapshot option"
  so_snapshotRevision :: i64

definition NewStore :: "PoolState option \<Rightarrow> Store" where
  "NewStore p = \<lparr>so_pool = (case p of None \<Rightarrow> NewPoolState None | Some p \<Rightarrow> p),
     so_catalog = None, so_snapshotRevision = 0\<rparr>"

text \<open>\<open>now\<close> is the clock reading used when the snapshot has no creation time.\<close>

definition CommitSnapshot ::
  "time \<Rightarrow> CatalogSnapshot option \<Rightarrow> Store \<Rightarrow> (catalog_error + CatalogSnapshot) \<times> Store" where
  "CommitSnapshot now snap s =
     (case snap of
        None \<Rightarrow> (Inl NilSnapshot, s)
      | Some sn \<Rightarrow>
          (case snap_Validate sn of
             Some e \<Rightarrow> (Inl (SnapshotInvalid e), s)
           | None \<Rightarrow>
               let rev = so_snapshotRevision s + 1;
                   committed = sn\<lparr>cs_Revision := rev\<rparr>;
                   committed = (if IsZero (cs_CreatedAt committed) then committed\<lparr>cs_CreatedAt := now\<rparr>
                                else committed)
               in (Inr committed, s\<lparr>so_snapshotRevision := rev, so_catalog := Some committed\<rparr>)))"

definition CommitCatalogSnapshot ::
  "time \<Rightarrow> CatalogSnapshot option \<Rightarrow> Store \<Rightarrow> (catalog_error + CatalogSnapshot) \<times> Store" where
  "CommitCatalogSnapshot now snap s = CommitSnapshot now snap s"

definition store_CatalogSnapshot :: "Store \<Rightarrow> CatalogSnapshot option" where
  "store_CatalogSnapshot s = snap_Clone (so_catalog s)"

definition store_Snapshot :: "Store \<Rightarrow> ModelPoolConfig" where
  "store_Snapshot s = config_Clone (ps_Config (so_pool s))"

definition StateSnapshot :: "Store \<Rightarrow> PoolState" where
  "StateSnapshot s = pool_Clone (Some (so_pool s))"

definition ReplaceState :: "PoolState option \<Rightarrow> Store \<Rightarrow> Store" where
  "ReplaceState pool s = (case pool of None \<Rightarrow> s | Some p \<Rightarrow> s\<lparr>so_pool := pool_Clone (Some p)\<rparr>)"

definition Mutate :: "(PoolState \<Rightarrow> PoolState) \<Rightarrow> Store \<Rightarrow> Store" where
  "Mutate fn s = s\<lparr>so_pool := fn (so_pool s)\<rparr>"

definition store_Select :: "ProviderModelID list \<Rightarrow> Store \<Rightarrow> Store" where
  "store_Select pids s = Mutate (pool_Select pids) s"

definition store_Deselect :: "ProviderModelID list \<Rightarrow> Store \<Rightarrow> Store" where
  "store_Deselect pids s = Mutate (pool_Deselect pids) s"

definition store_SelectAll ::
  "ProviderModelID list \<Rightarrow> CatalogSnapshot option \<Rightarrow> Routes \<Rightarrow> Store \<Rightarrow> Store" where
  "store_SelectAll ks catalog routes s = Mutate (pool_SelectAll ks catalog routes) s"

definition store_ClearAll :: "Store \<Rightarrow> Store" where
  "store_ClearAll s = Mutate pool_ClearAll s"

section \<open>Lemmas\<close>

lemma Contains_iff [simp]: "Contains c pid \<longleftrightarrow> pid \<in> set (pc_Selected c)"
proof -
  have "Contains_loop xs pid \<longleftrightarrow> pid \<in> set xs" for xs
    by (induction xs) auto
  then show ?thesis by (simp add: Contains_def)
qed

lemma Clone_id [simp]:
  "config_Clone c = c" "pool_Clone (Some p) = p" "StateSnapshot s = so_pool s" "store_Snapshot s = ps_Config (so_pool s)"
  by (simp_all add: config_Clone_def pool_Clone_def NewPoolState_def StateSnapshot_def store_Snapshot_def)

lemma bump_sel [simp]:
  "pc_Selected (bump m c) = pc_Selected c" "pc_Mode (bump m c) = m"
  "pc_Revision (bump m c) = pc_Revision c + 1"
  by (simp_all add: bump_def)

lemma Deselect_loop_filter: "Deselect_loop pids ss = filter (\<lambda>s. s \<notin> set pids) ss"
  by (induction ss) (auto simp: list_ex_iff)

text \<open>\<open>add_new xs ys\<close>: the elements of \<open>ys\<close> not yet in \<open>xs\<close>, each once, in their order.\<close>

fun add_new :: "'a list \<Rightarrow> 'a list \<Rightarrow> 'a list" where
  "add_new xs [] = xs"
| "add_new xs (y # ys) = add_new (if y \<in> set xs then xs else xs @ [y]) ys"

lemma set_add_new [simp]: "set (add_new xs ys) = set xs \<union> set ys"
  by (induction ys arbitrary: xs) auto

lemma distinct_add_new: "distinct (add_new xs ys) \<longleftrightarrow> distinct xs"
  by (induction ys arbitrary: xs) auto

lemma add_new_append: "distinct ys \<Longrightarrow> add_new xs ys = xs @ filter (\<lambda>y. y \<notin> set xs) ys"
proof (induction ys arbitrary: xs)
  case Nil
  then show ?case by simp
next
  case (Cons y ys)
  then have "filter (\<lambda>z. z \<notin> set (xs @ [y])) ys = filter (\<lambda>z. z \<notin> set xs) ys"
    by (intro filter_cong) auto
  with Cons show ?case by simp
qed

lemma Diff_Un_single: "A - {a} - B = A - insert a B"
  by blast

lemma Select_loop_eq:
  "Select_loop pids p =
     p\<lparr>ps_Config := (ps_Config p)\<lparr>pc_Selected := add_new (pc_Selected (ps_Config p)) pids\<rparr>,
       ps_tombstones := ps_tombstones p - set pids\<rparr>"
  by (induction pids arbitrary: p) (simp_all add: Let_def Diff_Un_single)

lemma include_loop_eq:
  "distinct ks \<Longrightarrow> include_loop wanted ks (cfg, added) =
     (let new = filter (\<lambda>pid. wanted pid \<and> pid \<notin> set (pc_Selected cfg)) ks
      in (cfg\<lparr>pc_Selected := pc_Selected cfg @ new\<rparr>, added @ new))"
proof (induction ks arbitrary: cfg added)
  case Nil
  then show ?case by simp
next
  case (Cons k ks)
  have "filter (\<lambda>pid. wanted pid \<and> pid \<noteq> k \<and> pid \<notin> set (pc_Selected cfg)) ks =
      filter (\<lambda>pid. wanted pid \<and> pid \<notin> set (pc_Selected cfg)) ks"
    using Cons.prems by (intro filter_cong) auto
  with Cons show ?case by (simp add: Let_def)
qed

lemma tombstone_loop_eq:
  assumes "tombstone_loop models pids (tomb, ts, rs) = (tomb', ts', rs')"
  shows "tomb' = (tomb - {pid \<in> set pids. models pid \<noteq> None}) \<union> {pid \<in> set pids. models pid = None}"
    and "set ts' = set ts \<union> {pid \<in> set pids. models pid = None \<and> pid \<notin> tomb}"
    and "set rs' = set rs \<union> {pid \<in> set pids. models pid \<noteq> None \<and> pid \<in> tomb}"
  using assms
  by (induction pids arbitrary: tomb ts rs) (auto split: if_splits)

text \<open>What an iteration order of a snapshot gives the inclusion loops.\<close>

definition snap_order :: "ProviderModelID list \<Rightarrow> CatalogSnapshot \<Rightarrow> bool" where
  "snap_order ks snap = iter_order ks (snap_models snap)"

lemma Reconcile_InrD:
  assumes "Reconcile ks (Some p) (Some snap) routes = Inr (p', res)" and "snap_order ks snap"
  shows "pc_Selected (ps_Config p') = pc_Selected (ps_Config p) @ rr_Added res"
    and "rr_Added res = filter (\<lambda>pid. wanted_by_default (pc_Mode (ps_Config p)) (routes_of routes pid) \<and>
           pid \<notin> set (pc_Selected (ps_Config p))) ks"
    and "pc_Mode (ps_Config p') = pc_Mode (ps_Config p)"
    and "pc_Revision (ps_Config p') = pc_Revision (ps_Config p) + 1"
    and "ps_tombstones p' = (ps_tombstones p - {pid \<in> set (pc_Selected (ps_Config p)). snap_models snap pid \<noteq> None})
           \<union> {pid \<in> set (pc_Selected (ps_Config p)). snap_models snap pid = None}"
    and "set (rr_Tombstoned res) =
           {pid \<in> set (pc_Selected (ps_Config p)). snap_models snap pid = None \<and> pid \<notin> ps_tombstones p}"
    and "set (rr_Restored res) =
           {pid \<in> set (pc_Selected (ps_Config p)). snap_models snap pid \<noteq> None \<and> pid \<in> ps_tombstones p}"
    and "rr_Snapshot res = snap"
proof -
  obtain tomb ts rs where t: "tombstone_loop (snap_models snap) (pc_Selected (ps_Config p))
      (ps_tombstones p, [], []) = (tomb, ts, rs)"
    by (cases "tombstone_loop (snap_models snap) (pc_Selected (ps_Config p)) (ps_tombstones p, [], [])")
  have "distinct ks" using assms(2) by (simp add: snap_order_def iter_order_def)
  note inc = include_loop_eq [OF this]
  let ?new = "filter (\<lambda>pid. wanted_by_default (pc_Mode (ps_Config p)) (routes_of routes pid) \<and>
      pid \<notin> set (pc_Selected (ps_Config p))) ks"
  from assms(1) have *: "p' = \<lparr>ps_Config = (ps_Config p)\<lparr>pc_Selected := pc_Selected (ps_Config p) @ ?new,
        pc_Revision := pc_Revision (ps_Config p) + 1\<rparr>, ps_tombstones = tomb\<rparr>"
    "res = \<lparr>rr_Added = ?new, rr_Tombstoned = ts, rr_Restored = rs, rr_AccessChanged = [], rr_Snapshot = snap\<rparr>"
    by (auto simp: Reconcile_def t inc Let_def split: option.splits)
  show "pc_Selected (ps_Config p') = pc_Selected (ps_Config p) @ rr_Added res"
    "rr_Added res = ?new" "pc_Mode (ps_Config p') = pc_Mode (ps_Config p)"
    "pc_Revision (ps_Config p') = pc_Revision (ps_Config p) + 1" "rr_Snapshot res = snap"
    unfolding * by simp_all
  show "ps_tombstones p' = (ps_tombstones p - {pid \<in> set (pc_Selected (ps_Config p)). snap_models snap pid \<noteq> None})
       \<union> {pid \<in> set (pc_Selected (ps_Config p)). snap_models snap pid = None}"
    "set (rr_Tombstoned res) =
       {pid \<in> set (pc_Selected (ps_Config p)). snap_models snap pid = None \<and> pid \<notin> ps_tombstones p}"
    "set (rr_Restored res) =
       {pid \<in> set (pc_Selected (ps_Config p)). snap_models snap pid \<noteq> None \<and> pid \<in> ps_tombstones p}"
    using tombstone_loop_eq [OF t] unfolding * by simp_all
qed

lemma Reconcile_ok_iff:
  "(\<exists>r. Reconcile ks (Some p) snap routes = Inr r) \<longleftrightarrow>
     (\<exists>s. snap = Some s \<and> snap_Validate s = None)"
  by (auto simp: Reconcile_def Let_def case_prod_beta split: option.splits)

section \<open>Revisions\<close>

text \<open>
  The contract optimistic concurrency needs of a pool: every edit moves the revision by one. A
  client that remembers the revision it read can then tell whether anything happened since, as
  long as fewer than \<open>2^64\<close> edits did.
\<close>

locale revisioned =
  fixes rev_of :: "'s \<Rightarrow> i64" and edit :: "'o \<Rightarrow> 's \<Rightarrow> 's"
  assumes edit_bumps: "rev_of (edit op s) = rev_of s + 1"
begin

definition edits :: "'o list \<Rightarrow> 's \<Rightarrow> 's" where
  "edits ops s = fold edit ops s"

lemma rev_edits: "rev_of (edits ops s) = rev_of s + of_nat (length ops)"
  unfolding edits_def by (induction ops arbitrary: s) (simp_all add: edit_bumps add_ac)

lemma stale_detected:
  assumes "length ops < 2 ^ 64" and "rev_of (edits ops s) = rev_of s"
  shows "ops = []"
proof -
  have "(of_nat (length ops) :: i64) = 0"
    using assms(2) by (simp add: rev_edits)
  then have "2 ^ 64 dvd length ops"
    by (simp add: word_of_nat_eq_0_iff)
  with assms(1) show ?thesis
    by (metis dvd_imp_le length_0_conv neq0_conv not_le)
qed

end

text \<open>The edits of a pool, as the store applies them (an edit the pool rejects is not one).\<close>

datatype PoolOp =
    OpSelect "ProviderModelID list"
  | OpDeselect "ProviderModelID list"
  | OpSelectAll "ProviderModelID list" "CatalogSnapshot option" Routes
  | OpClearAll
  | OpReplace "ProviderModelID list" PoolMode

fun apply_op :: "PoolOp \<Rightarrow> PoolState \<Rightarrow> PoolState" where
  "apply_op (OpSelect pids) p = pool_Select pids p"
| "apply_op (OpDeselect pids) p = pool_Deselect pids p"
| "apply_op (OpSelectAll ks catalog routes) p = pool_SelectAll ks catalog routes p"
| "apply_op OpClearAll p = pool_ClearAll p"
| "apply_op (OpReplace pids m) p =
     (case pool_Replace pids (if m = ModeManual then ModeManual else ModeAutomatic) (Some p) of
        Inl _ \<Rightarrow> p
      | Inr p' \<Rightarrow> p')"

lemma include_loop_revision: "pc_Revision (fst (include_loop w ks (cfg, added))) = pc_Revision cfg"
  by (induction ks arbitrary: cfg added) simp_all

lemma apply_op_revision: "pc_Revision (ps_Config (apply_op op p)) = pc_Revision (ps_Config p) + 1"
  by (cases op) (auto simp: pool_Select_def pool_Deselect_def pool_SelectAll_def pool_ClearAll_def
      pool_Replace_def Let_def Select_loop_eq include_loop_revision split: option.splits)

interpretation pool: revisioned "\<lambda>p. pc_Revision (ps_Config p)" apply_op
  by unfold_locales (rule apply_op_revision)

section \<open>Reconciling a sequence of snapshots\<close>

fun reconcile_seq ::
  "(ProviderModelID list \<times> CatalogSnapshot \<times> Routes) list \<Rightarrow> PoolState \<Rightarrow> PoolState option" where
  "reconcile_seq [] p = Some p"
| "reconcile_seq ((ks, snap, routes) # rest) p =
     (case Reconcile ks (Some p) (Some snap) routes of
        Inl _ \<Rightarrow> None
      | Inr (p', _) \<Rightarrow> reconcile_seq rest p')"

lemma reconcile_seq_append:
  "reconcile_seq (xs @ ys) p = (case reconcile_seq xs p of None \<Rightarrow> None | Some p' \<Rightarrow> reconcile_seq ys p')"
  by (induction xs arbitrary: p) (auto split: sum.splits)

lemma reconcile_seq_prefix:
  assumes "reconcile_seq xs p = Some p'" and "\<forall>(ks, snap, routes) \<in> set xs. snap_order ks snap"
  shows "\<exists>added. pc_Selected (ps_Config p') = pc_Selected (ps_Config p) @ added"
  using assms
proof (induction xs arbitrary: p)
  case Nil
  then show ?case by simp
next
  case (Cons x xs)
  obtain ks snap routes where x: "x = (ks, snap, routes)" by (cases x)
  with Cons.prems obtain p1 res where r: "Reconcile ks (Some p) (Some snap) routes = Inr (p1, res)"
    and rest: "reconcile_seq xs p1 = Some p'" by (auto split: sum.splits)
  from Cons.IH [OF rest] Cons.prems(2) obtain added
    where "pc_Selected (ps_Config p') = pc_Selected (ps_Config p1) @ added" by auto
  with Reconcile_InrD(1) [OF r] Cons.prems(2) x show ?case by simp
qed

section \<open>Properties\<close>

text \<open>C36: reconciling never removes a selected model and never changes the mode; what it adds, at
  the end, are exactly the models of the snapshot that were not selected and that have an enabled
  route selected by default or, in Automatic mode, an enabled free or free-tier route.\<close>

theorem Reconcile_keeps_selection:
  assumes "Reconcile ks (Some p) (Some snap) routes = Inr (p', res)" and "snap_order ks snap"
  shows "pc_Selected (ps_Config p') = pc_Selected (ps_Config p) @ rr_Added res \<and>
    distinct (rr_Added res) \<and>
    set (rr_Added res) = {pid. snap_models snap pid \<noteq> None \<and> pid \<notin> set (pc_Selected (ps_Config p)) \<and>
      (\<exists>r \<in> set (routes_of routes pid). rt_Enabled r \<and>
         (SelectedByDefault r \<or> (pc_Mode (ps_Config p) = ModeAutomatic \<and> AutoRoutable (EffectiveAccess r))))} \<and>
    pc_Mode (ps_Config p') = pc_Mode (ps_Config p)"
proof -
  have ks: "distinct ks" "set ks = {pid. snap_models snap pid \<noteq> None}"
    using assms(2) by (auto simp: snap_order_def iter_order_def)
  have "wanted_by_default m rs \<longleftrightarrow> (\<exists>r \<in> set rs. rt_Enabled r \<and>
      (SelectedByDefault r \<or> (m = ModeAutomatic \<and> AutoRoutable (EffectiveAccess r))))" for m rs
    by (auto simp: wanted_by_default_def hasDefaultSelectedRoute_def hasAutoRoutableRoute_def list_ex_iff)
  with Reconcile_InrD [OF assms] ks show ?thesis by auto
qed

definition sample_snap :: "gostring list \<Rightarrow> CatalogSnapshot" where
  "sample_snap pids = \<lparr>cs_Revision = 1, cs_CreatedAt = 5,
     cs_Models = Some (map_of (map (\<lambda>pid. (pid, sample_model pid)) pids))\<rparr>"

definition sample_pool :: PoolState where
  "sample_pool = \<lparr>ps_Config = \<lparr>pc_Revision = 3, pc_Mode = ModeAutomatic, pc_Selected = [''a'']\<rparr>,
     ps_tombstones = {}\<rparr>"

lemma sample_order: "distinct pids \<Longrightarrow> snap_order pids (sample_snap pids)"
  by (simp add: snap_order_def iter_order_def sample_snap_def snap_models_def dom_map_of_conv_image_fst
      image_image)

theorem Reconcile_keeps_selection_witness:
  "\<exists>p' res. Reconcile [''b'', ''d''] (Some sample_pool) (Some (sample_snap [''b'', ''d'']))
      [''b'' \<mapsto> [sample_route ''r'' ''b'' AccessFree]] = Inr (p', res) \<and>
    pc_Selected (ps_Config p') = [''a''] @ rr_Added res"
proof -
  obtain p' res where r: "Reconcile [''b'', ''d''] (Some sample_pool) (Some (sample_snap [''b'', ''d'']))
      [''b'' \<mapsto> [sample_route ''r'' ''b'' AccessFree]] = Inr (p', res)"
    using Reconcile_ok_iff [of "[''b'', ''d'']" sample_pool "Some (sample_snap [''b'', ''d''])"
        "[''b'' \<mapsto> [sample_route ''r'' ''b'' AccessFree]]"]
    by (fastforce simp: sample_snap_def snap_Validate_def)
  have "snap_order [''b'', ''d''] (sample_snap [''b'', ''d''])" by (rule sample_order) simp
  from Reconcile_keeps_selection [OF r this] r show ?thesis
    by (auto simp: sample_pool_def)
qed

text \<open>C37: through any sequence of catalog refreshes the selection made before them is kept as it
  was, and a selected model is tombstoned exactly when the latest snapshot lacks it: a model that
  comes back is restored.\<close>

theorem tombstone_restore:
  assumes "reconcile_seq (xs @ [(ks, snap, routes)]) p = Some p'"
    and "\<forall>(ks, snap, routes) \<in> set (xs @ [(ks, snap, routes)]). snap_order ks snap"
  shows "(\<exists>added. pc_Selected (ps_Config p') = pc_Selected (ps_Config p) @ added) \<and>
    (\<forall>pid \<in> set (pc_Selected (ps_Config p)). pid \<in> ps_tombstones p' \<longleftrightarrow> snap_models snap pid = None)"
proof -
  from assms(1) obtain p1 res where p1: "reconcile_seq xs p = Some p1"
    and r: "Reconcile ks (Some p1) (Some snap) routes = Inr (p', res)"
    by (auto simp: reconcile_seq_append split: option.splits sum.splits)
  obtain added where "pc_Selected (ps_Config p1) = pc_Selected (ps_Config p) @ added"
    using reconcile_seq_prefix [OF p1] assms(2) by auto
  moreover have "ps_tombstones p' = (ps_tombstones p1 - {pid \<in> set (pc_Selected (ps_Config p1)). snap_models snap pid \<noteq> None})
       \<union> {pid \<in> set (pc_Selected (ps_Config p1)). snap_models snap pid = None}"
    using Reconcile_InrD(5) [OF r] assms(2) by simp
  moreover have "\<exists>added. pc_Selected (ps_Config p') = pc_Selected (ps_Config p) @ added"
    using reconcile_seq_prefix [OF assms] .
  ultimately show ?thesis by auto
qed

theorem tombstone_restore_witness:
  "\<exists>p'. reconcile_seq ([([''b''], sample_snap [''b''], Map.empty)] @ [([''a''], sample_snap [''a''], Map.empty)])
      sample_pool = Some p' \<and> ''a'' \<in> set (pc_Selected (ps_Config p')) \<and> ''a'' \<notin> ps_tombstones p'"
proof -
  let ?seq = "[([''b''], sample_snap [''b''], Map.empty)] @ [([''a''], sample_snap [''a''], Map.empty)]"
  have ok: "\<exists>p' res. Reconcile [k] (Some p) (Some (sample_snap [k])) Map.empty = Inr (p', res)" for p k
    using Reconcile_ok_iff [of "[k]" p "Some (sample_snap [k])" Map.empty]
    by (fastforce simp: sample_snap_def snap_Validate_def)
  obtain p1 res1 where r1: "Reconcile [''b''] (Some sample_pool) (Some (sample_snap [''b''])) Map.empty = Inr (p1, res1)"
    using ok by blast
  obtain p' res where r2: "Reconcile [''a''] (Some p1) (Some (sample_snap [''a''])) Map.empty = Inr (p', res)"
    using ok by blast
  have seq: "reconcile_seq ?seq sample_pool = Some p'" by (simp add: r1 r2)
  have "\<forall>(ks, snap, routes) \<in> set ?seq. snap_order ks snap" by (simp add: sample_order)
  from tombstone_restore [OF seq this] seq show ?thesis
    by (auto simp: sample_pool_def sample_snap_def snap_models_def)
qed

text \<open>What each edit does to the selection and the mode. Selecting keeps the order and adds
  every new model once, deselecting removes exactly the named models, selecting all adds exactly the
  models with an enabled free or free-tier route, and clearing leaves an empty Manual pool. A Replace
  with an unknown mode is refused.\<close>

theorem pool_edits:
  "pc_Selected (ps_Config (pool_Select pids p)) = add_new (pc_Selected (ps_Config p)) pids \<and>
   ps_tombstones (pool_Select pids p) = ps_tombstones p - set pids \<and>
   pc_Selected (ps_Config (pool_Deselect pids p)) = filter (\<lambda>s. s \<notin> set pids) (pc_Selected (ps_Config p)) \<and>
   (distinct ks \<longrightarrow> pc_Selected (ps_Config (pool_SelectAll ks (Some snap) routes p)) =
      pc_Selected (ps_Config p) @ filter (\<lambda>pid. hasAutoRoutableRoute (routes_of routes pid) \<and>
        pid \<notin> set (pc_Selected (ps_Config p))) ks) \<and>
   pc_Selected (ps_Config (pool_ClearAll p)) = [] \<and>
   pc_Mode (ps_Config (pool_Select pids p)) = ModeManual \<and>
   pc_Mode (ps_Config (pool_Deselect pids p)) = ModeManual \<and>
   pc_Mode (ps_Config (pool_ClearAll p)) = ModeManual \<and>
   pc_Mode (ps_Config (pool_SelectAll ks (Some snap) routes p)) = ModeAutomatic \<and>
   (m \<notin> {ModeAutomatic, ModeManual, ModeOther []} \<longrightarrow> (\<exists>e. pool_Replace pids m (Some p) = Inl e))"
proof -
  have "pc_Mode (fst (include_loop w ks (cfg, added))) = pc_Mode cfg" for w cfg and added :: "ProviderModelID list"
    by (induction ks arbitrary: cfg added) simp_all
  then show ?thesis
    by (auto simp: pool_Select_def Select_loop_eq pool_Deselect_def Deselect_loop_filter pool_SelectAll_def
        include_loop_eq pool_ClearAll_def pool_Replace_def Let_def)
qed

theorem pool_edits_witness:
  "pc_Selected (ps_Config (pool_Select [''b'', ''a'', ''b''] sample_pool)) = [''a'', ''b''] \<and>
   pc_Selected (ps_Config (pool_SelectAll [''b''] (Some (sample_snap [''b''])) [''b'' \<mapsto> [sample_route ''r'' ''b'' AccessPaid]]
     sample_pool)) = [''a'']"
  using pool_edits [of "[''b'', ''a'', ''b'']" sample_pool "[''b'']" "sample_snap [''b'']"
      "[''b'' \<mapsto> [sample_route ''r'' ''b'' AccessPaid]]" ModeManual]
  by (simp add: sample_pool_def hasAutoRoutableRoute_def routes_of_def sample_route_def
      EffectiveAccess_def)

text \<open>A pool revision read before fewer than \<open>2^64\<close> edits equals the one read after them only
  if there were none, so comparing revisions detects every concurrent edit.\<close>

theorem pool_revision_detects:
  assumes "length ops < 2 ^ 64"
    and "pc_Revision (ps_Config (fold apply_op ops p)) = pc_Revision (ps_Config p)"
  shows "ops = []"
  using assms by (intro pool.stale_detected) (simp_all add: pool.edits_def)

theorem pool_revision_detects_witness:
  "pc_Revision (ps_Config (fold apply_op [OpSelect [''b''], OpClearAll] sample_pool)) \<noteq> pc_Revision (ps_Config sample_pool)"
proof
  assume "pc_Revision (ps_Config (fold apply_op [OpSelect [''b''], OpClearAll] sample_pool)) =
    pc_Revision (ps_Config sample_pool)"
  from pool_revision_detects [OF _ this] show False by simp
qed

text \<open>Committing a snapshot either refuses it and changes nothing, or publishes it under the
  next revision of the store, whatever revision the provider gave it, and returns what later reads
  return; the pool is not touched.\<close>

theorem CommitSnapshot_spec:
  "case CommitSnapshot now snap s of
     (Inl e, s') \<Rightarrow> s' = s \<and> (case snap of None \<Rightarrow> True | Some sn \<Rightarrow> snap_Validate sn \<noteq> None)
   | (Inr view, s') \<Rightarrow> \<exists>sn. snap = Some sn \<and> snap_Validate sn = None \<and>
       store_CatalogSnapshot s' = Some view \<and> so_pool s' = so_pool s \<and>
       snap_models view = snap_models sn \<and> cs_Revision view = so_snapshotRevision s + 1 \<and>
       so_snapshotRevision s' = cs_Revision view \<and>
       cs_CreatedAt view = (if cs_CreatedAt sn = 0 then now else cs_CreatedAt sn)"
proof (cases snap)
  case None
  then show ?thesis by (simp add: CommitSnapshot_def)
next
  case (Some sn)
  then show ?thesis
    by (cases "snap_Validate sn")
       (simp_all add: CommitSnapshot_def store_CatalogSnapshot_def snap_models_def IsZero_def Let_def)
qed

end
