(* ===== verification/OpenCode.thy ===== *)
theory OpenCode
  imports Provider
begin

text \<open>
  Package \<open>internal/providers/opencode\<close>: the routes of a native model (\<open>route.go\<close>,
  \<open>auth_route.go\<close>, \<open>free_models.go\<close>) and the catalog the provider discovers (\<open>provider.go\<close>) from
  the parsed entries of the endpoint's answer. Whether a key is configured is an argument.
\<close>

section \<open>Routes (route.go, auth_route.go, free_models.go)\<close>

definition PublicRouteName :: gostring where
  "PublicRouteName = ''opencode-public''"

definition ProviderID :: gostring where
  "ProviderID = ''opencode''"

definition AuthRouteName :: gostring where
  "AuthRouteName = ''opencode-zen''"

definition verifiedAnonymousFree :: "gostring list" where
  "verifiedAnonymousFree = [''big-pickle'', ''mimo-v2.5-free'', ''ling-3.0-flash-fin-free'',
     ''nemotron-3-ultra-free'', ''nemotron-3.5-lightning-free'', ''muse-spark-1.3-contributor-free'']"

definition isVerifiedAnonymousFree :: "gostring \<Rightarrow> bool" where
  "isVerifiedAnonymousFree upstreamID = (upstreamID \<in> set verifiedAnonymousFree)"

definition publicAccess :: "gostring \<Rightarrow> AccessClass" where
  "publicAccess upstreamID = (if isVerifiedAnonymousFree upstreamID then AccessFree else AccessUnknown)"

definition zeroCapabilities :: Capabilities where
  "zeroCapabilities = \<lparr>cap_Streaming = False, cap_Tools = False, cap_Vision = False,
     cap_StructuredOutput = False, cap_Reasoning = False, cap_Unknown = 0, cap_ContextLength = 0,
     cap_MaxOutput = 0\<rparr>"

text \<open>\<open>rid, _ := NewRouteID(...)\<close>: the empty id when the name is refused.\<close>

definition route_id_or_empty :: "gostring \<Rightarrow> gostring \<Rightarrow> RouteID" where
  "route_id_or_empty name mdl = (case NewRouteID name mdl of Inl _ \<Rightarrow> [] | Inr r \<Rightarrow> r)"

definition allCapabilities :: Capabilities where
  "allCapabilities = zeroCapabilities\<lparr>cap_Streaming := True, cap_Tools := True,
     cap_StructuredOutput := True, cap_Vision := True, cap_Reasoning := True\<rparr>"

definition PublicRoute :: "ProviderModelID \<Rightarrow> gostring \<Rightarrow> Capabilities \<Rightarrow> ProviderRoute" where
  "PublicRoute pmid upstreamID caps =
     \<lparr>rt_ID = route_id_or_empty PublicRouteName upstreamID, rt_ModelID = pmid, rt_Provider = ProviderID,
      rt_UpstreamModelID = upstreamID, rt_CredentialID = PublicRouteName,
      rt_Access = publicAccess upstreamID, rt_CapabilityOverride = Some allCapabilities,
      rt_Enabled = True, rt_AutoRouteAllowed = None, rt_ProbeAllowed = None,
      rt_DefaultSelected = None\<rparr>"

definition AuthRoute :: "ProviderModelID \<Rightarrow> gostring \<Rightarrow> ProviderRoute" where
  "AuthRoute pmid upstreamID =
     \<lparr>rt_ID = route_id_or_empty AuthRouteName upstreamID, rt_ModelID = pmid, rt_Provider = ProviderID,
      rt_UpstreamModelID = upstreamID, rt_CredentialID = AuthRouteName,
      rt_Access = AccessFree, rt_CapabilityOverride = Some allCapabilities,
      rt_Enabled = True, rt_AutoRouteAllowed = None, rt_ProbeAllowed = None,
      rt_DefaultSelected = None\<rparr>"

text \<open>\<open>env\<close> is the value of the environment variable of the key.\<close>

definition AuthKey :: "gostring \<Rightarrow> gostring" where
  "AuthKey env = TrimSpace env"

definition legacyPublicRoute :: "ProviderModelID \<Rightarrow> gostring \<Rightarrow> Capabilities \<Rightarrow> ProviderRoute" where
  "legacyPublicRoute pmid upstreamID caps = (PublicRoute pmid upstreamID caps)\<lparr>rt_Access := AccessFree\<rparr>"

definition opencode_Routes ::
  "gostring \<Rightarrow> ProviderModelID \<Rightarrow> gostring \<Rightarrow> Capabilities \<Rightarrow> ProviderRoute list" where
  "opencode_Routes env pmid upstreamID caps =
     legacyPublicRoute pmid upstreamID caps #
     (if AuthKey env \<noteq> [] then [AuthRoute pmid upstreamID] else [])"

section \<open>The provider's own routes (provider.go)\<close>

definition AuthBaseURL :: gostring where
  "AuthBaseURL = ''https://opencode.ai/zen/v1''"

fun str_TrimRight :: "char \<Rightarrow> gostring \<Rightarrow> gostring" where
  "str_TrimRight c s = rev (dropWhile (\<lambda>x. x = c) (rev s))"

text \<open>\<open>resolve\<close> is the answer of the configured credential resolver, \<open>None\<close> when there is none.\<close>

record OpenCodeProvider =
  oc_BaseURL :: gostring
  oc_resolveCredential :: "(goerr + gostring) option"
  oc_nativeFreeOnly :: bool

definition opencode_New :: "gostring \<Rightarrow> (goerr + gostring) option \<Rightarrow> OpenCodeProvider" where
  "opencode_New baseURL resolve =
     (let baseURL = (if baseURL = [] then AuthBaseURL else baseURL)
      in \<lparr>oc_BaseURL = baseURL, oc_resolveCredential = resolve,
          oc_nativeFreeOnly = (str_TrimRight CHR ''/'' baseURL = AuthBaseURL)\<rparr>)"

definition hasCredential :: "gostring \<Rightarrow> OpenCodeProvider \<Rightarrow> bool" where
  "hasCredential env p = (case oc_resolveCredential p of
       Some (Inl _) \<Rightarrow> False
     | Some (Inr key) \<Rightarrow> TrimSpace key \<noteq> []
     | None \<Rightarrow> AuthKey env \<noteq> [])"

definition provider_Routes :: "gostring \<Rightarrow> OpenCodeProvider \<Rightarrow> ProviderModel \<Rightarrow> ProviderRoute list" where
  "provider_Routes env p pm =
     (if oc_nativeFreeOnly p \<and> \<not> isVerifiedAnonymousFree (pm_UpstreamID pm) then []
      else PublicRoute (pm_ID pm) (pm_UpstreamID pm) (pm_Base pm) #
        (if hasCredential env p then [AuthRoute (pm_ID pm) (pm_UpstreamID pm)] else []))"

end
