(* ===== verification/Gateway.thy ===== *)
theory Gateway
  imports Catalog OpenCode
begin

text \<open>
  Package \<open>internal/gateway\<close>, state and control plane: the gateway's record and \<open>RefreshCatalog\<close>
  (\<open>gateway.go\<close>), benchmark bindings and ranking (\<open>performance.go\<close>), the optimistic control
  operations on pool and pin (\<open>control.go\<close>). The gateway's lock makes every operation one step
  on the record. A nil \<open>Gateway\<close> or pool store, which the constructor never returns, has no
  counterpart. Clock readings, map iteration orders and provider answers are arguments; ranking
  reads the clock once.
\<close>

section \<open>State (gateway.go, performance.go)\<close>

definition ExternalAutoModel :: gostring where
  "ExternalAutoModel = ''fmr/auto''"

definition legacyExternalAutoModel :: gostring where
  "legacyExternalAutoModel = ''afm/auto''"

definition isAutoModel :: "gostring \<Rightarrow> bool" where
  "isAutoModel pid = (pid = ExternalAutoModel \<or> pid = legacyExternalAutoModel)"

definition routingTTFTMaxAge :: duration where
  "routingTTFTMaxAge = 90 * Second"

record BenchmarkStatus =
  bs_State :: gostring
  bs_Source :: gostring
  bs_LastAttemptAt :: time
  bs_LastSuccessAt :: time
  bs_RecordCount :: nat
  bs_ErrorCode :: gostring

record FailoverPolicy =
  fp_MaxAttempts :: int
  fp_Budget :: duration

record Gateway =
  gw_catalog :: "CatalogSnapshot option"
  gw_routes :: Routes
  gw_providers :: "ProviderAvailability list"
  gw_pool :: Store
  gw_health :: Manager
  gw_latency :: Registry
  gw_autoPick :: ProviderModelID
  gw_autoRoute :: "ProviderRoute option"
  gw_failover :: FailoverPolicy
  gw_benchmarkSnapshot :: Snapshot
  gw_benchmarkBindings :: "ProviderModelID \<rightharpoonup> BenchmarkBinding"
  gw_benchmarkStatus :: BenchmarkStatus
  gw_pinnedModel :: ProviderModelID

datatype gateway_error =
    NilProvider
  | ProviderErr goerr
  | EmptyCatalog
  | CatalogErr catalog_error
  | CacheErr cache_error
  | ErrPoolRevisionConflict
  | ErrControlModelNotFound
  | ErrControlModelInvalid model_error
  | BulkExclusive
  | BulkWithItems

section \<open>Failover policy (failover.go)\<close>

definition DefaultMaxAttempts :: int where
  "DefaultMaxAttempts = 4"

definition DefaultFailoverBudget :: duration where
  "DefaultFailoverBudget = 30 * Second"

definition maxConfiguredAttempts :: int where
  "maxConfiguredAttempts = 100"

definition maxConfiguredBudget :: duration where
  "maxConfiguredBudget = 10 * Minute"

definition maxConfiguredBudgetMilli :: int where
  "maxConfiguredBudgetMilli = maxConfiguredBudget div Millisecond"

definition policy_normalized :: "FailoverPolicy \<Rightarrow> FailoverPolicy" where
  "policy_normalized p =
     \<lparr>fp_MaxAttempts = (if fp_MaxAttempts p \<le> 0 then DefaultMaxAttempts
        else if fp_MaxAttempts p > maxConfiguredAttempts then maxConfiguredAttempts
        else fp_MaxAttempts p),
      fp_Budget = (if fp_Budget p \<le> 0 then DefaultFailoverBudget
        else if fp_Budget p > maxConfiguredBudget then maxConfiguredBudget
        else fp_Budget p)\<rparr>"

text \<open>
  \<open>strconv.Atoi\<close> and \<open>ParseInt\<close> in base 10: an optional sign and at least one digit; a value that
  does not fit 64 bits is an error.
\<close>

definition digits_val :: "gostring \<Rightarrow> int option" where
  "digits_val s = (if s = [] \<or> \<not> list_all is_digit s then None
     else Some (foldl (\<lambda>n c. 10 * n + (of_char c - 48)) 0 s))"

definition in_int64 :: "int \<Rightarrow> int option" where
  "in_int64 n = (if - (2 ^ 63) \<le> n \<and> n < 2 ^ 63 then Some n else None)"

definition Atoi :: "gostring \<Rightarrow> int option" where
  "Atoi s = (case s of
       [] \<Rightarrow> None
     | c # rest \<Rightarrow>
         if c = CHR ''-'' then Option.bind (digits_val rest) (\<lambda>n. in_int64 (- n))
         else if c = CHR ''+'' then Option.bind (digits_val rest) in_int64
         else Option.bind (digits_val s) in_int64)"

text \<open>The two arguments are the values of \<open>FMR_MAX_ATTEMPTS\<close> and \<open>FMR_FAILOVER_BUDGET_MS\<close>.\<close>

definition DefaultFailoverPolicy :: "gostring \<Rightarrow> gostring \<Rightarrow> FailoverPolicy" where
  "DefaultFailoverPolicy rawAttempts rawBudget =
     \<lparr>fp_MaxAttempts = (case (if rawAttempts \<noteq> [] then Atoi rawAttempts else None) of
          Some n \<Rightarrow> if n > 0 \<and> n \<le> maxConfiguredAttempts then n else DefaultMaxAttempts
        | None \<Rightarrow> DefaultMaxAttempts),
      fp_Budget = (case (if rawBudget \<noteq> [] then Atoi rawBudget else None) of
          Some ms \<Rightarrow> if ms > 0 \<and> ms \<le> maxConfiguredBudgetMilli then ms * Millisecond
                     else DefaultFailoverBudget
        | None \<Rightarrow> DefaultFailoverBudget)\<rparr>"

section \<open>Benchmarks (performance.go)\<close>

definition MarkBenchmarkFetching :: "time \<Rightarrow> Gateway \<Rightarrow> Gateway" where
  "MarkBenchmarkFetching now g = g\<lparr>gw_benchmarkStatus := (gw_benchmarkStatus g)
     \<lparr>bs_State := ''fetching'', bs_LastAttemptAt := now, bs_ErrorCode := []\<rparr>\<rparr>"

definition MarkBenchmarkFailure :: "time \<Rightarrow> gostring \<Rightarrow> Gateway \<Rightarrow> Gateway" where
  "MarkBenchmarkFailure now code g = g\<lparr>gw_benchmarkStatus := (gw_benchmarkStatus g)
     \<lparr>bs_State := ''failed'', bs_LastAttemptAt := now, bs_ErrorCode := code\<rparr>\<rparr>"

text \<open>A nil model map reads as the empty map; its length is the number of keys.\<close>

definition bench_models :: "Snapshot \<Rightarrow> gostring \<rightharpoonup> Metrics" where
  "bench_models s = (case sn_Models s of None \<Rightarrow> Map.empty | Some m \<Rightarrow> m)"

definition SetBenchmarkSource :: "gostring \<Rightarrow> time \<Rightarrow> Gateway \<Rightarrow> Gateway" where
  "SetBenchmarkSource source now g = g\<lparr>gw_benchmarkStatus :=
     \<lparr>bs_State = source, bs_Source = source, bs_LastAttemptAt = now, bs_LastSuccessAt = now,
      bs_RecordCount = card (dom (bench_models (gw_benchmarkSnapshot g))), bs_ErrorCode = []\<rparr>\<rparr>"

definition binding_for :: "Snapshot \<Rightarrow> ProviderModel \<Rightarrow> BenchmarkBinding option" where
  "binding_for snapshot pm =
     (case MatchUnique matcher_New pm (sn_Benchmarks snapshot) of
        (binding, unique) \<Rightarrow>
          if unique \<and> bb_MatchMethod binding \<noteq> MatchNone then Some binding else None)"

definition bindings_for :: "CatalogSnapshot option \<Rightarrow> Snapshot \<Rightarrow> (ProviderModelID \<rightharpoonup> BenchmarkBinding)" where
  "bindings_for catalog snapshot =
     (case catalog of
        None \<Rightarrow> Map.empty
      | Some cat \<Rightarrow>
          if sn_Benchmarks snapshot = [] then Map.empty
          else (\<lambda>pid. Option.bind (snap_models cat pid) (binding_for snapshot)))"

definition rebuildBenchmarkBindings :: "Gateway \<Rightarrow> Gateway" where
  "rebuildBenchmarkBindings g =
     g\<lparr>gw_benchmarkBindings := bindings_for (gw_catalog g) (gw_benchmarkSnapshot g)\<rparr>"

definition SetBenchmarkSnapshot :: "gostring list \<Rightarrow> Snapshot \<Rightarrow> Gateway \<Rightarrow> cache_error option \<times> Gateway" where
  "SetBenchmarkSnapshot ks snapshot g =
     (case snapshot_Validate ks snapshot of
        Some e \<Rightarrow> (Some e, g)
      | None \<Rightarrow> (None, rebuildBenchmarkBindings (g\<lparr>gw_benchmarkSnapshot := snapshot_Clone snapshot\<rparr>)))"

definition clearBenchmarkSnapshot :: "Gateway \<Rightarrow> Gateway" where
  "clearBenchmarkSnapshot g = g\<lparr>gw_benchmarkSnapshot := zeroSnapshot, gw_benchmarkBindings := Map.empty\<rparr>"

text \<open>\<open>resolution\<close> is the answer of \<open>cache.Resolve\<close>.\<close>

definition ResolveBenchmarkSnapshot ::
  "(Snapshot \<Rightarrow> gostring list) \<Rightarrow> Resolution \<Rightarrow> Gateway \<Rightarrow> Resolution \<times> Gateway" where
  "ResolveBenchmarkSnapshot order resolution g =
     (if rs_Source resolution = SourceLive \<or> rs_Source resolution = SourceCache
      then (case SetBenchmarkSnapshot (order (rs_Snapshot resolution)) (rs_Snapshot resolution) g of
              (Some e, g') \<Rightarrow> (resolution\<lparr>rs_CacheError := Some e\<rparr>, g')
            | (None, g') \<Rightarrow> (resolution, g'))
      else (resolution, clearBenchmarkSnapshot g))"

section \<open>Ranking (performance.go)\<close>

definition gw_freshTTFT :: "Gateway \<Rightarrow> time \<Rightarrow> gostring \<Rightarrow> float64 option" where
  "gw_freshTTFT g now routeID = FreshTTFT (gw_latency g) routeID now routingTTFTMaxAge"

definition gw_hasPerformanceData :: "Gateway \<Rightarrow> Candidate list \<Rightarrow> bool" where
  "gw_hasPerformanceData g candidates =
     list_ex (\<lambda>c. case gw_benchmarkBindings g (pm_ID (cd_Model c)) of
         None \<Rightarrow> False
       | Some binding \<Rightarrow>
           (case bench_models (gw_benchmarkSnapshot g) (bb_SourceModelID binding) of
              None \<Rightarrow> False
            | Some metrics \<Rightarrow> HasPerformanceData metrics)) candidates"

definition binding_or_zero :: "Gateway \<Rightarrow> ProviderModelID \<Rightarrow> BenchmarkBinding" where
  "binding_or_zero g pid = (case gw_benchmarkBindings g pid of None \<Rightarrow> zeroBinding | Some b \<Rightarrow> b)"

definition fresh_latencies :: "Gateway \<Rightarrow> time \<Rightarrow> Candidate list \<Rightarrow> float64 list" where
  "fresh_latencies g now candidates = List.map_filter (\<lambda>c. gw_freshTTFT g now (rt_ID (cd_Route c))) candidates"

definition candidate_score :: "Gateway \<Rightarrow> time \<Rightarrow> float64 list \<Rightarrow> Candidate \<Rightarrow> float64" where
  "candidate_score g now latencies c =
     (let latencyScore = (case gw_freshTTFT g now (rt_ID (cd_Route c)) of
            None \<Rightarrow> UnknownScore
          | Some ms \<Rightarrow> Percentile ms latencies False)
      in re_RoutingScore (ScoreBinding (gw_benchmarkSnapshot g)
           (binding_or_zero g (pm_ID (cd_Model c))) latencyScore))"

definition rankCandidates :: "Gateway \<Rightarrow> time \<Rightarrow> Candidate list \<Rightarrow> Candidate list" where
  "rankCandidates g now candidates =
     (if \<not> gw_hasPerformanceData g candidates then Rank candidates (Some (gw_freshTTFT g now))
      else let latencies = fresh_latencies g now candidates
        in RankWithScore candidates (Some (gw_freshTTFT g now))
             (Some (\<lambda>c. Some (candidate_score g now latencies c))))"

fun unique_routes :: "RouteID set \<Rightarrow> Candidate list \<Rightarrow> Candidate list" where
  "unique_routes seen [] = []"
| "unique_routes seen (c # cs) =
     (if rt_ID (cd_Route c) \<in> seen then unique_routes seen cs
      else c # unique_routes (insert (rt_ID (cd_Route c)) seen) cs)"

definition rankedUnique :: "Gateway \<Rightarrow> time \<Rightarrow> Candidate list \<Rightarrow> Candidate list \<Rightarrow> Candidate list" where
  "rankedUnique g now candidates existing =
     unique_routes ((\<lambda>c. rt_ID (cd_Route c)) ` set existing) (rankCandidates g now candidates)"

section \<open>Catalog refresh and construction (gateway.go)\<close>

text \<open>
  What the provider answers: a routed catalog, or for a provider without routes of its own a
  snapshot, whose models all get the native routes (\<open>env\<close> is the key's environment variable).
\<close>

datatype Discovery =
    Routed "goerr + RoutedCatalog option"
  | Native gostring "goerr + CatalogSnapshot option"

definition native_routes :: "gostring \<Rightarrow> CatalogSnapshot \<Rightarrow> Routes" where
  "native_routes env snap pid =
     map_option (\<lambda>pm. opencode_Routes env pid (pm_UpstreamID pm) (pm_Base pm)) (snap_models snap pid)"

definition discovered ::
  "Discovery \<Rightarrow> gateway_error + CatalogSnapshot \<times> Routes \<times> ProviderAvailability list" where
  "discovered d = (case d of
       Routed (Inl e) \<Rightarrow> Inl (ProviderErr e)
     | Routed (Inr None) \<Rightarrow> Inl EmptyCatalog
     | Routed (Inr (Some rc)) \<Rightarrow>
         (case rc_Snapshot rc of
            None \<Rightarrow> Inl EmptyCatalog
          | Some snap \<Rightarrow> Inr (snap, rc_Routes rc, rc_Providers rc))
     | Native env (Inl e) \<Rightarrow> Inl (ProviderErr e)
     | Native env (Inr None) \<Rightarrow> Inl EmptyCatalog
     | Native env (Inr (Some snap)) \<Rightarrow> Inr (snap, native_routes env snap, []))"

text \<open>The target of \<open>fmr/auto\<close>: the first model in name order and its first route.\<close>

definition repick :: "ProviderModelID list \<Rightarrow> Gateway \<Rightarrow> Gateway" where
  "repick ks g =
     (case sort ks of
        [] \<Rightarrow> g\<lparr>gw_autoPick := [], gw_autoRoute := None\<rparr>
      | pick # _ \<Rightarrow> g\<lparr>gw_autoPick := pick,
          gw_autoRoute := (case routes_of (gw_routes g) pick of [] \<Rightarrow> None | r # _ \<Rightarrow> Some r)\<rparr>)"

text \<open>\<open>ks\<close> is the order the snapshot's models are ranged over, \<open>now\<close> the clock of the commit.\<close>

definition RefreshCatalog ::
  "ProviderModelID list \<Rightarrow> time \<Rightarrow> Discovery \<Rightarrow> Gateway \<Rightarrow> gateway_error option \<times> Gateway" where
  "RefreshCatalog ks now d g =
     (case discovered d of
        Inl e \<Rightarrow> (Some e, g)
      | Inr (snap, routes, providers) \<Rightarrow>
          (case snap_Validate snap of
             Some e \<Rightarrow> (Some (CatalogErr (SnapshotInvalid e)), g)
           | None \<Rightarrow>
               (case Reconcile ks (Some (StateSnapshot (gw_pool g))) (Some snap) routes of
                  Inl e \<Rightarrow> (Some (CatalogErr e), g)
                | Inr (candidatePool, _) \<Rightarrow>
                    (case CommitSnapshot now (Some snap) (gw_pool g) of
                       (Inl e, st) \<Rightarrow> (Some (CatalogErr e), g\<lparr>gw_pool := st\<rparr>)
                     | (Inr committed, st) \<Rightarrow>
                         (None, repick ks (rebuildBenchmarkBindings
                            (g\<lparr>gw_pool := ReplaceState (Some candidatePool) st,
                               gw_catalog := Some committed, gw_routes := routes,
                               gw_providers := providers\<rparr>)))))))"

definition newGatewayState :: "FailoverPolicy \<Rightarrow> Gateway" where
  "newGatewayState policy =
     \<lparr>gw_catalog = None, gw_routes = Map.empty, gw_providers = [],
      gw_pool = NewStore (Some (NewPoolState None)), gw_health = health_New,
      gw_latency = NewRegistry, gw_autoPick = [], gw_autoRoute = None,
      gw_failover = policy_normalized policy, gw_benchmarkSnapshot = zeroSnapshot,
      gw_benchmarkBindings = Map.empty,
      gw_benchmarkStatus = \<lparr>bs_State = ''never-fetched'', bs_Source = [], bs_LastAttemptAt = 0,
        bs_LastSuccessAt = 0, bs_RecordCount = 0, bs_ErrorCode = []\<rparr>,
      gw_pinnedModel = []\<rparr>"

definition NewGatewayWithFailoverPolicy ::
  "ProviderModelID list \<Rightarrow> time \<Rightarrow> Discovery option \<Rightarrow> FailoverPolicy \<Rightarrow> gateway_error + Gateway" where
  "NewGatewayWithFailoverPolicy ks now d policy =
     (case d of
        None \<Rightarrow> Inl NilProvider
      | Some d \<Rightarrow>
          (case RefreshCatalog ks now d (newGatewayState policy) of
             (Some e, _) \<Rightarrow> Inl e
           | (None, g) \<Rightarrow> Inr g))"

text \<open>The identifiers \<open>GET /v1/models\<close> lists.\<close>

definition ModelsHandler :: "Gateway \<Rightarrow> gostring list" where
  "ModelsHandler g =
     (if gw_autoPick g \<noteq> [] then [ExternalAutoModel] else []) @
     (case gw_catalog g of
        None \<Rightarrow> []
      | Some cat \<Rightarrow> filter (\<lambda>pid. snap_models cat pid \<noteq> None) (pc_Selected (store_Snapshot (gw_pool g))))"

section \<open>Control operations (control.go)\<close>

record PoolMutation =
  mu_Select :: "ProviderModelID list"
  mu_Deselect :: "ProviderModelID list"
  mu_SelectAll :: bool
  mu_ClearAll :: bool
  mu_Mode :: "PoolMode option"

fun addUniqueIDs_loop :: "ProviderModelID set \<Rightarrow> ProviderModelID list \<Rightarrow> ProviderModelID list \<Rightarrow> ProviderModelID list" where
  "addUniqueIDs_loop seen base [] = base"
| "addUniqueIDs_loop seen base (pid # pids) =
     (if pid \<noteq> [] \<and> pid \<notin> seen then addUniqueIDs_loop (insert pid seen) (base @ [pid]) pids
      else addUniqueIDs_loop seen base pids)"

definition addUniqueIDs :: "ProviderModelID list \<Rightarrow> ProviderModelID list \<Rightarrow> ProviderModelID list" where
  "addUniqueIDs base additions = addUniqueIDs_loop (set base) base additions"

definition removeIDs :: "ProviderModelID list \<Rightarrow> ProviderModelID list \<Rightarrow> ProviderModelID list" where
  "removeIDs base removals =
     (if length removals = 0 then base else filter (\<lambda>pid. pid \<notin> set removals) base)"

text \<open>\<open>pool.Mutate\<close> with a callback that may fail, leaving the pool as it was.\<close>

definition try_mutate :: "(PoolState \<Rightarrow> catalog_error + PoolState) \<Rightarrow> Gateway \<Rightarrow> gateway_error option \<times> Gateway" where
  "try_mutate f g = (case f (so_pool (gw_pool g)) of
       Inl e \<Rightarrow> (Some (CatalogErr e), g)
     | Inr p \<Rightarrow> (None, g\<lparr>gw_pool := Mutate (\<lambda>_. p) (gw_pool g)\<rparr>))"

definition current_pool :: "Gateway \<Rightarrow> ModelPoolConfig" where
  "current_pool g = store_Snapshot (gw_pool g)"

definition drop_stale_pin :: "Gateway \<Rightarrow> Gateway" where
  "drop_stale_pin g =
     (if gw_pinnedModel g \<noteq> [] \<and> \<not> Contains (current_pool g) (gw_pinnedModel g)
      then g\<lparr>gw_pinnedModel := []\<rparr> else g)"

definition apply_mutation ::
  "ProviderModelID list \<Rightarrow> Gateway \<Rightarrow> PoolMutation \<Rightarrow> PoolState \<Rightarrow> catalog_error + PoolState" where
  "apply_mutation ks g mutation p =
     (if mu_SelectAll mutation then Inr (pool_SelectAll ks (gw_catalog g) (gw_routes g) p)
      else if mu_ClearAll mutation then Inr (pool_ClearAll p)
      else let selected = pc_Selected (ps_Config p);
               selected = addUniqueIDs selected (mu_Select mutation);
               selected = removeIDs selected (mu_Deselect mutation);
               m = pc_Mode (ps_Config p);
               m = (if length (mu_Select mutation) > 0 \<or> length (mu_Deselect mutation) > 0
                    then ModeManual else m);
               m = (case mu_Mode mutation of Some m' \<Rightarrow> m' | None \<Rightarrow> m)
           in pool_Replace selected m (Some p))"

definition UpdateModelPool ::
  "ProviderModelID list \<Rightarrow> i64 \<Rightarrow> PoolMutation \<Rightarrow> Gateway \<Rightarrow> (gateway_error + ModelPoolConfig) \<times> Gateway" where
  "UpdateModelPool ks expectedRevision mutation g =
     (if pc_Revision (current_pool g) \<noteq> expectedRevision then (Inl ErrPoolRevisionConflict, g)
      else if mu_SelectAll mutation \<and> mu_ClearAll mutation then (Inl BulkExclusive, g)
      else if (mu_SelectAll mutation \<or> mu_ClearAll mutation) \<and>
        (length (mu_Select mutation) > 0 \<or> length (mu_Deselect mutation) > 0)
      then (Inl BulkWithItems, g)
      else case try_mutate (apply_mutation ks g mutation) g of
        (Some e, g') \<Rightarrow> (Inl e, g')
      | (None, g') \<Rightarrow> let g'' = drop_stale_pin g' in (Inr (current_pool g''), g''))"

definition ReplaceModelPool ::
  "i64 \<Rightarrow> ProviderModelID list \<Rightarrow> PoolMode \<Rightarrow> Gateway \<Rightarrow> (gateway_error + ModelPoolConfig) \<times> Gateway" where
  "ReplaceModelPool expectedRevision selected m g =
     (if pc_Revision (current_pool g) \<noteq> expectedRevision then (Inl ErrPoolRevisionConflict, g)
      else case try_mutate (\<lambda>p. pool_Replace selected m (Some p)) g of
        (Some e, g') \<Rightarrow> (Inl e, g')
      | (None, g') \<Rightarrow> let g'' = drop_stale_pin g' in (Inr (current_pool g''), g''))"

definition bump_revision :: "PoolState \<Rightarrow> PoolState" where
  "bump_revision p = p\<lparr>ps_Config := (ps_Config p)\<lparr>pc_Revision := pc_Revision (ps_Config p) + 1\<rparr>\<rparr>"

definition PinModel ::
  "i64 \<Rightarrow> ProviderModelID \<Rightarrow> Gateway \<Rightarrow> (gateway_error + ModelPoolConfig) \<times> Gateway" where
  "PinModel expectedRevision pid g =
     (case id_Parse pid of
        Inl e \<Rightarrow> (Inl (ErrControlModelInvalid e), g)
      | Inr _ \<Rightarrow>
          if pc_Revision (current_pool g) \<noteq> expectedRevision then (Inl ErrPoolRevisionConflict, g)
          else case gw_catalog g of
            None \<Rightarrow> (Inl ErrControlModelNotFound, g)
          | Some cat \<Rightarrow>
              if snap_models cat pid = None \<or> \<not> Contains (current_pool g) pid
              then (Inl ErrControlModelNotFound, g)
              else let g' = g\<lparr>gw_pinnedModel := pid, gw_pool := Mutate bump_revision (gw_pool g)\<rparr>
                in (Inr (current_pool g'), g'))"

definition AutoSelect ::
  "ProviderModelID list \<Rightarrow> i64 \<Rightarrow> Gateway \<Rightarrow> (gateway_error + ModelPoolConfig) \<times> Gateway" where
  "AutoSelect ks expectedRevision g =
     (if pc_Revision (current_pool g) \<noteq> expectedRevision then (Inl ErrPoolRevisionConflict, g)
      else let g = g\<lparr>gw_pinnedModel := []\<rparr>
        in case try_mutate (\<lambda>p. case gw_catalog g of
               Some _ \<Rightarrow> Inr (pool_SelectAll ks (gw_catalog g) (gw_routes g) p)
             | None \<Rightarrow> pool_Replace (pc_Selected (ps_Config p)) ModeAutomatic (Some p)) g of
          (Some e, g') \<Rightarrow> (Inl e, g')
        | (None, g') \<Rightarrow> (Inr (current_pool g'), g'))"

text \<open>
  \<open>chosen\<close> as a map: the persisted ids, then what the first route with an explicit default says.
  \<open>rks\<close> is the order the routes map is ranged over.
\<close>

definition default_choice :: "ProviderRoute list \<Rightarrow> bool option" where
  "default_choice routes = map_option (\<lambda>r. rt_Enabled r \<and> SelectedByDefault r)
     (List.find (\<lambda>r. rt_DefaultSelected r \<noteq> None) routes)"

fun choose_loop :: "Routes \<Rightarrow> ProviderModelID list \<Rightarrow> (ProviderModelID \<rightharpoonup> bool) \<Rightarrow> (ProviderModelID \<rightharpoonup> bool)" where
  "choose_loop routes [] chosen = chosen"
| "choose_loop routes (pid # rks) chosen =
     choose_loop routes rks
       (case default_choice (routes_of routes pid) of
          None \<Rightarrow> chosen
        | Some b \<Rightarrow> chosen(pid \<mapsto> b))"

definition applyGenericSelectionPolicy ::
  "ProviderModelID list \<Rightarrow> Routes \<Rightarrow> ProviderModelID list \<Rightarrow> ProviderModelID list" where
  "applyGenericSelectionPolicy rks routes selected =
     (let chosen = choose_loop routes rks (\<lambda>pid. if pid \<in> set selected then Some True else None)
      in sort (filter (\<lambda>pid. chosen pid = Some True) (remdups (selected @ rks))))"

definition RestoreControlState ::
  "ProviderModelID list \<Rightarrow> ProviderModelID list \<Rightarrow> PoolMode \<Rightarrow> ProviderModelID \<Rightarrow> Gateway \<Rightarrow>
   gateway_error option \<times> Gateway" where
  "RestoreControlState rks selected m pinned g =
     (let (err, g) =
        (if length selected > 0 \<or> m = ModeManual
         then let poolMode = (if m = ModeOther [] then ModeManual else m);
                  selected = applyGenericSelectionPolicy rks (gw_routes g) selected
              in try_mutate (\<lambda>p. pool_Replace selected poolMode (Some p)) g
         else (None, g))
      in case err of
        Some e \<Rightarrow> (Some e, g)
      | None \<Rightarrow>
          if pinned \<noteq> []
          then (case gw_catalog g of
              None \<Rightarrow> (Some ErrControlModelNotFound, g)
            | Some cat \<Rightarrow>
                if \<not> Contains (current_pool g) pinned then (Some ErrControlModelNotFound, g)
                else if snap_models cat pinned = None then (Some ErrControlModelNotFound, g)
                else (None, g\<lparr>gw_pinnedModel := pinned\<rparr>))
          else (None, g))"

section \<open>Optimistic writes\<close>

text \<open>
  The contract of the control API's writes: an operation applied with the revision the client
  read either succeeds, and then that was the current revision and the state is at the next one,
  or fails and changes nothing. Of any number of writers that read the same revision at most one
  then wins, whatever operations they try and in whatever order they arrive.
\<close>

locale optimistic =
  fixes rev_of :: "'g \<Rightarrow> i64" and put :: "'q \<Rightarrow> i64 \<Rightarrow> 'g \<Rightarrow> ('e + 'r) \<times> 'g"
  assumes put_ok: "put q e g = (Inr r, g') \<Longrightarrow> rev_of g = e \<and> rev_of g' = rev_of g + 1"
    and put_fail: "put q e g = (Inl err, g') \<Longrightarrow> g' = g"
begin

fun wins :: "'q list \<Rightarrow> i64 \<Rightarrow> 'g \<Rightarrow> nat" where
  "wins [] e g = 0"
| "wins (q # qs) e g =
     (case put q e g of
        (Inl _, g') \<Rightarrow> wins qs e g'
      | (Inr _, g') \<Rightarrow> Suc (wins qs e g'))"

lemma writes_stale: "rev_of g \<noteq> e \<Longrightarrow> wins qs e g = 0"
  by (induction qs arbitrary: g) (auto dest: put_ok put_fail split: prod.splits sum.splits)

lemma one_winner: "wins qs e g \<le> 1"
proof (induction qs arbitrary: g)
  case (Cons q qs)
  show ?case
  proof (cases "put q e g")
    case (Pair res g')
    show ?thesis
    proof (cases res)
      case (Inl err)
      with Cons Pair show ?thesis by simp
    next
      case (Inr r)
      with Pair have "rev_of g = e" and "rev_of g' = rev_of g + 1" using put_ok by blast+
      then have "rev_of g' \<noteq> e" by simp
      with Pair Inr show ?thesis by (simp add: writes_stale)
    qed
  qed
qed simp

end

datatype ControlOp =
    CtlUpdate "ProviderModelID list" PoolMutation
  | CtlReplace "ProviderModelID list" PoolMode
  | CtlPin ProviderModelID
  | CtlAuto "ProviderModelID list"

fun apply_control :: "ControlOp \<Rightarrow> i64 \<Rightarrow> Gateway \<Rightarrow> (gateway_error + ModelPoolConfig) \<times> Gateway" where
  "apply_control (CtlUpdate ks m) e g = UpdateModelPool ks e m g"
| "apply_control (CtlReplace selected m) e g = ReplaceModelPool e selected m g"
| "apply_control (CtlPin pid) e g = PinModel e pid g"
| "apply_control (CtlAuto ks) e g = AutoSelect ks e g"

subsection \<open>Lemmas\<close>

lemma current_pool_simp: "current_pool g = ps_Config (so_pool (gw_pool g))"
  by (simp add: current_pool_def)

lemma drop_stale_pin_sel [simp]:
  "gw_pool (drop_stale_pin g) = gw_pool g" "gw_catalog (drop_stale_pin g) = gw_catalog g"
  "gw_routes (drop_stale_pin g) = gw_routes g"
  "gw_benchmarkSnapshot (drop_stale_pin g) = gw_benchmarkSnapshot g"
  "gw_benchmarkBindings (drop_stale_pin g) = gw_benchmarkBindings g"
  "gw_autoPick (drop_stale_pin g) = gw_autoPick g"
  by (simp_all add: drop_stale_pin_def)

lemma pool_Replace_InrD:
  "pool_Replace selected m (Some p) = Inr p' \<Longrightarrow>
     pc_Selected (ps_Config p') = selected \<and> pc_Revision (ps_Config p') = pc_Revision (ps_Config p) + 1"
  by (auto simp: pool_Replace_def Let_def split: if_splits)

lemma pool_SelectAll_rev: "pc_Revision (ps_Config (pool_SelectAll ks cat routes p)) = pc_Revision (ps_Config p) + 1"
  using apply_op_revision [of "OpSelectAll ks cat routes"] by simp

lemma apply_mutation_rev:
  "apply_mutation ks g m p = Inr p' \<Longrightarrow> pc_Revision (ps_Config p') = pc_Revision (ps_Config p) + 1"
  by (auto simp: apply_mutation_def pool_SelectAll_rev pool_ClearAll_def Let_def split: if_splits
      dest!: pool_Replace_InrD)

text \<open>What a control operation returns: nothing changed, or one edit of the pool and its effect on the pin.\<close>

definition set_pool :: "PoolState \<Rightarrow> Gateway \<Rightarrow> Gateway" where
  "set_pool p g = g\<lparr>gw_pool := (gw_pool g)\<lparr>so_pool := p\<rparr>\<rparr>"

lemma set_pool_sel [simp]:
  "current_pool (set_pool p g) = ps_Config p" "gw_catalog (set_pool p g) = gw_catalog g"
  "gw_routes (set_pool p g) = gw_routes g" "gw_pinnedModel (set_pool p g) = gw_pinnedModel g"
  "gw_benchmarkSnapshot (set_pool p g) = gw_benchmarkSnapshot g"
  "gw_benchmarkBindings (set_pool p g) = gw_benchmarkBindings g"
  "gw_autoPick (set_pool p g) = gw_autoPick g"
  "so_catalog (gw_pool (set_pool p g)) = so_catalog (gw_pool g)"
  "so_pool (gw_pool (set_pool p g)) = p"
  by (simp_all add: set_pool_def current_pool_simp)

lemma current_pool_drop [simp]: "current_pool (drop_stale_pin g) = current_pool g"
  by (simp add: current_pool_simp)

lemma try_mutate_eq:
  "try_mutate f g = (case f (so_pool (gw_pool g)) of
     Inl e \<Rightarrow> (Some (CatalogErr e), g) | Inr p \<Rightarrow> (None, set_pool p g))"
  by (simp add: try_mutate_def Mutate_def set_pool_def split: sum.split)

lemma UpdateModelPool_result:
  assumes "UpdateModelPool ks e m g = (res, g')"
  shows "(\<exists>err. res = Inl err \<and> g' = g) \<or>
    (\<exists>p. pc_Revision (current_pool g) = e \<and> apply_mutation ks g m (so_pool (gw_pool g)) = Inr p \<and>
       g' = drop_stale_pin (set_pool p g) \<and> res = Inr (ps_Config p))"
  using assms unfolding UpdateModelPool_def try_mutate_eq Let_def
  by (cases "apply_mutation ks g m (so_pool (gw_pool g))") (auto split: if_splits)

lemma ReplaceModelPool_result:
  assumes "ReplaceModelPool e selected m g = (res, g')"
  shows "(\<exists>err. res = Inl err \<and> g' = g) \<or>
    (\<exists>p. pc_Revision (current_pool g) = e \<and> pool_Replace selected m (Some (so_pool (gw_pool g))) = Inr p \<and>
       g' = drop_stale_pin (set_pool p g) \<and> res = Inr (ps_Config p))"
  using assms unfolding ReplaceModelPool_def try_mutate_eq Let_def
  by (cases "pool_Replace selected m (Some (so_pool (gw_pool g)))") (auto split: if_splits)

lemma PinModel_result:
  assumes "PinModel e pid g = (res, g')"
  shows "(\<exists>err. res = Inl err \<and> g' = g) \<or>
    (pc_Revision (current_pool g) = e \<and> catalog_lookup (gw_catalog g) pid \<noteq> None \<and>
       pid \<in> set (pc_Selected (current_pool g)) \<and>
       g' = set_pool (bump_revision (so_pool (gw_pool g))) (g\<lparr>gw_pinnedModel := pid\<rparr>) \<and>
       res = Inr (current_pool g'))"
proof (cases "gw_catalog g")
  case None
  with assms show ?thesis by (auto simp: PinModel_def split: sum.splits if_splits)
next
  case (Some cat)
  have eq: "g\<lparr>gw_pinnedModel := pid, gw_pool := Mutate bump_revision (gw_pool g)\<rparr> =
      set_pool (bump_revision (so_pool (gw_pool g))) (g\<lparr>gw_pinnedModel := pid\<rparr>)"
    by (simp add: set_pool_def Mutate_def)
  from assms Some show ?thesis
    unfolding PinModel_def Let_def eq
    by (cases "id_Parse pid") (auto simp: catalog_lookup_def split: if_splits)
qed

lemma AutoSelect_result:
  assumes "AutoSelect ks e g = (res, g')"
  shows "(\<exists>err. res = Inl err \<and> g' = g) \<or>
    (\<exists>p. pc_Revision (current_pool g) = e \<and> pc_Revision (ps_Config p) = pc_Revision (current_pool g) + 1 \<and>
       g' = set_pool p (g\<lparr>gw_pinnedModel := []\<rparr>) \<and> res = Inr (ps_Config p))"
proof (cases "pc_Revision (current_pool g) = e")
  case False
  with assms show ?thesis by (auto simp: AutoSelect_def)
next
  case True
  let ?f = "\<lambda>p. case gw_catalog g of
      Some _ \<Rightarrow> Inr (pool_SelectAll ks (gw_catalog g) (gw_routes g) p)
    | None \<Rightarrow> pool_Replace (pc_Selected (ps_Config p)) ModeAutomatic (Some p)"
  have "\<exists>p. ?f (so_pool (gw_pool g)) = Inr p"
    by (cases "gw_catalog g") (simp_all add: pool_Replace_def)
  then obtain p where p: "?f (so_pool (gw_pool g)) = Inr p" ..
  then have "pc_Revision (ps_Config p) = pc_Revision (current_pool g) + 1"
    by (cases "gw_catalog g") (auto simp: current_pool_simp pool_SelectAll_rev dest: pool_Replace_InrD)
  with assms True p show ?thesis
    by (cases "gw_catalog g") (auto simp: AutoSelect_def try_mutate_eq Let_def)
qed

lemmas control_results = UpdateModelPool_result ReplaceModelPool_result PinModel_result AutoSelect_result

interpretation control: optimistic "\<lambda>g. pc_Revision (current_pool g)" apply_control
proof
  fix q e g r g'
  assume "apply_control q e g = (Inr r, g')"
  then show "pc_Revision (current_pool g) = e \<and> pc_Revision (current_pool g') = pc_Revision (current_pool g) + 1"
    by (cases q)
       (auto simp: bump_revision_def current_pool_simp
        dest!: control_results apply_mutation_rev pool_Replace_InrD)
next
  fix q e g err g'
  assume "apply_control q e g = (Inl err, g')"
  then show "g' = g"
    by (cases q) (auto dest!: control_results)
qed

section \<open>The gateway's invariant\<close>

text \<open>
  In every state the gateway can reach: a pinned model is selected; the catalog it serves is the
  store's latest; the benchmark bindings are those of the current catalog and snapshot; the
  automatic pick is the first model of the catalog by name.
\<close>

definition pick_ok :: "CatalogSnapshot option \<Rightarrow> ProviderModelID \<Rightarrow> bool" where
  "pick_ok catalog pick = (case catalog of
       None \<Rightarrow> pick = []
     | Some cat \<Rightarrow> if dom (snap_models cat) = {} then pick = []
         else snap_models cat pick \<noteq> None \<and> (\<forall>pid. snap_models cat pid \<noteq> None \<longrightarrow> pick \<le> pid))"

definition gateway_inv :: "Gateway \<Rightarrow> bool" where
  "gateway_inv g \<longleftrightarrow>
     (gw_pinnedModel g \<noteq> [] \<longrightarrow> gw_pinnedModel g \<in> set (pc_Selected (current_pool g))) \<and>
     so_catalog (gw_pool g) = gw_catalog g \<and>
     gw_benchmarkBindings g = bindings_for (gw_catalog g) (gw_benchmarkSnapshot g) \<and>
     pick_ok (gw_catalog g) (gw_autoPick g)"

text \<open>\<open>ks\<close> is an order in which the discovered snapshot, if any, can be ranged over.\<close>

definition refresh_order :: "Discovery \<Rightarrow> ProviderModelID list \<Rightarrow> bool" where
  "refresh_order d ks = (case discovered d of Inl _ \<Rightarrow> True | Inr (snap, _) \<Rightarrow> snap_order ks snap)"

lemma refresh_orderD: "refresh_order d ks \<Longrightarrow> discovered d = Inr (snap, r) \<Longrightarrow> snap_order ks snap"
  by (simp add: refresh_order_def)

inductive gateway_step :: "Gateway \<Rightarrow> Gateway \<Rightarrow> bool" where
  refresh: "refresh_order d ks \<Longrightarrow>
    gateway_step g (snd (RefreshCatalog ks now d g))"
| control_op: "gateway_step g (snd (apply_control op e g))"
| restore: "gw_pinnedModel g = [] \<Longrightarrow>
    gateway_step g (snd (RestoreControlState rks selected m pinned g))"
| set_benchmarks: "gateway_step g (snd (SetBenchmarkSnapshot ks snapshot g))"
| resolve: "gateway_step g (snd (ResolveBenchmarkSnapshot order resolution g))"
| fetching: "gateway_step g (MarkBenchmarkFetching now g)"
| fetch_failed: "gateway_step g (MarkBenchmarkFailure now code g)"
| fetched: "gateway_step g (SetBenchmarkSource source now g)"
| traffic: "gateway_step g (g\<lparr>gw_health := h, gw_latency := l\<rparr>)"

inductive gateway_reachable :: "Gateway \<Rightarrow> bool" where
  new: "refresh_order d ks \<Longrightarrow>
    NewGatewayWithFailoverPolicy ks now (Some d) policy = Inr g \<Longrightarrow> gateway_reachable g"
| step: "gateway_reachable g \<Longrightarrow> gateway_step g g' \<Longrightarrow> gateway_reachable g'"


lemma rebuild_sel [simp]:
  "gw_pool (rebuildBenchmarkBindings g) = gw_pool g" "gw_catalog (rebuildBenchmarkBindings g) = gw_catalog g"
  "gw_routes (rebuildBenchmarkBindings g) = gw_routes g"
  "gw_pinnedModel (rebuildBenchmarkBindings g) = gw_pinnedModel g"
  "gw_autoPick (rebuildBenchmarkBindings g) = gw_autoPick g"
  "gw_benchmarkSnapshot (rebuildBenchmarkBindings g) = gw_benchmarkSnapshot g"
  "gw_benchmarkBindings (rebuildBenchmarkBindings g) = bindings_for (gw_catalog g) (gw_benchmarkSnapshot g)"
  by (simp_all add: rebuildBenchmarkBindings_def)

text \<open>An update of the pool or the pin keeps the parts of the invariant that do not mention them.\<close>

lemma gateway_inv_pool:
  assumes "gateway_inv g"
    and "gw_pinnedModel g' \<noteq> [] \<longrightarrow> gw_pinnedModel g' \<in> set (pc_Selected (current_pool g'))"
    and "gw_catalog g' = gw_catalog g" and "so_catalog (gw_pool g') = so_catalog (gw_pool g)"
    and "gw_benchmarkSnapshot g' = gw_benchmarkSnapshot g"
    and "gw_benchmarkBindings g' = gw_benchmarkBindings g" and "gw_autoPick g' = gw_autoPick g"
  shows "gateway_inv g'"
  using assms by (simp add: gateway_inv_def)

lemma drop_stale_pin_ok:
  "gw_pinnedModel (drop_stale_pin g) \<noteq> [] \<longrightarrow>
     gw_pinnedModel (drop_stale_pin g) \<in> set (pc_Selected (current_pool (drop_stale_pin g)))"
  by (simp add: drop_stale_pin_def current_pool_simp)

lemma apply_control_inv [inv_intros]:
  assumes "gateway_inv g"
  shows "gateway_inv (snd (apply_control op e g))"
proof (cases "apply_control op e g")
  case (Pair res g')
  have drop: "gateway_inv (drop_stale_pin (set_pool p g))" for p
    using assms by (rule gateway_inv_pool) (simp_all add: drop_stale_pin_ok del: current_pool_drop)
  have pin: "gateway_inv (set_pool (bump_revision (so_pool (gw_pool g))) (g\<lparr>gw_pinnedModel := pid\<rparr>))"
    if "pid \<in> set (pc_Selected (current_pool g))" for pid
    using assms by (rule gateway_inv_pool) (use that in \<open>simp_all add: bump_revision_def current_pool_simp\<close>)
  have auto: "gateway_inv (set_pool p (g\<lparr>gw_pinnedModel := []\<rparr>))" for p
    using assms by (rule gateway_inv_pool) simp_all
  from Pair show ?thesis
    by (cases op) (auto simp: assms drop pin auto dest!: control_results)
qed

lemma repick_sel [simp]:
  "gw_pool (repick ks g) = gw_pool g" "gw_catalog (repick ks g) = gw_catalog g"
  "gw_pinnedModel (repick ks g) = gw_pinnedModel g"
  "gw_benchmarkSnapshot (repick ks g) = gw_benchmarkSnapshot g"
  "gw_benchmarkBindings (repick ks g) = gw_benchmarkBindings g"
  by (simp_all add: repick_def split: list.split)

lemma repick_ok:
  assumes "gw_catalog g = Some cat" and "iter_order ks (snap_models cat)"
  shows "pick_ok (Some cat) (gw_autoPick (repick ks g))"
proof (cases "sort ks")
  case Nil
  then have "ks = []" by (metis set_empty2 set_sort)
  then have "dom (snap_models cat) = {}" using assms(2) by (simp add: iter_order_def)
  with Nil assms(1) show ?thesis by (simp add: pick_ok_def repick_def)
next
  case (Cons pick rest)
  then have "sorted (pick # rest)" and "set (pick # rest) = set ks"
    by (metis sorted_sort, metis set_sort)
  then have "pick \<in> set ks" and "\<forall>pid \<in> set ks. pick \<le> pid" by auto
  moreover have "set ks = dom (snap_models cat)" using assms(2) by (simp add: iter_order_def)
  ultimately show ?thesis
    using assms(1) Cons by (auto simp: pick_ok_def repick_def)
qed

text \<open>What a refresh does: nothing on an error, else the new catalog with everything derived from it.\<close>

lemma RefreshCatalog_result:
  assumes "RefreshCatalog ks now d g = (err, g')"
  shows "(\<exists>e. err = Some e \<and> g' = g) \<or>
    (\<exists>snap routes ps p res committed st.
       discovered d = Inr (snap, routes, ps) \<and>
       Reconcile ks (Some (so_pool (gw_pool g))) (Some snap) routes = Inr (p, res) \<and>
       CommitSnapshot now (Some snap) (gw_pool g) = (Inr committed, st) \<and>
       err = None \<and>
       g' = repick ks (rebuildBenchmarkBindings (g\<lparr>gw_pool := st\<lparr>so_pool := p\<rparr>,
              gw_catalog := Some committed, gw_routes := routes, gw_providers := ps\<rparr>)))"
proof (cases "discovered d")
  case (Inl e)
  with assms show ?thesis by (auto simp: RefreshCatalog_def)
next
  case (Inr r)
  obtain snap routes ps where r: "r = (snap, routes, ps)" by (cases r)
  have commit_err: "st = gw_pool g" if "CommitSnapshot now (Some snap) (gw_pool g) = (Inl e, st)" for e st
    using that by (auto simp: CommitSnapshot_def Let_def split: option.splits)
  from assms show ?thesis
    unfolding RefreshCatalog_def Inr r ReplaceState_def
    by (auto simp: split: option.splits sum.splits prod.splits dest!: commit_err)
qed

lemma CommitSnapshot_InrD:
  assumes "CommitSnapshot now (Some snap) st = (Inr committed, st')"
  shows "so_catalog st' = Some committed" and "snap_models committed = snap_models snap"
    and "so_pool st' = so_pool st" and "cs_Revision committed = so_snapshotRevision st + 1"
  using assms
  by (auto simp: CommitSnapshot_def snap_models_def Let_def split: option.splits if_splits)

lemma RefreshCatalog_inv:
  assumes "gateway_inv g" and "refresh_order d ks"
  shows "gateway_inv (snd (RefreshCatalog ks now d g))"
proof (cases "RefreshCatalog ks now d g")
  case (Pair err g')
  from RefreshCatalog_result [OF this] show ?thesis
  proof (elim disjE exE conjE)
    assume "g' = g"
    with Pair assms(1) show ?thesis by simp
  next
    fix snap routes ps p res committed st
    assume d: "discovered d = Inr (snap, routes, ps)"
      and r: "Reconcile ks (Some (so_pool (gw_pool g))) (Some snap) routes = Inr (p, res)"
      and c: "CommitSnapshot now (Some snap) (gw_pool g) = (Inr committed, st)"
      and g': "g' = repick ks (rebuildBenchmarkBindings (g\<lparr>gw_pool := st\<lparr>so_pool := p\<rparr>,
              gw_catalog := Some committed, gw_routes := routes, gw_providers := ps\<rparr>))"
    have "pick_ok (Some committed) (gw_autoPick g')"
      unfolding g' using refresh_orderD [OF assms(2) d] CommitSnapshot_InrD(2) [OF c]
      by (intro repick_ok) (auto simp: snap_order_def)
    moreover have "pc_Selected (ps_Config p) = pc_Selected (current_pool g) @ rr_Added res"
      using Reconcile_InrD(1) [OF r refresh_orderD [OF assms(2) d]] by (simp add: current_pool_simp)
    ultimately show ?thesis
      using assms(1) CommitSnapshot_InrD(1) [OF c] Pair
      by (auto simp: gateway_inv_def g' current_pool_simp)
  qed
qed

lemma RestoreControlState_inv:
  assumes "gateway_inv g" and "gw_pinnedModel g = []"
  shows "gateway_inv (snd (RestoreControlState rks selected m pinned g))"
proof -
  have pool: "gateway_inv (set_pool p g)" for p
    using assms(1) by (rule gateway_inv_pool) (simp_all add: assms(2))
  have pin: "gateway_inv (h\<lparr>gw_pinnedModel := pinned\<rparr>)"
    if "gateway_inv h" "pinned \<in> set (pc_Selected (current_pool h))" for h
    using that(1) by (rule gateway_inv_pool) (use that(2) in \<open>simp_all add: current_pool_simp\<close>)
  show ?thesis
    by (auto simp: RestoreControlState_def try_mutate_eq Let_def pool assms(1) intro: pin
        split: sum.splits option.splits)
qed

lemma gateway_inv_bench:
  assumes "gateway_inv g" and "snd (SetBenchmarkSnapshot ks snapshot g) = g'"
  shows "gateway_inv g'"
proof -
  have "gateway_inv (rebuildBenchmarkBindings (g\<lparr>gw_benchmarkSnapshot := snapshot\<rparr>))"
    using assms(1) by (simp add: gateway_inv_def current_pool_simp)
  with assms show ?thesis by (auto simp: SetBenchmarkSnapshot_def split: option.splits)
qed

lemma clearBenchmarkSnapshot_inv: "gateway_inv g \<Longrightarrow> gateway_inv (clearBenchmarkSnapshot g)"
proof -
  have "bindings_for cat zeroSnapshot = Map.empty" for cat
    by (simp add: bindings_for_def zeroSnapshot_def split: option.split)
  then show "gateway_inv g \<Longrightarrow> gateway_inv (clearBenchmarkSnapshot g)"
    by (simp add: gateway_inv_def clearBenchmarkSnapshot_def current_pool_simp)
qed

lemma gateway_inv_other:
  assumes "gateway_inv g"
  shows "gateway_inv (MarkBenchmarkFetching now g)" and "gateway_inv (MarkBenchmarkFailure now code g)"
    and "gateway_inv (SetBenchmarkSource source now g)" and "gateway_inv (g\<lparr>gw_health := h, gw_latency := l\<rparr>)"
  using assms by (simp_all add: gateway_inv_def MarkBenchmarkFetching_def MarkBenchmarkFailure_def
      SetBenchmarkSource_def current_pool_simp)

lemma ResolveBenchmarkSnapshot_inv:
  assumes "gateway_inv g"
  shows "gateway_inv (snd (ResolveBenchmarkSnapshot order resolution g))"
  using gateway_inv_bench [OF assms] clearBenchmarkSnapshot_inv [OF assms]
  by (auto simp: ResolveBenchmarkSnapshot_def split: prod.splits option.splits) (metis snd_conv)+

lemma gateway_step_inv: "gateway_step g g' \<Longrightarrow> gateway_inv g \<Longrightarrow> gateway_inv g'"
proof (induction rule: gateway_step.induct)
  case (refresh d ks g now)
  then show ?case by (intro RefreshCatalog_inv)
next
  case (set_benchmarks g ks snapshot)
  then show ?case using gateway_inv_bench by blast
qed (simp_all add: apply_control_inv RestoreControlState_inv ResolveBenchmarkSnapshot_inv gateway_inv_other)

lemma newGatewayState_inv: "gateway_inv (newGatewayState policy)"
  by (simp add: gateway_inv_def newGatewayState_def NewStore_def bindings_for_def pick_ok_def)

lemma gateway_reachable_inv: "gateway_reachable g \<Longrightarrow> gateway_inv g"
proof (induction rule: gateway_reachable.induct)
  case (new d ks now policy g)
  then have "snd (RefreshCatalog ks now d (newGatewayState policy)) = g"
    by (auto simp: NewGatewayWithFailoverPolicy_def split: prod.splits option.splits)
  with new(1) RefreshCatalog_inv [OF newGatewayState_inv, of d ks now policy] show ?case by auto
next
  case (step g g')
  then show ?case using gateway_step_inv by blast
qed

section \<open>Ranking\<close>

lemma mset_map_filter: "mset xs = mset ys \<Longrightarrow> mset (List.map_filter f xs) = mset (List.map_filter f ys)"
  unfolding List.map_filter_def by (metis mset_filter mset_map)

lemma rankCandidates_perm [simp]: "mset (rankCandidates g now cs) = mset cs"
  by (simp add: rankCandidates_def Let_def)

lemma set_rankCandidates [simp]: "set (rankCandidates g now cs) = set cs"
  using rankCandidates_perm by (rule mset_eq_setD)

lemma candidate_score_perm:
  "mset cs = mset ds \<Longrightarrow> candidate_score g now (fresh_latencies g now cs) = candidate_score g now (fresh_latencies g now ds)"
  using Percentile_perm [OF mset_map_filter, of cs ds]
  by (auto simp: candidate_score_def fresh_latencies_def Let_def fun_eq_iff split: option.split)

lemma list_ex_mset: "mset xs = mset ys \<Longrightarrow> list_ex P xs = list_ex P ys"
  by (metis list_ex_iff mset_eq_setD)

lemma rankCandidates_cong:
  assumes "mset cs = mset ds" and "inj_on cand_id (set cs)"
  shows "rankCandidates g now cs = rankCandidates g now ds"
proof -
  have "gw_hasPerformanceData g cs = gw_hasPerformanceData g ds"
    unfolding gw_hasPerformanceData_def using assms(1) by (rule list_ex_mset)
  moreover have "RankWithScore cs t s = RankWithScore ds t s" for t s
    unfolding RankWithScore_def using assms by (rule rank.sort_stable_cong)
  ultimately show ?thesis
    using candidate_score_perm [OF assms(1)] by (simp add: rankCandidates_def Rank_def Let_def)
qed

section \<open>Properties\<close>

text \<open>C1: in every state reachable through refreshes, control operations, benchmark updates and
  traffic, in any order: a pinned model is always a selected one, the served catalog is the store's
  latest, the benchmark bindings are exactly those of the current catalog and benchmark snapshot, and
  the automatic pick is the first model of the catalog by name.\<close>

theorem gateway_invariant:
  assumes "gateway_reachable g"
  shows "(gw_pinnedModel g \<noteq> [] \<longrightarrow> gw_pinnedModel g \<in> set (pc_Selected (current_pool g))) \<and>
    store_CatalogSnapshot (gw_pool g) = gw_catalog g \<and>
    rebuildBenchmarkBindings g = g \<and> pick_ok (gw_catalog g) (gw_autoPick g)"
  using gateway_reachable_inv [OF assms]
  by (cases g) (auto simp: gateway_inv_def rebuildBenchmarkBindings_def store_CatalogSnapshot_def)

definition sample_discovery :: Discovery where
  "sample_discovery = Routed (Inr (Some \<lparr>rc_Snapshot = Some (sample_snap [''p/a'', ''p/b'']),
     rc_Routes = [''p/a'' \<mapsto> [sample_route ''p::a'' ''p/a'' AccessFree],
                  ''p/b'' \<mapsto> [sample_route ''p::b'' ''p/b'' AccessPaid]],
     rc_Providers = []\<rparr>))"

definition sample_policy :: FailoverPolicy where
  "sample_policy = \<lparr>fp_MaxAttempts = 4, fp_Budget = 30 * Second\<rparr>"

definition sample_gateway :: Gateway where
  "sample_gateway = snd (RefreshCatalog [''p/b'', ''p/a''] 7 sample_discovery (newGatewayState sample_policy))"

lemma sample_refresh_order: "refresh_order sample_discovery [''p/b'', ''p/a'']"
  using sample_order [of "[''p/a'', ''p/b'']"]
  by (simp add: refresh_order_def discovered_def sample_discovery_def snap_order_def iter_order_def
      insert_commute)

lemma sample_refresh:
  "RefreshCatalog [''p/b'', ''p/a''] 7 sample_discovery (newGatewayState sample_policy) = (None, sample_gateway)"
proof -
  have "discovered sample_discovery = Inr (sample_snap [''p/a'', ''p/b''],
      [''p/a'' \<mapsto> [sample_route ''p::a'' ''p/a'' AccessFree], ''p/b'' \<mapsto> [sample_route ''p::b'' ''p/b'' AccessPaid]], [])"
    by (simp add: discovered_def sample_discovery_def)
  moreover have "snap_Validate (sample_snap pids) = None" for pids
    by (simp add: snap_Validate_def sample_snap_def)
  ultimately have "fst (RefreshCatalog [''p/b'', ''p/a''] 7 sample_discovery (newGatewayState sample_policy)) = None"
    by (simp add: RefreshCatalog_def Reconcile_def CommitSnapshot_def Let_def case_prod_beta)
  then show ?thesis by (simp add: sample_gateway_def prod_eq_iff)
qed

lemma sample_reachable: "gateway_reachable sample_gateway"
proof (rule gateway_reachable.new [OF sample_refresh_order])
  show "NewGatewayWithFailoverPolicy [''p/b'', ''p/a''] 7 (Some sample_discovery) sample_policy = Inr sample_gateway"
    unfolding NewGatewayWithFailoverPolicy_def option.case sample_refresh prod.case ..
qed

theorem gateway_invariant_witness: "rebuildBenchmarkBindings sample_gateway = sample_gateway"
  using gateway_invariant [OF sample_reachable] by blast

text \<open>C29: a refresh that fails leaves the gateway exactly as it was; one that succeeds keeps every
  selected model selected, keeps the pin, the health and latency of the routes, the failover policy and
  the benchmark data, serves the discovered models under the store's next revision, routes by the
  discovered routes and reports the discovered availability of the providers.\<close>

theorem RefreshCatalog_atomic:
  assumes "refresh_order d ks"
  shows "case RefreshCatalog ks now d g of
     (Some e, g') \<Rightarrow> g' = g
   | (None, g') \<Rightarrow> \<exists>snap routes ps cat. discovered d = Inr (snap, routes, ps) \<and>
       gw_catalog g' = Some cat \<and> snap_models cat = snap_models snap \<and>
       cs_Revision cat = so_snapshotRevision (gw_pool g) + 1 \<and> gw_routes g' = routes \<and> gw_providers g' = ps \<and>
       (\<exists>added. pc_Selected (current_pool g') = pc_Selected (current_pool g) @ added) \<and>
       gw_pinnedModel g' = gw_pinnedModel g \<and> gw_health g' = gw_health g \<and> gw_latency g' = gw_latency g \<and>
       gw_failover g' = gw_failover g \<and> gw_benchmarkSnapshot g' = gw_benchmarkSnapshot g \<and>
       gw_benchmarkStatus g' = gw_benchmarkStatus g"
proof (cases "RefreshCatalog ks now d g")
  case (Pair err g')
  have kept: "gw_routes (repick ks h) = gw_routes h" "gw_providers (repick ks h) = gw_providers h"
    "gw_health (repick ks h) = gw_health h" "gw_latency (repick ks h) = gw_latency h"
    "gw_failover (repick ks h) = gw_failover h" "gw_benchmarkSnapshot (repick ks h) = gw_benchmarkSnapshot h"
    "gw_benchmarkStatus (repick ks h) = gw_benchmarkStatus h" for h
    by (simp_all add: repick_def split: list.split)
  have bound: "gw_providers (rebuildBenchmarkBindings h) = gw_providers h"
    "gw_health (rebuildBenchmarkBindings h) = gw_health h" "gw_latency (rebuildBenchmarkBindings h) = gw_latency h"
    "gw_failover (rebuildBenchmarkBindings h) = gw_failover h"
    "gw_benchmarkSnapshot (rebuildBenchmarkBindings h) = gw_benchmarkSnapshot h"
    "gw_benchmarkStatus (rebuildBenchmarkBindings h) = gw_benchmarkStatus h" for h
    by (simp_all add: rebuildBenchmarkBindings_def)
  from RefreshCatalog_result [OF Pair] show ?thesis
  proof (elim disjE exE conjE)
    fix snap routes ps p res committed st
    assume d: "discovered d = Inr (snap, routes, ps)"
      and r: "Reconcile ks (Some (so_pool (gw_pool g))) (Some snap) routes = Inr (p, res)"
      and c: "CommitSnapshot now (Some snap) (gw_pool g) = (Inr committed, st)"
      and err: "err = None"
      and g': "g' = repick ks (rebuildBenchmarkBindings (g\<lparr>gw_pool := st\<lparr>so_pool := p\<rparr>,
              gw_catalog := Some committed, gw_routes := routes, gw_providers := ps\<rparr>))"
    have "pc_Selected (current_pool g') = pc_Selected (current_pool g) @ rr_Added res"
      using Reconcile_InrD(1) [OF r refresh_orderD [OF assms d]] by (simp add: g' current_pool_simp)
    then show ?thesis
      using d CommitSnapshot_InrD [OF c] unfolding Pair err by (simp add: g' kept bound)
  qed (simp add: Pair)
qed

theorem RefreshCatalog_atomic_witness:
  "\<exists>cat. gw_catalog sample_gateway = Some cat \<and> cs_Revision cat = so_snapshotRevision (gw_pool (newGatewayState sample_policy)) + 1"
  using RefreshCatalog_atomic [where d = sample_discovery and ks = "[''p/b'', ''p/a'']" and now = 7
      and g = "newGatewayState sample_policy", OF sample_refresh_order]
  unfolding sample_refresh prod.case option.case by blast

text \<open>Writers that arrive one after the other, all with the revision \<open>e\<close> they read before.\<close>

fun run_controls :: "ControlOp list \<Rightarrow> i64 \<Rightarrow> Gateway \<Rightarrow> (gateway_error + ModelPoolConfig) list \<times> Gateway" where
  "run_controls [] e g = ([], g)"
| "run_controls (op # ops) e g =
     (let r = apply_control op e g; rest = run_controls ops e (snd r) in (fst r # fst rest, snd rest))"

definition succeeded :: "'e + 'a \<Rightarrow> bool" where
  "succeeded r = (case r of Inl _ \<Rightarrow> False | Inr _ \<Rightarrow> True)"

lemma run_controls_wins: "length (filter succeeded (fst (run_controls ops e g))) = control.wins ops e g"
  by (induction ops arbitrary: g) (auto simp: succeeded_def Let_def split: prod.splits sum.splits)

lemma run_controls_none:
  "filter succeeded (fst (run_controls ops e g)) = [] \<Longrightarrow> snd (run_controls ops e g) = g"
proof (induction ops arbitrary: g)
  case (Cons op ops)
  obtain res g' where r: "apply_control op e g = (res, g')"
    by (cases "apply_control op e g")
  with Cons.prems obtain err where "res = Inl err"
    by (cases res) (auto simp: succeeded_def Let_def)
  with r have "g' = g" using control.put_fail by blast
  with Cons r show ?case by (auto simp: Let_def split: if_splits)
qed simp

text \<open>A write from another revision: refused as a conflict, or before that for a malformed model.\<close>

lemma control_stale:
  assumes "e \<noteq> pc_Revision (current_pool g)"
  shows "\<exists>err. apply_control op e g = (Inl err, g) \<and> (err = ErrPoolRevisionConflict \<or> (\<exists>m. err = ErrControlModelInvalid m))"
  using assms
  by (cases op) (auto simp: UpdateModelPool_def ReplaceModelPool_def PinModel_def AutoSelect_def split: sum.split)

text \<open>C30: a control write that carries another revision than the current one is refused and leaves the
  gateway as it is, one that succeeds carried the current revision and moves it by one, so that every
  other write from the same revision is refused from then on: a client that read an older state never
  overwrites a newer one. Of any sequence of writes that carry the same revision at most one succeeds,
  and if none does the gateway is as it was.\<close>

theorem control_single_winner:
  "(e \<noteq> pc_Revision (current_pool g) \<longrightarrow> (\<exists>err. apply_control op e g = (Inl err, g) \<and>
      (err = ErrPoolRevisionConflict \<or> (\<exists>m. err = ErrControlModelInvalid m)))) \<and>
   (case apply_control op e g of
      (Inl _, g') \<Rightarrow> g' = g
    | (Inr cfg, g') \<Rightarrow> e = pc_Revision (current_pool g) \<and> cfg = current_pool g' \<and> pc_Revision cfg = e + 1 \<and>
        (\<forall>op'. \<exists>err. apply_control op' e g' = (Inl err, g'))) \<and>
   length (filter succeeded (fst (run_controls ops e g))) \<le> 1 \<and>
   (filter succeeded (fst (run_controls ops e g)) = [] \<longrightarrow> snd (run_controls ops e g) = g)"
proof (intro conjI impI)
  show "\<exists>err. apply_control op e g = (Inl err, g) \<and> (err = ErrPoolRevisionConflict \<or> (\<exists>m. err = ErrControlModelInvalid m))"
    if "e \<noteq> pc_Revision (current_pool g)"
    by (rule control_stale [OF that])
  show "case apply_control op e g of
      (Inl _, g') \<Rightarrow> g' = g
    | (Inr cfg, g') \<Rightarrow> e = pc_Revision (current_pool g) \<and> cfg = current_pool g' \<and> pc_Revision cfg = e + 1 \<and>
        (\<forall>op'. \<exists>err. apply_control op' e g' = (Inl err, g'))"
  proof (cases "apply_control op e g")
    case (Pair res g')
    show ?thesis
    proof (cases res)
      case (Inl err)
      with Pair control.put_fail show ?thesis by fastforce
    next
      case (Inr cfg)
      note won = Pair [unfolded Inr]
      have cfg: "cfg = current_pool g'" using won by (cases op) (auto dest!: control_results)
      have rev: "pc_Revision (current_pool g) = e" "pc_Revision (current_pool g') = e + 1"
        using control.put_ok [OF won] by blast+
      then have "e \<noteq> pc_Revision (current_pool g')" by simp
      then have "\<exists>err. apply_control op' e g' = (Inl err, g')" for op' using control_stale by blast
      then show ?thesis using won cfg rev by simp
    qed
  qed
  show "length (filter succeeded (fst (run_controls ops e g))) \<le> 1"
    using control.one_winner by (simp add: run_controls_wins)
  show "snd (run_controls ops e g) = g" if "filter succeeded (fst (run_controls ops e g)) = []"
    by (rule run_controls_none [OF that])
qed

text \<open>A fresh gateway: the first write from revision 0 succeeds, the second is refused.\<close>

theorem control_single_winner_witness:
  "\<exists>cfg g' err. apply_control (CtlReplace [''p/b''] ModeManual) 0 (newGatewayState sample_policy) = (Inr cfg, g') \<and>
     pc_Revision cfg = 0 + 1 \<and> apply_control (CtlAuto [''p/a'']) 0 g' = (Inl err, g')"
proof -
  let ?r = "apply_control (CtlReplace [''p/b''] ModeManual) 0 (newGatewayState sample_policy)"
  have "\<exists>cfg. fst ?r = Inr cfg"
    by (simp add: ReplaceModelPool_def try_mutate_eq newGatewayState_def NewStore_def NewPoolState_def
        zeroConfig_def current_pool_simp pool_Replace_def Let_def)
  then obtain cfg g' where r: "?r = (Inr cfg, g')" by (metis prod.collapse)
  have "pc_Revision cfg = 0 + 1" "\<forall>op'. \<exists>err. apply_control op' 0 g' = (Inl err, g')"
    using control_single_winner [of 0 "newGatewayState sample_policy" "CtlReplace [''p/b''] ModeManual" "[]"]
    unfolding r prod.case sum.case by - (elim conjE, assumption)+
  moreover from this(2) obtain err where "apply_control (CtlAuto [''p/a'']) 0 g' = (Inl err, g')" by (elim allE exE)
  ultimately show ?thesis using r by (intro exI conjI)
qed

text \<open>A control write that succeeds was made against the current revision, returns the new pool
  configuration and moves the revision by one; pinning only ever succeeds for a model that is in the
  served catalog and selected.\<close>

theorem control_write_spec:
  assumes "apply_control op e g = (Inr cfg, g')"
  shows "pc_Revision (current_pool g) = e \<and> cfg = current_pool g' \<and> pc_Revision cfg = e + 1 \<and>
    (\<forall>pid. op = CtlPin pid \<longrightarrow> gw_pinnedModel g' = pid \<and> catalog_lookup (gw_catalog g) pid \<noteq> None \<and>
       pid \<in> set (pc_Selected cfg))"
proof -
  have cfg: "cfg = current_pool g'"
    using assms by (cases op) (auto dest!: control_results)
  have "gw_pinnedModel g' = pid \<and> catalog_lookup (gw_catalog g) pid \<noteq> None \<and> pid \<in> set (pc_Selected cfg)"
    if "op = CtlPin pid" for pid
    using assms that by (auto dest!: PinModel_result simp: bump_revision_def current_pool_simp)
  with cfg control.put_ok [OF assms] show ?thesis by blast
qed

theorem control_write_spec_witness:
  "pc_Revision (current_pool (snd (apply_control (CtlReplace [''p/b''] ModeManual) 0 (newGatewayState sample_policy)))) = 0 + 1"
proof -
  let ?r = "apply_control (CtlReplace [''p/b''] ModeManual) 0 (newGatewayState sample_policy)"
  have "\<exists>cfg. fst ?r = Inr cfg"
    by (simp add: ReplaceModelPool_def try_mutate_eq newGatewayState_def NewStore_def NewPoolState_def
        zeroConfig_def current_pool_simp pool_Replace_def Let_def)
  then obtain cfg where "?r = (Inr cfg, snd ?r)" by (metis prod.collapse)
  from control_write_spec [OF this] show ?thesis by metis
qed

text \<open>Ranking permutes the candidates and, for candidates with distinct identities, does not
  depend on the order they come in, although the latency scores are percentiles within the list.\<close>

theorem rankCandidates_stable:
  assumes "mset cs = mset ds" and "inj_on cand_id (set cs)"
  shows "rankCandidates g now cs = rankCandidates g now ds \<and> mset (rankCandidates g now cs) = mset cs"
  using rankCandidates_cong [OF assms] rankCandidates_perm by blast

theorem rankCandidates_stable_witness:
  "rankCandidates sample_gateway 5 [sample_candidate ''r1'' ''p/a'', sample_candidate ''r2'' ''p/b''] =
   rankCandidates sample_gateway 5 [sample_candidate ''r2'' ''p/b'', sample_candidate ''r1'' ''p/a'']"
  using rankCandidates_stable [of "[sample_candidate ''r1'' ''p/a'', sample_candidate ''r2'' ''p/b'']"
      "[sample_candidate ''r2'' ''p/b'', sample_candidate ''r1'' ''p/a'']" sample_gateway 5]
  by (simp add: cand_id_def sample_candidate_def sample_model_def sample_route_def)

text \<open>Whatever the environment says, a request gets between 1 and 100 attempts and a positive
  budget of at most ten minutes; a policy within the limits is left as it is, and the defaults apply
  to a value that is missing, malformed or out of range.\<close>

theorem failover_policy_bounds:
  "1 \<le> fp_MaxAttempts (policy_normalized p) \<and> fp_MaxAttempts (policy_normalized p) \<le> 100 \<and>
   0 < fp_Budget (policy_normalized p) \<and> fp_Budget (policy_normalized p) \<le> 10 * Minute \<and>
   policy_normalized (policy_normalized p) = policy_normalized p \<and>
   policy_normalized (DefaultFailoverPolicy a b) = DefaultFailoverPolicy a b"
  by (auto simp: policy_normalized_def DefaultFailoverPolicy_def DefaultMaxAttempts_def
      maxConfiguredAttempts_def maxConfiguredBudget_def DefaultFailoverBudget_def
      maxConfiguredBudgetMilli_def duration_defs split: option.splits)

end
