(* ===== verification/Usage.thy ===== *)
theory Usage
  imports BenchmarkCache
begin

text \<open>
  Package \<open>internal/usage\<close>: the retained request records with their JSONL file (\<open>usage.go\<close>) and the
  bounded live events (\<open>events.go\<close>). The store is a record passed through the operations, its lock
  makes each of them one step. Encoding and decoding one record as JSON are the parameters \<open>enc\<close> and
  \<open>dec\<close>; random request ids come from the argument \<open>newID\<close>. The file is handled as in theory
  \<open>BenchmarkCache\<close>. \<open>usage.TokenUsage\<close> has the fields of \<open>provider.TokenUsage\<close> and shares its record.
\<close>

section \<open>Records (usage.go)\<close>

definition MaxBytes :: nat where
  "MaxBytes = 20 * 1024 * 1024"

definition MaxAge :: duration where
  "MaxAge = 30 * 24 * Hour"

definition maxRecordBytes :: nat where
  "maxRecordBytes = MaxBytes"

datatype usage_error =
    ErrRecordTooLarge
  | ErrCorrupt
  | ErrClosed
  | ErrEncode
  | ErrQuery
  | ErrPersist cache_error

datatype Outcome = ResultNone | ResultSuccess | ResultFailure | ResultCanceled | ResultPartial

record AttemptRecord =
  ar_Index :: int
  ar_ProviderModel :: ProviderModelID
  ar_Route :: RouteID
  ar_FailureClass :: FailureClass
  ar_FailureScope :: FailureScope
  ar_TTFTMs :: float64
  ar_TotalLatencyMs :: float64
  ar_Committed :: bool
  ar_HTTPStatus :: int
  ar_Tokens :: TokenUsage

record RequestRecord =
  rq_ID :: gostring
  rq_StartedAt :: time
  rq_CompletedAt :: time
  rq_Provider :: gostring
  rq_FinalModel :: ProviderModelID
  rq_FinalRoute :: RouteID
  rq_Attempts :: "AttemptRecord list"
  rq_Result :: Outcome
  rq_Fallback :: bool
  rq_TotalTokens :: TokenUsage

fun number_attempts :: "int \<Rightarrow> AttemptRecord list \<Rightarrow> AttemptRecord list" where
  "number_attempts i [] = []"
| "number_attempts i (a # as) =
     (if ar_Index a \<le> 0 then a\<lparr>ar_Index := i + 1\<rparr> else a) # number_attempts (i + 1) as"

definition last_committed_tokens :: "AttemptRecord list \<Rightarrow> TokenUsage option" where
  "last_committed_tokens as = map_option ar_Tokens
     (List.find (\<lambda>a. ar_Committed a \<and> ar_Tokens a \<noteq> no_tokens) (rev as))"

definition normalizeRecord :: "gostring \<Rightarrow> time \<Rightarrow> RequestRecord \<Rightarrow> RequestRecord" where
  "normalizeRecord newID now record =
     (let record = (if rq_ID record = [] then record\<lparr>rq_ID := newID\<rparr> else record);
          record = (if IsZero (rq_StartedAt record)
             then (if IsZero (rq_CompletedAt record) then record\<lparr>rq_StartedAt := now\<rparr>
                   else record\<lparr>rq_StartedAt := rq_CompletedAt record\<rparr>)
             else record);
          record = (if IsZero (rq_CompletedAt record) then record\<lparr>rq_CompletedAt := rq_StartedAt record\<rparr>
                    else record);
          record = record\<lparr>rq_Attempts := number_attempts 0 (rq_Attempts record)\<rparr>;
          record = (if length (rq_Attempts record) > 1 then record\<lparr>rq_Fallback := True\<rparr> else record)
      in if rq_TotalTokens record = no_tokens
         then (case last_committed_tokens (rq_Attempts record) of
                 None \<Rightarrow> record
               | Some t \<Rightarrow> record\<lparr>rq_TotalTokens := t\<rparr>)
         else record)"

section \<open>Live events (events.go)\<close>

datatype EventType = EventRequestStarted | EventAttemptStarted | EventCompleted

record Event =
  ue_Type :: EventType
  ue_At :: time
  ue_RequestID :: gostring
  ue_Attempt :: "AttemptRecord option"
  ue_Record :: "RequestRecord option"

text \<open>A subscriber's channel is the queue of events it has not received yet.\<close>

record Broadcaster =
  br_nextID :: "64 word"
  br_buffer :: nat
  br_subs :: "64 word \<rightharpoonup> Event list"

definition NewBroadcaster :: "int \<Rightarrow> Broadcaster" where
  "NewBroadcaster buffer = \<lparr>br_nextID = 0, br_buffer = (if buffer \<le> 0 then 16 else nat buffer),
     br_subs = Map.empty\<rparr>"

definition offer :: "nat \<Rightarrow> Event \<Rightarrow> Event list \<Rightarrow> Event list" where
  "offer buffer event queue = (if length queue < buffer then queue @ [event] else queue)"

definition Publish :: "time \<Rightarrow> Event \<Rightarrow> Broadcaster \<Rightarrow> Broadcaster" where
  "Publish now event b =
     (let event = (if IsZero (ue_At event) then event\<lparr>ue_At := now\<rparr> else event)
      in b\<lparr>br_subs := (\<lambda>k. map_option (offer (br_buffer b) event) (br_subs b k))\<rparr>)"

definition Subscribe :: "Broadcaster \<Rightarrow> 64 word \<times> Broadcaster" where
  "Subscribe b = (let k = br_nextID b + 1
     in (k, b\<lparr>br_nextID := k, br_subs := (br_subs b)(k \<mapsto> [])\<rparr>))"

text \<open>
  The returned unsubscribe function with its \<open>sync.Once\<close>: \<open>used\<close> says whether it has run.
\<close>

definition Unsubscribe :: "64 word \<Rightarrow> bool \<Rightarrow> Broadcaster \<Rightarrow> bool \<times> Broadcaster" where
  "Unsubscribe k used b = (if used then (True, b) else (True, b\<lparr>br_subs := (br_subs b)(k := None)\<rparr>))"

text \<open>A receive by the subscriber: the oldest event of its queue.\<close>

definition Receive :: "64 word \<Rightarrow> Broadcaster \<Rightarrow> Event option \<times> Broadcaster" where
  "Receive k b = (case br_subs b k of
       Some (e # q) \<Rightarrow> (Some e, b\<lparr>br_subs := (br_subs b)(k \<mapsto> q)\<rparr>)
     | _ \<Rightarrow> (None, b))"

section \<open>The store (usage.go)\<close>

record UsageStore =
  us_path :: gostring
  us_records :: "RequestRecord list"
  us_closed :: bool
  us_events :: Broadcaster

type_synonym Encoder = "RequestRecord \<Rightarrow> gostring option"

definition NewMemory :: UsageStore where
  "NewMemory = \<lparr>us_path = [], us_records = [], us_closed = False, us_events = NewBroadcaster 64\<rparr>"

definition record_at :: "RequestRecord \<Rightarrow> time" where
  "record_at r = (if IsZero (rq_CompletedAt r) then rq_StartedAt r else rq_CompletedAt r)"

definition too_old :: "time \<Rightarrow> RequestRecord \<Rightarrow> bool" where
  "too_old now r = (\<not> IsZero (record_at r) \<and> record_at r < now - MaxAge)"

definition line_size :: "Encoder \<Rightarrow> RequestRecord \<Rightarrow> nat" where
  "line_size enc r = (case enc r of None \<Rightarrow> 0 | Some line \<Rightarrow> length line + 1)"

text \<open>How many of the oldest records go: \<open>for drop < len && total > MaxBytes\<close>.\<close>

fun drop_count :: "nat \<Rightarrow> nat list \<Rightarrow> nat" where
  "drop_count tot [] = 0"
| "drop_count tot (s # sizes) =
     (if tot > MaxBytes then Suc (drop_count (tot - s) sizes) else 0)"

definition pruneLocked :: "Encoder \<Rightarrow> time \<Rightarrow> UsageStore \<Rightarrow> bool \<times> UsageStore" where
  "pruneLocked enc now s =
     (let kept = filter (\<lambda>r. \<not> too_old now r) (us_records s);
          changed = list_ex (too_old now) (us_records s);
          s = s\<lparr>us_records := kept\<rparr>
      in if length kept = 0 then (changed, s)
         else let sizes = map (line_size enc) kept;
                  n = drop_count (sum_list sizes) sizes
              in if n > 0 then (True, s\<lparr>us_records := drop n kept\<rparr>) else (changed, s))"

definition encodedLocked :: "Encoder \<Rightarrow> UsageStore \<Rightarrow> gostring" where
  "encodedLocked enc s = concat (map (\<lambda>r. case enc r of
       None \<Rightarrow> []
     | Some line \<Rightarrow> line @ [CHR 0x0A]) (us_records s))"

definition replaceUsageFile ::
  "'c SaveEnv \<Rightarrow> gostring \<Rightarrow> gostring \<Rightarrow> 'c fs \<Rightarrow> cache_error option \<times> 'c fs" where
  "replaceUsageFile env tempName targetName f0 =
     (case os_Rename (ev_rename1 env) tempName targetName f0 of
        (None, f1) \<Rightarrow> (None, f1)
      | (Some _, f1) \<Rightarrow>
          (let backupName = bak targetName;
               f2 = os_Remove (ev_removeBak env) backupName f1
           in case os_Rename (ev_rename2 env) targetName backupName f2 of
                (Some e, f3) \<Rightarrow> (Some e, f3)
              | (None, f3) \<Rightarrow>
                  (case os_Rename (ev_rename3 env) tempName targetName f3 of
                     (Some e, f4) \<Rightarrow> (Some e, snd (os_Rename (ev_restore env) backupName targetName f4))
                   | (None, f4) \<Rightarrow> (None, os_Remove (ev_removeBak2 env) backupName f4))))"

text \<open>\<open>ev_mkdir\<close> stands for creating and protecting the directory, \<open>ev_protect\<close> for the last \<open>Chmod\<close>.\<close>

definition persistLocked ::
  "Encoder \<Rightarrow> gostring SaveEnv \<Rightarrow> UsageStore \<Rightarrow> gostring fs \<Rightarrow> cache_error option \<times> gostring fs" where
  "persistLocked enc env s f0 =
     (if us_path s = [] then (None, f0)
      else let data = encodedLocked enc s; tmp = ev_tmpName env; rm = os_Remove (ev_removeTmp env) tmp
        in if \<not> ev_mkdir env then (Some (OSError ''create usage log directory''), f0)
           else if \<not> ev_create env then (Some (OSError ''create usage temp file''), f0)
           else if \<not> ev_chmodTmp env then (Some (OSError ''protect usage temp file''), rm (f0(tmp \<mapsto> [])))
           else if \<not> ev_write env
           then (Some (OSError ''write usage temp file''), rm (f0(tmp \<mapsto> ev_partial env)))
           else if \<not> ev_sync env then (Some (OSError ''sync usage temp file''), rm (f0(tmp \<mapsto> data)))
           else if \<not> ev_close env then (Some (OSError ''close usage temp file''), rm (f0(tmp \<mapsto> data)))
           else case replaceUsageFile env tmp (us_path s) (f0(tmp \<mapsto> data)) of
             (Some e, f1) \<Rightarrow> (Some e, rm f1)
           | (None, f1) \<Rightarrow>
               if ev_protect env then (None, rm f1) else (Some (OSError ''protect usage log''), rm f1))"

definition usage_Append ::
  "Encoder \<Rightarrow> gostring SaveEnv \<Rightarrow> gostring \<Rightarrow> time \<Rightarrow> RequestRecord \<Rightarrow> UsageStore \<Rightarrow> gostring fs \<Rightarrow>
   usage_error option \<times> UsageStore \<times> gostring fs" where
  "usage_Append enc env newID now record s f =
     (if us_closed s then (Some ErrClosed, s, f)
      else let record = normalizeRecord newID now record
        in case enc record of
          None \<Rightarrow> (Some ErrEncode, s, f)
        | Some encoded \<Rightarrow>
            if length encoded > maxRecordBytes then (Some ErrRecordTooLarge, s, f)
            else let previous = us_records s;
                     s = snd (pruneLocked enc now (s\<lparr>us_records := us_records s @ [record]\<rparr>))
                 in case persistLocked enc env s f of
                   (Some e, f) \<Rightarrow> (Some (ErrPersist e), s\<lparr>us_records := previous\<rparr>, f)
                 | (None, f) \<Rightarrow>
                     (None, s\<lparr>us_events := Publish now
                        \<lparr>ue_Type = EventCompleted, ue_At = 0, ue_RequestID = rq_ID record,
                         ue_Attempt = None, ue_Record = Some record\<rparr> (us_events s)\<rparr>, f))"

record Query =
  qu_From :: time
  qu_To :: time
  qu_Provider :: gostring
  qu_Model :: gostring
  qu_Result :: Outcome
  qu_Fallback :: "bool option"
  qu_Offset :: int
  qu_Limit :: int

definition record_matches :: "RequestRecord \<Rightarrow> Query \<Rightarrow> bool" where
  "record_matches record q =
     (let t = rq_StartedAt record
      in if \<not> IsZero (qu_From q) \<and> t < qu_From q then False
         else if \<not> IsZero (qu_To q) \<and> t > qu_To q then False
         else if qu_Provider q \<noteq> [] \<and> \<not> EqualFold (rq_Provider record) (qu_Provider q) then False
         else if qu_Model q \<noteq> [] \<and> rq_FinalModel record \<noteq> qu_Model q then False
         else if qu_Result q \<noteq> ResultNone \<and> rq_Result record \<noteq> qu_Result q then False
         else if qu_Fallback q \<noteq> None \<and> rq_Fallback record \<noteq> the (qu_Fallback q) then False
         else True)"

definition usage_List :: "Query \<Rightarrow> UsageStore \<Rightarrow> usage_error + RequestRecord list" where
  "usage_List q s =
     (if us_closed s then Inl ErrClosed
      else if qu_Offset q < 0 \<or> qu_Limit q < 0 then Inl ErrQuery
      else let result = filter (\<lambda>r. record_matches r q) (rev (us_records s))
        in if qu_Offset q \<ge> int (length result) then Inr []
           else let result = drop (nat (qu_Offset q)) result
             in if qu_Limit q > 0 \<and> qu_Limit q < int (length result)
                then Inr (take (nat (qu_Limit q)) result)
                else Inr result)"

definition usage_Prune ::
  "Encoder \<Rightarrow> gostring SaveEnv \<Rightarrow> time \<Rightarrow> time \<Rightarrow> UsageStore \<Rightarrow> gostring fs \<Rightarrow>
   usage_error option \<times> UsageStore \<times> gostring fs" where
  "usage_Prune enc env clock now s f =
     (if us_closed s then (Some ErrClosed, s, f)
      else let now = (if IsZero now then clock else now);
               (changed, s) = pruneLocked enc now s
        in if changed
           then (case persistLocked enc env s f of
                   (Some e, f) \<Rightarrow> (Some (ErrPersist e), s, f)
                 | (None, f) \<Rightarrow> (None, s, f))
           else (None, s, f))"

definition usage_Count :: "UsageStore \<Rightarrow> nat" where
  "usage_Count s = length (us_records s)"

definition usage_Size :: "Encoder \<Rightarrow> UsageStore \<Rightarrow> nat" where
  "usage_Size enc s = length (encodedLocked enc s)"

definition usage_Close :: "UsageStore \<Rightarrow> UsageStore" where
  "usage_Close s = s\<lparr>us_closed := True\<rparr>"

section \<open>Reading the file back (usage.go)\<close>

fun cutLine :: "gostring \<Rightarrow> gostring \<times> gostring \<times> bool" where
  "cutLine [] = ([], [], False)"
| "cutLine (b # data) =
     (if b = CHR 0x0A then ([], data, True)
      else case cutLine data of (line, rest, found) \<Rightarrow> (b # line, rest, found))"

lemma cutLine_length: "cutLine data = (line, rest, found) \<Longrightarrow> data \<noteq> [] \<Longrightarrow> length rest < length data"
proof (induction data arbitrary: line rest found)
  case (Cons b data)
  then show ?case
    by (cases "data = []") (auto split: if_splits prod.splits simp: less_Suc_eq)
qed simp

text \<open>\<open>newID n\<close> is the fresh identifier for the record read after \<open>n\<close> others, should it have none.\<close>

function decodeJSONL ::
  "(gostring \<Rightarrow> RequestRecord option) \<Rightarrow> (nat \<Rightarrow> gostring) \<Rightarrow> gostring \<Rightarrow> RequestRecord list \<Rightarrow>
   usage_error + RequestRecord list" where
  "decodeJSONL dec newID data dst =
     (if data = [] then Inr dst
      else let (line, rest, found) = cutLine data; line = TrimSpace line
        in if line = [] then (if \<not> found then Inr dst else decodeJSONL dec newID rest dst)
           else case dec line of
             None \<Rightarrow> Inl ErrCorrupt
           | Some record \<Rightarrow>
               let dst = dst @ [normalizeRecord (newID (length dst)) 0 record]
               in if \<not> found then Inr dst else decodeJSONL dec newID rest dst)"
  by pat_completeness auto

termination
  by (relation "measure (\<lambda>(dec, newID, data, dst). length data)") (auto dest!: cutLine_length [OF sym])

declare decodeJSONL.simps [simp del]

definition usage_New ::
  "Encoder \<Rightarrow> (gostring \<Rightarrow> RequestRecord option) \<Rightarrow> (nat \<Rightarrow> gostring) \<Rightarrow> gostring SaveEnv \<Rightarrow> bool \<Rightarrow> time \<Rightarrow>
   gostring \<Rightarrow> gostring fs \<Rightarrow> usage_error + UsageStore \<times> gostring fs" where
  "usage_New enc dec newID env readable now path f =
     (let path = TrimSpace path
      in if path = [] then Inr (NewMemory, f)
         else let s = NewMemory\<lparr>us_path := path\<rparr>
           in case os_ReadFile readable path f of
             Inl e \<Rightarrow> if e = NotExist then Inr (s, f) else Inl (ErrPersist e)
           | Inr data \<Rightarrow>
               (case decodeJSONL dec newID data [] of
                  Inl e \<Rightarrow> Inl e
                | Inr records \<Rightarrow>
                    let (changed, s) = pruneLocked enc now (s\<lparr>us_records := records\<rparr>)
                    in if changed
                       then (case persistLocked enc env s f of
                               (Some e, _) \<Rightarrow> Inl (ErrPersist e)
                             | (None, f) \<Rightarrow> Inr (s, f))
                       else Inr (s, f)))"

section \<open>Retention\<close>

text \<open>The bytes the retained records take in the file, one newline each.\<close>

definition retained_bytes :: "Encoder \<Rightarrow> RequestRecord list \<Rightarrow> nat" where
  "retained_bytes enc rs = sum_list (map (line_size enc) rs)"

lemma length_encodedLocked: "usage_Size enc s = retained_bytes enc (us_records s)"
proof -
  have "length (concat (map (\<lambda>r. case enc r of None \<Rightarrow> [] | Some line \<Rightarrow> line @ [CHR 0x0A]) rs)) =
      retained_bytes enc rs" for rs
    by (induction rs) (auto simp: retained_bytes_def line_size_def split: option.split)
  then show ?thesis by (simp add: usage_Size_def encodedLocked_def)
qed

lemma drop_count_spec:
  "sum_list (drop (drop_count (sum_list sizes) sizes) sizes) \<le> MaxBytes"
  "k < drop_count (sum_list sizes) sizes \<Longrightarrow> MaxBytes < sum_list (drop k sizes)"
proof (induction sizes arbitrary: k)
  case (Cons s sizes)
  { case 1 show ?case using Cons.IH(1) by auto }
  { case 2 then show ?case using Cons.IH(2) by (cases k) (auto split: if_splits) }
qed simp_all

lemma pruneLocked_records:
  fixes s enc now
  defines "kept \<equiv> filter (\<lambda>r. \<not> too_old now r) (us_records s)"
  shows "us_records (snd (pruneLocked enc now s)) =
     drop (drop_count (retained_bytes enc kept) (map (line_size enc) kept)) kept"
  by (auto simp: pruneLocked_def kept_def Let_def retained_bytes_def)

text \<open>What pruning leaves: a suffix of the young records that fits, the longest such suffix.\<close>

lemma pruneLocked_spec:
  fixes s enc now
  defines "kept \<equiv> filter (\<lambda>r. \<not> too_old now r) (us_records s)"
  shows "\<exists>n. us_records (snd (pruneLocked enc now s)) = drop n kept \<and>
    retained_bytes enc (drop n kept) \<le> MaxBytes \<and>
    (\<forall>k < n. MaxBytes < retained_bytes enc (drop k kept))"
  using drop_count_spec [where sizes = "map (line_size enc) kept"]
  unfolding pruneLocked_records kept_def [symmetric] retained_bytes_def
  by (intro exI [of _ "drop_count (sum_list (map (line_size enc) kept)) (map (line_size enc) kept)"])
     (simp add: drop_map)

lemma drop_count_le: "drop_count tot sizes \<le> length sizes"
  by (induction sizes arbitrary: tot) simp_all

text \<open>The newest record survives pruning when it is young and fits on its own, newline included.\<close>

lemma pruneLocked_keeps_last:
  assumes "us_records s = rs @ [r]" and "\<not> too_old now r" and "line_size enc r \<le> MaxBytes"
  shows "us_records (snd (pruneLocked enc now s)) \<noteq> [] \<and> last (us_records (snd (pruneLocked enc now s))) = r"
proof -
  let ?kept = "filter (\<lambda>r. \<not> too_old now r) (us_records s)"
  obtain n where n: "us_records (snd (pruneLocked enc now s)) = drop n ?kept"
    "\<forall>k < n. MaxBytes < retained_bytes enc (drop k ?kept)"
    using pruneLocked_spec [of enc now s] by blast
  have kept: "?kept = filter (\<lambda>r. \<not> too_old now r) rs @ [r]" using assms by simp
  have "n < length ?kept"
  proof (rule ccontr)
    assume "\<not> n < length ?kept"
    then have "length ?kept - 1 < n" using kept by auto
    with n(2) have "MaxBytes < retained_bytes enc (drop (length ?kept - 1) ?kept)" by blast
    then show False using assms(3) by (simp add: kept retained_bytes_def)
  qed
  then show ?thesis using n(1) kept by (metis drop_eq_Nil last_drop last_snoc not_le)
qed

lemma pruneLocked_sel [simp]:
  "us_closed (snd (pruneLocked enc now s)) = us_closed s" "us_path (snd (pruneLocked enc now s)) = us_path s"
  "us_events (snd (pruneLocked enc now s)) = us_events s"
  by (simp_all add: pruneLocked_def Let_def)

section \<open>Normal forms and the file\<close>

lemma number_attempts_idem: "0 \<le> i \<Longrightarrow> number_attempts i (number_attempts i as) = number_attempts i as"
  by (induction as arbitrary: i) auto

lemma length_number_attempts [simp]: "length (number_attempts i as) = length as"
  by (induction as arbitrary: i) auto

text \<open>A record that came out of \<open>normalizeRecord\<close> with a clock that is not the zero time.\<close>

definition normal_record :: "RequestRecord \<Rightarrow> bool" where
  "normal_record r \<longleftrightarrow> rq_ID r \<noteq> [] \<and> rq_StartedAt r \<noteq> 0 \<and> rq_CompletedAt r \<noteq> 0 \<and>
     number_attempts 0 (rq_Attempts r) = rq_Attempts r \<and>
     (length (rq_Attempts r) > 1 \<longrightarrow> rq_Fallback r) \<and>
     (rq_TotalTokens r = no_tokens \<longrightarrow> last_committed_tokens (rq_Attempts r) = None)"

lemma last_committed_nonzero: "last_committed_tokens as = Some t \<Longrightarrow> t \<noteq> no_tokens"
  by (auto simp: last_committed_tokens_def dest: find_SomeD)

lemma normalizeRecord_normal:
  "newID \<noteq> [] \<Longrightarrow> now \<noteq> 0 \<Longrightarrow> normal_record (normalizeRecord newID now r)"
  by (auto simp: normalizeRecord_def normal_record_def IsZero_def Let_def number_attempts_idem
      dest: last_committed_nonzero split: option.split)

lemma normalizeRecord_fixed: "normal_record r \<Longrightarrow> normalizeRecord newID now r = r"
  by (auto simp: normalizeRecord_def normal_record_def IsZero_def Let_def)

lemma cutLine_line: "CHR 0x0A \<notin> set line \<Longrightarrow> cutLine (line @ CHR 0x0A # rest) = (line, rest, True)"
  by (induction line) auto

text \<open>
  What the store relies on from the JSON encoding of the records it writes: it is a line of its own
  that decoding reads back.
\<close>

definition line_codec ::
  "Encoder \<Rightarrow> (gostring \<Rightarrow> RequestRecord option) \<Rightarrow> RequestRecord \<Rightarrow> bool" where
  "line_codec enc dec r \<longleftrightarrow> (\<exists>line. enc r = Some line \<and> dec line = Some r \<and> line \<noteq> [] \<and>
     CHR 0x0A \<notin> set line \<and> TrimSpace line = line)"

lemma decode_encoded:
  assumes "\<forall>r \<in> set rs. normal_record r \<and> line_codec enc dec r"
  shows "decodeJSONL dec newID (concat (map (\<lambda>r. case enc r of None \<Rightarrow> [] | Some line \<Rightarrow> line @ [CHR 0x0A]) rs)) dst =
    Inr (dst @ rs)"
  using assms
proof (induction rs arbitrary: dst)
  case Nil
  then show ?case by (simp add: decodeJSONL.simps)
next
  case (Cons r rs)
  then obtain line where l: "enc r = Some line" "dec line = Some r" "line \<noteq> []" "CHR 0x0A \<notin> set line"
    "TrimSpace line = line" by (auto simp: line_codec_def)
  with Cons show ?case
    by (subst decodeJSONL.simps) (simp add: cutLine_line normalizeRecord_fixed)
qed

section \<open>Properties\<close>

text \<open>C34: an append that reports an error leaves the retained records as they were. One that reports none
  leaves the longest run of the newest young records whose file fits in \<open>MaxBytes\<close>; the new record
  is stored as the newest one unless it is already past the retention age or its line has
  exactly \<open>MaxBytes\<close> bytes without the newline, in which case nothing is retained at all. It never changes
  whether the store is closed, and a closed store takes nothing.\<close>

theorem Append_retention:
  assumes "usage_Append enc env newID now r s f = (err, s', f')"
  defines "new \<equiv> normalizeRecord newID now r"
  shows "us_closed s' = us_closed s \<and>
    (case err of
       Some e \<Rightarrow> us_records s' = us_records s
     | None \<Rightarrow> \<not> us_closed s \<and> usage_Size enc s' \<le> MaxBytes \<and>
         (\<exists>n. let young = filter (\<lambda>r. \<not> too_old now r) (us_records s @ [new])
              in us_records s' = drop n young \<and>
                 (\<forall>k < n. MaxBytes < retained_bytes enc (drop k young))) \<and>
         (\<exists>line. enc new = Some line \<and> length line \<le> MaxBytes \<and>
            (if too_old now new then new \<notin> set (us_records s')
             else if length line = MaxBytes then us_records s' = []
             else us_records s' \<noteq> [] \<and> last (us_records s') = new)))"
proof (cases err)
  case None
  let ?s1 = "s\<lparr>us_records := us_records s @ [new]\<rparr>"
  let ?young = "filter (\<lambda>r. \<not> too_old now r) (us_records s @ [new])"
  from None assms(1) obtain line where run: "us_records s' = us_records (snd (pruneLocked enc now ?s1))"
      "us_closed s' = us_closed s" "\<not> us_closed s" and line: "enc new = Some line" "length line \<le> MaxBytes"
    by (auto simp: usage_Append_def new_def maxRecordBytes_def Let_def split: if_splits option.splits prod.splits)
  have size: "usage_Size enc s' \<le> MaxBytes"
    using pruneLocked_spec [of enc now ?s1] run(1) by (auto simp: length_encodedLocked Let_def)
  obtain n where n: "us_records s' = drop n ?young" "retained_bytes enc (drop n ?young) \<le> MaxBytes"
      "\<forall>k < n. MaxBytes < retained_bytes enc (drop k ?young)"
    using pruneLocked_spec [of enc now ?s1] run(1) by auto
  have old: "new \<notin> set (us_records s')" if "too_old now new"
    using that unfolding n(1) by (auto dest!: in_set_dropD)
  have big: "us_records s' = []" if "\<not> too_old now new" "length line = MaxBytes"
  proof -
    let ?old = "filter (\<lambda>r. \<not> too_old now r) (us_records s)"
    have "MaxBytes < retained_bytes enc (xs @ [new])" for xs
      using line(1) that(2) by (simp add: retained_bytes_def line_size_def)
    from this [of "drop n ?old"] n(2) that(1) have "length ?old < n" by (cases "n - length ?old") auto
    with that(1) show ?thesis unfolding n(1) by simp
  qed
  have kept: "us_records s' \<noteq> [] \<and> last (us_records s') = new" if "\<not> too_old now new" "length line \<noteq> MaxBytes"
  proof -
    have "line_size enc new \<le> MaxBytes" using line that(2) by (simp add: line_size_def)
    then show ?thesis using pruneLocked_keeps_last [OF _ that(1), of ?s1 "us_records s" enc] run(1) by simp
  qed
  have "\<exists>n. let young = ?young in us_records s' = drop n young \<and> (\<forall>k < n. MaxBytes < retained_bytes enc (drop k young))"
    unfolding Let_def using n(1,3) by (intro exI conjI)
  moreover have "\<exists>line. enc new = Some line \<and> length line \<le> MaxBytes \<and> (if too_old now new then new \<notin> set (us_records s')
      else if length line = MaxBytes then us_records s' = [] else us_records s' \<noteq> [] \<and> last (us_records s') = new)"
    using line old big kept by (intro exI [of _ line]) simp
  ultimately show ?thesis unfolding None option.case using run(2,3) size by (intro conjI)
next
  case (Some e)
  then show ?thesis
    using assms(1) by (auto simp: usage_Append_def Let_def split: if_splits option.splits prod.splits)
qed

definition sample_record :: RequestRecord where
  "sample_record = \<lparr>rq_ID = ''r'', rq_StartedAt = 1, rq_CompletedAt = 2, rq_Provider = [], rq_FinalModel = [],
     rq_FinalRoute = [], rq_Attempts = [], rq_Result = ResultSuccess, rq_Fallback = False,
     rq_TotalTokens = no_tokens\<rparr>"

lemma sample_Append:
  "usage_Append (\<lambda>_. Some ''l'') sample_env [] 3 sample_record NewMemory Map.empty =
     (None, NewMemory\<lparr>us_records := [sample_record]\<rparr>, Map.empty)"
  by (simp add: usage_Append_def NewMemory_def sample_record_def normalizeRecord_def IsZero_def
      pruneLocked_def too_old_def record_at_def line_size_def persistLocked_def MaxBytes_def
      maxRecordBytes_def MaxAge_def Publish_def NewBroadcaster_def last_committed_tokens_def
      duration_defs Let_def fun_eq_iff)

theorem Append_retention_witness:
  "usage_Size (\<lambda>_. Some ''l'') (NewMemory\<lparr>us_records := [sample_record]\<rparr>) \<le> MaxBytes \<and>
   last (us_records (NewMemory\<lparr>us_records := [sample_record]\<rparr>)) = normalizeRecord [] 3 sample_record"
proof -
  have "\<not> too_old 3 (normalizeRecord [] 3 sample_record)" "length ''l'' \<noteq> MaxBytes"
    by (simp_all add: sample_record_def normalizeRecord_def IsZero_def last_committed_tokens_def Let_def
      too_old_def record_at_def MaxAge_def duration_defs MaxBytes_def)
  with Append_retention [OF sample_Append] show ?thesis by auto
qed

text \<open>A successful append keeps the new record as the newest one, provided it is not past the
  retention age and its line, newline included, is within the file's limit.\<close>

theorem Append_keeps_newest:
  assumes "usage_Append enc env newID now r s f = (None, s', f')"
    and "\<not> too_old now (normalizeRecord newID now r)"
    and "line_size enc (normalizeRecord newID now r) \<le> MaxBytes"
  shows "us_records s' \<noteq> [] \<and> last (us_records s') = normalizeRecord newID now r"
proof -
  let ?r = "normalizeRecord newID now r"
  from assms(1) have "us_records s' = us_records (snd (pruneLocked enc now (s\<lparr>us_records := us_records s @ [?r]\<rparr>)))"
    by (auto simp: usage_Append_def Let_def split: if_splits option.splits prod.splits)
  then show ?thesis using pruneLocked_keeps_last [OF _ assms(2,3)] by simp
qed

theorem Append_keeps_newest_witness:
  "last (us_records (NewMemory\<lparr>us_records := [sample_record]\<rparr>)) = normalizeRecord [] 3 sample_record"
  using Append_keeps_newest [OF sample_Append]
  by (simp add: sample_record_def normalizeRecord_def IsZero_def last_committed_tokens_def Let_def
      too_old_def record_at_def MaxAge_def duration_defs line_size_def MaxBytes_def)

text \<open>
  The provision matters: a record of exactly \<open>MaxBytes\<close> bytes passes the size check, takes one byte
  more with its newline, and is dropped with everything before it, without an error.
\<close>

lemma Append_drops_exact_limit:
  assumes "\<not> us_closed s" and "us_path s = []" and "enc (normalizeRecord newID now r) = Some line"
    and "length line = MaxBytes" and young: "\<not> too_old now (normalizeRecord newID now r)"
  shows "fst (usage_Append enc env newID now r s f) = None \<and>
    us_records (fst (snd (usage_Append enc env newID now r s f))) = []"
proof -
  let ?r = "normalizeRecord newID now r" and ?s1 = "s\<lparr>us_records := us_records s @ [normalizeRecord newID now r]\<rparr>"
  let ?old = "filter (\<lambda>r. \<not> too_old now r) (us_records s)"
  obtain n where n: "us_records (snd (pruneLocked enc now ?s1)) = drop n (?old @ [?r])"
    "retained_bytes enc (drop n (?old @ [?r])) \<le> MaxBytes"
    using pruneLocked_spec [of enc now ?s1] young by auto
  have big: "MaxBytes < retained_bytes enc (xs @ [?r])" for xs
    using assms(3,4) by (simp add: retained_bytes_def line_size_def)
  have "drop n (?old @ [?r]) = []"
    using n(2) big [of "drop n ?old"] by (cases "n - length ?old") auto
  with n(1) assms show ?thesis
    by (auto simp: usage_Append_def Let_def maxRecordBytes_def persistLocked_def split: prod.splits)
qed

text \<open>Reading pages of a listing: a page of \<open>n\<close> records followed by everything after it is
  the whole listing from that offset, and the unpaged listing is the matching records, newest first.\<close>

theorem List_pages:
  assumes "\<not> us_closed s" and "0 \<le> off" and "0 < n"
  shows "usage_List (q\<lparr>qu_Offset := 0, qu_Limit := 0\<rparr>) s = Inr (filter (\<lambda>r. record_matches r q) (rev (us_records s))) \<and>
    (\<exists>page rest. usage_List (q\<lparr>qu_Offset := off, qu_Limit := n\<rparr>) s = Inr page \<and>
      usage_List (q\<lparr>qu_Offset := off + n, qu_Limit := 0\<rparr>) s = Inr rest \<and>
      int (length page) \<le> n \<and>
      usage_List (q\<lparr>qu_Offset := off, qu_Limit := 0\<rparr>) s = Inr (page @ rest))"
proof -
  let ?all = "filter (\<lambda>r. record_matches r q) (rev (us_records s))"
  have m: "record_matches r (q\<lparr>qu_Offset := a, qu_Limit := b\<rparr>) = record_matches r q" for r a b
    by (simp add: record_matches_def Let_def)
  have list: "usage_List (q\<lparr>qu_Offset := a, qu_Limit := b\<rparr>) s =
      Inr (if b = 0 then drop (nat a) ?all else take (nat b) (drop (nat a) ?all))"
    if "0 \<le> a" "0 \<le> b" for a b
    using that assms(1) by (auto simp: usage_List_def m Let_def)
  have cut: "drop (nat off) ?all = take (nat n) (drop (nat off) ?all) @ drop (nat (off + n)) ?all"
    using assms append_take_drop_id [of "nat n" "drop (nat off) ?all"]
    by (simp add: nat_add_distrib add.commute)
  have len: "int (length (take (nat n) xs)) \<le> n" for xs :: "RequestRecord list"
    using assms(3) by simp
  show ?thesis using assms cut len by (auto simp: list)
qed

theorem List_pages_witness:
  "usage_List (Query.make 0 0 [] [] ResultNone None 1 1\<lparr>qu_Offset := 0, qu_Limit := 0\<rparr>)
     (NewMemory\<lparr>us_records := [sample_record, sample_record]\<rparr>) = Inr [sample_record, sample_record]"
proof -
  have opn: "\<not> us_closed (NewMemory\<lparr>us_records := [sample_record, sample_record]\<rparr>)" by (simp add: NewMemory_def)
  have m: "record_matches sample_record (Query.make 0 0 [] [] ResultNone None 1 1)"
    by (simp add: Query.make_def record_matches_def IsZero_def)
  show ?thesis using List_pages [OF opn, of 0 1 "Query.make 0 0 [] [] ResultNone None 1 1"] m by simp
qed

lemma replaceUsageFile_ok:
  assumes "replaceUsageFile env tmp target f = (None, f')" and "f tmp = Some data" and "tmp \<noteq> target"
    and "tmp \<noteq> bak target"
  shows "f' target = Some data"
  using assms
  by (auto simp: replaceUsageFile_def os_Rename_def os_Remove_def Let_def split: option.splits if_splits prod.splits)

lemma persistLocked_ok:
  assumes "persistLocked enc env s f = (None, f')" and "us_path s \<noteq> []" and "ev_tmpName env \<noteq> us_path s"
    and "ev_tmpName env \<noteq> bak (us_path s)"
  shows "f' (us_path s) = Some (encodedLocked enc s)"
proof -
  obtain f1 where "replaceUsageFile env (ev_tmpName env) (us_path s)
      (f(ev_tmpName env \<mapsto> encodedLocked enc s)) = (None, f1)"
    "f' = os_Remove (ev_removeTmp env) (ev_tmpName env) f1"
    using assms(1,2) by (auto simp: persistLocked_def Let_def split: if_splits option.splits prod.splits)
  then show ?thesis using replaceUsageFile_ok [OF _ _ assms(3,4)] assms(3)
    by (fastforce simp: os_Remove_def)
qed

lemma pruneLocked_unchanged:
  assumes "\<forall>r \<in> set (us_records s). \<not> too_old now r" and "usage_Size enc s \<le> MaxBytes"
  shows "pruneLocked enc now s = (False, s)"
proof -
  have k: "filter (\<lambda>r. \<not> too_old now r) (us_records s) = us_records s" using assms(1) by (simp add: filter_id_conv)
  have "drop_count (sum_list sizes) sizes = 0" if "sum_list sizes \<le> MaxBytes" for sizes
    using that by (cases sizes) auto
  with k show ?thesis using assms
    by (simp add: pruneLocked_def Let_def length_encodedLocked retained_bytes_def list_ex_iff)
qed

lemma decode_encodedLocked:
  assumes "\<forall>r \<in> set (us_records s). normal_record r \<and> line_codec enc dec r"
  shows "decodeJSONL dec newID (encodedLocked enc s) [] = Inr (us_records s)"
  using decode_encoded [OF assms, of newID "[]"] by (simp add: encodedLocked_def)

text \<open>C33: what a store wrote, reopening reads back: after a save that succeeded, \<open>New\<close> on that path
  returns exactly the retained records, in order, and leaves the file alone, as long as none of them
  has aged out since.\<close>

theorem reopen_roundtrip:
  assumes "persistLocked enc env s f = (None, f')" and "us_path s \<noteq> []" and "TrimSpace (us_path s) = us_path s"
    and "ev_tmpName env \<noteq> us_path s" and "ev_tmpName env \<noteq> bak (us_path s)"
    and "\<forall>r \<in> set (us_records s). normal_record r \<and> line_codec enc dec r \<and> \<not> too_old now r"
    and "usage_Size enc s \<le> MaxBytes"
  shows "usage_New enc dec newID env2 True now (us_path s) f' =
    Inr (NewMemory\<lparr>us_path := us_path s, us_records := us_records s\<rparr>, f')"
proof -
  have size: "usage_Size enc (NewMemory\<lparr>us_path := us_path s, us_records := us_records s\<rparr>) \<le> MaxBytes"
    using assms(7) by (simp add: length_encodedLocked)
  have dec: "decodeJSONL dec newID (encodedLocked enc s) [] = Inr (us_records s)"
    using assms(6) by (intro decode_encodedLocked) blast
  have prune: "pruneLocked enc now (NewMemory\<lparr>us_path := us_path s, us_records := us_records s\<rparr>) =
      (False, NewMemory\<lparr>us_path := us_path s, us_records := us_records s\<rparr>)"
    using assms(6) size by (intro pruneLocked_unchanged) simp_all
  show ?thesis
    using persistLocked_ok [OF assms(1,2,4,5)] assms(2,3) dec prune
    by (simp add: usage_New_def os_ReadFile_def Let_def)
qed

theorem reopen_roundtrip_witness:
  "usage_New (\<lambda>_. Some ''l'') (\<lambda>_. Some sample_record) (\<lambda>_. ''x'') sample_env True 3 ''p''
     [''p'' \<mapsto> ''l'' @ [CHR 0x0A]] =
   Inr (NewMemory\<lparr>us_path := ''p'', us_records := [sample_record]\<rparr>, [''p'' \<mapsto> ''l'' @ [CHR 0x0A]])"
proof -
  let ?s = "NewMemory\<lparr>us_path := ''p'', us_records := [sample_record]\<rparr>" and ?enc = "\<lambda>_. Some ''l''"
  have sz: "usage_Size ?enc ?s \<le> MaxBytes"
    by (simp add: length_encodedLocked retained_bytes_def line_size_def MaxBytes_def)
  have lc: "last_committed_tokens [] = None" by (simp add: last_committed_tokens_def)
  have p: "persistLocked ?enc (sample_env\<lparr>ev_rename1 := True\<rparr>) ?s Map.empty = (None, [''p'' \<mapsto> ''l'' @ [CHR 0x0A]])"
    by (auto simp: persistLocked_def sample_env_def replaceUsageFile_def os_Rename_def os_Remove_def
        encodedLocked_def Let_def fun_eq_iff)
  show ?thesis
    using reopen_roundtrip [OF p, of "\<lambda>_. Some sample_record" 3 "\<lambda>_. ''x''" sample_env]
      sz lc
    by (simp add: TrimSpace_def sample_env_def bak_def normal_record_def line_codec_def sample_record_def
        too_old_def record_at_def MaxAge_def duration_defs IsZero_def is_space_def)
qed

section \<open>The bounded live events\<close>

text \<open>Everything that can happen to a broadcaster, in any order and by any subscriber.\<close>

inductive broadcaster_step :: "Broadcaster \<Rightarrow> Broadcaster \<Rightarrow> bool" where
  publish: "broadcaster_step b (Publish now e b)"
| subscribe: "broadcaster_step b (snd (Subscribe b))"
| unsubscribe: "broadcaster_step b (snd (Unsubscribe k used b))"
| receive: "broadcaster_step b (snd (Receive k b))"

inductive broadcaster_reachable :: "int \<Rightarrow> Broadcaster \<Rightarrow> bool" for buffer where
  new: "broadcaster_reachable buffer (NewBroadcaster buffer)"
| step: "broadcaster_reachable buffer b \<Longrightarrow> broadcaster_step b b' \<Longrightarrow> broadcaster_reachable buffer b'"

definition queues_bounded :: "Broadcaster \<Rightarrow> bool" where
  "queues_bounded b \<longleftrightarrow> (\<forall>k q. br_subs b k = Some q \<longrightarrow> length q \<le> br_buffer b)"

lemma offer_bound: "length q \<le> n \<Longrightarrow> length (offer n e q) \<le> n"
  by (simp add: offer_def)

lemma broadcaster_step_bounded:
  "broadcaster_step b b' \<Longrightarrow> queues_bounded b \<Longrightarrow> queues_bounded b' \<and> br_buffer b' = br_buffer b"
proof (induction rule: broadcaster_step.induct)
  case (receive b k)
  have "length (e # q) \<le> br_buffer b" if "br_subs b k = Some (e # q)" for e q
    using receive that unfolding queues_bounded_def by blast
  with receive show ?case
    by (auto simp: queues_bounded_def Receive_def split: option.splits list.splits if_splits dest: Suc_leD)
qed (auto simp: queues_bounded_def Publish_def Subscribe_def Unsubscribe_def Let_def offer_bound
      split: if_splits)

lemma broadcaster_reachable_bounded:
  "broadcaster_reachable buffer b \<Longrightarrow>
   queues_bounded b \<and> br_buffer b = (if buffer \<le> 0 then 16 else nat buffer)"
proof (induction rule: broadcaster_reachable.induct)
  case new
  show ?case by (simp add: NewBroadcaster_def queues_bounded_def)
next
  case (step b b')
  then show ?case using broadcaster_step_bounded [of b b'] by metis
qed

text \<open>No sequence of publications, subscriptions and receives, however slow a subscriber is, makes
  a queue longer than the buffer: a full queue drops the new event and keeps the waiting ones, and the
  others still get it; publishing wakes no one else up and adds no subscriber.\<close>

theorem broadcaster_bounded:
  assumes "broadcaster_reachable buffer b"
  shows "(\<forall>q. br_subs b k = Some q \<longrightarrow> int (length q) \<le> (if buffer \<le> 0 then 16 else buffer)) \<and>
    br_subs (Publish now e b) k = (case br_subs b k of
        None \<Rightarrow> None
      | Some q \<Rightarrow> Some (if int (length q) < (if buffer \<le> 0 then 16 else buffer)
                     then q @ [if IsZero (ue_At e) then e\<lparr>ue_At := now\<rparr> else e] else q))"
proof (intro conjI allI impI)
  have inv: "queues_bounded b" "br_buffer b = (if buffer \<le> 0 then 16 else nat buffer)"
    using broadcaster_reachable_bounded [OF assms] by blast+
  then have len: "br_subs b k = Some q \<Longrightarrow> length q \<le> (if buffer \<le> 0 then 16 else nat buffer)" for q
    using inv(1) unfolding queues_bounded_def inv(2) by blast
  show "int (length q) \<le> (if buffer \<le> 0 then 16 else buffer)" if "br_subs b k = Some q" for q
    using len [OF that] by (cases "buffer \<le> 0") simp_all
  show "br_subs (Publish now e b) k = (case br_subs b k of
        None \<Rightarrow> None
      | Some q \<Rightarrow> Some (if int (length q) < (if buffer \<le> 0 then 16 else buffer)
                     then q @ [if IsZero (ue_At e) then e\<lparr>ue_At := now\<rparr> else e] else q))"
    using inv(2) by (cases "br_subs b k"; cases "buffer \<le> 0") (simp_all add: Publish_def Let_def offer_def nat_less_iff zless_nat_eq_int_zless)
qed

theorem broadcaster_bounded_witness:
  "br_subs (Publish 5 \<lparr>ue_Type = EventCompleted, ue_At = 0, ue_RequestID = [], ue_Attempt = None, ue_Record = None\<rparr>
     (snd (Subscribe (NewBroadcaster 1)))) 1 =
   Some [\<lparr>ue_Type = EventCompleted, ue_At = 5, ue_RequestID = [], ue_Attempt = None, ue_Record = None\<rparr>]"
proof -
  have "broadcaster_reachable 1 (snd (Subscribe (NewBroadcaster 1)))"
    by (intro broadcaster_reachable.step [OF broadcaster_reachable.new] broadcaster_step.subscribe)
  from broadcaster_bounded [OF this, of 1 5] show ?thesis
    by (simp add: Subscribe_def NewBroadcaster_def IsZero_def Let_def)
qed

end
