(* ===== verification/Failover.thy ===== *)
theory Failover
  imports Gateway Usage
begin

text \<open>
  The decisions of \<open>internal/gateway/attempt.go\<close>: the chain of candidates of a request, what an error
  of an attempt means, which candidate comes next, and the commit guard of the failover deadline. The
  readings of the clock that filtering and ranking make are numbered: \<open>clock n\<close> is the n-th one.
\<close>

section \<open>Requests (gateway.go)\<close>

record gatewayTool =
  gt_Type :: gostring
  gt_Name :: gostring
  gt_Description :: gostring
  gt_Parameters :: gostring

record chatCompletionRequest =
  cr_Model :: gostring
  cr_Messages :: "Message list"
  cr_Stream :: bool
  cr_MaxTokens :: int
  cr_Temperature :: "gostring option"
  cr_Tools :: "gatewayTool list"
  cr_ToolChoice :: gostring
  cr_ResponseFormat :: gostring
  cr_Reasoning :: gostring

definition normalizeChatRequest :: "chatCompletionRequest \<Rightarrow> NormalizedRequest" where
  "normalizeChatRequest req =
     \<lparr>nr_Messages = cr_Messages req,
      nr_Tools = map (\<lambda>t. \<lparr>ts_Type = gt_Type t, ts_Name = gt_Name t, ts_Description = gt_Description t,
        ts_Schema = gt_Parameters t\<rparr>) (cr_Tools req),
      nr_ToolChoice = cr_ToolChoice req, nr_ResponseFormat = cr_ResponseFormat req,
      nr_Reasoning = cr_Reasoning req, nr_Stream = cr_Stream req, nr_MaxTokens = cr_MaxTokens req,
      nr_Temperature = cr_Temperature req, nr_Extensions = []\<rparr>"

fun is_image_part :: "json \<Rightarrow> bool" where
  "is_image_part (JObj raw) = (map_of raw ''type'' = Some (JStr ''image_url''))"
| "is_image_part _ = False"

fun has_image :: "json \<Rightarrow> bool" where
  "has_image (JArr parts) = list_ex is_image_part parts"
| "has_image _ = False"

definition filterInputLocked :: "Gateway \<Rightarrow> chatCompletionRequest \<Rightarrow> FilterInput" where
  "filterInputLocked g req =
     \<lparr>fi_ExplicitID = [], fi_Pool = pc_Selected (store_Snapshot (gw_pool g)), fi_Catalog = gw_catalog g,
      fi_Routes = gw_routes g,
      fi_Reqs = \<lparr>req_Streaming = cr_Stream req,
        req_Tools = (length (cr_Tools req) > 0 \<or> length (cr_ToolChoice req) > 0),
        req_Vision = list_ex (\<lambda>m. has_image (msg_Content m)) (cr_Messages req),
        req_StructuredOutput = (length (cr_ResponseFormat req) > 0),
        req_Reasoning = (length (cr_Reasoning req) > 0),
        req_MinContextLength = 0, req_MaxOutputTokens = cr_MaxTokens req\<rparr>,
      fi_AllowPaid = False, fi_AllowUnknown = False, fi_ProtocolCompatible = None,
      fi_Health = Some (gw_health g, 0)\<rparr>"

text \<open>\<open>router.Filter\<close> at a reading of the clock.\<close>

definition filter_at :: "time \<Rightarrow> FilterInput \<Rightarrow> Candidate list" where
  "filter_at now inp = er_Eligible (Filter (inp\<lparr>fi_Health := map_option (\<lambda>(h, _). (h, now)) (fi_Health inp)\<rparr>))"

section \<open>The chain of candidates (attempt.go)\<close>

record attemptCandidate =
  at_Candidate :: Candidate
  at_fallbackOnly :: bool

abbreviation at_Route :: "attemptCandidate \<Rightarrow> ProviderRoute" where
  "at_Route a \<equiv> cd_Route (at_Candidate a)"

abbreviation at_Model :: "attemptCandidate \<Rightarrow> ProviderModel" where
  "at_Model a \<equiv> cd_Model (at_Candidate a)"

text \<open>The first half of \<open>resolveAttemptCandidates\<close>: the ordinary candidates, in order.\<close>

definition normal_candidates :: "Gateway \<Rightarrow> (nat \<Rightarrow> time) \<Rightarrow> gostring \<Rightarrow> FilterInput \<Rightarrow> Candidate list" where
  "normal_candidates g clock mdl base =
     (if mdl \<noteq> [] \<and> \<not> isAutoModel mdl
      then let normal = rankCandidates g (clock 1) (filter_at (clock 0) (base\<lparr>fi_ExplicitID := mdl\<rparr>))
        in if normal = [] then []
           else normal @ rankedUnique g (clock 3) (filter_at (clock 2) (base\<lparr>fi_ExplicitID := []\<rparr>)) normal
      else rankCandidates g (clock 1) (filter_at (clock 0) base))"

definition unknown_candidates :: "Gateway \<Rightarrow> (nat \<Rightarrow> time) \<Rightarrow> gostring \<Rightarrow> FilterInput \<Rightarrow> Candidate list" where
  "unknown_candidates g clock mdl base =
     (let unknownInput = base\<lparr>fi_AllowUnknown := True\<rparr>
      in rankCandidates g (clock 6)
          (if mdl \<noteq> [] \<and> \<not> isAutoModel mdl
           then filter_at (clock 4) (unknownInput\<lparr>fi_ExplicitID := mdl\<rparr>) @
             filter_at (clock 5) (unknownInput\<lparr>fi_ExplicitID := []\<rparr>)
           else filter_at (clock 4) unknownInput))"

definition effective_model :: "Gateway \<Rightarrow> gostring \<Rightarrow> gostring" where
  "effective_model g mdl = (if isAutoModel mdl \<and> gw_pinnedModel g \<noteq> [] then gw_pinnedModel g else mdl)"

definition resolveAttemptCandidates ::
  "Gateway \<Rightarrow> (nat \<Rightarrow> time) \<Rightarrow> chatCompletionRequest \<Rightarrow> attemptCandidate list" where
  "resolveAttemptCandidates g clock req =
     (case gw_catalog g of
        None \<Rightarrow> []
      | Some _ \<Rightarrow>
          let mdl = effective_model g (cr_Model req);
              base = filterInputLocked g req;
              normal = normal_candidates g clock mdl base
          in if mdl \<noteq> [] \<and> \<not> isAutoModel mdl \<and> normal = [] then []
             else map (\<lambda>c. \<lparr>at_Candidate = c, at_fallbackOnly = False\<rparr>) normal @
               map (\<lambda>c. \<lparr>at_Candidate = c, at_fallbackOnly = True\<rparr>)
                 (filter (\<lambda>c. \<not> (rt_ID (cd_Route c) \<in> (\<lambda>d. rt_ID (cd_Route d)) ` set normal \<or>
                     pm_ID (cd_Model c) \<notin> (\<lambda>d. pm_ID (cd_Model d)) ` set normal \<or>
                     EffectiveAccess (cd_Route c) \<noteq> AccessUnknown))
                   (unknown_candidates g clock mdl base)))"

definition resolveCandidate ::
  "Gateway \<Rightarrow> (nat \<Rightarrow> time) \<Rightarrow> chatCompletionRequest \<Rightarrow> (ProviderModelID \<times> ProviderRoute) option" where
  "resolveCandidate g clock req = (case resolveAttemptCandidates g clock req of
       [] \<Rightarrow> None
     | a # _ \<Rightarrow> Some (pm_ID (at_Model a), at_Route a))"

section \<open>What an error means (attempt.go, gateway.go)\<close>

definition fallbackDecision :: "goerr \<Rightarrow> Failure \<times> FailureAction" where
  "fallbackDecision err =
     (case as_Unsupported err of
        Some _ \<Rightarrow> (NewFailure FailureBadRequest ScopeRoute, ActionNextModel)
      | None \<Rightarrow>
     (case as_Failure err of
        Some (failure, _, _) \<Rightarrow>
          (failure,
           if f_Scope failure \<noteq> ScopeRequest \<and>
             (f_Class failure = FailureBadRequest \<or> f_Class failure = FailureProtocol)
           then ActionNextModel else DecideFailureAction failure)
      | None \<Rightarrow>
          if err_Is err ErrCanceled then (NewFailure FailureCanceled ScopeRequest, ActionStop)
          else if err_Is err ErrDeadlineExceeded then (NewFailure FailureTimeout ScopeRoute, ActionNextRoute)
          else case as_NetTimeout err of
            Some timeout \<Rightarrow>
              (NewFailure (if timeout then FailureTimeout else FailureNetwork) ScopeRoute, ActionNextRoute)
          | None \<Rightarrow> (NewFailure FailureUnknown ScopeRequest, ActionStop)))"

definition attemptHTTPStatus :: "goerr option \<Rightarrow> int" where
  "attemptHTTPStatus err = (case err of
       None \<Rightarrow> 200
     | Some e \<Rightarrow>
         (case as_Failure e of
            Some (f, _, status) \<Rightarrow>
              if status > 0 then status
              else (case as_Unsupported e of Some _ \<Rightarrow> 400 | None \<Rightarrow> HTTPStatus f)
          | None \<Rightarrow>
              (case as_Unsupported e of
                 Some _ \<Rightarrow> 400
               | None \<Rightarrow> if err_Is e ErrCanceled then 0 else 502)))"

text \<open>\<open>ctxErr\<close>: the request's context is done (\<open>ctx.Err() != nil\<close>).\<close>

definition isRequestCanceled :: "bool \<Rightarrow> goerr \<Rightarrow> bool" where
  "isRequestCanceled ctxErr err =
     (if ctxErr \<or> err_Is err ErrCanceled then True
      else if err_Is err ErrDeadlineExceeded then ctxErr
      else case as_Failure err of Some (f, _, _) \<Rightarrow> f_Class f = FailureCanceled | None \<Rightarrow> False)"

definition shouldRecordRouteFailure :: "bool \<Rightarrow> goerr \<Rightarrow> bool" where
  "shouldRecordRouteFailure ctxErr err =
     (if isRequestCanceled ctxErr err then False
      else case as_Unsupported err of Some _ \<Rightarrow> False
      | None \<Rightarrow> (case as_Failure err of
            Some (f, _, _) \<Rightarrow> f_Scope f \<noteq> ScopeRequest
          | None \<Rightarrow> True))"

definition failoverBudgetError :: goerr where
  "failoverBudgetError = NewFailureError (NewFailure FailureTimeout ScopeRoute)
     (Some (PlainError ''failover budget exhausted''))"

definition protocolError :: "gostring \<Rightarrow> goerr" where
  "protocolError text = NewFailureError (NewFailure FailureProtocol ScopeRoute) (Some (PlainError text))"

section \<open>Which candidate comes next (attempt.go)\<close>

definition credentialKey :: "ProviderRoute \<Rightarrow> gostring" where
  "credentialKey route =
     (if rt_CredentialID route \<noteq> [] then rt_CredentialID route
      else case str_Index (rt_ID route) ''::'' of
        Some i \<Rightarrow> if i > 0 then take i (rt_ID route) else rt_Provider route
      | None \<Rightarrow> rt_Provider route)"

definition acceptable ::
  "RouteID set \<Rightarrow> Candidate \<Rightarrow> FailureAction \<Rightarrow> attemptCandidate \<Rightarrow> bool" where
  "acceptable attempted previous action c =
     (if rt_ID (at_Route c) \<in> attempted then False
      else if at_fallbackOnly c \<and> pm_ID (at_Model c) \<noteq> pm_ID (cd_Model previous) then False
      else case action of
        ActionNextRoute \<Rightarrow> True
      | ActionNextModel \<Rightarrow> \<not> at_fallbackOnly c \<and> pm_ID (at_Model c) \<noteq> pm_ID (cd_Model previous)
      | ActionDisableCredential \<Rightarrow> credentialKey (at_Route c) \<noteq> credentialKey (cd_Route previous)
      | ActionDisableRoute \<Rightarrow> rt_ID (at_Route c) \<noteq> rt_ID (cd_Route previous)
      | ActionCooldownProvider \<Rightarrow> rt_Provider (at_Route c) \<noteq> rt_Provider (cd_Route previous)
      | ActionStop \<Rightarrow> False)"

definition nextAttemptCandidate ::
  "attemptCandidate list \<Rightarrow> RouteID set \<Rightarrow> Candidate option \<Rightarrow> FailureAction \<Rightarrow> attemptCandidate option" where
  "nextAttemptCandidate candidates attempted previous action =
     (case previous of
        None \<Rightarrow> List.find (\<lambda>c. \<not> at_fallbackOnly c \<and> rt_ID (at_Route c) \<notin> attempted) candidates
      | Some prev \<Rightarrow>
          (case (if action = ActionNextRoute
                 then List.find (\<lambda>c. acceptable attempted prev action c \<and>
                        pm_ID (at_Model c) = pm_ID (cd_Model prev)) candidates
                 else None) of
             Some c \<Rightarrow> Some c
           | None \<Rightarrow> List.find (acceptable attempted prev action) candidates))"

section \<open>The commit guard (attempt.go)\<close>

datatype budget_state = attemptBudgetOpen | attemptBudgetCommitted | attemptBudgetExpired

text \<open>The two compare-and-swap operations: of the timer, and of the attempt that starts to answer.\<close>

definition budget_fire :: "budget_state \<Rightarrow> budget_state" where
  "budget_fire b = (if b = attemptBudgetOpen then attemptBudgetExpired else b)"

definition budget_Commit :: "budget_state \<Rightarrow> bool \<times> budget_state" where
  "budget_Commit b = (if b = attemptBudgetOpen then (True, attemptBudgetCommitted) else (False, b))"

definition budget_Expired :: "budget_state \<Rightarrow> bool" where
  "budget_Expired b = (b = attemptBudgetExpired)"

section \<open>Facts about the choice\<close>

text \<open>What may be attempted next: first an ordinary candidate, afterwards what the action allows.\<close>

definition may_follow :: "RouteID set \<Rightarrow> Candidate option \<Rightarrow> FailureAction \<Rightarrow> attemptCandidate \<Rightarrow> bool" where
  "may_follow attempted previous action c = (case previous of
       None \<Rightarrow> \<not> at_fallbackOnly c \<and> rt_ID (at_Route c) \<notin> attempted
     | Some prev \<Rightarrow> acceptable attempted prev action c)"

lemma acceptable_fresh: "acceptable attempted prev action c \<Longrightarrow> rt_ID (at_Route c) \<notin> attempted"
  by (auto simp: acceptable_def split: if_splits)

lemma may_follow_fresh: "may_follow attempted previous action c \<Longrightarrow> rt_ID (at_Route c) \<notin> attempted"
  by (auto simp: may_follow_def acceptable_fresh split: option.splits)

lemma nextAttemptCandidate_SomeD:
  assumes "nextAttemptCandidate cs attempted previous action = Some c"
  shows "c \<in> set cs \<and> may_follow attempted previous action c"
  using assms
  by (auto simp: nextAttemptCandidate_def may_follow_def dest!: find_SomeD split: option.splits if_splits)

lemma nextAttemptCandidate_None:
  "nextAttemptCandidate cs attempted previous action = None \<longleftrightarrow>
   filter (may_follow attempted previous action) cs = []"
  by (auto simp: nextAttemptCandidate_def may_follow_def find_None_iff filter_empty_conv
      split: option.splits if_splits dest: find_SomeD)

lemma fallbackDecision_request_scope:
  "as_Unsupported e = None \<Longrightarrow> as_Failure e = Some (f, c, s) \<Longrightarrow> f_Scope f = ScopeRequest \<Longrightarrow>
   snd (fallbackDecision e) = ActionStop"
  by (simp add: fallbackDecision_def DecideFailureAction_def)

section \<open>Facts about the chain\<close>

lemma set_unique_routes: "set (unique_routes seen cs) \<subseteq> set cs"
  by (induction cs arbitrary: seen) auto

lemma set_rankedUnique: "set (rankedUnique g now cs ex) \<subseteq> set cs"
  using set_unique_routes by (fastforce simp: rankedUnique_def)

text \<open>A candidate the filter lets through for the base input of a request.\<close>

definition request_reqs :: "Gateway \<Rightarrow> chatCompletionRequest \<Rightarrow> RequestRequirements" where
  "request_reqs g req = fi_Reqs (filterInputLocked g req)"

definition fit_candidate ::
  "Gateway \<Rightarrow> chatCompletionRequest \<Rightarrow> ProviderModelID list \<Rightarrow> bool \<Rightarrow> time \<Rightarrow> Candidate \<Rightarrow> bool" where
  "fit_candidate g req mids allowUnknown now c \<longleftrightarrow>
     (\<exists>cat mid rs. gw_catalog g = Some cat \<and> mid \<in> set mids \<and> snap_models cat mid = Some (cd_Model c) \<and>
        gw_routes g mid = Some rs \<and> cd_Route c \<in> set rs) \<and>
     rt_Enabled (cd_Route c) \<and> Supports (EffectiveCaps c) (request_reqs g req) \<and>
     Available now (gw_health g) (rt_ID (cd_Route c)) \<and>
     (AllowsAutomaticRouting (cd_Route c) \<or> AutoRoutable (EffectiveAccess (cd_Route c)) \<or>
      (allowUnknown \<and> EffectiveAccess (cd_Route c) = AccessUnknown))"

lemma routeAccessAllowed_no_paid:
  "routeAccessAllowed a False u \<longleftrightarrow> AutoRoutable a \<or> (u \<and> a = AccessUnknown)"
  by (cases a) (auto simp: routeAccessAllowed_def)

lemma fit_candidate_access:
  assumes "fit_candidate g req mids u now c"
  shows "EffectiveAccess (cd_Route c) = AccessPaid \<Longrightarrow> rt_AutoRouteAllowed (cd_Route c) = Some True"
    "EffectiveAccess (cd_Route c) = AccessUnknown \<Longrightarrow> rt_AutoRouteAllowed (cd_Route c) = Some True \<or> u"
  using assms by (auto simp: fit_candidate_def AllowsAutomaticRouting_def split: option.splits)

lemma filter_at_fit:
  assumes "c \<in> set (filter_at now ((filterInputLocked g req)\<lparr>fi_AllowUnknown := u, fi_ExplicitID := e\<rparr>))"
  shows "fit_candidate g req (if e \<noteq> [] then [e] else pc_Selected (store_Snapshot (gw_pool g))) u now c"
  using assms
  unfolding filter_at_def Filter_mem_iff
  by (auto simp: fit_candidate_def ids_def filterInputLocked_def route_eligible_def
      routeAccessAllowed_no_paid request_reqs_def EffectiveCaps_def split: if_splits)

lemma fit_candidate_mono:
  "fit_candidate g req mids u now c \<Longrightarrow> set mids \<subseteq> set mids' \<Longrightarrow> fit_candidate g req mids' u now c"
  unfolding fit_candidate_def by blast

lemma fit_candidate_Cons:
  "fit_candidate g req [mid] u now c \<Longrightarrow> \<exists>i. fit_candidate g req (mid # mids) u now c"
  "fit_candidate g req mids u (clock i) c \<Longrightarrow> \<exists>i. fit_candidate g req (mid # mids) u (clock i) c"
  "fit_candidate g req [mid] u (clock i) c \<Longrightarrow> \<exists>i. fit_candidate g req (mid # mids) u (clock i) c"
  unfolding fit_candidate_def by auto

lemma base_input:
  "(filterInputLocked g req)\<lparr>fi_ExplicitID := e\<rparr> = (filterInputLocked g req)\<lparr>fi_AllowUnknown := False, fi_ExplicitID := e\<rparr>"
  "filterInputLocked g req = (filterInputLocked g req)\<lparr>fi_AllowUnknown := False, fi_ExplicitID := []\<rparr>"
  "(filterInputLocked g req)\<lparr>fi_AllowUnknown := u\<rparr> = (filterInputLocked g req)\<lparr>fi_AllowUnknown := u, fi_ExplicitID := []\<rparr>"
  by (simp_all add: filterInputLocked_def)

abbreviation pool_of :: "Gateway \<Rightarrow> ProviderModelID list" where
  "pool_of g \<equiv> pc_Selected (store_Snapshot (gw_pool g))"

lemma normal_candidates_fit:
  assumes "c \<in> set (normal_candidates g clock mdl (filterInputLocked g req))"
  shows "\<exists>i. fit_candidate g req (if mdl \<noteq> [] \<and> \<not> isAutoModel mdl then mdl # pool_of g else pool_of g)
    False (clock i) c"
proof (cases "mdl \<noteq> [] \<and> \<not> isAutoModel mdl")
  case True
  then have "c \<in> set (filter_at (clock 0) ((filterInputLocked g req)\<lparr>fi_AllowUnknown := False, fi_ExplicitID := mdl\<rparr>)) \<or>
    c \<in> set (filter_at (clock 2) ((filterInputLocked g req)\<lparr>fi_AllowUnknown := False, fi_ExplicitID := []\<rparr>))"
    using assms set_rankedUnique
    by (fastforce simp: normal_candidates_def base_input(1) [symmetric] Let_def split: if_splits)
  then show ?thesis using True
    by (auto dest!: filter_at_fit intro: fit_candidate_Cons)
next
  case False
  then have "c \<in> set (filter_at (clock 0) ((filterInputLocked g req)\<lparr>fi_AllowUnknown := False, fi_ExplicitID := []\<rparr>))"
    using assms unfolding normal_candidates_def if_not_P [OF False] base_input(2) [symmetric] by simp
  then show ?thesis using False by (auto dest!: filter_at_fit)
qed

lemma unknown_candidates_fit:
  assumes "c \<in> set (unknown_candidates g clock mdl (filterInputLocked g req))"
  shows "\<exists>i. fit_candidate g req (if mdl \<noteq> [] \<and> \<not> isAutoModel mdl then mdl # pool_of g else pool_of g)
    True (clock i) c"
proof (cases "mdl \<noteq> [] \<and> \<not> isAutoModel mdl")
  case True
  then have "c \<in> set (filter_at (clock 4) ((filterInputLocked g req)\<lparr>fi_AllowUnknown := True, fi_ExplicitID := mdl\<rparr>)) \<or>
    c \<in> set (filter_at (clock 5) ((filterInputLocked g req)\<lparr>fi_AllowUnknown := True, fi_ExplicitID := []\<rparr>))"
    using assms by (simp add: unknown_candidates_def Let_def)
  then show ?thesis using True
    by (auto dest!: filter_at_fit intro: fit_candidate_Cons)
next
  case False
  then have "c \<in> set (filter_at (clock 4) ((filterInputLocked g req)\<lparr>fi_AllowUnknown := True, fi_ExplicitID := []\<rparr>))"
    using assms unfolding unknown_candidates_def Let_def if_not_P [OF False] base_input(3) [symmetric] by simp
  then show ?thesis using False by (auto dest!: filter_at_fit)
qed

lemma normal_candidates_first:
  assumes "mdl \<noteq> []" and "\<not> isAutoModel mdl" and "normal_candidates g clock mdl (filterInputLocked g req) = c # cs"
  shows "\<exists>i. fit_candidate g req [mdl] False (clock i) c"
proof -
  have "c \<in> set (filter_at (clock 0) ((filterInputLocked g req)\<lparr>fi_AllowUnknown := False, fi_ExplicitID := mdl\<rparr>))"
  proof -
    let ?n = "rankCandidates g (clock 1) (filter_at (clock 0) ((filterInputLocked g req)\<lparr>fi_ExplicitID := mdl\<rparr>))"
    from assms have "?n \<noteq> []" and "\<exists>more. ?n @ more = c # cs"
      by (auto simp: normal_candidates_def Let_def split: if_splits)
    then have "?n \<noteq> []" and "hd ?n = c" by (metis hd_append2 list.sel(1))+
    then have "c \<in> set ?n" by (cases ?n) auto
    then show ?thesis by (simp add: base_input(1) [symmetric])
  qed
  then show ?thesis using assms(1) by (auto dest!: filter_at_fit)
qed

section \<open>Properties\<close>

text \<open>The candidate tried next is one of the chain, was not tried before, is the first an ordinary
  one, and afterwards one the last failure's action allows (another model, another credential, another
  provider, a fallback route only for the same model); after a failure that suggests another route, one
  of the same model is preferred; there is none exactly when nothing in the chain qualifies.\<close>

theorem nextAttemptCandidate_spec:
  "case nextAttemptCandidate cs attempted previous action of
     None \<Rightarrow> filter (may_follow attempted previous action) cs = []
   | Some c \<Rightarrow> c \<in> set cs \<and> may_follow attempted previous action c \<and> rt_ID (at_Route c) \<notin> attempted \<and>
       (\<forall>prev. previous = Some prev \<and> action = ActionNextRoute \<and> pm_ID (at_Model c) \<noteq> pm_ID (cd_Model prev) \<longrightarrow>
          (\<forall>d \<in> set cs. may_follow attempted previous action d \<longrightarrow> pm_ID (at_Model d) \<noteq> pm_ID (cd_Model prev)))"
proof (cases "nextAttemptCandidate cs attempted previous action")
  case None
  then have "filter (may_follow attempted previous action) cs = []" by (rule nextAttemptCandidate_None [THEN iffD1])
  then show ?thesis unfolding None option.case .
next
  case (Some c)
  then have "may_follow attempted previous action c" "c \<in> set cs" by (auto dest: nextAttemptCandidate_SomeD)
  moreover have "pm_ID (at_Model d) \<noteq> pm_ID (cd_Model prev)"
    if "previous = Some prev" "action = ActionNextRoute" "pm_ID (at_Model c) \<noteq> pm_ID (cd_Model prev)"
      "d \<in> set cs" "may_follow attempted previous action d" for prev d
    using Some that
    by (auto simp: nextAttemptCandidate_def may_follow_def find_None_iff dest!: find_SomeD split: option.splits)
  ultimately show ?thesis using Some may_follow_fresh by auto
qed

definition sample_chain :: "attemptCandidate list" where
  "sample_chain = [\<lparr>at_Candidate = sample_candidate ''r1'' ''p/a'', at_fallbackOnly = False\<rparr>,
     \<lparr>at_Candidate = sample_candidate ''r2'' ''p/b'', at_fallbackOnly = False\<rparr>,
     \<lparr>at_Candidate = sample_candidate ''r3'' ''p/a'', at_fallbackOnly = True\<rparr>]"

theorem nextAttemptCandidate_spec_witness:
  "map_option (rt_ID \<circ> at_Route) (nextAttemptCandidate sample_chain {''r1''}
     (Some (sample_candidate ''r1'' ''p/a'')) ActionNextRoute) = Some ''r3''"
proof -
  have "nextAttemptCandidate sample_chain {''r1''} (Some (sample_candidate ''r1'' ''p/a'')) ActionNextRoute \<noteq> None"
    by (simp add: nextAttemptCandidate_None sample_chain_def may_follow_def acceptable_def sample_candidate_def
        sample_route_def sample_model_def)
  then show ?thesis
    using nextAttemptCandidate_spec [where cs = sample_chain and attempted = "{''r1''}" and
        previous = "Some (sample_candidate ''r1'' ''p/a'')" and action = ActionNextRoute]
    by (auto simp: sample_chain_def may_follow_def acceptable_def sample_candidate_def sample_route_def
        sample_model_def)
qed


text \<open>What an error means for the failover: a request-scoped or cancelled one never moves on, an
  unsupported parameter or a bad answer of a route moves to another model, a timeout or network error to
  another route; and an error that stops the failover as request-scoped is charged to the route's health
  only when it is one the gateway cannot classify.\<close>

theorem fallbackDecision_spec:
  "(as_Unsupported e \<noteq> None \<longrightarrow> snd (fallbackDecision e) = ActionNextModel) \<and>
   (as_Unsupported e = None \<longrightarrow>
     (\<forall>f c s. as_Failure e = Some (f, c, s) \<longrightarrow> fst (fallbackDecision e) = f \<and>
        (f_Scope f = ScopeRequest \<or> f_Class f = FailureCanceled \<longrightarrow> snd (fallbackDecision e) = ActionStop) \<and>
        snd (fallbackDecision e) \<noteq> ActionDisableRoute) \<and>
     (as_Failure e = None \<longrightarrow>
        (err_Is e ErrCanceled \<longrightarrow> snd (fallbackDecision e) = ActionStop) \<and>
        (\<not> err_Is e ErrCanceled \<and> (err_Is e ErrDeadlineExceeded \<or> as_NetTimeout e \<noteq> None) \<longrightarrow>
           snd (fallbackDecision e) = ActionNextRoute))) \<and>
   (f_Scope (fst (fallbackDecision e)) = ScopeRequest \<longrightarrow> snd (fallbackDecision e) = ActionStop \<and>
     (shouldRecordRouteFailure False e \<longrightarrow> as_Failure e = None \<and> f_Class (fst (fallbackDecision e)) = FailureUnknown))"
  by (auto simp: fallbackDecision_def DecideFailureAction_def shouldRecordRouteFailure_def isRequestCanceled_def
      split: option.splits FailureClass.splits FailureScope.splits if_splits)

theorem fallbackDecision_spec_witness:
  "snd (fallbackDecision (NewFailureError (NewFailure FailureServerError ScopeRequest) (Some (PlainError ''x'')))) = ActionStop"
  using fallbackDecision_spec [of "NewFailureError (NewFailure FailureServerError ScopeRequest) (Some (PlainError ''x''))"]
  by simp

text \<open>A gateway with one free model on one route, and a request for it.\<close>

definition chat_gateway :: Gateway where
  "chat_gateway = (newGatewayState (DefaultFailoverPolicy [] []))
     \<lparr>gw_catalog := Some (sample_snap [''p/a'']),
      gw_routes := [''p/a'' \<mapsto> [sample_route ''r1'' ''p/a'' AccessFree]],
      gw_pool := NewStore (Some (NewPoolState (Some (zeroConfig\<lparr>pc_Selected := [''p/a'']\<rparr>))))\<rparr>"

definition chat_request :: chatCompletionRequest where
  "chat_request = \<lparr>cr_Model = ''p/a'',
     cr_Messages = [\<lparr>msg_Role = ''user'', msg_Content = JStr ''hi'', msg_ToolCalls = [], msg_ToolCallID = [], msg_Name = []\<rparr>],
     cr_Stream = True, cr_MaxTokens = 0, cr_Temperature = None, cr_Tools = [], cr_ToolChoice = [],
     cr_ResponseFormat = [], cr_Reasoning = []\<rparr>"

lemma chat_filter:
  "filter_at now ((filterInputLocked chat_gateway chat_request)\<lparr>fi_ExplicitID := e\<rparr>) =
     (if e = [] \<or> e = ''p/a'' then [sample_candidate ''r1'' ''p/a''] else [])"
  "filter_at now ((filterInputLocked chat_gateway chat_request)\<lparr>fi_AllowUnknown := True, fi_ExplicitID := e\<rparr>) =
     (if e = [] \<or> e = ''p/a'' then [sample_candidate ''r1'' ''p/a''] else [])"
  by (simp_all add: filter_at_def Filter_def filterInputLocked_def chat_gateway_def chat_request_def ids_def
      snap_models_def sample_snap_def filter_route_def sample_route_def sample_model_def sample_candidate_def
      Supports_def State_def IsUnknown_def EffectiveCapabilities_def AllowsAutomaticRouting_def
      EffectiveAccess_def newGatewayState_def NewStore_def NewPoolState_def zeroConfig_def Available_def
      health_New_def exclude_def)

lemma rankCandidates_single [simp]: "rankCandidates g now [c] = [c]"
  by (simp add: rankCandidates_def Rank_def RankWithScore_def Let_def)

lemma chat_chain:
  "resolveAttemptCandidates chat_gateway clock chat_request =
     [\<lparr>at_Candidate = sample_candidate ''r1'' ''p/a'', at_fallbackOnly = False\<rparr>]"
proof -
  have eff: "effective_model chat_gateway (cr_Model chat_request) = ''p/a''"
    by (simp add: effective_model_def chat_request_def isAutoModel_def ExternalAutoModel_def legacyExternalAutoModel_def)
  have auto: "\<not> isAutoModel ''p/a''"
    by (simp add: isAutoModel_def ExternalAutoModel_def legacyExternalAutoModel_def)
  have "gw_catalog chat_gateway = Some (sample_snap [''p/a''])" by (simp add: chat_gateway_def)
  then show ?thesis
    by (simp add: resolveAttemptCandidates_def eff auto normal_candidates_def unknown_candidates_def chat_filter
        rankedUnique_def Let_def)
qed


end
