(* ===== verification/Attempt.thy ===== *)
theory Attempt
  imports Failover
begin

text \<open>
  The requests of \<open>internal/gateway/attempt.go\<close>: one attempt on one candidate, streaming or not, and
  the handler that runs attempts until one answers. What the outside does during an attempt is a
  script: how the slot, the chat call and each read of the stream come out, the clock readings, whether
  the client is gone, and at which points the failover deadline fires. A script that ends before the
  attempt does gives \<open>None\<close>: the attempt still waits. Attempts run on the gateway's state by
  themselves; what other requests do to it meanwhile is not part of this model.
\<close>

section \<open>What the client sees (gateway.go)\<close>

record chatChunk =
  ck_Model :: gostring
  ck_Index :: int
  ck_Content :: gostring
  ck_ToolCalls :: "gostring list"
  ck_Reasoning :: gostring
  ck_Finish :: "gostring option"

record chatResponse =
  cp_Model :: gostring
  cp_Content :: gostring
  cp_ToolCalls :: "gostring list"
  cp_Reasoning :: gostring
  cp_Finish :: gostring

datatype http_out =
    OutHeader gostring gostring
  | OutError int gostring
  | OutResponse chatResponse
  | OutChunk chatChunk
  | OutSSEError gostring
  | OutDone

definition chunk_of :: "Candidate \<Rightarrow> StreamEvent \<Rightarrow> chatChunk" where
  "chunk_of cand e = \<lparr>ck_Model = pm_ID (cd_Model cand), ck_Index = ev_ChoiceIndex e, ck_Content = ev_DeltaText e,
     ck_ToolCalls = ev_ToolCalls e, ck_Reasoning = ev_ReasoningContent e,
     ck_Finish = (if ev_FinishReason e \<noteq> [] then Some (ev_FinishReason e) else None)\<rparr>"

definition sse_headers :: "http_out list" where
  "sse_headers = [OutHeader ''Content-Type'' ''text/event-stream'', OutHeader ''Cache-Control'' ''no-cache'',
     OutHeader ''Connection'' ''keep-alive'']"

definition writeUpstreamError :: "goerr \<Rightarrow> http_out list" where
  "writeUpstreamError err =
     (case as_Unsupported err of
        Some _ \<Rightarrow> [OutError 400 (err_Error err)]
      | None \<Rightarrow> (case as_Failure err of
            Some (f, _, _) \<Rightarrow> if f_Class f = FailureCanceled then [] else [OutError (HTTPStatus f) (err_Error err)]
          | None \<Rightarrow> [OutError 502 (err_Error err)]))"

definition durationMilliseconds :: "duration \<Rightarrow> float64" where
  "durationMilliseconds d = fdiv (float_of_int d) (float_of_int Millisecond)"

section \<open>What an attempt reports (attempt.go)\<close>

record usageCollector =
  uc_attempts :: "AttemptRecord list"
  uc_finalModel :: ProviderModelID
  uc_finalRoute :: RouteID
  uc_provider :: gostring
  uc_tokens :: TokenUsage
  uc_result :: Outcome

definition new_collector :: usageCollector where
  "new_collector = \<lparr>uc_attempts = [], uc_finalModel = [], uc_finalRoute = [], uc_provider = [],
     uc_tokens = no_tokens, uc_result = ResultNone\<rparr>"

definition attempt_record ::
  "time \<Rightarrow> Candidate \<Rightarrow> time \<Rightarrow> float64 \<Rightarrow> bool \<Rightarrow> TokenUsage \<Rightarrow> goerr option \<Rightarrow> nat \<Rightarrow> AttemptRecord" where
  "attempt_record now cand started ttftMs committed tokens err n =
     \<lparr>ar_Index = int n + 1, ar_ProviderModel = pm_ID (cd_Model cand), ar_Route = rt_ID (cd_Route cand),
      ar_FailureClass = (case err of None \<Rightarrow> FailureClassOther [] | Some e \<Rightarrow> f_Class (fst (fallbackDecision e))),
      ar_FailureScope = (case err of None \<Rightarrow> ScopeOther [] | Some e \<Rightarrow> f_Scope (fst (fallbackDecision e))),
      ar_TTFTMs = ttftMs, ar_TotalLatencyMs = durationMilliseconds (time_Sub now started),
      ar_Committed = committed, ar_HTTPStatus = attemptHTTPStatus err, ar_Tokens = tokens\<rparr>"

definition attempt_result :: "bool \<Rightarrow> bool \<Rightarrow> goerr option \<Rightarrow> Outcome \<Rightarrow> Outcome" where
  "attempt_result ctxErr committed err result = (case err of
       None \<Rightarrow> ResultSuccess
     | Some e \<Rightarrow>
         if isRequestCanceled ctxErr e then ResultCanceled
         else if committed then ResultPartial
         else if result = ResultNone \<or> result = ResultSuccess then ResultFailure
         else result)"

definition collector_record ::
  "bool \<Rightarrow> time \<Rightarrow> Candidate \<Rightarrow> time \<Rightarrow> float64 \<Rightarrow> bool \<Rightarrow> TokenUsage \<Rightarrow> goerr option \<Rightarrow>
   usageCollector \<Rightarrow> usageCollector" where
  "collector_record ctxErr now cand started ttftMs committed tokens err c =
     (let c = c\<lparr>uc_result := attempt_result ctxErr committed err (uc_result c),
            uc_attempts := uc_attempts c @
              [attempt_record now cand started ttftMs committed tokens err (length (uc_attempts c))]\<rparr>
      in if committed
         then let c = c\<lparr>uc_finalModel := pm_ID (cd_Model cand), uc_finalRoute := rt_ID (cd_Route cand),
                     uc_provider := rt_Provider (cd_Route cand)\<rparr>
              in if tokens \<noteq> no_tokens then c\<lparr>uc_tokens := tokens\<rparr> else c
         else c)"

section \<open>One attempt (attempt.go)\<close>

text \<open>
  One return of \<open>stream.Next\<close>. \<open>ni_fired\<close>: the deadline fired before the check that follows it;
  \<open>ni_fired2\<close>: between that check and the commit; \<open>ni_canceled\<close>: the client is gone by then.
\<close>

record NextItem =
  ni_result :: "goerr + StreamEvent"
  ni_fired :: bool
  ni_fired2 :: bool
  ni_now :: time
  ni_canceled :: bool

record AttemptScript =
  as_ctxErr :: bool
  as_loopNow :: time
  as_started :: time
  as_slot :: "goerr option"
  as_slotFired :: bool
  as_timer :: time
  as_chat :: "goerr + NextItem list option"
  as_chatFired :: bool
  as_now :: time
  as_canceled :: bool
  as_doneNow :: time
  as_doneCanceled :: bool

record AttemptOutcome =
  ao_handled :: bool
  ao_err :: "goerr option"
  ao_ttft :: float64
  ao_tokens :: TokenUsage
  ao_committed :: bool
  ao_out :: "http_out list"
  ao_gw :: Gateway

definition start_outcome :: "Gateway \<Rightarrow> AttemptOutcome" where
  "start_outcome g = \<lparr>ao_handled = False, ao_err = None, ao_ttft = Fin 0, ao_tokens = no_tokens,
     ao_committed = False, ao_out = [], ao_gw = g\<rparr>"

definition fire_if :: "bool \<Rightarrow> budget_state \<Rightarrow> budget_state" where
  "fire_if fired b = (if fired then budget_fire b else b)"

definition recordAttemptFailure ::
  "bool \<Rightarrow> time \<Rightarrow> Candidate \<Rightarrow> Timer \<Rightarrow> float64 \<Rightarrow> goerr \<Rightarrow> Gateway \<Rightarrow> Gateway" where
  "recordAttemptFailure ctxErr now cand timer ttftMs err g =
     (if \<not> shouldRecordRouteFailure ctxErr err then g
      else let r = rt_ID (cd_Route cand)
        in g\<lparr>gw_latency := RecordRequest now r ttftMs (durationMilliseconds (Elapsed now timer)) (gw_latency g),
             gw_health := RouteFailure now r 0 (gw_health g)\<rparr>)"

text \<open>An attempt that ends with \<open>return false, err\<close> after recording the failure.\<close>

definition fail_attempt ::
  "bool \<Rightarrow> time \<Rightarrow> Candidate \<Rightarrow> Timer \<Rightarrow> float64 \<Rightarrow> goerr \<Rightarrow> AttemptOutcome \<Rightarrow> AttemptOutcome" where
  "fail_attempt ctxErr now cand timer ttftMs err a =
     a\<lparr>ao_handled := False, ao_err := Some err,
       ao_gw := recordAttemptFailure ctxErr now cand timer ttftMs err (ao_gw a)\<rparr>"

definition failAttemptWithBudget ::
  "bool \<Rightarrow> time \<Rightarrow> Candidate \<Rightarrow> Timer \<Rightarrow> AttemptOutcome \<Rightarrow> AttemptOutcome" where
  "failAttemptWithBudget ctxErr now cand timer a =
     fail_attempt ctxErr now cand timer (ao_ttft a) failoverBudgetError a"

text \<open>The end of an attempt that answered: latency and health of its route.\<close>

definition succeed_attempt :: "time \<Rightarrow> Candidate \<Rightarrow> Timer \<Rightarrow> AttemptOutcome \<Rightarrow> AttemptOutcome" where
  "succeed_attempt now cand timer a =
     (let r = rt_ID (cd_Route cand); g = ao_gw a
      in a\<lparr>ao_handled := True, ao_err := None,
           ao_gw := g\<lparr>gw_latency := RecordRequest now r (ao_ttft a) (durationMilliseconds (Elapsed now timer)) (gw_latency g),
             gw_health := RouteSuccess r (gw_health g)\<rparr>\<rparr>)"

definition note_ttft :: "time \<Rightarrow> Timer \<times> bool \<Rightarrow> AttemptOutcome \<Rightarrow> (Timer \<times> bool) \<times> AttemptOutcome" where
  "note_ttft now tr a = (case tr of (timer, recordedTTFT) \<Rightarrow>
     if recordedTTFT then (tr, a)
     else case OnSemanticEvent now timer of
       (timer, Some d) \<Rightarrow> ((timer, True), a\<lparr>ao_ttft := durationMilliseconds d\<rparr>)
     | (timer, None) \<Rightarrow> ((timer, False), a))"

definition note_usage :: "StreamEvent \<Rightarrow> AttemptOutcome \<Rightarrow> AttemptOutcome" where
  "note_usage e a = (case ev_Usage e of None \<Rightarrow> a | Some u \<Rightarrow> a\<lparr>ao_tokens := u\<rparr>)"

definition put :: "http_out list \<Rightarrow> AttemptOutcome \<Rightarrow> AttemptOutcome" where
  "put xs a = a\<lparr>ao_out := ao_out a @ xs\<rparr>"

definition endedEarly :: goerr where
  "endedEarly = protocolError ''upstream ended before first semantic event''"

text \<open>\<open>commit()\<close> of a streaming attempt, if it has not committed yet.\<close>

definition try_commit :: "budget_state \<Rightarrow> AttemptOutcome \<Rightarrow> (budget_state \<times> AttemptOutcome) option" where
  "try_commit b a =
     (if ao_committed a then Some (b, a)
      else case budget_Commit b of
        (True, b) \<Rightarrow> Some (b, put sse_headers a\<lparr>ao_committed := True\<rparr>)
      | (False, b) \<Rightarrow> None)"

fun stream_loop ::
  "Candidate \<Rightarrow> NextItem list \<Rightarrow> budget_state \<Rightarrow> Timer \<times> bool \<Rightarrow> AttemptOutcome \<Rightarrow> AttemptOutcome option" where
  "stream_loop cand [] b tr a = None"
| "stream_loop cand (it # items) b tr a =
     (let b = fire_if (ni_fired it) b; timer = fst tr
      in if budget_Expired b \<and> \<not> ao_committed a
         then Some (failAttemptWithBudget (ni_canceled it) (ni_now it) cand timer a)
         else case ni_result it of
           Inl e \<Rightarrow>
             if err_Is e ErrEOF
             then (if \<not> ao_committed a
                   then Some (fail_attempt (ni_canceled it) (ni_now it) cand timer (Fin 0) endedEarly a)
                   else Some (succeed_attempt (ni_now it) cand timer (put [OutDone] a)))
             else if \<not> ao_committed a
             then Some (fail_attempt (ni_canceled it) (ni_now it) cand timer (ao_ttft a) e a)
             else if isRequestCanceled (ni_canceled it) e
             then Some (a\<lparr>ao_handled := True, ao_err := Some e\<rparr>)
             else Some (put [OutSSEError (err_Error e)]
               (fail_attempt (ni_canceled it) (ni_now it) cand timer (ao_ttft a) e a)\<lparr>ao_handled := True\<rparr>)
         | Inr e \<Rightarrow>
             if \<not> Semantic e then stream_loop cand items b tr a
             else let (tr, a) = note_ttft (ni_now it) tr a; a = note_usage e a
               in case try_commit (fire_if (ni_fired2 it) b) a of
                 None \<Rightarrow> Some (failAttemptWithBudget (ni_canceled it) (ni_now it) cand (fst tr) a)
               | Some (b, a) \<Rightarrow>
                   let a = put [OutChunk (chunk_of cand e)] a
                   in if ev_FinishReason e \<noteq> []
                      then Some (succeed_attempt (ni_now it) cand (fst tr) (put [OutDone] a))
                      else stream_loop cand items b tr a)"

text \<open>What a non-streaming attempt has collected so far: text, tool calls, reasoning.\<close>

type_synonym collected = "gostring \<times> gostring list \<times> gostring"

definition finish_response ::
  "Candidate \<Rightarrow> time \<Rightarrow> Timer \<Rightarrow> gostring \<Rightarrow> collected \<Rightarrow> AttemptOutcome \<Rightarrow> AttemptOutcome" where
  "finish_response cand now timer finish c a = (case c of (text, toolCalls, reasoning) \<Rightarrow>
     succeed_attempt now cand timer
       ((put [OutResponse \<lparr>cp_Model = pm_ID (cd_Model cand), cp_Content = text, cp_ToolCalls = toolCalls,
          cp_Reasoning = reasoning, cp_Finish = finish\<rparr>] a)\<lparr>ao_committed := True\<rparr>))"

fun collect_loop ::
  "Candidate \<Rightarrow> NextItem list \<Rightarrow> budget_state \<Rightarrow> Timer \<times> bool \<Rightarrow> collected \<Rightarrow> AttemptOutcome \<Rightarrow>
   AttemptOutcome option" where
  "collect_loop cand [] b tr c a = None"
| "collect_loop cand (it # items) b tr c a =
     (let b = fire_if (ni_fired it) b
      in if budget_Expired b then Some (failAttemptWithBudget (ni_canceled it) (ni_now it) cand (fst tr) a)
         else case ni_result it of
           Inl e \<Rightarrow>
             if err_Is e ErrEOF
             then (if \<not> snd tr
                   then Some (fail_attempt (ni_canceled it) (ni_now it) cand (fst tr) (Fin 0) endedEarly a)
                   else Some (finish_response cand (ni_now it) (fst tr) [] c a))
             else Some (fail_attempt (ni_canceled it) (ni_now it) cand (fst tr) (ao_ttft a) e a)
         | Inr e \<Rightarrow>
             let (text, toolCalls, reasoning) = c;
                 c = (text @ ev_DeltaText e, toolCalls @ ev_ToolCalls e, reasoning @ ev_ReasoningContent e);
                 (tr, a) = (if Semantic e then note_ttft (ni_now it) tr a else (tr, a));
                 a = note_usage e a
             in if ev_FinishReason e \<noteq> []
                then Some (finish_response cand (ni_now it) (fst tr) (ev_FinishReason e) c a)
                else collect_loop cand items b tr c a)"

definition attempt_body :: "bool \<Rightarrow> AttemptScript \<Rightarrow> Candidate \<Rightarrow> Gateway \<Rightarrow> AttemptOutcome option" where
  "attempt_body streaming sc cand g =
     (let timer = Start (as_timer sc); a = start_outcome g;
          b = fire_if (as_chatFired sc) (fire_if (as_slotFired sc) attemptBudgetOpen)
      in case as_chat sc of
        Inl e \<Rightarrow>
          Some (fail_attempt (as_canceled sc) (as_now sc) cand timer (Fin 0)
            (if budget_Expired b then failoverBudgetError else e) a)
      | Inr None \<Rightarrow>
          Some (fail_attempt (as_canceled sc) (as_now sc) cand timer (Fin 0)
            (protocolError ''provider returned nil chat stream'') a)
      | Inr (Some items) \<Rightarrow>
          if streaming then stream_loop cand items b (timer, False) a
          else collect_loop cand items b (timer, False) ([], [], []) a)"

text \<open>The slot a granted \<open>AcquireSlot\<close> takes.\<close>

definition take_slot :: "gostring \<Rightarrow> Manager \<Rightarrow> Manager" where
  "take_slot p m = m\<lparr>hm_inFlight := (hm_inFlight m)(p := hm_inFlight m p + 1)\<rparr>"

definition run_attempt :: "bool \<Rightarrow> AttemptScript \<Rightarrow> Candidate \<Rightarrow> Gateway \<Rightarrow> AttemptOutcome option" where
  "run_attempt streaming sc cand g =
     (case as_slot sc of
        Some e \<Rightarrow> Some ((start_outcome g)\<lparr>ao_err := Some
          (if budget_Expired (fire_if (as_slotFired sc) attemptBudgetOpen) then failoverBudgetError else e)\<rparr>)
      | None \<Rightarrow>
          map_option (\<lambda>a. a\<lparr>ao_gw := (ao_gw a)\<lparr>gw_health :=
              ReleaseSlot (rt_Provider (cd_Route cand)) (gw_health (ao_gw a))\<rparr>\<rparr>)
            (attempt_body streaming sc cand
              (g\<lparr>gw_health := take_slot (rt_Provider (cd_Route cand)) (gw_health g)\<rparr>)))"

lemma take_slot_acquire:
  "acquire_try None p m = TrySlot m' \<Longrightarrow> m' = take_slot p m"
  by (auto simp: acquire_try_def take_slot_def split: if_splits)

section \<open>What the steps of an attempt change\<close>

lemma fail_attempt_sel [simp]:
  "ao_handled (fail_attempt x now cand t ttft e a) = False"
  "ao_err (fail_attempt x now cand t ttft e a) = Some e"
  "ao_committed (fail_attempt x now cand t ttft e a) = ao_committed a"
  "ao_out (fail_attempt x now cand t ttft e a) = ao_out a"
  "ao_ttft (fail_attempt x now cand t ttft e a) = ao_ttft a"
  "ao_tokens (fail_attempt x now cand t ttft e a) = ao_tokens a"
  by (simp_all add: fail_attempt_def)

lemma failAttemptWithBudget_sel [simp]:
  "ao_handled (failAttemptWithBudget x now cand t a) = False"
  "ao_err (failAttemptWithBudget x now cand t a) = Some failoverBudgetError"
  "ao_committed (failAttemptWithBudget x now cand t a) = ao_committed a"
  "ao_out (failAttemptWithBudget x now cand t a) = ao_out a"
  by (simp_all add: failAttemptWithBudget_def)

lemma succeed_attempt_sel [simp]:
  "ao_handled (succeed_attempt now cand t a) = True"
  "ao_err (succeed_attempt now cand t a) = None"
  "ao_committed (succeed_attempt now cand t a) = ao_committed a"
  "ao_out (succeed_attempt now cand t a) = ao_out a"
  "ao_ttft (succeed_attempt now cand t a) = ao_ttft a"
  "ao_tokens (succeed_attempt now cand t a) = ao_tokens a"
  by (simp_all add: succeed_attempt_def Let_def)

lemma put_sel [simp]:
  "ao_handled (put xs a) = ao_handled a" "ao_err (put xs a) = ao_err a"
  "ao_committed (put xs a) = ao_committed a" "ao_out (put xs a) = ao_out a @ xs" "ao_gw (put xs a) = ao_gw a"
  "ao_ttft (put xs a) = ao_ttft a" "ao_tokens (put xs a) = ao_tokens a"
  by (simp_all add: put_def)

lemma note_usage_sel [simp]:
  "ao_handled (note_usage e a) = ao_handled a" "ao_err (note_usage e a) = ao_err a"
  "ao_committed (note_usage e a) = ao_committed a" "ao_out (note_usage e a) = ao_out a"
  "ao_gw (note_usage e a) = ao_gw a" "ao_ttft (note_usage e a) = ao_ttft a"
  by (simp_all add: note_usage_def split: option.split)

lemma note_ttft_sel [simp]:
  "ao_handled (snd (note_ttft now tr a)) = ao_handled a" "ao_err (snd (note_ttft now tr a)) = ao_err a"
  "ao_committed (snd (note_ttft now tr a)) = ao_committed a" "ao_out (snd (note_ttft now tr a)) = ao_out a"
  "ao_gw (snd (note_ttft now tr a)) = ao_gw a"
  by (simp_all add: note_ttft_def split: prod.splits option.splits)

lemma note_ttft_D:
  assumes "(if c then note_ttft now tr a else (tr, a)) = (tr', a')"
  shows "ao_out a' = ao_out a \<and> ao_committed a' = ao_committed a \<and> ao_gw a' = ao_gw a \<and>
    ao_handled a' = ao_handled a \<and> ao_err a' = ao_err a"
  using assms note_ttft_sel [of now tr a] by (cases c) auto

text \<open>The committed outcome after \<open>commit()\<close>, or the refusal of an expired deadline.\<close>

lemma try_commit_SomeD:
  assumes "try_commit b a = Some (b', a')"
  shows "ao_committed a' \<and> ao_handled a' = ao_handled a \<and> ao_err a' = ao_err a \<and> ao_gw a' = ao_gw a \<and>
    ao_out a' = (if ao_committed a then ao_out a else ao_out a @ sse_headers)"
  using assms by (auto simp: try_commit_def budget_Commit_def split: if_splits)

lemma try_commit_NoneD: "try_commit b a = None \<Longrightarrow> \<not> ao_committed a \<and> b \<noteq> attemptBudgetOpen"
  by (auto simp: try_commit_def budget_Commit_def split: if_splits)

section \<open>The commit guard\<close>

text \<open>
  An attempt that has written: the headers, then chunks of its own model. \<open>stream_open\<close> holds while a
  stream is read, \<open>answer_ok\<close> of every outcome.
\<close>

definition stream_text :: "Candidate \<Rightarrow> http_out list \<Rightarrow> bool" where
  "stream_text cand xs \<longleftrightarrow> (\<exists>evs. evs \<noteq> [] \<and> xs = sse_headers @ map (OutChunk \<circ> chunk_of cand) evs)"

definition stream_open :: "Candidate \<Rightarrow> AttemptOutcome \<Rightarrow> bool" where
  "stream_open cand a \<longleftrightarrow> (if ao_committed a then stream_text cand (ao_out a) else ao_out a = [])"

definition full_answer :: "Candidate \<Rightarrow> http_out list \<Rightarrow> bool" where
  "full_answer cand xs \<longleftrightarrow> (\<exists>ys. xs = ys @ [OutDone] \<and> stream_text cand ys) \<or>
     (\<exists>r. xs = [OutResponse r] \<and> cp_Model r = pm_ID (cd_Model cand))"

definition broken_answer :: "Candidate \<Rightarrow> http_out list \<Rightarrow> bool" where
  "broken_answer cand xs \<longleftrightarrow> stream_text cand xs \<or> (\<exists>ys msg. xs = ys @ [OutSSEError msg] \<and> stream_text cand ys)"

definition answer_ok :: "Candidate \<Rightarrow> AttemptOutcome \<Rightarrow> bool" where
  "answer_ok cand a \<longleftrightarrow>
     (if \<not> ao_handled a then ao_out a = [] \<and> \<not> ao_committed a \<and> ao_err a \<noteq> None
      else ao_committed a \<and>
        (case ao_err a of None \<Rightarrow> full_answer cand (ao_out a) | Some e \<Rightarrow> broken_answer cand (ao_out a)))"

lemma stream_text_chunk:
  "stream_text cand xs \<Longrightarrow> stream_text cand (xs @ [OutChunk (chunk_of cand e)])"
proof (unfold stream_text_def, elim exE conjE)
  fix evs
  assume "evs \<noteq> []" and "xs = sse_headers @ map (OutChunk \<circ> chunk_of cand) evs"
  then show "\<exists>evs. evs \<noteq> [] \<and> xs @ [OutChunk (chunk_of cand e)] = sse_headers @ map (OutChunk \<circ> chunk_of cand) evs"
    by (intro exI [of _ "evs @ [e]"]) simp
qed

lemma stream_text_first: "stream_text cand (sse_headers @ [OutChunk (chunk_of cand e)])"
  unfolding stream_text_def by (intro exI [of _ "[e]"]) simp

lemma stream_text_ne [simp]: "\<not> stream_text cand []"
  by (simp add: stream_text_def sse_headers_def)

lemma stream_open_commit:
  assumes "try_commit b a = Some (b', a')" and "stream_open cand a"
  shows "stream_open cand (put [OutChunk (chunk_of cand e)] a') \<and> ao_committed a'"
  using try_commit_SomeD [OF assms(1)] assms(2)
  by (auto simp: stream_open_def stream_text_chunk stream_text_first split: if_splits)

lemma stream_loop_ok:
  "stream_loop cand items b tr a = Some a' \<Longrightarrow> stream_open cand a \<Longrightarrow> answer_ok cand a'"
proof (induction items arbitrary: b tr a)
  case (Cons it items)
  let ?b = "fire_if (ni_fired it) b"
  show ?case
  proof (cases "ni_result it")
    case (Inl e)
    then show ?thesis using Cons.prems
      by (auto simp: Let_def answer_ok_def stream_open_def full_answer_def broken_answer_def split: if_splits)
  next
    case (Inr e)
    show ?thesis
    proof (cases "budget_Expired ?b \<and> \<not> ao_committed a")
      case True
      then show ?thesis using Cons.prems by (auto simp: Let_def answer_ok_def stream_open_def)
    next
      case False
      note live = this
      show ?thesis
      proof (cases "Semantic e")
        case False
        then show ?thesis using Cons.IH [of ?b tr a] Cons.prems live Inr by (simp add: Let_def)
      next
        case True
        obtain tr1 a1 where tt: "note_ttft (ni_now it) tr a = (tr1, a1)" by fastforce
        let ?a = "note_usage e a1"
        have opn: "stream_open cand ?a"
          using Cons.prems(2) tt note_ttft_sel [of "ni_now it" tr a] by (simp add: stream_open_def)
        show ?thesis
        proof (cases "try_commit (fire_if (ni_fired2 it) ?b) ?a")
          case None
          then show ?thesis
            using Cons.prems(1) Inr live True tt opn try_commit_NoneD [OF None]
            by (auto simp: Let_def answer_ok_def stream_open_def)
        next
          case (Some ba)
          obtain b2 a2 where ba: "ba = (b2, a2)" by (cases ba)
          let ?a3 = "put [OutChunk (chunk_of cand e)] a2"
          have opn3: "stream_open cand ?a3" "ao_committed a2"
            using stream_open_commit [OF Some [unfolded ba] opn] by auto
          show ?thesis
          proof (cases "ev_FinishReason e = []")
            case True
            then show ?thesis
              using Cons.IH [OF _ opn3(1)] Cons.prems(1) Inr live \<open>Semantic e\<close> tt Some ba by (simp add: Let_def)
          next
            case False
            then show ?thesis
              using Cons.prems(1) Inr live \<open>Semantic e\<close> tt Some ba opn3
              by (auto simp: Let_def answer_ok_def stream_open_def full_answer_def)
          qed
        qed
      qed
    qed
  qed
qed simp

lemma finish_response_ok:
  "ao_out a = [] \<Longrightarrow> answer_ok cand (finish_response cand now t finish c a)"
  by (cases c) (auto simp: finish_response_def answer_ok_def full_answer_def)

lemma collect_loop_ok:
  "collect_loop cand items b tr c a = Some a' \<Longrightarrow> ao_out a = [] \<Longrightarrow> \<not> ao_committed a \<Longrightarrow> answer_ok cand a'"
proof (induction items arbitrary: b tr c a)
  case (Cons it items)
  let ?b = "fire_if (ni_fired it) b"
  show ?case
  proof (cases "ni_result it")
    case (Inl e)
    then show ?thesis using Cons.prems
      by (auto simp: Let_def finish_response_ok split: if_splits) (simp_all add: answer_ok_def)
  next
    case (Inr e)
    obtain t0 t1 t2 where c: "c = (t0, t1, t2)" by (cases c)
    obtain tr1 a1 where tt: "(if Semantic e then note_ttft (ni_now it) tr a else (tr, a)) = (tr1, a1)" by fastforce
    have a1: "ao_out (note_usage e a1) = []" "\<not> ao_committed (note_usage e a1)"
      using note_ttft_D [OF tt] Cons.prems(2,3) by simp_all
    show ?thesis
      using Cons.IH [OF _ a1] Cons.prems Inr c tt a1
      by (auto simp: Let_def finish_response_ok split: if_splits) (simp_all add: answer_ok_def)
  qed
qed simp

lemma attempt_body_ok: "attempt_body streaming sc cand g = Some a \<Longrightarrow> answer_ok cand a"
proof -
  have start: "stream_open cand (start_outcome g)" "ao_out (start_outcome g) = []" "\<not> ao_committed (start_outcome g)"
    by (simp_all add: stream_open_def start_outcome_def)
  assume "attempt_body streaming sc cand g = Some a"
  then show ?thesis using start
    by (auto simp: attempt_body_def Let_def intro: stream_loop_ok collect_loop_ok split: sum.splits option.splits if_splits)
       (simp_all add: answer_ok_def)
qed

lemma answer_ok_gw [simp]: "answer_ok cand (a\<lparr>ao_gw := g\<rparr>) = answer_ok cand a"
  by (simp add: answer_ok_def split: option.split)

lemma run_attempt_ok: "run_attempt streaming sc cand g = Some a \<Longrightarrow> answer_ok cand a"
  by (auto simp: run_attempt_def start_outcome_def dest: attempt_body_ok split: option.splits)
     (simp_all add: answer_ok_def)

section \<open>What an attempt does to the gateway\<close>

text \<open>
  The clock readings of an attempt, each with whether the client was gone by then: of the chat call when
  it gives no stream, of the stream's events otherwise.
\<close>

definition readings :: "NextItem list \<Rightarrow> (time \<times> bool) list" where
  "readings items = map (\<lambda>it. (ni_now it, ni_canceled it)) items"

definition attempt_readings :: "AttemptScript \<Rightarrow> (time \<times> bool) list" where
  "attempt_readings sc = (case as_chat sc of
       Inr (Some items) \<Rightarrow> readings items | _ \<Rightarrow> [(as_now sc, as_canceled sc)])"

text \<open>
  The health and the latency of the route alone move. \<open>sampled\<close>: one latency sample, of the time to the
  first token the attempt reports and the time since it started; with it a success or a failure.
\<close>

definition sampled :: "Candidate \<Rightarrow> time \<Rightarrow> time \<Rightarrow> float64 \<Rightarrow> Gateway \<Rightarrow> (gostring \<Rightarrow> Manager \<Rightarrow> Manager) \<Rightarrow> Gateway" where
  "sampled cand start now ttft g f = (let r = rt_ID (cd_Route cand)
     in g\<lparr>gw_latency := RecordRequest now r ttft (durationMilliseconds (time_Sub now start)) (gw_latency g),
          gw_health := f r (gw_health g)\<rparr>)"

definition route_effect :: "Candidate \<Rightarrow> time \<Rightarrow> (time \<times> bool) list \<Rightarrow> Gateway \<Rightarrow> AttemptOutcome \<Rightarrow> bool" where
  "route_effect cand start rs g a \<longleftrightarrow> (\<exists>(now, gone) \<in> set rs. case ao_err a of
       None \<Rightarrow> ao_handled a \<and> ao_gw a = sampled cand start now (ao_ttft a) g RouteSuccess
     | Some e \<Rightarrow> ao_gw a = (if shouldRecordRouteFailure gone e
         then sampled cand start now (ao_ttft a) g (\<lambda>r. RouteFailure now r 0) else g))"

lemma route_effect_put [simp]: "route_effect cand s rs g (put xs a) = route_effect cand s rs g a"
  by (cases "ao_err a") (simp_all add: route_effect_def)

lemma route_effect_handled [simp]:
  "ao_err a \<noteq> None \<Longrightarrow> route_effect cand s rs g (a\<lparr>ao_handled := h\<rparr>) = route_effect cand s rs g a"
  by (cases "ao_err a") (simp_all add: route_effect_def)

lemma route_effect_mono: "route_effect cand s rs g a \<Longrightarrow> set rs \<subseteq> set rs' \<Longrightarrow> route_effect cand s rs' g a"
  unfolding route_effect_def by blast

lemma route_effect_fail [simp]:
  "ao_gw a = g \<Longrightarrow> tm_start t = s \<Longrightarrow> ttft = ao_ttft a \<Longrightarrow> (now, x) \<in> set rs \<Longrightarrow>
   route_effect cand s rs g (fail_attempt x now cand t ttft e a)"
  unfolding route_effect_def
  by (rule bexI [of _ "(now, x)"])
     (simp_all add: fail_attempt_def recordAttemptFailure_def sampled_def Elapsed_def Let_def)

lemma route_effect_succeed [simp]:
  "ao_gw a = g \<Longrightarrow> tm_start t = s \<Longrightarrow> (now, x) \<in> set rs \<Longrightarrow> route_effect cand s rs g (succeed_attempt now cand t a)"
  unfolding route_effect_def
  by (rule bexI [of _ "(now, x)"]) (simp_all add: succeed_attempt_def sampled_def Elapsed_def Let_def)

lemma route_effect_none [simp]:
  "ao_gw a = g \<Longrightarrow> isRequestCanceled x e \<Longrightarrow> (now, x) \<in> set rs \<Longrightarrow>
   route_effect cand s rs g (a\<lparr>ao_handled := True, ao_err := Some e\<rparr>)"
  unfolding route_effect_def
  by (rule bexI [of _ "(now, x)"]) (simp_all add: shouldRecordRouteFailure_def)

lemma try_commit_keeps: "try_commit b a = Some (b', a') \<Longrightarrow> ao_gw a' = ao_gw a \<and> ao_ttft a' = ao_ttft a \<and> ao_committed a'"
  by (auto simp: try_commit_def budget_Commit_def split: if_splits)

text \<open>The timer keeps its start, and there is no time to the first token before the first event.\<close>

lemma note_ttft_keeps:
  assumes "note_ttft now tr a = (tr', a')"
  shows "ao_gw a' = ao_gw a \<and> tm_start (fst tr') = tm_start (fst tr) \<and>
    (\<not> snd tr' \<longrightarrow> \<not> snd tr \<and> ao_ttft a' = ao_ttft a)"
  using assms
  by (auto simp: note_ttft_def OnSemanticEvent_def split: prod.splits if_splits option.splits)

lemma note_ttft_if_keeps:
  assumes "(if c then note_ttft now tr a else (tr, a)) = (tr', a')"
  shows "ao_gw a' = ao_gw a \<and> tm_start (fst tr') = tm_start (fst tr) \<and>
    (\<not> snd tr' \<longrightarrow> \<not> snd tr \<and> ao_ttft a' = ao_ttft a)"
  using assms note_ttft_keeps [of now tr a tr' a'] by (cases c) auto

lemma stream_loop_effect:
  "stream_loop cand items b tr a = Some a' \<Longrightarrow> ao_gw a = g \<Longrightarrow> tm_start (fst tr) = s \<Longrightarrow>
   (\<not> ao_committed a \<Longrightarrow> ao_ttft a = Fin 0) \<Longrightarrow> route_effect cand s (readings items) g a'"
proof (induction items arbitrary: b tr a)
  case (Cons it items)
  have here: "(ni_now it, ni_canceled it) \<in> set (readings (it # items))" by (simp add: readings_def)
  have more: "route_effect cand s (readings items) g a' \<Longrightarrow> route_effect cand s (readings (it # items)) g a'"
    by (erule route_effect_mono) (auto simp: readings_def)
  show ?case
  proof (cases "ni_result it")
    case (Inl e)
    then show ?thesis using Cons.prems here
      by (auto simp: Let_def failAttemptWithBudget_def split: if_splits)
  next
    case (Inr e)
    obtain tr1 a1 where tt: "note_ttft (ni_now it) tr a = (tr1, a1)" by fastforce
    have gw: "ao_gw (note_usage e a1) = g" "tm_start (fst tr1) = s"
      using note_ttft_keeps [OF tt] Cons.prems(2,3) by simp_all
    show ?thesis
    proof (cases "budget_Expired (fire_if (ni_fired it) b) \<and> \<not> ao_committed a")
      case True
      then show ?thesis using Cons.prems here by (auto simp: Let_def failAttemptWithBudget_def)
    next
      case live: False
      show ?thesis
      proof (cases "Semantic e")
        case False
        then have "stream_loop cand items (fire_if (ni_fired it) b) tr a = Some a'"
          using Cons.prems(1) Inr live by (simp add: Let_def)
        from more [OF Cons.IH [OF this Cons.prems(2-4)]] show ?thesis by simp
      next
        case True
        show ?thesis
        proof (cases "try_commit (fire_if (ni_fired2 it) (fire_if (ni_fired it) b)) (note_usage e a1)")
          case None
          then show ?thesis using Cons.prems(1) Inr live True tt gw here
            by (auto simp: Let_def failAttemptWithBudget_def)
        next
          case (Some ba)
          obtain b2 a2 where ba: "ba = (b2, a2)" by (cases ba)
          have a2: "ao_gw a2 = g" "ao_committed a2" using try_commit_keeps [OF Some [unfolded ba]] gw by simp_all
          show ?thesis
          proof (cases "ev_FinishReason e = []")
            case True
            then have "stream_loop cand items b2 tr1 (put [OutChunk (chunk_of cand e)] a2) = Some a'"
              using Cons.prems(1) Inr live \<open>Semantic e\<close> tt Some ba by (simp add: Let_def)
            from more [OF Cons.IH [OF this]] a2 gw(2) show ?thesis by simp
          next
            case False
            then show ?thesis
              using Cons.prems(1) Inr live \<open>Semantic e\<close> tt Some ba a2 gw(2) here by (auto simp: Let_def)
          qed
        qed
      qed
    qed
  qed
qed simp

lemma finish_response_effect [simp]:
  "ao_gw a = g \<Longrightarrow> tm_start t = s \<Longrightarrow> (now, x) \<in> set rs \<Longrightarrow>
   route_effect cand s rs g (finish_response cand now t f c a)"
  by (cases c) (auto simp: finish_response_def)

lemma collect_loop_effect:
  "collect_loop cand items b tr c a = Some a' \<Longrightarrow> ao_gw a = g \<Longrightarrow> tm_start (fst tr) = s \<Longrightarrow>
   (\<not> snd tr \<Longrightarrow> ao_ttft a = Fin 0) \<Longrightarrow> route_effect cand s (readings items) g a'"
proof (induction items arbitrary: b tr c a)
  case (Cons it items)
  have here: "(ni_now it, ni_canceled it) \<in> set (readings (it # items))" by (simp add: readings_def)
  have more: "route_effect cand s (readings items) g a' \<Longrightarrow> route_effect cand s (readings (it # items)) g a'"
    by (erule route_effect_mono) (auto simp: readings_def)
  obtain t0 t1 t2 where c: "c = (t0, t1, t2)" by (cases c)
  show ?case
  proof (cases "ni_result it")
    case (Inl e)
    then show ?thesis using Cons.prems c here
      by (auto simp: Let_def failAttemptWithBudget_def split: if_splits)
  next
    case (Inr e)
    obtain tr1 a1 where tt: "(if Semantic e then note_ttft (ni_now it) tr a else (tr, a)) = (tr1, a1)" by fastforce
    have gw: "ao_gw (note_usage e a1) = g" "tm_start (fst tr1) = s" "\<not> snd tr1 \<Longrightarrow> ao_ttft (note_usage e a1) = Fin 0"
      using note_ttft_if_keeps [OF tt] Cons.prems(2-4) by simp_all
    show ?thesis
      using Cons.prems(1-3) more [OF Cons.IH [OF _ gw]] Inr tt gw(1,2) c here
      by (auto simp: Let_def failAttemptWithBudget_def split: if_splits)
  qed
qed simp

lemma attempt_body_effect:
  assumes "attempt_body streaming sc cand g = Some a"
  shows "route_effect cand (as_timer sc) (attempt_readings sc) g a"
proof (cases "as_chat sc")
  case (Inr stream)
  show ?thesis
  proof (cases stream)
    case (Some items)
    with assms Inr show ?thesis
      by (cases streaming)
         (auto simp: attempt_body_def Let_def attempt_readings_def start_outcome_def Start_def
           elim!: stream_loop_effect collect_loop_effect)
  qed (use assms Inr in \<open>auto simp: attempt_body_def Let_def start_outcome_def attempt_readings_def Start_def\<close>)
qed (use assms in \<open>auto simp: attempt_body_def Let_def start_outcome_def attempt_readings_def Start_def\<close>)

lemma route_effect_caps:
  assumes "route_effect cand s rs g a"
  shows "hm_inFlight (gw_health (ao_gw a)) = hm_inFlight (gw_health g)"
    "hm_provCap (gw_health (ao_gw a)) = hm_provCap (gw_health g)"
  using assms
  by (auto simp: route_effect_def sampled_def RouteFailure_def RouteSuccess_def Let_def
      split: if_splits option.splits)

text \<open>The slot an attempt takes is given back on every path.\<close>

lemma run_attempt_slots:
  assumes "run_attempt streaming sc cand g = Some a" and "0 \<le> hm_inFlight (gw_health g) (rt_Provider (cd_Route cand))"
  shows "hm_inFlight (gw_health (ao_gw a)) = hm_inFlight (gw_health g) \<and>
    hm_provCap (gw_health (ao_gw a)) = hm_provCap (gw_health g)"
proof (cases "as_slot sc")
  case (Some e)
  with assms(1) show ?thesis by (auto simp: run_attempt_def start_outcome_def)
next
  case None
  let ?p = "rt_Provider (cd_Route cand)"
  let ?g = "g\<lparr>gw_health := take_slot ?p (gw_health g)\<rparr>"
  from assms(1) None obtain a0 where a0: "attempt_body streaming sc cand ?g = Some a0"
    "gw_health (ao_gw a) = ReleaseSlot ?p (gw_health (ao_gw a0))"
    by (auto simp: run_attempt_def)
  have "hm_inFlight (gw_health (ao_gw a0)) = hm_inFlight (take_slot ?p (gw_health g))"
    "hm_provCap (gw_health (ao_gw a0)) = hm_provCap (gw_health g)"
    using route_effect_caps [OF attempt_body_effect [OF a0(1)]] by (simp_all add: take_slot_def)
  with a0(2) assms(2) show ?thesis by (auto simp: ReleaseSlot_def take_slot_def fun_eq_iff)
qed

section \<open>Properties\<close>

text \<open>C4: an attempt that is given up has sent nothing to the client and has an error to decide on, so
  another candidate can still answer; an attempt that has sent anything is the last one. What it sent is
  a whole response of its own model, a stream of chunks of its own model (at least one) closed by
  \<open>[DONE]\<close>, or, when it reports an error, such a stream broken off.\<close>

theorem attempt_commit_guard:
  assumes "run_attempt streaming sc cand g = Some a"
  shows "if \<not> ao_handled a then ao_out a = [] \<and> \<not> ao_committed a \<and> ao_err a \<noteq> None
    else ao_committed a \<and>
      (case ao_err a of None \<Rightarrow> full_answer cand (ao_out a) | Some e \<Rightarrow> broken_answer cand (ao_out a))"
  using run_attempt_ok [OF assms] by (simp add: answer_ok_def split: if_splits)

definition sample_event :: "gostring \<Rightarrow> gostring \<Rightarrow> StreamEvent" where
  "sample_event delta finish = \<lparr>ev_DeltaText = delta, ev_ChoiceIndex = 0, ev_ToolCalls = [],
     ev_ReasoningContent = [], ev_FinishReason = finish, ev_Usage = None\<rparr>"

definition sample_script :: "goerr + NextItem list option \<Rightarrow> AttemptScript" where
  "sample_script chat = \<lparr>as_ctxErr = False, as_loopNow = 0, as_started = 0, as_slot = None, as_slotFired = False,
     as_timer = 0, as_chat = chat, as_chatFired = False, as_now = 1, as_canceled = False, as_doneNow = 2,
     as_doneCanceled = False\<rparr>"

definition sample_item :: "goerr + StreamEvent \<Rightarrow> NextItem" where
  "sample_item r = \<lparr>ni_result = r, ni_fired = False, ni_fired2 = False, ni_now = 1, ni_canceled = False\<rparr>"

lemma sample_attempt:
  "\<exists>a. run_attempt True (sample_script (Inr (Some [sample_item (Inr (sample_event ''x'' ''stop''))]))) cand g = Some a \<and>
    ao_handled a \<and> ao_err a = None"
  by (auto simp: run_attempt_def sample_script_def attempt_body_def sample_item_def sample_event_def fire_if_def
      budget_Expired_def Semantic_def try_commit_def budget_Commit_def start_outcome_def Let_def note_ttft_def
      note_usage_def Start_def OnSemanticEvent_def split: prod.splits)

theorem attempt_commit_guard_witness:
  "\<exists>a. run_attempt True (sample_script (Inr (Some [sample_item (Inr (sample_event ''x'' ''stop''))])))
      (sample_candidate ''r1'' ''p/a'') chat_gateway = Some a \<and>
    full_answer (sample_candidate ''r1'' ''p/a'') (ao_out a)"
proof -
  obtain a where a: "run_attempt True (sample_script (Inr (Some [sample_item (Inr (sample_event ''x'' ''stop''))])))
      (sample_candidate ''r1'' ''p/a'') chat_gateway = Some a" "ao_handled a" "ao_err a = None"
    using sample_attempt by blast
  with attempt_commit_guard [OF a(1)] show ?thesis by simp
qed


lemma sample_attempt_fails:
  "\<exists>a. run_attempt True (sample_script (Inl (PlainError ''down''))) cand g = Some a \<and> as_slot (sample_script c) = None \<and>
    ao_err a = Some (PlainError ''down'')"
  by (auto simp: run_attempt_def sample_script_def attempt_body_def fire_if_def budget_Expired_def Let_def)


end
