(* ===== verification/ChatHandler.thy ===== *)
theory ChatHandler
  imports Attempt
begin

text \<open>
  \<open>ChatHandler\<close> of \<open>internal/gateway/attempt.go\<close>: validation of the request, the loop of attempts with
  its limits, the answer to the client, the live events and the usage record of the request. The
  decoding of the body is a parameter: \<open>parsed\<close> is its result as a request, \<open>names\<close> the names of its
  fields in the order the map is ranged over (or the text of the decoder's error).
\<close>

section \<open>The loop of attempts\<close>

record ChatWorld =
  cw_gw :: Gateway
  cw_out :: "http_out list"
  cw_col :: usageCollector
  cw_calls :: "(ProviderRoute \<times> NormalizedRequest) list"
  cw_events :: "Event list"

definition attempt_event :: "time \<Rightarrow> gostring \<Rightarrow> nat \<Rightarrow> Candidate \<Rightarrow> Event" where
  "attempt_event now requestID attempt cand =
     \<lparr>ue_Type = EventAttemptStarted, ue_At = now, ue_RequestID = requestID,
      ue_Attempt = Some \<lparr>ar_Index = int attempt + 1, ar_ProviderModel = pm_ID (cd_Model cand),
        ar_Route = rt_ID (cd_Route cand), ar_FailureClass = FailureClassOther [], ar_FailureScope = ScopeOther [],
        ar_TTFTMs = Fin 0, ar_TotalLatencyMs = Fin 0, ar_Committed = False, ar_HTTPStatus = 0,
        ar_Tokens = no_tokens\<rparr>, ue_Record = None\<rparr>"

text \<open>One attempt in the world of the request, the deferred \<open>record\<close> of the collector included.\<close>

definition world_attempt ::
  "gostring \<Rightarrow> NormalizedRequest \<Rightarrow> nat \<Rightarrow> AttemptScript \<Rightarrow> Candidate \<Rightarrow> ChatWorld \<Rightarrow>
   (AttemptOutcome \<times> ChatWorld) option" where
  "world_attempt requestID req attempt sc cand w =
     map_option (\<lambda>a. (a, w\<lparr>cw_gw := ao_gw a, cw_out := cw_out w @ ao_out a,
         cw_calls := cw_calls w @ (if as_slot sc = None then [(cd_Route cand, req)] else []),
         cw_events := cw_events w @ [attempt_event (as_started sc) requestID attempt cand],
         cw_col := collector_record (as_doneCanceled sc) (as_doneNow sc) cand (as_started sc) (ao_ttft a)
           (ao_committed a) (ao_tokens a) (ao_err a) (cw_col w)\<rparr>))
       (run_attempt (nr_Stream req) sc cand (cw_gw w))"

text \<open>
  How the loop ends: \<open>Returned\<close> by a \<open>return\<close> inside it, \<open>Left\<close> by a \<open>break\<close> or its condition, with
  \<open>lastErr\<close>.
\<close>

datatype loop_end = Returned ChatWorld | Left "goerr option" ChatWorld

record LoopState =
  ls_attempted :: "RouteID set"
  ls_previous :: "Candidate option"
  ls_action :: FailureAction
  ls_lastErr :: "goerr option"

definition loop_start :: LoopState where
  "loop_start = \<lparr>ls_attempted = {}, ls_previous = None, ls_action = ActionStop, ls_lastErr = None\<rparr>"

fun attempts_loop ::
  "gostring \<Rightarrow> NormalizedRequest \<Rightarrow> attemptCandidate list \<Rightarrow> int \<Rightarrow> time \<Rightarrow> AttemptScript list \<Rightarrow>
   nat \<Rightarrow> LoopState \<Rightarrow> ChatWorld \<Rightarrow> loop_end option" where
  "attempts_loop rid req candidates maxAttempts deadline scripts attempt ls w =
     (if \<not> int attempt < maxAttempts then Some (Left (ls_lastErr ls) w)
      else case scripts of
        [] \<Rightarrow> None
      | sc # scripts \<Rightarrow>
          if as_ctxErr sc then Some (Returned w)
          else if attempt > 0 \<and> \<not> as_loopNow sc < deadline then Some (Left (ls_lastErr ls) w)
          else case nextAttemptCandidate candidates (ls_attempted ls) (ls_previous ls) (ls_action ls) of
            None \<Rightarrow> Some (Left (ls_lastErr ls) w)
          | Some candidate \<Rightarrow>
              let current = at_Candidate candidate
              in case world_attempt rid req attempt sc current w of
                None \<Rightarrow> None
              | Some (a, w) \<Rightarrow>
                  if ao_handled a then Some (Returned w)
                  else case ao_err a of
                    None \<Rightarrow> Some (Returned w)
                  | Some e \<Rightarrow>
                      let action = snd (fallbackDecision e)
                      in if action = ActionStop then Some (Left (Some e) w)
                         else attempts_loop rid req candidates maxAttempts deadline scripts (attempt + 1)
                           \<lparr>ls_attempted = insert (rt_ID (cd_Route current)) (ls_attempted ls),
                            ls_previous = Some current, ls_action = action, ls_lastErr = Some e\<rparr> w)"

declare attempts_loop.simps [simp del]

section \<open>The handler\<close>

definition allowed_fields :: "gostring list" where
  "allowed_fields = [''model'', ''messages'', ''stream'', ''max_tokens'', ''temperature'', ''tools'',
     ''tool_choice'', ''response_format'', ''reasoning'']"

text \<open>The verb \<open>%q\<close>, for a text without characters it would escape.\<close>

definition quoted :: "gostring \<Rightarrow> gostring" where
  "quoted s = [CHR 0x22] @ s @ [CHR 0x22]"

record RequestScript =
  sc_requestID :: gostring
  sc_started :: time
  sc_clock :: "nat \<Rightarrow> time"
  sc_flusher :: bool
  sc_deadlineNow :: time
  sc_attempts :: "AttemptScript list"
  sc_endCanceled :: bool
  sc_doneCanceled :: bool
  sc_completed :: time

text \<open>Everything after the deferred function is registered, up to the response.\<close>

definition answer_request :: "RequestScript \<Rightarrow> chatCompletionRequest \<Rightarrow> ChatWorld \<Rightarrow> ChatWorld option" where
  "answer_request rs req w =
     (let candidates = resolveAttemptCandidates (cw_gw w) (sc_clock rs) req;
          reply = (\<lambda>xs w. w\<lparr>cw_out := cw_out w @ xs\<rparr>)
      in if candidates = []
         then (if cr_Model req \<noteq> [] \<and> \<not> isAutoModel (cr_Model req)
               then Some (reply [OutError 400 (''unknown or ineligible model '' @ quoted (cr_Model req))] w)
               else Some (reply [OutError 503 ''no models available''] w))
         else if cr_Stream req \<and> \<not> sc_flusher rs
         then Some (reply [OutError 500 ''streaming unsupported''] w)
         else let policy = policy_normalized (gw_failover (cw_gw w));
                  deadline = sc_deadlineNow rs + fp_Budget policy
              in case attempts_loop (sc_requestID rs) (normalizeChatRequest req) candidates (fp_MaxAttempts policy)
                  deadline (sc_attempts rs) 0 loop_start w of
                None \<Rightarrow> None
              | Some (Returned w) \<Rightarrow> Some w
              | Some (Left lastErr w) \<Rightarrow>
                  if sc_endCanceled rs then Some w
                  else case lastErr of
                    Some e \<Rightarrow> Some (reply (writeUpstreamError e) w)
                  | None \<Rightarrow> Some (reply [OutError 503 ''no eligible fallback candidates''] w))"

definition request_record :: "RequestScript \<Rightarrow> usageCollector \<Rightarrow> RequestRecord" where
  "request_record rs c =
     \<lparr>rq_ID = sc_requestID rs, rq_StartedAt = sc_started rs, rq_CompletedAt = sc_completed rs,
      rq_Provider = uc_provider c, rq_FinalModel = uc_finalModel c, rq_FinalRoute = uc_finalRoute c,
      rq_Attempts = uc_attempts c,
      rq_Result = (if uc_result c = ResultNone
        then (if sc_doneCanceled rs then ResultCanceled else ResultFailure) else uc_result c),
      rq_Fallback = (length (uc_attempts c) > 1), rq_TotalTokens = uc_tokens c\<rparr>"

definition started_event :: "RequestScript \<Rightarrow> Event" where
  "started_event rs = \<lparr>ue_Type = EventRequestStarted, ue_At = sc_started rs, ue_RequestID = sc_requestID rs,
     ue_Attempt = None, ue_Record = None\<rparr>"

definition ChatHandler ::
  "gostring option \<Rightarrow> gostring + chatCompletionRequest \<Rightarrow> gostring + gostring list \<Rightarrow> RequestScript \<Rightarrow> Gateway \<Rightarrow>
   (ChatWorld \<times> RequestRecord option) option" where
  "ChatHandler readErr parsed names rs g =
     (let w = \<lparr>cw_gw = g, cw_out = [], cw_col = new_collector, cw_calls = [], cw_events = []\<rparr>;
          bad = (\<lambda>msg. Some (w\<lparr>cw_out := [OutError 400 msg]\<rparr>, None))
      in case readErr of
        Some e \<Rightarrow> bad (''read body: '' @ e)
      | None \<Rightarrow>
     (case parsed of
        Inl e \<Rightarrow> bad (''invalid JSON: '' @ e)
      | Inr req \<Rightarrow>
     (case names of
        Inl e \<Rightarrow> bad (''invalid JSON: '' @ e)
      | Inr fieldNames \<Rightarrow>
     (case List.find (\<lambda>name. name \<notin> set allowed_fields) fieldNames of
        Some name \<Rightarrow> bad (''unsupported parameter '' @ name)
      | None \<Rightarrow>
          if length (cr_Messages req) = 0 then bad ''messages must not be empty''
          else map_option (\<lambda>w. (w, Some (request_record rs (cw_col w))))
            (answer_request rs req
              (w\<lparr>cw_out := [OutHeader ''X-FMR-Request-ID'' (sc_requestID rs)],
                 cw_events := [started_event rs]\<rparr>))))))"

section \<open>The loop, step by step\<close>

fun end_world :: "loop_end \<Rightarrow> ChatWorld" where
  "end_world (Returned w) = w"
| "end_world (Left e w) = w"

lemma world_attempt_SomeD:
  assumes "world_attempt rid req n sc cand w = Some (a, w')"
  shows "run_attempt (nr_Stream req) sc cand (cw_gw w) = Some a \<and> cw_gw w' = ao_gw a \<and>
    cw_out w' = cw_out w @ ao_out a \<and> (\<exists>calls. cw_calls w' = cw_calls w @ calls \<and>
      (calls = [] \<or> calls = [(cd_Route cand, req)])) \<and>
    cw_col w' = collector_record (as_doneCanceled sc) (as_doneNow sc) cand (as_started sc) (ao_ttft a)
      (ao_committed a) (ao_tokens a) (ao_err a) (cw_col w)"
  using assms by (auto simp: world_attempt_def)

text \<open>The state the next round of the loop starts from.\<close>

definition next_state :: "Candidate \<Rightarrow> goerr \<Rightarrow> LoopState \<Rightarrow> LoopState" where
  "next_state current e ls =
     \<lparr>ls_attempted = insert (rt_ID (cd_Route current)) (ls_attempted ls), ls_previous = Some current,
      ls_action = snd (fallbackDecision e), ls_lastErr = Some e\<rparr>"

text \<open>
  The rule the properties of the loop are proved by: \<open>P n ls w\<close> holds when a round starts, \<open>Q\<close> of every
  end. It has one premise for each way a round can go.
\<close>

lemma attempts_loop_rule:
  assumes run: "attempts_loop rid req cs mx dl scripts n ls w = Some r" and start: "P n ls w"
    and leave: "\<And>n ls w. P n ls w \<Longrightarrow> Q (Left (ls_lastErr ls) w)"
    and canceled: "\<And>n ls w. P n ls w \<Longrightarrow> Q (Returned w)"
    and handled: "\<And>n ls w c sc a w'. P n ls w \<Longrightarrow> int n < mx \<Longrightarrow> c \<in> set cs \<Longrightarrow>
      may_follow (ls_attempted ls) (ls_previous ls) (ls_action ls) c \<Longrightarrow>
      world_attempt rid req n sc (at_Candidate c) w = Some (a, w') \<Longrightarrow> ao_handled a \<Longrightarrow> Q (Returned w')"
    and stop: "\<And>n ls w c sc a w' e. P n ls w \<Longrightarrow> int n < mx \<Longrightarrow> c \<in> set cs \<Longrightarrow>
      may_follow (ls_attempted ls) (ls_previous ls) (ls_action ls) c \<Longrightarrow>
      world_attempt rid req n sc (at_Candidate c) w = Some (a, w') \<Longrightarrow> \<not> ao_handled a \<Longrightarrow> ao_err a = Some e \<Longrightarrow>
      snd (fallbackDecision e) = ActionStop \<Longrightarrow> Q (Left (Some e) w')"
    and again: "\<And>n ls w c sc a w' e. P n ls w \<Longrightarrow> int n < mx \<Longrightarrow> c \<in> set cs \<Longrightarrow>
      may_follow (ls_attempted ls) (ls_previous ls) (ls_action ls) c \<Longrightarrow>
      world_attempt rid req n sc (at_Candidate c) w = Some (a, w') \<Longrightarrow> \<not> ao_handled a \<Longrightarrow> ao_err a = Some e \<Longrightarrow>
      snd (fallbackDecision e) \<noteq> ActionStop \<Longrightarrow> P (Suc n) (next_state (at_Candidate c) e ls) w'"
  shows "Q r"
  using run start
proof (induction scripts arbitrary: n ls w)
  case Nil
  then show ?case by (subst (asm) attempts_loop.simps) (auto intro: leave split: if_splits)
next
  case (Cons sc scripts)
  show ?case
  proof (cases "\<not> int n < mx \<or> as_ctxErr sc \<or> n > 0 \<and> \<not> as_loopNow sc < dl")
    case True
    with Cons.prems show ?thesis
      by (subst (asm) attempts_loop.simps) (auto intro: leave canceled split: if_splits)
  next
    case False
    then have n: "int n < mx" and "\<not> as_ctxErr sc" and "\<not> (n > 0 \<and> \<not> as_loopNow sc < dl)" by blast+
    then have step: "attempts_loop rid req cs mx dl (sc # scripts) n ls w =
        (case nextAttemptCandidate cs (ls_attempted ls) (ls_previous ls) (ls_action ls) of
            None \<Rightarrow> Some (Left (ls_lastErr ls) w)
          | Some c \<Rightarrow> (case world_attempt rid req n sc (at_Candidate c) w of
                None \<Rightarrow> None
              | Some (a, w) \<Rightarrow>
                  if ao_handled a then Some (Returned w)
                  else case ao_err a of
                    None \<Rightarrow> Some (Returned w)
                  | Some e \<Rightarrow>
                      if snd (fallbackDecision e) = ActionStop then Some (Left (Some e) w)
                      else attempts_loop rid req cs mx dl scripts (Suc n) (next_state (at_Candidate c) e ls) w))"
      by (subst attempts_loop.simps) (simp only: if_not_P if_P not_not list.case Let_def next_state_def if_False Suc_eq_plus1)
    show ?thesis
    proof (cases "nextAttemptCandidate cs (ls_attempted ls) (ls_previous ls) (ls_action ls)")
      case None
      with step Cons.prems show ?thesis by (auto intro: leave)
    next
      case (Some c)
      note c = nextAttemptCandidate_SomeD [OF Some]
      from step Some Cons.prems(1) obtain a w' where a: "world_attempt rid req n sc (at_Candidate c) w = Some (a, w')"
        by (auto split: option.splits)
      show ?thesis
      proof (cases "ao_handled a")
        case True
        with step Some a Cons.prems(1) have "r = Returned w'" by simp
        with handled [OF Cons.prems(2) n _ _ a True] c show ?thesis by simp
      next
        case False
        from run_attempt_ok [of "nr_Stream req" sc "at_Candidate c" "cw_gw w" a] world_attempt_SomeD [OF a] False
        obtain e where e: "ao_err a = Some e" by (auto simp: answer_ok_def)
        show ?thesis
        proof (cases "snd (fallbackDecision e) = ActionStop")
          case True
          with step Some a False e Cons.prems(1) have "r = Left (Some e) w'" by simp
          with stop [OF Cons.prems(2) n _ _ a False e True] c show ?thesis by simp
        next
          case more: False
          with step Some a False e Cons.prems(1)
          have "attempts_loop rid req cs mx dl scripts (Suc n) (next_state (at_Candidate c) e ls) w' = Some r" by simp
          with Cons.IH again [OF Cons.prems(2) n _ _ a False e more] c show ?thesis by blast
        qed
      qed
    qed
  qed
qed

section \<open>What holds at the end of the loop\<close>

text \<open>Calls made so far: distinct routes of the chain, all attempted, at most one per round.\<close>

definition calls_ok :: "attemptCandidate list \<Rightarrow> NormalizedRequest \<Rightarrow> int \<Rightarrow> ChatWorld \<Rightarrow> bool" where
  "calls_ok cs req m w \<longleftrightarrow> distinct (map (rt_ID \<circ> fst) (cw_calls w)) \<and> int (length (cw_calls w)) \<le> m \<and>
     set (cw_calls w) \<subseteq> (\<lambda>c. (at_Route c, req)) ` set cs"

definition calls_inv :: "attemptCandidate list \<Rightarrow> NormalizedRequest \<Rightarrow> nat \<Rightarrow> LoopState \<Rightarrow> ChatWorld \<Rightarrow> bool" where
  "calls_inv cs req n ls w \<longleftrightarrow> calls_ok cs req (int n) w \<and> (rt_ID \<circ> fst) ` set (cw_calls w) \<subseteq> ls_attempted ls"

lemma calls_inv_step:
  assumes "calls_inv cs req n ls w" and "c \<in> set cs" and "may_follow (ls_attempted ls) (ls_previous ls) (ls_action ls) c"
    and "world_attempt rid req n sc (at_Candidate c) w = Some (a, w')"
  shows "calls_inv cs req (Suc n) (next_state (at_Candidate c) e ls) w'"
proof -
  obtain calls where calls: "cw_calls w' = cw_calls w @ calls" "calls = [] \<or> calls = [(at_Route c, req)]"
    using world_attempt_SomeD [OF assms(4)] by blast
  have fresh: "rt_ID (at_Route c) \<notin> (rt_ID \<circ> fst) ` set (cw_calls w)"
    using may_follow_fresh [OF assms(3)] assms(1) by (auto simp: calls_inv_def)
  from calls(2) show ?thesis
  proof
    assume "calls = []"
    with assms(1) calls(1) show ?thesis by (auto simp: calls_inv_def calls_ok_def next_state_def)
  next
    assume "calls = [(at_Route c, req)]"
    with assms(1,2) calls(1) fresh show ?thesis
      by (auto simp: calls_inv_def calls_ok_def next_state_def)
  qed
qed

lemma attempts_loop_calls:
  assumes "attempts_loop rid req cs mx dl scripts 0 loop_start w = Some r" and "cw_calls w = []" and "0 \<le> mx"
  shows "calls_ok cs req mx (end_world r)"
proof -
  have mono: "calls_inv cs req n ls w \<Longrightarrow> int n \<le> mx \<Longrightarrow> calls_ok cs req mx w" for n ls w
    by (auto simp: calls_inv_def calls_ok_def)
  show ?thesis
    using assms(1)
  proof (rule attempts_loop_rule [where P = "\<lambda>n ls w. calls_inv cs req n ls w \<and> int n \<le> mx"
        and Q = "\<lambda>r. calls_ok cs req mx (end_world r)"])
    show "calls_inv cs req 0 loop_start w \<and> int 0 \<le> mx"
      using assms(2,3) by (simp add: calls_inv_def calls_ok_def loop_start_def)
  next
    fix n ls w c sc a w'
    assume "calls_inv cs req n ls w \<and> int n \<le> mx" "int n < mx" "c \<in> set cs"
      "may_follow (ls_attempted ls) (ls_previous ls) (ls_action ls) c"
      "world_attempt rid req n sc (at_Candidate c) w = Some (a, w')"
    then show "calls_ok cs req mx (end_world (Returned w'))"
      using calls_inv_step [of cs req n ls w c rid sc a w' ErrEOF] mono [of "Suc n"] by simp
  next
    fix n ls w c sc a w' e
    assume "calls_inv cs req n ls w \<and> int n \<le> mx" "int n < mx" "c \<in> set cs"
      "may_follow (ls_attempted ls) (ls_previous ls) (ls_action ls) c"
      "world_attempt rid req n sc (at_Candidate c) w = Some (a, w')"
    then show "calls_ok cs req mx (end_world (Left (Some e) w'))"
      using calls_inv_step [of cs req n ls w c rid sc a w' ErrEOF] mono [of "Suc n"] by simp
  next
    fix n ls w c sc a w' e
    assume "calls_inv cs req n ls w \<and> int n \<le> mx" "int n < mx" "c \<in> set cs"
      "may_follow (ls_attempted ls) (ls_previous ls) (ls_action ls) c"
      "world_attempt rid req n sc (at_Candidate c) w = Some (a, w')"
    then show "calls_inv cs req (Suc n) (next_state (at_Candidate c) e ls) w' \<and> int (Suc n) \<le> mx"
      using calls_inv_step [of cs req n ls w c rid sc a w' e] by simp
  qed (auto dest: mono)
qed

text \<open>What reached the client: nothing beyond \<open>out\<close> until an attempt answers, then that answer.\<close>

definition answered :: "attemptCandidate list \<Rightarrow> http_out list \<Rightarrow> bool \<Rightarrow> http_out list \<Rightarrow> bool" where
  "answered cs out full xs \<longleftrightarrow> (\<exists>c \<in> set cs. \<exists>ys. xs = out @ ys \<and>
     (if full then full_answer (at_Candidate c) ys else broken_answer (at_Candidate c) ys))"

text \<open>
  The collector against it: uncommitted attempts with consecutive indices, and no outcome but a failure,
  until one attempt answers; its record is the last one.
\<close>

definition attempts_numbered :: "AttemptRecord list \<Rightarrow> bool" where
  "attempts_numbered as \<longleftrightarrow> map ar_Index as = map (\<lambda>i. int i + 1) [0..<length as]"

definition col_open :: "nat \<Rightarrow> usageCollector \<Rightarrow> bool" where
  "col_open n c \<longleftrightarrow> length (uc_attempts c) = n \<and> attempts_numbered (uc_attempts c) \<and>
     list_all (\<lambda>r. \<not> ar_Committed r) (uc_attempts c) \<and> uc_finalRoute c = [] \<and> uc_finalModel c = [] \<and>
     uc_result c \<notin> {ResultSuccess, ResultPartial}"

definition col_closed :: "attemptCandidate list \<Rightarrow> bool \<Rightarrow> usageCollector \<Rightarrow> bool" where
  "col_closed cs full c \<longleftrightarrow> uc_attempts c \<noteq> [] \<and> attempts_numbered (uc_attempts c) \<and>
     list_all (\<lambda>r. \<not> ar_Committed r) (butlast (uc_attempts c)) \<and> ar_Committed (last (uc_attempts c)) \<and>
     uc_finalRoute c = ar_Route (last (uc_attempts c)) \<and> uc_finalModel c = ar_ProviderModel (last (uc_attempts c)) \<and>
     (uc_result c = ResultSuccess) = full \<and> uc_result c \<notin> {ResultNone, ResultFailure}"

lemma attempts_numbered_snoc:
  "attempts_numbered as \<Longrightarrow> ar_Index r = int (length as) + 1 \<Longrightarrow> attempts_numbered (as @ [r])"
  by (simp add: attempts_numbered_def)

lemma collector_record_sel:
  "uc_attempts (collector_record x now cand st ttft cm tk err c) =
     uc_attempts c @ [attempt_record now cand st ttft cm tk err (length (uc_attempts c))]"
  "uc_result (collector_record x now cand st ttft cm tk err c) = attempt_result x cm err (uc_result c)"
  "uc_finalRoute (collector_record x now cand st ttft cm tk err c) = (if cm then rt_ID (cd_Route cand) else uc_finalRoute c)"
  "uc_finalModel (collector_record x now cand st ttft cm tk err c) = (if cm then pm_ID (cd_Model cand) else uc_finalModel c)"
  by (simp_all add: collector_record_def Let_def)

lemma col_open_step:
  assumes "col_open n c" and "err \<noteq> None"
  shows "col_open (Suc n) (collector_record x now cand st ttft False tk err c)"
  using assms
  by (auto simp: col_open_def collector_record_sel attempt_record_def attempt_result_def
      intro: attempts_numbered_snoc split: if_splits)

lemma col_close_step:
  assumes "col_open n c"
  shows "col_closed cs (err = None) (collector_record x now cand st ttft True tk err c)"
  using assms
  by (auto simp: col_open_def col_closed_def collector_record_sel attempt_record_def attempt_result_def
      intro: attempts_numbered_snoc split: option.splits)

text \<open>Both together, with the slots, as one invariant of the loop.\<close>

definition world_open :: "http_out list \<Rightarrow> Gateway \<Rightarrow> nat \<Rightarrow> ChatWorld \<Rightarrow> bool" where
  "world_open out g n w \<longleftrightarrow> cw_out w = out \<and> col_open n (cw_col w) \<and>
     hm_inFlight (gw_health (cw_gw w)) = hm_inFlight (gw_health g)"

definition world_closed :: "attemptCandidate list \<Rightarrow> http_out list \<Rightarrow> Gateway \<Rightarrow> ChatWorld \<Rightarrow> bool" where
  "world_closed cs out g w \<longleftrightarrow> (\<exists>full. answered cs out full (cw_out w) \<and> col_closed cs full (cw_col w)) \<and>
     hm_inFlight (gw_health (cw_gw w)) = hm_inFlight (gw_health g)"

lemma world_attempt_open:
  assumes "world_open out g n w" and "world_attempt rid req n sc (at_Candidate c) w = Some (a, w')"
    and "\<not> ao_handled a" and "\<forall>p. 0 \<le> hm_inFlight (gw_health g) p"
  shows "world_open out g (Suc n) w'"
proof -
  note s = world_attempt_SomeD [OF assms(2)]
  have ok: "ao_out a = []" "\<not> ao_committed a" "ao_err a \<noteq> None"
    using run_attempt_ok s assms(3) by (fastforce simp: answer_ok_def)+
  have "hm_inFlight (gw_health (cw_gw w')) = hm_inFlight (gw_health (cw_gw w))"
    using run_attempt_slots s assms(1,4) by (fastforce simp: world_open_def)
  with s ok assms(1) col_open_step show ?thesis by (auto simp: world_open_def)
qed

lemma world_attempt_closed:
  assumes "world_open out g n w" and "world_attempt rid req n sc (at_Candidate c) w = Some (a, w')"
    and "ao_handled a" and "\<forall>p. 0 \<le> hm_inFlight (gw_health g) p" and "c \<in> set cs"
  shows "world_closed cs out g w'"
proof -
  note s = world_attempt_SomeD [OF assms(2)]
  from s have "answer_ok (at_Candidate c) a" using run_attempt_ok by blast
  with assms(3) have ok: "ao_committed a" "if ao_err a = None then full_answer (at_Candidate c) (ao_out a)
      else broken_answer (at_Candidate c) (ao_out a)" by (auto simp: answer_ok_def)
  have slots: "hm_inFlight (gw_health (cw_gw w')) = hm_inFlight (gw_health g)"
    using run_attempt_slots s assms(1,4) by (fastforce simp: world_open_def)
  have "answered cs out (ao_err a = None) (cw_out w')"
    unfolding answered_def using s ok(2) assms(1,5) by (intro bexI [of _ c] exI [of _ "ao_out a"]) (auto simp: world_open_def)
  moreover have "col_closed cs (ao_err a = None) (cw_col w')"
    using s ok(1) assms(1) col_close_step by (auto simp: world_open_def)
  ultimately show ?thesis using slots unfolding world_closed_def by blast
qed

lemma attempts_loop_world:
  assumes "attempts_loop rid req cs mx dl scripts 0 loop_start w = Some r"
    and "world_open out g 0 w" and "\<forall>p. 0 \<le> hm_inFlight (gw_health g) p"
  shows "(\<exists>n. world_open out g n (end_world r)) \<or> (\<exists>w'. r = Returned w' \<and> world_closed cs out g w')"
  using assms(1)
proof (rule attempts_loop_rule [where P = "\<lambda>n ls w. world_open out g n w"])
  show "world_open out g 0 w" by (rule assms(2))
qed (auto dest: world_attempt_open [OF _ _ _ assms(3)] world_attempt_closed [OF _ _ _ assms(3)])

section \<open>The whole request\<close>

text \<open>What the client and the log get when no attempt answered.\<close>

definition no_answer :: "http_out list \<Rightarrow> http_out list \<Rightarrow> bool" where
  "no_answer out xs \<longleftrightarrow> xs = out \<or> (\<exists>code msg. xs = out @ [OutError code msg])"

definition request_header :: "RequestScript \<Rightarrow> http_out list" where
  "request_header rs = [OutHeader ''X-FMR-Request-ID'' (sc_requestID rs)]"

definition request_world :: "RequestScript \<Rightarrow> Gateway \<Rightarrow> ChatWorld" where
  "request_world rs g = \<lparr>cw_gw = g, cw_out = request_header rs, cw_col = new_collector, cw_calls = [],
     cw_events = [started_event rs]\<rparr>"

lemma request_world_open: "world_open (request_header rs) g 0 (request_world rs g)"
  by (simp add: world_open_def request_world_def col_open_def new_collector_def attempts_numbered_def)

lemma ChatHandler_cases:
  assumes "ChatHandler readErr parsed names rs g = Some (w, rec)"
  shows "(rec = None \<and> cw_gw w = g \<and> cw_calls w = [] \<and> (\<exists>msg. cw_out w = [OutError 400 msg])) \<or>
    (\<exists>req. parsed = Inr req \<and> rec = Some (request_record rs (cw_col w)) \<and>
       answer_request rs req (request_world rs g) = Some w)"
  using assms
  by (auto simp: ChatHandler_def Let_def request_world_def request_header_def split: option.splits sum.splits if_splits)

lemma writeUpstreamError_shape: "writeUpstreamError e = [] \<or> (\<exists>code msg. writeUpstreamError e = [OutError code msg])"
  by (auto simp: writeUpstreamError_def split: option.splits)

text \<open>The answer is the loop's, or an error instead of one.\<close>

lemma answer_request_cases:
  assumes "answer_request rs req w0 = Some w"
  shows "(\<exists>ys. w = w0\<lparr>cw_out := cw_out w0 @ ys\<rparr> \<and> (\<exists>code msg. ys = [OutError code msg])) \<or>
    (\<exists>r. attempts_loop (sc_requestID rs) (normalizeChatRequest req)
          (resolveAttemptCandidates (cw_gw w0) (sc_clock rs) req)
          (fp_MaxAttempts (policy_normalized (gw_failover (cw_gw w0))))
          (sc_deadlineNow rs + fp_Budget (policy_normalized (gw_failover (cw_gw w0)))) (sc_attempts rs) 0 loop_start w0 = Some r \<and>
       (w = end_world r \<or> (\<exists>e w1 ys. r = Left e w1 \<and> w = w1\<lparr>cw_out := cw_out w1 @ ys\<rparr> \<and>
          (ys = [] \<or> (\<exists>code msg. ys = [OutError code msg])))))"
proof -
  have upd: "w1\<lparr>cw_out := xs\<rparr> = w1\<lparr>cw_out := xs\<rparr>" for w1 :: ChatWorld and xs by simp
  show ?thesis
    using assms writeUpstreamError_shape
    by (fastforce simp: answer_request_def Let_def split: if_splits option.splits loop_end.splits)
qed

lemma policy_attempts_nonneg: "0 \<le> fp_MaxAttempts (policy_normalized p)"
  by (auto simp: policy_normalized_def DefaultMaxAttempts_def maxConfiguredAttempts_def)

section \<open>Properties\<close>

text \<open>
  What is answered without calling a provider: a body that cannot be read or decoded, an unsupported
  field, no messages, no candidate for the model, or a stream the response writer cannot flush.
\<close>

definition answered_unasked ::
  "gostring option \<Rightarrow> gostring + chatCompletionRequest \<Rightarrow> gostring + gostring list \<Rightarrow> RequestScript \<Rightarrow> Gateway \<Rightarrow> bool" where
  "answered_unasked readErr parsed names rs g \<longleftrightarrow>
     readErr \<noteq> None \<or>
     (case names of Inl _ \<Rightarrow> True | Inr fieldNames \<Rightarrow> \<not> set fieldNames \<subseteq> set allowed_fields) \<or>
     (case parsed of Inl _ \<Rightarrow> True
      | Inr req \<Rightarrow> cr_Messages req = [] \<or> resolveAttemptCandidates g (sc_clock rs) req = [] \<or>
          cr_Stream req \<and> \<not> sc_flusher rs)"

lemma answered_unasked_calls:
  assumes "ChatHandler readErr parsed names rs g = Some (w, rec)" and "answered_unasked readErr parsed names rs g"
  shows "cw_calls w = []"
  using assms
  by (auto simp: ChatHandler_def answered_unasked_def answer_request_def Let_def find_None_iff
      split: option.splits sum.splits if_splits)

lemma answer_request_calls:
  assumes ans: "answer_request rs req (request_world rs g) = Some w"
  shows "calls_ok (resolveAttemptCandidates g (sc_clock rs) req) (normalizeChatRequest req)
    (fp_MaxAttempts (policy_normalized (gw_failover g))) w"
proof -
  let ?w0 = "request_world rs g" and ?cs = "resolveAttemptCandidates g (sc_clock rs) req"
  let ?mx = "fp_MaxAttempts (policy_normalized (gw_failover g))"
  have w0: "cw_calls ?w0 = []" "cw_gw ?w0 = g" by (simp_all add: request_world_def)
  have out: "calls_ok cs r m (w1\<lparr>cw_out := ys\<rparr>) = calls_ok cs r m w1" for cs r m w1 ys
    by (simp add: calls_ok_def)
  from answer_request_cases [OF ans] show ?thesis
    unfolding w0(2)
  proof (elim disjE exE conjE)
    fix ys code msg
    assume "w = ?w0\<lparr>cw_out := cw_out ?w0 @ ys\<rparr>"
    then show ?thesis using w0 policy_attempts_nonneg by (simp add: calls_ok_def)
  qed (use attempts_loop_calls [OF _ w0(1) policy_attempts_nonneg] in \<open>fastforce simp: out\<close>)+
qed

text \<open>C2: whatever a request sends, it calls each route at most once, only routes of its chain, always
  with the request it decoded to, normalized, and no more often than the failover policy allows; one whose
  body cannot be read or decoded, which has an unsupported field or no messages, for whose model there is
  no candidate, or which asks for a stream that cannot be flushed, calls none.\<close>

theorem ChatHandler_calls:
  assumes "ChatHandler readErr parsed names rs g = Some (w, rec)"
  shows "distinct (map (rt_ID \<circ> fst) (cw_calls w)) \<and>
    int (length (cw_calls w)) \<le> fp_MaxAttempts (policy_normalized (gw_failover g)) \<and>
    (\<forall>(route, sent) \<in> set (cw_calls w). \<exists>req. parsed = Inr req \<and> sent = normalizeChatRequest req \<and>
       route \<in> at_Route ` set (resolveAttemptCandidates g (sc_clock rs) req)) \<and>
    (answered_unasked readErr parsed names rs g \<longrightarrow> cw_calls w = [])"
proof (intro conjI impI)
  show "cw_calls w = []" if "answered_unasked readErr parsed names rs g"
    using answered_unasked_calls [OF assms that] .
  consider "cw_calls w = []" | req where "parsed = Inr req" "answer_request rs req (request_world rs g) = Some w"
    using ChatHandler_cases [OF assms] by blast
  note cases = this
  show "distinct (map (rt_ID \<circ> fst) (cw_calls w))"
    by (cases rule: cases) (use answer_request_calls in \<open>auto simp: calls_ok_def\<close>)
  show "int (length (cw_calls w)) \<le> fp_MaxAttempts (policy_normalized (gw_failover g))"
    by (cases rule: cases) (use answer_request_calls policy_attempts_nonneg in \<open>auto simp: calls_ok_def\<close>)
  show "\<forall>(route, sent) \<in> set (cw_calls w). \<exists>req. parsed = Inr req \<and> sent = normalizeChatRequest req \<and>
       route \<in> at_Route ` set (resolveAttemptCandidates g (sc_clock rs) req)"
    by (cases rule: cases) (use answer_request_calls in \<open>fastforce simp: calls_ok_def\<close>)+
qed

text \<open>A streamed request that its one route answers: one call, which the bound allows.\<close>

lemma chat_attempts: "fp_MaxAttempts (policy_normalized (gw_failover chat_gateway)) = 4"
  by (simp add: chat_gateway_def newGatewayState_def policy_normalized_def DefaultFailoverPolicy_def
      DefaultMaxAttempts_def maxConfiguredAttempts_def)

definition sample_request :: "AttemptScript list \<Rightarrow> RequestScript" where
  "sample_request scripts = \<lparr>sc_requestID = ''id'', sc_started = 0, sc_clock = (\<lambda>_. 5), sc_flusher = True,
     sc_deadlineNow = 0, sc_attempts = scripts, sc_endCanceled = False, sc_doneCanceled = False, sc_completed = 1\<rparr>"

lemma sample_run:
  "\<exists>w rec. ChatHandler None (Inr chat_request) (Inr [''model''])
     (sample_request [sample_script (Inr (Some [sample_item (Inr (sample_event ''x'' ''stop''))]))]) chat_gateway = Some (w, rec) \<and>
   map (rt_ID \<circ> fst) (cw_calls w) = [''r1'']"
proof -
  let ?sc = "sample_script (Inr (Some [sample_item (Inr (sample_event ''x'' ''stop''))]))"
  let ?w = "request_world (sample_request [?sc]) chat_gateway" and ?c = "sample_candidate ''r1'' ''p/a''"
  obtain a where a: "run_attempt True ?sc ?c chat_gateway = Some a" "ao_handled a"
    using sample_attempt by blast
  have gw: "cw_gw ?w = chat_gateway" "cw_calls ?w = []" by (simp_all add: request_world_def)
  have fields: "nr_Stream (normalizeChatRequest chat_request)" "as_slot ?sc = None" "\<not> as_ctxErr ?sc"
    "rt_ID (cd_Route ?c) = ''r1''" "cr_Messages chat_request \<noteq> []"
    by (simp_all add: normalizeChatRequest_def chat_request_def sample_script_def sample_candidate_def sample_route_def)
  have sel: "sc_requestID (sample_request xs) = ''id''" "sc_attempts (sample_request xs) = xs"
      "sc_flusher (sample_request xs)" for xs by (simp_all add: sample_request_def)
  obtain w' where w': "world_attempt ''id'' (normalizeChatRequest chat_request) 0 ?sc ?c ?w = Some (a, w')"
      "map (rt_ID \<circ> fst) (cw_calls w') = [''r1'']"
    using a(1) gw fields by (auto simp: world_attempt_def)
  have next1: "nextAttemptCandidate [\<lparr>at_Candidate = ?c, at_fallbackOnly = False\<rparr>] {} None ActionStop =
      Some \<lparr>at_Candidate = ?c, at_fallbackOnly = False\<rparr>"
    by (simp add: nextAttemptCandidate_def)
  have "attempts_loop ''id'' (normalizeChatRequest chat_request) [\<lparr>at_Candidate = ?c, at_fallbackOnly = False\<rparr>]
      4 dl [?sc] 0 loop_start ?w = Some (Returned w')" for dl
    using w' a(2) fields next1 by (subst attempts_loop.simps) (simp add: loop_start_def Let_def)
  then have ans: "answer_request (sample_request [?sc]) chat_request ?w = Some w'"
    by (simp add: answer_request_def gw chat_chain chat_attempts sel Let_def)
  have "ChatHandler None (Inr chat_request) (Inr [''model'']) (sample_request [?sc]) chat_gateway =
      Some (w', Some (request_record (sample_request [?sc]) (cw_col w')))"
    using ans fields by (simp add: ChatHandler_def allowed_fields_def request_world_def request_header_def Let_def)
  with w'(2) show ?thesis by (intro exI conjI)
qed

theorem ChatHandler_calls_witness:
  "\<exists>w rec. ChatHandler None (Inr chat_request) (Inr [''model''])
     (sample_request [sample_script (Inr (Some [sample_item (Inr (sample_event ''x'' ''stop''))]))]) chat_gateway = Some (w, rec) \<and>
   map (rt_ID \<circ> fst) (cw_calls w) = [''r1''] \<and>
   (\<forall>(route, sent) \<in> set (cw_calls w). sent = normalizeChatRequest chat_request \<and> int (length (cw_calls w)) \<le> 4)"
proof -
  obtain w rec where run: "ChatHandler None (Inr chat_request) (Inr [''model''])
     (sample_request [sample_script (Inr (Some [sample_item (Inr (sample_event ''x'' ''stop''))]))]) chat_gateway = Some (w, rec)"
    "map (rt_ID \<circ> fst) (cw_calls w) = [''r1'']"
    using sample_run by (elim exE conjE)
  with ChatHandler_calls [OF run(1)] show ?thesis by (fastforce simp: chat_attempts)
qed

lemma answer_request_end:
  assumes "answer_request rs req (request_world rs g) = Some w" and "\<forall>p. 0 \<le> hm_inFlight (gw_health g) p"
  shows "hm_inFlight (gw_health (cw_gw w)) = hm_inFlight (gw_health g) \<and>
    ((no_answer (request_header rs) (cw_out w) \<and> (\<exists>n. col_open n (cw_col w))) \<or>
     (\<exists>full. answered (resolveAttemptCandidates g (sc_clock rs) req) (request_header rs) full (cw_out w) \<and>
        col_closed (resolveAttemptCandidates g (sc_clock rs) req) full (cw_col w)))"
proof -
  let ?w0 = "request_world rs g" and ?cs = "resolveAttemptCandidates g (sc_clock rs) req" and ?out = "request_header rs"
  have w0: "cw_gw ?w0 = g" by (simp add: request_world_def)
  have opened: "hm_inFlight (gw_health (cw_gw w)) = hm_inFlight (gw_health g) \<and>
      no_answer ?out (cw_out w) \<and> (\<exists>n. col_open n (cw_col w))"
    if "world_open ?out g n w1" "w = w1\<lparr>cw_out := cw_out w1 @ ys\<rparr>" "ys = [] \<or> (\<exists>code msg. ys = [OutError code msg])"
    for n w1 ys
    using that by (auto simp: world_open_def no_answer_def)
  have self: "w = w\<lparr>cw_out := cw_out w @ []\<rparr>" by simp
  from answer_request_cases [OF assms(1)] show ?thesis
    unfolding w0
  proof (elim disjE exE conjE)
    fix ys code msg
    assume "w = ?w0\<lparr>cw_out := cw_out ?w0 @ ys\<rparr>" "ys = [OutError code msg]"
    then show ?thesis using opened [OF request_world_open] by blast
  next
    fix r
    assume loop: "attempts_loop (sc_requestID rs) (normalizeChatRequest req) ?cs
        (fp_MaxAttempts (policy_normalized (gw_failover g)))
        (sc_deadlineNow rs + fp_Budget (policy_normalized (gw_failover g))) (sc_attempts rs) 0 loop_start ?w0 = Some r"
      and w: "w = end_world r"
    from attempts_loop_world [OF loop request_world_open assms(2)] show ?thesis
    proof (elim disjE exE conjE)
      fix n
      assume "world_open ?out g n (end_world r)"
      then show ?thesis using opened [of n w "[]"] w self by simp
    next
      fix w'
      assume "r = Returned w'" "world_closed ?cs ?out g w'"
      then show ?thesis using w by (simp add: world_closed_def)
    qed
  next
    fix r e w1 ys
    assume loop: "attempts_loop (sc_requestID rs) (normalizeChatRequest req) ?cs
        (fp_MaxAttempts (policy_normalized (gw_failover g)))
        (sc_deadlineNow rs + fp_Budget (policy_normalized (gw_failover g))) (sc_attempts rs) 0 loop_start ?w0 = Some r"
      and r: "r = Left e w1" "w = w1\<lparr>cw_out := cw_out w1 @ ys\<rparr>" "ys = []"
    from attempts_loop_world [OF loop request_world_open assms(2)] r obtain n where "world_open ?out g n w1" by auto
    then show ?thesis using opened r by blast
  next
    fix r e w1 ys code msg
    assume loop: "attempts_loop (sc_requestID rs) (normalizeChatRequest req) ?cs
        (fp_MaxAttempts (policy_normalized (gw_failover g)))
        (sc_deadlineNow rs + fp_Budget (policy_normalized (gw_failover g))) (sc_attempts rs) 0 loop_start ?w0 = Some r"
      and r: "r = Left e w1" "w = w1\<lparr>cw_out := cw_out w1 @ ys\<rparr>" "ys = [OutError code msg]"
    from attempts_loop_world [OF loop request_world_open assms(2)] r obtain n where "world_open ?out g n w1" by auto
    then show ?thesis using opened r by blast
  qed
qed

text \<open>C3: a request past validation sends the client, after its request id, either the answer of one
  candidate, or nothing but possibly one error; its usage record says success exactly when that answer is
  whole, names the route of the attempt that answered, counts the attempts in order with at most the last
  one committed, and every concurrency slot is back.\<close>

theorem ChatHandler_answer:
  assumes "ChatHandler readErr (Inr req) names rs g = Some (w, Some record)"
    and "\<forall>p. 0 \<le> hm_inFlight (gw_health g) p"
  shows "hm_inFlight (gw_health (cw_gw w)) = hm_inFlight (gw_health g) \<and>
    rq_Fallback record = (1 < length (rq_Attempts record)) \<and> attempts_numbered (rq_Attempts record) \<and>
    (no_answer (request_header rs) (cw_out w) \<and> rq_Result record \<notin> {ResultSuccess, ResultPartial} \<and>
        list_all (\<lambda>r. \<not> ar_Committed r) (rq_Attempts record) \<and> rq_FinalRoute record = [] \<or>
     (\<exists>full. answered (resolveAttemptCandidates g (sc_clock rs) req) (request_header rs) full (cw_out w) \<and>
        (rq_Result record = ResultSuccess) = full \<and>
        list_all (\<lambda>r. \<not> ar_Committed r) (butlast (rq_Attempts record)) \<and> ar_Committed (last (rq_Attempts record)) \<and>
        rq_FinalRoute record = ar_Route (last (rq_Attempts record))))"
proof -
  have ans: "answer_request rs req (request_world rs g) = Some w" and rec: "record = request_record rs (cw_col w)"
    using ChatHandler_cases [OF assms(1)] by auto
  from answer_request_end [OF ans assms(2)] show ?thesis
    unfolding rec by (auto simp: request_record_def col_open_def col_closed_def)
qed

text \<open>An attempt whose chat call returns, and whose stream ends one way or another.\<close>

definition script_ends :: "AttemptScript \<Rightarrow> bool" where
  "script_ends sc \<longleftrightarrow> (case as_chat sc of
       Inr (Some items) \<Rightarrow> list_ex (\<lambda>it. case ni_result it of Inl _ \<Rightarrow> True | Inr e \<Rightarrow> ev_FinishReason e \<noteq> []) items
     | _ \<Rightarrow> True)"

lemma stream_loop_ends:
  "list_ex (\<lambda>it. case ni_result it of Inl _ \<Rightarrow> True | Inr e \<Rightarrow> ev_FinishReason e \<noteq> []) items \<Longrightarrow>
   stream_loop cand items b tr a \<noteq> None"
proof (induction items arbitrary: b tr a)
  case (Cons it items)
  then show ?case
    by (auto simp: Let_def Semantic_def split: sum.splits prod.splits option.splits)
qed simp

lemma collect_loop_ends:
  "list_ex (\<lambda>it. case ni_result it of Inl _ \<Rightarrow> True | Inr e \<Rightarrow> ev_FinishReason e \<noteq> []) items \<Longrightarrow>
   collect_loop cand items b tr c a \<noteq> None"
proof (induction items arbitrary: b tr c a)
  case (Cons it items)
  then show ?case
    by (auto simp: Let_def split: sum.splits prod.splits option.splits)
qed simp

lemma world_attempt_ends: "script_ends sc \<Longrightarrow> world_attempt rid req n sc cand w \<noteq> None"
  using stream_loop_ends collect_loop_ends
  by (auto simp: world_attempt_def run_attempt_def attempt_body_def script_ends_def Let_def
      split: option.splits sum.splits)

lemma attempts_loop_ends:
  "\<forall>sc \<in> set scripts. script_ends sc \<Longrightarrow> mx - int n \<le> int (length scripts) \<Longrightarrow>
   attempts_loop rid req cs mx dl scripts n ls w \<noteq> None"
proof (induction scripts arbitrary: n ls w)
  case Nil
  then show ?case by (subst attempts_loop.simps) simp
next
  case (Cons sc scripts)
  show ?case
  proof (cases "nextAttemptCandidate cs (ls_attempted ls) (ls_previous ls) (ls_action ls)")
    case None
    then show ?thesis by (subst attempts_loop.simps) simp
  next
    case (Some c)
    have "script_ends sc" using Cons.prems by simp
    then obtain a w' where "world_attempt rid req n sc (at_Candidate c) w = Some (a, w')"
      using world_attempt_ends [of sc rid req n "at_Candidate c" w] by auto
    with Some Cons show ?thesis
      by (subst attempts_loop.simps) (simp add: Let_def split: option.split)
  qed
qed

lemma answer_request_ends:
  assumes "list_all script_ends (sc_attempts rs)"
    and "fp_MaxAttempts (policy_normalized (gw_failover g)) \<le> int (length (sc_attempts rs))"
  shows "answer_request rs req (request_world rs g) \<noteq> None"
proof -
  have "attempts_loop (sc_requestID rs) (normalizeChatRequest req) (resolveAttemptCandidates g (sc_clock rs) req)
      (fp_MaxAttempts (policy_normalized (gw_failover g)))
      (sc_deadlineNow rs + fp_Budget (policy_normalized (gw_failover g))) (sc_attempts rs) 0 loop_start
      (request_world rs g) \<noteq> None"
    using assms by (intro attempts_loop_ends) (simp_all add: list_all_iff)
  moreover have "cw_gw (request_world rs g) = g" by (simp add: request_world_def)
  ultimately show ?thesis
    by (auto simp: answer_request_def Let_def split: loop_end.splits option.splits)
qed

text \<open>C7: a request ends whenever the outside does: if every chat call of its attempts fails, or its
  stream comes to an error, its end or a finish reason, the handler returns with as many attempts as the
  policy allows.\<close>

theorem ChatHandler_terminates:
  assumes "list_all script_ends (sc_attempts rs)"
    and "fp_MaxAttempts (policy_normalized (gw_failover g)) \<le> int (length (sc_attempts rs))"
  shows "ChatHandler readErr parsed names rs g \<noteq> None"
  using answer_request_ends [OF assms]
  by (auto simp: ChatHandler_def Let_def request_world_def request_header_def split: option.splits sum.splits)

theorem ChatHandler_terminates_witness:
  "ChatHandler None (Inr chat_request) (Inr [''model''])
     (sample_request (replicate 4 (sample_script (Inr (Some [sample_item (Inr (sample_event ''x'' ''stop''))])))))
     chat_gateway \<noteq> None"
proof (rule ChatHandler_terminates)
  show "list_all script_ends (sc_attempts
      (sample_request (replicate 4 (sample_script (Inr (Some [sample_item (Inr (sample_event ''x'' ''stop''))]))))))"
    by (simp add: sample_request_def script_ends_def sample_script_def sample_item_def sample_event_def list_all_iff)
qed (simp add: chat_attempts sample_request_def)

theorem ChatHandler_answer_witness:
  "\<exists>w record. ChatHandler None (Inr chat_request) (Inr [''model''])
     (sample_request (replicate 4 (sample_script (Inl (PlainError ''down''))))) chat_gateway = Some (w, Some record) \<and>
   attempts_numbered (rq_Attempts record)"
proof -
  let ?rs = "sample_request (replicate 4 (sample_script (Inl (PlainError ''down''))))"
  have "list_all script_ends (sc_attempts ?rs)"
    by (simp add: sample_request_def script_ends_def sample_script_def list_all_iff)
  moreover have "fp_MaxAttempts (policy_normalized (gw_failover chat_gateway)) \<le> int (length (sc_attempts ?rs))"
    by (simp add: chat_attempts sample_request_def)
  ultimately obtain w where "answer_request ?rs chat_request (request_world ?rs chat_gateway) = Some w"
    using answer_request_ends [of ?rs chat_gateway chat_request] by blast
  then have run: "ChatHandler None (Inr chat_request) (Inr [''model'']) ?rs chat_gateway =
      Some (w, Some (request_record ?rs (cw_col w)))"
    by (simp add: ChatHandler_def allowed_fields_def request_world_def request_header_def chat_request_def Let_def)
  have "\<forall>p. 0 \<le> hm_inFlight (gw_health chat_gateway) p"
    by (simp add: chat_gateway_def newGatewayState_def health_New_def)
  from ChatHandler_answer [OF run this] run show ?thesis by blast
qed

end
