(* ===== verification/ProviderRegistry.thy ===== *)
theory ProviderRegistry
  imports Catalog
begin

text \<open>
  Package \<open>internal/providers/registry\<close>: several configured provider instances behind one provider.
  A backend is the record of what its calls answer; the order a snapshot's models are ranged over and
  whether the context is done when an instance fails are arguments.
\<close>

section \<open>Entries (registry.go)\<close>

record 'c Backend =
  bk_Discover :: "goerr + CatalogSnapshot option"
  bk_Chat :: "ProviderRoute \<Rightarrow> NormalizedRequest \<Rightarrow> goerr + 'c"

type_synonym RouteBuilder = "ProviderModel \<Rightarrow> goerr + ProviderRoute list"

record 'c Entry =
  en_ID :: gostring
  en_Backend :: "'c Backend option"
  en_Routes :: "RouteBuilder option"

type_synonym 'c ProviderRegistry = "gostring \<rightharpoonup> 'c Entry"

datatype registry_error =
    IncompleteEntry gostring
  | DuplicateEntry gostring
  | NoEntries
  | DiscoverError gostring goerr
  | NilCatalog gostring
  | MismatchedModel gostring ProviderModelID ProviderModelID
  | ForeignModel gostring ProviderModelID
  | DuplicateModel ProviderModelID
  | RoutesError ProviderModelID goerr
  | NoRoutes gostring ProviderModelID
  | ForeignRoute RouteID ProviderModelID
  | UnknownRouteProvider gostring
  | InvalidOwnership RouteID
  | BackendError goerr

fun index_entries :: "'c Entry list \<Rightarrow> 'c ProviderRegistry \<Rightarrow> registry_error + 'c ProviderRegistry" where
  "index_entries [] r = Inr r"
| "index_entries (e # es) r =
     (if en_ID e = [] \<or> en_Backend e = None \<or> en_Routes e = None then Inl (IncompleteEntry (en_ID e))
      else if r (en_ID e) \<noteq> None then Inl (DuplicateEntry (en_ID e))
      else index_entries es (r(en_ID e \<mapsto> e)))"

definition registry_New :: "'c Entry list \<Rightarrow> registry_error + 'c ProviderRegistry" where
  "registry_New entries = (case index_entries entries Map.empty of
       Inl e \<Rightarrow> Inl e
     | Inr r \<Rightarrow> if entries = [] then Inl NoEntries else Inr r)"

section \<open>Discovery (registry.go)\<close>

definition degradedAvailability :: "gostring \<Rightarrow> goerr \<Rightarrow> ProviderAvailability option" where
  "degradedAvailability pid err =
     (case as_Failure err of
        None \<Rightarrow> None
      | Some (f, _, _) \<Rightarrow>
          if f_Scope f \<noteq> ScopeProvider \<and> f_Scope f \<noteq> ScopeCredential then None
          else map_option (\<lambda>(code, msg). \<lparr>pa_ID = pid, pa_Available = False, pa_ErrorCode = code, pa_Message = msg\<rparr>)
            (case f_Class f of
               FailureAuth \<Rightarrow> Some (''PROVIDER_AUTH_REJECTED'', ''Provider credentials were rejected'')
             | FailureRateLimited \<Rightarrow> Some (''PROVIDER_RATE_LIMITED'', ''Provider catalog request was rate limited'')
             | FailureTimeout \<Rightarrow> Some (''PROVIDER_DISCOVERY_TIMEOUT'', ''Provider catalog request timed out'')
             | FailureNetwork \<Rightarrow> Some (''PROVIDER_NETWORK_UNAVAILABLE'', ''Provider catalog could not be reached'')
             | FailureServerError \<Rightarrow>
                 Some (''PROVIDER_UPSTREAM_UNAVAILABLE'', ''Provider catalog service is unavailable'')
             | FailureProtocol \<Rightarrow> Some (''PROVIDER_PROTOCOL_ERROR'', ''Provider returned an invalid catalog response'')
             | _ \<Rightarrow> None))"

type_synonym provider_maps = "(ProviderModelID \<rightharpoonup> ProviderModel) \<times> Routes"

text \<open>One model of a provider's catalog, checked against its namespace and its routes.\<close>

definition owned_model ::
  "gostring \<Rightarrow> RouteBuilder \<Rightarrow> (ProviderModelID \<rightharpoonup> ProviderModel) \<Rightarrow> ProviderModelID \<Rightarrow> ProviderModel \<Rightarrow>
   registry_error + ProviderRoute list" where
  "owned_model pid build merged modelID pm =
     (if pm_ID pm \<noteq> modelID then Inl (MismatchedModel pid modelID (pm_ID pm))
      else if (case id_Parse modelID of Inl _ \<Rightarrow> True | Inr (owner, _) \<Rightarrow> owner \<noteq> pid)
      then Inl (ForeignModel pid modelID)
      else if merged modelID \<noteq> None then Inl (DuplicateModel modelID)
      else case build pm of
        Inl e \<Rightarrow> Inl (RoutesError modelID e)
      | Inr routes \<Rightarrow>
          if routes = [] then Inl (NoRoutes pid modelID)
          else case List.find (\<lambda>r. rt_ModelID r \<noteq> modelID \<or> rt_Provider r \<noteq> pid) routes of
            Some r \<Rightarrow> Inl (ForeignRoute (rt_ID r) modelID)
          | None \<Rightarrow> Inr routes)"

fun provider_loop ::
  "gostring \<Rightarrow> RouteBuilder \<Rightarrow> (ProviderModelID \<rightharpoonup> ProviderModel) \<Rightarrow> (ProviderModelID \<rightharpoonup> ProviderModel) \<Rightarrow>
   ProviderModelID list \<Rightarrow> provider_maps \<Rightarrow> registry_error + provider_maps" where
  "provider_loop pid build merged models [] st = Inr st"
| "provider_loop pid build merged models (k # ks) st =
     (case models k of
        None \<Rightarrow> provider_loop pid build merged models ks st
      | Some pm \<Rightarrow>
          (case owned_model pid build merged k pm of
             Inl e \<Rightarrow> Inl e
           | Inr routes \<Rightarrow>
               provider_loop pid build merged models ks ((fst st)(k \<mapsto> pm), (snd st)(k \<mapsto> routes))))"

record MergedCatalog =
  mc_CreatedAt :: time
  mc_Models :: "ProviderModelID \<rightharpoonup> ProviderModel"
  mc_Routes :: Routes
  mc_Providers :: "ProviderAvailability list"

text \<open>One provider of the loop over the sorted ids.\<close>

definition merge_entry ::
  "(CatalogSnapshot \<Rightarrow> ProviderModelID list) \<Rightarrow> bool \<Rightarrow> gostring \<Rightarrow> 'c Entry \<Rightarrow> MergedCatalog \<Rightarrow>
   registry_error + MergedCatalog" where
  "merge_entry order ctxErr pid entry out =
     (case bk_Discover (the (en_Backend entry)) of
        Inl err \<Rightarrow>
          if ctxErr \<or> err_Is err ErrCanceled then Inl (DiscoverError pid err)
          else (case degradedAvailability pid err of
                  None \<Rightarrow> Inl (DiscoverError pid err)
                | Some a \<Rightarrow> Inr (out\<lparr>mc_Providers := mc_Providers out @ [a]\<rparr>))
      | Inr None \<Rightarrow> Inl (NilCatalog pid)
      | Inr (Some snapshot) \<Rightarrow>
          let created = (if cs_CreatedAt snapshot > mc_CreatedAt out then cs_CreatedAt snapshot else mc_CreatedAt out)
          in case provider_loop pid (the (en_Routes entry)) (mc_Models out) (snap_models snapshot) (order snapshot)
              (Map.empty, Map.empty) of
            Inl e \<Rightarrow> Inl e
          | Inr (models, routes) \<Rightarrow>
              Inr \<lparr>mc_CreatedAt = created, mc_Models = mc_Models out ++ models,
                mc_Routes = mc_Routes out ++ routes,
                mc_Providers = mc_Providers out @
                  [\<lparr>pa_ID = pid, pa_Available = True, pa_ErrorCode = [], pa_Message = []\<rparr>]\<rparr>)"

fun merge_loop ::
  "(CatalogSnapshot \<Rightarrow> ProviderModelID list) \<Rightarrow> (gostring \<Rightarrow> bool) \<Rightarrow> 'c ProviderRegistry \<Rightarrow> gostring list \<Rightarrow>
   MergedCatalog \<Rightarrow> registry_error + MergedCatalog" where
  "merge_loop order ctxErr r [] out = Inr out"
| "merge_loop order ctxErr r (pid # pids) out =
     (case r pid of
        None \<Rightarrow> merge_loop order ctxErr r pids out
      | Some entry \<Rightarrow>
          (case merge_entry order (ctxErr pid) pid entry out of
             Inl e \<Rightarrow> Inl e
           | Inr out \<Rightarrow> merge_loop order ctxErr r pids out))"

text \<open>\<open>keys\<close> is the order the entries are ranged over; they are sorted before use.\<close>

definition DiscoverRoutedCatalog ::
  "gostring list \<Rightarrow> (CatalogSnapshot \<Rightarrow> ProviderModelID list) \<Rightarrow> (gostring \<Rightarrow> bool) \<Rightarrow> 'c ProviderRegistry \<Rightarrow>
   registry_error + RoutedCatalog" where
  "DiscoverRoutedCatalog keys order ctxErr r =
     (case merge_loop order ctxErr r (sort keys)
        \<lparr>mc_CreatedAt = 0, mc_Models = Map.empty, mc_Routes = Map.empty, mc_Providers = []\<rparr> of
        Inl e \<Rightarrow> Inl e
      | Inr out \<Rightarrow> Inr \<lparr>rc_Snapshot = Some \<lparr>cs_Revision = 0, cs_CreatedAt = mc_CreatedAt out,
            cs_Models = Some (mc_Models out)\<rparr>, rc_Routes = mc_Routes out, rc_Providers = mc_Providers out\<rparr>)"

definition registry_DiscoverModels ::
  "gostring list \<Rightarrow> (CatalogSnapshot \<Rightarrow> ProviderModelID list) \<Rightarrow> (gostring \<Rightarrow> bool) \<Rightarrow> 'c ProviderRegistry \<Rightarrow>
   registry_error + CatalogSnapshot option" where
  "registry_DiscoverModels keys order ctxErr r =
     (case DiscoverRoutedCatalog keys order ctxErr r of Inl e \<Rightarrow> Inl e | Inr c \<Rightarrow> Inr (rc_Snapshot c))"

section \<open>Dispatch (registry.go)\<close>

definition registry_ChatCompletion ::
  "'c ProviderRegistry \<Rightarrow> ProviderRoute \<Rightarrow> NormalizedRequest \<Rightarrow> registry_error + 'c" where
  "registry_ChatCompletion r route req =
     (case r (rt_Provider route) of
        None \<Rightarrow> Inl (UnknownRouteProvider (rt_Provider route))
      | Some entry \<Rightarrow>
          if (case id_Parse (rt_ModelID route) of Inl _ \<Rightarrow> True | Inr (owner, _) \<Rightarrow> owner \<noteq> rt_Provider route)
          then Inl (InvalidOwnership (rt_ID route))
          else case bk_Chat (the (en_Backend entry)) route req of
            Inl e \<Rightarrow> Inl (BackendError e)
          | Inr stream \<Rightarrow> Inr stream)"

section \<open>Ownership\<close>

text \<open>
  What the merged catalog keeps through the loop: every model sits under its own identity in the
  namespace of a provider that answered, with a non-empty list of routes of that model and provider.
\<close>

definition owned :: "gostring list \<Rightarrow> MergedCatalog \<Rightarrow> bool" where
  "owned pids out \<longleftrightarrow> dom (mc_Routes out) = dom (mc_Models out) \<and>
     (\<forall>k pm rs. mc_Models out k = Some pm \<longrightarrow> mc_Routes out k = Some rs \<longrightarrow>
        pm_ID pm = k \<and> rs \<noteq> [] \<and> (\<exists>pid m. pid \<in> set pids \<and> id_Parse k = Inr (pid, m) \<and>
          (\<forall>r \<in> set rs. rt_ModelID r = k \<and> rt_Provider r = pid)))"

lemma owned_model_InrD:
  assumes "owned_model pid build merged k pm = Inr routes"
  shows "pm_ID pm = k \<and> (\<exists>m. id_Parse k = Inr (pid, m)) \<and> routes \<noteq> [] \<and>
    (\<forall>r \<in> set routes. rt_ModelID r = k \<and> rt_Provider r = pid)"
  using assms
  by (auto simp: owned_model_def find_None_iff split: if_splits sum.splits option.splits prod.splits)

definition maps_owned :: "gostring \<Rightarrow> provider_maps \<Rightarrow> bool" where
  "maps_owned pid st \<longleftrightarrow> dom (snd st) = dom (fst st) \<and>
     (\<forall>k pm rs. fst st k = Some pm \<longrightarrow> snd st k = Some rs \<longrightarrow>
        pm_ID pm = k \<and> rs \<noteq> [] \<and> (\<exists>m. id_Parse k = Inr (pid, m)) \<and>
        (\<forall>r \<in> set rs. rt_ModelID r = k \<and> rt_Provider r = pid))"

lemma provider_loop_owned:
  "provider_loop pid build merged models ks st = Inr st' \<Longrightarrow> maps_owned pid st \<Longrightarrow> maps_owned pid st'"
proof (induction ks arbitrary: st)
  case (Cons k ks)
  show ?case
  proof (cases "models k")
    case None
    with Cons show ?thesis by simp
  next
    case (Some pm)
    with Cons.prems(1) obtain routes where routes: "owned_model pid build merged k pm = Inr routes"
      and run: "provider_loop pid build merged models ks ((fst st)(k \<mapsto> pm), (snd st)(k \<mapsto> routes)) = Inr st'"
      by (auto split: sum.splits)
    from owned_model_InrD [OF routes] Cons.prems(2)
    have "maps_owned pid ((fst st)(k \<mapsto> pm), (snd st)(k \<mapsto> routes))"
      by (auto simp: maps_owned_def)
    with Cons.IH [OF run] show ?thesis by simp
  qed
qed simp

lemma owned_mono: "owned pids out \<Longrightarrow> owned (pids @ qs) (out\<lparr>mc_Providers := ps\<rparr>)"
  unfolding owned_def by fastforce

lemma owned_merge:
  assumes "owned pids out" and "maps_owned pid (models, routes)"
  shows "owned (pids @ [pid]) \<lparr>mc_CreatedAt = t, mc_Models = mc_Models out ++ models,
    mc_Routes = mc_Routes out ++ routes, mc_Providers = ps\<rparr>"
proof -
  have dom: "dom routes = dom models" "dom (mc_Routes out) = dom (mc_Models out)"
    using assms by (simp_all add: owned_def maps_owned_def)
  have "pm_ID pm = k \<and> rs \<noteq> [] \<and> (\<exists>q m. q \<in> set (pids @ [pid]) \<and> id_Parse k = Inr (q, m) \<and>
      (\<forall>r \<in> set rs. rt_ModelID r = k \<and> rt_Provider r = q))"
    if "(mc_Models out ++ models) k = Some pm" "(mc_Routes out ++ routes) k = Some rs" for k pm rs
  proof (cases "k \<in> dom models")
    case True
    with dom that have "models k = Some pm" "routes k = Some rs" by (auto simp: map_add_Some_iff)
    with assms(2) show ?thesis by (fastforce simp: maps_owned_def)
  next
    case False
    moreover from this dom(1) have "k \<notin> dom routes" by simp
    ultimately have "mc_Models out k = Some pm" "mc_Routes out k = Some rs"
      using that by (simp_all add: map_add_dom_app_simps(3))
    with assms(1) show ?thesis unfolding owned_def by fastforce
  qed
  with dom show ?thesis unfolding owned_def by simp
qed

text \<open>What is said of the providers: one entry each, in order; only an available one has models.\<close>

definition reported :: "gostring list \<Rightarrow> MergedCatalog \<Rightarrow> bool" where
  "reported pids out \<longleftrightarrow> map pa_ID (mc_Providers out) = pids \<and>
     (\<forall>k pid m. k \<in> dom (mc_Models out) \<and> id_Parse k = Inr (pid, m) \<longrightarrow>
        (\<exists>a \<in> set (mc_Providers out). pa_ID a = pid \<and> pa_Available a))"

lemma degradedAvailability_ID: "degradedAvailability pid e = Some a \<Longrightarrow> pa_ID a = pid \<and> \<not> pa_Available a"
  by (auto simp: degradedAvailability_def split: option.splits prod.splits if_splits)

lemma merge_entry_step:
  assumes "merge_entry order c pid entry out = Inr out'" and "owned pids out" and "reported pids out"
  shows "owned (pids @ [pid]) out' \<and> reported (pids @ [pid]) out'"
proof (cases "bk_Discover (the (en_Backend entry))")
  case (Inl e)
  with assms(1) obtain a where "degradedAvailability pid e = Some a"
    "out' = out\<lparr>mc_Providers := mc_Providers out @ [a]\<rparr>"
    by (auto simp: merge_entry_def split: if_splits option.splits)
  with degradedAvailability_ID [OF this(1)] assms(2,3) owned_mono show ?thesis
    by (auto simp: reported_def)
next
  case (Inr s)
  with assms(1) obtain snap models routes t where
    run: "provider_loop pid (the (en_Routes entry)) (mc_Models out) (snap_models snap) (order snap)
      (Map.empty, Map.empty) = Inr (models, routes)" and
    out': "out' = \<lparr>mc_CreatedAt = t, mc_Models = mc_Models out ++ models, mc_Routes = mc_Routes out ++ routes,
      mc_Providers = mc_Providers out @ [\<lparr>pa_ID = pid, pa_Available = True, pa_ErrorCode = [], pa_Message = []\<rparr>]\<rparr>"
    by (auto simp: merge_entry_def Let_def split: option.splits sum.splits)
  have mo: "maps_owned pid (models, routes)"
    by (rule provider_loop_owned [OF run]) (simp add: maps_owned_def)
  have "\<exists>a \<in> set (mc_Providers out'). pa_ID a = q \<and> pa_Available a"
    if "k \<in> dom (mc_Models out')" "id_Parse k = Inr (q, m)" for k q m
  proof (cases "k \<in> dom models")
    case True
    with mo have "\<exists>m. id_Parse k = Inr (pid, m)" unfolding maps_owned_def by fastforce
    with that(2) show ?thesis by (auto simp: out')
  next
    case False
    with that(1) have "k \<in> dom (mc_Models out)" by (auto simp: out')
    with assms(3) that(2) show ?thesis unfolding reported_def by (fastforce simp: out')
  qed
  moreover have "map pa_ID (mc_Providers out') = pids @ [pid]"
    using assms(3) by (simp add: reported_def out')
  ultimately have "reported (pids @ [pid]) out'" unfolding reported_def by blast
  with owned_merge [OF assms(2) mo] show ?thesis by (simp add: out')
qed

lemma merge_loop_step:
  "merge_loop order c r pids out = Inr out' \<Longrightarrow> owned qs out \<Longrightarrow> reported qs out \<Longrightarrow> set pids \<subseteq> dom r \<Longrightarrow>
   owned (qs @ pids) out' \<and> reported (qs @ pids) out'"
proof (induction pids arbitrary: qs out)
  case (Cons pid pids)
  then obtain entry where e: "r pid = Some entry" by auto
  with Cons.prems(1) obtain out1 where o: "merge_entry order (c pid) pid entry out = Inr out1"
    and run: "merge_loop order c r pids out1 = Inr out'" by (auto split: sum.splits)
  have "set pids \<subseteq> dom r" using Cons.prems(4) by simp
  with Cons.IH [OF run] merge_entry_step [OF o Cons.prems(2,3)]
  have "owned ((qs @ [pid]) @ pids) out' \<and> reported ((qs @ [pid]) @ pids) out'" by blast
  then show ?case by simp
qed simp

lemma index_entries_ConsD:
  "index_entries (e # es) r = Inr r' \<Longrightarrow>
   index_entries es (r(en_ID e \<mapsto> e)) = Inr r' \<and> en_ID e \<notin> dom r \<and> en_Backend e \<noteq> None \<and> en_Routes e \<noteq> None"
  by (auto split: if_splits)

lemma index_entries_fresh: "index_entries es r = Inr r' \<Longrightarrow> en_ID ` set es \<inter> dom r = {}"
proof (induction es arbitrary: r)
  case (Cons e es)
  note step = index_entries_ConsD [OF Cons.prems]
  have "en_ID ` set es \<inter> dom (r(en_ID e \<mapsto> e)) = {}" by (rule Cons.IH [OF conjunct1 [OF step]])
  with step show ?case by auto
qed simp

lemma index_entries_mem:
  "index_entries es r = Inr r' \<Longrightarrow> r' k = Some e \<Longrightarrow> e \<in> set es \<or> r k = Some e"
proof (induction es arbitrary: r)
  case (Cons x es)
  have "e \<in> set es \<or> (r(en_ID x \<mapsto> x)) k = Some e"
    by (rule Cons.IH [OF conjunct1 [OF index_entries_ConsD [OF Cons.prems(1)]] Cons.prems(2)])
  then show ?case by (auto split: if_splits)
qed simp

definition complete_entries :: "'c ProviderRegistry \<Rightarrow> bool" where
  "complete_entries r \<longleftrightarrow> (\<forall>k e. r k = Some e \<longrightarrow> en_ID e = k \<and> en_Backend e \<noteq> None \<and> en_Routes e \<noteq> None)"

lemma index_entries_dom:
  "index_entries es r = Inr r' \<Longrightarrow> complete_entries r \<Longrightarrow>
   complete_entries r' \<and> dom r' = dom r \<union> en_ID ` set es \<and> distinct (map en_ID es)"
proof (induction es arbitrary: r)
  case (Cons e es)
  note step = index_entries_ConsD [OF Cons.prems(1)]
  then have "complete_entries (r(en_ID e \<mapsto> e))"
    using Cons.prems(2) by (simp add: complete_entries_def)
  from Cons.IH [OF conjunct1 [OF step] this]
  have "complete_entries r' \<and> dom r' = insert (en_ID e) (dom r) \<union> en_ID ` set es \<and> distinct (map en_ID es)"
    unfolding dom_fun_upd by (simp only: option.simps if_False)
  moreover have "en_ID ` set es \<inter> dom (r(en_ID e \<mapsto> e)) = {}"
    by (rule index_entries_fresh [OF conjunct1 [OF step]])
  ultimately show ?case by auto
qed simp

section \<open>Properties\<close>

text \<open>C22: the merged catalog keeps the providers apart: every model is under its own identity in the
  namespace of a registered provider that answered, its routes are routes of that model and that provider,
  every registered provider is reported once, in order, and a chat over one of the routes goes to the
  backend of that provider and no other.\<close>

theorem registry_isolates_providers:
  assumes "registry_New entries = Inr r" and "DiscoverRoutedCatalog keys order ctxErr r = Inr c"
    and "distinct keys" and "set keys = dom r"
    and "rc_Snapshot c = Some snap" and "snap_models snap k = Some pm"
  shows "\<exists>owner m rs entry backend. id_Parse k = Inr (owner, m) \<and> pm_ID pm = k \<and>
      r owner = Some entry \<and> entry \<in> set entries \<and> en_ID entry = owner \<and> en_Backend entry = Some backend \<and>
      rc_Routes c k = Some rs \<and> rs \<noteq> [] \<and>
      list_all (\<lambda>route. rt_ModelID route = k \<and> rt_Provider route = owner \<and>
        registry_ChatCompletion r route req =
          (case bk_Chat backend route req of Inl e \<Rightarrow> Inl (BackendError e) | Inr s \<Rightarrow> Inr s)) rs \<and>
      map pa_ID (rc_Providers c) = sort (map en_ID entries) \<and>
      list_ex (\<lambda>a. pa_ID a = owner \<and> pa_Available a) (rc_Providers c)"
proof -
  have idx: "index_entries entries Map.empty = Inr r"
    using assms(1) by (auto simp: registry_New_def split: sum.splits if_splits)
  from index_entries_dom [OF idx] have ents: "complete_entries r" "dom r = en_ID ` set entries" "distinct (map en_ID entries)"
    by (simp_all add: complete_entries_def)
  from assms(2) obtain out where run: "merge_loop order ctxErr r (sort keys)
      \<lparr>mc_CreatedAt = 0, mc_Models = Map.empty, mc_Routes = Map.empty, mc_Providers = []\<rparr> = Inr out"
    and c: "c = \<lparr>rc_Snapshot = Some \<lparr>cs_Revision = 0, cs_CreatedAt = mc_CreatedAt out,
            cs_Models = Some (mc_Models out)\<rparr>, rc_Routes = mc_Routes out, rc_Providers = mc_Providers out\<rparr>"
    by (auto simp: DiscoverRoutedCatalog_def split: sum.splits)
  from merge_loop_step [OF run, of "[]"] assms(4)
  have own: "owned (sort keys) out" and rep: "reported (sort keys) out"
    by (simp_all add: owned_def reported_def)
  from assms(5,6) c have pm: "mc_Models out k = Some pm" by (auto simp: snap_models_def)
  with own obtain rs where rs: "mc_Routes out k = Some rs" unfolding owned_def by (metis domD domI)
  from own pm rs obtain owner m where o: "pm_ID pm = k" "rs \<noteq> []" "owner \<in> set keys" "id_Parse k = Inr (owner, m)"
    "\<forall>route \<in> set rs. rt_ModelID route = k \<and> rt_Provider route = owner"
    unfolding owned_def by (metis set_sort)
  from o(3) assms(4) obtain entry where entry: "r owner = Some entry" by auto
  with ents(1) obtain backend where b: "en_ID entry = owner" "en_Backend entry = Some backend"
    by (auto simp: complete_entries_def)
  have "entry \<in> set entries"
    using index_entries_mem [OF idx entry] by simp
  moreover have "map pa_ID (mc_Providers out) = sort (map en_ID entries)"
    using rep ents(2,3) assms(3,4)
    by (simp add: reported_def) (metis distinct_sort list.set_map sorted_distinct_set_unique sorted_sort set_sort)
  moreover have "list_ex (\<lambda>a. pa_ID a = owner \<and> pa_Available a) (mc_Providers out)"
    using rep o(4) pm unfolding reported_def list_ex_iff by blast
  ultimately show ?thesis
    using o b entry rs c by (intro exI [of _ owner] exI [of _ m] exI [of _ rs] exI [of _ entry] exI [of _ backend])
      (auto simp: list_all_iff registry_ChatCompletion_def)
qed

definition sample_entry :: "unit Entry" where
  "sample_entry = \<lparr>en_ID = ''p'',
     en_Backend = Some \<lparr>bk_Discover = Inr (Some \<lparr>cs_Revision = 0, cs_CreatedAt = 1,
         cs_Models = Some (Map.empty(''p/a'' \<mapsto> cd_Model (sample_candidate ''r1'' ''p/a'')))\<rparr>), bk_Chat = (\<lambda>_ _. Inr ())\<rparr>,
     en_Routes = Some (\<lambda>_. Inr [cd_Route (sample_candidate ''r1'' ''p/a'')])\<rparr>"

theorem registry_isolates_providers_witness:
  "\<exists>c. DiscoverRoutedCatalog [''p''] (\<lambda>_. [''p/a'']) (\<lambda>_. False) [''p'' \<mapsto> sample_entry] = Inr c \<and>
     map pa_ID (rc_Providers c) = [''p''] \<and> list_ex (\<lambda>a. pa_ID a = ''p'' \<and> pa_Available a) (rc_Providers c)"
proof -
  have r: "registry_New [sample_entry] = Inr [''p'' \<mapsto> sample_entry]"
    by (simp add: registry_New_def sample_entry_def)
  have parse: "id_Parse ''p/a'' = Inr (''p'', ''a'')" by code_simp
  have own: "owned_model ''p'' (\<lambda>_. Inr [cd_Route (sample_candidate ''r1'' ''p/a'')]) Map.empty ''p/a''
      (cd_Model (sample_candidate ''r1'' ''p/a'')) = Inr [cd_Route (sample_candidate ''r1'' ''p/a'')]"
    by (simp add: owned_model_def parse sample_candidate_def sample_route_def sample_model_def)
  obtain c where c: "DiscoverRoutedCatalog [''p''] (\<lambda>_. [''p/a'']) (\<lambda>_. False) [''p'' \<mapsto> sample_entry] = Inr c"
    "rc_Snapshot c = Some \<lparr>cs_Revision = 0, cs_CreatedAt = 1,
         cs_Models = Some (Map.empty(''p/a'' \<mapsto> cd_Model (sample_candidate ''r1'' ''p/a'')))\<rparr>"
    by (simp add: DiscoverRoutedCatalog_def merge_entry_def sample_entry_def snap_models_def own)
  have "snap_models \<lparr>cs_Revision = 0, cs_CreatedAt = 1,
      cs_Models = Some (Map.empty(''p/a'' \<mapsto> cd_Model (sample_candidate ''r1'' ''p/a'')))\<rparr> ''p/a'' =
      Some (cd_Model (sample_candidate ''r1'' ''p/a''))" by (simp add: snap_models_def)
  from registry_isolates_providers [OF r c(1) _ _ c(2) this] c(1) parse show ?thesis
    by (auto simp: sample_entry_def)
qed

end
