(* ===== verification/Probe.thy ===== *)
theory Probe
  imports Attempt
begin

text \<open>
  Package \<open>internal/probe\<close>: periodic measurement of the time to first token of the routes in the pool,
  and the gateway's use of it. A probe is built from the scheduler's locked operations; what happens
  outside during one is a script. The workers of overlapping probe cycles and the life of the periodic
  loop are step relations.
\<close>

section \<open>Targets (probe.go)\<close>

record Target =
  tg_Route :: ProviderRoute
  tg_Model :: ProviderModel

record ProbeSnapshot =
  pn_Catalog :: "CatalogSnapshot option"
  pn_Pool :: "ProviderModelID list"
  pn_Routes :: Routes

definition probe_route :: "time \<Rightarrow> Manager option \<Rightarrow> ProviderRoute \<Rightarrow> bool" where
  "probe_route now h route =
     (if \<not> rt_Enabled route then False
      else if \<not> AllowsProbe route then False
      else case h of None \<Rightarrow> True | Some m \<Rightarrow> Available now m (rt_ID route))"

fun target_loop ::
  "time \<Rightarrow> CatalogSnapshot \<Rightarrow> Routes \<Rightarrow> Manager option \<Rightarrow> ProviderModelID list \<Rightarrow> ProviderModelID set \<Rightarrow> Target list" where
  "target_loop now cat routes h [] seen = []"
| "target_loop now cat routes h (mid # mids) seen =
     (if mid \<in> seen then target_loop now cat routes h mids seen
      else (case snap_models cat mid of
          None \<Rightarrow> []
        | Some pm \<Rightarrow> map (\<lambda>r. \<lparr>tg_Route = r, tg_Model = pm\<rparr>)
            (filter (probe_route now h) (case routes mid of None \<Rightarrow> [] | Some rs \<Rightarrow> rs))) @
        target_loop now cat routes h mids (insert mid seen))"

definition EligibleTargets ::
  "time \<Rightarrow> CatalogSnapshot option \<Rightarrow> ProviderModelID list \<Rightarrow> Routes \<Rightarrow> Manager option \<Rightarrow> Target list" where
  "EligibleTargets now cat pool routes h = (case cat of
       None \<Rightarrow> []
     | Some c \<Rightarrow> target_loop now c routes h pool {})"

section \<open>The scheduler (probe.go)\<close>

definition DefaultProbeTimeout :: duration where
  "DefaultProbeTimeout = 10 * Second"

definition maxConcurrentProbes :: nat where
  "maxConcurrentProbes = 4"

definition baseProbeBackoff :: duration where
  "baseProbeBackoff = 30 * Second"

definition maxProbeBackoff :: duration where
  "maxProbeBackoff = 10 * Minute"

record probeBackoff =
  bo_delay :: duration
  bo_nextAt :: time

text \<open>The registry and the health manager are the ones of the gateway, shared by pointer.\<close>

record Scheduler =
  ps_Reg :: Registry
  ps_Health :: Manager
  ps_interval :: duration
  ps_timeout :: duration
  ps_backoffs :: "gostring \<rightharpoonup> probeBackoff"
  ps_inFlight :: "gostring set"

definition probe_New :: "Registry \<Rightarrow> Manager \<Rightarrow> duration \<Rightarrow> Scheduler" where
  "probe_New reg h interval = \<lparr>ps_Reg = reg, ps_Health = h, ps_interval = interval,
     ps_timeout = DefaultProbeTimeout, ps_backoffs = Map.empty, ps_inFlight = {}\<rparr>"

text \<open>\<open>s.backoffs[id]\<close>, the zero value for a missing key.\<close>

definition backoff_of :: "Scheduler \<Rightarrow> gostring \<Rightarrow> probeBackoff" where
  "backoff_of s r = (case ps_backoffs s r of None \<Rightarrow> \<lparr>bo_delay = 0, bo_nextAt = 0\<rparr> | Some b \<Rightarrow> b)"

definition claimProbe :: "gostring \<Rightarrow> time \<Rightarrow> Scheduler \<Rightarrow> bool \<times> Scheduler" where
  "claimProbe r now s =
     (if r \<in> ps_inFlight s \<or> now < bo_nextAt (backoff_of s r) then (False, s)
      else (True, s\<lparr>ps_inFlight := insert r (ps_inFlight s)\<rparr>))"

definition finishProbe :: "gostring \<Rightarrow> Scheduler \<Rightarrow> Scheduler" where
  "finishProbe r s = s\<lparr>ps_inFlight := ps_inFlight s - {r}\<rparr>"

definition next_delay :: "duration \<Rightarrow> duration" where
  "next_delay d = (if d = 0 then baseProbeBackoff else min (d * 2) maxProbeBackoff)"

definition failProbe :: "time \<Rightarrow> gostring \<Rightarrow> gostring \<Rightarrow> Scheduler \<Rightarrow> Scheduler" where
  "failProbe now r outcome s =
     (let s = s\<lparr>ps_Reg := MarkProbeFailure r outcome (ps_Reg s)\<rparr>
      in if outcome = ''canceled'' then s
         else let delay = next_delay (bo_delay (backoff_of s r))
              in s\<lparr>ps_backoffs := (ps_backoffs s)(r \<mapsto> \<lparr>bo_delay = delay, bo_nextAt = now + delay\<rparr>),
                   ps_Health := RouteFailure now r 0 (ps_Health s)\<rparr>)"

definition succeedProbe :: "time \<Rightarrow> gostring \<Rightarrow> duration \<Rightarrow> Scheduler \<Rightarrow> Scheduler" where
  "succeedProbe now r d s =
     (let d = (if d = 0 then 1 else d)
      in s\<lparr>ps_Reg := RecordProbe now r (fdiv (float_of_int d) (float_of_int Millisecond)) (ps_Reg s),
           ps_backoffs := (ps_backoffs s)(r := None),
           ps_Health := RouteSuccess r (ps_Health s)\<rparr>)"

definition probe_outcome :: "bool \<Rightarrow> bool \<Rightarrow> goerr \<Rightarrow> gostring" where
  "probe_outcome ctxErr timedOut err =
     (if ctxErr then ''canceled''
      else if timedOut \<or> err_Is err ErrDeadlineExceeded then ''timeout''
      else if err_Is err ErrEOF then ''no_semantic''
      else ''error'')"

section \<open>One probe (probe.go)\<close>

text \<open>
  One return of \<open>stream.Next\<close>, with the clock then and whether the scheduler's context is done or the
  deadline of the probe has passed.
\<close>

record ProbeItem =
  pi_result :: "goerr + StreamEvent"
  pi_now :: time
  pi_ctxErr :: bool
  pi_timedOut :: bool

record ProbeScript =
  pr_ctxErr :: bool
  pr_now :: time
  pr_slot :: "goerr option"
  pr_ctxErr2 :: bool
  pr_begin :: time
  pr_start :: time
  pr_chat :: "goerr + ProbeItem list"
  pr_chatNow :: time
  pr_chatCtxErr :: bool
  pr_chatTimedOut :: bool

definition probe_request :: NormalizedRequest where
  "probe_request = \<lparr>nr_Messages = [\<lparr>msg_Role = ''user'', msg_Content = JStr ''ping'', msg_ToolCalls = [],
       msg_ToolCallID = [], msg_Name = []\<rparr>],
     nr_Tools = [], nr_ToolChoice = [], nr_ResponseFormat = [], nr_Reasoning = [], nr_Stream = True,
     nr_MaxTokens = 1, nr_Temperature = None, nr_Extensions = []\<rparr>"

definition is_token :: "StreamEvent \<Rightarrow> bool" where
  "is_token e = (ev_DeltaText e \<noteq> [] \<or> ev_ReasoningContent e \<noteq> [] \<or> length (ev_ToolCalls e) > 0)"

fun probe_loop :: "gostring \<Rightarrow> Timer \<Rightarrow> ProbeItem list \<Rightarrow> Scheduler \<Rightarrow> Scheduler option" where
  "probe_loop r timer [] s = None"
| "probe_loop r timer (it # items) s =
     (case pi_result it of
        Inl e \<Rightarrow> Some (failProbe (pi_now it) r (probe_outcome (pi_ctxErr it) (pi_timedOut it) e) s)
      | Inr e \<Rightarrow>
          if is_token e
          then (case OnSemanticEvent (pi_now it) timer of
                  (timer, Some d) \<Rightarrow> Some (succeedProbe (pi_now it) r d s)
                | (timer, None) \<Rightarrow> Some s)
          else if ev_FinishReason e \<noteq> []
          then Some (failProbe (pi_now it) r (probe_outcome (pi_ctxErr it) (pi_timedOut it) ErrEOF) s)
          else probe_loop r timer items s)"

text \<open>The part of a probe that holds a slot, and the whole probe.\<close>

definition probe_body :: "ProbeScript \<Rightarrow> gostring \<Rightarrow> Scheduler \<Rightarrow> Scheduler option" where
  "probe_body sc r s =
     (if pr_ctxErr2 sc then Some s
      else let s = s\<lparr>ps_Reg := BeginProbe (pr_begin sc) r (ps_Reg s)\<rparr>
        in case pr_chat sc of
          Inl e \<Rightarrow> Some (failProbe (pr_chatNow sc) r (probe_outcome (pr_chatCtxErr sc) (pr_chatTimedOut sc) e) s)
        | Inr items \<Rightarrow> probe_loop r (Start (pr_start sc)) items s)"

definition probeOnce :: "ProbeScript \<Rightarrow> Target \<Rightarrow> Scheduler \<Rightarrow> Scheduler option" where
  "probeOnce sc t s =
     (let r = rt_ID (tg_Route t); p = rt_Provider (tg_Route t)
      in if pr_ctxErr sc then Some s
         else case claimProbe r (pr_now sc) s of
           (False, s) \<Rightarrow> Some s
         | (True, s) \<Rightarrow>
             (case pr_slot sc of
                Some e \<Rightarrow> Some (finishProbe r s)
              | None \<Rightarrow>
                  map_option (\<lambda>s. finishProbe r (s\<lparr>ps_Health := ReleaseSlot p (ps_Health s)\<rparr>))
                    (probe_body sc r (s\<lparr>ps_Health := take_slot p (ps_Health s)\<rparr>))))"

text \<open>\<open>jitteredInterval\<close>; \<open>rnd n\<close> is what \<open>rand.Int63n(n)\<close> draws.\<close>

definition jitteredInterval :: "(int \<Rightarrow> int) \<Rightarrow> Scheduler \<Rightarrow> duration" where
  "jitteredInterval rnd s =
     (if ps_interval s \<le> 0 then Millisecond
      else let delta = ps_interval s div 10
           in if delta = 0 then ps_interval s
              else ps_interval s - delta + rnd (2 * delta + 1))"

text \<open>The targets a cycle starts from: the source is read once.\<close>

definition cycle_targets :: "time \<Rightarrow> ProbeSnapshot option \<Rightarrow> Scheduler \<Rightarrow> Target list" where
  "cycle_targets now source s = (case source of
       None \<Rightarrow> []
     | Some n \<Rightarrow> EligibleTargets now (pn_Catalog n) (pn_Pool n) (pn_Routes n) (Some (ps_Health s)))"

section \<open>The gateway's side (gateway.go)\<close>

definition currentProbeSnapshot :: "Gateway \<Rightarrow> ProbeSnapshot option" where
  "currentProbeSnapshot g = (case gw_catalog g of
       None \<Rightarrow> None
     | Some cat \<Rightarrow> Some \<lparr>pn_Catalog = snap_Clone (gw_catalog g),
         pn_Pool = pc_Selected (store_Snapshot (gw_pool g)), pn_Routes = gw_routes g\<rparr>)"

section \<open>Overlapping probes\<close>

text \<open>
  The goroutines of the probe cycles that may run at the same time (the periodic one and those started by
  hand), each cycle with its own semaphore. A worker takes the steps of \<open>probeOnce\<close> one locked operation
  at a time; \<open>others\<close> is what requests do to the shared registry and health manager meanwhile.
\<close>

datatype phase = Entering | Claimed | Held | Probing | Ended | Leaving

record ProbeWorld =
  pw_s :: Scheduler
  pw_todo :: "nat \<Rightarrow> Target list"
  pw_workers :: "(nat \<times> Target \<times> phase) list"

abbreviation tg_id :: "Target \<Rightarrow> gostring" where
  "tg_id t \<equiv> rt_ID (tg_Route t)"

abbreviation cycle_workers :: "nat \<Rightarrow> ProbeWorld \<Rightarrow> (nat \<times> Target \<times> phase) list" where
  "cycle_workers c w \<equiv> filter (\<lambda>x. fst x = c) (pw_workers w)"

text \<open>One worker goes from one phase to the next, or leaves.\<close>

definition worker_move ::
  "nat \<times> Target \<Rightarrow> phase \<Rightarrow> phase option \<Rightarrow> ProbeWorld \<Rightarrow> ProbeWorld \<Rightarrow> bool" where
  "worker_move ct from into w w' \<longleftrightarrow> (\<exists>xs ys. pw_workers w = xs @ (fst ct, snd ct, from) # ys \<and>
     pw_workers w' = xs @ (case into of None \<Rightarrow> [] | Some p \<Rightarrow> [(fst ct, snd ct, p)]) @ ys \<and>
     pw_todo w' = pw_todo w)"

inductive probe_step :: "ProbeWorld \<Rightarrow> ProbeWorld \<Rightarrow> bool" where
  cycle: "pw_todo w c = [] \<Longrightarrow> cycle_workers c w = [] \<Longrightarrow>
     probe_step w (w\<lparr>pw_todo := (pw_todo w)(c := cycle_targets now source (pw_s w))\<rparr>)"
| canceled: "probe_step w (w\<lparr>pw_todo := (pw_todo w)(c := [])\<rparr>)"
| spawn: "pw_todo w c = t # ts \<Longrightarrow> length (cycle_workers c w) < maxConcurrentProbes \<Longrightarrow>
     probe_step w (w\<lparr>pw_todo := (pw_todo w)(c := ts), pw_workers := pw_workers w @ [(c, t, Entering)]\<rparr>)"
| give_up: "worker_move ct Entering None w w' \<Longrightarrow> pw_s w' = pw_s w \<Longrightarrow> probe_step w w'"
| refused: "worker_move ct Entering None w w' \<Longrightarrow> claimProbe (tg_id (snd ct)) now (pw_s w) = (False, pw_s w') \<Longrightarrow>
     probe_step w w'"
| claim: "worker_move ct Entering (Some Claimed) w w' \<Longrightarrow>
     claimProbe (tg_id (snd ct)) now (pw_s w) = (True, pw_s w') \<Longrightarrow> probe_step w w'"
| no_slot: "worker_move ct Claimed (Some Leaving) w w' \<Longrightarrow> pw_s w' = pw_s w \<Longrightarrow> probe_step w w'"
| slot: "worker_move ct Claimed (Some Held) w w' \<Longrightarrow>
     acquire_try None (rt_Provider (tg_Route (snd ct))) (ps_Health (pw_s w)) = TrySlot m \<Longrightarrow>
     pw_s w' = (pw_s w)\<lparr>ps_Health := m\<rparr> \<Longrightarrow> probe_step w w'"
| gone: "worker_move ct Held (Some Ended) w w' \<Longrightarrow> pw_s w' = pw_s w \<Longrightarrow> probe_step w w'"
| begin_probe: "worker_move ct Held (Some Probing) w w' \<Longrightarrow>
     pw_s w' = (pw_s w)\<lparr>ps_Reg := BeginProbe now (tg_id (snd ct)) (ps_Reg (pw_s w))\<rparr> \<Longrightarrow> probe_step w w'"
| fail: "worker_move ct Probing (Some Ended) w w' \<Longrightarrow>
     pw_s w' = failProbe now (tg_id (snd ct)) (probe_outcome b b' e) (pw_s w) \<Longrightarrow> probe_step w w'"
| succeed: "worker_move ct Probing (Some Ended) w w' \<Longrightarrow>
     pw_s w' = succeedProbe now (tg_id (snd ct)) d (pw_s w) \<Longrightarrow> probe_step w w'"
| release: "worker_move ct Ended (Some Leaving) w w' \<Longrightarrow>
     pw_s w' = (pw_s w)\<lparr>ps_Health := ReleaseSlot (rt_Provider (tg_Route (snd ct))) (ps_Health (pw_s w))\<rparr> \<Longrightarrow>
     probe_step w w'"
| finish: "worker_move ct Leaving None w w' \<Longrightarrow> pw_s w' = finishProbe (tg_id (snd ct)) (pw_s w) \<Longrightarrow>
     probe_step w w'"
| others: "probe_step w (w\<lparr>pw_s := (pw_s w)\<lparr>ps_Reg := reg, ps_Health := h\<rparr>\<rparr>)"

inductive probe_reachable :: "ProbeWorld \<Rightarrow> bool" where
  probe_start: "probe_reachable \<lparr>pw_s = probe_New reg h interval, pw_todo = (\<lambda>_. []), pw_workers = []\<rparr>"
| probe_next: "probe_reachable w \<Longrightarrow> probe_step w w' \<Longrightarrow> probe_reachable w'"

text \<open>The routes whose probe is claimed, in the order of the workers.\<close>

definition claimed_routes :: "(nat \<times> Target \<times> phase) list \<Rightarrow> gostring list" where
  "claimed_routes ws = map (\<lambda>x. tg_id (fst (snd x))) (filter (\<lambda>x. snd (snd x) \<noteq> Entering) ws)"

definition backoffs_ok :: "Scheduler \<Rightarrow> bool" where
  "backoffs_ok s \<longleftrightarrow> (\<forall>r b. ps_backoffs s r = Some b \<longrightarrow>
     baseProbeBackoff \<le> bo_delay b \<and> bo_delay b \<le> maxProbeBackoff)"

definition probe_inv :: "ProbeWorld \<Rightarrow> bool" where
  "probe_inv w \<longleftrightarrow> distinct (claimed_routes (pw_workers w)) \<and>
     set (claimed_routes (pw_workers w)) = ps_inFlight (pw_s w) \<and>
     (\<forall>c. length (cycle_workers c w) \<le> maxConcurrentProbes) \<and> backoffs_ok (pw_s w)"

lemma claimed_routes_simps [simp]:
  "claimed_routes [] = []"
  "claimed_routes (xs @ ys) = claimed_routes xs @ claimed_routes ys"
  "claimed_routes ((c, t, p) # ws) = (if p = Entering then claimed_routes ws else tg_id t # claimed_routes ws)"
  by (simp_all add: claimed_routes_def)

lemma next_delay_bounds: "d = 0 \<or> baseProbeBackoff \<le> d \<Longrightarrow>
  baseProbeBackoff \<le> next_delay d \<and> next_delay d \<le> maxProbeBackoff"
  by (auto simp: next_delay_def baseProbeBackoff_def maxProbeBackoff_def duration_defs)

lemma failProbe_sel:
  "ps_inFlight (failProbe now r out s) = ps_inFlight s"
  "backoffs_ok s \<Longrightarrow> backoffs_ok (failProbe now r out s)"
proof -
  show "ps_inFlight (failProbe now r out s) = ps_inFlight s" by (simp add: failProbe_def Let_def)
  assume ok: "backoffs_ok s"
  then have "bo_delay (backoff_of s r) = 0 \<or> baseProbeBackoff \<le> bo_delay (backoff_of s r)"
    by (auto simp: backoffs_ok_def backoff_of_def split: option.splits)
  from next_delay_bounds [OF this] ok show "backoffs_ok (failProbe now r out s)"
    by (auto simp: failProbe_def backoffs_ok_def backoff_of_def Let_def)
qed

lemma succeedProbe_sel:
  "ps_inFlight (succeedProbe now r d s) = ps_inFlight s"
  "backoffs_ok s \<Longrightarrow> backoffs_ok (succeedProbe now r d s)"
  by (auto simp: succeedProbe_def backoffs_ok_def Let_def)

lemma worker_move_cycles:
  "worker_move ct from into w w' \<Longrightarrow> length (cycle_workers c w') \<le> length (cycle_workers c w)"
  by (auto simp: worker_move_def split: option.splits)

text \<open>A move that keeps the claim, one that takes it and one that gives it up.\<close>

lemma worker_move_claims:
  assumes "worker_move ct from into w w'"
  shows "from \<noteq> Entering \<Longrightarrow> into = Some p \<Longrightarrow> p \<noteq> Entering \<Longrightarrow>
      claimed_routes (pw_workers w') = claimed_routes (pw_workers w)"
    and "from = Entering \<Longrightarrow> into = None \<Longrightarrow> claimed_routes (pw_workers w') = claimed_routes (pw_workers w)"
    and "from = Entering \<Longrightarrow> into = Some p \<Longrightarrow> p \<noteq> Entering \<Longrightarrow>
      mset (claimed_routes (pw_workers w')) = add_mset (tg_id (snd ct)) (mset (claimed_routes (pw_workers w)))"
    and "from \<noteq> Entering \<Longrightarrow> into = None \<Longrightarrow>
      mset (claimed_routes (pw_workers w)) = add_mset (tg_id (snd ct)) (mset (claimed_routes (pw_workers w')))"
  using assms by (auto simp: worker_move_def)

lemma distinct_add_mset:
  assumes "mset ys = add_mset x (mset xs)"
  shows "set ys = insert x (set xs)" and "distinct ys \<longleftrightarrow> distinct xs \<and> x \<notin> set xs"
proof -
  from assms have "mset ys = mset (x # xs)" by simp
  from mset_eq_setD [OF this] mset_eq_imp_distinct_iff [OF this]
  show "set ys = insert x (set xs)" and "distinct ys \<longleftrightarrow> distinct xs \<and> x \<notin> set xs" by auto
qed

lemma probe_inv_cycles:
  assumes "probe_inv w" and "worker_move ct from into w w'"
  shows "\<forall>c. length (cycle_workers c w') \<le> maxConcurrentProbes"
proof
  fix c
  have "length (cycle_workers c w) \<le> maxConcurrentProbes" using assms(1) by (simp add: probe_inv_def)
  with worker_move_cycles [OF assms(2), of c] show "length (cycle_workers c w') \<le> maxConcurrentProbes"
    by linarith
qed

lemma probe_inv_keep:
  assumes "probe_inv w" and "worker_move ct from into w w'"
    and "claimed_routes (pw_workers w') = claimed_routes (pw_workers w)"
    and "ps_inFlight (pw_s w') = ps_inFlight (pw_s w)" and "backoffs_ok (pw_s w) \<Longrightarrow> backoffs_ok (pw_s w')"
  shows "probe_inv w'"
  using assms(1,3,4,5) probe_inv_cycles [OF assms(1,2)] by (simp add: probe_inv_def)

lemma probe_step_inv:
  assumes "probe_step w w'" and "probe_inv w"
  shows "probe_inv w'"
  using assms
proof (induction rule: probe_step.induct)
  case (claim ct w w' now)
  from claim(2) have new: "tg_id (snd ct) \<notin> ps_inFlight (pw_s w)"
    and s: "pw_s w' = (pw_s w)\<lparr>ps_inFlight := insert (tg_id (snd ct)) (ps_inFlight (pw_s w))\<rparr>"
    by (auto simp: claimProbe_def split: if_splits)
  note m = worker_move_claims(3) [OF claim(1) refl refl phase.distinct(2)]
  from distinct_add_mset [OF m] new s claim(3) probe_inv_cycles [OF claim(3,1)] show ?case
    by (simp add: probe_inv_def backoffs_ok_def)
next
  case (finish ct w w')
  note m = worker_move_claims(4) [OF finish(1) _ refl]
  have "set (claimed_routes (pw_workers w')) = ps_inFlight (pw_s w) - {tg_id (snd ct)} \<and>
      distinct (claimed_routes (pw_workers w'))"
    using distinct_add_mset [OF m] finish(3) by (auto simp: probe_inv_def)
  with finish(2,3) probe_inv_cycles [OF finish(3,1)] show ?case
    by (simp add: probe_inv_def finishProbe_def backoffs_ok_def)
next
  case (spawn w c t ts)
  then show ?case by (auto simp: probe_inv_def maxConcurrentProbes_def)
next
  case (fail ct w w' now b b' e)
  show ?case by (rule probe_inv_keep [OF fail(3,1) worker_move_claims(1) [OF fail(1) _ refl]])
      (simp_all add: fail(2) failProbe_sel)
next
  case (succeed ct w w' now d)
  show ?case by (rule probe_inv_keep [OF succeed(3,1) worker_move_claims(1) [OF succeed(1) _ refl]])
      (simp_all add: succeed(2) succeedProbe_sel)
next
  case (refused ct w w' now)
  then have "pw_s w' = pw_s w" by (auto simp: claimProbe_def split: if_splits)
  then show ?case by (intro probe_inv_keep [OF refused(3,1) worker_move_claims(2) [OF refused(1) refl refl]]) simp_all
next
  case (give_up ct w w')
  then show ?case by (intro probe_inv_keep [OF give_up(3,1) worker_move_claims(2) [OF give_up(1) refl refl]]) simp_all
next
  case (no_slot ct w w')
  show ?case by (rule probe_inv_keep [OF no_slot(3,1) worker_move_claims(1) [OF no_slot(1) _ refl]])
      (simp_all add: no_slot(2))
next
  case (slot ct w w' m)
  show ?case by (rule probe_inv_keep [OF slot(4,1) worker_move_claims(1) [OF slot(1) _ refl]])
      (simp_all add: slot(3) backoffs_ok_def)
next
  case (gone ct w w')
  show ?case by (rule probe_inv_keep [OF gone(3,1) worker_move_claims(1) [OF gone(1) _ refl]])
      (simp_all add: gone(2))
next
  case (begin_probe ct w w' now)
  show ?case by (rule probe_inv_keep [OF begin_probe(3,1) worker_move_claims(1) [OF begin_probe(1) _ refl]])
      (simp_all add: begin_probe(2) backoffs_ok_def)
next
  case (release ct w w')
  show ?case by (rule probe_inv_keep [OF release(3,1) worker_move_claims(1) [OF release(1) _ refl]])
      (simp_all add: release(2) backoffs_ok_def)
qed (simp_all add: probe_inv_def backoffs_ok_def)

lemma probe_reachable_inv: "probe_reachable w \<Longrightarrow> probe_inv w"
proof (induction rule: probe_reachable.induct)
  case (probe_start reg h interval)
  then show ?case by (simp add: probe_inv_def probe_New_def backoffs_ok_def)
next
  case (probe_next w w')
  then show ?case using probe_step_inv by blast
qed

text \<open>What is probed: enabled routes of pool models in the catalog whose policy or access class allows it,
  and that are not cooling down.\<close>

definition model_targets ::
  "time \<Rightarrow> CatalogSnapshot \<Rightarrow> Routes \<Rightarrow> Manager option \<Rightarrow> ProviderModelID \<Rightarrow> Target list" where
  "model_targets now cat routes h mid = (case snap_models cat mid of
       None \<Rightarrow> []
     | Some pm \<Rightarrow> map (\<lambda>r. \<lparr>tg_Route = r, tg_Model = pm\<rparr>)
         (filter (probe_route now h) (case routes mid of None \<Rightarrow> [] | Some rs \<Rightarrow> rs)))"

lemma target_loop_eq:
  "target_loop now cat routes h mids seen = concat (map (model_targets now cat routes h) (first_seen seen mids))"
  by (induction mids arbitrary: seen) (simp_all add: model_targets_def split: option.splits)

lemma model_targets_mem:
  "t \<in> set (model_targets now cat routes h mid) \<longleftrightarrow>
     (\<exists>rs. snap_models cat mid = Some (tg_Model t) \<and> routes mid = Some rs \<and> tg_Route t \<in> set rs \<and>
        probe_route now h (tg_Route t))"
  by (cases "snap_models cat mid"; cases "routes mid"; cases t) (auto simp: model_targets_def)

lemma EligibleTargets_mem:
  "t \<in> set (EligibleTargets now cat pool routes h) \<longleftrightarrow>
     (\<exists>c mid rs. cat = Some c \<and> mid \<in> set pool \<and> snap_models c mid = Some (tg_Model t) \<and>
        routes mid = Some rs \<and> tg_Route t \<in> set rs \<and> probe_route now h (tg_Route t))"
  by (cases cat) (auto simp: EligibleTargets_def target_loop_eq set_first_seen model_targets_mem)

section \<open>What one probe changes\<close>

lemma probe_loop_cases:
  "probe_loop r timer items s = Some s' \<Longrightarrow> s' = s \<or> (\<exists>now out. s' = failProbe now r out s) \<or>
     (\<exists>now d. s' = succeedProbe now r d s)"
proof (induction items)
  case (Cons it items)
  then show ?case by (auto split: sum.splits prod.splits option.splits if_splits)
qed simp

lemma probe_body_cases:
  assumes "probe_body sc r s = Some s'"
  shows "s' = s \<or> (\<exists>u. (s' = u \<or> (\<exists>now out. s' = failProbe now r out u) \<or> (\<exists>now d. s' = succeedProbe now r d u)) \<and>
    u = s\<lparr>ps_Reg := BeginProbe (pr_begin sc) r (ps_Reg s)\<rparr>)"
  using assms by (auto simp: probe_body_def Let_def dest!: probe_loop_cases split: if_splits sum.splits)

text \<open>What a probe of \<open>r\<close> may do, the slot and the claim apart.\<close>

definition probe_effect :: "gostring \<Rightarrow> Scheduler \<Rightarrow> Scheduler \<Rightarrow> bool" where
  "probe_effect r s s' \<longleftrightarrow>
     hm_inFlight (ps_Health s') = hm_inFlight (ps_Health s) \<and> ps_inFlight s' = ps_inFlight s \<and>
     (\<forall>q. q \<noteq> r \<longrightarrow> ps_backoffs s' q = ps_backoffs s q \<and> ps_Reg s' q = ps_Reg s q \<and>
        health_Snapshot (ps_Health s') q = health_Snapshot (ps_Health s) q) \<and>
     ((ps_backoffs s' r = ps_backoffs s r \<and>
         health_Snapshot (ps_Health s') r = health_Snapshot (ps_Health s) r) \<or>
      (\<exists>now. ps_backoffs s' r = Some \<lparr>bo_delay = next_delay (bo_delay (backoff_of s r)),
           bo_nextAt = now + next_delay (bo_delay (backoff_of s r))\<rparr> \<and>
         hs_CoolingUntil (health_Snapshot (ps_Health s') r) = now + DefaultCooldown) \<or>
      (ps_backoffs s' r = None \<and> hs_CoolingUntil (health_Snapshot (ps_Health s') r) = 0 \<and>
         hs_ConsecutiveFailures (health_Snapshot (ps_Health s') r) = 0))"

lemma inFlight_route_ops [simp]:
  "hm_inFlight (RouteFailure now r cd m) = hm_inFlight m"
  "hm_inFlight (RouteSuccess r m) = hm_inFlight m"
  by (simp_all add: RouteFailure_def RouteSuccess_def Let_def)

lemma probe_effect_refl: "probe_effect r s s"
  by (simp add: probe_effect_def)

lemma probe_effect_fail: "probe_effect r s (failProbe now r out s)"
  by (auto simp: probe_effect_def failProbe_def Let_def health_Snapshot_upd MarkProbeFailure_def with_stats_def
      backoff_of_def)

lemma probe_effect_succeed: "probe_effect r s (succeedProbe now r d s)"
  by (auto simp: probe_effect_def succeedProbe_def Let_def health_Snapshot_upd RecordProbe_def with_stats_def)

lemma probe_effect_begin:
  "probe_effect r (s\<lparr>ps_Reg := BeginProbe now r (ps_Reg s)\<rparr>) s' \<Longrightarrow> probe_effect r s s'"
  by (simp add: probe_effect_def BeginProbe_def with_stats_def backoff_of_def)

lemma probe_body_effect: "probe_body sc r s = Some s' \<Longrightarrow> probe_effect r s s'"
  by (auto dest!: probe_body_cases intro: probe_effect_begin probe_effect_refl probe_effect_fail probe_effect_succeed)

section \<open>The periodic loop (probe.go)\<close>

text \<open>
  \<open>Start\<close>, the end of a loop and what \<open>Stop\<close> cancels and waits for. \<open>lf_live\<close> are the loops that have
  not yet cleared their run; \<open>lf_current\<close> stands for the pair \<open>cancel\<close> and \<open>done\<close>.
\<close>

record Lifecycle =
  lf_running :: bool
  lf_runID :: "64 word"
  lf_current :: "64 word option"
  lf_live :: "64 word list"

definition sched_Start :: "Lifecycle \<Rightarrow> Lifecycle" where
  "sched_Start l =
     (if lf_running l then l
      else let myRunID = lf_runID l + 1
           in l\<lparr>lf_running := True, lf_runID := myRunID, lf_current := Some myRunID,
                lf_live := myRunID # lf_live l\<rparr>)"

definition sched_exit :: "64 word \<Rightarrow> Lifecycle \<Rightarrow> Lifecycle" where
  "sched_exit myRunID l =
     (let l = l\<lparr>lf_live := remove1 myRunID (lf_live l)\<rparr>
      in if lf_runID l = myRunID then l\<lparr>lf_running := False, lf_current := None\<rparr> else l)"

definition sched_Stop :: "Lifecycle \<Rightarrow> 64 word option" where
  "sched_Stop l = lf_current l"

inductive lifecycle_reachable :: "Lifecycle \<Rightarrow> bool" where
  life_new: "lifecycle_reachable \<lparr>lf_running = False, lf_runID = 0, lf_current = None, lf_live = []\<rparr>"
| life_start: "lifecycle_reachable l \<Longrightarrow> lifecycle_reachable (sched_Start l)"
| life_exit: "lifecycle_reachable l \<Longrightarrow> myRunID \<in> set (lf_live l) \<Longrightarrow> lifecycle_reachable (sched_exit myRunID l)"

section \<open>Properties\<close>

text \<open>C20: however probe cycles overlap, with workers canceled, refused, failing or succeeding at any point
  and requests changing health and latency meanwhile, no route is ever probed twice at the same time, a
  cycle never has more than four workers, and a route's backoff always lies between 30 seconds and 10
  minutes.\<close>

theorem probe_exclusive:
  assumes "probe_reachable w"
  shows "distinct (claimed_routes (pw_workers w)) \<and> set (claimed_routes (pw_workers w)) = ps_inFlight (pw_s w) \<and>
    length (cycle_workers c w) \<le> 4 \<and>
    (case ps_backoffs (pw_s w) r of None \<Rightarrow> True
     | Some b \<Rightarrow> 30 * Second \<le> bo_delay b \<and> bo_delay b \<le> 10 * Minute)"
  using probe_reachable_inv [OF assms]
  by (auto simp: probe_inv_def backoffs_ok_def maxConcurrentProbes_def baseProbeBackoff_def maxProbeBackoff_def
      split: option.splits)

text \<open>One probe gives back its claim and its slot whatever happens, changes nothing of any other route,
  does nothing at all while the route is being probed or backing off, and leaves the route's backoff as it
  was, doubled (with the route cooling down), or cleared (with the route healthy); the delay after \<open>n + 1\<close>
  failures in a row is 30 seconds times \<open>2 ^ n\<close>, at most 10 minutes.\<close>

theorem probeOnce_effects:
  assumes "probeOnce sc t s = Some s'" and "0 \<le> hm_inFlight (ps_Health s) (rt_Provider (tg_Route t))"
  shows "probe_effect (tg_id t) s s' \<and>
    (tg_id t \<in> ps_inFlight s \<or> pr_now sc < bo_nextAt (backoff_of s (tg_id t)) \<longrightarrow> s' = s) \<and>
    (next_delay ^^ Suc n) 0 = min (30 * Second * 2 ^ n) (10 * Minute)"
proof -
  let ?r = "tg_id t" and ?p = "rt_Provider (tg_Route t)"
  have delay: "(next_delay ^^ Suc n) 0 = min (30 * Second * 2 ^ n) (10 * Minute)"
  proof (induction n)
    case 0
    then show ?case by (simp add: next_delay_def baseProbeBackoff_def duration_defs)
  next
    case (Suc n)
    have "(1::int) \<le> 2 ^ n" by simp
    with Suc show ?case by (simp add: next_delay_def maxProbeBackoff_def duration_defs min_def)
  qed
  show ?thesis
  proof (cases "pr_ctxErr sc \<or> ?r \<in> ps_inFlight s \<or> pr_now sc < bo_nextAt (backoff_of s ?r)")
    case True
    with assms(1) have "s' = s" by (auto simp: probeOnce_def claimProbe_def Let_def split: if_splits)
    with delay show ?thesis by (simp add: probe_effect_refl)
  next
    case False
    then have fresh: "?r \<notin> ps_inFlight s" by simp
    let ?s = "s\<lparr>ps_inFlight := insert ?r (ps_inFlight s)\<rparr>"
    have claim: "claimProbe ?r (pr_now sc) s = (True, ?s)" using False by (simp add: claimProbe_def)
    show ?thesis
    proof (cases "pr_slot sc")
      case (Some e)
      with assms(1) False claim have "s' = finishProbe ?r ?s" by (simp add: probeOnce_def Let_def)
      then have "s' = s" using fresh by (simp add: finishProbe_def)
      with delay show ?thesis by (simp add: probe_effect_refl)
    next
      case None
      let ?u = "?s\<lparr>ps_Health := take_slot ?p (ps_Health s)\<rparr>"
      from None assms(1) False claim obtain v where v: "probe_body sc ?r ?u = Some v"
        "s' = finishProbe ?r (v\<lparr>ps_Health := ReleaseSlot ?p (ps_Health v)\<rparr>)"
        by (auto simp: probeOnce_def Let_def)
      have slot: "hm_inFlight (ps_Health v) = (hm_inFlight (ps_Health s))(?p := hm_inFlight (ps_Health s) ?p + 1)"
        using probe_body_effect [OF v(1)] by (simp add: probe_effect_def take_slot_def)
      have "probe_effect ?r s s'"
        using probe_body_effect [OF v(1)] slot assms(2) fresh
        by (simp add: v(2) probe_effect_def finishProbe_def ReleaseSlot_def take_slot_def health_Snapshot_def backoff_of_def)
      with False delay show ?thesis by simp
    qed
  qed
qed

text \<open>Of the periodic loops started and stopped in any order at most one is alive, the scheduler says it
  is running exactly when one is, and a \<open>Stop\<close> then cancels and waits for that one.\<close>

theorem scheduler_single_loop:
  assumes "lifecycle_reachable l"
  shows "lf_live l = (if lf_running l then [lf_runID l] else []) \<and>
    sched_Stop l = (if lf_running l then Some (lf_runID l) else None)"
  using assms
  by (induction rule: lifecycle_reachable.induct)
    (auto simp: sched_Start_def sched_exit_def sched_Stop_def Let_def split: if_splits)

text \<open>A route that is enabled and may be probed.\<close>

definition sample_target :: Target where
  "sample_target = \<lparr>tg_Route = sample_route ''r1'' ''p/a'' AccessFree, tg_Model = sample_model ''p/a''\<rparr>"

definition sample_probes :: ProbeSnapshot where
  "sample_probes = \<lparr>pn_Catalog = Some \<lparr>cs_Revision = 0, cs_CreatedAt = 0,
       cs_Models = Some [''p/a'' \<mapsto> sample_model ''p/a'']\<rparr>, pn_Pool = [''p/a''],
     pn_Routes = [''p/a'' \<mapsto> [sample_route ''r1'' ''p/a'' AccessFree]]\<rparr>"

definition sample_scheduler :: Scheduler where
  "sample_scheduler = probe_New NewRegistry health_New (30 * Second)"

lemma sample_targets: "cycle_targets 5 (Some sample_probes) sample_scheduler = [sample_target]"
  by (simp add: cycle_targets_def sample_probes_def sample_scheduler_def probe_New_def EligibleTargets_def
      snap_models_def probe_route_def sample_route_def AllowsProbe_def EffectiveAccess_def Probeable_def Available_def
      health_New_def sample_target_def)

lemma sample_claimed:
  "\<exists>w. probe_reachable w \<and> pw_workers w = [(0, sample_target, Claimed)] \<and> ps_inFlight (pw_s w) = {''r1''}"
proof -
  let ?w0 = "\<lparr>pw_s = sample_scheduler, pw_todo = (\<lambda>_. []), pw_workers = []\<rparr>"
  let ?w1 = "?w0\<lparr>pw_todo := (pw_todo ?w0)(0 := [sample_target])\<rparr>"
  let ?w2 = "?w1\<lparr>pw_todo := (pw_todo ?w1)(0 := []), pw_workers := pw_workers ?w1 @ [(0, sample_target, Entering)]\<rparr>"
  let ?w3 = "?w2\<lparr>pw_workers := [(0, sample_target, Claimed)],
    pw_s := sample_scheduler\<lparr>ps_inFlight := {''r1''}\<rparr>\<rparr>"
  have "probe_reachable ?w0" unfolding sample_scheduler_def by (rule probe_start)
  moreover have "probe_step ?w0 ?w1"
    using probe_step.cycle [of ?w0 0 5 "Some sample_probes"] by (simp add: sample_targets)
  moreover have "probe_step ?w1 ?w2"
    using probe_step.spawn [of ?w1 0 sample_target "[]"] by (simp add: maxConcurrentProbes_def)
  moreover have "probe_step ?w2 ?w3"
    by (rule probe_step.claim [of "(0, sample_target)" _ _ 5])
      (auto simp: worker_move_def claimProbe_def sample_target_def sample_route_def sample_scheduler_def probe_New_def
        backoff_of_def)
  ultimately have "probe_reachable ?w3" by (blast intro: probe_next)
  then show ?thesis by fastforce
qed

theorem probe_exclusive_witness:
  "\<exists>w. probe_reachable w \<and> pw_workers w = [(0, sample_target, Claimed)] \<and>
     set (claimed_routes (pw_workers w)) = {''r1''}"
proof -
  obtain w where w: "probe_reachable w" "pw_workers w = [(0, sample_target, Claimed)]" "ps_inFlight (pw_s w) = {''r1''}"
    using sample_claimed by blast
  with probe_exclusive [OF w(1)] show ?thesis by auto
qed

theorem probeOnce_effects_witness:
  "\<exists>s. probeOnce \<lparr>pr_ctxErr = False, pr_now = 5, pr_slot = None, pr_ctxErr2 = False, pr_begin = 5, pr_start = 5,
     pr_chat = Inl (PlainError ''down''), pr_chatNow = 6, pr_chatCtxErr = False, pr_chatTimedOut = False\<rparr>
     sample_target sample_scheduler = Some s \<and> probe_effect ''r1'' sample_scheduler s"
proof -
  let ?sc = "\<lparr>pr_ctxErr = False, pr_now = 5, pr_slot = None, pr_ctxErr2 = False, pr_begin = 5, pr_start = 5,
     pr_chat = Inl (PlainError ''down''), pr_chatNow = 6, pr_chatCtxErr = False, pr_chatTimedOut = False\<rparr>"
  obtain s where s: "probeOnce ?sc sample_target sample_scheduler = Some s"
    by (simp add: probeOnce_def claimProbe_def probe_body_def sample_scheduler_def probe_New_def backoff_of_def Let_def)
  have "tg_id sample_target = ''r1''" "0 \<le> hm_inFlight (ps_Health sample_scheduler) (rt_Provider (tg_Route sample_target))"
    by (simp_all add: sample_target_def sample_route_def sample_scheduler_def probe_New_def health_New_def)
  with probeOnce_effects [OF s] s show ?thesis by auto
qed

theorem scheduler_single_loop_witness:
  "sched_Stop (sched_Start \<lparr>lf_running = False, lf_runID = 0, lf_current = None, lf_live = []\<rparr>) = Some 1"
proof -
  have "lifecycle_reachable (sched_Start \<lparr>lf_running = False, lf_runID = 0, lf_current = None, lf_live = []\<rparr>)"
    by (intro life_start life_new)
  from scheduler_single_loop [OF this] show ?thesis by (simp add: sched_Start_def)
qed

end
