(* ===== verification/ControlView.thy ===== *)
theory ControlView
  imports Gateway "HOL-Library.AList"
begin

text \<open>
  The read side of \<open>internal/gateway/control.go\<close>: the snapshot the control API and the desktop show. The
  map of provider summaries is an association list, since its order is forgotten by the final sort.
\<close>

section \<open>Views (control.go)\<close>

record ControlRoute =
  vr_ID :: RouteID
  vr_ModelID :: ProviderModelID
  vr_Provider :: gostring
  vr_UpstreamModelID :: gostring
  vr_CredentialID :: gostring
  vr_Access :: AccessClass
  vr_Enabled :: bool
  vr_AutoRouteAllowed :: bool
  vr_ProbeAllowed :: bool
  vr_Capabilities :: Capabilities
  vr_Health :: RouteSnapshot
  vr_TTFTMs :: float64
  vr_TTFTKnown :: bool
  vr_LastKnownTTFTMs :: float64
  vr_TTFTKnownEver :: bool
  vr_TTFTMeasuredAt :: time
  vr_TTFTSource :: gostring
  vr_ProbeOutcome :: gostring
  vr_ProbeAttemptAt :: time
  vr_Performance :: float64
  vr_PerformanceKnown :: bool
  vr_EffectivePerformance :: float64
  vr_Confidence :: float64
  vr_LatencyScore :: float64
  vr_RoutingScore :: float64
  vr_RoutingScoreKnown :: bool
  vr_PerformanceReason :: gostring
  vr_LatencyReason :: gostring
  vr_ScoreReason :: gostring

record ControlModel =
  vm_Model :: ProviderModel
  vm_Selected :: bool
  vm_Pinned :: bool
  vm_RoutingScore :: float64
  vm_RoutingScoreKnown :: bool
  vm_Routes :: "ControlRoute list"

record ControlProvider =
  vp_ID :: gostring
  vp_Models :: nat
  vp_Routes :: nat
  vp_Enabled :: bool
  vp_Available :: bool
  vp_ErrorCode :: gostring
  vp_Message :: gostring

record ControlState =
  vs_CatalogRevision :: i64
  vs_Pool :: ModelPoolConfig
  vs_PinnedModel :: ProviderModelID
  vs_Models :: "ControlModel list"
  vs_Providers :: "ControlProvider list"
  vs_Benchmark :: BenchmarkStatus

section \<open>Building the snapshot (control.go)\<close>

definition route_sample :: "Gateway \<Rightarrow> time \<Rightarrow> ProviderRoute \<Rightarrow> SampleView" where
  "route_sample g now r = latency_Snapshot (gw_latency g) (rt_ID r) now routingTTFTMaxAge"

text \<open>\<open>rks\<close> is the order the routes map is ranged over.\<close>

definition latency_population :: "Gateway \<Rightarrow> time \<Rightarrow> ProviderModelID list \<Rightarrow> float64 list" where
  "latency_population g now rks = concat (map (\<lambda>pid. List.map_filter (\<lambda>r.
       let sample = route_sample g now r
       in if sv_Fresh sample then Some (sv_ValueMs sample) else None) (routes_of (gw_routes g) pid)) rks)"

definition route_score :: "Gateway \<Rightarrow> time \<Rightarrow> float64 list \<Rightarrow> ProviderModelID \<Rightarrow> ProviderRoute \<Rightarrow> Result" where
  "route_score g now pop pid r =
     (let sample = route_sample g now r;
          latencyScore = (if sv_Fresh sample then Percentile (sv_ValueMs sample) pop False else UnknownScore)
      in ScoreBinding (gw_benchmarkSnapshot g) (binding_or_zero g pid) latencyScore)"

definition score_known :: "Gateway \<Rightarrow> time \<Rightarrow> float64 list \<Rightarrow> ProviderModelID \<Rightarrow> ProviderRoute \<Rightarrow> bool" where
  "score_known g now pop pid r \<longleftrightarrow>
     re_HasPerformanceData (route_score g now pop pid r) \<or> sv_Fresh (route_sample g now r)"

definition performance_reason :: "Gateway \<Rightarrow> ProviderModelID \<Rightarrow> bool \<Rightarrow> gostring" where
  "performance_reason g pid known =
     (if known then []
      else if bench_models (gw_benchmarkSnapshot g) = Map.empty then ''no_snapshot''
      else if gw_benchmarkBindings g pid = None then ''no_unique_match''
      else ''no_source_metrics'')"

definition latency_reason :: "bool \<Rightarrow> ProviderRoute \<Rightarrow> SampleView \<Rightarrow> gostring" where
  "latency_reason selected r sample =
     (if sv_Fresh sample then []
      else if \<not> selected then ''not_selected''
      else if \<not> AllowsProbe r then ''probe_disabled''
      else if sv_Known sample then ''stale''
      else ''no_sample'')"

definition control_route ::
  "Gateway \<Rightarrow> time \<Rightarrow> float64 list \<Rightarrow> ProviderModelID \<Rightarrow> ProviderModel \<Rightarrow> bool \<Rightarrow> ProviderRoute \<Rightarrow> ControlRoute" where
  "control_route g now pop pid pm selected r =
     (let sample = route_sample g now r; score = route_score g now pop pid r; known = sv_Fresh sample
      in \<lparr>vr_ID = rt_ID r, vr_ModelID = rt_ModelID r, vr_Provider = rt_Provider r,
          vr_UpstreamModelID = rt_UpstreamModelID r, vr_CredentialID = rt_CredentialID r,
          vr_Access = EffectiveAccess r, vr_Enabled = rt_Enabled r,
          vr_AutoRouteAllowed = AllowsAutomaticRouting r, vr_ProbeAllowed = AllowsProbe r,
          vr_Capabilities = EffectiveCapabilities r (pm_Base pm),
          vr_Health = health_Snapshot (gw_health g) (rt_ID r),
          vr_TTFTMs = (if known then sv_ValueMs sample else Fin 0), vr_TTFTKnown = known,
          vr_LastKnownTTFTMs = sv_ValueMs sample, vr_TTFTKnownEver = sv_Known sample,
          vr_TTFTMeasuredAt = sv_MeasuredAt sample, vr_TTFTSource = sv_Source sample,
          vr_ProbeOutcome = sv_ProbeOutcome sample, vr_ProbeAttemptAt = sv_ProbeAttemptAt sample,
          vr_Performance = re_Performance score, vr_PerformanceKnown = re_HasPerformanceData score,
          vr_EffectivePerformance = re_EffectivePerformance score, vr_Confidence = re_Confidence score,
          vr_LatencyScore = re_Latency score, vr_RoutingScore = re_RoutingScore score,
          vr_RoutingScoreKnown = score_known g now pop pid r,
          vr_PerformanceReason = performance_reason g pid (re_HasPerformanceData score),
          vr_LatencyReason = latency_reason selected r sample,
          vr_ScoreReason = (if score_known g now pop pid r then [] else ''no_performance_and_latency'')\<rparr>)"

definition note_score :: "float64 \<Rightarrow> bool \<Rightarrow> ControlModel \<Rightarrow> ControlModel" where
  "note_score score known view =
     (if \<not> vm_RoutingScoreKnown view \<or> flt (vm_RoutingScore view) score
      then view\<lparr>vm_RoutingScore := score, vm_RoutingScoreKnown := known\<rparr> else view)"

type_synonym provider_views = "(gostring \<times> ControlProvider) list"

definition new_provider :: "gostring \<Rightarrow> bool \<Rightarrow> gostring \<Rightarrow> gostring \<Rightarrow> ControlProvider" where
  "new_provider pid available code msg = \<lparr>vp_ID = pid, vp_Models = 0, vp_Routes = 0, vp_Enabled = False,
     vp_Available = available, vp_ErrorCode = code, vp_Message = msg\<rparr>"

definition note_provider :: "ProviderRoute \<Rightarrow> provider_views \<Rightarrow> provider_views" where
  "note_provider r provs =
     (let v = (case map_of provs (rt_Provider r) of
            None \<Rightarrow> new_provider (rt_Provider r) True [] []
          | Some v \<Rightarrow> v);
          v = v\<lparr>vp_Routes := vp_Routes v + 1\<rparr>;
          v = (if rt_Enabled r then v\<lparr>vp_Enabled := True\<rparr> else v)
      in AList.update (rt_Provider r) v provs)"

fun view_routes ::
  "Gateway \<Rightarrow> time \<Rightarrow> float64 list \<Rightarrow> ProviderModelID \<Rightarrow> ProviderRoute list \<Rightarrow> ControlModel \<Rightarrow> provider_views \<Rightarrow>
   ControlModel \<times> provider_views" where
  "view_routes g now pop pid [] view provs = (view, provs)"
| "view_routes g now pop pid (r # rs) view provs =
     (let view = note_score (re_RoutingScore (route_score g now pop pid r)) (score_known g now pop pid r) view;
          view = view\<lparr>vm_Routes := vm_Routes view @
            [control_route g now pop pid (vm_Model view) (vm_Selected view) r]\<rparr>
      in view_routes g now pop pid rs view (note_provider r provs))"

fun view_models ::
  "Gateway \<Rightarrow> time \<Rightarrow> float64 list \<Rightarrow> (ProviderModelID \<rightharpoonup> ProviderModel) \<Rightarrow> ProviderModelID list \<Rightarrow> ProviderModelID list \<Rightarrow>
   provider_views \<Rightarrow> ControlModel list \<times> provider_views" where
  "view_models g now pop models selected [] provs = ([], provs)"
| "view_models g now pop models selected (pid # pids) provs =
     (case models pid of
        None \<Rightarrow> view_models g now pop models selected pids provs
      | Some pm \<Rightarrow>
          let view = \<lparr>vm_Model = pm, vm_Selected = (pid \<in> set selected), vm_Pinned = (pid = gw_pinnedModel g),
                vm_RoutingScore = Fin 0, vm_RoutingScoreKnown = False, vm_Routes = []\<rparr>;
              (view, provs) = view_routes g now pop pid (routes_of (gw_routes g) pid) view provs;
              (views, provs) = view_models g now pop models selected pids provs
          in (view # views, provs))"

definition count_models :: "ControlModel list \<Rightarrow> ControlProvider \<Rightarrow> ControlProvider" where
  "count_models models v = v\<lparr>vp_Models := vp_Models v +
     length (filter (\<lambda>m. list_ex (\<lambda>r. vr_Provider r = vp_ID v) (vm_Routes m)) models)\<rparr>"

text \<open>\<open>order\<close> and \<open>rks\<close> are the orders the models and the routes are ranged over.\<close>

definition ControlSnapshot ::
  "ProviderModelID list \<Rightarrow> ProviderModelID list \<Rightarrow> time \<Rightarrow> Gateway \<Rightarrow> ControlState" where
  "ControlSnapshot order rks now g =
     (let out = \<lparr>vs_CatalogRevision = 0, vs_Pool = current_pool g, vs_PinnedModel = gw_pinnedModel g,
            vs_Models = [], vs_Providers = [], vs_Benchmark = gw_benchmarkStatus g\<rparr>
      in case gw_catalog g of
           None \<Rightarrow> out
         | Some cat \<Rightarrow>
             let provs = foldl (\<lambda>ps a. AList.update (pa_ID a)
                   (new_provider (pa_ID a) (pa_Available a) (pa_ErrorCode a) (pa_Message a)) ps) [] (gw_providers g);
                 (models, provs) = view_models g now (latency_population g now rks) (snap_models cat)
                   (pc_Selected (current_pool g)) (sort order) provs
             in out\<lparr>vs_CatalogRevision := cs_Revision cat, vs_Models := models,
                  vs_Providers := sort_key vp_ID (map (count_models models) (map snd provs))\<rparr>)"

section \<open>What is shown of a model\<close>

lemma view_routes_sel:
  assumes "view_routes g now pop pid rs view provs = (view', provs')"
  shows "vm_Model view' = vm_Model view" and "vm_Selected view' = vm_Selected view"
    and "vm_Pinned view' = vm_Pinned view"
    and "vm_Routes view' = vm_Routes view @
      map (control_route g now pop pid (vm_Model view) (vm_Selected view)) rs"
  using assms
  by (induction rs arbitrary: view provs) (force simp: Let_def note_score_def split: if_splits)+

text \<open>The model's score while every route so far had a known one: one of the scores, and none is higher.\<close>

definition best_so_far :: "ControlModel \<Rightarrow> bool" where
  "best_so_far view \<longleftrightarrow> vm_Routes view \<noteq> [] \<longrightarrow> vm_RoutingScoreKnown view \<and>
     vm_RoutingScore view \<in> vr_RoutingScore ` set (vm_Routes view) \<and>
     (\<forall>r \<in> set (vm_Routes view). \<not> flt (vm_RoutingScore view) (vr_RoutingScore r))"

lemma not_flt_trans: "\<not> flt m s \<Longrightarrow> flt m t \<Longrightarrow> \<not> flt t s"
  using flt_trans by blast

lemma best_so_far_step:
  assumes "best_so_far view" and "vr_RoutingScore r = score" and "vm_Routes view = [] \<Longrightarrow> \<not> vm_RoutingScoreKnown view"
  shows "best_so_far ((note_score score True view)\<lparr>vm_Routes := vm_Routes view @ [r]\<rparr>)"
proof (cases "vm_Routes view = []")
  case True
  with assms show ?thesis by (simp add: best_so_far_def note_score_def flt_irrefl)
next
  case False
  with assms(1) have b: "vm_RoutingScoreKnown view" "vm_RoutingScore view \<in> vr_RoutingScore ` set (vm_Routes view)"
    "\<forall>r \<in> set (vm_Routes view). \<not> flt (vm_RoutingScore view) (vr_RoutingScore r)"
    by (simp_all add: best_so_far_def)
  show ?thesis
  proof (cases "flt (vm_RoutingScore view) score")
    case True
    with b assms(2) not_flt_trans show ?thesis
      by (auto simp: best_so_far_def note_score_def flt_irrefl)
  next
    case no: False
    with b assms(2) show ?thesis by (auto simp: best_so_far_def note_score_def)
  qed
qed

lemma view_routes_best:
  assumes "view_routes g now pop pid rs view provs = (view', provs')" and "best_so_far view"
    and "vm_Routes view = [] \<Longrightarrow> \<not> vm_RoutingScoreKnown view"
    and "\<forall>r \<in> set rs. score_known g now pop pid r"
  shows "best_so_far view'"
  using assms
proof (induction rs arbitrary: view provs)
  case (Cons r rs)
  let ?score = "re_RoutingScore (route_score g now pop pid r)"
  let ?cr = "control_route g now pop pid (vm_Model view) (vm_Selected view) r"
  let ?view = "(note_score ?score True view)\<lparr>vm_Routes := vm_Routes view @ [?cr]\<rparr>"
  have sel: "vm_Routes (note_score ?score True view) = vm_Routes view"
    "vm_Model (note_score ?score True view) = vm_Model view"
    "vm_Selected (note_score ?score True view) = vm_Selected view"
    by (simp_all add: note_score_def)
  have "vr_RoutingScore ?cr = ?score" by (simp add: control_route_def Let_def)
  then have "best_so_far ?view" by (rule best_so_far_step [OF Cons.prems(2) _ Cons.prems(3)])
  moreover have "view_routes g now pop pid rs ?view (note_provider r provs) = (view', provs')"
    using Cons.prems(1,4) sel by (simp add: Let_def)
  ultimately show ?case using Cons.prems(4) by (intro Cons.IH [of ?view "note_provider r provs"]) simp_all
qed simp

section \<open>What is shown of the providers\<close>

text \<open>
  The summaries after the routes \<open>shown\<close>: one per provider, under its name, with the number of its
  routes and whether one of them is enabled; \<open>known\<close> are the providers reported by the catalog.
\<close>

definition summaries_ok :: "gostring set \<Rightarrow> ProviderRoute list \<Rightarrow> provider_views \<Rightarrow> bool" where
  "summaries_ok known shown provs \<longleftrightarrow> distinct (map fst provs) \<and>
     fst ` set provs = known \<union> rt_Provider ` set shown \<and>
     (\<forall>k v. map_of provs k = Some v \<longrightarrow> vp_ID v = k \<and> vp_Models v = 0 \<and>
        vp_Routes v = length (filter (\<lambda>r. rt_Provider r = k) shown) \<and>
        vp_Enabled v = list_ex (\<lambda>r. rt_Provider r = k \<and> rt_Enabled r) shown)"

lemma summaries_ok_note:
  assumes "summaries_ok known shown provs"
  shows "summaries_ok known (shown @ [r]) (note_provider r provs)"
proof -
  let ?p = "rt_Provider r"
  define v where "v = (case map_of provs ?p of None \<Rightarrow> new_provider ?p True [] [] | Some v \<Rightarrow> v)"
  have v: "vp_ID v = ?p \<and> vp_Models v = 0 \<and> vp_Routes v = length (filter (\<lambda>r. rt_Provider r = ?p) shown) \<and>
      vp_Enabled v = list_ex (\<lambda>r. rt_Provider r = ?p \<and> rt_Enabled r) shown"
  proof (cases "map_of provs ?p")
    case None
    then have "?p \<notin> fst ` set provs" by (simp add: map_of_eq_None_iff)
    with assms have "?p \<notin> rt_Provider ` set shown" by (simp add: summaries_ok_def)
    then have "\<forall>x \<in> set shown. rt_Provider x \<noteq> ?p" by (metis imageI)
    then have "filter (\<lambda>r. rt_Provider r = ?p) shown = []" "\<not> list_ex (\<lambda>r. rt_Provider r = ?p \<and> rt_Enabled r) shown"
      by (auto simp: filter_empty_conv list_ex_iff)
    with None show ?thesis by (simp add: v_def new_provider_def)
  next
    case (Some u)
    with assms show ?thesis by (simp add: v_def summaries_ok_def)
  qed
  have "note_provider r provs = AList.update ?p
      ((v\<lparr>vp_Routes := vp_Routes v + 1\<rparr>)\<lparr>vp_Enabled := vp_Enabled v \<or> rt_Enabled r\<rparr>) provs"
    by (simp add: note_provider_def v_def Let_def)
  with v assms show ?thesis
    by (auto simp: summaries_ok_def update_conv' distinct_update dom_update split: if_splits)
qed

lemma view_routes_summaries:
  "view_routes g now pop pid rs view provs = (view', provs') \<Longrightarrow> summaries_ok known shown provs \<Longrightarrow>
   summaries_ok known (shown @ rs) provs'"
proof (induction rs arbitrary: view provs shown)
  case (Cons r rs)
  from Cons.prems(1) obtain view2 where "view_routes g now pop pid rs view2 (note_provider r provs) = (view', provs')"
    by (auto simp: Let_def)
  from Cons.IH [OF this summaries_ok_note [OF Cons.prems(2)]] show ?case by simp
qed simp

lemma reported_providers:
  "summaries_ok known [] provs \<Longrightarrow> summaries_ok (known \<union> pa_ID ` set as) []
     (foldl (\<lambda>ps a. AList.update (pa_ID a)
        (new_provider (pa_ID a) (pa_Available a) (pa_ErrorCode a) (pa_Message a)) ps) provs as)"
proof (induction as arbitrary: known provs)
  case (Cons a as)
  have "summaries_ok (insert (pa_ID a) known) [] (AList.update (pa_ID a)
      (new_provider (pa_ID a) (pa_Available a) (pa_ErrorCode a) (pa_Message a)) provs)"
    using Cons.prems
    by (auto simp: summaries_ok_def update_conv' distinct_update dom_update new_provider_def split: if_splits)
  from Cons.IH [OF this] show ?case by simp
qed simp

text \<open>The routes shown for a list of models, and what the whole loop yields.\<close>

definition shown_routes :: "Gateway \<Rightarrow> (ProviderModelID \<rightharpoonup> ProviderModel) \<Rightarrow> ProviderModelID list \<Rightarrow> ProviderRoute list" where
  "shown_routes g models pids =
     concat (map (\<lambda>pid. if models pid = None then [] else routes_of (gw_routes g) pid) pids)"

definition shows_model ::
  "Gateway \<Rightarrow> time \<Rightarrow> float64 list \<Rightarrow> ProviderModelID list \<Rightarrow> ProviderModelID \<Rightarrow> ProviderModel \<Rightarrow> ControlModel \<Rightarrow> bool" where
  "shows_model g now pop selected pid pm m \<longleftrightarrow>
     vm_Model m = pm \<and> vm_Selected m = (pid \<in> set selected) \<and> vm_Pinned m = (pid = gw_pinnedModel g) \<and>
     vm_Routes m = map (control_route g now pop pid pm (pid \<in> set selected)) (routes_of (gw_routes g) pid) \<and>
     (list_all (score_known g now pop pid) (routes_of (gw_routes g) pid) \<longrightarrow> best_so_far m)"

lemma view_models_ok:
  "view_models g now pop models selected pids provs = (views, provs') \<Longrightarrow> summaries_ok known shown provs \<Longrightarrow>
   set pids \<subseteq> dom models \<Longrightarrow>
   summaries_ok known (shown @ shown_routes g models pids) provs' \<and>
   list_all2 (\<lambda>pid. shows_model g now pop selected pid (the (models pid))) pids views"
proof (induction pids arbitrary: provs shown views)
  case Nil
  then show ?case by (simp add: shown_routes_def)
next
  case (Cons pid pids)
  then obtain pm where pm: "models pid = Some pm" by auto
  let ?view = "\<lparr>vm_Model = pm, vm_Selected = (pid \<in> set selected), vm_Pinned = (pid = gw_pinnedModel g),
    vm_RoutingScore = Fin 0, vm_RoutingScoreKnown = False, vm_Routes = []\<rparr>"
  obtain view provs2 where routes:
    "view_routes g now pop pid (routes_of (gw_routes g) pid) ?view provs = (view, provs2)" by fastforce
  with Cons.prems(1) pm obtain views2 where rest:
    "view_models g now pop models selected pids provs2 = (views2, provs')" and views: "views = view # views2"
    by (auto simp: Let_def split: prod.splits)
  have "shows_model g now pop selected pid pm view"
    using view_routes_sel [OF routes] view_routes_best [OF routes]
    by (simp add: shows_model_def best_so_far_def list_all_iff)
  moreover have "summaries_ok known ((shown @ routes_of (gw_routes g) pid) @ shown_routes g models pids) provs' \<and>
      list_all2 (\<lambda>pid. shows_model g now pop selected pid (the (models pid))) pids views2"
    using Cons.IH [OF rest view_routes_summaries [OF routes Cons.prems(2)]] Cons.prems(3) by simp
  ultimately show ?case using pm views by (simp add: shown_routes_def)
qed

section \<open>Properties\<close>

text \<open>C35: the control snapshot shows every model of the catalog once, in name order, with its selection, its
  pin and all its routes; where every route of a model has a known score the model shows the best of them;
  the providers are listed once each in order, with the number of their routes and of their models, and
  as enabled exactly when a route of theirs is.\<close>

theorem ControlSnapshot_faithful:
  assumes "gw_catalog g = Some cat" and "iter_order order (snap_models cat)"
    and "s = ControlSnapshot order rks now g" and "pop = latency_population g now rks"
    and "selected = pc_Selected (current_pool g)"
    and "shown = shown_routes g (snap_models cat) (sort order)"
  shows "list_all2 (\<lambda>pid. shows_model g now pop selected pid (the (snap_models cat pid))) (sort order) (vs_Models s) \<and>
    sorted (map vp_ID (vs_Providers s)) \<and> distinct (map vp_ID (vs_Providers s)) \<and>
    vp_ID ` set (vs_Providers s) = pa_ID ` set (gw_providers g) \<union> rt_Provider ` set shown \<and>
    list_all (\<lambda>v. vp_Routes v = length (filter (\<lambda>r. rt_Provider r = vp_ID v) shown) \<and>
      vp_Models v = length (filter (\<lambda>m. list_ex (\<lambda>r. vr_Provider r = vp_ID v) (vm_Routes m)) (vs_Models s)) \<and>
      vp_Enabled v = list_ex (\<lambda>r. rt_Provider r = vp_ID v \<and> rt_Enabled r) shown) (vs_Providers s)"
proof -
  let ?provs = "foldl (\<lambda>ps a. AList.update (pa_ID a)
      (new_provider (pa_ID a) (pa_Available a) (pa_ErrorCode a) (pa_Message a)) ps) [] (gw_providers g)"
  obtain models provs where run: "view_models g now pop (snap_models cat) selected (sort order) ?provs = (models, provs)"
    by fastforce
  have "summaries_ok {} [] []" by (simp add: summaries_ok_def)
  from reported_providers [OF this] have start: "summaries_ok (pa_ID ` set (gw_providers g)) [] ?provs" by simp
  from assms(2) have "set (sort order) \<subseteq> dom (snap_models cat)" by (simp add: iter_order_def)
  from view_models_ok [OF run start this] assms(6)
  have ok: "summaries_ok (pa_ID ` set (gw_providers g)) shown provs"
    and models: "list_all2 (\<lambda>pid. shows_model g now pop selected pid (the (snap_models cat pid))) (sort order) models"
    by simp_all
  have s: "vs_Models s = models" "vs_Providers s = sort_key vp_ID (map (count_models models) (map snd provs))"
    using run assms(1,3,4,5) by (simp_all add: ControlSnapshot_def Let_def)
  have entry: "vp_ID v = k \<and> vp_Models v = 0 \<and> vp_Routes v = length (filter (\<lambda>r. rt_Provider r = k) shown) \<and>
      vp_Enabled v = list_ex (\<lambda>r. rt_Provider r = k \<and> rt_Enabled r) shown" if "(k, v) \<in> set provs" for k v
    using ok that by (simp add: summaries_ok_def)
  have ids: "map (vp_ID \<circ> (count_models models \<circ> snd)) provs = map fst provs"
    using entry by (auto simp: count_models_def)
  have "distinct (map vp_ID (vs_Providers s))"
  proof -
    have "mset (map vp_ID (vs_Providers s)) = mset (map fst provs)" by (simp add: s(2) ids [symmetric] multiset.map_comp)
    then show ?thesis using ok by (metis mset_eq_imp_distinct_iff summaries_ok_def)
  qed
  moreover have "vp_ID ` set (vs_Providers s) = pa_ID ` set (gw_providers g) \<union> rt_Provider ` set shown"
  proof -
    have "vp_ID ` set (vs_Providers s) = set (map (vp_ID \<circ> (count_models models \<circ> snd)) provs)"
      by (simp add: s(2) image_comp)
    then show ?thesis using ok unfolding ids by (simp add: summaries_ok_def)
  qed
  moreover have "list_all (\<lambda>v. vp_Routes v = length (filter (\<lambda>r. rt_Provider r = vp_ID v) shown) \<and>
      vp_Models v = length (filter (\<lambda>m. list_ex (\<lambda>r. vr_Provider r = vp_ID v) (vm_Routes m)) (vs_Models s)) \<and>
      vp_Enabled v = list_ex (\<lambda>r. rt_Provider r = vp_ID v \<and> rt_Enabled r) shown) (vs_Providers s)"
    using entry by (auto simp: list_all_iff s count_models_def)
  ultimately show ?thesis using models by (simp add: s)
qed


theorem ControlSnapshot_faithful_witness:
  "let g = (newGatewayState (DefaultFailoverPolicy [] []))\<lparr>gw_catalog := Some \<lparr>cs_Revision = 1, cs_CreatedAt = 0,
         cs_Models = Some [''p/a'' \<mapsto> sample_model ''p/a'']\<rparr>, gw_routes := [''p/a'' \<mapsto> [sample_route ''r1'' ''p/a'' AccessFree]]\<rparr>;
       s = ControlSnapshot [''p/a''] [''p/a''] 5 g
   in length (vs_Models s) = 1 \<and> vp_ID ` set (vs_Providers s) = {''p''}"
proof -
  let ?cat = "\<lparr>cs_Revision = 1, cs_CreatedAt = 0, cs_Models = Some [''p/a'' \<mapsto> sample_model ''p/a'']\<rparr>"
  let ?g = "(newGatewayState (DefaultFailoverPolicy [] []))\<lparr>gw_catalog := Some ?cat,
    gw_routes := [''p/a'' \<mapsto> [sample_route ''r1'' ''p/a'' AccessFree]]\<rparr>"
  have cat: "gw_catalog ?g = Some ?cat" by simp
  have order: "iter_order [''p/a''] (snap_models ?cat)" by (simp add: iter_order_def snap_models_def)
  have shown: "shown_routes ?g (snap_models ?cat) (sort [''p/a'']) = [sample_route ''r1'' ''p/a'' AccessFree]"
    by (simp add: shown_routes_def snap_models_def routes_of_def)
  have provs: "gw_providers ?g = []" by (simp add: newGatewayState_def)
  note all = ControlSnapshot_faithful [where rks = "[''p/a'']" and now = 5, OF cat order refl refl refl refl]
  have "length (vs_Models (ControlSnapshot [''p/a''] [''p/a''] 5 ?g)) = 1"
    using list_all2_lengthD [OF conjunct1 [OF all]] by simp
  moreover have "vp_ID ` set (vs_Providers (ControlSnapshot [''p/a''] [''p/a''] 5 ?g)) = {''p''}"
    using conjunct1 [OF conjunct2 [OF conjunct2 [OF conjunct2 [OF all]]]] unfolding shown provs
    by (simp add: sample_route_def)
  ultimately show ?thesis unfolding Let_def by (rule conjI)
qed

text \<open>With routes of both kinds the score shown, and whether it counts as known, depends on their order: a
  neutral score without data replaces a lower known one, and the other way round.\<close>

lemma score_depends_on_order:
  assumes "flt a b" and "vm_RoutingScoreKnown v = False"
  shows "vm_RoutingScoreKnown (note_score b False (note_score a True v)) = False"
    and "vm_RoutingScoreKnown (note_score a True (note_score b False v)) = True"
  using assms by (simp_all add: note_score_def)

end
