(* ===== verification/Files.thy ===== *)
theory Files
  imports BenchmarkCache
begin

text \<open>
  The contract of a file that is replaced as a whole, shared by the users of a temporary file and a
  rename: whatever system call fails, a reader finds the old or the new content, and a write that
  reports success has put the new one in place.
\<close>

locale durable_file =
  fixes write_file :: "'e \<Rightarrow> gostring \<Rightarrow> 'c \<Rightarrow> 'c fs \<Rightarrow> cache_error option \<times> 'c fs list"
    and scratch :: "'e \<Rightarrow> gostring"
  assumes steps_ne: "snd (write_file e p d f) \<noteq> []"
    and keeps: "scratch e \<noteq> p \<Longrightarrow> scratch e \<noteq> bak p \<Longrightarrow> f p = Some old \<Longrightarrow>
      g \<in> set (snd (write_file e p d f)) \<Longrightarrow> recoverable p g \<in> {Some old, Some d}"
    and installs: "scratch e \<noteq> p \<Longrightarrow> scratch e \<noteq> bak p \<Longrightarrow> fst (write_file e p d f) = None \<Longrightarrow>
      last (snd (write_file e p d f)) p = Some d"
    and others: "q \<notin> {p, bak p, scratch e} \<Longrightarrow> g \<in> set (snd (write_file e p d f)) \<Longrightarrow> g q = f q"
begin

text \<open>The file system a write leaves behind.\<close>

definition after_write :: "'e \<Rightarrow> gostring \<Rightarrow> 'c \<Rightarrow> 'c fs \<Rightarrow> 'c fs" where
  "after_write e p d f = last (snd (write_file e p d f))"

lemma after_write_mem: "after_write e p d f \<in> set (snd (write_file e p d f))"
  using steps_ne by (simp add: after_write_def)

lemma after_write_keeps:
  "scratch e \<noteq> p \<Longrightarrow> scratch e \<noteq> bak p \<Longrightarrow> f p = Some old \<Longrightarrow>
   recoverable p (after_write e p d f) \<in> {Some old, Some d}"
  using keeps after_write_mem by blast

lemma after_write_others: "q \<notin> {p, bak p, scratch e} \<Longrightarrow> after_write e p d f q = f q"
  using others after_write_mem by blast

text \<open>Two writes of different files do not disturb each other.\<close>

lemma write_two_files:
  assumes "fst (write_file e p d f) = None" and "fst (write_file e' q d' (after_write e p d f)) = None"
    and "scratch e \<notin> {p, bak p}" and "scratch e' \<notin> {q, bak q}" and "p \<notin> {q, bak q, scratch e'}"
  shows "after_write e' q d' (after_write e p d f) p = Some d \<and> after_write e' q d' (after_write e p d f) q = Some d'"
proof
  show "after_write e' q d' (after_write e p d f) p = Some d"
    using after_write_others [OF assms(5)] installs [OF _ _ assms(1)] assms(3) by (simp add: after_write_def)
  show "after_write e' q d' (after_write e p d f) q = Some d'"
    using installs [OF _ _ assms(2)] assms(4) by (simp add: after_write_def [of e' q])
qed

end

section \<open>The steps after the temporary file is written\<close>

lemma replaceFile_installs:
  assumes "f tmp = Some d" and "tmp \<noteq> p" and "tmp \<noteq> bak p" and "fst (replaceFile env tmp p f) = None"
  shows "last (snd (replaceFile env tmp p f)) p = Some d"
  using assms
  by (auto simp: replaceFile_def os_Rename_def os_Remove_def Let_def split: if_splits option.splits)

lemma replaceFile_others:
  assumes "q \<notin> {p, bak p, tmp}" and "g \<in> set (snd (replaceFile env tmp p f))"
  shows "g q = f q"
  using assms
  by (auto simp: replaceFile_def os_Rename_def os_Remove_def Let_def split: if_splits option.splits)

lemma write_and_replace_installs:
  assumes "ev_tmpName env \<noteq> p" and "ev_tmpName env \<noteq> bak p" and "fst (write_and_replace env p nb d f) = None"
  shows "last (snd (write_and_replace env p nb d f)) p = Some d"
proof -
  let ?t = "ev_tmpName env" and ?f = "f(ev_tmpName env \<mapsto> d)"
  obtain e fss where r: "replaceFile env ?t p ?f = (e, fss)" by fastforce
  with assms(3) have "e = None" by (cases e) (auto simp: write_and_replace_def Let_def split: if_splits)
  moreover have "fss \<noteq> []" using r by (auto simp: replaceFile_def Let_def split: prod.splits option.splits if_splits)
  moreover have "last fss p = Some d"
    using replaceFile_installs [where env = env and f = ?f and d = d, OF _ assms(1,2)] r \<open>e = None\<close> by simp
  ultimately show ?thesis
    using assms(1,3) r by (simp add: write_and_replace_def Let_def split: if_splits)
qed

lemma write_and_replace_others:
  assumes "q \<notin> {p, bak p, ev_tmpName env}" and "g \<in> set (snd (write_and_replace env p nb d f))"
  shows "g q = f q"
proof -
  obtain e fss where r: "replaceFile env (ev_tmpName env) p (f(ev_tmpName env \<mapsto> d)) = (e, fss)" by fastforce
  have "h q = f q" if "h \<in> set fss" for h
    using replaceFile_others [OF assms(1), of h env "f(ev_tmpName env \<mapsto> d)"] r that assms(1) by simp
  with assms r show ?thesis by (cases e) (auto simp: write_and_replace_def Let_def split: if_splits)
qed

section \<open>Writes made of these steps\<close>

text \<open>A write stops before it touches anything, or runs the steps and removes its temporary file.\<close>

definition staged_write ::
  "('c SaveEnv \<Rightarrow> gostring \<Rightarrow> 'c \<Rightarrow> 'c fs \<Rightarrow> cache_error option \<times> 'c fs list) \<Rightarrow> 'c \<Rightarrow> bool" where
  "staged_write w noBytes \<longleftrightarrow>
     (\<forall>env p d f. fst (w env p d f) \<noteq> None \<and> snd (w env p d f) = [f] \<or>
        (fst (w env p d f) = None \<longleftrightarrow> fst (write_and_replace env p noBytes d f) = None) \<and>
        snd (w env p d f) = snd (with_cleanup env None (snd (write_and_replace env p noBytes d f))))"

lemma staged_step:
  assumes "staged_write w nb" and "g \<in> set (snd (w env p d f))"
  shows "g = f \<or> g \<in> set (snd (with_cleanup env None (snd (write_and_replace env p nb d f))))"
proof -
  from assms(1) have "snd (w env p d f) = [f] \<or>
      snd (w env p d f) = snd (with_cleanup env None (snd (write_and_replace env p nb d f)))"
    unfolding staged_write_def by blast
  with assms(2) show ?thesis by auto
qed

lemma write_and_replace_ne: "snd (write_and_replace env p nb d f) \<noteq> []"
  by (simp add: write_and_replace_def Let_def split: prod.split option.split)

lemma os_Remove_other: "q \<noteq> p \<Longrightarrow> os_Remove ok p f q = f q"
  by (simp add: os_Remove_def)

lemma cleanup_recoverable:
  "tmp \<noteq> p \<Longrightarrow> tmp \<noteq> bak p \<Longrightarrow> recoverable p (os_Remove ok tmp f) = recoverable p f"
  by (auto simp: recoverable_def os_Remove_other split: option.split)

lemma staged_keeps:
  assumes "staged_write w nb" and t: "ev_tmpName env \<noteq> p" "ev_tmpName env \<noteq> bak p" and "f p = Some old"
    and g: "g \<in> set (snd (w env p d f))"
  shows "recoverable p g \<in> {Some old, Some d}"
proof -
  let ?r = "snd (write_and_replace env p nb d f)"
  have steps: "recoverable p h \<in> {Some old, Some d}" if "h \<in> set ?r" for h
    using write_and_replace_recoverable [of f p old env nb d] assms(2-4) that by blast
  have "recoverable p (os_Remove (ev_removeTmp env) (ev_tmpName env) (last ?r)) \<in> {Some old, Some d}"
    unfolding cleanup_recoverable [OF t] using steps [OF last_in_set [OF write_and_replace_ne]] .
  moreover have "recoverable p f = Some old" using assms(4) by (simp add: recoverable_def)
  moreover note staged_step [OF assms(1) g]
  ultimately show ?thesis using steps by (auto simp: with_cleanup_def)
qed

lemma staged_installs:
  assumes "staged_write w nb" and "ev_tmpName env \<noteq> p" and "ev_tmpName env \<noteq> bak p"
    and "fst (w env p d f) = None"
  shows "last (snd (w env p d f)) p = Some d"
proof -
  from assms(1,4) have "fst (write_and_replace env p nb d f) = None"
    and s: "snd (w env p d f) = snd (with_cleanup env None (snd (write_and_replace env p nb d f)))"
    unfolding staged_write_def by blast+
  from write_and_replace_installs [OF assms(2,3) this(1)] show ?thesis
    using assms(2) by (simp add: s with_cleanup_def os_Remove_other)
qed

lemma staged_others:
  assumes "staged_write w nb" and q: "q \<notin> {p, bak p, ev_tmpName env}" and g: "g \<in> set (snd (w env p d f))"
  shows "g q = f q"
proof -
  let ?r = "snd (write_and_replace env p nb d f)"
  have steps: "h q = f q" if "h \<in> set ?r" for h
    using write_and_replace_others [OF q that] .
  from steps [OF last_in_set [OF write_and_replace_ne]]
  have "os_Remove (ev_removeTmp env) (ev_tmpName env) (last ?r) q = f q" using q by (simp add: os_Remove_other)
  moreover note staged_step [OF assms(1) g]
  ultimately show ?thesis using steps by (auto simp: with_cleanup_def)
qed

lemma staged_ne: "staged_write w nb \<Longrightarrow> snd (w env p d f) \<noteq> []"
  unfolding staged_write_def with_cleanup_def by (metis append_is_Nil_conv list.discI snd_conv)

lemma durable_staged: "staged_write w nb \<Longrightarrow> durable_file w ev_tmpName"
  by unfold_locales (fact staged_ne, fact staged_keeps, fact staged_installs, fact staged_others)

text \<open>The benchmark cache writes its file this way.\<close>

lemma staged_saveLocked: "staged_write (\<lambda>env p d f. saveLocked (\<lambda>_. Some d) nb env p emptySnapshot f) nb"
  unfolding staged_write_def by (simp add: saveLocked_def with_cleanup_def split: prod.split)

interpretation cache_file: durable_file "\<lambda>env p d f. saveLocked (\<lambda>_. Some d) nb env p emptySnapshot f" ev_tmpName
  for nb
  by (rule durable_staged [OF staged_saveLocked])

end
