(* ===== verification/Security.thy ===== *)
theory Security
  imports Prelude
begin

text \<open>
  Package \<open>internal/security\<close>: which bind addresses are local, and the bearer token in front of the
  others. The standard library's \<open>net.SplitHostPort\<close>, \<open>net.ParseIP\<close> and \<open>strings.EqualFold\<close> are
  modelled as far as the package uses them; spaces are the ASCII ones.
\<close>

section \<open>Addresses (standard library)\<close>

abbreviation colon :: char where "colon \<equiv> CHR 0x3A"
abbreviation dot :: char where "dot \<equiv> CHR 0x2E"
abbreviation lbracket :: char where "lbracket \<equiv> CHR 0x5B"
abbreviation rbracket :: char where "rbracket \<equiv> CHR 0x5D"
abbreviation percent :: char where "percent \<equiv> CHR 0x25"

definition LastIndexByte :: "gostring \<Rightarrow> char \<Rightarrow> nat option" where
  "LastIndexByte s c = map_option (\<lambda>i. length s - 1 - i) (str_Index (rev s) [c])"

text \<open>\<open>net.SplitHostPort\<close>, \<open>None\<close> for any of its errors.\<close>

definition SplitHostPort :: "gostring \<Rightarrow> (gostring \<times> gostring) option" where
  "SplitHostPort s = (case LastIndexByte s colon of
       None \<Rightarrow> None
     | Some i \<Rightarrow>
         let port = drop (i + 1) s
         in if hd s = lbracket
            then (case str_Index s [rbracket] of
                None \<Rightarrow> None
              | Some k \<Rightarrow>
                  if k + 1 \<noteq> i then None
                  else if lbracket \<in> set (drop 1 s) \<or> rbracket \<in> set (drop (k + 1) s) then None
                  else Some (take (k - 1) (drop 1 s), port))
            else let host = take i s
              in if colon \<in> set host then None
                 else if lbracket \<in> set s \<or> rbracket \<in> set s then None
                 else Some (host, port))"

definition digit_val :: "char \<Rightarrow> nat" where
  "digit_val c = (of_char c :: nat) - 48"

text \<open>
  One octet at a time: \<open>val\<close> and \<open>digLen\<close> of the field being read, the fields read before it. A field is
  non-empty, has no leading zero and is at most 255.
\<close>

fun ipv4_fields :: "gostring \<Rightarrow> nat \<Rightarrow> nat \<Rightarrow> nat list \<Rightarrow> nat list option" where
  "ipv4_fields [] val digLen acc = (if length acc < 3 \<or> digLen = 0 then None else Some (acc @ [val]))"
| "ipv4_fields (c # s) val digLen acc =
     (if is_digit c
      then (if digLen = 1 \<and> val = 0 then None
            else let v = val * 10 + digit_val c in if 255 < v then None else ipv4_fields s v (digLen + 1) acc)
      else if c = dot
      then (if digLen = 0 \<or> s = [] \<or> length acc = 3 then None else ipv4_fields s 0 0 (acc @ [val]))
      else None)"

definition hex_val :: "char \<Rightarrow> nat option" where
  "hex_val c = (let n = (of_char c :: nat) in
     if 48 \<le> n \<and> n \<le> 57 then Some (n - 48)
     else if 97 \<le> n \<and> n \<le> 102 then Some (n - 87)
     else if 65 \<le> n \<and> n \<le> 70 then Some (n - 55)
     else None)"

text \<open>The digits of one group: its value, how many there were, and the rest.\<close>

fun hex_group :: "gostring \<Rightarrow> nat \<Rightarrow> nat \<Rightarrow> (nat \<times> nat \<times> gostring) option" where
  "hex_group [] acc n = Some (acc, n, [])"
| "hex_group (c # s) acc n = (case hex_val c of
     None \<Rightarrow> Some (acc, n, c # s)
   | Some v \<Rightarrow> if 3 < n then None else hex_group s (acc * 16 + v) (n + 1))"

text \<open>
  The loop of \<open>parseIPv6\<close> over the groups: the bytes so far and the position of the ellipsis. The first
  argument bounds the rounds; each reads two bytes, so nine are always enough.
\<close>

fun ipv6_loop :: "nat \<Rightarrow> gostring \<Rightarrow> nat list \<Rightarrow> nat option \<Rightarrow> (nat list \<times> nat option \<times> gostring) option" where
  "ipv6_loop 0 s ip ell = Some (ip, ell, s)"
| "ipv6_loop (Suc n) s ip ell =
     (if 16 \<le> length ip then Some (ip, ell, s)
      else case hex_group s 0 0 of
        None \<Rightarrow> None
      | Some (acc, off, rest) \<Rightarrow>
          if off = 0 then None
          else if rest \<noteq> [] \<and> hd rest = dot
          then (if (ell = None \<and> length ip \<noteq> 12) \<or> 16 < length ip + 4 then None
                else map_option (\<lambda>fs. (ip @ fs, ell, [])) (ipv4_fields s 0 0 []))
          else let ip = ip @ [acc div 256, acc mod 256]
            in case rest of
              [] \<Rightarrow> Some (ip, ell, [])
            | c # s \<Rightarrow>
                if c \<noteq> colon \<or> s = [] then None
                else if hd s = colon
                then (if ell \<noteq> None then None
                      else if tl s = [] then Some (ip, Some (length ip), [])
                      else ipv6_loop n (tl s) ip (Some (length ip)))
                else ipv6_loop n s ip ell)"

definition parseIPv6 :: "gostring \<Rightarrow> nat list option" where
  "parseIPv6 s =
     (let (s, ell) = (if HasPrefix s [colon, colon] then (drop 2 s, Some 0) else (s, None))
      in if ell \<noteq> None \<and> s = [] then Some (replicate 16 0)
         else case ipv6_loop 9 s [] ell of
           None \<Rightarrow> None
         | Some (ip, ell, rest) \<Rightarrow>
             if rest \<noteq> [] then None
             else if length ip < 16
             then map_option (\<lambda>e. take e ip @ replicate (16 - length ip) 0 @ drop e ip) ell
             else if ell \<noteq> None then None
             else Some ip)"

text \<open>\<open>net.ParseIP\<close> as the sixteen bytes; an address with a zone is none.\<close>

definition ParseIP :: "gostring \<Rightarrow> nat list option" where
  "ParseIP s = (case List.find (\<lambda>c. c = dot \<or> c = colon \<or> c = percent) s of
       None \<Rightarrow> None
     | Some c \<Rightarrow>
         if c = dot then map_option (\<lambda>fs. replicate 10 0 @ [255, 255] @ fs) (ipv4_fields s 0 0 [])
         else if c = colon then (if percent \<in> set s then None else parseIPv6 s)
         else None)"

definition ip_IsLoopback :: "nat list \<Rightarrow> bool" where
  "ip_IsLoopback ip =
     (if take 12 ip = replicate 10 0 @ [255, 255] then ip ! 12 = 127
      else ip = replicate 15 0 @ [1])"

text \<open>
  \<open>strings.EqualFold(s, t)\<close> for a \<open>t\<close> of ASCII characters: besides the other case, \<open>s\<close> may have the long s
  (bytes C5 BF) for an s and the Kelvin sign (E2 84 AA) for a k.
\<close>

fun fold_special :: "gostring \<Rightarrow> gostring" where
  "fold_special (a # b # c # s) =
     (if [a, b, c] = [CHR 0xE2, CHR 0x84, CHR 0xAA] then CHR ''k'' # fold_special s
      else if [a, b] = [CHR 0xC5, CHR 0xBF] then CHR ''s'' # fold_special (c # s)
      else a # fold_special (b # c # s))"
| "fold_special [a, b] = (if [a, b] = [CHR 0xC5, CHR 0xBF] then ''s'' else [a, b])"
| "fold_special s = s"

definition EqualFold_ascii :: "gostring \<Rightarrow> gostring \<Rightarrow> bool" where
  "EqualFold_ascii s t = EqualFold (fold_special s) t"

section \<open>Bind addresses (security.go)\<close>

datatype security_error =
    ErrInvalidBind gostring
  | ErrNonLoopbackBind gostring
  | ErrTokenRequired
  | NilHandler

definition bindHost :: "gostring \<Rightarrow> security_error + gostring" where
  "bindHost bind =
     (let bind = TrimSpace bind
      in if bind = [] then Inl (ErrInvalidBind ''address must not be empty'')
         else case SplitHostPort bind of
           None \<Rightarrow> Inl (ErrInvalidBind bind)
         | Some (host, port) \<Rightarrow>
             if port = [] then Inl (ErrInvalidBind bind)
             else if host = [] then Inl (ErrInvalidBind ''wildcard host is not explicit'')
             else Inr host)"

definition IsLoopbackBind :: "gostring \<Rightarrow> bool" where
  "IsLoopbackBind bind = (case bindHost bind of
       Inl _ \<Rightarrow> False
     | Inr host \<Rightarrow>
         if EqualFold_ascii host ''localhost'' then True
         else case ParseIP host of None \<Rightarrow> False | Some ip \<Rightarrow> ip_IsLoopback ip)"

definition ValidateLoopbackBind :: "gostring \<Rightarrow> security_error option" where
  "ValidateLoopbackBind bind = (case bindHost bind of
       Inl e \<Rightarrow> Some e
     | Inr _ \<Rightarrow> if \<not> IsLoopbackBind bind then Some (ErrNonLoopbackBind bind) else None)"

definition IsLoopbackRemote :: "gostring \<Rightarrow> bool" where
  "IsLoopbackRemote remoteAddr = (case SplitHostPort remoteAddr of
       None \<Rightarrow> False
     | Some (host, _) \<Rightarrow> (case ParseIP host of None \<Rightarrow> False | Some ip \<Rightarrow> ip_IsLoopback ip))"

section \<open>Bearer tokens (security.go)\<close>

definition validBearer :: "gostring \<Rightarrow> gostring \<Rightarrow> bool" where
  "validBearer header want = (case Fields header of
       [scheme, got] \<Rightarrow> EqualFold_ascii scheme ''Bearer'' \<and> length got = length want \<and> got = want
     | _ \<Rightarrow> False)"

text \<open>
  A handler sees the \<open>Authorization\<close> header of a request and the rest of it; what the guard writes
  itself are the status, the challenge header and the body.
\<close>

datatype 'r reply = Reply 'r | Unauthorized gostring gostring int | NotFound

type_synonym ('q, 'r) Handler = "gostring \<Rightarrow> 'q \<Rightarrow> 'r reply"

definition challenge :: gostring where
  "challenge = ''Bearer realm='' @ [CHR 0x22] @ ''fmr'' @ [CHR 0x22]"

definition RequireBearer :: "('q, 'r) Handler option \<Rightarrow> gostring \<Rightarrow> ('q, 'r) Handler" where
  "RequireBearer next token =
     (let nxt = (case next of None \<Rightarrow> (\<lambda>_ _. NotFound) | Some h \<Rightarrow> h); want = TrimSpace token
      in (\<lambda>authorization q.
           if \<not> validBearer authorization want then Unauthorized challenge ''unauthorized'' 401
           else nxt authorization q))"

definition RequireInferenceAuth ::
  "('q, 'r) Handler option \<Rightarrow> gostring \<Rightarrow> gostring \<Rightarrow> security_error + ('q, 'r) Handler" where
  "RequireInferenceAuth next bind token = (case next of
       None \<Rightarrow> Inl NilHandler
     | Some h \<Rightarrow>
         (case bindHost bind of
            Inl e \<Rightarrow> Inl e
          | Inr _ \<Rightarrow>
              if IsLoopbackBind bind then Inr h
              else if TrimSpace token = [] then Inl ErrTokenRequired
              else Inr (RequireBearer (Some h) token)))"

section \<open>Dotted addresses\<close>

definition digit_char :: "nat \<Rightarrow> char" where
  "digit_char d = char_of (48 + d)"

lemma digit_char_simps [simp]:
  assumes "d < 10"
  shows "is_digit (digit_char d)" and "digit_val (digit_char d) = d" and "\<not> is_space (digit_char d)"
    and "digit_char d \<notin> {colon, dot, lbracket, rbracket, percent}"
proof -
  have n: "of_char (digit_char d) = 48 + d"
    using assms by (simp add: digit_char_def of_char_of)
  then show "is_digit (digit_char d)" "digit_val (digit_char d) = d" "\<not> is_space (digit_char d)"
    using assms by (simp_all add: is_digit_def digit_val_def is_space_def)
  show "digit_char d \<notin> {colon, dot, lbracket, rbracket, percent}"
  proof
    assume "digit_char d \<in> {colon, dot, lbracket, rbracket, percent}"
    then have "(of_char (digit_char d) :: nat) \<in> {58, 46, 91, 93, 37}" by auto
    with n assms show False by auto
  qed
qed

text \<open>An octet in decimal, and the four of an address.\<close>

definition octet :: "nat \<Rightarrow> gostring" where
  "octet n = (if n < 10 then [digit_char n]
     else if n < 100 then [digit_char (n div 10), digit_char (n mod 10)]
     else [digit_char (n div 100), digit_char (n div 10 mod 10), digit_char (n mod 10)])"

definition dotted :: "nat \<times> nat \<times> nat \<times> nat \<Rightarrow> gostring" where
  "dotted = (\<lambda>(a, b, c, d). octet a @ dot # octet b @ dot # octet c @ dot # octet d)"

lemma octet_parts:
  fixes n :: nat
  assumes "n < 256"
  shows "n div 10 mod 10 < 10" "n div 100 < 10" "\<not> n < 100 \<Longrightarrow> n div 100 \<noteq> 0" "\<not> n < 10 \<Longrightarrow> n div 10 \<noteq> 0"
    "n div 100 * 10 + n div 10 mod 10 = n div 10" "n div 10 * 10 + n mod 10 = n" "n div 10 \<le> 255"
    "n < 100 \<Longrightarrow> n div 10 < 10"
proof -
  have "n div 100 = n div 10 div 10" by (simp add: div_mult2_eq [symmetric])
  then show "n div 100 * 10 + n div 10 mod 10 = n div 10" by simp
  show "n div 10 mod 10 < 10" "n div 10 * 10 + n mod 10 = n" by simp_all
  show "n div 100 < 10" using div_le_mono [of n 255 100] assms by simp
  show "n div 10 \<le> 255" using div_le_mono [of n 255 10] assms by simp
  show "\<not> n < 100 \<Longrightarrow> n div 100 \<noteq> 0" "\<not> n < 10 \<Longrightarrow> n div 10 \<noteq> 0" by (simp_all add: div_eq_0_iff)
  show "n < 100 \<Longrightarrow> n div 10 < 10" by (simp add: less_mult_imp_div_less)
qed

lemma ipv4_octet:
  assumes "n < 256"
  shows "\<exists>k > 0. ipv4_fields (octet n @ s) 0 0 acc = ipv4_fields s n k acc"
proof -
  note parts = octet_parts [OF assms]
  show ?thesis
  proof (cases "n < 10")
    case True
    then show ?thesis by (intro exI [of _ 1]) (simp add: octet_def Let_def)
  next
    case ten: False
    show ?thesis
    proof (cases "n < 100")
      case True
      with ten parts assms show ?thesis by (intro exI [of _ "Suc (Suc 0)"]) (simp add: octet_def Let_def)
    next
      case False
      with ten parts assms show ?thesis by (intro exI [of _ "Suc (Suc (Suc 0))"]) (simp add: octet_def Let_def)
    qed
  qed
qed

lemma ipv4_octet_dot:
  assumes "n < 256" and "s \<noteq> []" and "length acc < 3"
  shows "ipv4_fields (octet n @ dot # s) 0 0 acc = ipv4_fields s 0 0 (acc @ [n])"
proof -
  obtain k where "k > 0" "ipv4_fields (octet n @ dot # s) 0 0 acc = ipv4_fields (dot # s) n k acc"
    using ipv4_octet [OF assms(1)] by blast
  with assms(2,3) show ?thesis by (simp add: is_digit_def)
qed

lemma ipv4_octet_end:
  assumes "n < 256" and "length acc = 3"
  shows "ipv4_fields (octet n) 0 0 acc = Some (acc @ [n])"
proof -
  obtain k where "k > 0" "ipv4_fields (octet n @ []) 0 0 acc = ipv4_fields [] n k acc"
    using ipv4_octet [OF assms(1)] by blast
  with assms(2) show ?thesis by simp
qed

lemma ipv4_dotted:
  assumes "a < 256" "b < 256" "c < 256" "d < 256"
  shows "ipv4_fields (dotted (a, b, c, d)) 0 0 [] = Some [a, b, c, d]"
proof -
  have "octet n \<noteq> []" for n by (simp add: octet_def)
  with assms show ?thesis by (simp add: dotted_def ipv4_octet_dot ipv4_octet_end)
qed

lemma octet_chars: "n < 256 \<Longrightarrow> set (octet n) \<subseteq> {digit_char d |d. d < 10}"
  using octet_parts [of n] by (auto simp: octet_def)

lemma dotted_chars:
  assumes "a < 256" "b < 256" "c < 256" "d < 256"
  shows "set (dotted (a, b, c, d)) \<subseteq> insert dot {digit_char d |d. d < 10}"
  using octet_chars [OF assms(1)] octet_chars [OF assms(2)] octet_chars [OF assms(3)] octet_chars [OF assms(4)]
  by (auto simp: dotted_def)

lemma find_unique:
  assumes "x \<in> set xs" and "P x" and "\<And>y. y \<in> set xs \<Longrightarrow> P y \<Longrightarrow> y = x"
  shows "List.find P xs = Some x"
proof (cases "List.find P xs")
  case None
  with assms(1,2) show ?thesis unfolding find_None_iff_all by blast
next
  case (Some y)
  with assms(3) [of y] find_SomeD [OF this] show ?thesis by simp
qed

lemma digit_char_sep: "d < 10 \<Longrightarrow> digit_char d \<noteq> dot \<and> digit_char d \<noteq> colon \<and> digit_char d \<noteq> percent \<and>
  digit_char d \<noteq> lbracket \<and> digit_char d \<noteq> rbracket"
  using digit_char_simps(4) [of d] by simp

lemma ParseIP_dotted:
  assumes "a < 256" "b < 256" "c < 256" "d < 256"
  shows "ParseIP (dotted (a, b, c, d)) = Some (replicate 10 0 @ [255, 255, a, b, c, d])"
proof -
  have "List.find (\<lambda>c. c = dot \<or> c = colon \<or> c = percent) (dotted (a, b, c, d)) = Some dot"
  proof (rule find_unique)
    show "dot \<in> set (dotted (a, b, c, d))" by (simp add: dotted_def)
    fix y
    assume y: "y \<in> set (dotted (a, b, c, d))" "y = dot \<or> y = colon \<or> y = percent"
    from y(1) dotted_chars [OF assms] have "y = dot \<or> (\<exists>e. y = digit_char e \<and> e < 10)" by blast
    then show "y = dot"
    proof (elim disjE exE conjE)
      fix e :: nat
      assume "y = digit_char e" "e < 10"
      with y(2) digit_char_sep [of e] show ?thesis by simp
    qed
  qed simp
  with ipv4_dotted [OF assms] show ?thesis by (simp add: ParseIP_def)
qed

lemma SplitHostPort_plain:
  assumes "set host \<inter> {colon, lbracket, rbracket} = {}" and "set port \<inter> {colon, lbracket, rbracket} = {}"
    and "host \<noteq> []"
  shows "SplitHostPort (host @ colon # port) = Some (host, port)"
proof -
  have "str_Index (rev (host @ colon # port)) [colon] = Some (length port)"
    using str_Index_single_append [of colon "rev port" "rev host"] assms(2) by simp
  then have "LastIndexByte (host @ colon # port) colon = Some (length host)"
    by (simp add: LastIndexByte_def)
  moreover have "hd host \<noteq> lbracket" using assms(1,3) by (cases host) auto
  ultimately show ?thesis using assms by (auto simp: SplitHostPort_def Let_def)
qed

lemma TrimSpace_id:
  assumes "s = [] \<or> \<not> is_space (hd s) \<and> \<not> is_space (last s)"
  shows "TrimSpace s = s"
  using assms by (cases "s = []") (simp_all add: TrimSpace_def dropWhile_id hd_rev)

lemma octet_ends: "n < 256 \<Longrightarrow> octet n \<noteq> [] \<and> \<not> is_space (hd (octet n))"
  using octet_parts [of n] by (simp add: octet_def)

lemma digits_plain: "list_all is_digit port \<Longrightarrow> set port \<inter> {colon, lbracket, rbracket} = {}"
  by (auto simp: list_all_iff is_digit_def)

lemma dotted_plain:
  assumes "a < 256" "b < 256" "c < 256" "d < 256"
  shows "set (dotted (a, b, c, d)) \<inter> {colon, lbracket, rbracket} = {}"
proof -
  have "x \<notin> {colon, lbracket, rbracket}" if "x \<in> set (dotted (a, b, c, d))" for x
  proof -
    from that dotted_chars [OF assms] consider "x = dot" | e where "x = digit_char e" "e < 10" by blast
    then show ?thesis by cases (simp_all add: digit_char_sep)
  qed
  then show ?thesis by blast
qed

lemma bindHost_dotted:
  assumes "a < 256" "b < 256" "c < 256" "d < 256" and "port \<noteq> []" "list_all is_digit port"
  shows "bindHost (dotted (a, b, c, d) @ colon # port) = Inr (dotted (a, b, c, d))"
proof -
  let ?h = "dotted (a, b, c, d)"
  have ne: "?h \<noteq> []" by (simp add: dotted_def)
  have "\<not> is_space (last port)"
    using assms(5,6) by (auto simp: list_all_iff is_digit_def is_space_def dest!: bspec [of _ _ "last port"])
  moreover have "\<not> is_space (hd ?h)" using octet_ends [OF assms(1)] by (simp add: dotted_def)
  ultimately have "TrimSpace (?h @ colon # port) = ?h @ colon # port"
    using ne assms(5) by (intro TrimSpace_id) simp
  moreover have "SplitHostPort (?h @ colon # port) = Some (?h, port)"
    by (rule SplitHostPort_plain [OF dotted_plain [OF assms(1-4)] digits_plain [OF assms(6)] ne])
  ultimately show ?thesis using ne assms(5) by (simp add: bindHost_def)
qed

text \<open>The peers of a connection: an IPv4 address, or the loopback address of IPv6.\<close>

lemma IsLoopbackRemote_dotted:
  assumes "a < 256" "b < 256" "c < 256" "d < 256" and "list_all is_digit port"
  shows "IsLoopbackRemote (dotted (a, b, c, d) @ colon # port) \<longleftrightarrow> a = 127"
proof -
  have "SplitHostPort (dotted (a, b, c, d) @ colon # port) = Some (dotted (a, b, c, d), port)"
    by (rule SplitHostPort_plain [OF dotted_plain [OF assms(1-4)] digits_plain [OF assms(5)]]) (simp add: dotted_def)
  then show ?thesis
    using ParseIP_dotted [OF assms(1-4)] by (simp add: IsLoopbackRemote_def ip_IsLoopback_def nth_append)
qed

lemma loopback6: "parseIPv6 ''::1'' = Some (replicate 15 0 @ [1])"
proof -
  have "replicate 14 (0 :: nat) @ [0] = replicate 15 0" by code_simp
  then show ?thesis by (simp add: parseIPv6_def HasPrefix_def hex_val_def ipv6_loop.simps(2) [of 8, simplified])
qed

lemma IsLoopbackRemote_loopback6:
  assumes "list_all is_digit port"
  shows "IsLoopbackRemote (''[::1]'' @ colon # port)"
proof -
  have "str_Index (rev (''[::1]'' @ colon # port)) [colon] = Some (length port)"
    using str_Index_single_append [of colon "rev port" "rev ''[::1]''"] digits_plain [OF assms] by simp
  then have "LastIndexByte (''[::1]'' @ colon # port) colon = Some 5"
    by (simp add: LastIndexByte_def)
  moreover have "str_Index (''[::1]'' @ colon # port) [rbracket] = Some 4"
    using str_Index_single_append [of rbracket "''[::1''" "colon # port"] by simp
  ultimately have "SplitHostPort (''[::1]'' @ colon # port) = Some (''::1'', port)"
    using digits_plain [OF assms] by (auto simp: SplitHostPort_def Let_def)
  moreover have "List.find (\<lambda>c. c = dot \<or> c = colon \<or> c = percent) ''::1'' = Some colon" by code_simp
  moreover have "ip_IsLoopback (replicate 15 0 @ [1])" by code_simp
  ultimately show ?thesis
    by (simp add: IsLoopbackRemote_def ParseIP_def loopback6)
qed

lemma fold_special_hd: "c \<noteq> CHR 0xE2 \<and> c \<noteq> CHR 0xC5 \<Longrightarrow> \<exists>t. fold_special (c # s) = c # t"
  by (cases s; cases "tl s") auto

lemma dotted_not_localhost:
  assumes "a < 256" "b < 256" "c < 256" "d < 256"
  shows "\<not> EqualFold_ascii (dotted (a, b, c, d)) ''localhost''"
proof -
  obtain n t where n: "n < 10" "dotted (a, b, c, d) = digit_char n # t"
    using octet_chars [OF assms(1)] octet_ends [OF assms(1)] by (cases "octet a") (auto simp: dotted_def)
  have code: "(of_char (digit_char n) :: nat) = 48 + n" using n(1) by (simp add: digit_char_def of_char_of)
  have "digit_char n \<noteq> CHR 0xE2 \<and> digit_char n \<noteq> CHR 0xC5"
  proof (intro conjI notI)
    assume "digit_char n = CHR 0xE2"
    with code have "(of_char (CHR 0xE2) :: nat) = 48 + n" by simp
    with n(1) show False by simp
  next
    assume "digit_char n = CHR 0xC5"
    with code have "(of_char (CHR 0xC5) :: nat) = 48 + n" by simp
    with n(1) show False by simp
  qed
  with fold_special_hd obtain u where u: "fold_special (dotted (a, b, c, d)) = digit_char n # u"
    unfolding n(2) by blast
  have "to_lower_char (digit_char n) = digit_char n"
    using code n(1) by (simp add: to_lower_char_def is_upper_def)
  moreover have "digit_char n \<noteq> CHR ''l''"
  proof
    assume "digit_char n = CHR ''l''"
    with code have "(of_char (CHR ''l'') :: nat) = 48 + n" by simp
    with n(1) show False by simp
  qed
  moreover have "ToLower ''localhost'' = ''localhost''" by code_simp
  ultimately show ?thesis by (simp add: EqualFold_ascii_def EqualFold_def u) (simp add: ToLower_def)
qed

section \<open>Bearer headers\<close>

lemma fields_acc_no_space:
  "\<not> list_ex is_space cur \<Longrightarrow> \<forall>f \<in> set (fields_acc cur s). f \<noteq> [] \<and> \<not> list_ex is_space f"
proof (induction s arbitrary: cur)
  case (Cons c s)
  from Cons.IH [of "[]"] Cons.IH [of "cur @ [c]"] Cons.prems show ?case
    by (cases "is_space c"; cases "cur = []") simp_all
qed simp

lemma Fields_no_space: "f \<in> set (Fields s) \<Longrightarrow> f \<noteq> [] \<and> \<not> list_ex is_space f"
  using fields_acc_no_space [of "[]"] by (simp add: Fields_def)

lemma fields_acc_word: "\<not> list_ex is_space w \<Longrightarrow> cur @ w \<noteq> [] \<Longrightarrow> fields_acc cur w = [cur @ w]"
  by (induction w arbitrary: cur) auto

lemma fields_acc_word_space:
  "\<not> list_ex is_space w \<Longrightarrow> cur @ w \<noteq> [] \<Longrightarrow> is_space c \<Longrightarrow>
   fields_acc cur (w @ c # s) = (cur @ w) # fields_acc [] s"
  by (induction w arbitrary: cur) auto

lemma Fields_two:
  assumes "\<not> list_ex is_space v" "v \<noteq> []" "\<not> list_ex is_space w" "w \<noteq> []"
  shows "Fields (v @ CHR '' '' # w) = [v, w]"
  using assms by (simp add: Fields_def fields_acc_word_space fields_acc_word is_space_def)

lemma validBearer_iff:
  "validBearer header want \<longleftrightarrow> (\<exists>scheme. Fields header = [scheme, want] \<and> EqualFold_ascii scheme ''Bearer'')"
  by (auto simp: validBearer_def split: list.splits)

text \<open>A token with a space inside is accepted by the policy and then matches no header at all.\<close>

lemma spaced_token_locks_out:
  assumes "list_ex is_space (TrimSpace token)"
  shows "RequireBearer next token auth q = Unauthorized challenge ''unauthorized'' 401"
proof -
  have "\<not> validBearer auth (TrimSpace token)"
  proof
    assume "validBearer auth (TrimSpace token)"
    then have "TrimSpace token \<in> set (Fields auth)" by (auto simp: validBearer_iff)
    with Fields_no_space assms show False by blast
  qed
  then show ?thesis by (simp add: RequireBearer_def Let_def)
qed

section \<open>Properties\<close>

text \<open>C8: a gateway bound to a dotted IPv4 address and port is open exactly when the address is in 127/8;
  otherwise it is refused without a token, and with one a request reaches the handler exactly when its
  \<open>Authorization\<close> header is the Bearer scheme and that token, all others getting 401.\<close>

theorem inference_gate:
  assumes "a < 256" "b < 256" "c < 256" "d < 256"
    and "port \<noteq> []" and "list_all is_digit port" and "bind = dotted (a, b, c, d) @ colon # port"
  shows "case RequireInferenceAuth (Some nxt) bind token of
      Inl e \<Rightarrow> a \<noteq> 127 \<and> TrimSpace token = [] \<and> e = ErrTokenRequired
    | Inr h \<Rightarrow> if a = 127 then h auth q = nxt auth q
        else TrimSpace token \<noteq> [] \<and> h auth q =
          (if \<exists>scheme. Fields auth = [scheme, TrimSpace token] \<and> EqualFold_ascii scheme ''Bearer''
           then nxt auth q else Unauthorized challenge ''unauthorized'' 401)"
proof -
  have host: "bindHost bind = Inr (dotted (a, b, c, d))"
    using assms(5,6) unfolding assms(7) by (rule bindHost_dotted [OF assms(1,2,3,4)])
  have "IsLoopbackBind bind \<longleftrightarrow> a = 127"
    using host dotted_not_localhost [OF assms(1,2,3,4)] ParseIP_dotted [OF assms(1,2,3,4)]
    by (simp add: IsLoopbackBind_def ip_IsLoopback_def nth_append)
  with host show ?thesis
    unfolding validBearer_iff [symmetric] by (simp add: RequireInferenceAuth_def RequireBearer_def Let_def)
qed

theorem inference_gate_witness:
  "\<exists>h. RequireInferenceAuth (Some (\<lambda>_ q :: unit. Reply q)) ''10.0.0.1:8080'' ''key'' = Inr h \<and>
     h ''Bearer key'' () = Reply () \<and> h ''Bearer'' () = Unauthorized challenge ''unauthorized'' 401"
proof -
  have bind: "''10.0.0.1:8080'' = dotted (10, 0, 0, 1) @ colon # ''8080''" by code_simp
  have tok: "TrimSpace ''key'' = ''key''" by code_simp
  note gate = inference_gate [where a = 10 and b = 0 and c = 0 and d = 1 and port = "''8080''" and
      nxt = "\<lambda>_ q :: unit. Reply q" and token = "''key''", OF _ _ _ _ _ _ bind]
  have port: "list_all is_digit ''8080''" by code_simp
  obtain h where h: "RequireInferenceAuth (Some (\<lambda>_ q :: unit. Reply q)) ''10.0.0.1:8080'' ''key'' = Inr h"
    using gate [of "[]" "()"] port tok by (auto split: sum.splits)
  have f: "Fields ''Bearer key'' = [''Bearer'', ''key'']" "Fields ''Bearer'' = [''Bearer'']"
    "EqualFold_ascii ''Bearer'' ''Bearer''" by code_simp+
  have h_eq: "h auth () = (if \<exists>scheme. Fields auth = [scheme, ''key''] \<and> EqualFold_ascii scheme ''Bearer''
      then Reply () else Unauthorized challenge ''unauthorized'' 401)" for auth
    using gate [of auth "()"] port unfolding h tok sum.case by simp
  have "h ''Bearer key'' () = Reply ()" unfolding h_eq f(1) using f(3) by simp
  moreover have "h ''Bearer'' () = Unauthorized challenge ''unauthorized'' 401" unfolding h_eq f(2) by simp
  ultimately show ?thesis using h by blast
qed

text \<open>What counts as local among the other forms of an address.\<close>

lemmas bind_defs = IsLoopbackBind_def bindHost_def SplitHostPort_def LastIndexByte_def TrimSpace_def is_space_def
  EqualFold_ascii_def EqualFold_def ToLower_def to_lower_char_def is_upper_def HasPrefix_def

lemma local_name: "IsLoopbackBind ''localhost:1''"
  by (simp add: bind_defs)

lemma no_host: "\<not> IsLoopbackBind '':1''" and no_port: "\<not> IsLoopbackBind ''127.0.0.1''"
  by (simp_all add: bind_defs)

end
