(* ===== verification/JsonCodec.thy ===== *)
theory JsonCodec
  imports Security Provider "HOL-Library.AList"
begin

text \<open>
  What \<open>encoding/json\<close> does to the values of the configuration and secret files, at the level of JSON
  values: \<open>Unmarshal\<close> into an existing value keeps what the document does not mention, a field name
  matches up to case, \<open>null\<close> clears slices, maps and pointers and leaves the rest, and a value of the
  wrong type is an error. The text of a document stays a parameter (\<open>print\<close>, \<open>parse\<close>) of its users.
\<close>

section \<open>Numbers\<close>

definition is_number :: "gostring \<Rightarrow> bool" where
  "is_number s \<longleftrightarrow> s \<noteq> [] \<and> list_all is_digit s"

definition digits_value :: "gostring \<Rightarrow> nat" where
  "digits_value s = foldl (\<lambda>n c. n * 10 + ((of_char c :: nat) - 48)) 0 s"

text \<open>\<open>strconv.ParseInt(s, 10, 64)\<close> on the text of a JSON number.\<close>

definition ParseInt :: "gostring \<Rightarrow> int option" where
  "ParseInt s =
     (let (neg, ds) = (case s of c # t \<Rightarrow> if c = CHR ''-'' then (True, t) else (False, s) | [] \<Rightarrow> (False, s));
          n = (if neg then - int (digits_value ds) else int (digits_value ds))
      in if is_number ds \<and> - (2 ^ 63) \<le> n \<and> n < 2 ^ 63 then Some n else None)"

lemma nat_digits_digit: "list_all is_digit (nat_digits n) \<and> nat_digits n \<noteq> []"
proof (induction n rule: nat_digits.induct)
  case (1 n)
  have d: "is_digit (char_of (48 + m))" if "m < 10" for m :: nat
    using that by (simp add: is_digit_def of_char_of)
  show ?case
  proof (cases "n < 10")
    case True
    then show ?thesis using d by (simp add: nat_digits.simps [of n])
  next
    case False
    have "n mod 10 < 10" by simp
    with False 1 d show ?thesis by (simp add: nat_digits.simps [of n])
  qed
qed

lemma digits_value_append: "digits_value (s @ [c]) = digits_value s * 10 + ((of_char c :: nat) - 48)"
  by (simp add: digits_value_def)

lemma digits_value_nat_digits [simp]: "digits_value (nat_digits n) = n"
proof (induction n rule: nat_digits.induct)
  case (1 n)
  show ?case
  proof (cases "n < 10")
    case True
    then show ?thesis by (simp add: nat_digits.simps [of n] digits_value_def of_char_of)
  next
    case False
    have "n mod 10 < 10" by simp
    with False 1 show ?thesis by (simp add: nat_digits.simps [of n] digits_value_append of_char_of)
  qed
qed

lemma ParseInt_Itoa:
  assumes "- (2 ^ 63) \<le> n" and "n < 2 ^ 63"
  shows "ParseInt (Itoa n) = Some n"
proof (cases "n < 0")
  case True
  with assms show ?thesis
    using nat_digits_digit [of "nat (- n)"] by (simp add: ParseInt_def Itoa_def is_number_def)
next
  case False
  obtain c t where ct: "nat_digits (nat n) = c # t"
    using nat_digits_digit [of "nat n"] by (cases "nat_digits (nat n)") auto
  moreover from this nat_digits_digit [of "nat n"] have "c \<noteq> CHR ''-''"
    by (auto simp: is_digit_def)
  ultimately show ?thesis
    using False assms nat_digits_digit [of "nat n"] digits_value_nat_digits [of "nat n"]
    by (simp add: ParseInt_def Itoa_def is_number_def)
qed

lemma ParseInt_bounds: "ParseInt s = Some n \<Longrightarrow> - (2 ^ 63) \<le> n \<and> n < 2 ^ 63"
  by (auto simp: ParseInt_def Let_def split: if_splits prod.splits)

section \<open>Decoding\<close>

definition dec_string :: "gostring \<Rightarrow> json \<Rightarrow> gostring option" where
  "dec_string old j = (case j of JNull \<Rightarrow> Some old | JStr s \<Rightarrow> Some s | _ \<Rightarrow> None)"

definition dec_bool :: "bool \<Rightarrow> json \<Rightarrow> bool option" where
  "dec_bool old j = (case j of JNull \<Rightarrow> Some old | JBool b \<Rightarrow> Some b | _ \<Rightarrow> None)"

definition dec_int :: "int \<Rightarrow> json \<Rightarrow> int option" where
  "dec_int old j = (case j of JNull \<Rightarrow> Some old | JNum t \<Rightarrow> ParseInt t | _ \<Rightarrow> None)"

definition dec_ptr :: "('a \<Rightarrow> json \<Rightarrow> 'a option) \<Rightarrow> 'a \<Rightarrow> 'a option \<Rightarrow> json \<Rightarrow> 'a option option" where
  "dec_ptr dec zero old j = (case j of
       JNull \<Rightarrow> Some None
     | _ \<Rightarrow> map_option Some (dec (case old of None \<Rightarrow> zero | Some v \<Rightarrow> v) j))"

text \<open>An element of a slice is decoded into the element the slice had there.\<close>

fun dec_elems :: "('a \<Rightarrow> json \<Rightarrow> 'a option) \<Rightarrow> 'a \<Rightarrow> 'a list \<Rightarrow> json list \<Rightarrow> 'a list option" where
  "dec_elems dec zero old [] = Some []"
| "dec_elems dec zero old (j # js) =
     (case dec (case old of [] \<Rightarrow> zero | x # _ \<Rightarrow> x) j of
        None \<Rightarrow> None
      | Some x \<Rightarrow> map_option ((#) x) (dec_elems dec zero (tl old) js))"

definition dec_list :: "('a \<Rightarrow> json \<Rightarrow> 'a option) \<Rightarrow> 'a \<Rightarrow> 'a list \<Rightarrow> json \<Rightarrow> 'a list option" where
  "dec_list dec zero old j = (case j of
       JNull \<Rightarrow> Some []
     | JArr js \<Rightarrow> dec_elems dec zero old js
     | _ \<Rightarrow> None)"

fun dec_fields :: "(gostring \<Rightarrow> json \<Rightarrow> 's \<Rightarrow> 's option) \<Rightarrow> (gostring \<times> json) list \<Rightarrow> 's \<Rightarrow> 's option" where
  "dec_fields step [] s = Some s"
| "dec_fields step ((k, v) # fs) s = (case step k v s of None \<Rightarrow> None | Some s \<Rightarrow> dec_fields step fs s)"

text \<open>A map keeps its entries and is extended; a value is decoded into a fresh element.\<close>

definition dec_map :: "('a \<Rightarrow> json \<Rightarrow> 'a option) \<Rightarrow> 'a \<Rightarrow> (gostring \<times> 'a) list \<Rightarrow> json \<Rightarrow> (gostring \<times> 'a) list option" where
  "dec_map dec zero old j = (case j of
       JNull \<Rightarrow> Some []
     | JObj fs \<Rightarrow> dec_fields (\<lambda>k v m. map_option (\<lambda>x. AList.update k x m) (dec zero v)) fs old
     | _ \<Rightarrow> None)"

definition dec_struct :: "(gostring \<Rightarrow> json \<Rightarrow> 's \<Rightarrow> 's option) \<Rightarrow> 's \<Rightarrow> json \<Rightarrow> 's option" where
  "dec_struct step old j = (case j of
       JNull \<Rightarrow> Some old
     | JObj fs \<Rightarrow> dec_fields step fs old
     | _ \<Rightarrow> None)"

text \<open>The struct field a name of the document stands for.\<close>

definition field_named :: "gostring list \<Rightarrow> gostring \<Rightarrow> gostring option" where
  "field_named names k = List.find (EqualFold_ascii k) names"

section \<open>Encoding\<close>

definition enc_int :: "int \<Rightarrow> json" where
  "enc_int n = JNum (Itoa n)"

definition enc_strings :: "gostring list \<Rightarrow> json" where
  "enc_strings ss = JArr (map JStr ss)"

text \<open>A field with \<open>omitempty\<close>.\<close>

definition omit_if :: "bool \<Rightarrow> gostring \<Rightarrow> json \<Rightarrow> (gostring \<times> json) list" where
  "omit_if isEmpty k j = (if isEmpty then [] else [(k, j)])"

section \<open>Decoding what was encoded\<close>

lemma dec_enc_int [simp]: "- (2 ^ 63) \<le> n \<Longrightarrow> n < 2 ^ 63 \<Longrightarrow> dec_int old (enc_int n) = Some n"
  by (simp add: dec_int_def enc_int_def ParseInt_Itoa)

lemma dec_string_JStr [simp]: "dec_string old (JStr s) = Some s"
  by (simp add: dec_string_def)

lemma dec_bool_JBool [simp]: "dec_bool old (JBool b) = Some b"
  by (simp add: dec_bool_def)

lemma dec_elems_map:
  assumes "\<And>x old. P old \<Longrightarrow> Q x \<Longrightarrow> dec old (enc x) = Some x" and "P zero" and "list_all P old" and "list_all Q xs"
  shows "dec_elems dec zero old (map enc xs) = Some xs"
  using assms(3,4)
proof (induction xs arbitrary: old)
  case (Cons x xs)
  have "P (case old of [] \<Rightarrow> zero | x # _ \<Rightarrow> x)" and "list_all P (tl old)"
    using Cons.prems(1) assms(2) by (cases old; simp)+
  with Cons assms(1) show ?case by simp
qed simp

lemma dec_enc_strings [simp]: "dec_list dec_string zero old (enc_strings ss) = Some ss"
  unfolding dec_list_def enc_strings_def json.case
  by (rule dec_elems_map [where P = "\<lambda>_. True" and Q = "\<lambda>_. True"]) (simp_all add: list_all_iff)

lemma update_snoc: "k \<notin> fst ` set m \<Longrightarrow> AList.update k v m = m @ [(k, v)]"
  by (induction m) auto

lemma dec_map_enc:
  assumes "\<And>x. dec zero (enc x) = Some x" and "distinct (map fst (m @ kvs))"
  shows "dec_fields (\<lambda>k v m. map_option (\<lambda>x. AList.update k x m) (dec zero v)) (map (\<lambda>(k, v). (k, enc v)) kvs) m
    = Some (m @ kvs)"
  using assms(2)
proof (induction kvs arbitrary: m)
  case (Cons kv kvs)
  obtain k v where kv: "kv = (k, v)" by fastforce
  with Cons.prems have "k \<notin> fst ` set m" by auto
  from update_snoc [OF this, of v] Cons.IH [of "m @ [(k, v)]"] Cons.prems assms(1) kv show ?case by simp
qed simp

lemma dec_fields_append:
  "dec_fields step (fs @ gs) s = (case dec_fields step fs s of None \<Rightarrow> None | Some s \<Rightarrow> dec_fields step gs s)"
  by (induction fs arbitrary: s) (auto split: option.split)

end
