(* ===== verification/Config.thy ===== *)
theory Config
  imports Files JsonCodec
begin

text \<open>
  Package \<open>internal/config\<close>, files \<open>config.go\<close> and \<open>providers.go\<close>: the persisted configuration, its
  validation, loading with migration and recovery, and saving. The text of JSON documents
  (\<open>print\<close>, \<open>parse\<close>, \<open>nbytes\<close>) and \<open>net/url.Parse\<close> (\<open>parseURL\<close>) are parameters; file systems and
  failing system calls are those of \<open>BenchmarkCache\<close>. Values that only differ in nil or empty are one.
\<close>

section \<open>Providers (providers.go)\<close>

definition OpenAICompatibleProtocol :: gostring where
  "OpenAICompatibleProtocol = ''openai-compatible''"

record ProviderConfig =
  pf_ID :: gostring
  pf_Name :: gostring
  pf_Protocol :: gostring
  pf_BaseURL :: gostring
  pf_Enabled :: bool
  pf_CredentialRef :: gostring
  pf_AutoProbe :: "bool option"
  pf_ExcludedModelIDs :: "gostring list"

definition zeroProvider :: ProviderConfig where
  "zeroProvider = \<lparr>pf_ID = [], pf_Name = [], pf_Protocol = [], pf_BaseURL = [], pf_Enabled = False,
     pf_CredentialRef = [], pf_AutoProbe = None, pf_ExcludedModelIDs = []\<rparr>"

definition defaultProviders :: "ProviderConfig list" where
  "defaultProviders = [\<lparr>pf_ID = ''opencode'', pf_Name = ''OpenCode'', pf_Protocol = OpenAICompatibleProtocol,
     pf_BaseURL = ''https://opencode.ai/zen/v1'', pf_Enabled = True, pf_CredentialRef = [], pf_AutoProbe = None,
     pf_ExcludedModelIDs = []\<rparr>]"

definition AutoProbeEnabled :: "ProviderConfig \<Rightarrow> bool" where
  "AutoProbeEnabled p = (case pf_AutoProbe p of None \<Rightarrow> True | Some b \<Rightarrow> b)"

definition ModelExcluded :: "ProviderConfig \<Rightarrow> gostring \<Rightarrow> bool" where
  "ModelExcluded p upstreamID = list_ex (\<lambda>excluded. excluded = upstreamID) (pf_ExcludedModelIDs p)"

text \<open>What \<open>url.Parse\<close> finds.\<close>

record URL =
  u_Scheme :: gostring
  u_Host :: gostring
  u_Hostname :: gostring
  u_HasUser :: bool
  u_RawQuery :: gostring
  u_Fragment :: gostring

type_synonym url_parser = "gostring \<Rightarrow> URL option"

datatype config_error =
    NilConfig
  | InvalidSchemaVersion int
  | UnsupportedSchemaVersion int
  | EmptyBind
  | EmptyManagementBind
  | InvalidLogLevel gostring
  | InvalidPoolMode gostring
  | PinOutsidePool
  | InvalidProviderID gostring
  | DuplicateProviderID gostring
  | EmptyProviderName gostring
  | UnsupportedProtocol gostring gostring
  | NotAbsoluteURL gostring
  | URLParts gostring
  | URLScheme gostring
  | InsecureURL gostring
  | InvalidCredentialRef gostring
  | TooManyExcluded gostring
  | InvalidExcluded gostring
  | DuplicateExcluded gostring gostring
  | EmptyConfigPath
  | ReadConfig gostring
  | NewerSchema int
  | SaveConfig cache_error
  | PersistMigrated config_error
  | RecoverCorrupt cache_error
  | RestoreDefault config_error

definition is_control :: "char \<Rightarrow> bool" where
  "is_control c = ((of_char c :: nat) < 32 \<or> (of_char c :: nat) = 127)"

text \<open>\<open>strings.IndexFunc(s, unicode.IsControl) >= 0\<close>; the control characters above ASCII, U+0080 to U+009F,
  are the byte C2 followed by one from 80 to 9F.\<close>

fun has_control :: "gostring \<Rightarrow> bool" where
  "has_control [] = False"
| "has_control [c] = is_control c"
| "has_control (c # d # s) =
     (is_control c \<or> (c = CHR 0xC2 \<and> 128 \<le> (of_char d :: nat) \<and> (of_char d :: nat) < 160) \<or> has_control (d # s))"

definition trim_suffix_dot :: "gostring \<Rightarrow> gostring" where
  "trim_suffix_dot s = (if s \<noteq> [] \<and> last s = dot then butlast s else s)"

definition isLoopbackHost :: "gostring \<Rightarrow> bool" where
  "isLoopbackHost host =
     (if EqualFold_ascii (trim_suffix_dot host) ''localhost'' then True
      else case ParseIP host of None \<Rightarrow> False | Some ip \<Rightarrow> ip_IsLoopback ip)"

definition credential_ref_ok :: "ProviderConfig \<Rightarrow> bool" where
  "credential_ref_ok p =
     (let prefix = ''provider.'' @ pf_ID p @ ''.''; ref = pf_CredentialRef p;
          revision = (if HasPrefix ref prefix then drop (length prefix) ref else ref)
      in \<not> (revision = ref \<or> revision = [] \<or> \<not> list_all is_digit revision))"

fun excluded_error :: "gostring \<Rightarrow> gostring list \<Rightarrow> gostring set \<Rightarrow> config_error option" where
  "excluded_error pid [] seen = None"
| "excluded_error pid (m # ms) seen =
     (if m = [] \<or> length m > 512 \<or> has_control m then Some (InvalidExcluded pid)
      else if m \<in> seen then Some (DuplicateExcluded pid m)
      else excluded_error pid ms (insert m seen))"

definition provider_error :: "url_parser \<Rightarrow> gostring set \<Rightarrow> ProviderConfig \<Rightarrow> config_error option" where
  "provider_error parseURL seen p =
     (let pid = pf_ID p
      in if \<not> providerRe pid then Some (InvalidProviderID pid)
         else if pid \<in> seen then Some (DuplicateProviderID pid)
         else if TrimSpace (pf_Name p) = [] then Some (EmptyProviderName pid)
         else if pf_Protocol p \<noteq> OpenAICompatibleProtocol then Some (UnsupportedProtocol pid (pf_Protocol p))
         else case parseURL (pf_BaseURL p) of
           None \<Rightarrow> Some (NotAbsoluteURL pid)
         | Some u \<Rightarrow>
             if u_Scheme u = [] \<or> u_Host u = [] then Some (NotAbsoluteURL pid)
             else if u_HasUser u \<or> u_Fragment u \<noteq> [] \<or> u_RawQuery u \<noteq> [] then Some (URLParts pid)
             else if u_Scheme u \<noteq> ''https'' \<and> u_Scheme u \<noteq> ''http'' then Some (URLScheme pid)
             else if u_Scheme u = ''http'' \<and> \<not> isLoopbackHost (u_Hostname u) then Some (InsecureURL pid)
             else if pf_CredentialRef p \<noteq> [] \<and> \<not> credential_ref_ok p then Some (InvalidCredentialRef pid)
             else if length (pf_ExcludedModelIDs p) > 512 then Some (TooManyExcluded pid)
             else excluded_error pid (pf_ExcludedModelIDs p) {})"

fun validateProviders :: "url_parser \<Rightarrow> gostring set \<Rightarrow> ProviderConfig list \<Rightarrow> config_error option" where
  "validateProviders parseURL seen [] = None"
| "validateProviders parseURL seen (p # ps) =
     (case provider_error parseURL seen p of
        Some e \<Rightarrow> Some e
      | None \<Rightarrow> validateProviders parseURL (insert (pf_ID p) seen) ps)"

section \<open>The configuration (config.go)\<close>

definition CurrentSchemaVersion :: int where
  "CurrentSchemaVersion = 2"

definition CorruptConfigSuffix :: gostring where
  "CorruptConfigSuffix = ''.corrupt''"

definition maxConfigBytes :: nat where
  "maxConfigBytes = 2 ^ 20"

record PersistedConfig =
  cf_SchemaVersion :: int
  cf_SourcePath :: gostring
  cf_Bind :: gostring
  cf_ManagementBind :: gostring
  cf_LogLevel :: gostring
  cf_ModelPool :: "gostring list"
  cf_ProviderEnabled :: "(gostring \<times> bool) list"
  cf_Providers :: "ProviderConfig list"
  cf_ConfigRevision :: int
  cf_PinnedModel :: gostring
  cf_ModelPoolMode :: gostring

definition PersistedDefaults :: PersistedConfig where
  "PersistedDefaults = \<lparr>cf_SchemaVersion = CurrentSchemaVersion, cf_SourcePath = [],
     cf_Bind = ''127.0.0.1:8787'', cf_ManagementBind = ''127.0.0.1:8788'', cf_LogLevel = ''info'',
     cf_ModelPool = [], cf_ProviderEnabled = [], cf_Providers = defaultProviders, cf_ConfigRevision = 0,
     cf_PinnedModel = [], cf_ModelPoolMode = ''Automatic''\<rparr>"

definition config_validate :: "url_parser \<Rightarrow> PersistedConfig \<Rightarrow> config_error option" where
  "config_validate parseURL c =
     (if cf_SchemaVersion c < 0 then Some (InvalidSchemaVersion (cf_SchemaVersion c))
      else if cf_SchemaVersion c > CurrentSchemaVersion then Some (UnsupportedSchemaVersion (cf_SchemaVersion c))
      else if cf_Bind c = [] then Some EmptyBind
      else if cf_ManagementBind c = [] then Some EmptyManagementBind
      else if cf_LogLevel c \<notin> {''debug'', ''info'', ''warn'', ''error''} then Some (InvalidLogLevel (cf_LogLevel c))
      else if cf_ModelPoolMode c \<noteq> [] \<and> cf_ModelPoolMode c \<noteq> ''Automatic'' \<and> cf_ModelPoolMode c \<noteq> ''Manual''
      then Some (InvalidPoolMode (cf_ModelPoolMode c))
      else if cf_PinnedModel c \<noteq> [] \<and> cf_PinnedModel c \<notin> set (cf_ModelPool c) then Some PinOutsidePool
      else validateProviders parseURL {} (cf_Providers c))"

section \<open>As JSON (config.go, providers.go)\<close>

definition provider_names :: "gostring list" where
  "provider_names = [''id'', ''name'', ''protocol'', ''baseUrl'', ''enabled'', ''credentialRef'', ''autoProbe'',
     ''excludedModelIds'']"

definition provider_json :: "ProviderConfig \<Rightarrow> json" where
  "provider_json p = JObj ([(''id'', JStr (pf_ID p)), (''name'', JStr (pf_Name p)),
     (''protocol'', JStr (pf_Protocol p)), (''baseUrl'', JStr (pf_BaseURL p)), (''enabled'', JBool (pf_Enabled p))] @
     omit_if (pf_CredentialRef p = []) ''credentialRef'' (JStr (pf_CredentialRef p)) @
     omit_if (pf_AutoProbe p = None) ''autoProbe'' (JBool (the (pf_AutoProbe p))) @
     omit_if (pf_ExcludedModelIDs p = []) ''excludedModelIds'' (enc_strings (pf_ExcludedModelIDs p)))"

definition provider_field :: "gostring \<Rightarrow> json \<Rightarrow> ProviderConfig \<Rightarrow> ProviderConfig option" where
  "provider_field k j p = (case field_named provider_names k of
       None \<Rightarrow> Some p
     | Some n \<Rightarrow>
         if n = ''id'' then map_option (\<lambda>x. p\<lparr>pf_ID := x\<rparr>) (dec_string (pf_ID p) j)
         else if n = ''name'' then map_option (\<lambda>x. p\<lparr>pf_Name := x\<rparr>) (dec_string (pf_Name p) j)
         else if n = ''protocol'' then map_option (\<lambda>x. p\<lparr>pf_Protocol := x\<rparr>) (dec_string (pf_Protocol p) j)
         else if n = ''baseUrl'' then map_option (\<lambda>x. p\<lparr>pf_BaseURL := x\<rparr>) (dec_string (pf_BaseURL p) j)
         else if n = ''enabled'' then map_option (\<lambda>x. p\<lparr>pf_Enabled := x\<rparr>) (dec_bool (pf_Enabled p) j)
         else if n = ''credentialRef''
         then map_option (\<lambda>x. p\<lparr>pf_CredentialRef := x\<rparr>) (dec_string (pf_CredentialRef p) j)
         else if n = ''autoProbe''
         then map_option (\<lambda>x. p\<lparr>pf_AutoProbe := x\<rparr>) (dec_ptr dec_bool False (pf_AutoProbe p) j)
         else map_option (\<lambda>x. p\<lparr>pf_ExcludedModelIDs := x\<rparr>) (dec_list dec_string [] (pf_ExcludedModelIDs p) j))"

definition dec_provider :: "ProviderConfig \<Rightarrow> json \<Rightarrow> ProviderConfig option" where
  "dec_provider old j = dec_struct provider_field old j"

definition config_names :: "gostring list" where
  "config_names = [''schemaVersion'', ''bind'', ''managementBind'', ''logLevel'', ''modelPool'', ''providerEnabled'',
     ''providers'', ''configRevision'', ''pinnedModel'', ''modelPoolMode'']"

definition config_json :: "PersistedConfig \<Rightarrow> json" where
  "config_json c = JObj ([(''schemaVersion'', enc_int (cf_SchemaVersion c)), (''bind'', JStr (cf_Bind c)),
     (''managementBind'', JStr (cf_ManagementBind c)), (''logLevel'', JStr (cf_LogLevel c))] @
     omit_if (cf_ModelPool c = []) ''modelPool'' (enc_strings (cf_ModelPool c)) @
     omit_if (cf_ProviderEnabled c = []) ''providerEnabled''
       (JObj (map (\<lambda>(k, b). (k, JBool b)) (cf_ProviderEnabled c))) @
     omit_if (cf_Providers c = []) ''providers'' (JArr (map provider_json (cf_Providers c))) @
     omit_if (cf_ConfigRevision c = 0) ''configRevision'' (enc_int (cf_ConfigRevision c)) @
     omit_if (cf_PinnedModel c = []) ''pinnedModel'' (JStr (cf_PinnedModel c)) @
     omit_if (cf_ModelPoolMode c = []) ''modelPoolMode'' (JStr (cf_ModelPoolMode c)))"

definition config_field :: "gostring \<Rightarrow> json \<Rightarrow> PersistedConfig \<Rightarrow> PersistedConfig option" where
  "config_field k j c = (case field_named config_names k of
       None \<Rightarrow> Some c
     | Some n \<Rightarrow>
         if n = ''schemaVersion''
         then map_option (\<lambda>x. c\<lparr>cf_SchemaVersion := x\<rparr>) (dec_int (cf_SchemaVersion c) j)
         else if n = ''bind'' then map_option (\<lambda>x. c\<lparr>cf_Bind := x\<rparr>) (dec_string (cf_Bind c) j)
         else if n = ''managementBind''
         then map_option (\<lambda>x. c\<lparr>cf_ManagementBind := x\<rparr>) (dec_string (cf_ManagementBind c) j)
         else if n = ''logLevel'' then map_option (\<lambda>x. c\<lparr>cf_LogLevel := x\<rparr>) (dec_string (cf_LogLevel c) j)
         else if n = ''modelPool''
         then map_option (\<lambda>x. c\<lparr>cf_ModelPool := x\<rparr>) (dec_list dec_string [] (cf_ModelPool c) j)
         else if n = ''providerEnabled''
         then map_option (\<lambda>x. c\<lparr>cf_ProviderEnabled := x\<rparr>) (dec_map dec_bool False (cf_ProviderEnabled c) j)
         else if n = ''providers''
         then map_option (\<lambda>x. c\<lparr>cf_Providers := x\<rparr>) (dec_list dec_provider zeroProvider (cf_Providers c) j)
         else if n = ''configRevision''
         then map_option (\<lambda>x. c\<lparr>cf_ConfigRevision := x\<rparr>) (dec_int (cf_ConfigRevision c) j)
         else if n = ''pinnedModel'' then map_option (\<lambda>x. c\<lparr>cf_PinnedModel := x\<rparr>) (dec_string (cf_PinnedModel c) j)
         else map_option (\<lambda>x. c\<lparr>cf_ModelPoolMode := x\<rparr>) (dec_string (cf_ModelPoolMode c) j))"

definition dec_config :: "PersistedConfig \<Rightarrow> json \<Rightarrow> PersistedConfig option" where
  "dec_config old j = dec_struct config_field old j"

section \<open>Where the files are (config.go)\<close>

text \<open>The per-user directories of the operating system (\<open>None\<close> when it reports none) and \<open>filepath.Join\<close>
  are given.\<close>

definition ApplicationName :: gostring where
  "ApplicationName = ''Free-Model-Router''"

type_synonym path_join = "gostring list \<Rightarrow> gostring"

definition ConfigDir :: "path_join \<Rightarrow> gostring option \<Rightarrow> gostring option" where
  "ConfigDir join userConfigDir = map_option (\<lambda>base. join [base, ApplicationName]) userConfigDir"

definition CacheDir :: "path_join \<Rightarrow> gostring option \<Rightarrow> gostring option" where
  "CacheDir join userCacheDir = map_option (\<lambda>base. join [base, ApplicationName]) userCacheDir"

definition DefaultPath :: "path_join \<Rightarrow> gostring option \<Rightarrow> gostring option" where
  "DefaultPath join userConfigDir = map_option (\<lambda>dir. join [dir, ''config.json'']) (ConfigDir join userConfigDir)"

definition DefaultCachePath :: "path_join \<Rightarrow> gostring option \<Rightarrow> gostring \<Rightarrow> gostring option" where
  "DefaultCachePath join userCacheDir name0 =
     (let name = (if TrimSpace name0 = [] then ''cache.json'' else TrimSpace name0)
      in if name = ''.'' \<or> name = ''..'' \<or> list_ex (\<lambda>c. c = CHR ''/'' \<or> c = CHR 0x5C) name then None
         else map_option (\<lambda>dir. join [dir, name]) (CacheDir join userCacheDir))"

definition DefaultUsagePath :: "path_join \<Rightarrow> gostring option \<Rightarrow> gostring option" where
  "DefaultUsagePath join userConfigDir =
     map_option (\<lambda>dir. join [dir, ''logs'', ''usage.jsonl'']) (ConfigDir join userConfigDir)"

section \<open>Saving (config.go)\<close>

text \<open>The outcomes of the system calls of a write; \<open>we_chmodDir\<close> holds as well when the directory is
  the current one, which is left alone.\<close>

record 'c WriteEnv =
  we_chmodDir :: bool
  we_save :: "'c SaveEnv"

definition atomicWriteFile ::
  "'c \<Rightarrow> 'c WriteEnv \<Rightarrow> gostring \<Rightarrow> 'c \<Rightarrow> 'c fs \<Rightarrow> cache_error option \<times> 'c fs list" where
  "atomicWriteFile noBytes wenv path data f0 =
     (let env = we_save wenv;
          tmp = ev_tmpName env;
          f1 = f0(tmp \<mapsto> noBytes);
          f2 = f0(tmp \<mapsto> ev_partial env);
          f3 = f0(tmp \<mapsto> data);
          (err, fss) =
            (if \<not> ev_chmodTmp env then (Some (OSError ''protect temp file''), [f0, f1])
             else if \<not> ev_write env then (Some (OSError ''write temp file''), [f0, f1, f2])
             else if \<not> ev_sync env then (Some (OSError ''sync temp file''), [f0, f1, f2, f3])
             else if \<not> ev_close env then (Some (OSError ''close temp file''), [f0, f1, f2, f3])
             else case replaceFile env tmp path f3 of
               (Some e, fss) \<Rightarrow> (Some e, [f0, f1, f2, f3] @ fss)
             | (None, fss) \<Rightarrow>
                 (if \<not> ev_protect env then Some (OSError ''protect file'') else None, [f0, f1, f2, f3] @ fss))
      in if TrimSpace path = [] then (Some EmptyPath, [f0])
         else if \<not> ev_mkdir env then (Some (OSError ''create directory''), [f0])
         else if \<not> we_chmodDir wenv then (Some (OSError ''protect directory''), [f0])
         else if \<not> ev_create env then (Some (OSError ''create temp file''), [f0])
         else with_cleanup env err fss)"

text \<open>\<open>writeAll\<close>: each call of \<open>Write\<close> takes some bytes or fails; the result and what was written.\<close>

datatype write_result = Wrote nat | WriteFailed gostring

fun writeAll :: "write_result list \<Rightarrow> gostring \<Rightarrow> gostring \<Rightarrow> (gostring option \<times> gostring) option" where
  "writeAll ws w data =
     (if data = [] then Some (None, w)
      else case ws of
        [] \<Rightarrow> None
      | WriteFailed e # _ \<Rightarrow> Some (Some e, w)
      | Wrote n # ws \<Rightarrow>
          if n = 0 then Some (Some ''short write'', w) else writeAll ws (w @ take n data) (drop n data))"

declare writeAll.simps [simp del]

definition to_save :: "PersistedConfig \<Rightarrow> PersistedConfig" where
  "to_save c =
     (let c = (if cf_SchemaVersion c = 0 then c\<lparr>cf_SchemaVersion := CurrentSchemaVersion\<rparr> else c);
          c = (if cf_ManagementBind c = [] then c\<lparr>cf_ManagementBind := cf_ManagementBind PersistedDefaults\<rparr> else c)
      in if cf_ModelPoolMode c = [] then c\<lparr>cf_ModelPoolMode := cf_ModelPoolMode PersistedDefaults\<rparr> else c)"

definition SavePersisted ::
  "url_parser \<Rightarrow> (json \<Rightarrow> 'c) \<Rightarrow> 'c \<Rightarrow> 'c WriteEnv \<Rightarrow> gostring \<Rightarrow> PersistedConfig option \<Rightarrow> 'c fs \<Rightarrow>
   config_error option \<times> 'c fs list" where
  "SavePersisted parseURL print noBytes env path cfg f =
     (case cfg of
        None \<Rightarrow> (Some NilConfig, [f])
      | Some c \<Rightarrow>
          (let c = to_save c
           in case config_validate parseURL c of
             Some e \<Rightarrow> (Some e, [f])
           | None \<Rightarrow> map_prod (map_option SaveConfig) id (atomicWriteFile noBytes env path (print (config_json c)) f)))"

section \<open>Loading (config.go)\<close>

record 'c LoadConfigEnv =
  lc_read :: bool
  lc_stat :: "gostring \<Rightarrow> bool"
  lc_rename :: bool
  lc_save :: "'c WriteEnv"

definition os_Stat :: "bool \<Rightarrow> gostring \<Rightarrow> 'c fs \<Rightarrow> cache_error option" where
  "os_Stat ok p f = (if \<not> ok then Some (OSError ''stat'') else if f p = None then Some NotExist else None)"

text \<open>The first free name \<open>backup.n\<close>; the search ends only when it finds one or a \<open>Stat\<close> fails.\<close>

partial_function (option) free_name ::
  "(gostring \<Rightarrow> bool) \<Rightarrow> gostring \<Rightarrow> 'c fs \<Rightarrow> nat \<Rightarrow> (cache_error + gostring) option" where
  "free_name stat_ok backup f n =
     (let candidate = backup @ ''.'' @ Itoa (int n)
      in case os_Stat (stat_ok candidate) candidate f of
        Some NotExist \<Rightarrow> Some (Inr candidate)
      | Some e \<Rightarrow> Some (Inl e)
      | None \<Rightarrow> free_name stat_ok backup f (n + 1))"

definition quarantineCorruptConfig ::
  "'c LoadConfigEnv \<Rightarrow> gostring \<Rightarrow> 'c fs \<Rightarrow> ((cache_error + gostring) \<times> 'c fs) option" where
  "quarantineCorruptConfig env path f =
     (let backup = path @ CorruptConfigSuffix
      in case (case os_Stat (lc_stat env backup) backup f of
                 None \<Rightarrow> free_name (lc_stat env) backup f 1
               | Some NotExist \<Rightarrow> Some (Inr backup)
               | Some e \<Rightarrow> Some (Inl e)) of
           None \<Rightarrow> None
         | Some (Inl e) \<Rightarrow> Some (Inl e, f)
         | Some (Inr backup) \<Rightarrow>
             (case os_Rename (lc_rename env) path backup f of
                (Some e, f') \<Rightarrow> Some (Inl e, f')
              | (None, f') \<Rightarrow> Some (Inr backup, f')))"

text \<open>The results of loading: the configuration or an error, and the file systems gone through.\<close>

type_synonym 'c loaded = "((config_error + PersistedConfig) \<times> 'c fs list) option"

definition recoverCorruptConfig ::
  "url_parser \<Rightarrow> (json \<Rightarrow> 'c) \<Rightarrow> 'c \<Rightarrow> 'c LoadConfigEnv \<Rightarrow> gostring \<Rightarrow> 'c fs \<Rightarrow> 'c loaded" where
  "recoverCorruptConfig parseURL print noBytes env path f =
     (case quarantineCorruptConfig env path f of
        None \<Rightarrow> None
      | Some (Inl e, f1) \<Rightarrow> Some (Inl (RecoverCorrupt e), [f, f1])
      | Some (Inr _, f1) \<Rightarrow>
          (let cfg = PersistedDefaults\<lparr>cf_SourcePath := path\<rparr>
           in case SavePersisted parseURL print noBytes (lc_save env) path (Some cfg) f1 of
             (Some e, fss) \<Rightarrow> Some (Inl (RestoreDefault e), [f, f1] @ fss)
           | (None, fss) \<Rightarrow> Some (Inr cfg, [f, f1] @ fss)))"

definition LoadPersisted ::
  "url_parser \<Rightarrow> (json \<Rightarrow> 'c) \<Rightarrow> ('c \<Rightarrow> json option) \<Rightarrow> ('c \<Rightarrow> nat) \<Rightarrow> 'c \<Rightarrow> 'c LoadConfigEnv \<Rightarrow> gostring \<Rightarrow>
   'c fs \<Rightarrow> 'c loaded" where
  "LoadPersisted parseURL print parse nbytes noBytes env path f =
     (if TrimSpace path = [] then Some (Inl EmptyConfigPath, [f])
      else let cfg = PersistedDefaults\<lparr>cf_SourcePath := path\<rparr>
        in case os_ReadFile (lc_read env) path f of
          Inl NotExist \<Rightarrow> Some (Inr cfg, [f])
        | Inl e \<Rightarrow> Some (Inl (ReadConfig path), [f])
        | Inr data \<Rightarrow>
            if nbytes data > maxConfigBytes then recoverCorruptConfig parseURL print noBytes env path f
            else case Option.bind (parse data) (dec_config (cfg\<lparr>cf_SchemaVersion := 0\<rparr>)) of
              None \<Rightarrow> recoverCorruptConfig parseURL print noBytes env path f
            | Some cfg \<Rightarrow>
                if cf_SchemaVersion cfg > CurrentSchemaVersion
                then Some (Inl (NewerSchema (cf_SchemaVersion cfg)), [f])
                else let cfg = (if cf_SchemaVersion cfg < 2 \<and> cf_Providers cfg = []
                       then cfg\<lparr>cf_Providers := defaultProviders\<rparr> else cfg)
                  in case config_validate parseURL cfg of
                    Some e \<Rightarrow> Some (Inl e, [f])
                  | None \<Rightarrow>
                      let migrated = cf_SchemaVersion cfg \<noteq> CurrentSchemaVersion;
                          cfg = cfg\<lparr>cf_SchemaVersion := CurrentSchemaVersion\<rparr>
                      in if \<not> migrated then Some (Inr cfg, [f])
                         else case SavePersisted parseURL print noBytes (lc_save env) path (Some cfg) f of
                           (Some e, fss) \<Rightarrow> Some (Inl (PersistMigrated e), fss)
                         | (None, fss) \<Rightarrow> Some (Inr cfg, fss))"

section \<open>Every write is atomic\<close>

lemma staged_atomicWriteFile:
  "staged_write (\<lambda>env p d f. atomicWriteFile nb \<lparr>we_chmodDir = chmodDir, we_save = env\<rparr> p d f) nb"
  unfolding staged_write_def
  by (simp add: atomicWriteFile_def write_and_replace_def with_cleanup_def Let_def split: prod.split option.split)

lemma durable_atomicWriteFile: "durable_file (atomicWriteFile (nb :: 'c)) (\<lambda>env. ev_tmpName (we_save env))"
proof
  fix env :: "'c WriteEnv" and p q and d old :: 'c and f g :: "'c fs"
  obtain c e where env: "env = \<lparr>we_chmodDir = c, we_save = e\<rparr>" by (cases env) auto
  note s = staged_atomicWriteFile [of nb c]
  show "snd (atomicWriteFile nb env p d f) \<noteq> []"
    using staged_ne [OF s, of e p d f] env by simp
  show "recoverable p g \<in> {Some old, Some d}"
    if "ev_tmpName (we_save env) \<noteq> p" "ev_tmpName (we_save env) \<noteq> bak p" "f p = Some old"
      "g \<in> set (snd (atomicWriteFile nb env p d f))"
    using staged_keeps [OF s, of e p f old g d] env that by simp
  show "last (snd (atomicWriteFile nb env p d f)) p = Some d"
    if "ev_tmpName (we_save env) \<noteq> p" "ev_tmpName (we_save env) \<noteq> bak p"
      "fst (atomicWriteFile nb env p d f) = None"
    using staged_installs [OF s, of e p d f] env that by simp
  show "g q = f q"
    if "q \<notin> {p, bak p, ev_tmpName (we_save env)}" "g \<in> set (snd (atomicWriteFile nb env p d f))"
    using staged_others [OF s, of q p e g d f] env that by simp
qed

interpretation config_file: durable_file "atomicWriteFile nb" "\<lambda>env. ev_tmpName (we_save env)" for nb
  by (rule durable_atomicWriteFile)

text \<open>\<open>writeAll\<close> writes a prefix of the data, all of it when it reports success.\<close>

lemma writeAll_step:
  "writeAll ws w [] = Some (None, w)"
  "data \<noteq> [] \<Longrightarrow> writeAll [] w data = None"
  "data \<noteq> [] \<Longrightarrow> writeAll (WriteFailed e # ws) w data = Some (Some e, w)"
  "data \<noteq> [] \<Longrightarrow> writeAll (Wrote n # ws) w data =
     (if n = 0 then Some (Some ''short write'', w) else writeAll ws (w @ take n data) (drop n data))"
  by (simp_all add: writeAll.simps [of ws] writeAll.simps [of "[]"] writeAll.simps [of "x # ws" for x])

lemma writeAll_prefix:
  "writeAll ws w data = Some (e, w') \<Longrightarrow> \<exists>n. w' = w @ take n data \<and> (e = None \<longrightarrow> length data \<le> n)"
proof (induction ws arbitrary: w data)
  case Nil
  then show ?case by (cases "data = []") (auto simp: writeAll_step)
next
  case (Cons r ws)
  show ?case
  proof (cases "data = []")
    case True
    with Cons.prems show ?thesis by (simp add: writeAll_step)
  next
    case ne: False
    show ?thesis
    proof (cases r)
      case (WriteFailed x)
      with Cons.prems ne show ?thesis by (auto simp: writeAll_step intro: exI [of _ 0])
    next
      case (Wrote n)
      show ?thesis
      proof (cases "n = 0")
        case True
        with Cons.prems ne Wrote show ?thesis by (auto simp: writeAll_step intro: exI [of _ 0])
      next
        case False
        with Cons.prems ne Wrote have "writeAll ws (w @ take n data) (drop n data) = Some (e, w')"
          by (simp add: writeAll_step)
        from Cons.IH [OF this] obtain m where
          "w' = w @ take n data @ take m (drop n data)" "e = None \<longrightarrow> length (drop n data) \<le> m" by auto
        then show ?thesis by (intro exI [of _ "n + m"]) (auto simp: take_add)
      qed
    qed
  qed
qed

section \<open>Loading ends and keeps what it found\<close>

lemma Itoa_nat_inj: "Itoa (int m) = Itoa (int n) \<Longrightarrow> m = n"
  by (metis Itoa_def digits_value_nat_digits nat_int of_nat_less_0_iff)

lemma free_candidate:
  assumes "finite (dom f)"
  shows "\<exists>m\<ge>n. f (b @ ''.'' @ Itoa (int m)) = None"
proof (rule ccontr)
  assume "\<not> ?thesis"
  then have "(\<lambda>m. b @ ''.'' @ Itoa (int m)) ` {n..} \<subseteq> dom f" by auto
  moreover have "inj_on (\<lambda>m. b @ ''.'' @ Itoa (int m)) {n..}"
    by (auto intro!: inj_onI dest: Itoa_nat_inj)
  ultimately have "finite {n..}" using assms by (meson finite_imageD finite_subset)
  then show False using infinite_Ici by blast
qed

lemma free_name_finds:
  assumes "f (b @ ''.'' @ Itoa (int m)) = None" and "n \<le> m"
  shows "\<exists>r. free_name st b f n = Some r \<and> (\<forall>q. r = Inr q \<longrightarrow> f q = None \<and> (\<exists>k. q = b @ ''.'' @ Itoa (int k)))"
  using assms
proof (induction "m - n" arbitrary: n)
  case 0
  then have "m = n" by simp
  with 0 show ?case
    by (subst free_name.simps) (auto simp: os_Stat_def Let_def split: option.splits)
next
  case (Suc d)
  then have "d = m - (n + 1)" and "n + 1 \<le> m" by auto
  from Suc.hyps(1) [OF this(1) Suc.prems(1) this(2)] show ?case
    by (subst free_name.simps)
      (auto simp: os_Stat_def Let_def add.commute split: option.splits intro: exI [of _ n])
qed

lemma quarantine_total:
  assumes "finite (dom f)"
  obtains r f' where "quarantineCorruptConfig env path f = Some (r, f')"
    and "isl r \<and> f' = f \<or> (\<exists>q. r = Inr q \<and> f q = None \<and> take (length (path @ CorruptConfigSuffix)) q = path @ CorruptConfigSuffix
      \<and> f' = (f(path := None))(q := f path) \<and> f path \<noteq> None)"
proof -
  let ?b = "path @ CorruptConfigSuffix"
  define s where "s = (case os_Stat (lc_stat env ?b) ?b f of
       None \<Rightarrow> free_name (lc_stat env) ?b f 1 | Some NotExist \<Rightarrow> Some (Inr ?b) | Some e \<Rightarrow> Some (Inl e))"
  obtain m where "m \<ge> 1" "f (?b @ ''.'' @ Itoa (int m)) = None"
    using free_candidate [OF assms, of 1 ?b] by auto
  from free_name_finds [where f = f and b = ?b and m = m, OF this(2,1), of "lc_stat env"]
  obtain r0 where free: "free_name (lc_stat env) ?b f 1 = Some r0"
    and r0: "\<And>q. r0 = Inr q \<Longrightarrow> f q = None \<and> take (length ?b) q = ?b"
    by force
  consider "\<not> lc_stat env ?b" | "lc_stat env ?b" "f ?b = None" | "lc_stat env ?b" "f ?b \<noteq> None" by blast
  then have "\<exists>r. s = Some r \<and> (\<forall>q. r = Inr q \<longrightarrow> f q = None \<and> take (length ?b) q = ?b)"
  proof cases
    case 3
    with free have "s = Some r0" by (auto simp: s_def os_Stat_def)
    with r0 show ?thesis by blast
  qed (simp_all add: s_def os_Stat_def)
  then obtain r where "s = Some r" and r: "\<And>q. r = Inr q \<Longrightarrow> f q = None \<and> take (length ?b) q = ?b" by blast
  show ?thesis
  proof (cases r)
    case (Inl e)
    then show ?thesis
      using that [of "Inl e" f] \<open>s = Some r\<close> unfolding quarantineCorruptConfig_def s_def by simp
  next
    case (Inr q)
    show ?thesis
    proof (cases "fst (os_Rename (lc_rename env) path q f)")
      case None
      then have "quarantineCorruptConfig env path f = Some (Inr q, (f(path := None))(q := f path))" "f path \<noteq> None"
        using \<open>s = Some r\<close> Inr unfolding quarantineCorruptConfig_def s_def
        by (auto simp: os_Rename_def Let_def split: option.splits if_splits)
      then show ?thesis using that r [OF Inr] by blast
    next
      case (Some e)
      then have "quarantineCorruptConfig env path f = Some (Inl e, f)"
        using \<open>s = Some r\<close> Inr unfolding quarantineCorruptConfig_def s_def
        by (auto simp: os_Rename_def Let_def split: option.splits if_splits)
      then show ?thesis using that [of "Inl e" f] by simp
    qed
  qed
qed

section \<open>Reading back what was written\<close>

lemma config_field_names:
  "field_named config_names ''schemaVersion'' = Some ''schemaVersion''"
  "field_named config_names ''bind'' = Some ''bind''"
  "field_named config_names ''managementBind'' = Some ''managementBind''"
  "field_named config_names ''logLevel'' = Some ''logLevel''"
  "field_named config_names ''modelPool'' = Some ''modelPool''"
  "field_named config_names ''providerEnabled'' = Some ''providerEnabled''"
  "field_named config_names ''providers'' = Some ''providers''"
  "field_named config_names ''configRevision'' = Some ''configRevision''"
  "field_named config_names ''pinnedModel'' = Some ''pinnedModel''"
  "field_named config_names ''modelPoolMode'' = Some ''modelPoolMode''"
  by code_simp+

lemma provider_field_names:
  "field_named provider_names ''id'' = Some ''id''"
  "field_named provider_names ''name'' = Some ''name''"
  "field_named provider_names ''protocol'' = Some ''protocol''"
  "field_named provider_names ''baseUrl'' = Some ''baseUrl''"
  "field_named provider_names ''enabled'' = Some ''enabled''"
  "field_named provider_names ''credentialRef'' = Some ''credentialRef''"
  "field_named provider_names ''autoProbe'' = Some ''autoProbe''"
  "field_named provider_names ''excludedModelIds'' = Some ''excludedModelIds''"
  by code_simp+

lemma dec_omit:
  "dec_fields step (omit_if b k j @ fs) s =
     (if b then dec_fields step fs s else case step k j s of None \<Rightarrow> None | Some s \<Rightarrow> dec_fields step fs s)"
  "dec_fields step (omit_if b k j) s = (if b then Some s else case step k j s of None \<Rightarrow> None | Some s \<Rightarrow> Some s)"
  by (simp_all add: omit_if_def split: option.split)

definition fresh_provider :: "ProviderConfig \<Rightarrow> bool" where
  "fresh_provider p \<longleftrightarrow> pf_CredentialRef p = [] \<and> pf_AutoProbe p = None \<and> pf_ExcludedModelIDs p = []"

lemma dec_provider_json: "fresh_provider old \<Longrightarrow> dec_provider old (provider_json p) = Some p"
  by (cases old, cases p) (simp add: fresh_provider_def dec_provider_def provider_json_def dec_struct_def
      dec_fields_append dec_omit provider_field_def provider_field_names dec_ptr_def split: option.split)

lemma dec_providers_json:
  "dec_list dec_provider zeroProvider defaultProviders (JArr (map provider_json ps)) = Some ps"
  unfolding dec_list_def json.case
  by (rule dec_elems_map [where P = fresh_provider and Q = "\<lambda>_. True"])
    (simp_all add: dec_provider_json fresh_provider_def zeroProvider_def defaultProviders_def list_all_iff)

lemma dec_enabled_json:
  "distinct (map fst kvs) \<Longrightarrow> dec_map dec_bool False [] (JObj (map (\<lambda>(k, b). (k, JBool b)) kvs)) = Some kvs"
  using dec_map_enc [of dec_bool False JBool "[]" kvs] by (simp add: dec_map_def)

text \<open>The configuration a document of \<open>c\<close> decodes to: an empty provider list was omitted, so the
  default one stays.\<close>

definition reloaded :: "gostring \<Rightarrow> PersistedConfig \<Rightarrow> PersistedConfig" where
  "reloaded path c = c\<lparr>cf_SourcePath := path,
     cf_Providers := (if cf_Providers c = [] then defaultProviders else cf_Providers c)\<rparr>"

definition representable :: "PersistedConfig \<Rightarrow> bool" where
  "representable c \<longleftrightarrow> distinct (map fst (cf_ProviderEnabled c)) \<and>
     - (2 ^ 63) \<le> cf_ConfigRevision c \<and> cf_ConfigRevision c < 2 ^ 63"

lemma dec_config_json:
  assumes "representable c" and "0 \<le> cf_SchemaVersion c" and "cf_SchemaVersion c \<le> 2" and "cf_ModelPoolMode c \<noteq> []"
  shows "dec_config (PersistedDefaults\<lparr>cf_SourcePath := path, cf_SchemaVersion := 0\<rparr>) (config_json c) =
    Some (reloaded path c)"
proof -
  have "dec_int 0 (enc_int (cf_SchemaVersion c)) = Some (cf_SchemaVersion c)"
    "dec_int 0 (enc_int (cf_ConfigRevision c)) = Some (cf_ConfigRevision c)"
    using assms by (simp_all add: representable_def)
  moreover have "dec_map dec_bool False [] (JObj (map (\<lambda>(k, b). (k, JBool b)) (cf_ProviderEnabled c))) = Some (cf_ProviderEnabled c)"
    using assms(1) by (intro dec_enabled_json) (simp add: representable_def)
  ultimately show ?thesis
    using assms(4) by (cases c) (simp add: dec_config_def config_json_def dec_struct_def dec_fields_append dec_omit
      config_field_def config_field_names dec_providers_json PersistedDefaults_def reloaded_def)
qed

section \<open>Properties\<close>

text \<open>The built-in provider's address is one \<open>url.Parse\<close> takes.\<close>

definition default_url_ok :: "url_parser \<Rightarrow> bool" where
  "default_url_ok parseURL \<longleftrightarrow> (case parseURL ''https://opencode.ai/zen/v1'' of
       None \<Rightarrow> False
     | Some u \<Rightarrow> u_Scheme u = ''https'' \<and> u_Host u \<noteq> [] \<and> \<not> u_HasUser u \<and> u_RawQuery u = [] \<and> u_Fragment u = [])"

lemma validate_default_providers: "default_url_ok parseURL \<Longrightarrow> validateProviders parseURL {} defaultProviders = None"
proof -
  have a: "providerRe ''opencode''" "TrimSpace ''OpenCode'' \<noteq> []" by code_simp+
  assume "default_url_ok parseURL"
  then obtain u where "parseURL ''https://opencode.ai/zen/v1'' = Some u" "u_Scheme u = ''https''" "u_Host u \<noteq> []"
    "\<not> u_HasUser u" "u_RawQuery u = []" "u_Fragment u = []"
    by (auto simp: default_url_ok_def split: option.splits)
  then show ?thesis
    using a by (simp add: defaultProviders_def provider_error_def)
qed

lemma PersistedDefaults_valid:
  "default_url_ok parseURL \<Longrightarrow> config_validate parseURL (PersistedDefaults\<lparr>cf_SourcePath := path\<rparr>) = None"
  by (simp add: PersistedDefaults_def config_validate_def CurrentSchemaVersion_def validate_default_providers)

lemma config_validate_reloaded:
  "config_validate parseURL c = None \<Longrightarrow> default_url_ok parseURL \<Longrightarrow> config_validate parseURL (reloaded path c) = None"
  by (auto simp: config_validate_def reloaded_def validate_default_providers split: if_splits)

lemma to_save_simps [simp]:
  "cf_ModelPoolMode (to_save c) \<noteq> []" "cf_ManagementBind (to_save c) \<noteq> []"
  "representable (to_save c) = representable c"
  "cf_SchemaVersion (to_save c) = (if cf_SchemaVersion c = 0 then 2 else cf_SchemaVersion c)"
  by (simp_all add: to_save_def Let_def PersistedDefaults_def representable_def CurrentSchemaVersion_def)

lemma SavePersisted_cases:
  obtains e where "SavePersisted parseURL print nb env path (Some c) f = (Some e, [f])"
    "config_validate parseURL (to_save c) = Some e"
  | "config_validate parseURL (to_save c) = None"
    "SavePersisted parseURL print nb env path (Some c) f =
      map_prod (map_option SaveConfig) id (atomicWriteFile nb env path (print (config_json (to_save c))) f)"
  by (cases "config_validate parseURL (to_save c)") (simp_all add: SavePersisted_def)

lemma atomicWriteFile_path: "fst (atomicWriteFile nb env path d f) = None \<Longrightarrow> TrimSpace path \<noteq> []"
  by (auto simp: atomicWriteFile_def Let_def)

text \<open>C24: what a successful save wrote is what the next load returns, and the load leaves the files alone:
  the saved configuration with its defaults filled in and the path it came from, except that an empty
  provider list, which the document leaves out, comes back as the default provider. This holds within four
  limits: the document has at most 1 MiB (a save has no limit, but a load takes a larger file for a corrupt
  one); the configuration is not of the old schema 1 (a save writes that as it is, the load migrates it);
  no provider is listed twice in its enabled map and its revision is an \<open>int64\<close>; and the JSON library
  reads back the document it printed (texts that are not UTF-8 it would replace).\<close>

theorem Save_Load_roundtrip:
  assumes saved: "fst (SavePersisted parseURL print nb env path (Some c) f) = None"
    and tmp: "ev_tmpName (we_save env) \<notin> {path, bak path}"
    and json: "parse (print (config_json (to_save c))) = Some (config_json (to_save c))"
    and small: "nbytes (print (config_json (to_save c))) \<le> maxConfigBytes"
    and c: "representable c" "cf_SchemaVersion c \<noteq> 1" and url: "default_url_ok parseURL" and "lc_read lenv"
  shows "LoadPersisted parseURL print parse nbytes nb lenv path
      (last (snd (SavePersisted parseURL print nb env path (Some c) f))) =
    Some (Inr (reloaded path (to_save c)), [last (snd (SavePersisted parseURL print nb env path (Some c) f))])"
proof (cases rule: SavePersisted_cases [of parseURL print nb env path c f])
  case 2
  let ?d = "print (config_json (to_save c))"
  let ?g = "last (snd (SavePersisted parseURL print nb env path (Some c) f))"
  from saved 2 have w: "fst (atomicWriteFile nb env path ?d f) = None" by simp
  have "?g path = Some ?d" using config_file.installs [OF _ _ w] tmp 2 by simp
  moreover from 2(1) have v: "cf_SchemaVersion (to_save c) = 2"
    using c(2) by (auto simp: config_validate_def CurrentSchemaVersion_def split: if_splits)
  moreover have "dec_config (PersistedDefaults\<lparr>cf_SourcePath := path, cf_SchemaVersion := 0\<rparr>) (config_json (to_save c)) =
      Some (reloaded path (to_save c))"
    using dec_config_json [of "to_save c"] c(1) v by simp
  moreover have "reloaded path (to_save c)\<lparr>cf_SchemaVersion := 2\<rparr> = reloaded path (to_save c)"
    using v by (simp add: reloaded_def)
  ultimately show ?thesis
    using small json url \<open>lc_read lenv\<close> atomicWriteFile_path [OF w] config_validate_reloaded [OF 2(1) url, of path]
    by (simp add: LoadPersisted_def Let_def os_ReadFile_def CurrentSchemaVersion_def reloaded_def)
qed (use saved in simp)

text \<open>The content \<open>d\<close> is still in the configuration file, its backup or a quarantined copy.\<close>

definition quarantine_name :: "gostring \<Rightarrow> gostring \<Rightarrow> bool" where
  "quarantine_name path q \<longleftrightarrow> take (length (path @ CorruptConfigSuffix)) q = path @ CorruptConfigSuffix"

definition kept_copy :: "gostring \<Rightarrow> 'c \<Rightarrow> 'c fs \<Rightarrow> bool" where
  "kept_copy path d g \<longleftrightarrow> (\<exists>q. g q = Some d \<and> (q = path \<or> q = bak path \<or> quarantine_name path q))"

lemma quarantine_name_neq: "quarantine_name path q \<Longrightarrow> q \<noteq> path \<and> q \<noteq> bak path"
  by (auto simp: quarantine_name_def CorruptConfigSuffix_def bak_def)

lemma kept_copy_path: "f path = Some d \<Longrightarrow> kept_copy path d f"
  by (auto simp: kept_copy_def)

lemma kept_copy_recoverable: "recoverable path g = Some d \<Longrightarrow> kept_copy path d g"
  by (auto simp: kept_copy_def recoverable_def split: option.splits)

lemma SavePersisted_others:
  assumes "q \<notin> {path, bak path, ev_tmpName (we_save env)}"
    and "g \<in> set (snd (SavePersisted parseURL print nb env path (Some c) f))"
  shows "g q = f q"
proof (cases rule: SavePersisted_cases [of parseURL print nb env path c f])
  case 2
  then show ?thesis using config_file.others [OF assms(1)] assms(2) by simp
qed (use assms(2) in simp)

lemma recoverCorruptConfig_safe:
  assumes "finite (dom f)" and d: "f path = Some d" and t: "\<not> quarantine_name path (ev_tmpName (we_save (lc_save env)))"
  obtains r fss where "recoverCorruptConfig parseURL print nb env path f = Some (r, fss)"
    and "\<And>g. g \<in> set fss \<Longrightarrow> kept_copy path d g"
    and "\<And>c. r = Inr c \<Longrightarrow> c = PersistedDefaults\<lparr>cf_SourcePath := path\<rparr>"
    and "\<And>v. r \<noteq> Inl (NewerSchema v)"
proof (rule quarantine_total [OF assms(1), of env path])
  fix r f1
  assume q: "quarantineCorruptConfig env path f = Some (r, f1)"
    and f1: "isl r \<and> f1 = f \<or> (\<exists>q. r = Inr q \<and> f q = None \<and>
      take (length (path @ CorruptConfigSuffix)) q = path @ CorruptConfigSuffix
      \<and> f1 = (f(path := None))(q := f path) \<and> f path \<noteq> None)"
  let ?dflt = "PersistedDefaults\<lparr>cf_SourcePath := path\<rparr>"
  let ?s = "SavePersisted parseURL print nb (lc_save env) path (Some ?dflt) f1"
  show thesis
  proof (cases r)
    case (Inl e)
    with f1 have "f1 = f" by simp
    with q Inl show thesis
      by (intro that [of "Inl (RecoverCorrupt e)" "[f, f1]"]) (auto simp: recoverCorruptConfig_def kept_copy_path d)
  next
    case (Inr b)
    with f1 d have b: "quarantine_name path b" "f1 b = Some d" by (auto simp: quarantine_name_def)
    have later: "kept_copy path d g" if "g \<in> set (snd ?s)" for g
    proof -
      have "g b = f1 b"
        using quarantine_name_neq [OF b(1)] t b(1) by (intro SavePersisted_others [OF _ that]) auto
      with b show ?thesis by (auto simp: kept_copy_def)
    qed
    have now: "kept_copy path d f1" "kept_copy path d f" using b d by (auto simp: kept_copy_def)
    show thesis
    proof (cases "fst ?s")
      case None
      with q Inr later now show thesis
        by (intro that [of "Inr ?dflt" "[f, f1] @ snd ?s"]) (auto simp: recoverCorruptConfig_def Let_def split: prod.splits)
    next
      case (Some e)
      with q Inr later now show thesis
        by (intro that [of "Inl (RestoreDefault e)" "[f, f1] @ snd ?s"])
          (auto simp: recoverCorruptConfig_def Let_def split: prod.splits)
    qed
  qed
qed

lemma config_field_source: "config_field k j c = Some c' \<Longrightarrow> cf_SourcePath c' = cf_SourcePath c"
  by (auto simp: config_field_def split: option.splits if_splits)

lemma dec_config_source: "dec_config c j = Some c' \<Longrightarrow> cf_SourcePath c' = cf_SourcePath c"
proof -
  have "dec_fields config_field fs c = Some c' \<Longrightarrow> cf_SourcePath c' = cf_SourcePath c" for fs
  proof (induction fs arbitrary: c)
    case (Cons kv fs)
    obtain k v where "kv = (k, v)" by fastforce
    with Cons show ?case by (auto split: option.splits dest: config_field_source)
  qed simp
  then show "dec_config c j = Some c' \<Longrightarrow> ?thesis"
    by (auto simp: dec_config_def dec_struct_def split: json.splits)
qed

lemma excluded_error_not_newer: "excluded_error pid ms seen \<noteq> Some (NewerSchema v)"
  by (induction ms arbitrary: seen) auto

lemma provider_error_not_newer: "provider_error parseURL seen p \<noteq> Some (NewerSchema v)"
  by (simp add: provider_error_def Let_def excluded_error_not_newer split: option.split)

lemma validateProviders_not_newer: "validateProviders parseURL seen ps \<noteq> Some (NewerSchema v)"
  by (induction ps arbitrary: seen) (auto split: option.split dest: provider_error_not_newer [THEN notE])

lemma config_validate_not_newer: "config_validate parseURL c \<noteq> Some (NewerSchema v)"
  by (simp add: config_validate_def validateProviders_not_newer)

lemma config_validate_schema:
  "config_validate parseURL c = None \<Longrightarrow> config_validate parseURL (c\<lparr>cf_SchemaVersion := 2\<rparr>) = None"
  by (auto simp: config_validate_def CurrentSchemaVersion_def split: if_splits)

text \<open>What a file of an older schema becomes.\<close>

definition migrate :: "PersistedConfig \<Rightarrow> PersistedConfig" where
  "migrate c = c\<lparr>cf_SchemaVersion := 2, cf_Providers := (if cf_Providers c = [] then defaultProviders else cf_Providers c)\<rparr>"

lemma LoadPersisted_outcome:
  assumes "finite (dom f)" and d: "f path = Some d" and tmp: "ev_tmpName (we_save (lc_save env)) \<notin> {path, bak path}"
    "\<not> quarantine_name path (ev_tmpName (we_save (lc_save env)))" and url: "default_url_ok parseURL"
  shows "\<exists>r fss. LoadPersisted parseURL print parse nbytes nb env path f = Some (r, fss) \<and>
    (\<forall>g \<in> set fss. kept_copy path d g \<or> (\<exists>c. Option.bind (parse d)
        (dec_config (PersistedDefaults\<lparr>cf_SourcePath := path, cf_SchemaVersion := 0\<rparr>)) = Some c \<and> cf_SchemaVersion c < 2 \<and>
        recoverable path g = Some (print (config_json (to_save (migrate c)))))) \<and>
    (case r of
       Inr c \<Rightarrow> config_validate parseURL c = None \<and> cf_SchemaVersion c = 2 \<and> cf_SourcePath c = path
     | Inl e \<Rightarrow> (\<forall>v. e = NewerSchema v \<longrightarrow> v > 2 \<and> fss = [f]))"
proof -
  let ?L = "LoadPersisted parseURL print parse nbytes nb env path f"
  let ?fresh = "PersistedDefaults\<lparr>cf_SourcePath := path, cf_SchemaVersion := 0\<rparr>"
  have keep: "kept_copy path d f" using d by (rule kept_copy_path)
  let ?goal = "\<lambda>r fss. (\<forall>g \<in> set fss. kept_copy path d g \<or> (\<exists>c. Option.bind (parse d) (dec_config ?fresh) = Some c \<and>
      cf_SchemaVersion c < 2 \<and> recoverable path g = Some (print (config_json (to_save (migrate c)))))) \<and>
    (case r of
       Inr c \<Rightarrow> config_validate parseURL c = None \<and> cf_SchemaVersion c = 2 \<and> cf_SourcePath c = path
     | Inl e \<Rightarrow> (\<forall>v. e = NewerSchema v \<longrightarrow> v > 2 \<and> fss = [f]))"
  let ?dec = "Option.bind (parse d) (dec_config ?fresh)"
  consider (path) "TrimSpace path = []" | (read) "TrimSpace path \<noteq> []" "\<not> lc_read env"
    | (recover) "TrimSpace path \<noteq> []" "lc_read env" "maxConfigBytes < nbytes d \<or> ?dec = None"
    | (decoded) c where "TrimSpace path \<noteq> []" "lc_read env" "\<not> maxConfigBytes < nbytes d" "?dec = Some c"
    by (cases ?dec) blast+
  then show ?thesis
  proof cases
    case path
    then show ?thesis by (simp add: LoadPersisted_def keep)
  next
    case read
    then show ?thesis by (simp add: LoadPersisted_def os_ReadFile_def d keep)
  next
    case recover
    then have L: "?L = recoverCorruptConfig parseURL print nb env path f"
      by (auto simp: LoadPersisted_def os_ReadFile_def d Let_def)
    have "\<exists>r fss. recoverCorruptConfig parseURL print nb env path f = Some (r, fss) \<and>
        (\<forall>g \<in> set fss. kept_copy path d g) \<and> (\<forall>c. r = Inr c \<longrightarrow> c = PersistedDefaults\<lparr>cf_SourcePath := path\<rparr>) \<and>
        (\<forall>v. r \<noteq> Inl (NewerSchema v))"
      by (rule recoverCorruptConfig_safe [OF assms(1) d tmp(2), of parseURL print nb]) blast
    then obtain r fss where "recoverCorruptConfig parseURL print nb env path f = Some (r, fss)"
      and "\<forall>g \<in> set fss. kept_copy path d g"
      and "\<forall>c. r = Inr c \<longrightarrow> c = PersistedDefaults\<lparr>cf_SourcePath := path\<rparr>" and "\<forall>v. r \<noteq> Inl (NewerSchema v)"
      by blast
    moreover note L
    moreover have "cf_SchemaVersion (PersistedDefaults\<lparr>cf_SourcePath := path\<rparr>) = 2"
      by (simp add: PersistedDefaults_def CurrentSchemaVersion_def)
    ultimately show ?thesis
      using PersistedDefaults_valid [OF url, of path] by (auto split: sum.split)
  next
    case (decoded c)
    let ?c = "if cf_SchemaVersion c < 2 \<and> cf_Providers c = [] then c\<lparr>cf_Providers := defaultProviders\<rparr> else c"
    from decoded(4) obtain j where "dec_config ?fresh j = Some c" by (cases "parse d") auto
    from dec_config_source [OF this] have src: "cf_SourcePath c = path" by simp
    note L = LoadPersisted_def os_ReadFile_def d Let_def CurrentSchemaVersion_def decoded
    consider "cf_SchemaVersion c > 2" | e where "cf_SchemaVersion c \<le> 2" "config_validate parseURL ?c = Some e"
      | "cf_SchemaVersion c = 2" "config_validate parseURL ?c = None"
      | "cf_SchemaVersion c < 2" "config_validate parseURL ?c = None"
      by fastforce
    then show ?thesis
    proof cases
      case 1
      then show ?thesis by (simp add: L keep)
    next
      case 2
      then have "?L = Some (Inl e, [f])" by (simp add: L)
      then show ?thesis using config_validate_not_newer 2(2) keep by fastforce
    next
      case 3
      then show ?thesis using config_validate_schema by (simp add: L keep src)
    next
      case 4
      let ?s = "SavePersisted parseURL print nb (lc_save env) path (Some (migrate c)) f"
      have m: "?c\<lparr>cf_SchemaVersion := 2\<rparr> = migrate c" using 4(1) by (simp add: migrate_def)
      have "?L = Some (case fst ?s of Some e \<Rightarrow> Inl (PersistMigrated e) | None \<Rightarrow> Inr (migrate c), snd ?s)"
        using 4 m by (simp add: L split: prod.split option.split)
      moreover have "config_validate parseURL (migrate c) = None"
        using config_validate_schema [OF 4(2)] m by simp
      moreover have "kept_copy path d g \<or> recoverable path g = Some (print (config_json (to_save (migrate c))))"
        if "g \<in> set (snd ?s)" for g
      proof (cases rule: SavePersisted_cases [of parseURL print nb "lc_save env" path "migrate c" f])
        case 1
        with that keep show ?thesis by simp
      next
        case 2
        with that config_file.keeps [where f = f and d = "print (config_json (to_save (migrate c)))", OF _ _ d] tmp
        have "recoverable path g \<in> {Some d, Some (print (config_json (to_save (migrate c))))}" by auto
        then show ?thesis using kept_copy_recoverable by auto
      qed
      ultimately show ?thesis
        using 4(1) decoded(4) src by (auto simp: migrate_def split: option.split)
    qed
  qed
qed


section \<open>Concrete inputs\<close>

definition sample_parseURL :: url_parser where
  "sample_parseURL s = (if HasPrefix s ''https://'' then Some \<lparr>u_Scheme = ''https'', u_Host = ''h'', u_Hostname = ''h'',
     u_HasUser = False, u_RawQuery = [], u_Fragment = []\<rparr> else None)"

definition ok_env :: "'c \<Rightarrow> 'c SaveEnv" where
  "ok_env nb = \<lparr>ev_mkdir = True, ev_create = True, ev_tmpName = ''t'', ev_chmodTmp = True,
     ev_write = True, ev_partial = nb, ev_sync = True, ev_close = True, ev_rename1 = True,
     ev_rename2 = True, ev_rename3 = True, ev_restore = True, ev_removeBak = True,
     ev_removeBak2 = True, ev_removeTmp = True, ev_protect = True\<rparr>"

definition ok_write :: "'c \<Rightarrow> 'c WriteEnv" where
  "ok_write nb = \<lparr>we_chmodDir = True, we_save = ok_env nb\<rparr>"

definition ok_load :: "'c \<Rightarrow> 'c LoadConfigEnv" where
  "ok_load nb = \<lparr>lc_read = True, lc_stat = \<lambda>_. True, lc_rename = True, lc_save = ok_write nb\<rparr>"

lemma sample_url_ok: "default_url_ok sample_parseURL"
  by code_simp

lemma sample_write_succeeds:
  "TrimSpace path \<noteq> [] \<Longrightarrow> path \<noteq> ''t'' \<Longrightarrow> fst (atomicWriteFile nb (ok_write nb) path d f) = None"
  by (simp add: atomicWriteFile_def ok_write_def ok_env_def replaceFile_def os_Rename_def with_cleanup_def Let_def)

theorem Save_Load_roundtrip_witness:
  "let g = last (snd (SavePersisted sample_parseURL id JNull (ok_write JNull) ''cfg'' (Some PersistedDefaults) Map.empty))
   in LoadPersisted sample_parseURL id Some (\<lambda>_. 0) JNull (ok_load JNull) ''cfg'' g =
     Some (Inr (PersistedDefaults\<lparr>cf_SourcePath := ''cfg''\<rparr>), [g])"
proof -
  have d: "to_save PersistedDefaults = PersistedDefaults"
    by (simp add: to_save_def PersistedDefaults_def Let_def CurrentSchemaVersion_def)
  have "TrimSpace ''cfg'' \<noteq> []" by code_simp
  then have "fst (SavePersisted sample_parseURL id JNull (ok_write JNull) ''cfg'' (Some PersistedDefaults) Map.empty) = None"
    using sample_write_succeeds [of "''cfg''" JNull] PersistedDefaults_valid [OF sample_url_ok, of "[]"]
    by (simp add: SavePersisted_def d) (simp add: PersistedDefaults_def)
  moreover have "reloaded ''cfg'' PersistedDefaults = PersistedDefaults\<lparr>cf_SourcePath := ''cfg''\<rparr>"
    by (simp add: reloaded_def PersistedDefaults_def defaultProviders_def)
  moreover have "representable PersistedDefaults" "cf_SchemaVersion PersistedDefaults \<noteq> 1"
    by (simp_all add: representable_def PersistedDefaults_def CurrentSchemaVersion_def)
  ultimately show ?thesis
    using Save_Load_roundtrip [of sample_parseURL id JNull "ok_write JNull" "''cfg''" PersistedDefaults Map.empty
        Some "\<lambda>_. 0" "ok_load JNull"]
    by (simp add: d ok_write_def ok_env_def ok_load_def sample_url_ok bak_def)
qed


end
