(* ===== verification/Secrets.thy ===== *)
theory Secrets
  imports Config
begin

text \<open>
  Package \<open>internal/config\<close>, files \<open>secrets.go\<close> and \<open>credential_store_nonwindows.go\<close>: secrets are looked
  up in the environment, the credential store of the operating system and a protected file, in this order.
  The credential store is a record of what its calls answer on its own state; the file system is that of
  \<open>Config\<close>. Go maps are association lists; the order in which the encoder writes them plays no role.
\<close>

section \<open>The file of secrets (secrets.go)\<close>

definition secretSchemaVersion :: int where
  "secretSchemaVersion = 1"

definition maxSecretFileBytes :: nat where
  "maxSecretFileBytes = 2 ^ 20"

definition ManagementTokenKey :: gostring where
  "ManagementTokenKey = ''FMR_MANAGEMENT_TOKEN''"

definition InferenceTokenKey :: gostring where
  "InferenceTokenKey = ''FMR_INFERENCE_TOKEN''"

datatype secret_error =
    ErrSecretNotFound
  | ErrCredentialStoreUnavailable
  | ErrSecretStoreCorrupt
  | EmptySecretKey
  | EmptySecretValue
  | SaveSecretStore cache_error

record SecretFile =
  sf_SchemaVersion :: int
  sf_Secrets :: "(gostring \<times> gostring) list option"

text \<open>The JSON text of a file: writing, reading, its size, and the empty file.\<close>

record 'c Codec =
  jc_print :: "json \<Rightarrow> 'c"
  jc_parse :: "'c \<Rightarrow> json option"
  jc_size :: "'c \<Rightarrow> nat"
  jc_none :: 'c

definition codec_ok :: "'c Codec \<Rightarrow> bool" where
  "codec_ok cd \<longleftrightarrow> (\<forall>j. jc_parse cd (jc_print cd j) = Some j)"

definition secret_json :: "SecretFile \<Rightarrow> json" where
  "secret_json file = JObj [(''schemaVersion'', enc_int (sf_SchemaVersion file)),
     (''secrets'', case sf_Secrets file of None \<Rightarrow> JNull | Some m \<Rightarrow> JObj (map (\<lambda>(k, v). (k, JStr v)) m))]"

definition dec_secrets :: "(gostring \<times> gostring) list option \<Rightarrow> json \<Rightarrow> (gostring \<times> gostring) list option option" where
  "dec_secrets old j = (case j of
       JNull \<Rightarrow> Some None
     | _ \<Rightarrow> map_option Some (dec_map dec_string [] (case old of None \<Rightarrow> [] | Some m \<Rightarrow> m) j))"

definition secret_field :: "gostring \<Rightarrow> json \<Rightarrow> SecretFile \<Rightarrow> SecretFile option" where
  "secret_field k j f = (case field_named [''schemaVersion'', ''secrets''] k of
       None \<Rightarrow> Some f
     | Some n \<Rightarrow>
         if n = ''schemaVersion'' then map_option (\<lambda>x. f\<lparr>sf_SchemaVersion := x\<rparr>) (dec_int (sf_SchemaVersion f) j)
         else map_option (\<lambda>x. f\<lparr>sf_Secrets := x\<rparr>) (dec_secrets (sf_Secrets f) j))"

definition read_secrets :: "'c Codec \<Rightarrow> SecretFile \<Rightarrow> 'c \<Rightarrow> SecretFile option" where
  "read_secrets cd old data =
     (if jc_size cd data > maxSecretFileBytes then None
      else case Option.bind (jc_parse cd data) (dec_struct secret_field old) of
        None \<Rightarrow> None
      | Some file \<Rightarrow>
          if sf_SchemaVersion file > secretSchemaVersion \<or> sf_Secrets file = None then None else Some file)"

definition normalizeSecretKey :: "gostring \<Rightarrow> secret_error + gostring" where
  "normalizeSecretKey key0 =
     (let key = TrimSpace key0 in if key = [] \<or> CHR 0x00 \<in> set key then Inl EmptySecretKey else Inr key)"

definition readSecretFile :: "'c Codec \<Rightarrow> bool \<Rightarrow> gostring \<Rightarrow> gostring \<Rightarrow> 'c fs \<Rightarrow> secret_error + gostring" where
  "readSecretFile cd readable path key f =
     (if TrimSpace path = [] then Inl ErrSecretNotFound
      else case os_ReadFile readable path f of
        Inl NotExist \<Rightarrow> Inl ErrSecretNotFound
      | Inl _ \<Rightarrow> Inl ErrCredentialStoreUnavailable
      | Inr data \<Rightarrow>
          (case read_secrets cd \<lparr>sf_SchemaVersion = 0, sf_Secrets = None\<rparr> data of
             None \<Rightarrow> Inl ErrSecretStoreCorrupt
           | Some file \<Rightarrow>
               (case map_of (the (sf_Secrets file)) key of
                  None \<Rightarrow> Inl ErrSecretNotFound
                | Some v0 \<Rightarrow> (let v = TrimSpace v0 in if v = [] then Inl ErrSecretNotFound else Inr v))))"

text \<open>The outcomes of the system calls of one operation on the file.\<close>

record 'c SecretEnv =
  se_read :: bool
  se_remove :: bool
  se_write :: "'c WriteEnv"

definition writeSecretToFile ::
  "'c Codec \<Rightarrow> 'c SecretEnv \<Rightarrow> gostring \<Rightarrow> gostring \<Rightarrow> gostring \<Rightarrow> 'c fs \<Rightarrow> secret_error option \<times> 'c fs list" where
  "writeSecretToFile cd env path key value f =
     (let empty_file = \<lparr>sf_SchemaVersion = secretSchemaVersion, sf_Secrets = Some []\<rparr>;
          store = (\<lambda>file.
            let file = (if sf_SchemaVersion file = 0 then file\<lparr>sf_SchemaVersion := secretSchemaVersion\<rparr> else file);
                file = file\<lparr>sf_Secrets := map_option (AList.update key value) (sf_Secrets file)\<rparr>
            in map_prod (map_option SaveSecretStore) id
                 (atomicWriteFile (jc_none cd) (se_write env) path (jc_print cd (secret_json file)) f))
      in if TrimSpace path = [] then (Some ErrCredentialStoreUnavailable, [f])
         else case os_ReadFile (se_read env) path f of
           Inr data \<Rightarrow>
             (case read_secrets cd empty_file data of
                None \<Rightarrow> (Some ErrSecretStoreCorrupt, [f])
              | Some file \<Rightarrow> store file)
         | Inl NotExist \<Rightarrow> store empty_file
         | Inl _ \<Rightarrow> (Some ErrCredentialStoreUnavailable, [f]))"

definition deleteSecretFromFile ::
  "'c Codec \<Rightarrow> 'c SecretEnv \<Rightarrow> gostring \<Rightarrow> gostring \<Rightarrow> 'c fs \<Rightarrow> secret_error option \<times> 'c fs list" where
  "deleteSecretFromFile cd env path key f =
     (if TrimSpace path = [] then (None, [f])
      else case os_ReadFile (se_read env) path f of
        Inl NotExist \<Rightarrow> (None, [f])
      | Inl _ \<Rightarrow> (Some ErrCredentialStoreUnavailable, [f])
      | Inr data \<Rightarrow>
          (case read_secrets cd \<lparr>sf_SchemaVersion = 0, sf_Secrets = None\<rparr> data of
             None \<Rightarrow> (Some ErrSecretStoreCorrupt, [f])
           | Some file \<Rightarrow>
               (let secrets = the (sf_Secrets file); rest = AList.delete key secrets
                in if map_of secrets key = None then (None, [f])
                   else if rest = [] then
                     (if se_remove env then (None, [f, os_Remove True path f])
                      else (Some ErrCredentialStoreUnavailable, [f]))
                   else map_prod (map_option (\<lambda>_. ErrCredentialStoreUnavailable)) id
                     (atomicWriteFile (jc_none cd) (se_write env) path
                       (jc_print cd (secret_json \<lparr>sf_SchemaVersion = secretSchemaVersion, sf_Secrets = Some rest\<rparr>)) f))))"

section \<open>The secret store (secrets.go)\<close>

record 'b CredentialBackend =
  cb_Get :: "'b \<Rightarrow> gostring \<Rightarrow> secret_error + gostring"
  cb_Set :: "'b \<Rightarrow> gostring \<Rightarrow> gostring \<Rightarrow> secret_error option \<times> 'b"
  cb_Delete :: "'b \<Rightarrow> gostring \<Rightarrow> secret_error option \<times> 'b"

text \<open>The environment is fixed; a nil lookup finds nothing.\<close>

record 'b SecretStore =
  st_envLookup :: "gostring \<rightharpoonup> gostring"
  st_credential :: "'b CredentialBackend option"
  st_filePath :: gostring

record ('b, 'c) Vault =
  va_backend :: 'b
  va_fs :: "'c fs"

definition NewSecretStore ::
  "(gostring \<rightharpoonup> gostring) \<Rightarrow> 'b CredentialBackend option \<Rightarrow> gostring option \<Rightarrow> gostring list \<Rightarrow> 'b SecretStore" where
  "NewSecretStore environ platform defaultPath paths =
     (let path = (case paths of [] \<Rightarrow> [] | p # _ \<Rightarrow> TrimSpace p);
          path = (if path = [] then (case defaultPath of None \<Rightarrow> [] | Some d \<Rightarrow> d) else path)
      in \<lparr>st_envLookup = environ, st_credential = platform, st_filePath = path\<rparr>)"

definition NewSecretStoreWithBackend ::
  "(gostring \<rightharpoonup> gostring) \<Rightarrow> gostring option \<Rightarrow> gostring \<Rightarrow> 'b CredentialBackend option \<Rightarrow> 'b SecretStore" where
  "NewSecretStoreWithBackend environ defaultPath path backend =
     (NewSecretStore environ None defaultPath [path])\<lparr>st_credential := backend\<rparr>"

definition DefaultSecretPath :: "path_join \<Rightarrow> gostring option \<Rightarrow> gostring option" where
  "DefaultSecretPath join userConfigDir = map_option (\<lambda>dir. join [dir, ''secrets.json'']) (ConfigDir join userConfigDir)"

definition FilePath :: "'b SecretStore option \<Rightarrow> gostring" where
  "FilePath s = (case s of None \<Rightarrow> [] | Some s \<Rightarrow> st_filePath s)"

definition env_value :: "'b SecretStore \<Rightarrow> gostring \<Rightarrow> gostring option" where
  "env_value s key = (case st_envLookup s key of
       None \<Rightarrow> None
     | Some v \<Rightarrow> if TrimSpace v = [] then None else Some (TrimSpace v))"

definition backend_value :: "'b SecretStore \<Rightarrow> 'b \<Rightarrow> gostring \<Rightarrow> gostring option" where
  "backend_value s b key = (case st_credential s of
       None \<Rightarrow> None
     | Some cb \<Rightarrow> (case cb_Get cb b key of
         Inl _ \<Rightarrow> None
       | Inr v \<Rightarrow> if TrimSpace v = [] then None else Some (TrimSpace v)))"

definition secret_Get ::
  "'c Codec \<Rightarrow> bool \<Rightarrow> 'b SecretStore option \<Rightarrow> gostring \<Rightarrow> ('b, 'c) Vault \<Rightarrow> secret_error + gostring" where
  "secret_Get cd readable store key v =
     (case store of
        None \<Rightarrow> Inl ErrSecretNotFound
      | Some s \<Rightarrow>
          (case normalizeSecretKey key of
             Inl e \<Rightarrow> Inl e
           | Inr key \<Rightarrow>
               (case env_value s key of
                  Some value \<Rightarrow> Inr value
                | None \<Rightarrow>
                    (case backend_value s (va_backend v) key of
                       Some value \<Rightarrow> Inr value
                     | None \<Rightarrow> readSecretFile cd readable (st_filePath s) key (va_fs v)))))"

definition secret_Set ::
  "'c Codec \<Rightarrow> 'c SecretEnv \<Rightarrow> 'b SecretStore option \<Rightarrow> gostring \<Rightarrow> gostring \<Rightarrow> ('b, 'c) Vault \<Rightarrow>
   secret_error option \<times> ('b, 'c) Vault" where
  "secret_Set cd env store key value v =
     (case store of
        None \<Rightarrow> (Some ErrCredentialStoreUnavailable, v)
      | Some s \<Rightarrow>
          (case normalizeSecretKey key of
             Inl e \<Rightarrow> (Some e, v)
           | Inr key \<Rightarrow>
               (let value = TrimSpace value;
                    (taken, b) = (case st_credential s of
                        None \<Rightarrow> (False, va_backend v)
                      | Some cb \<Rightarrow> (case cb_Set cb (va_backend v) key value of (e, b) \<Rightarrow> (e = None, b)))
                in if value = [] \<or> CHR 0x00 \<in> set value then (Some EmptySecretValue, v)
                   else if taken
                   then (None, v\<lparr>va_backend := b,
                     va_fs := last (snd (deleteSecretFromFile cd env (st_filePath s) key (va_fs v)))\<rparr>)
                   else (case writeSecretToFile cd env (st_filePath s) key value (va_fs v) of
                     (err, fss) \<Rightarrow> (err, v\<lparr>va_backend := b, va_fs := last fss\<rparr>)))))"

definition delete_both ::
  "'c Codec \<Rightarrow> 'c SecretEnv \<Rightarrow> 'b SecretStore \<Rightarrow> gostring \<Rightarrow> ('b, 'c) Vault \<Rightarrow>
   secret_error option \<times> secret_error option \<times> ('b, 'c) Vault" where
  "delete_both cd env s key v =
     (let (backendErr, b) = (case st_credential s of
              None \<Rightarrow> (None, va_backend v)
            | Some cb \<Rightarrow> cb_Delete cb (va_backend v) key);
          (fileErr, fss) = deleteSecretFromFile cd env (st_filePath s) key (va_fs v)
      in (backendErr, fileErr, v\<lparr>va_backend := b, va_fs := last fss\<rparr>))"

definition secret_Delete ::
  "'c Codec \<Rightarrow> 'c SecretEnv \<Rightarrow> 'b SecretStore option \<Rightarrow> gostring \<Rightarrow> ('b, 'c) Vault \<Rightarrow>
   secret_error option \<times> ('b, 'c) Vault" where
  "secret_Delete cd env store key v =
     (case store of
        None \<Rightarrow> (None, v)
      | Some s \<Rightarrow>
          (case normalizeSecretKey key of
             Inl e \<Rightarrow> (Some e, v)
           | Inr key \<Rightarrow> (case delete_both cd env s key v of (_, fileErr, v) \<Rightarrow> (fileErr, v))))"

definition DeleteStrict ::
  "'c Codec \<Rightarrow> 'c SecretEnv \<Rightarrow> 'b SecretStore option \<Rightarrow> gostring \<Rightarrow> ('b, 'c) Vault \<Rightarrow>
   secret_error option \<times> ('b, 'c) Vault" where
  "DeleteStrict cd env store key v =
     (case store of
        None \<Rightarrow> (Some ErrCredentialStoreUnavailable, v)
      | Some s \<Rightarrow>
          (case normalizeSecretKey key of
             Inl e \<Rightarrow> (Some e, v)
           | Inr key \<Rightarrow> (case delete_both cd env s key v of
               (backendErr, fileErr, v) \<Rightarrow> (if backendErr \<noteq> None then backendErr else fileErr, v))))"

section \<open>Command-line credential stores (credential_store_nonwindows.go)\<close>

text \<open>The tool that is run: its name, arguments and input, on its own state.\<close>

datatype run_error = ExecNotFound | RunFailed

type_synonym 'b runner = "gostring \<Rightarrow> gostring list \<Rightarrow> gostring \<Rightarrow> 'b \<Rightarrow> (run_error + gostring) \<times> 'b"

definition command_run ::
  "'b runner \<Rightarrow> gostring \<Rightarrow> gostring list \<Rightarrow> gostring \<Rightarrow> 'b \<Rightarrow> (run_error + gostring) \<times> 'b" where
  "command_run run kind args input b = (if kind = [] then (Inl RunFailed, b) else run kind args input b)"

definition command_Get :: "'b runner \<Rightarrow> gostring \<Rightarrow> 'b \<Rightarrow> gostring \<Rightarrow> secret_error + gostring" where
  "command_Get run kind b key =
     (let args = (if kind = ''security''
              then Some [''find-generic-password'', ''-s'', ApplicationName, ''-a'', key, ''-w'']
            else if kind = ''secret-tool'' then Some [''lookup'', ''service'', ApplicationName, ''key'', key]
            else None)
      in case args of
        None \<Rightarrow> Inl ErrCredentialStoreUnavailable
      | Some args \<Rightarrow>
          (case fst (command_run run kind args [] b) of
             Inl _ \<Rightarrow> Inl ErrCredentialStoreUnavailable
           | Inr output \<Rightarrow> if TrimSpace output = [] then Inl ErrSecretNotFound else Inr (TrimSpace output)))"

definition command_Set :: "'b runner \<Rightarrow> gostring \<Rightarrow> 'b \<Rightarrow> gostring \<Rightarrow> gostring \<Rightarrow> secret_error option \<times> 'b" where
  "command_Set run kind b key value =
     (if kind = ''secret-tool''
      then (case command_run run kind [''store'', ''--label=Free-Model-Router'', ''service'', ApplicationName, ''key'', key]
               value b of
              (Inl _, b) \<Rightarrow> (Some ErrCredentialStoreUnavailable, b)
            | (Inr _, b) \<Rightarrow> (None, b))
      else (Some ErrCredentialStoreUnavailable, b))"

definition command_Delete :: "'b runner \<Rightarrow> gostring \<Rightarrow> 'b \<Rightarrow> gostring \<Rightarrow> secret_error option \<times> 'b" where
  "command_Delete run kind b key =
     (let args = (if kind = ''security''
              then Some [''delete-generic-password'', ''-s'', ApplicationName, ''-a'', key]
            else if kind = ''secret-tool'' then Some [''clear'', ''service'', ApplicationName, ''key'', key]
            else None)
      in case args of
        None \<Rightarrow> (Some ErrCredentialStoreUnavailable, b)
      | Some args \<Rightarrow>
          (case command_run run kind args [] b of
             (Inl RunFailed, b) \<Rightarrow> (Some ErrCredentialStoreUnavailable, b)
           | (_, b) \<Rightarrow> (None, b)))"

definition commandCredentialBackend :: "'b runner \<Rightarrow> gostring \<Rightarrow> 'b CredentialBackend" where
  "commandCredentialBackend run kind =
     \<lparr>cb_Get = command_Get run kind, cb_Set = command_Set run kind, cb_Delete = command_Delete run kind\<rparr>"

definition newPlatformCredentialBackend :: "'b runner \<Rightarrow> gostring \<Rightarrow> 'b CredentialBackend option" where
  "newPlatformCredentialBackend run os =
     (if os = ''darwin'' then Some (commandCredentialBackend run ''security'')
      else if os = ''linux'' then Some (commandCredentialBackend run ''secret-tool'')
      else None)"

section \<open>The file as a map\<close>

definition zero_file :: SecretFile where
  "zero_file = \<lparr>sf_SchemaVersion = 0, sf_Secrets = None\<rparr>"

definition start_file :: SecretFile where
  "start_file = \<lparr>sf_SchemaVersion = secretSchemaVersion, sf_Secrets = Some []\<rparr>"

definition trimmed :: "(gostring \<rightharpoonup> gostring) \<Rightarrow> gostring \<rightharpoonup> gostring" where
  "trimmed m k = (case m k of None \<Rightarrow> None | Some v \<Rightarrow> if TrimSpace v = [] then None else Some (TrimSpace v))"

definition file_secrets :: "'c Codec \<Rightarrow> gostring \<Rightarrow> 'c fs \<Rightarrow> gostring \<rightharpoonup> gostring" where
  "file_secrets cd path f k = (case readSecretFile cd True path k f of Inl _ \<Rightarrow> None | Inr v \<Rightarrow> Some v)"

lemma file_secrets_eq:
  "TrimSpace path \<noteq> [] \<Longrightarrow> file_secrets cd path f k =
     (case f path of None \<Rightarrow> None | Some d \<Rightarrow> (case read_secrets cd zero_file d of
        None \<Rightarrow> None | Some file \<Rightarrow> trimmed (map_of (the (sf_Secrets file))) k))"
  by (simp add: file_secrets_def readSecretFile_def os_ReadFile_def trimmed_def zero_file_def Let_def split: option.split)

text \<open>Decoding from the two starting values: the one of a reader and the one of a writer.\<close>

definition same_secrets :: "SecretFile \<Rightarrow> SecretFile \<Rightarrow> bool" where
  "same_secrets a b \<longleftrightarrow> (sf_SchemaVersion a = sf_SchemaVersion b \<or> sf_SchemaVersion a = 0 \<and> sf_SchemaVersion b = 1) \<and>
     (sf_Secrets a = sf_Secrets b \<or> sf_Secrets a = None \<and> sf_Secrets b = Some [])"

lemma secret_names:
  "field_named [''schemaVersion'', ''secrets''] ''schemaVersion'' = Some ''schemaVersion''"
  "field_named [''schemaVersion'', ''secrets''] ''secrets'' = Some ''secrets''"
  by code_simp+

lemma secret_field_same:
  assumes "same_secrets a b" and "secret_field k j b = Some b'"
  shows "\<exists>a'. secret_field k j a = Some a' \<and> same_secrets a' b'"
proof (cases "field_named [''schemaVersion'', ''secrets''] k")
  case (Some n)
  show ?thesis
  proof (cases "n = ''schemaVersion''")
    case True
    with assms Some show ?thesis
      by (cases j) (auto simp: secret_field_def same_secrets_def dec_int_def split: option.splits)
  next
    case False
    with assms Some show ?thesis
      by (cases j) (auto simp: secret_field_def same_secrets_def dec_secrets_def dec_map_def)
  qed
qed (use assms in \<open>simp add: secret_field_def\<close>)

lemma dec_secret_same:
  "same_secrets a b \<Longrightarrow> dec_fields secret_field fs b = Some b' \<Longrightarrow>
   \<exists>a'. dec_fields secret_field fs a = Some a' \<and> same_secrets a' b'"
proof (induction fs arbitrary: a b)
  case (Cons kv fs)
  obtain k j where kv: "kv = (k, j)" by fastforce
  with Cons.prems(2) obtain b1 where b1: "secret_field k j b = Some b1" "dec_fields secret_field fs b1 = Some b'"
    by (auto split: option.splits)
  from secret_field_same [OF Cons.prems(1) b1(1)] obtain a1 where "secret_field k j a = Some a1" "same_secrets a1 b1"
    by blast
  with Cons.IH [OF this(2) b1(2)] kv show ?case by simp
qed simp

lemma read_secrets_same:
  assumes "read_secrets cd start_file d = Some b"
  shows "read_secrets cd zero_file d = None \<and> sf_Secrets b = Some [] \<or>
    (\<exists>a. read_secrets cd zero_file d = Some a \<and> sf_Secrets a = sf_Secrets b)"
proof -
  have z: "same_secrets zero_file start_file" by (simp add: same_secrets_def zero_file_def start_file_def secretSchemaVersion_def)
  from assms obtain j where j: "jc_parse cd d = Some j" "dec_struct secret_field start_file j = Some b"
    and s: "jc_size cd d \<le> maxSecretFileBytes" "sf_SchemaVersion b \<le> secretSchemaVersion" "sf_Secrets b \<noteq> None"
    by (auto simp: read_secrets_def split: if_splits option.splits bind_splits)
  have "\<exists>a. dec_struct secret_field zero_file j = Some a \<and> same_secrets a b"
    using j(2) dec_secret_same [OF z] z by (auto simp: dec_struct_def split: json.splits)
  then obtain a where a: "dec_struct secret_field zero_file j = Some a" "same_secrets a b" by blast
  then have "sf_SchemaVersion a \<le> secretSchemaVersion" using s(2) by (auto simp: same_secrets_def secretSchemaVersion_def)
  with a j(1) s(1,3) show ?thesis
    by (auto simp: read_secrets_def same_secrets_def)
qed

text \<open>The keys of a decoded map are distinct, and a version is a 64-bit number.\<close>

definition distinct_secrets :: "SecretFile \<Rightarrow> bool" where
  "distinct_secrets a \<longleftrightarrow> distinct (map fst (case sf_Secrets a of None \<Rightarrow> [] | Some m \<Rightarrow> m)) \<and>
     - (2 ^ 63) \<le> sf_SchemaVersion a"

lemma dec_map_distinct:
  "distinct (map fst m) \<Longrightarrow>
   dec_fields (\<lambda>k v m. map_option (\<lambda>x. AList.update k x m) (dec zero v)) fs m = Some m' \<Longrightarrow> distinct (map fst m')"
proof (induction fs arbitrary: m)
  case (Cons kv fs)
  obtain k j where kv: "kv = (k, j)" by fastforce
  with Cons.prems(2) obtain x where
    "dec_fields (\<lambda>k v m. map_option (\<lambda>x. AList.update k x m) (dec zero v)) fs (AList.update k x m) = Some m'"
    by (auto split: option.splits)
  from Cons.IH [OF distinct_update [OF Cons.prems(1)] this] show ?case .
qed simp

lemma secret_field_distinct:
  assumes "distinct_secrets a" and "secret_field k j a = Some a'"
  shows "distinct_secrets a'"
  using assms
  by (cases j) (auto simp: secret_field_def dec_secrets_def dec_map_def distinct_secrets_def dec_int_def
      split: option.splits if_splits elim: dec_map_distinct [rotated] dest: dec_map_distinct [of "[]", simplified] ParseInt_bounds)

lemma dec_secret_distinct:
  "distinct_secrets a \<Longrightarrow> dec_fields secret_field fs a = Some a' \<Longrightarrow> distinct_secrets a'"
proof (induction fs arbitrary: a)
  case (Cons kv fs)
  obtain k j where kv: "kv = (k, j)" by fastforce
  with Cons.prems(2) obtain a1 where "secret_field k j a = Some a1" "dec_fields secret_field fs a1 = Some a'"
    by (auto split: option.splits)
  with Cons.IH secret_field_distinct [OF Cons.prems(1)] show ?case by blast
qed simp

lemma read_secrets_distinct:
  assumes "distinct_secrets a" and "read_secrets cd a d = Some b"
  shows "distinct (map fst (the (sf_Secrets b)))" and "sf_Secrets b \<noteq> None"
    and "- (2 ^ 63) \<le> sf_SchemaVersion b" and "sf_SchemaVersion b \<le> 1"
proof -
  from assms(2) obtain j where j: "dec_struct secret_field a j = Some b"
    and s: "sf_Secrets b \<noteq> None" "sf_SchemaVersion b \<le> 1"
    by (auto simp: read_secrets_def secretSchemaVersion_def split: if_splits option.splits bind_splits)
  from j assms(1) have "distinct_secrets b"
    by (auto simp: dec_struct_def split: json.splits dest: dec_secret_distinct)
  with s show "distinct (map fst (the (sf_Secrets b)))" and "sf_Secrets b \<noteq> None"
    and "- (2 ^ 63) \<le> sf_SchemaVersion b" and "sf_SchemaVersion b \<le> 1"
    by (auto simp: distinct_secrets_def)
qed

lemma read_secrets_written:
  assumes "codec_ok cd" and "distinct (map fst m)" and "- (2 ^ 63) \<le> n" and "n \<le> 1"
    and "jc_size cd (jc_print cd (secret_json \<lparr>sf_SchemaVersion = n, sf_Secrets = Some m\<rparr>)) \<le> maxSecretFileBytes"
  shows "read_secrets cd zero_file (jc_print cd (secret_json \<lparr>sf_SchemaVersion = n, sf_Secrets = Some m\<rparr>)) =
    Some \<lparr>sf_SchemaVersion = n, sf_Secrets = Some m\<rparr>"
  using assms dec_map_enc [of dec_string "[]" JStr "[]" m]
  by (simp add: read_secrets_def codec_ok_def secret_json_def dec_struct_def secret_field_def secret_names
      zero_file_def dec_secrets_def dec_map_def secretSchemaVersion_def)

section \<open>What the operations on the file do\<close>

text \<open>The temporary file is another file, and the new content is not larger than what is read back.\<close>

definition write_fits :: "'c Codec \<Rightarrow> 'c SecretEnv \<Rightarrow> gostring \<Rightarrow> 'c fs \<Rightarrow> bool" where
  "write_fits cd env path f \<longleftrightarrow> codec_ok cd \<and> ev_tmpName (we_save (se_write env)) \<notin> {path, bak path} \<and>
     (\<forall>d. f path = Some d \<longrightarrow> jc_size cd d \<le> maxSecretFileBytes)"

lemma trimmed_update: "TrimSpace v = v \<Longrightarrow> v \<noteq> [] \<Longrightarrow> trimmed (m(k \<mapsto> v)) = (trimmed m)(k \<mapsto> v)"
  by (auto simp: trimmed_def fun_eq_iff)

lemma trimmed_delete: "trimmed (m(k := None)) = (trimmed m)(k := None)"
  by (auto simp: trimmed_def fun_eq_iff)

lemma trimmed_empty [simp]: "trimmed (\<lambda>_. None) = (\<lambda>_. None)" "trimmed Map.empty = Map.empty"
  by (auto simp: trimmed_def)

lemma file_secrets_none: "TrimSpace path \<noteq> [] \<Longrightarrow> f path = None \<Longrightarrow> file_secrets cd path f = Map.empty"
  by (auto simp: file_secrets_eq fun_eq_iff)

lemma file_secrets_written:
  assumes "TrimSpace path \<noteq> []" and "write_fits cd env path g" and "distinct (map fst m)"
    and "g path = Some (jc_print cd (secret_json \<lparr>sf_SchemaVersion = n, sf_Secrets = Some m\<rparr>))" and "- (2 ^ 63) \<le> n" and "n \<le> 1"
  shows "file_secrets cd path g = trimmed (map_of m)"
  using assms read_secrets_written [of cd m n]
  by (auto simp: file_secrets_eq write_fits_def fun_eq_iff)

lemma atomicWriteFile_installs:
  assumes "fst (atomicWriteFile nb env p d f) = None" and "ev_tmpName (we_save env) \<notin> {p, bak p}"
  shows "last (snd (atomicWriteFile nb env p d f)) p = Some d"
  using config_file.installs [OF _ _ assms(1)] assms(2) by simp

lemma writeSecretToFile_spec:
  assumes ok: "fst (writeSecretToFile cd env path k v f) = None" and v: "TrimSpace v = v" "v \<noteq> []"
    and fits: "write_fits cd env path (last (snd (writeSecretToFile cd env path k v f)))"
  shows "file_secrets cd path (last (snd (writeSecretToFile cd env path k v f))) = (file_secrets cd path f)(k \<mapsto> v)"
proof -
  let ?store = "\<lambda>file. map_prod (map_option SaveSecretStore) id (atomicWriteFile (jc_none cd) (se_write env) path
      (jc_print cd (secret_json file)) f)"
  let ?new = "\<lambda>n m. \<lparr>sf_SchemaVersion = n, sf_Secrets = Some (AList.update k v m)\<rparr>"
  from ok have p: "TrimSpace path \<noteq> []" by (auto simp: writeSecretToFile_def Let_def)
  have tmp: "ev_tmpName (we_save (se_write env)) \<notin> {path, bak path}" using fits by (simp add: write_fits_def)
  have "\<exists>n m. writeSecretToFile cd env path k v f = ?store (?new n m) \<and> - (2 ^ 63) \<le> n \<and> n \<le> 1 \<and> distinct (map fst m) \<and>
      file_secrets cd path f = trimmed (map_of m)"
  proof (cases "f path")
    case None
    then have "writeSecretToFile cd env path k v f = ?store (?new 1 [])"
      using p by (simp add: writeSecretToFile_def os_ReadFile_def secretSchemaVersion_def Let_def)
    then show ?thesis
      using file_secrets_none [where f = f, OF p None, of cd] by (intro exI [of _ 1] exI [of _ "[]"]) simp
  next
    case (Some d)
    with ok p have r: "se_read env" by (auto simp: writeSecretToFile_def os_ReadFile_def Let_def split: if_splits)
    with ok p Some obtain sf where sf: "read_secrets cd start_file d = Some sf"
      by (auto simp: writeSecretToFile_def os_ReadFile_def Let_def start_file_def split: option.splits)
    have "distinct_secrets start_file" by (simp add: distinct_secrets_def start_file_def secretSchemaVersion_def)
    from read_secrets_distinct [OF this sf] obtain m where
      m: "sf_Secrets sf = Some m" "distinct (map fst m)"
      and n: "- (2 ^ 63) \<le> sf_SchemaVersion sf" "sf_SchemaVersion sf \<le> 1" by auto
    let ?n = "if sf_SchemaVersion sf = 0 then 1 else sf_SchemaVersion sf"
    have upd: "sf\<lparr>sf_SchemaVersion := x, sf_Secrets := y\<rparr> = \<lparr>sf_SchemaVersion = x, sf_Secrets = y\<rparr>"
      "sf\<lparr>sf_Secrets := y\<rparr> = \<lparr>sf_SchemaVersion = sf_SchemaVersion sf, sf_Secrets = y\<rparr>" for x y
      by (cases sf; simp)+
    have w: "writeSecretToFile cd env path k v f = ?store (?new ?n m)"
      using p Some r sf m
      by (simp add: writeSecretToFile_def os_ReadFile_def secretSchemaVersion_def start_file_def Let_def upd)
    have "file_secrets cd path f = trimmed (map_of m)"
      using read_secrets_same [OF sf] m Some p by (auto simp: file_secrets_eq fun_eq_iff)
    with w n m show ?thesis by (intro exI [of _ ?n] exI [of _ m]) simp
  qed
  then obtain n m where w: "writeSecretToFile cd env path k v f = ?store (?new n m)" and n: "- (2 ^ 63) \<le> n" "n \<le> 1"
    and m: "distinct (map fst m)" "file_secrets cd path f = trimmed (map_of m)" by blast
  from ok w have "fst (atomicWriteFile (jc_none cd) (se_write env) path (jc_print cd (secret_json (?new n m))) f) = None"
    by simp
  from atomicWriteFile_installs [OF this tmp] w
  have "last (snd (writeSecretToFile cd env path k v f)) path = Some (jc_print cd (secret_json (?new n m)))" by simp
  from file_secrets_written [where cd = cd, OF p fits distinct_update [OF m(1)] this n] m(2) v show ?thesis
    by (simp add: update_conv' trimmed_update)
qed

lemma deleteSecretFromFile_spec:
  assumes ok: "fst (deleteSecretFromFile cd env path k f) = None" and p: "TrimSpace path \<noteq> []"
    and fits: "write_fits cd env path (last (snd (deleteSecretFromFile cd env path k f)))"
  shows "file_secrets cd path (last (snd (deleteSecretFromFile cd env path k f))) = (file_secrets cd path f)(k := None)"
proof (cases "f path")
  case None
  with file_secrets_none [where f = f, OF p None, of cd] p show ?thesis
    by (simp add: deleteSecretFromFile_def os_ReadFile_def)
next
  case (Some d)
  with ok p have r: "se_read env" by (auto simp: deleteSecretFromFile_def os_ReadFile_def split: if_splits)
  with ok p Some obtain sf where sf: "read_secrets cd zero_file d = Some sf"
    by (auto simp: deleteSecretFromFile_def os_ReadFile_def zero_file_def split: option.splits)
  have "distinct_secrets zero_file" by (simp add: distinct_secrets_def zero_file_def)
  from read_secrets_distinct [OF this sf] obtain m where m: "sf_Secrets sf = Some m" "distinct (map fst m)" by auto
  have fs: "file_secrets cd path f = trimmed (map_of m)" using sf m Some p by (auto simp: file_secrets_eq fun_eq_iff)
  note d = deleteSecretFromFile_def os_ReadFile_def zero_file_def [symmetric]
  consider "map_of m k = None" | v where "map_of m k = Some v" "AList.delete k m = []"
    | v where "map_of m k = Some v" "AList.delete k m \<noteq> []"
    by (cases "map_of m k") blast+
  then show ?thesis
  proof cases
    case 1
    then show ?thesis using p Some r sf m fs by (auto simp: d Let_def trimmed_def fun_eq_iff)
  next
    case 2
    with ok p Some r sf m have "deleteSecretFromFile cd env path k f = (None, [f, os_Remove True path f])"
      by (auto simp: d Let_def split: if_splits)
    moreover have "(map_of m)(k := None) = Map.empty" using delete_conv' [of k m] 2(2) by simp
    then have "(trimmed (map_of m))(k := None) = Map.empty" by (simp flip: trimmed_delete)
    moreover have "file_secrets cd path (os_Remove True path f) = Map.empty"
      by (rule file_secrets_none [OF p]) (simp add: os_Remove_def)
    ultimately show ?thesis using fs by simp
  next
    case 3
    let ?d = "jc_print cd (secret_json \<lparr>sf_SchemaVersion = 1, sf_Secrets = Some (AList.delete k m)\<rparr>)"
    have w: "deleteSecretFromFile cd env path k f = map_prod (map_option (\<lambda>_. ErrCredentialStoreUnavailable)) id
        (atomicWriteFile (jc_none cd) (se_write env) path ?d f)"
      using 3 p Some r sf m by (simp add: d Let_def secretSchemaVersion_def)
    with ok have "fst (atomicWriteFile (jc_none cd) (se_write env) path ?d f) = None" by simp
    moreover have "ev_tmpName (we_save (se_write env)) \<notin> {path, bak path}" using fits by (simp add: write_fits_def)
    ultimately have "last (snd (deleteSecretFromFile cd env path k f)) path = Some ?d"
      using atomicWriteFile_installs w by simp
    from file_secrets_written [where cd = cd, OF p fits distinct_delete [OF m(2)] this] fs show ?thesis
      by (simp add: delete_conv' trimmed_delete)
  qed
qed

section \<open>The contract of a store of secrets\<close>

text \<open>What a client of a secret store relies on: a successful write or removal changes one key, whatever
  else is stored. \<open>fits\<close> collects what the platform must provide for the laws to hold.\<close>

locale secret_keeper =
  fixes lookup :: "'s \<Rightarrow> gostring \<Rightarrow> gostring option"
    and put :: "'e \<Rightarrow> gostring \<Rightarrow> gostring \<Rightarrow> 's \<Rightarrow> secret_error option \<times> 's"
    and remove :: "'e \<Rightarrow> gostring \<Rightarrow> 's \<Rightarrow> secret_error option \<times> 's"
    and fits :: "'e \<Rightarrow> gostring \<Rightarrow> 's \<Rightarrow> 's \<Rightarrow> bool"
  assumes put_law: "put e k v s = (None, s') \<Longrightarrow> fits e k s s' \<Longrightarrow> TrimSpace v = v \<Longrightarrow> v \<noteq> [] \<Longrightarrow>
      lookup s' = (lookup s)(k \<mapsto> v)"
    and remove_law: "remove e k s = (None, s') \<Longrightarrow> fits e k s s' \<Longrightarrow> lookup s' = (lookup s)(k := None)"
begin

lemma put_get: "put e k v s = (None, s') \<Longrightarrow> fits e k s s' \<Longrightarrow> TrimSpace v = v \<Longrightarrow> v \<noteq> [] \<Longrightarrow> lookup s' k = Some v"
  by (simp add: put_law)

lemma put_remove:
  assumes "put e k v s = (None, s1)" and "fits e k s s1" and "TrimSpace v = v" and "v \<noteq> []"
    and "remove e' k s1 = (None, s2)" and "fits e' k s1 s2" and "lookup s k = None"
  shows "lookup s2 = lookup s"
  using put_law [OF assms(1-4)] remove_law [OF assms(5,6)] assms(7) by auto

lemma remove_put:
  assumes "remove e k s = (None, s1)" and "fits e k s s1" and "put e' k v s1 = (None, s2)" and "fits e' k s1 s2"
    and "TrimSpace v = v" and "v \<noteq> []" and "lookup s k = Some v"
  shows "lookup s2 = lookup s"
  using remove_law [OF assms(1,2)] put_law [OF assms(3-6)] assms(7) by auto

end

section \<open>The laws for the file and for the store\<close>

definition last_state :: "secret_error option \<times> 'c fs list \<Rightarrow> secret_error option \<times> 'c fs" where
  "last_state r = (fst r, last (snd r))"

interpretation secret_file: secret_keeper "file_secrets cd path"
    "\<lambda>env k v f. last_state (writeSecretToFile cd env path k v f)"
    "\<lambda>env k f. last_state (deleteSecretFromFile cd env path k f)"
    "\<lambda>env k f f'. TrimSpace path \<noteq> [] \<and> write_fits cd env path f'" for cd path
proof unfold_locales
  show "file_secrets cd path s' = (file_secrets cd path s)(k \<mapsto> v)"
    if "last_state (writeSecretToFile cd e path k v s) = (None, s')" "TrimSpace path \<noteq> [] \<and> write_fits cd e path s'"
      "TrimSpace v = v" "v \<noteq> []" for cd e path k v and s s' :: "'a fs"
    using writeSecretToFile_spec [of cd e path k v s] that by (auto simp: last_state_def)
  show "file_secrets cd path s' = (file_secrets cd path s)(k := None)"
    if "last_state (deleteSecretFromFile cd e path k s) = (None, s')" "TrimSpace path \<noteq> [] \<and> write_fits cd e path s'"
    for cd e path k and s s' :: "'a fs"
    using deleteSecretFromFile_spec [of cd e path k s] that by (auto simp: last_state_def)
qed

text \<open>The secrets a store answers with, in the order environment, credential store, file.\<close>

definition store_secrets :: "'c Codec \<Rightarrow> 'b SecretStore \<Rightarrow> ('b, 'c) Vault \<Rightarrow> gostring \<rightharpoonup> gostring" where
  "store_secrets cd s v k = (case env_value s k of
       Some x \<Rightarrow> Some x
     | None \<Rightarrow> (case backend_value s (va_backend v) k of
         Some x \<Rightarrow> Some x
       | None \<Rightarrow> file_secrets cd (st_filePath s) (va_fs v) k))"

lemma secret_Get_store_secrets:
  "normalizeSecretKey key = Inr k \<Longrightarrow>
   (secret_Get cd True (Some s) key v = Inr x) = (store_secrets cd s v k = Some x)"
  by (auto simp: secret_Get_def store_secrets_def file_secrets_def split: option.splits sum.splits)

text \<open>What is expected of the credential store of the platform: what it took it answers with, what it
  deleted is gone, other keys stay, and a key it would not take is one it does not know.\<close>

definition backend_lawful :: "'b SecretStore \<Rightarrow> bool" where
  "backend_lawful s \<longleftrightarrow> (case st_credential s of
       None \<Rightarrow> True
     | Some cb \<Rightarrow> (\<forall>b k v.
         (case cb_Set cb b k v of
            (None, b') \<Rightarrow> TrimSpace v = v \<longrightarrow> v \<noteq> [] \<longrightarrow> backend_value s b' = (backend_value s b)(k \<mapsto> v)
          | (Some _, b') \<Rightarrow> backend_value s b' = (backend_value s b)(k := None)) \<and>
         (case cb_Delete cb b k of
            (None, b') \<Rightarrow> backend_value s b' = (backend_value s b)(k := None)
          | (Some _, b') \<Rightarrow> True)))"

definition store_fits :: "'c Codec \<Rightarrow> 'b SecretStore \<Rightarrow> 'c SecretEnv \<Rightarrow> gostring \<Rightarrow> ('b, 'c) Vault \<Rightarrow> ('b, 'c) Vault \<Rightarrow> bool" where
  "store_fits cd s env k v v' \<longleftrightarrow> normalizeSecretKey k = Inr k \<and> env_value s k = None \<and> backend_lawful s \<and>
     TrimSpace (st_filePath s) \<noteq> [] \<and> write_fits cd env (st_filePath s) (va_fs v') \<and>
     fst (deleteSecretFromFile cd env (st_filePath s) k (va_fs v)) = None"

lemma backend_lawful_set:
  assumes "backend_lawful s" and "st_credential s = Some cb" and "cb_Set cb b k v = (e, b')"
  shows "e = None \<Longrightarrow> TrimSpace v = v \<Longrightarrow> v \<noteq> [] \<Longrightarrow> backend_value s b' = (backend_value s b)(k \<mapsto> v)"
    and "e = Some e' \<Longrightarrow> backend_value s b' = (backend_value s b)(k := None)"
proof -
  from assms(1,2) have "case cb_Set cb b k v of
      (None, b') \<Rightarrow> TrimSpace v = v \<longrightarrow> v \<noteq> [] \<longrightarrow> backend_value s b' = (backend_value s b)(k \<mapsto> v)
    | (Some _, b') \<Rightarrow> backend_value s b' = (backend_value s b)(k := None)"
    unfolding backend_lawful_def by simp
  with assms(3) show "e = None \<Longrightarrow> TrimSpace v = v \<Longrightarrow> v \<noteq> [] \<Longrightarrow> backend_value s b' = (backend_value s b)(k \<mapsto> v)"
    and "e = Some e' \<Longrightarrow> backend_value s b' = (backend_value s b)(k := None)"
    by simp_all
qed

lemma backend_lawful_delete:
  assumes "backend_lawful s" and "st_credential s = Some cb" and "cb_Delete cb b k = (None, b')"
  shows "backend_value s b' = (backend_value s b)(k := None)"
proof -
  from assms(1,2) have "case cb_Delete cb b k of
      (None, b') \<Rightarrow> backend_value s b' = (backend_value s b)(k := None) | (Some _, b') \<Rightarrow> True"
    unfolding backend_lawful_def by simp
  with assms(3) show ?thesis by simp
qed

lemma backend_value_None: "st_credential s = None \<Longrightarrow> backend_value s b k = None"
  by (simp add: backend_value_def)

lemma store_secrets_file:
  assumes "env_value s k = None" and "backend_value s (va_backend v') = (backend_value s (va_backend v))(k := None)"
    and "file_secrets cd (st_filePath s) (va_fs v') = (file_secrets cd (st_filePath s) (va_fs v))(k := y)"
  shows "store_secrets cd s v' = (store_secrets cd s v)(k := y)"
  using assms(1) by (auto simp: store_secrets_def assms(2,3) intro!: ext split: option.split)

lemma store_secrets_backend:
  assumes "env_value s k = None" and "backend_value s (va_backend v') = (backend_value s (va_backend v))(k \<mapsto> x)"
    and "file_secrets cd (st_filePath s) (va_fs v') = (file_secrets cd (st_filePath s) (va_fs v))(k := None)"
  shows "store_secrets cd s v' = (store_secrets cd s v)(k \<mapsto> x)"
  using assms(1) by (auto simp: store_secrets_def assms(2,3) intro!: ext split: option.split)

lemma secret_Set_law:
  assumes set: "secret_Set cd env (Some s) k x v = (None, v')" and fits: "store_fits cd s env k v v'"
    and x: "TrimSpace x = x" "x \<noteq> []"
  shows "store_secrets cd s v' = (store_secrets cd s v)(k \<mapsto> x)"
proof -
  let ?p = "st_filePath s"
  from fits have k: "normalizeSecretKey k = Inr k" "env_value s k = None" "backend_lawful s" "TrimSpace ?p \<noteq> []"
    "write_fits cd env ?p (va_fs v')" "fst (deleteSecretFromFile cd env ?p k (va_fs v)) = None"
    by (simp_all add: store_fits_def)
  have file_write: ?thesis
    if w: "writeSecretToFile cd env ?p k x (va_fs v) = (None, fss)" and v': "va_fs v' = last fss"
      and b: "backend_value s (va_backend v') = (backend_value s (va_backend v))(k := None)" for fss
  proof (rule store_secrets_file [OF k(2) b])
    show "file_secrets cd ?p (va_fs v') = (file_secrets cd ?p (va_fs v))(k \<mapsto> x)"
      using secret_file.put_law [where cd = cd and path = ?p and e = env and k = k and v = x and s = "va_fs v"
          and s' = "va_fs v'"] w v' x k by (simp add: last_state_def)
  qed
  show ?thesis
  proof (cases "st_credential s")
    case None
    then obtain fss where "writeSecretToFile cd env ?p k x (va_fs v) = (None, fss)" "v' = v\<lparr>va_fs := last fss\<rparr>"
      using set k x by (auto simp: secret_Set_def Let_def split: if_splits prod.splits)
    then show ?thesis using file_write backend_value_None [OF None] by (simp add: fun_upd_idem)
  next
    case (Some cb)
    obtain e b where eb: "cb_Set cb (va_backend v) k x = (e, b)" by fastforce
    show ?thesis
    proof (cases e)
      case None
      with set k x Some eb have v': "va_backend v' = b" "va_fs v' = last (snd (deleteSecretFromFile cd env ?p k (va_fs v)))"
        by (auto simp: secret_Set_def Let_def split: if_splits)
      have "backend_value s b = (backend_value s (va_backend v))(k \<mapsto> x)"
        using backend_lawful_set(1) [OF k(3) Some eb None x] .
      moreover have "file_secrets cd ?p (va_fs v') = (file_secrets cd ?p (va_fs v))(k := None)"
        using secret_file.remove_law [where cd = cd and path = ?p and e = env and k = k and s = "va_fs v" and s' = "va_fs v'"] k v' by (simp add: last_state_def prod_eq_iff)
      ultimately show ?thesis using v' k(2) by (intro store_secrets_backend) simp_all
    next
      case e: (Some e')
      with set k x Some eb obtain fss where
        "writeSecretToFile cd env ?p k x (va_fs v) = (None, fss)" "va_fs v' = last fss" "va_backend v' = b"
        by (auto simp: secret_Set_def Let_def split: if_splits prod.splits)
      moreover have "backend_value s b = (backend_value s (va_backend v))(k := None)"
        using backend_lawful_set(2) [OF k(3) Some eb e] .
      ultimately show ?thesis using file_write by simp
    qed
  qed
qed

lemma DeleteStrict_law:
  assumes del: "DeleteStrict cd env (Some s) k v = (None, v')" and fits: "store_fits cd s env k v v'"
  shows "store_secrets cd s v' = (store_secrets cd s v)(k := None)"
proof -
  let ?p = "st_filePath s"
  from fits have k: "normalizeSecretKey k = Inr k" "env_value s k = None" "backend_lawful s" "TrimSpace ?p \<noteq> []"
    "write_fits cd env ?p (va_fs v')" "fst (deleteSecretFromFile cd env ?p k (va_fs v)) = None"
    by (simp_all add: store_fits_def)
  have fs: "va_fs v' = last (snd (deleteSecretFromFile cd env ?p k (va_fs v)))"
    using del k by (auto simp: DeleteStrict_def delete_both_def Let_def split: prod.splits if_splits)
  have "file_secrets cd ?p (va_fs v') = (file_secrets cd ?p (va_fs v))(k := None)"
    using secret_file.remove_law [where cd = cd and path = ?p and e = env and k = k and s = "va_fs v" and s' = "va_fs v'"] k fs by (simp add: last_state_def prod_eq_iff)
  moreover have "backend_value s (va_backend v') = (backend_value s (va_backend v))(k := None)"
  proof (cases "st_credential s")
    case None
    with backend_value_None [OF None] show ?thesis by (auto simp: fun_eq_iff)
  next
    case (Some cb)
    obtain e b where eb: "cb_Delete cb (va_backend v) k = (e, b)" by fastforce
    with del k Some have "e = None" "va_backend v' = b"
      by (auto simp: DeleteStrict_def delete_both_def Let_def split: prod.splits if_splits)
    with backend_lawful_delete [OF k(3) Some] eb show ?thesis by simp
  qed
  ultimately show ?thesis by (intro store_secrets_file k(2))
qed

interpretation secret_store: secret_keeper "store_secrets cd st" "\<lambda>env. secret_Set cd env (Some st)"
    "\<lambda>env. DeleteStrict cd env (Some st)" "store_fits cd st" for cd and st :: "'b SecretStore"
  by unfold_locales (fact secret_Set_law, fact DeleteStrict_law)

section \<open>Properties\<close>

lemma secret_Set_trim: "secret_Set cd env store k (TrimSpace x) v = secret_Set cd env store k x v"
  unfolding secret_Set_def TrimSpace_idem by (rule refl)

text \<open>A secret that was set is the one looked up afterwards, trimmed, and every other key answers as
  before; a secret that was deleted strictly is not found any more, and deleting what was just set
  leaves every key as it was. This holds when the environment does not define the key, the credential
  store of the platform keeps its contract and the protected file could be updated.\<close>

theorem secret_Set_Get:
  assumes set: "secret_Set cd env (Some s) k x v = (None, v1)" "store_fits cd s env k v v1"
    and del: "DeleteStrict cd env' (Some s) k v1 = (None, v2)" "store_fits cd s env' k v1 v2"
    and other: "normalizeSecretKey k' = Inr k'" "k' \<noteq> k"
  shows "secret_Get cd True (Some s) k v1 = Inr (TrimSpace x) \<and> secret_Get cd True (Some s) k v2 \<noteq> Inr y \<and>
    (secret_Get cd True (Some s) k' v1 = Inr y) = (secret_Get cd True (Some s) k' v = Inr y) \<and>
    (secret_Get cd True (Some s) k' v2 = Inr y) = (secret_Get cd True (Some s) k' v = Inr y)"
proof -
  have k: "normalizeSecretKey k = Inr k" using set(2) by (simp add: store_fits_def)
  from set(1) k have ne: "TrimSpace x \<noteq> []" by (auto simp: secret_Set_def Let_def split: if_splits)
  from set(1) have set1: "secret_Set cd env (Some s) k (TrimSpace x) v = (None, v1)" by (simp only: secret_Set_trim)
  note laws = secret_store.put_law [where cd = cd and st = s, OF set1 set(2) _ ne]
    secret_store.remove_law [where cd = cd and st = s, OF del]
  note get = secret_Get_store_secrets [where cd = cd and s = s, OF k] secret_Get_store_secrets [where cd = cd and s = s, OF other(1)]
  have "secret_Get cd True (Some s) k v1 = Inr (TrimSpace x)" using laws(1) by (simp add: get)
  moreover have "(secret_Get cd True (Some s) k' v1 = Inr y) = (secret_Get cd True (Some s) k' v = Inr y)"
    using laws(1) other(2) by (simp add: get)
  moreover have "secret_Get cd True (Some s) k v2 \<noteq> Inr y" using laws(2) by (simp add: get)
  moreover have "(secret_Get cd True (Some s) k' v2 = Inr y) = (secret_Get cd True (Some s) k' v = Inr y)"
    using laws other(2) by (simp add: get)
  ultimately show ?thesis by blast
qed

text \<open>A key the credential store answers for but does not take is shadowed: on macOS, where the adapter never
  writes, \<open>Set\<close> reports success and \<open>Get\<close> keeps answering with the old value.\<close>

lemma secret_Set_shadowed:
  assumes s: "st_credential s = newPlatformCredentialBackend run ''darwin''" and k: "normalizeSecretKey k = Inr k"
    and old: "fst (run ''security'' [''find-generic-password'', ''-s'', ApplicationName, ''-a'', k, ''-w''] [] (va_backend v)) = Inr old"
      "TrimSpace old \<noteq> []"
    and set: "secret_Set cd env (Some s) k x v = (None, v1)" and env: "env_value s k = None"
  shows "secret_Get cd True (Some s) k v1 = Inr (TrimSpace old)"
proof -
  let ?cb = "commandCredentialBackend run ''security''"
  have cb: "st_credential s = Some ?cb" using s by (simp add: newPlatformCredentialBackend_def)
  have "cb_Set ?cb (va_backend v) k y = (Some ErrCredentialStoreUnavailable, va_backend v)" for y
    by (simp add: commandCredentialBackend_def command_Set_def)
  with set cb k have "va_backend v1 = va_backend v"
    by (auto simp: secret_Set_def Let_def split: if_splits prod.splits)
  moreover have "backend_value s (va_backend v) k = Some (TrimSpace old)"
    using old cb by (simp add: backend_value_def commandCredentialBackend_def command_Get_def command_run_def)
  ultimately show ?thesis using k env by (simp add: secret_Get_def)
qed

definition sample_codec :: "json Codec" where
  "sample_codec = \<lparr>jc_print = id, jc_parse = Some, jc_size = \<lambda>_. 0, jc_none = JNull\<rparr>"

definition sample_secret_env :: "json SecretEnv" where
  "sample_secret_env = \<lparr>se_read = True, se_remove = True, se_write = ok_write JNull\<rparr>"

definition sample_store :: "unit SecretStore" where
  "sample_store = \<lparr>st_envLookup = Map.empty, st_credential = None, st_filePath = ''sec''\<rparr>"

lemmas sample_secret_defs = sample_codec_def sample_secret_env_def sample_store_def ok_write_def ok_env_def

lemma sample_write: "atomicWriteFile JNull (ok_write JNull) ''sec'' d f =
    (None, [f, f(''t'' \<mapsto> JNull), f(''t'' \<mapsto> JNull), f(''t'' \<mapsto> d), f(''t'' := None, ''sec'' \<mapsto> d), f(''t'' := None, ''sec'' \<mapsto> d)])"
proof -
  have "TrimSpace ''sec'' \<noteq> []" by code_simp
  then show ?thesis
    by (auto simp: atomicWriteFile_def ok_write_def ok_env_def replaceFile_def os_Rename_def with_cleanup_def os_Remove_def Let_def)
qed

theorem secret_Set_Get_witness:
  "secret_Get sample_codec True (Some sample_store) ''k''
     (snd (secret_Set sample_codec sample_secret_env (Some sample_store) ''k'' '' x'' \<lparr>va_backend = (), va_fs = Map.empty\<rparr>)) = Inr ''x''"
proof -
  let ?v = "\<lparr>va_backend = (), va_fs = Map.empty\<rparr>"
  define v1 where "v1 = snd (secret_Set sample_codec sample_secret_env (Some sample_store) ''k'' '' x'' ?v)"
  define v2 where "v2 = snd (DeleteStrict sample_codec sample_secret_env (Some sample_store) ''k'' v1)"
  have t: "TrimSpace ''sec'' \<noteq> []" "normalizeSecretKey ''k'' = Inr ''k''" "TrimSpace '' x'' = ''x''" "normalizeSecretKey ''j'' = Inr ''j''"
    by code_simp+
  define d where "d = secret_json \<lparr>sf_SchemaVersion = 1, sf_Secrets = Some [(''k'', ''x'')]\<rparr>"
  have wr: "writeSecretToFile sample_codec sample_secret_env ''sec'' ''k'' ''x'' Map.empty =
      (None, snd (atomicWriteFile JNull (ok_write JNull) ''sec'' d Map.empty))"
    using t(1) sample_write [of d Map.empty]
    by (simp add: writeSecretToFile_def os_ReadFile_def sample_codec_def sample_secret_env_def secretSchemaVersion_def d_def Let_def)
  have set1: "secret_Set sample_codec sample_secret_env (Some sample_store) ''k'' '' x'' ?v = (None, v1)"
    and v1: "v1 = \<lparr>va_backend = (), va_fs = Map.empty(''t'' := None, ''sec'' \<mapsto> d)\<rparr>"
    unfolding v1_def secret_Set_def using t wr sample_write [of d Map.empty] by (simp_all add: sample_store_def Let_def)
  have rd: "read_secrets sample_codec \<lparr>sf_SchemaVersion = 0, sf_Secrets = None\<rparr> d = Some \<lparr>sf_SchemaVersion = 1, sf_Secrets = Some [(''k'', ''x'')]\<rparr>"
    using read_secrets_written [of sample_codec "[(''k'', ''x'')]" 1] by (simp add: sample_codec_def codec_ok_def d_def zero_file_def)
  have dl: "deleteSecretFromFile sample_codec sample_secret_env ''sec'' ''k'' (va_fs v1) = (None, [va_fs v1, os_Remove True ''sec'' (va_fs v1)])"
    using t(1) rd by (simp add: deleteSecretFromFile_def os_ReadFile_def v1 sample_secret_env_def)
  have del2: "DeleteStrict sample_codec sample_secret_env (Some sample_store) ''k'' v1 = (None, v2)"
    unfolding v2_def DeleteStrict_def delete_both_def using t dl by (simp add: sample_store_def)
  have d0: "fst (deleteSecretFromFile sample_codec sample_secret_env ''sec'' ''k'' Map.empty) = None"
    using t(1) by (simp add: deleteSecretFromFile_def os_ReadFile_def)
  have fits: "write_fits sample_codec sample_secret_env ''sec'' f" for f
    by (simp add: write_fits_def sample_secret_defs codec_ok_def bak_def)
  have "store_fits sample_codec sample_store sample_secret_env ''k'' ?v v1"
    "store_fits sample_codec sample_store sample_secret_env ''k'' v1 v2"
    using t fits d0 dl by (simp_all add: store_fits_def sample_store_def env_value_def backend_lawful_def)
  from secret_Set_Get [OF set1 this(1) del2 this(2) t(4)] t(3) show ?thesis by (simp add: v1_def)
qed

end
