(* ===== verification/Sse.thy ===== *)
theory Sse
  imports JsonCodec
begin

text \<open>
  The answers of OpenAI-compatible upstreams: the server-sent events of a streaming answer and the body
  of a non-streaming one, read by \<open>chat.go\<close> of the packages \<open>opencode\<close>, \<open>gemini\<close>, \<open>xai\<close> and
  \<open>nvidia\<close>. The bytes that arrive and how they end are given (\<open>Body\<close>), as is the text of JSON values
  (\<open>JsonText\<close>); what the client's context answers is a function of the bytes still to be read.
\<close>

section \<open>Bytes and lines\<close>

definition newline :: char where
  "newline = CHR 0x0A"

text \<open>The bytes of a body and the error that ends them, \<open>None\<close> for the end of the file.\<close>

record Body =
  bd_data :: gostring
  bd_fail :: "goerr option"

text \<open>\<open>bufio.Reader.ReadString\<close>: the line with its newline, the rest, and whether the newline was found.\<close>

fun ReadString :: "gostring \<Rightarrow> gostring \<times> gostring \<times> bool" where
  "ReadString [] = ([], [], False)"
| "ReadString (c # s) =
     (if c = newline then ([c], s, True)
      else case ReadString s of (line, rest, found) \<Rightarrow> (c # line, rest, found))"

lemma ReadString_split: "ReadString s = (line, rest, found) \<Longrightarrow> s = line @ rest"
  by (induction s arbitrary: line) (auto split: if_splits prod.splits)

lemma ReadString_found: "ReadString s = (line, rest, True) \<Longrightarrow> length rest < length s"
  by (induction s arbitrary: line) (auto split: if_splits prod.splits)

lemma ReadString_last: "ReadString s = (line, rest, False) \<Longrightarrow> rest = [] \<and> line = s"
  by (induction s arbitrary: line) (auto split: if_splits prod.splits)

lemma ReadString_line: "newline \<notin> set l \<Longrightarrow> ReadString (l @ newline # s) = (l @ [newline], s, True)"
  by (induction l) auto

text \<open>\<open>strings.TrimRight(line, "\r\n")\<close>\<close>

definition trim_crlf :: "gostring \<Rightarrow> gostring" where
  "trim_crlf s = rev (dropWhile (\<lambda>c. c = CHR 0x0D \<or> c = newline) (rev s))"

section \<open>JSON answers (chat.go)\<close>

text \<open>Parsing a text, and the bytes of a value inside of a parsed text, which \<open>json.RawMessage\<close> keeps.\<close>

record JsonText =
  jt_parse :: "gostring \<Rightarrow> json option"
  jt_text :: "json \<Rightarrow> gostring"

definition dec_raw :: "JsonText \<Rightarrow> gostring \<Rightarrow> json \<Rightarrow> gostring option" where
  "dec_raw txt old j = Some (jt_text txt j)"

record Delta =
  dl_Content :: gostring
  dl_ReasoningContent :: gostring
  dl_ToolCalls :: "gostring list"

record ChunkChoice =
  cc_Index :: int
  cc_Delta :: Delta
  cc_FinishReason :: gostring

record SseChunk =
  ck_Choices :: "ChunkChoice list"
  ck_Usage :: "TokenUsage option"

definition zero_delta :: Delta where
  "zero_delta = \<lparr>dl_Content = [], dl_ReasoningContent = [], dl_ToolCalls = []\<rparr>"

definition zero_choice :: ChunkChoice where
  "zero_choice = \<lparr>cc_Index = 0, cc_Delta = zero_delta, cc_FinishReason = []\<rparr>"

definition usage_field :: "gostring \<Rightarrow> json \<Rightarrow> TokenUsage \<Rightarrow> TokenUsage option" where
  "usage_field k j u = (case field_named [''prompt_tokens'', ''completion_tokens'', ''total_tokens''] k of
       None \<Rightarrow> Some u
     | Some n \<Rightarrow>
         if n = ''prompt_tokens'' then map_option (\<lambda>x. u\<lparr>tu_Prompt := x\<rparr>) (dec_int (tu_Prompt u) j)
         else if n = ''completion_tokens'' then map_option (\<lambda>x. u\<lparr>tu_Completion := x\<rparr>) (dec_int (tu_Completion u) j)
         else map_option (\<lambda>x. u\<lparr>tu_Total := x\<rparr>) (dec_int (tu_Total u) j))"

definition delta_field :: "JsonText \<Rightarrow> gostring \<Rightarrow> json \<Rightarrow> Delta \<Rightarrow> Delta option" where
  "delta_field txt k j d = (case field_named [''content'', ''reasoning_content'', ''tool_calls''] k of
       None \<Rightarrow> Some d
     | Some n \<Rightarrow>
         if n = ''content'' then map_option (\<lambda>x. d\<lparr>dl_Content := x\<rparr>) (dec_string (dl_Content d) j)
         else if n = ''reasoning_content''
         then map_option (\<lambda>x. d\<lparr>dl_ReasoningContent := x\<rparr>) (dec_string (dl_ReasoningContent d) j)
         else map_option (\<lambda>x. d\<lparr>dl_ToolCalls := x\<rparr>) (dec_list (dec_raw txt) [] (dl_ToolCalls d) j))"

definition choice_field :: "JsonText \<Rightarrow> gostring \<Rightarrow> json \<Rightarrow> ChunkChoice \<Rightarrow> ChunkChoice option" where
  "choice_field txt k j c = (case field_named [''index'', ''delta'', ''finish_reason''] k of
       None \<Rightarrow> Some c
     | Some n \<Rightarrow>
         if n = ''index'' then map_option (\<lambda>x. c\<lparr>cc_Index := x\<rparr>) (dec_int (cc_Index c) j)
         else if n = ''delta''
         then map_option (\<lambda>x. c\<lparr>cc_Delta := x\<rparr>) (dec_struct (delta_field txt) (cc_Delta c) j)
         else map_option (\<lambda>x. c\<lparr>cc_FinishReason := x\<rparr>) (dec_string (cc_FinishReason c) j))"

definition chunk_field :: "JsonText \<Rightarrow> gostring \<Rightarrow> json \<Rightarrow> SseChunk \<Rightarrow> SseChunk option" where
  "chunk_field txt k j c = (case field_named [''choices'', ''usage''] k of
       None \<Rightarrow> Some c
     | Some n \<Rightarrow>
         if n = ''choices''
         then map_option (\<lambda>x. c\<lparr>ck_Choices := x\<rparr>)
           (dec_list (dec_struct (choice_field txt)) zero_choice (ck_Choices c) j)
         else map_option (\<lambda>x. c\<lparr>ck_Usage := x\<rparr>) (dec_ptr (dec_struct usage_field) no_tokens (ck_Usage c) j))"

definition dec_chunk :: "JsonText \<Rightarrow> gostring \<Rightarrow> SseChunk option" where
  "dec_chunk txt data =
     Option.bind (jt_parse txt data) (dec_struct (chunk_field txt) \<lparr>ck_Choices = [], ck_Usage = None\<rparr>)"

section \<open>The event stream (chat.go)\<close>

definition protocol_failure :: "goerr \<Rightarrow> goerr" where
  "protocol_failure cause = NewFailureError (NewFailure FailureProtocol ScopeRoute) (Some cause)"

definition chunk_event :: "SseChunk \<Rightarrow> ChunkChoice \<Rightarrow> StreamEvent" where
  "chunk_event chunk c =
     \<lparr>ev_DeltaText = dl_Content (cc_Delta c), ev_ChoiceIndex = cc_Index c,
      ev_ToolCalls = dl_ToolCalls (cc_Delta c), ev_ReasoningContent = dl_ReasoningContent (cc_Delta c),
      ev_FinishReason = cc_FinishReason c, ev_Usage = ck_Usage chunk\<rparr>"

text \<open>What one line means for the loop: go on, stop with an error or the end, or an event.\<close>

datatype line_effect = Skip | Stop goerr | Emit StreamEvent

definition data_prefix :: gostring where
  "data_prefix = ''data'' @ [colon]"

definition sse_data :: "JsonText \<Rightarrow> gostring \<Rightarrow> line_effect" where
  "sse_data txt data =
     (if data = ''[DONE]'' then Stop ErrEOF
      else case dec_chunk txt data of
        None \<Rightarrow> Stop (protocol_failure (PlainError ''invalid JSON''))
      | Some chunk \<Rightarrow>
          (case ck_Choices chunk of
             [] \<Rightarrow> Skip
           | c # _ \<Rightarrow> if Semantic (chunk_event chunk c) then Emit (chunk_event chunk c) else Skip))"

definition sse_line :: "JsonText \<Rightarrow> gostring \<Rightarrow> line_effect" where
  "sse_line txt raw =
     (let line = trim_crlf raw
      in if line = [] \<or> HasPrefix line [colon] then Skip
         else if \<not> HasPrefix line data_prefix then Skip
         else sse_data txt (TrimSpace (drop (length data_prefix) line)))"

text \<open>
  What \<open>ctx.Err()\<close> answers: at the top of the loop, by the number of bytes left, and after a failed
  read. \<open>keepLast\<close> tells the two readers apart: \<open>gemini\<close> and \<open>xai\<close> look at a last line without
  newline, \<open>opencode\<close> and \<open>nvidia\<close> drop it.
\<close>

record CtxView =
  cx_top :: "nat \<Rightarrow> goerr option"
  cx_read :: "goerr option"

function sse_loop ::
  "bool \<Rightarrow> JsonText \<Rightarrow> CtxView \<Rightarrow> goerr option \<Rightarrow> gostring \<Rightarrow> (goerr + StreamEvent) \<times> gostring \<times> bool" where
  "sse_loop keepLast txt cx fail s =
     (case cx_top cx (length s) of
        Some e \<Rightarrow> (Inl e, s, True)
      | None \<Rightarrow>
          (case ReadString s of (line, rest, found) \<Rightarrow>
             if found then
               (case sse_line txt line of
                  Skip \<Rightarrow> sse_loop keepLast txt cx fail rest
                | Stop e \<Rightarrow> (Inl e, rest, True)
                | Emit e \<Rightarrow> (Inr e, rest, False))
             else
               (case fail of
                  Some e \<Rightarrow>
                    (Inl (case cx_read cx of Some c \<Rightarrow> c | None \<Rightarrow> protocol_failure e), rest, True)
                | None \<Rightarrow>
                    if \<not> keepLast \<or> TrimSpace line = [] then (Inl ErrEOF, rest, True)
                    else if trim_crlf line = [] \<or> HasPrefix (trim_crlf line) [colon] then (Inl ErrEOF, rest, True)
                    else
                      (case sse_line txt line of
                         Skip \<Rightarrow> (Inl (case cx_top cx 0 of Some e \<Rightarrow> e | None \<Rightarrow> ErrEOF), rest, True)
                       | Stop e \<Rightarrow> (Inl e, rest, True)
                       | Emit e \<Rightarrow> (Inr e, rest, True)))))"
  by pat_completeness auto

termination
  by (relation "measure (\<lambda>(_, _, _, _, s). length s)") (auto dest: ReadString_found [OF sym])

declare sse_loop.simps [simp del]

record SseStream =
  ss_body :: Body
  ss_done :: bool

definition sse_Next ::
  "bool \<Rightarrow> JsonText \<Rightarrow> CtxView \<Rightarrow> SseStream \<Rightarrow> (goerr + StreamEvent) \<times> SseStream" where
  "sse_Next keepLast txt cx s =
     (if ss_done s then (Inl ErrEOF, s)
      else case sse_loop keepLast txt cx (bd_fail (ss_body s)) (bd_data (ss_body s)) of
        (r, rest, finished) \<Rightarrow> (r, \<lparr>ss_body = (ss_body s)\<lparr>bd_data := rest\<rparr>, ss_done = finished\<rparr>))"

definition opencode_Next :: "JsonText \<Rightarrow> CtxView \<Rightarrow> SseStream \<Rightarrow> (goerr + StreamEvent) \<times> SseStream" where
  "opencode_Next = sse_Next False"

definition nvidia_Next :: "JsonText \<Rightarrow> CtxView \<Rightarrow> SseStream \<Rightarrow> (goerr + StreamEvent) \<times> SseStream" where
  "nvidia_Next = sse_Next False"

definition gemini_Next :: "JsonText \<Rightarrow> CtxView \<Rightarrow> SseStream \<Rightarrow> (goerr + StreamEvent) \<times> SseStream" where
  "gemini_Next = sse_Next True"

definition xai_Next :: "JsonText \<Rightarrow> CtxView \<Rightarrow> SseStream \<Rightarrow> (goerr + StreamEvent) \<times> SseStream" where
  "xai_Next = sse_Next True"

text \<open>A single parsed answer as a stream.\<close>

record OneShot =
  on_ev :: StreamEvent
  on_done :: bool

definition oneShot_Next :: "OneShot \<Rightarrow> (goerr + StreamEvent) \<times> OneShot" where
  "oneShot_Next s = (if on_done s then (Inl ErrEOF, s) else (Inr (on_ev s), s\<lparr>on_done := True\<rparr>))"

section \<open>Every stream ends\<close>

lemma sse_data_Emit: "sse_data txt d = Emit e \<Longrightarrow> Semantic e"
  by (auto simp: sse_data_def split: if_splits option.splits list.splits)

lemma sse_line_Emit: "sse_line txt l = Emit e \<Longrightarrow> Semantic e"
  by (auto simp: sse_line_def Let_def dest: sse_data_Emit split: if_splits)

lemma sse_loop_event:
  "sse_loop k txt cx fail s = (Inr e, rest, finished) \<Longrightarrow> Semantic e \<and> length rest < length s"
proof (induction k "txt" cx fail s rule: sse_loop.induct)
  case (1 k jt cx fail s)
  obtain line r found where L: "ReadString s = (line, r, found)" by (metis prod_cases3)
  from 1(2) have c: "cx_top cx (length s) = None" by (auto simp: sse_loop.simps [of _ _ _ _ s] split: option.splits)
  show ?case
  proof (cases found)
    case True
    with L have lt: "length r < length s" using ReadString_found by simp
    show ?thesis
    proof (cases "sse_line jt line")
      case Skip
      with 1(2) c L True have "sse_loop k jt cx fail r = (Inr e, rest, finished)"
        by (simp add: sse_loop.simps [of _ _ _ _ s])
      from 1(1) [OF c L [symmetric] refl True Skip this] lt show ?thesis by simp
    next
      case (Emit e')
      with 1(2) c L True have "e' = e" "rest = r" by (simp_all add: sse_loop.simps [of _ _ _ _ s])
      with lt sse_line_Emit [OF Emit] show ?thesis by simp
    qed (use 1(2) c L True in \<open>simp add: sse_loop.simps [of _ _ _ _ s]\<close>)
  next
    case False
    with L have r: "r = []" "line = s" using ReadString_last by simp_all
    have ns: "TrimSpace [] = []" by (simp add: TrimSpace_def)
    from 1(2) c L False have f: "fail = None" "k" "TrimSpace line \<noteq> []"
      by (auto simp: sse_loop.simps [of _ _ _ _ s] split: option.splits if_splits)
    with 1(2) c L False have "sse_line jt line = Emit e" "rest = r"
      by (auto simp: sse_loop.simps [of _ _ _ _ s] split: option.splits if_splits line_effect.splits)
    with f(3) r ns show ?thesis by (auto dest: sse_line_Emit)
  qed
qed

lemma sse_Next_event:
  "sse_Next k txt cx s = (Inr e, s') \<Longrightarrow> Semantic e \<and> length (bd_data (ss_body s')) < length (bd_data (ss_body s))"
  by (auto simp: sse_Next_def dest: sse_loop_event split: if_splits prod.splits)

text \<open>Reading a stream to its end: at most \<open>n\<close> events, and the error that ended it.\<close>

fun sse_drain ::
  "bool \<Rightarrow> JsonText \<Rightarrow> CtxView \<Rightarrow> nat \<Rightarrow> SseStream \<Rightarrow> StreamEvent list \<times> goerr option" where
  "sse_drain k txt cx 0 s = ([], None)"
| "sse_drain k txt cx (Suc n) s =
     (case sse_Next k txt cx s of
        (Inl e, _) \<Rightarrow> ([], Some e)
      | (Inr ev, s') \<Rightarrow> (case sse_drain k txt cx n s' of (evs, r) \<Rightarrow> (ev # evs, r)))"

lemma sse_drain_ends:
  "length (bd_data (ss_body s)) < n \<Longrightarrow> snd (sse_drain k txt cx n s) \<noteq> None \<and> list_all Semantic (fst (sse_drain k txt cx n s))"
proof (induction n arbitrary: s)
  case (Suc n)
  obtain r s' where N: "sse_Next k txt cx s = (r, s')" by fastforce
  show ?case
  proof (cases r)
    case (Inr e)
    with N sse_Next_event have "Semantic e" "length (bd_data (ss_body s')) < n" using Suc.prems by force+
    with Suc.IH [of s'] N Inr show ?thesis by (auto split: prod.split)
  qed (use N in simp)
qed simp

section \<open>What a server sends is what is read\<close>

record ChunkData =
  cd_Index :: int
  cd_Text :: gostring
  cd_Thought :: gostring
  cd_Tools :: "json list"
  cd_Finish :: gostring
  cd_Tokens :: "TokenUsage option"

definition in64 :: "int \<Rightarrow> bool" where
  "in64 n \<longleftrightarrow> - (2 ^ 63) \<le> n \<and> n < 2 ^ 63"

definition chunk_json :: "ChunkData \<Rightarrow> json" where
  "chunk_json c = JObj ((''choices'', JArr [JObj [(''index'', enc_int (cd_Index c)),
      (''delta'', JObj [(''content'', JStr (cd_Text c)), (''reasoning_content'', JStr (cd_Thought c)),
         (''tool_calls'', JArr (cd_Tools c))]), (''finish_reason'', JStr (cd_Finish c))]]) #
      (case cd_Tokens c of None \<Rightarrow> []
       | Some u \<Rightarrow> [(''usage'', JObj [(''prompt_tokens'', enc_int (tu_Prompt u)),
           (''completion_tokens'', enc_int (tu_Completion u)), (''total_tokens'', enc_int (tu_Total u))])]))"

definition sent_event :: "JsonText \<Rightarrow> ChunkData \<Rightarrow> StreamEvent" where
  "sent_event txt c = \<lparr>ev_DeltaText = cd_Text c, ev_ChoiceIndex = cd_Index c,
      ev_ToolCalls = map (jt_text txt) (cd_Tools c), ev_ReasoningContent = cd_Thought c,
      ev_FinishReason = cd_Finish c, ev_Usage = cd_Tokens c\<rparr>"

definition chunk_ok :: "ChunkData \<Rightarrow> bool" where
  "chunk_ok c \<longleftrightarrow> in64 (cd_Index c) \<and>
     (case cd_Tokens c of None \<Rightarrow> True | Some u \<Rightarrow> in64 (tu_Prompt u) \<and> in64 (tu_Completion u) \<and> in64 (tu_Total u))"

lemma wire_names:
  "field_named [''choices'', ''usage''] ''choices'' = Some ''choices''"
  "field_named [''choices'', ''usage''] ''usage'' = Some ''usage''"
  "field_named [''index'', ''delta'', ''finish_reason''] ''index'' = Some ''index''"
  "field_named [''index'', ''delta'', ''finish_reason''] ''delta'' = Some ''delta''"
  "field_named [''index'', ''delta'', ''finish_reason''] ''finish_reason'' = Some ''finish_reason''"
  "field_named [''content'', ''reasoning_content'', ''tool_calls''] ''content'' = Some ''content''"
  "field_named [''content'', ''reasoning_content'', ''tool_calls''] ''reasoning_content'' = Some ''reasoning_content''"
  "field_named [''content'', ''reasoning_content'', ''tool_calls''] ''tool_calls'' = Some ''tool_calls''"
  "field_named [''prompt_tokens'', ''completion_tokens'', ''total_tokens''] ''prompt_tokens'' = Some ''prompt_tokens''"
  "field_named [''prompt_tokens'', ''completion_tokens'', ''total_tokens''] ''completion_tokens'' = Some ''completion_tokens''"
  "field_named [''prompt_tokens'', ''completion_tokens'', ''total_tokens''] ''total_tokens'' = Some ''total_tokens''"
  by code_simp+

lemma dec_elems_raw: "dec_elems (dec_raw txt) z old js = Some (map (jt_text txt) js)"
  by (induction js arbitrary: old) (simp_all add: dec_raw_def)

lemma dec_usage_json:
  "in64 a \<Longrightarrow> in64 b \<Longrightarrow> in64 c \<Longrightarrow>
   dec_struct usage_field no_tokens (JObj [(''prompt_tokens'', enc_int a), (''completion_tokens'', enc_int b),
     (''total_tokens'', enc_int c)]) = Some \<lparr>tu_Prompt = a, tu_Completion = b, tu_Total = c\<rparr>"
  by (simp add: dec_struct_def usage_field_def wire_names no_tokens_def in64_def)

lemma dec_chunk_json:
  assumes "jt_parse txt d = Some (chunk_json c)" and "chunk_ok c"
  shows "dec_chunk txt d = Some \<lparr>ck_Choices = [\<lparr>cc_Index = cd_Index c, cc_Delta = \<lparr>dl_Content = cd_Text c,
      dl_ReasoningContent = cd_Thought c, dl_ToolCalls = map (jt_text txt) (cd_Tools c)\<rparr>, cc_FinishReason = cd_Finish c\<rparr>],
      ck_Usage = cd_Tokens c\<rparr>"
proof -
  have i: "dec_int 0 (enc_int (cd_Index c)) = Some (cd_Index c)" using assms(2) by (simp add: chunk_ok_def in64_def)
  show ?thesis
  proof (cases "cd_Tokens c")
    case None
    with assms i show ?thesis
      by (simp add: dec_chunk_def chunk_json_def dec_struct_def chunk_field_def choice_field_def delta_field_def
          wire_names dec_list_def dec_elems_raw zero_choice_def zero_delta_def)
  next
    case (Some u)
    with assms(2) dec_usage_json [of "tu_Prompt u" "tu_Completion u" "tu_Total u"]
    have "dec_ptr (dec_struct usage_field) no_tokens None (JObj [(''prompt_tokens'', enc_int (tu_Prompt u)),
       (''completion_tokens'', enc_int (tu_Completion u)), (''total_tokens'', enc_int (tu_Total u))]) = Some (Some u)"
      by (simp add: chunk_ok_def dec_ptr_def)
    with Some assms i show ?thesis
      by (simp add: dec_chunk_def chunk_json_def dec_struct_def [of "chunk_field txt"] dec_struct_def [of "choice_field txt"]
          dec_struct_def [of "delta_field txt"] chunk_field_def choice_field_def delta_field_def
          wire_names dec_list_def dec_elems_raw zero_choice_def zero_delta_def)
  qed
qed

text \<open>What a server writes: comments, empty lines and chunks, and how JSON text looks on a line.\<close>

datatype sse_item = Comment gostring | Blank | Chunk ChunkData

fun item_text :: "JsonText \<Rightarrow> sse_item \<Rightarrow> gostring" where
  "item_text txt (Comment c) = colon # c @ [newline]"
| "item_text txt Blank = [newline]"
| "item_text txt (Chunk c) = data_prefix @ jt_text txt (chunk_json c) @ [newline, newline]"

definition line_text :: "gostring \<Rightarrow> bool" where
  "line_text s \<longleftrightarrow> s \<noteq> [] \<and> newline \<notin> set s \<and> TrimSpace s = s \<and> s \<noteq> ''[DONE]''"

fun item_ok :: "JsonText \<Rightarrow> sse_item \<Rightarrow> bool" where
  "item_ok txt (Comment c) = (newline \<notin> set c)"
| "item_ok txt Blank = True"
| "item_ok txt (Chunk c) = (chunk_ok c \<and> line_text (jt_text txt (chunk_json c)) \<and>
     jt_parse txt (jt_text txt (chunk_json c)) = Some (chunk_json c))"

fun item_events :: "JsonText \<Rightarrow> sse_item \<Rightarrow> StreamEvent list" where
  "item_events txt (Chunk c) = (if Semantic (sent_event txt c) then [sent_event txt c] else [])"
| "item_events txt _ = []"

definition done_text :: gostring where
  "done_text = data_prefix @ ''[DONE]'' @ [newline, newline]"

abbreviation "calm \<equiv> \<lparr>cx_top = \<lambda>_. None, cx_read = None\<rparr>"

lemma trim_crlf_line:
  assumes "s \<noteq> []" and "\<not> is_space (last s)"
  shows "trim_crlf (s @ [newline]) = s"
proof (cases s rule: rev_cases)
  case (snoc xs x)
  with assms have "x \<noteq> CHR 0x0D" "x \<noteq> newline" by (auto simp: is_space_def newline_def)
  with snoc show ?thesis by (simp add: trim_crlf_def)
qed (use assms in simp)

lemma sse_loop_line:
  assumes "newline \<notin> set l"
  shows "sse_loop k txt calm fail (l @ newline # s) = (case sse_line txt (l @ [newline]) of
     Skip \<Rightarrow> sse_loop k txt calm fail s | Stop e \<Rightarrow> (Inl e, s, True) | Emit e \<Rightarrow> (Inr e, s, False))"
  by (simp add: sse_loop.simps [of _ _ _ _ "l @ newline # s"] ReadString_line [OF assms])

lemma sse_line_blank: "sse_line txt [newline] = Skip"
  by (simp add: sse_line_def trim_crlf_def)

lemma sse_loop_blank: "sse_loop k txt calm fail (newline # s) = sse_loop k txt calm fail s"
  using sse_loop_line [of "[]" k "txt" fail s] by (simp add: sse_line_blank)

lemma trim_crlf_colon: "trim_crlf (colon # s) = colon # trim_crlf s"
proof (cases "\<forall>x \<in> set (rev s). x = CHR 0x0D \<or> x = newline")
  case True
  then have "dropWhile (\<lambda>c. c = CHR 0x0D \<or> c = newline) (rev s) = []" by (simp only: dropWhile_eq_Nil_conv)
  with True show ?thesis by (simp add: trim_crlf_def dropWhile_append newline_def)
next
  case False
  then have "dropWhile (\<lambda>c. c = CHR 0x0D \<or> c = newline) (rev s @ [colon]) =
      dropWhile (\<lambda>c. c = CHR 0x0D \<or> c = newline) (rev s) @ [colon]" by (simp only: dropWhile_append if_False)
  then show ?thesis by (simp add: trim_crlf_def)
qed

lemma sse_loop_comment:
  assumes "newline \<notin> set c"
  shows "sse_loop k txt calm fail (colon # c @ newline # s) = sse_loop k txt calm fail s"
proof -
  have "sse_line txt ((colon # c) @ [newline]) = Skip"
    by (simp add: sse_line_def trim_crlf_colon HasPrefix_def)
  with sse_loop_line [of "colon # c" k "txt" fail s] assms show ?thesis by (simp add: newline_def)
qed

lemma sse_line_data:
  assumes "line_text d \<or> d = ''[DONE]''"
  shows "sse_line txt ((data_prefix @ d) @ [newline]) = sse_data txt d"
proof -
  have d: "TrimSpace d = d" "d \<noteq> []" using assms by (auto simp: line_text_def) code_simp
  then have "\<not> is_space (last (data_prefix @ d))" using TrimSpace_ends [of d] by simp
  then have t: "trim_crlf ((data_prefix @ d) @ [newline]) = data_prefix @ d"
    by (intro trim_crlf_line) (simp_all add: d)
  have "\<not> HasPrefix (data_prefix @ d) [colon]" by (simp add: data_prefix_def HasPrefix_def)
  then show ?thesis unfolding sse_line_def t Let_def using d by (simp add: HasPrefix_append)
qed

lemma sse_loop_chunk:
  assumes "item_ok txt (Chunk c)"
  shows "sse_loop k txt calm fail (item_text txt (Chunk c) @ s) =
    (if Semantic (sent_event txt c) then (Inr (sent_event txt c), newline # s, False) else sse_loop k txt calm fail s)"
proof -
  let ?d = "jt_text txt (chunk_json c)"
  have d: "line_text ?d" "jt_parse txt ?d = Some (chunk_json c)"
    using assms by simp_all
  have n: "newline \<notin> set (data_prefix @ ?d)" using d(1) by (simp add: line_text_def data_prefix_def newline_def)
  have "sse_data txt ?d = (if Semantic (sent_event txt c) then Emit (sent_event txt c) else Skip)"
    using d(1) dec_chunk_json [OF d(2)] assms by (simp add: sse_data_def line_text_def chunk_event_def sent_event_def)
  with sse_loop_line [OF n, of k "txt" fail "newline # s"] sse_line_data [of ?d "txt"] d(1)
  show ?thesis by (simp add: sse_loop_blank)
qed

lemma sse_loop_done: "sse_loop k txt calm fail (done_text @ s) = (Inl ErrEOF, newline # s, True)"
proof -
  have n: "newline \<notin> set (data_prefix @ ''[DONE]'')" by (simp add: data_prefix_def newline_def)
  show ?thesis
    using sse_loop_line [OF n, of k "txt" fail "newline # s"] sse_line_data [of "''[DONE]''" "txt"]
    by (simp add: done_text_def sse_data_def)
qed

lemma sse_drain_items:
  assumes "list_all (item_ok txt) its" and "length its < n"
    and "bd_data (ss_body st) = concat (map (item_text txt) its) @ done_text \<or>
      bd_data (ss_body st) = newline # concat (map (item_text txt) its) @ done_text" and "\<not> ss_done st"
  shows "sse_drain k txt calm n st = (concat (map (item_events txt) its), Some ErrEOF)"
  using assms
proof (induction its arbitrary: n st)
  case Nil
  then obtain m where n: "n = Suc m" by (cases n) auto
  have "sse_loop k txt calm (bd_fail (ss_body st)) (bd_data (ss_body st)) = (Inl ErrEOF, [newline], True)"
    using Nil.prems(3) sse_loop_done [of k "txt" "bd_fail (ss_body st)" "[]"] by (auto simp: sse_loop_blank)
  with Nil n show ?case by (simp add: sse_Next_def)
next
  case (Cons i its)
  let ?t = "concat (map (item_text txt) its) @ done_text" and ?f = "bd_fail (ss_body st)"
  obtain m where n: "n = Suc m" using Cons.prems by (cases n) auto
  have L: "sse_loop k txt calm ?f (bd_data (ss_body st)) = sse_loop k txt calm ?f (item_text txt i @ ?t)"
    using Cons.prems(3) by (auto simp: sse_loop_blank)
  show ?case
  proof (cases "item_events txt i")
    case Nil
    have "sse_loop k txt calm ?f (item_text txt i @ ?t) = sse_loop k txt calm ?f ?t"
    proof (cases i)
      case (Comment c)
      with Cons.prems sse_loop_comment [of c k "txt" ?f ?t] show ?thesis by simp
    next
      case (Chunk c)
      with Cons.prems Nil sse_loop_chunk [of "txt" c k ?f ?t] show ?thesis by (simp split: if_splits)
    qed (simp add: sse_loop_blank)
    with L have "sse_drain k txt calm n st = sse_drain k txt calm n (st\<lparr>ss_body := (ss_body st)\<lparr>bd_data := ?t\<rparr>\<rparr>)"
      using n Cons.prems(4) by (simp add: sse_Next_def)
    also have "\<dots> = (concat (map (item_events txt) its), Some ErrEOF)"
      using Cons.prems by (intro Cons.IH) simp_all
    finally show ?thesis using Nil by simp
  next
    case (Cons e es)
    then obtain c where c: "i = Chunk c" "Semantic (sent_event txt c)" "es = []" "e = sent_event txt c"
      by (cases i) (auto split: if_splits)
    with Cons.prems L sse_loop_chunk [of "txt" c k ?f ?t]
    have "sse_loop k txt calm ?f (bd_data (ss_body st)) = (Inr e, newline # ?t, False)" by simp
    moreover have "sse_drain k txt calm m \<lparr>ss_body = (ss_body st)\<lparr>bd_data := newline # ?t\<rparr>, ss_done = False\<rparr> =
        (concat (map (item_events txt) its), Some ErrEOF)"
      using Cons.prems n by (intro Cons.IH) simp_all
    ultimately show ?thesis using n Cons.prems(4) Cons c by (simp add: sse_Next_def)
  qed
qed

section \<open>Properties\<close>

text \<open>C26: reading any stream ends: after at most as many events as there are bytes \<open>Next\<close> returns an error
  or the end of the stream, and every event it returned before carries something a client sees.\<close>

theorem stream_ends:
  assumes "length (bd_data (ss_body s)) < n"
  shows "\<exists>evs e. sse_drain keepLast txt cx n s = (evs, Some e) \<and> list_all Semantic evs"
  using sse_drain_ends [OF assms, of keepLast "txt" cx] by (metis not_None_eq prod.collapse)

theorem stream_ends_witness:
  "\<exists>evs e. sse_drain True \<lparr>jt_parse = \<lambda>_. None, jt_text = \<lambda>_. []\<rparr> calm 6
      \<lparr>ss_body = \<lparr>bd_data = ''data'', bd_fail = None\<rparr>, ss_done = False\<rparr> = (evs, Some e)"
  using stream_ends [of "\<lparr>ss_body = \<lparr>bd_data = ''data'', bd_fail = None\<rparr>, ss_done = False\<rparr>" 6] by fastforce

text \<open>Both readers of event streams return exactly the chunks the server sent that carry something, in
  order and with all their parts, then the end: comments, empty lines and chunks without content
  are passed over. (JSON text on one line, not padded, and parsed back, is assumed for the chunks sent.)\<close>

theorem stream_roundtrip:
  assumes "list_all (item_ok txt) its" and "length its < n"
  shows "sse_drain keepLast txt calm n
      \<lparr>ss_body = \<lparr>bd_data = concat (map (item_text txt) its) @ done_text, bd_fail = fail\<rparr>, ss_done = False\<rparr> =
    (concat (map (item_events txt) its), Some ErrEOF)"
  by (rule sse_drain_items [OF assms]) simp_all

definition sample_chunk :: ChunkData where
  "sample_chunk = \<lparr>cd_Index = 0, cd_Text = ''hi'', cd_Thought = [], cd_Tools = [], cd_Finish = [], cd_Tokens = None\<rparr>"

definition sample_json_text :: JsonText where
  "sample_json_text = \<lparr>jt_parse = (\<lambda>s. if s = ''{x}'' then Some (chunk_json sample_chunk) else None), jt_text = (\<lambda>_. ''{x}'')\<rparr>"

theorem stream_roundtrip_witness:
  "sse_drain False sample_json_text calm 3
      \<lparr>ss_body = \<lparr>bd_data = concat (map (item_text sample_json_text) [Comment ''hb'', Chunk sample_chunk]) @ done_text,
        bd_fail = None\<rparr>, ss_done = False\<rparr> = ([sent_event sample_json_text sample_chunk], Some ErrEOF)"
proof -
  have "TrimSpace ''{x}'' = ''{x}''" by code_simp
  then have "list_all (item_ok sample_json_text) [Comment ''hb'', Chunk sample_chunk]"
    by (simp add: sample_json_text_def chunk_ok_def in64_def sample_chunk_def line_text_def newline_def)
  from stream_roundtrip [OF this, of 3 False None] show ?thesis
    by (simp add: sent_event_def sample_chunk_def Semantic_def)
qed

text \<open>A last line without newline: \<open>gemini\<close> and \<open>xai\<close> return its event, \<open>opencode\<close> and \<open>nvidia\<close> report the
  end of the stream as if nothing was sent.\<close>

lemma last_line_lost:
  assumes "item_ok txt (Chunk c)" and "Semantic (sent_event txt c)"
    and "s = \<lparr>ss_body = \<lparr>bd_data = data_prefix @ jt_text txt (chunk_json c), bd_fail = None\<rparr>, ss_done = False\<rparr>"
  shows "fst (opencode_Next txt calm s) = Inl ErrEOF" and "fst (gemini_Next txt calm s) = Inr (sent_event txt c)"
proof -
  let ?d = "jt_text txt (chunk_json c)"
  have d: "line_text ?d" "jt_parse txt ?d = Some (chunk_json c)" using assms(1) by simp_all
  have n: "newline \<notin> set (data_prefix @ ?d)" using d(1) by (simp add: line_text_def data_prefix_def newline_def)
  have R: "ReadString l = (l, [], False)" if "newline \<notin> set l" for l using that by (induction l) auto
  note loop = sse_loop.simps [of _ _ _ _ "data_prefix @ ?d"] R [OF n]
  have ne: "TrimSpace ?d = ?d" "?d \<noteq> []" using d(1) by (simp_all add: line_text_def)
  then have last: "\<not> is_space (last (data_prefix @ ?d))" using TrimSpace_ends [of ?d] by simp
  have t: "trim_crlf (data_prefix @ ?d) = data_prefix @ ?d"
  proof (cases "data_prefix @ ?d" rule: rev_cases)
    case (snoc xs x)
    with last have "x \<noteq> CHR 0x0D" "x \<noteq> newline" by (auto simp: is_space_def newline_def)
    with snoc show ?thesis by (simp add: trim_crlf_def)
  qed (simp add: data_prefix_def)
  have "TrimSpace (data_prefix @ ?d) \<noteq> []"
    by (auto simp: TrimSpace_def data_prefix_def is_space_def)
  moreover have "\<not> HasPrefix (data_prefix @ ?d) [colon]" by (simp add: data_prefix_def HasPrefix_def)
  moreover have "sse_line txt (data_prefix @ ?d) = Emit (sent_event txt c)"
    using d(1) dec_chunk_json [OF d(2)] assms(1,2) ne calculation(2)
    by (simp add: sse_line_def t sse_data_def line_text_def chunk_event_def sent_event_def HasPrefix_append)
  ultimately show "fst (gemini_Next txt calm s) = Inr (sent_event txt c)"
    using ne by (simp add: gemini_Next_def sse_Next_def assms(3) loop t)
  show "fst (opencode_Next txt calm s) = Inl ErrEOF"
    by (simp add: opencode_Next_def sse_Next_def assms(3) loop)
qed

end
