(* ===== verification/Transport.thy ===== *)
theory Transport
  imports Sse OpenCode
begin

text \<open>
  A chat completion as an HTTP exchange: \<open>chat.go\<close> of the packages \<open>opencode\<close>, \<open>gemini\<close>, \<open>xai\<close> and
  \<open>nvidia\<close>, and \<open>openaicompat/provider.go\<close>, which reuses the first for any configured endpoint. Building
  the payload, choosing the address and the credential, and classifying what comes back are the code's;
  the exchange itself, the client's context and the deadline of a request are given (\<open>CallEnv\<close>).
  \<open>AuthBaseOverride\<close>, which only tests set, is empty.
\<close>

section \<open>The payload (chat.go)\<close>

definition function_json :: "FunctionCall \<Rightarrow> json" where
  "function_json f = JObj (omit_if (fc_Name f = []) ''name'' (JStr (fc_Name f)) @
     omit_if (fc_Arguments f = []) ''arguments'' (JStr (fc_Arguments f)))"

definition tool_call_json :: "ToolCall \<Rightarrow> json" where
  "tool_call_json t = JObj (omit_if (tc_ID t = []) ''id'' (JStr (tc_ID t)) @
     omit_if (tc_Type t = []) ''type'' (JStr (tc_Type t)) @ [(''function'', function_json (tc_Function t))])"

definition message_json :: "Message \<Rightarrow> json" where
  "message_json m = JObj ([(''role'', JStr (msg_Role m)), (''content'', msg_Content m)] @
     omit_if (msg_ToolCalls m = []) ''tool_calls'' (JArr (map tool_call_json (msg_ToolCalls m))) @
     omit_if (msg_ToolCallID m = []) ''tool_call_id'' (JStr (msg_ToolCallID m)) @
     omit_if (msg_Name m = []) ''name'' (JStr (msg_Name m)))"

text \<open>A field of raw bytes is left out when empty and an error when the bytes are no JSON.\<close>

definition raw_field :: "JsonText \<Rightarrow> gostring \<Rightarrow> gostring \<Rightarrow> (gostring \<times> json) list option" where
  "raw_field txt k raw = (if raw = [] then Some [] else map_option (\<lambda>j. [(k, j)]) (jt_parse txt raw))"

definition chat_tool_json :: "JsonText \<Rightarrow> ToolSpec \<Rightarrow> json option" where
  "chat_tool_json txt t =
     map_option (\<lambda>ps. JObj [(''type'', JStr ''function''),
         (''function'', JObj ([(''name'', JStr (ts_Name t))] @
            omit_if (ts_Description t = []) ''description'' (JStr (ts_Description t)) @ ps))])
       (raw_field txt ''parameters'' (ts_Schema t))"

fun all_some :: "'a option list \<Rightarrow> 'a list option" where
  "all_some [] = Some []"
| "all_some (x # xs) = (case x of None \<Rightarrow> None | Some a \<Rightarrow> map_option ((#) a) (all_some xs))"

definition chatRequest_json :: "JsonText \<Rightarrow> gostring \<Rightarrow> NormalizedRequest \<Rightarrow> json option" where
  "chatRequest_json txt mdl req =
     (case all_some (map (chat_tool_json txt) (nr_Tools req)) of
        None \<Rightarrow> None
      | Some tools \<Rightarrow>
          map_option (\<lambda>raws. JObj ([(''model'', JStr mdl), (''messages'', JArr (map message_json (nr_Messages req)))] @
              omit_if (\<not> nr_Stream req) ''stream'' (JBool True) @
              omit_if (nr_MaxTokens req = 0) ''max_tokens'' (enc_int (nr_MaxTokens req)) @
              (case nr_Temperature req of None \<Rightarrow> [] | Some t \<Rightarrow> [(''temperature'', JNum t)]) @
              omit_if (tools = []) ''tools'' (JArr tools) @ concat raws))
            (all_some [raw_field txt ''tool_choice'' (nr_ToolChoice req),
               raw_field txt ''response_format'' (nr_ResponseFormat req), raw_field txt ''reasoning'' (nr_Reasoning req)]))"

definition buildPayload :: "gostring \<Rightarrow> JsonText \<Rightarrow> gostring \<Rightarrow> NormalizedRequest \<Rightarrow> goerr + json" where
  "buildPayload route_text txt mdl req =
     (if list_ex (\<lambda>t. ts_Type t \<noteq> [] \<and> ts_Type t \<noteq> ''function'') (nr_Tools req)
      then Inl (UnsupportedError ''tools[].type'' (''only function tools are supported by '' @ route_text))
      else case nr_Extensions req of
        (_, ext) # _ \<Rightarrow> Inl (UnsupportedError (ext_Name ext) (''not supported by '' @ route_text))
      | [] \<Rightarrow>
          (case chatRequest_json txt mdl req of
             None \<Rightarrow> Inl (NewFailureError (NewFailure FailureBadRequest ScopeRequest) (Some (PlainError ''json'')))
           | Some j \<Rightarrow> Inr j))"

definition opencode_buildPayload :: "JsonText \<Rightarrow> gostring \<Rightarrow> NormalizedRequest \<Rightarrow> goerr + json" where
  "opencode_buildPayload = buildPayload ''opencode public route''"

definition gemini_buildPayload :: "JsonText \<Rightarrow> gostring \<Rightarrow> NormalizedRequest \<Rightarrow> goerr + json" where
  "gemini_buildPayload = buildPayload ''the gemini ai route''"

definition xai_buildPayload :: "JsonText \<Rightarrow> gostring \<Rightarrow> NormalizedRequest \<Rightarrow> goerr + json" where
  "xai_buildPayload = buildPayload ''the xai api route''"

definition nvidia_buildPayload :: "JsonText \<Rightarrow> gostring \<Rightarrow> NormalizedRequest \<Rightarrow> goerr + json" where
  "nvidia_buildPayload = buildPayload ''the nvidia hosted route''"

section \<open>The exchange\<close>

record HttpRequest =
  hq_Method :: gostring
  hq_URL :: gostring
  hq_Authorization :: "gostring option"
  hq_Body :: "json option"

datatype http_answer = HttpError goerr | HttpAnswer int Body

text \<open>
  Whether an address can be parsed, the exchange, what \<open>ctx.Err()\<close> answers after a failure, and whether
  the deadline of the request has passed by then.
\<close>

record CallEnv =
  ce_urlOK :: "gostring \<Rightarrow> bool"
  ce_do :: "HttpRequest \<Rightarrow> http_answer"
  ce_ctxErr :: "goerr option"
  ce_deadline :: bool

text \<open>A transport may refuse a request or change what is sent.\<close>

type_synonym transport = "HttpRequest \<Rightarrow> goerr + HttpRequest"

definition http_Do :: "transport \<Rightarrow> CallEnv \<Rightarrow> HttpRequest \<Rightarrow> http_answer \<times> HttpRequest list" where
  "http_Do tr ce q = (case tr q of Inl e \<Rightarrow> (HttpError e, []) | Inr q' \<Rightarrow> (ce_do ce q', [q']))"

definition plain_transport :: transport where
  "plain_transport q = Inr q"

text \<open>\<open>io.ReadAll(io.LimitReader(body, limit))\<close>\<close>

definition read_limited :: "nat \<Rightarrow> Body \<Rightarrow> goerr + gostring" where
  "read_limited limit b =
     (if limit \<le> length (bd_data b) then Inr (take limit (bd_data b))
      else case bd_fail b of None \<Rightarrow> Inr (bd_data b) | Some e \<Rightarrow> Inl e)"

definition route_failure :: "FailureClass \<Rightarrow> goerr \<Rightarrow> goerr" where
  "route_failure c cause = NewFailureError (NewFailure c ScopeRoute) (Some cause)"

definition canceled_failure :: "goerr \<Rightarrow> goerr" where
  "canceled_failure cause = NewFailureError (NewFailure FailureCanceled ScopeRequest) (Some cause)"

definition auth_failure :: "goerr \<Rightarrow> goerr" where
  "auth_failure cause = NewFailureError (NewFailure FailureAuth ScopeCredential) (Some cause)"

text \<open>What each status but 200 is reported as.\<close>

definition status_failure :: "int \<Rightarrow> goerr option" where
  "status_failure code =
     (if code = 429 then Some (route_failure FailureRateLimited (NewStatusError code))
      else if code = 401 \<or> code = 403 then Some (auth_failure (NewStatusError code))
      else if code = 400 then Some (route_failure FailureBadRequest (NewStatusError code))
      else if code \<ge> 500 then Some (route_failure FailureServerError (NewStatusError code))
      else if code \<noteq> 200 then Some (route_failure FailureProtocol (NewStatusError code))
      else None)"

section \<open>The answer of a request that does not stream (chat.go)\<close>

record ReplyMessage =
  rm_Content :: gostring
  rm_ToolCalls :: "ToolCall list"
  rm_ReasoningContent :: gostring

record ReplyChoice =
  rp_Message :: ReplyMessage
  rp_Delta :: gostring
  rp_FinishReason :: gostring

record ChatReply =
  cy_Choices :: "ReplyChoice list"
  cy_Usage :: TokenUsage

definition zero_tool_call :: ToolCall where
  "zero_tool_call = \<lparr>tc_ID = [], tc_Type = [], tc_Function = \<lparr>fc_Name = [], fc_Arguments = []\<rparr>\<rparr>"

definition function_field :: "gostring \<Rightarrow> json \<Rightarrow> FunctionCall \<Rightarrow> FunctionCall option" where
  "function_field k j f = (case field_named [''name'', ''arguments''] k of
       None \<Rightarrow> Some f
     | Some n \<Rightarrow>
         if n = ''name'' then map_option (\<lambda>x. f\<lparr>fc_Name := x\<rparr>) (dec_string (fc_Name f) j)
         else map_option (\<lambda>x. f\<lparr>fc_Arguments := x\<rparr>) (dec_string (fc_Arguments f) j))"

definition tool_call_field :: "gostring \<Rightarrow> json \<Rightarrow> ToolCall \<Rightarrow> ToolCall option" where
  "tool_call_field k j t = (case field_named [''id'', ''type'', ''function''] k of
       None \<Rightarrow> Some t
     | Some n \<Rightarrow>
         if n = ''id'' then map_option (\<lambda>x. t\<lparr>tc_ID := x\<rparr>) (dec_string (tc_ID t) j)
         else if n = ''type'' then map_option (\<lambda>x. t\<lparr>tc_Type := x\<rparr>) (dec_string (tc_Type t) j)
         else map_option (\<lambda>x. t\<lparr>tc_Function := x\<rparr>) (dec_struct function_field (tc_Function t) j))"

definition reply_message_field :: "gostring \<Rightarrow> json \<Rightarrow> ReplyMessage \<Rightarrow> ReplyMessage option" where
  "reply_message_field k j m = (case field_named [''content'', ''tool_calls'', ''reasoning_content''] k of
       None \<Rightarrow> Some m
     | Some n \<Rightarrow>
         if n = ''content'' then map_option (\<lambda>x. m\<lparr>rm_Content := x\<rparr>) (dec_string (rm_Content m) j)
         else if n = ''tool_calls''
         then map_option (\<lambda>x. m\<lparr>rm_ToolCalls := x\<rparr>)
           (dec_list (dec_struct tool_call_field) zero_tool_call (rm_ToolCalls m) j)
         else map_option (\<lambda>x. m\<lparr>rm_ReasoningContent := x\<rparr>) (dec_string (rm_ReasoningContent m) j))"

text \<open>Only the struct of \<open>opencode\<close> has a field \<open>delta\<close>.\<close>

definition reply_choice_field :: "bool \<Rightarrow> gostring \<Rightarrow> json \<Rightarrow> ReplyChoice \<Rightarrow> ReplyChoice option" where
  "reply_choice_field withDelta k j c =
     (case field_named ([''message''] @ (if withDelta then [''delta''] else []) @ [''finish_reason'']) k of
        None \<Rightarrow> Some c
      | Some n \<Rightarrow>
          if n = ''message''
          then map_option (\<lambda>x. c\<lparr>rp_Message := x\<rparr>) (dec_struct reply_message_field (rp_Message c) j)
          else if n = ''delta'' then map_option (\<lambda>x. c\<lparr>rp_Delta := x\<rparr>) (dec_string (rp_Delta c) j)
          else map_option (\<lambda>x. c\<lparr>rp_FinishReason := x\<rparr>) (dec_string (rp_FinishReason c) j))"

definition zero_reply_choice :: ReplyChoice where
  "zero_reply_choice = \<lparr>rp_Message = \<lparr>rm_Content = [], rm_ToolCalls = [], rm_ReasoningContent = []\<rparr>, rp_Delta = [],
     rp_FinishReason = []\<rparr>"

definition reply_field :: "bool \<Rightarrow> gostring \<Rightarrow> json \<Rightarrow> ChatReply \<Rightarrow> ChatReply option" where
  "reply_field withDelta k j r = (case field_named [''choices'', ''usage''] k of
       None \<Rightarrow> Some r
     | Some n \<Rightarrow>
         if n = ''choices''
         then map_option (\<lambda>x. r\<lparr>cy_Choices := x\<rparr>)
           (dec_list (dec_struct (reply_choice_field withDelta)) zero_reply_choice (cy_Choices r) j)
         else map_option (\<lambda>x. r\<lparr>cy_Usage := x\<rparr>) (dec_struct usage_field (cy_Usage r) j))"

definition reply_usage :: "TokenUsage \<Rightarrow> TokenUsage option" where
  "reply_usage u = (if tu_Total u > 0 \<or> tu_Prompt u > 0 \<or> tu_Completion u > 0 then Some u else None)"

text \<open>The one event of an answer; without a delta it carries the message.\<close>

definition reply_event :: "JsonText \<Rightarrow> ReplyChoice \<Rightarrow> TokenUsage \<Rightarrow> StreamEvent" where
  "reply_event txt c u =
     \<lparr>ev_DeltaText = (if rp_Delta c = [] \<and> rm_Content (rp_Message c) \<noteq> [] then rm_Content (rp_Message c) else rp_Delta c),
      ev_ChoiceIndex = 0, ev_ToolCalls = map (\<lambda>t. jt_text txt (tool_call_json t)) (rm_ToolCalls (rp_Message c)),
      ev_ReasoningContent = rm_ReasoningContent (rp_Message c), ev_FinishReason = rp_FinishReason c,
      ev_Usage = reply_usage u\<rparr>"

definition maxReplyBytes :: nat where
  "maxReplyBytes = 33554432"

definition parse_reply :: "bool \<Rightarrow> JsonText \<Rightarrow> gostring \<Rightarrow> goerr + StreamEvent" where
  "parse_reply withDelta txt data =
     (case Option.bind (jt_parse txt data) (dec_struct (reply_field withDelta) \<lparr>cy_Choices = [], cy_Usage = no_tokens\<rparr>) of
        None \<Rightarrow> Inl (route_failure FailureProtocol (PlainError ''malformed chat response''))
      | Some out \<Rightarrow>
          (case cy_Choices out of
             [] \<Rightarrow> Inl (route_failure FailureProtocol (PlainError ''chat response has no choices''))
           | c # _ \<Rightarrow> Inr (reply_event txt c (cy_Usage out))))"

datatype ChatStream = Sse SseStream | OneShot OneShot

section \<open>Chat completions (chat.go)\<close>

type_synonym chat_result = "(goerr + ChatStream) \<times> HttpRequest list"

definition chat_url :: "gostring \<Rightarrow> gostring" where
  "chat_url base = str_TrimRight CHR ''/'' base @ ''/chat/completions''"

definition bearer :: "gostring \<Rightarrow> gostring" where
  "bearer key = ''Bearer '' @ key"

text \<open>
  What follows the exchange. \<open>failed\<close> classifies an error of the exchange and \<open>unread\<close> one of reading
  the body.
\<close>

definition chat_answer ::
  "(goerr \<Rightarrow> goerr) \<Rightarrow> (goerr \<Rightarrow> goerr) \<Rightarrow> bool \<Rightarrow> JsonText \<Rightarrow> bool \<Rightarrow> http_answer \<Rightarrow> goerr + ChatStream" where
  "chat_answer failed unread withDelta txt stream ans =
     (case ans of
        HttpError e \<Rightarrow> Inl (failed e)
      | HttpAnswer code body \<Rightarrow>
          (case status_failure code of
             Some e \<Rightarrow> Inl e
           | None \<Rightarrow>
               if stream then Inr (Sse \<lparr>ss_body = body, ss_done = False\<rparr>)
               else (case read_limited maxReplyBytes body of
                  Inl e \<Rightarrow> Inl (unread e)
                | Inr data \<Rightarrow>
                    (case parse_reply withDelta txt data of
                       Inl e \<Rightarrow> Inl e
                     | Inr ev \<Rightarrow> Inr (OneShot \<lparr>on_ev = ev, on_done = False\<rparr>)))))"

definition opencode_failed :: "FailureClass \<Rightarrow> CallEnv \<Rightarrow> goerr \<Rightarrow> goerr" where
  "opencode_failed other ce e =
     (case ce_ctxErr ce of
        Some c \<Rightarrow> canceled_failure c
      | None \<Rightarrow>
          if ce_deadline ce \<or> err_Is e ErrDeadlineExceeded then route_failure FailureTimeout e
          else route_failure other e)"

definition is_auth_route :: "ProviderRoute \<Rightarrow> bool" where
  "is_auth_route route = HasPrefix (rt_ID route) (AuthRouteName @ [colon, colon])"

definition oc_credential :: "gostring \<Rightarrow> OpenCodeProvider \<Rightarrow> goerr + gostring" where
  "oc_credential env p = (case oc_resolveCredential p of Some r \<Rightarrow> r | None \<Rightarrow> Inr (AuthKey env))"

definition opencode_ChatCompletion ::
  "gostring \<Rightarrow> transport \<Rightarrow> JsonText \<Rightarrow> CallEnv \<Rightarrow> OpenCodeProvider \<Rightarrow> ProviderRoute \<Rightarrow> NormalizedRequest \<Rightarrow> chat_result" where
  "opencode_ChatCompletion env tr txt ce p route req =
     (if oc_nativeFreeOnly p \<and> \<not> isVerifiedAnonymousFree (rt_UpstreamModelID route)
      then (Inl (auth_failure (PlainError ''model is not eligible for native anonymous OpenCode'')), [])
      else case opencode_buildPayload txt (rt_UpstreamModelID route) req of
        Inl e \<Rightarrow> (Inl e, [])
      | Inr payload \<Rightarrow>
          (let isAuth = is_auth_route route;
               url = chat_url (if isAuth then AuthBaseURL else oc_BaseURL p);
               q = \<lparr>hq_Method = ''POST'', hq_URL = url, hq_Authorization = None, hq_Body = Some payload\<rparr>;
               exchange = (\<lambda>q. map_prod (chat_answer (opencode_failed FailureNetwork ce) (opencode_failed FailureProtocol ce)
                 True txt (nr_Stream req)) id (http_Do tr ce q))
           in if \<not> ce_urlOK ce url
              then (Inl (NewFailureError (NewFailure FailureBadRequest ScopeRequest) (Some (PlainError ''url''))), [])
              else if isAuth
              then (case oc_credential env p of
                  Inl _ \<Rightarrow> (Inl (auth_failure (PlainError ''OpenCode Zen credential is unavailable'')), [])
                | Inr key \<Rightarrow>
                    if TrimSpace key = []
                    then (Inl (auth_failure (PlainError ''OpenCode Zen credential is unavailable'')), [])
                    else exchange (q\<lparr>hq_Authorization := Some (bearer key)\<rparr>))
              else exchange q))"

text \<open>The clients with one key of their own: no deadline besides the context.\<close>

definition keyed_failed :: "CallEnv \<Rightarrow> goerr \<Rightarrow> goerr" where
  "keyed_failed ce e =
     (case ce_ctxErr ce of Some c \<Rightarrow> canceled_failure c | None \<Rightarrow> route_failure FailureNetwork e)"

definition keyed_ChatCompletion ::
  "(JsonText \<Rightarrow> gostring \<Rightarrow> NormalizedRequest \<Rightarrow> goerr + json) \<Rightarrow> gostring \<Rightarrow> JsonText \<Rightarrow> CallEnv \<Rightarrow> gostring \<Rightarrow>
   ProviderRoute \<Rightarrow> NormalizedRequest \<Rightarrow> chat_result" where
  "keyed_ChatCompletion build env txt ce baseURL route req =
     (case build txt (rt_UpstreamModelID route) req of
        Inl e \<Rightarrow> (Inl e, [])
      | Inr payload \<Rightarrow>
          (let url = chat_url baseURL; key = TrimSpace env;
               q = \<lparr>hq_Method = ''POST'', hq_URL = url,
                 hq_Authorization = (if key \<noteq> [] then Some (bearer key) else None), hq_Body = Some payload\<rparr>
           in if \<not> ce_urlOK ce url
              then (Inl (NewFailureError (NewFailure FailureBadRequest ScopeRequest) (Some (PlainError ''url''))), [])
              else map_prod (chat_answer (keyed_failed ce) (route_failure FailureProtocol) False txt (nr_Stream req)) id
                (http_Do plain_transport ce q)))"

definition gemini_ChatCompletion ::
  "gostring \<Rightarrow> JsonText \<Rightarrow> CallEnv \<Rightarrow> gostring \<Rightarrow> ProviderRoute \<Rightarrow> NormalizedRequest \<Rightarrow> chat_result" where
  "gemini_ChatCompletion = keyed_ChatCompletion gemini_buildPayload"

definition xai_ChatCompletion ::
  "gostring \<Rightarrow> JsonText \<Rightarrow> CallEnv \<Rightarrow> gostring \<Rightarrow> ProviderRoute \<Rightarrow> NormalizedRequest \<Rightarrow> chat_result" where
  "xai_ChatCompletion = keyed_ChatCompletion xai_buildPayload"

definition nvidia_ChatCompletion ::
  "gostring \<Rightarrow> JsonText \<Rightarrow> CallEnv \<Rightarrow> gostring \<Rightarrow> ProviderRoute \<Rightarrow> NormalizedRequest \<Rightarrow> chat_result" where
  "nvidia_ChatCompletion = keyed_ChatCompletion nvidia_buildPayload"

section \<open>Configured endpoints (openaicompat/provider.go)\<close>

record CompatProvider =
  cv_id :: gostring
  cv_backend :: OpenCodeProvider
  cv_resolve :: "(goerr + gostring) option"

text \<open>\<open>hostname\<close> is what \<open>url.Parse\<close> finds in an address, \<open>None\<close> when it cannot be parsed.\<close>

definition isOpenRouterBaseURL :: "(gostring \<Rightarrow> gostring option) \<Rightarrow> gostring \<Rightarrow> bool" where
  "isOpenRouterBaseURL hostname baseURL =
     (case hostname (TrimSpace baseURL) of None \<Rightarrow> False | Some h \<Rightarrow> EqualFold_ascii h ''openrouter.ai'')"

definition compat_New ::
  "(gostring \<Rightarrow> gostring option) \<Rightarrow> gostring \<Rightarrow> gostring \<Rightarrow> (goerr + gostring) option \<Rightarrow> goerr + CompatProvider" where
  "compat_New hostname pid baseURL resolve =
     (case NewProviderModelID pid ''model'' of
        Inl _ \<Rightarrow> Inl (PlainError ''provider id'')
      | Inr _ \<Rightarrow>
          if TrimSpace baseURL = [] then Inl (PlainError ''base URL must not be empty'')
          else Inr \<lparr>cv_id = pid,
            cv_backend = (if isOpenRouterBaseURL hostname baseURL then opencode_New baseURL None
              else \<lparr>oc_BaseURL = str_TrimRight CHR ''/'' baseURL, oc_resolveCredential = None, oc_nativeFreeOnly = False\<rparr>),
            cv_resolve = resolve\<rparr>)"

text \<open>A client names the method of a failed request in lower case but for its first letter.\<close>

definition url_op :: "gostring \<Rightarrow> gostring" where
  "url_op method = take 1 method @ ToLower (drop 1 method)"

definition bearerTransport :: "(goerr + gostring) option \<Rightarrow> transport" where
  "bearerTransport resolve q =
     (case resolve of
        None \<Rightarrow> Inr q
      | Some (Inl e) \<Rightarrow>
          (let cause = WrapError ''resolve provider credential: '' e
           in Inl (NetError False (url_op (hq_Method q) @ '' '' @ [CHR 0x22] @ hq_URL q @ [CHR 0x22] @ '': '' @ err_Error cause) (Some cause)))
      | Some (Inr key) \<Rightarrow>
          if TrimSpace key = [] then Inr q else Inr (q\<lparr>hq_Authorization := Some (bearer key)\<rparr>))"

definition compat_ChatCompletion ::
  "gostring \<Rightarrow> JsonText \<Rightarrow> CallEnv \<Rightarrow> CompatProvider \<Rightarrow> ProviderRoute \<Rightarrow> NormalizedRequest \<Rightarrow> chat_result" where
  "compat_ChatCompletion env txt ce p route req =
     (if rt_Provider route \<noteq> cv_id p then (Inl (PlainError ''route belongs to another provider''), [])
      else opencode_ChatCompletion env (bearerTransport (cv_resolve p)) txt ce (cv_backend p) route req)"

section \<open>Properties\<close>

lemma http_Do_sent: "q' \<in> set (snd (http_Do tr ce q)) \<Longrightarrow> tr q = Inr q' \<and> snd (http_Do tr ce q) = [q']"
  by (auto simp: http_Do_def split: sum.splits)

lemma opencode_sent:
  assumes "q \<in> set (snd (opencode_ChatCompletion env tr txt ce p route req))"
  shows "\<exists>payload q0. opencode_buildPayload txt (rt_UpstreamModelID route) req = Inr payload \<and> tr q0 = Inr q \<and>
    snd (opencode_ChatCompletion env tr txt ce p route req) = [q] \<and>
    (oc_nativeFreeOnly p \<longrightarrow> isVerifiedAnonymousFree (rt_UpstreamModelID route)) \<and>
    hq_URL q0 = chat_url (if is_auth_route route then AuthBaseURL else oc_BaseURL p) \<and> hq_Body q0 = Some payload \<and>
    (if is_auth_route route
     then \<exists>key. oc_credential env p = Inr key \<and> TrimSpace key \<noteq> [] \<and> hq_Authorization q0 = Some (bearer key)
     else hq_Authorization q0 = None)"
  using assms
  by (auto simp: opencode_ChatCompletion_def Let_def split: if_splits sum.splits dest!: http_Do_sent)

text \<open>A request to OpenCode goes to the endpoint of its route and nowhere else: at most one request is
  sent, with the payload of this request; the authenticated route sends it to the Zen address with a
  key that is not blank, any other route sends it to the provider's own address without credentials, and
  a provider limited to free models sends nothing for a model that is not verified as free.\<close>

theorem opencode_isolation:
  assumes "q \<in> set (snd (opencode_ChatCompletion env plain_transport txt ce p route req))"
  shows "snd (opencode_ChatCompletion env plain_transport txt ce p route req) = [q] \<and>
    (\<exists>payload. opencode_buildPayload txt (rt_UpstreamModelID route) req = Inr payload \<and> hq_Body q = Some payload) \<and>
    (oc_nativeFreeOnly p \<longrightarrow> isVerifiedAnonymousFree (rt_UpstreamModelID route)) \<and>
    (if is_auth_route route
     then hq_URL q = chat_url AuthBaseURL \<and>
       (\<exists>key. oc_credential env p = Inr key \<and> TrimSpace key \<noteq> [] \<and> hq_Authorization q = Some (bearer key))
     else hq_URL q = chat_url (oc_BaseURL p) \<and> hq_Authorization q = None)"
  using opencode_sent [OF assms] by (auto simp: plain_transport_def split: if_splits)

lemma prefix_to_colon: "colon \<notin> set p \<Longrightarrow> colon \<notin> set q \<Longrightarrow> p @ colon # x = q @ colon # y \<Longrightarrow> p = q"
  by (induction p arbitrary: q) (case_tac q; auto)+

lemma auth_route_name:
  assumes "NewRouteID name mdl = Inr (rt_ID route)" and "is_auth_route route"
  shows "name = AuthRouteName"
proof -
  from assms(1) have r: "providerRe name" "rt_ID route = name @ ''::'' @ mdl"
    by (auto simp: NewRouteID_def split: if_splits)
  moreover from assms(2) obtain t where "rt_ID route = AuthRouteName @ colon # colon # t"
    by (auto simp: is_auth_route_def HasPrefix_iff)
  ultimately have "name @ colon # (colon # mdl) = AuthRouteName @ colon # (colon # t)" "colon \<notin> set name"
    using providerRe_no_sep(2) [OF r(1)] by simp_all
  from prefix_to_colon [OF this(2) _ this(1)] show ?thesis by (simp add: AuthRouteName_def)
qed

lemma compat_New_fields:
  assumes "compat_New hostname pid base resolve = Inr p"
  shows "cv_id p = pid \<and> cv_resolve p = resolve \<and> oc_resolveCredential (cv_backend p) = None \<and>
    chat_url (oc_BaseURL (cv_backend p)) = chat_url base"
proof -
  have "str_TrimRight c (str_TrimRight c s) = str_TrimRight c s" for c s by simp
  moreover have "base \<noteq> []" using assms by (auto simp: compat_New_def TrimSpace_def split: sum.splits if_splits)
  ultimately show ?thesis
    using assms by (auto simp: compat_New_def opencode_New_def chat_url_def Let_def simp del: str_TrimRight.simps
        split: sum.splits if_splits)
qed

text \<open>What is asked of a configured endpoint, and the key configured for it, stay with this endpoint:
  for every provider id but the one OpenCode's authenticated route bears, each request goes to the
  configured address, at most one per call, and carries no credential but its own key.\<close>

theorem compat_stays_home:
  assumes "compat_New hostname pid base resolve = Inr p" and "pid \<noteq> AuthRouteName"
    and "NewRouteID pid upstream = Inr (rt_ID route)"
    and "q \<in> set (snd (compat_ChatCompletion env txt ce p route req))"
  shows "snd (compat_ChatCompletion env txt ce p route req) = [q] \<and> hq_URL q = chat_url base \<and>
    (hq_Authorization q = None \<or> (\<exists>key. resolve = Some (Inr key) \<and> TrimSpace key \<noteq> [] \<and> hq_Authorization q = Some (bearer key)))"
proof -
  note p = compat_New_fields [OF assms(1)]
  from assms(2,3) auth_route_name have na: "\<not> is_auth_route route" by blast
  from assms(4) have "q \<in> set (snd (opencode_ChatCompletion env (bearerTransport (cv_resolve p)) txt ce (cv_backend p) route req))"
    and eq: "compat_ChatCompletion env txt ce p route req =
      opencode_ChatCompletion env (bearerTransport (cv_resolve p)) txt ce (cv_backend p) route req"
    by (auto simp: compat_ChatCompletion_def split: if_splits)
  from opencode_sent [OF this(1)] na obtain q0 where "bearerTransport (cv_resolve p) q0 = Inr q" "hq_Authorization q0 = None"
    "hq_URL q0 = chat_url (oc_BaseURL (cv_backend p))" "snd (compat_ChatCompletion env txt ce p route req) = [q]"
    unfolding eq by auto
  with p show ?thesis by (auto simp: bearerTransport_def Let_def split: option.splits sum.splits if_splits)
qed

text \<open>The excepted id is not refused by the configuration: a provider called \<open>opencode-zen\<close> has its
  requests, and with them its own key, sent to OpenCode's address.\<close>

lemma compat_zen_leaks:
  assumes "compat_New hostname AuthRouteName base (Some (Inr key)) = Inr p" and "rt_Provider route = AuthRouteName"
    and "NewRouteID AuthRouteName upstream = Inr (rt_ID route)" and "rt_UpstreamModelID route = upstream"
    and "opencode_buildPayload txt upstream req = Inr payload" and "ce_urlOK ce (chat_url AuthBaseURL)"
    and "AuthKey env \<noteq> []" and "TrimSpace key \<noteq> []" and "\<not> isOpenRouterBaseURL hostname base"
  shows "\<exists>q. snd (compat_ChatCompletion env txt ce p route req) = [q] \<and> hq_URL q = chat_url AuthBaseURL \<and>
    hq_Authorization q = Some (bearer key)"
proof -
  have a: "is_auth_route route"
    using assms(3) HasPrefix_append [of "AuthRouteName @ [colon, colon]" upstream]
    by (auto simp: NewRouteID_def is_auth_route_def split: if_splits)
  have "TrimSpace (AuthKey env) = AuthKey env" by (simp add: AuthKey_def)
  moreover have "cv_backend p = \<lparr>oc_BaseURL = str_TrimRight CHR ''/'' base, oc_resolveCredential = None, oc_nativeFreeOnly = False\<rparr>"
    "cv_id p = AuthRouteName" "cv_resolve p = Some (Inr key)"
    using assms(1,9) by (auto simp: compat_New_def split: sum.splits if_splits)
  ultimately show ?thesis
    using assms a by (simp add: compat_ChatCompletion_def opencode_ChatCompletion_def oc_credential_def
        http_Do_def bearerTransport_def Let_def)
qed

text \<open>How an answer without content is classified: a status other than 200 becomes a failure that carries
  this status, is charged to the credential for 401 and 403 and to the route otherwise, and has the class
  its number stands for; a streaming answer starts in no other case.\<close>

theorem chat_status_classified:
  "(code = 200 \<longleftrightarrow> status_failure code = None) \<and>
   (\<forall>e. status_failure code = Some e \<longrightarrow>
     chat_answer failed unread withDelta txt stream (HttpAnswer code body) = Inl e \<and>
     as_Failure e = Some (NewFailure
       (if code = 429 then FailureRateLimited else if code = 401 \<or> code = 403 then FailureAuth
        else if code = 400 then FailureBadRequest else if code \<ge> 500 then FailureServerError else FailureProtocol)
       (if code = 401 \<or> code = 403 then ScopeCredential else ScopeRoute), Some (StatusError code), code)) \<and>
   (chat_answer failed unread withDelta txt True (HttpAnswer code body) = Inr st \<longrightarrow>
     code = 200 \<and> st = Sse \<lparr>ss_body = body, ss_done = False\<rparr>)"
  by (auto simp: status_failure_def chat_answer_def route_failure_def auth_failure_def NewFailureError_def
      NewStatusError_def err_queries split: option.splits if_splits)

section \<open>Concrete inputs\<close>

definition plain_request :: NormalizedRequest where
  "plain_request = \<lparr>nr_Messages = [], nr_Tools = [], nr_ToolChoice = [], nr_ResponseFormat = [], nr_Reasoning = [],
     nr_Stream = False, nr_MaxTokens = 0, nr_Temperature = None, nr_Extensions = []\<rparr>"

definition down_env :: CallEnv where
  "down_env = \<lparr>ce_urlOK = \<lambda>_. True, ce_do = \<lambda>_. HttpAnswer 503 \<lparr>bd_data = [], bd_fail = None\<rparr>, ce_ctxErr = None,
     ce_deadline = False\<rparr>"

lemma plain_payload:
  "buildPayload w txt mdl plain_request = Inr (JObj [(''model'', JStr mdl), (''messages'', JArr [])])"
  by (simp add: buildPayload_def plain_request_def chatRequest_json_def raw_field_def omit_if_def)

lemma sample_public_route: "\<not> is_auth_route (PublicRoute ''opencode/m'' ''m'' zeroCapabilities)"
  "rt_UpstreamModelID (PublicRoute ''opencode/m'' ''m'' zeroCapabilities) = ''m''"
  by code_simp+

theorem opencode_isolation_witness:
  "let q = \<lparr>hq_Method = ''POST'', hq_URL = chat_url ''http://h'', hq_Authorization = None,
         hq_Body = Some (JObj [(''model'', JStr ''m''), (''messages'', JArr [])])\<rparr>
   in snd (opencode_ChatCompletion [] plain_transport sample_json_text down_env
        \<lparr>oc_BaseURL = ''http://h'', oc_resolveCredential = None, oc_nativeFreeOnly = False\<rparr>
        (PublicRoute ''opencode/m'' ''m'' zeroCapabilities) plain_request) = [q]"
proof -
  let ?p = "\<lparr>oc_BaseURL = ''http://h'', oc_resolveCredential = None, oc_nativeFreeOnly = False\<rparr>"
  let ?r = "PublicRoute ''opencode/m'' ''m'' zeroCapabilities"
  let ?q = "\<lparr>hq_Method = ''POST'', hq_URL = chat_url ''http://h'', hq_Authorization = None,
         hq_Body = Some (JObj [(''model'', JStr ''m''), (''messages'', JArr [])])\<rparr>"
  have "snd (opencode_ChatCompletion [] plain_transport sample_json_text down_env ?p ?r plain_request) = [?q]"
    by (simp add: opencode_ChatCompletion_def sample_public_route opencode_buildPayload_def plain_payload http_Do_def
        plain_transport_def down_env_def Let_def del: str_TrimRight.simps)
  then show ?thesis
    using opencode_isolation [of ?q "[]" sample_json_text down_env ?p ?r plain_request] by simp
qed

theorem compat_stays_home_witness:
  "\<exists>p. compat_New (\<lambda>_. None) ''acme'' ''http://h'' (Some (Inr ''key'')) = Inr p \<and>
    (\<exists>q. snd (compat_ChatCompletion [] sample_json_text down_env p
      \<lparr>rt_ID = ''acme::m'', rt_ModelID = ''acme/m'', rt_Provider = ''acme'', rt_UpstreamModelID = ''m'', rt_CredentialID = ''acme'',
       rt_Access = AccessUnknown, rt_CapabilityOverride = None, rt_Enabled = True, rt_AutoRouteAllowed = None,
       rt_ProbeAllowed = None, rt_DefaultSelected = None\<rparr> plain_request) = [q] \<and>
      hq_URL q = chat_url ''http://h'' \<and> hq_Authorization q = Some ''Bearer key'')"
proof -
  let ?r = "\<lparr>rt_ID = ''acme::m'', rt_ModelID = ''acme/m'', rt_Provider = ''acme'', rt_UpstreamModelID = ''m'', rt_CredentialID = ''acme'',
       rt_Access = AccessUnknown, rt_CapabilityOverride = None, rt_Enabled = True, rt_AutoRouteAllowed = None,
       rt_ProbeAllowed = None, rt_DefaultSelected = None\<rparr>"
  let ?p = "\<lparr>cv_id = ''acme'', cv_backend = \<lparr>oc_BaseURL = ''http://h'', oc_resolveCredential = None, oc_nativeFreeOnly = False\<rparr>,
      cv_resolve = Some (Inr ''key'')\<rparr>"
  have facts: "isl (NewProviderModelID ''acme'' ''model'') = False" "TrimSpace ''http://h'' \<noteq> []" "TrimSpace ''key'' \<noteq> []"
    "\<not> is_auth_route ?r" "NewRouteID ''acme'' ''m'' = Inr ''acme::m''" "str_TrimRight CHR ''/'' ''http://h'' = ''http://h''"
    by code_simp+
  have new: "compat_New (\<lambda>_. None) ''acme'' ''http://h'' (Some (Inr ''key'')) = Inr ?p"
    using facts(1,2,6) by (auto simp: compat_New_def isOpenRouterBaseURL_def simp del: str_TrimRight.simps split: sum.splits)
  let ?q = "\<lparr>hq_Method = ''POST'', hq_URL = chat_url ''http://h'', hq_Authorization = Some (bearer ''key''),
         hq_Body = Some (JObj [(''model'', JStr ''m''), (''messages'', JArr [])])\<rparr>"
  have sent: "snd (compat_ChatCompletion [] sample_json_text down_env ?p ?r plain_request) = [?q]"
    using facts(3,4) by (simp add: compat_ChatCompletion_def opencode_ChatCompletion_def opencode_buildPayload_def plain_payload
        http_Do_def bearerTransport_def down_env_def Let_def del: str_TrimRight.simps)
  have "''acme'' \<noteq> AuthRouteName" by (simp add: AuthRouteName_def)
  from compat_stays_home [OF new this, of "''m''" ?r ?q "[]" sample_json_text down_env plain_request] facts(5) sent
  have "hq_URL ?q = chat_url ''http://h''" by simp
  with new sent show ?thesis by (intro exI [of _ ?p]) (auto simp: bearer_def)
qed

theorem chat_status_classified_witness:
  "as_Failure (the (status_failure 401)) =
     Some (NewFailure FailureAuth ScopeCredential, Some (StatusError 401), 401)"
  using chat_status_classified [of 401 id id False sample_json_text False "\<lparr>bd_data = [], bd_fail = None\<rparr>"]
  by (auto simp: status_failure_def)

end
