(* ===== verification/Discovery.thy ===== *)
theory Discovery
  imports Transport ProviderRegistry
begin

text \<open>
  Catalog discovery: \<open>DiscoverModels\<close> of the packages \<open>opencode\<close>, \<open>gemini\<close>, \<open>xai\<close>, \<open>nvidia\<close> and
  \<open>openaicompat\<close>, from the request for the list of models to the snapshot, and the routes of the
  clients with one key (\<open>route.go\<close>). The exchange is the one of \<open>Transport\<close>.
\<close>

section \<open>Names of models (provider.go)\<close>

definition HasSuffix :: "gostring \<Rightarrow> gostring \<Rightarrow> bool" where
  "HasSuffix s p = HasPrefix (rev s) (rev p)"

definition strip_suffix :: "gostring \<Rightarrow> gostring \<Rightarrow> gostring" where
  "strip_suffix suffix s = (if HasSuffix (ToLower s) suffix then take (length s - length suffix) s else s)"

definition canonicalize :: "gostring \<Rightarrow> gostring" where
  "canonicalize s = ToLower (fold strip_suffix ['':free'', '':paid'', ''-free'', ''-it'', ''-preview''] s)"

text \<open>NVIDIA's names start with an organization.\<close>

definition nvidia_canonicalize :: "gostring \<Rightarrow> gostring" where
  "nvidia_canonicalize s = canonicalize (if CHR ''/'' \<in> set s then tl (dropWhile (\<lambda>c. c \<noteq> CHR ''/'') s) else s)"

text \<open>\<open>base64.RawURLEncoding\<close>: three bytes as four digits of 64, without padding.\<close>

fun sextets :: "nat list \<Rightarrow> nat list" where
  "sextets [] = []"
| "sextets [a] = [a * 16 div 64, a * 16 mod 64]"
| "sextets [a, b] = (let n = (a * 256 + b) * 4 in [n div 4096, n div 64 mod 64, n mod 64])"
| "sextets (a # b # c # r) =
     (let n = a * 65536 + b * 256 + c
      in n div 262144 # n div 4096 mod 64 # n div 64 mod 64 # n mod 64 # sextets r)"

definition url_alphabet :: gostring where
  "url_alphabet = ''ABCDEFGHIJKLMNOPQRSTUVWXYZabcdefghijklmnopqrstuvwxyz0123456789-_''"

definition RawURLEncode :: "gostring \<Rightarrow> gostring" where
  "RawURLEncode s = map (\<lambda>n. url_alphabet ! n) (sextets (map of_char s))"

definition is_separator :: "char \<Rightarrow> bool" where
  "is_separator c = (c = CHR ''/'' \<or> c = CHR 0x5C)"

definition providerModelSegment :: "gostring \<Rightarrow> gostring" where
  "providerModelSegment upstreamID =
     (if list_ex is_separator upstreamID then ''b64-'' @ RawURLEncode upstreamID else upstreamID)"

fun unsextets :: "nat list \<Rightarrow> nat list" where
  "unsextets [x, y] = [(x * 64 + y) div 16]"
| "unsextets [x, y, z] = (let n = (x * 4096 + y * 64 + z) div 4 in [n div 256, n mod 256])"
| "unsextets (x # y # z # w # r) =
     (let n = x * 262144 + y * 4096 + z * 64 + w in n div 65536 # n div 256 mod 256 # n mod 256 # unsextets r)"
| "unsextets _ = []"

lemma radix_64:
  fixes n :: nat
  shows "n div 64 * 64 + n mod 64 = n"
    and "n div 4096 * 4096 + n div 64 mod 64 * 64 + n mod 64 = n"
    and "n div 262144 * 262144 + n div 4096 mod 64 * 4096 + n div 64 mod 64 * 64 + n mod 64 = n"
proof -
  have two: "n div 4096 = n div 64 div 64" "n div 262144 = n div 64 div 64 div 64" by (simp_all add: div_mult2_eq [symmetric])
  have split: "m = m div 64 * 64 + m mod 64" for m :: nat by simp
  show "n div 64 * 64 + n mod 64 = n" by simp
  show "n div 4096 * 4096 + n div 64 mod 64 * 64 + n mod 64 = n"
    using split [of n] split [of "n div 64"] unfolding two by linarith
  show "n div 262144 * 262144 + n div 4096 mod 64 * 4096 + n div 64 mod 64 * 64 + n mod 64 = n"
    using split [of n] split [of "n div 64"] split [of "n div 64 div 64"] unfolding two by linarith
qed

lemma last_byte: "c < 256 \<Longrightarrow> (a * 256 + c) div 256 = a \<and> (a * 256 + c) mod 256 = c" for a c :: nat
  by simp

lemma radix_256:
  fixes a b c :: nat
  assumes "b < 256" and "c < 256"
  shows "(a * 65536 + b * 256 + c) div 65536 = a" and "(a * 65536 + b * 256 + c) div 256 mod 256 = b"
    and "(a * 65536 + b * 256 + c) mod 256 = c"
proof -
  have n: "a * 65536 + b * 256 + c = (a * 256 + b) * 256 + c" by simp
  note c = last_byte [OF assms(2), of "a * 256 + b"] and b = last_byte [OF assms(1), of a]
  from c show "(a * 65536 + b * 256 + c) mod 256 = c" unfolding n by blast
  from c b show "(a * 65536 + b * 256 + c) div 256 mod 256 = b" unfolding n by metis
  have "(65536 :: nat) = 256 * 256" by simp
  then have "(a * 65536 + b * 256 + c) div 65536 = (a * 65536 + b * 256 + c) div 256 div 256"
    by (simp only: div_mult2_eq)
  with c b show "(a * 65536 + b * 256 + c) div 65536 = a" unfolding n by metis
qed

lemma unsextets_sextets: "\<forall>n\<in>set bs. n < 256 \<Longrightarrow> unsextets (sextets bs) = bs"
proof (induction bs rule: sextets.induct)
  case (2 a)
  have "a * 16 div 64 * 64 + a * 16 mod 64 = a * 16" by (rule radix_64(1))
  then show ?case by (simp only: sextets.simps unsextets.simps) simp
next
  case (3 a b)
  then show ?case by (simp only: sextets.simps unsextets.simps Let_def radix_64(2)) (simp add: last_byte)
next
  case (4 a b c r)
  then show ?case by (simp only: sextets.simps unsextets.simps Let_def radix_64(3)) (simp add: radix_256)
qed simp

lemma sextets_small: "\<forall>n\<in>set bs. n < 256 \<Longrightarrow> n \<in> set (sextets bs) \<Longrightarrow> n < 64"
  by (induction bs rule: sextets.induct) (auto simp: Let_def)

lemma url_alphabet_nth:
  assumes "m < 64" and "n < 64"
  shows "url_alphabet ! m = url_alphabet ! n \<longleftrightarrow> m = n" and "\<not> is_separator (url_alphabet ! n)"
proof -
  have "distinct url_alphabet" "length url_alphabet = 64" "list_all (Not \<circ> is_separator) url_alphabet" by code_simp+
  with assms show "url_alphabet ! m = url_alphabet ! n \<longleftrightarrow> m = n" "\<not> is_separator (url_alphabet ! n)"
    by (simp_all add: nth_eq_iff_index_eq list_all_length)
qed

lemma RawURLEncode_inj:
  assumes "RawURLEncode s = RawURLEncode t"
  shows "s = t"
proof -
  have bytes: "\<forall>n\<in>set (map of_char u :: nat list). n < 256" for u :: gostring by simp
  have "inj_on (\<lambda>n. url_alphabet ! n) (set (sextets (map of_char s)) \<union> set (sextets (map of_char t)))"
    using sextets_small [OF bytes] url_alphabet_nth(1) by (intro inj_onI) blast
  with assms have "sextets (map of_char s) = sextets (map of_char t)"
    unfolding RawURLEncode_def by (rule map_inj_on)
  then have "unsextets (sextets (map of_char s)) = unsextets (sextets (map of_char t))" by (rule arg_cong)
  then have "map (of_char :: char \<Rightarrow> nat) s = map of_char t" unfolding unsextets_sextets [OF bytes] .
  then have "map char_of (map (of_char :: char \<Rightarrow> nat) s) = (map char_of (map (of_char :: char \<Rightarrow> nat) t) :: gostring)"
    by (rule arg_cong)
  then show ?thesis by (simp add: comp_def)
qed

lemma RawURLEncode_plain: "\<not> list_ex is_separator (RawURLEncode s)"
  using sextets_small [of "map of_char s :: nat list"] url_alphabet_nth(2)
  by (fastforce simp: RawURLEncode_def list_ex_iff)

lemma segment_plain: "\<not> list_ex is_separator (providerModelSegment u)"
  using RawURLEncode_plain [of u] by (simp add: providerModelSegment_def is_separator_def)

lemma segment_empty: "providerModelSegment u = [] \<longleftrightarrow> u = []"
  by (auto simp: providerModelSegment_def)

text \<open>Two names share a segment only if one of them is already written like an encoded one.\<close>

lemma segment_inj:
  assumes "providerModelSegment u = providerModelSegment v" and "\<not> HasPrefix u ''b64-''" and "\<not> HasPrefix v ''b64-''"
  shows "u = v"
  using assms RawURLEncode_inj [of u v] by (auto simp: providerModelSegment_def HasPrefix_iff split: if_splits)

section \<open>Catalog entries (provider.go)\<close>

record CatalogEntry =
  ct_ID :: gostring
  ct_OwnedBy :: gostring
  ct_ContextLength :: int
  ct_MaxOutput :: int
  ct_Streaming :: "bool option"
  ct_Tools :: "bool option"
  ct_Vision :: "bool option"
  ct_Structured :: "bool option"
  ct_Reasoning :: "bool option"
  ct_Pricing :: "(gostring \<times> json) list"

definition zero_entry :: CatalogEntry where
  "zero_entry = \<lparr>ct_ID = [], ct_OwnedBy = [], ct_ContextLength = 0, ct_MaxOutput = 0, ct_Streaming = None, ct_Tools = None,
     ct_Vision = None, ct_Structured = None, ct_Reasoning = None, ct_Pricing = []\<rparr>"

text \<open>The clients with one key take the entries as \<open>encoding/json\<close> does: a value of another type is an error.\<close>

definition catalog_entry_field :: "gostring \<Rightarrow> json \<Rightarrow> CatalogEntry \<Rightarrow> CatalogEntry option" where
  "catalog_entry_field k j e =
     (case field_named [''id'', ''owned_by'', ''context_length'', ''max_output_tokens'', ''streaming'', ''tools'', ''vision'',
          ''structured_output'', ''reasoning''] k of
        None \<Rightarrow> Some e
      | Some n \<Rightarrow>
          if n = ''id'' then map_option (\<lambda>x. e\<lparr>ct_ID := x\<rparr>) (dec_string (ct_ID e) j)
          else if n = ''owned_by'' then map_option (\<lambda>x. e\<lparr>ct_OwnedBy := x\<rparr>) (dec_string (ct_OwnedBy e) j)
          else if n = ''context_length'' then map_option (\<lambda>x. e\<lparr>ct_ContextLength := x\<rparr>) (dec_int (ct_ContextLength e) j)
          else if n = ''max_output_tokens'' then map_option (\<lambda>x. e\<lparr>ct_MaxOutput := x\<rparr>) (dec_int (ct_MaxOutput e) j)
          else if n = ''streaming'' then map_option (\<lambda>x. e\<lparr>ct_Streaming := x\<rparr>) (dec_ptr dec_bool False (ct_Streaming e) j)
          else if n = ''tools'' then map_option (\<lambda>x. e\<lparr>ct_Tools := x\<rparr>) (dec_ptr dec_bool False (ct_Tools e) j)
          else if n = ''vision'' then map_option (\<lambda>x. e\<lparr>ct_Vision := x\<rparr>) (dec_ptr dec_bool False (ct_Vision e) j)
          else if n = ''structured_output''
          then map_option (\<lambda>x. e\<lparr>ct_Structured := x\<rparr>) (dec_ptr dec_bool False (ct_Structured e) j)
          else map_option (\<lambda>x. e\<lparr>ct_Reasoning := x\<rparr>) (dec_ptr dec_bool False (ct_Reasoning e) j))"

text \<open>
  OpenCode's entries and those of configured endpoints decode themselves: the names of fields are exact,
  the last of two equal ones counts, and a value of another type counts as missing. The flag \<open>null\<close> is
  \<open>False\<close>, not missing.
\<close>

definition optionalCatalogBool :: "json option \<Rightarrow> bool option" where
  "optionalCatalogBool raw = Option.bind raw (dec_bool False)"

definition optionalCatalogInt :: "json option \<Rightarrow> int" where
  "optionalCatalogInt raw = (case Option.bind raw (dec_int 0) of None \<Rightarrow> 0 | Some n \<Rightarrow> n)"

definition catalog_string :: "json option \<Rightarrow> gostring" where
  "catalog_string raw = (case Option.bind raw (dec_string []) of None \<Rightarrow> [] | Some s \<Rightarrow> s)"

definition raw_map :: "json \<Rightarrow> (gostring \<times> json) list option" where
  "raw_map j = dec_map (\<lambda>_. Some) JNull [] j"

definition entry_UnmarshalJSON :: "CatalogEntry \<Rightarrow> json \<Rightarrow> CatalogEntry option" where
  "entry_UnmarshalJSON old j =
     map_option (\<lambda>fs. let raw = map_of fs in
       \<lparr>ct_ID = catalog_string (raw ''id''), ct_OwnedBy = catalog_string (raw ''owned_by''),
        ct_ContextLength = optionalCatalogInt (raw ''context_length''), ct_MaxOutput = optionalCatalogInt (raw ''max_output_tokens''),
        ct_Streaming = optionalCatalogBool (raw ''streaming''), ct_Tools = optionalCatalogBool (raw ''tools''),
        ct_Vision = optionalCatalogBool (raw ''vision''), ct_Structured = optionalCatalogBool (raw ''structured_output''),
        ct_Reasoning = optionalCatalogBool (raw ''reasoning''),
        ct_Pricing = (case Option.bind (raw ''pricing'') raw_map of None \<Rightarrow> [] | Some m \<Rightarrow> m)\<rparr>)
       (raw_map j)"

definition catalog_response_field ::
  "(CatalogEntry \<Rightarrow> json \<Rightarrow> CatalogEntry option) \<Rightarrow> gostring \<Rightarrow> json \<Rightarrow> CatalogEntry list \<Rightarrow> CatalogEntry list option" where
  "catalog_response_field dec k j es =
     (case field_named [''data''] k of None \<Rightarrow> Some es | Some _ \<Rightarrow> dec_list dec zero_entry es j)"

definition dec_catalog ::
  "(CatalogEntry \<Rightarrow> json \<Rightarrow> CatalogEntry option) \<Rightarrow> JsonText \<Rightarrow> gostring \<Rightarrow> CatalogEntry list option" where
  "dec_catalog dec txt data = Option.bind (jt_parse txt data) (dec_struct (catalog_response_field dec) [])"

definition boolOr :: "bool option \<Rightarrow> bool \<Rightarrow> bool" where
  "boolOr b def = (case b of None \<Rightarrow> def | Some v \<Rightarrow> v)"

definition mark_missing :: "bool option \<Rightarrow> Capability \<Rightarrow> Capabilities \<Rightarrow> Capabilities" where
  "mark_missing b cap c = (if b = None then MarkUnknown cap c else c)"

definition entry_capabilities :: "CatalogEntry \<Rightarrow> Capabilities" where
  "entry_capabilities e =
     mark_missing (ct_Reasoning e) CapReasoning (mark_missing (ct_Structured e) CapStructuredOutput
       (mark_missing (ct_Vision e) CapVision (mark_missing (ct_Tools e) CapTools
         \<lparr>cap_Streaming = boolOr (ct_Streaming e) True, cap_Tools = boolOr (ct_Tools e) False,
          cap_Vision = boolOr (ct_Vision e) False, cap_StructuredOutput = boolOr (ct_Structured e) False,
          cap_Reasoning = boolOr (ct_Reasoning e) False, cap_Unknown = 0, cap_ContextLength = ct_ContextLength e,
          cap_MaxOutput = ct_MaxOutput e\<rparr>)))"

definition entry_model :: "(gostring \<Rightarrow> gostring) \<Rightarrow> ProviderModelID \<Rightarrow> CatalogEntry \<Rightarrow> ProviderModel" where
  "entry_model canon pmid e =
     \<lparr>pm_ID = pmid, pm_CanonicalKey = (case NewCanonicalModelKey (canon (ct_ID e)) of Inl _ \<Rightarrow> [] | Inr k \<Rightarrow> k),
      pm_DisplayName = ct_ID e, pm_Base = entry_capabilities e, pm_UpstreamID = ct_ID e\<rparr>"

definition catalog_failure :: "FailureClass \<Rightarrow> goerr \<Rightarrow> goerr" where
  "catalog_failure c cause = NewFailureError (NewFailure c ScopeProvider) (Some cause)"

type_synonym models = "ProviderModelID \<rightharpoonup> ProviderModel"

text \<open>One entry of the answer: skipped, refused for a collision, or entered.\<close>

definition catalog_step ::
  "gostring \<Rightarrow> (gostring \<Rightarrow> gostring) \<Rightarrow> (CatalogEntry \<Rightarrow> bool) \<Rightarrow> CatalogEntry \<Rightarrow> models \<Rightarrow> goerr + models" where
  "catalog_step pid canon keep e m =
     (if ct_ID e = [] \<or> \<not> keep e then Inr m
      else case NewProviderModelID pid (providerModelSegment (ct_ID e)) of
        Inl _ \<Rightarrow> Inr m
      | Inr pmid \<Rightarrow>
          (case m pmid of
             Some existing \<Rightarrow>
               if pm_UpstreamID existing \<noteq> ct_ID e
               then Inl (catalog_failure FailureProtocol (PlainError ''provider model ID collision''))
               else Inr (m(pmid \<mapsto> entry_model canon pmid e))
           | None \<Rightarrow> Inr (m(pmid \<mapsto> entry_model canon pmid e))))"

fun catalog_loop ::
  "gostring \<Rightarrow> (gostring \<Rightarrow> gostring) \<Rightarrow> (CatalogEntry \<Rightarrow> bool) \<Rightarrow> CatalogEntry list \<Rightarrow> models \<Rightarrow> goerr + models" where
  "catalog_loop pid canon keep [] m = Inr m"
| "catalog_loop pid canon keep (e # es) m =
     (case catalog_step pid canon keep e m of Inl err \<Rightarrow> Inl err | Inr m \<Rightarrow> catalog_loop pid canon keep es m)"

section \<open>Discovery (provider.go)\<close>

type_synonym catalog_result = "(goerr + CatalogSnapshot) \<times> HttpRequest list"

definition maxCatalogBytes :: nat where
  "maxCatalogBytes = 8388608"

definition models_url :: "gostring \<Rightarrow> gostring" where
  "models_url base = str_TrimRight CHR ''/'' base @ ''/models''"

text \<open>What follows the exchange; \<open>failed\<close> and \<open>unread\<close> as for a completion.\<close>

definition catalog_answer ::
  "(CatalogEntry \<Rightarrow> json \<Rightarrow> CatalogEntry option) \<Rightarrow> (goerr \<Rightarrow> goerr) \<Rightarrow> (goerr \<Rightarrow> goerr) \<Rightarrow> JsonText \<Rightarrow> http_answer \<Rightarrow>
   goerr + CatalogEntry list" where
  "catalog_answer dec failed unread txt ans =
     (case ans of
        HttpError e \<Rightarrow> Inl (failed e)
      | HttpAnswer code body \<Rightarrow>
          if code \<ge> 500 then Inl (catalog_failure FailureServerError (PlainError (''catalog endpoint returned '' @ Itoa code)))
          else if code \<noteq> 200 then Inl (catalog_failure FailureProtocol (PlainError (''catalog endpoint returned '' @ Itoa code)))
          else (case read_limited maxCatalogBytes body of
             Inl e \<Rightarrow> Inl (unread e)
           | Inr data \<Rightarrow>
               (case dec_catalog dec txt data of
                  None \<Rightarrow> Inl (catalog_failure FailureProtocol (PlainError ''malformed catalog response''))
                | Some es \<Rightarrow> Inr es)))"

definition snapshot_of :: "time \<Rightarrow> models \<Rightarrow> CatalogSnapshot" where
  "snapshot_of now m = \<lparr>cs_Revision = 0, cs_CreatedAt = now, cs_Models = Some m\<rparr>"

text \<open>An entry of a model that is not verified is deleted again.\<close>

definition verified_only :: "models \<Rightarrow> models" where
  "verified_only m = (\<lambda>k. case m k of
       None \<Rightarrow> None | Some pm \<Rightarrow> if isVerifiedAnonymousFree (pm_UpstreamID pm) then Some pm else None)"

type_synonym CatalogFilter = "gostring \<Rightarrow> (gostring \<times> json) list \<Rightarrow> bool"

definition opencode_catalog_failed :: "FailureClass \<Rightarrow> CallEnv \<Rightarrow> goerr \<Rightarrow> goerr" where
  "opencode_catalog_failed other ce e =
     (case ce_ctxErr ce of
        Some c \<Rightarrow> canceled_failure c
      | None \<Rightarrow>
          if ce_deadline ce \<or> err_Is e ErrDeadlineExceeded then catalog_failure FailureTimeout e
          else catalog_failure other e)"

definition opencode_DiscoverModels ::
  "transport \<Rightarrow> JsonText \<Rightarrow> CallEnv \<Rightarrow> time \<Rightarrow> CatalogFilter option \<Rightarrow> OpenCodeProvider \<Rightarrow> catalog_result" where
  "opencode_DiscoverModels tr txt ce now filt p =
     (let url = models_url (oc_BaseURL p);
          keep = (\<lambda>e. case filt of None \<Rightarrow> True | Some f \<Rightarrow> f (ct_ID e) (ct_Pricing e))
      in if \<not> ce_urlOK ce url then (Inl (WrapError ''build catalog request: '' (PlainError ''url'')), [])
         else map_prod (\<lambda>ans.
             case catalog_answer entry_UnmarshalJSON (opencode_catalog_failed FailureNetwork ce)
                 (opencode_catalog_failed FailureProtocol ce) txt ans of
               Inl e \<Rightarrow> Inl e
             | Inr es \<Rightarrow>
                 (case catalog_loop ProviderID canonicalize keep es Map.empty of
                    Inl e \<Rightarrow> Inl e
                  | Inr m \<Rightarrow> Inr (snapshot_of now (if oc_nativeFreeOnly p then verified_only m else m)))) id
           (http_Do tr ce \<lparr>hq_Method = ''GET'', hq_URL = url, hq_Authorization = None, hq_Body = None\<rparr>))"

text \<open>The clients with one key; \<open>env\<close> is the value of its variable.\<close>

definition keyed_DiscoverModels ::
  "gostring \<Rightarrow> (gostring \<Rightarrow> gostring) \<Rightarrow> gostring \<Rightarrow> JsonText \<Rightarrow> CallEnv \<Rightarrow> time \<Rightarrow> gostring \<Rightarrow> catalog_result" where
  "keyed_DiscoverModels pid canon env txt ce now baseURL =
     (let url = models_url baseURL; key = TrimSpace env
      in if \<not> ce_urlOK ce url then (Inl (WrapError ''build catalog request: '' (PlainError ''url'')), [])
         else map_prod (\<lambda>ans.
             case catalog_answer (dec_struct catalog_entry_field) (catalog_failure FailureNetwork)
                 (catalog_failure FailureProtocol) txt ans of
               Inl e \<Rightarrow> Inl e
             | Inr es \<Rightarrow>
                 (case catalog_loop pid canon (\<lambda>_. True) es Map.empty of
                    Inl e \<Rightarrow> Inl e
                  | Inr m \<Rightarrow> Inr (snapshot_of now m))) id
           (http_Do plain_transport ce \<lparr>hq_Method = ''GET'', hq_URL = url,
              hq_Authorization = (if key \<noteq> [] then Some (bearer key) else None), hq_Body = None\<rparr>))"

definition gemini_DiscoverModels :: "gostring \<Rightarrow> JsonText \<Rightarrow> CallEnv \<Rightarrow> time \<Rightarrow> gostring \<Rightarrow> catalog_result" where
  "gemini_DiscoverModels = keyed_DiscoverModels ''gemini'' canonicalize"

definition xai_DiscoverModels :: "gostring \<Rightarrow> JsonText \<Rightarrow> CallEnv \<Rightarrow> time \<Rightarrow> gostring \<Rightarrow> catalog_result" where
  "xai_DiscoverModels = keyed_DiscoverModels ''xai'' canonicalize"

definition nvidia_DiscoverModels :: "gostring \<Rightarrow> JsonText \<Rightarrow> CallEnv \<Rightarrow> time \<Rightarrow> gostring \<Rightarrow> catalog_result" where
  "nvidia_DiscoverModels = keyed_DiscoverModels ''nvidia'' nvidia_canonicalize"

definition provider_New :: "gostring \<Rightarrow> gostring \<Rightarrow> gostring" where
  "provider_New defaultBase baseURL = (if baseURL = [] then defaultBase else baseURL)"

section \<open>Routes of the clients with one key (route.go)\<close>

text \<open>Access is not known, so the router never chooses these routes by itself.\<close>

definition keyed_route :: "gostring \<Rightarrow> gostring \<Rightarrow> ProviderModelID \<Rightarrow> gostring \<Rightarrow> ProviderRoute" where
  "keyed_route pid routeName pmid upstreamID =
     \<lparr>rt_ID = route_id_or_empty routeName upstreamID, rt_ModelID = pmid, rt_Provider = pid, rt_UpstreamModelID = upstreamID,
      rt_CredentialID = routeName, rt_Access = AccessUnknown, rt_CapabilityOverride = Some allCapabilities,
      rt_Enabled = True, rt_AutoRouteAllowed = None, rt_ProbeAllowed = None, rt_DefaultSelected = None\<rparr>"

definition keyed_Routes :: "(ProviderModelID \<Rightarrow> gostring \<Rightarrow> ProviderRoute) \<Rightarrow> gostring \<Rightarrow> ProviderModelID \<Rightarrow> gostring \<Rightarrow> ProviderRoute list" where
  "keyed_Routes mk env pmid upstreamID = (if TrimSpace env = [] then [] else [mk pmid upstreamID])"

definition AIRoute :: "ProviderModelID \<Rightarrow> gostring \<Rightarrow> ProviderRoute" where
  "AIRoute = keyed_route ''gemini'' ''gemini-ai''"

definition APIRoute :: "ProviderModelID \<Rightarrow> gostring \<Rightarrow> ProviderRoute" where
  "APIRoute = keyed_route ''xai'' ''xai-api''"

definition HostedRoute :: "ProviderModelID \<Rightarrow> gostring \<Rightarrow> ProviderRoute" where
  "HostedRoute = keyed_route ''nvidia'' ''nvidia-hosted''"

definition gemini_Routes :: "gostring \<Rightarrow> ProviderModelID \<Rightarrow> gostring \<Rightarrow> ProviderRoute list" where
  "gemini_Routes = keyed_Routes AIRoute"

definition xai_Routes :: "gostring \<Rightarrow> ProviderModelID \<Rightarrow> gostring \<Rightarrow> ProviderRoute list" where
  "xai_Routes = keyed_Routes APIRoute"

definition nvidia_Routes :: "gostring \<Rightarrow> ProviderModelID \<Rightarrow> gostring \<Rightarrow> ProviderRoute list" where
  "nvidia_Routes = keyed_Routes HostedRoute"

section \<open>Configured endpoints (openaicompat/provider.go)\<close>

text \<open>
  \<open>strconv.ParseFloat\<close> on a number in decimal notation, with the names of the infinities and of the
  value that is no number; hexadecimal notation is not read. A number out of range is an error.
\<close>

definition unsigned_decimal :: "gostring \<Rightarrow> rat option" where
  "unsigned_decimal s =
     (let mant = takeWhile (\<lambda>c. c \<noteq> CHR ''e'' \<and> c \<noteq> CHR ''E'') s;
          rest = drop (length mant) s;
          whole = takeWhile (\<lambda>c. c \<noteq> CHR ''.'') mant;
          frac = drop (Suc (length whole)) mant;
          m = (of_nat (digits_value (whole @ frac)) :: rat)
      in if \<not> is_number (whole @ frac) then None
         else case rest of
           [] \<Rightarrow> Some (m / 10 ^ length frac)
         | _ # x \<Rightarrow>
             (let (neg, ds) = (case x of c # t \<Rightarrow> if c = CHR ''-'' then (True, t) else if c = CHR ''+'' then (False, t) else (False, x)
                                | [] \<Rightarrow> (False, x))
              in if \<not> is_number ds then None
                 else if neg then Some (m / 10 ^ length frac / 10 ^ digits_value ds)
                 else Some (m / 10 ^ length frac * 10 ^ digits_value ds)))"

definition ParseFloat :: "gostring \<Rightarrow> float64 option" where
  "ParseFloat s =
     (let (neg, u) = (case s of c # t \<Rightarrow> if c = CHR ''-'' then (True, t) else if c = CHR ''+'' then (False, t) else (False, s)
                       | [] \<Rightarrow> (False, s))
      in if EqualFold_ascii u ''inf'' \<or> EqualFold_ascii u ''infinity'' then Some (if neg then NInf else PInf)
         else if EqualFold_ascii s ''nan'' then Some NaN
         else case unsigned_decimal u of
           None \<Rightarrow> None
         | Some x \<Rightarrow> (case fl (if neg then - x else x) of Fin y \<Rightarrow> Some (Fin y) | _ \<Rightarrow> None))"

text \<open>A price that is text, \<open>null\<close> included, or a number must read as zero; anything else is not free.\<close>

definition free_price :: "json \<Rightarrow> bool" where
  "free_price raw =
     (case dec_string [] raw of
        Some text' \<Rightarrow> ParseFloat text' = Some (Fin 0)
      | None \<Rightarrow> (case raw of JNum t \<Rightarrow> ParseFloat t = Some (Fin 0) | _ \<Rightarrow> False))"

definition openRouterFreeModel :: CatalogFilter where
  "openRouterFreeModel mid pricing =
     (let lowerID = ToLower (TrimSpace mid)
      in lowerID = ''openrouter/free'' \<or> HasSuffix lowerID '':free'' \<or> (pricing \<noteq> [] \<and> list_all (\<lambda>(_, raw). free_price raw) pricing))"

definition compat_filter :: "(gostring \<Rightarrow> gostring option) \<Rightarrow> gostring \<Rightarrow> CatalogFilter option" where
  "compat_filter hostname baseURL = (if isOpenRouterBaseURL hostname baseURL then Some openRouterFreeModel else None)"

text \<open>The backend's models under the id of this provider, in the order the map is ranged over.\<close>

fun compat_remap :: "gostring \<Rightarrow> ProviderModel list \<Rightarrow> models \<Rightarrow> goerr + models" where
  "compat_remap pid [] m = Inr m"
| "compat_remap pid (pm # pms) m =
     (case id_Parse (pm_ID pm) of
        Inl _ \<Rightarrow> Inl (PlainError ''backend returned invalid model id'')
      | Inr (_, segment) \<Rightarrow>
          (case NewProviderModelID pid segment of
             Inl _ \<Rightarrow> Inl (PlainError ''provider model id'')
           | Inr k \<Rightarrow>
               if m k \<noteq> None then Inl (PlainError ''provider model ID collision'')
               else compat_remap pid pms (m(k \<mapsto> pm\<lparr>pm_ID := k\<rparr>))))"

definition compat_DiscoverModels ::
  "(models \<Rightarrow> ProviderModelID list) \<Rightarrow> JsonText \<Rightarrow> CallEnv \<Rightarrow> time \<Rightarrow> CatalogFilter option \<Rightarrow> CompatProvider \<Rightarrow> catalog_result" where
  "compat_DiscoverModels order txt ce now filt p =
     map_prod (\<lambda>r. case r of
         Inl e \<Rightarrow> Inl e
       | Inr s \<Rightarrow>
           (case compat_remap (cv_id p) (map (\<lambda>k. the (snap_models s k)) (order (snap_models s))) Map.empty of
              Inl e \<Rightarrow> Inl e
            | Inr m \<Rightarrow> Inr (snapshot_of (cs_CreatedAt s) m))) id
       (opencode_DiscoverModels (bearerTransport (cv_resolve p)) txt ce now filt (cv_backend p))"

section \<open>What a catalog holds\<close>

definition accepted :: "gostring \<Rightarrow> (CatalogEntry \<Rightarrow> bool) \<Rightarrow> CatalogEntry \<Rightarrow> ProviderModelID \<Rightarrow> bool" where
  "accepted pid keep e k \<longleftrightarrow> ct_ID e \<noteq> [] \<and> keep e \<and> NewProviderModelID pid (providerModelSegment (ct_ID e)) = Inr k"

lemma entry_model_simps [simp]:
  "pm_ID (entry_model canon k e) = k" "pm_UpstreamID (entry_model canon k e) = ct_ID e"
  by (simp_all add: entry_model_def)

lemma catalog_step_cases:
  assumes "catalog_step pid canon keep e m = Inr m'"
  obtains (skipped) "m' = m" "\<And>k. \<not> accepted pid keep e k"
  | (entered) k where "accepted pid keep e k" "m' = m(k \<mapsto> entry_model canon k e)"
      "\<And>pm. m k = Some pm \<Longrightarrow> pm_UpstreamID pm = ct_ID e"
  using assms by (auto simp: catalog_step_def accepted_def split: if_splits sum.splits option.splits)

lemma catalog_loop_sound:
  assumes "catalog_loop pid canon keep es m = Inr m'" and "m' k = Some pm"
  shows "m k = Some pm \<or> (\<exists>e\<in>set es. accepted pid keep e k \<and> pm = entry_model canon k e)"
  using assms
proof (induction es arbitrary: m)
  case (Cons e es)
  then obtain m1 where s: "catalog_step pid canon keep e m = Inr m1" and l: "catalog_loop pid canon keep es m1 = Inr m'"
    by (auto split: sum.splits)
  from Cons.IH [OF l Cons.prems(2)] s show ?case
    by (elim disjE catalog_step_cases) (auto split: if_splits)
qed simp

lemma catalog_loop_keeps:
  assumes "catalog_loop pid canon keep es m = Inr m'" and "m k = Some pm"
  shows "\<exists>pm'. m' k = Some pm' \<and> pm_UpstreamID pm' = pm_UpstreamID pm"
  using assms
proof (induction es arbitrary: m pm)
  case (Cons e es)
  then obtain m1 where s: "catalog_step pid canon keep e m = Inr m1" and l: "catalog_loop pid canon keep es m1 = Inr m'"
    by (auto split: sum.splits)
  from s Cons.prems(2) have "\<exists>pm1. m1 k = Some pm1 \<and> pm_UpstreamID pm1 = pm_UpstreamID pm"
    by (elim catalog_step_cases) (auto split: if_splits)
  with Cons.IH [OF l] show ?case by metis
qed simp

lemma catalog_loop_complete:
  assumes "catalog_loop pid canon keep es m = Inr m'" and "e \<in> set es" and "accepted pid keep e k"
  shows "\<exists>pm. m' k = Some pm \<and> pm_UpstreamID pm = ct_ID e"
  using assms
proof (induction es arbitrary: m)
  case (Cons a es)
  then obtain m1 where s: "catalog_step pid canon keep a m = Inr m1" and l: "catalog_loop pid canon keep es m1 = Inr m'"
    by (auto split: sum.splits)
  show ?case
  proof (cases "e \<in> set es")
    case True
    with Cons.IH [OF l] Cons.prems(3) show ?thesis by blast
  next
    case False
    with Cons.prems(2) have "a = e" by simp
    with s Cons.prems(3) have "m1 k = Some (entry_model canon k e)"
      by (elim catalog_step_cases) (auto simp: accepted_def)
    from catalog_loop_keeps [OF l this] show ?thesis by simp
  qed
qed simp

definition entry_keep :: "CatalogFilter option \<Rightarrow> CatalogEntry \<Rightarrow> bool" where
  "entry_keep filt e = (case filt of None \<Rightarrow> True | Some f \<Rightarrow> f (ct_ID e) (ct_Pricing e))"

lemma opencode_DiscoverModels_split:
  assumes "fst (opencode_DiscoverModels tr txt ce now filt p) = Inr s"
  obtains ans es m where "catalog_answer entry_UnmarshalJSON (opencode_catalog_failed FailureNetwork ce)
      (opencode_catalog_failed FailureProtocol ce) txt ans = Inr es"
    and "ans = fst (http_Do tr ce \<lparr>hq_Method = ''GET'', hq_URL = models_url (oc_BaseURL p), hq_Authorization = None, hq_Body = None\<rparr>)"
    and "catalog_loop ProviderID canonicalize (entry_keep filt) es Map.empty = Inr m"
    and "s = snapshot_of now (if oc_nativeFreeOnly p then verified_only m else m)"
  using assms
  by (auto simp: opencode_DiscoverModels_def entry_keep_def [abs_def] fst_map_prod Let_def split: if_splits sum.splits)

lemma snap_models_of [simp]: "snap_models (snapshot_of now m) = m"
  by (simp add: snap_models_def snapshot_of_def)

definition published :: "OpenCodeProvider \<Rightarrow> CatalogFilter option \<Rightarrow> CatalogEntry \<Rightarrow> ProviderModelID \<Rightarrow> bool" where
  "published p filt e k \<longleftrightarrow> accepted ProviderID (entry_keep filt) e k \<and> (oc_nativeFreeOnly p \<longrightarrow> isVerifiedAnonymousFree (ct_ID e))"

lemma catalog_loop_finite: "catalog_loop pid canon keep es m = Inr m' \<Longrightarrow> finite (dom m) \<Longrightarrow> finite (dom m')"
  by (induction es arbitrary: m) (auto split: sum.splits elim!: catalog_step_cases)

lemma verified_only_Some: "verified_only m k = Some pm \<longleftrightarrow> m k = Some pm \<and> isVerifiedAnonymousFree (pm_UpstreamID pm)"
  by (auto simp: verified_only_def split: option.splits if_splits)

lemma discovery_exact:
  assumes l: "catalog_loop ProviderID canonicalize (entry_keep filt) es Map.empty = Inr m"
    and s: "s = snapshot_of now (if oc_nativeFreeOnly p then verified_only m else m)"
  shows "snap_models s k = Some pm \<Longrightarrow> \<exists>e\<in>set es. published p filt e k \<and> pm = entry_model canonicalize k e"
    and "e \<in> set es \<Longrightarrow> published p filt e k \<Longrightarrow> \<exists>pm. snap_models s k = Some pm \<and> pm_UpstreamID pm = ct_ID e"
proof -
  have m: "snap_models s k = Some pm \<longleftrightarrow> m k = Some pm \<and> (oc_nativeFreeOnly p \<longrightarrow> isVerifiedAnonymousFree (pm_UpstreamID pm))"
    for k pm by (simp add: s verified_only_Some)
  show "\<exists>e\<in>set es. published p filt e k \<and> pm = entry_model canonicalize k e" if "snap_models s k = Some pm"
    using that catalog_loop_sound [OF l, of k pm] unfolding m by (fastforce simp: published_def)
  show "\<exists>pm. snap_models s k = Some pm \<and> pm_UpstreamID pm = ct_ID e" if "e \<in> set es" "published p filt e k"
    using that catalog_loop_complete [OF l that(1), of k] unfolding m by (auto simp: published_def)
qed

lemma accepted_Parse: "accepted pid keep e k \<Longrightarrow> id_Parse k = Inr (pid, providerModelSegment (ct_ID e))"
  by (simp add: accepted_def NewProviderModelID_Parse)

lemma opencode_discovery_owned:
  assumes "fst (opencode_DiscoverModels tr txt ce now filt p) = Inr s" and m: "snap_models s k = Some pm"
  shows "owned_model ProviderID (\<lambda>pm. Inr (provider_Routes env p pm)) Map.empty k pm = Inr (provider_Routes env p pm)"
proof -
  from assms(1) obtain ans es m where l: "catalog_loop ProviderID canonicalize (entry_keep filt) es Map.empty = Inr m"
    and s: "s = snapshot_of now (if oc_nativeFreeOnly p then verified_only m else m)"
    by (rule opencode_DiscoverModels_split)
  from discovery_exact(1) [OF l s assms(2)] obtain e where e: "published p filt e k" "pm = entry_model canonicalize k e" by blast
  then have pm: "pm_ID pm = k" "id_Parse k = Inr (ProviderID, providerModelSegment (ct_ID e))"
    "\<not> (oc_nativeFreeOnly p \<and> \<not> isVerifiedAnonymousFree (pm_UpstreamID pm))"
    by (auto simp: published_def accepted_Parse)
  from pm(3) have "\<forall>r\<in>set (provider_Routes env p pm). rt_ModelID r = pm_ID pm \<and> rt_Provider r = ProviderID"
    "provider_Routes env p pm \<noteq> []"
    by (auto simp: provider_Routes_def PublicRoute_def AuthRoute_def)
  then have "List.find (\<lambda>r. rt_ModelID r \<noteq> k \<or> rt_Provider r \<noteq> ProviderID) (provider_Routes env p pm) = None"
    "provider_Routes env p pm \<noteq> []"
    using pm(1) by (auto simp: find_None_iff)
  with pm(1,2) show ?thesis by (simp add: owned_model_def)
qed

text \<open>What OpenCode's catalog holds: exactly the models the endpoint's answer names with a name that
  makes an id, under this id and with the upstream name unchanged, of a provider limited to free models
  only the verified ones; each of them, with the routes the provider gives it, passes the checks of the
  registry.\<close>

theorem opencode_discovery:
  assumes "fst (opencode_DiscoverModels plain_transport txt ce now None p) = Inr s"
  shows "\<exists>body data es.
    ce_do ce \<lparr>hq_Method = ''GET'', hq_URL = models_url (oc_BaseURL p), hq_Authorization = None, hq_Body = None\<rparr> = HttpAnswer 200 body \<and>
    read_limited maxCatalogBytes body = Inr data \<and> dec_catalog entry_UnmarshalJSON txt data = Some es \<and>
    (\<forall>k. snap_models s k \<noteq> None \<longleftrightarrow> (\<exists>e\<in>set es. published p None e k)) \<and>
    (\<forall>k pm. snap_models s k = Some pm \<longrightarrow>
      (\<exists>e\<in>set es. published p None e k \<and> pm = entry_model canonicalize k e) \<and>
      owned_model ProviderID (\<lambda>pm. Inr (provider_Routes env p pm)) Map.empty k pm = Inr (provider_Routes env p pm))"
proof -
  from assms obtain ans es m where a: "catalog_answer entry_UnmarshalJSON (opencode_catalog_failed FailureNetwork ce)
      (opencode_catalog_failed FailureProtocol ce) txt ans = Inr es"
    and ans: "ans = fst (http_Do plain_transport ce
      \<lparr>hq_Method = ''GET'', hq_URL = models_url (oc_BaseURL p), hq_Authorization = None, hq_Body = None\<rparr>)"
    and l: "catalog_loop ProviderID canonicalize (entry_keep None) es Map.empty = Inr m"
    and s: "s = snapshot_of now (if oc_nativeFreeOnly p then verified_only m else m)"
    by (rule opencode_DiscoverModels_split)
  note ex = discovery_exact [OF l s]
  from a ans obtain body data where b: "ce_do ce \<lparr>hq_Method = ''GET'', hq_URL = models_url (oc_BaseURL p), hq_Authorization = None, hq_Body = None\<rparr> = HttpAnswer 200 body"
    "read_limited maxCatalogBytes body = Inr data" "dec_catalog entry_UnmarshalJSON txt data = Some es"
    by (auto simp: catalog_answer_def http_Do_def plain_transport_def split: http_answer.splits if_splits sum.splits option.splits)
  have dom: "snap_models s k \<noteq> None \<longleftrightarrow> (\<exists>e\<in>set es. published p None e k)" for k
    using ex(1) [of k] ex(2) [of _ k] by fastforce
  note own = opencode_discovery_owned [OF assms, of _ _ env]
  from b dom ex(1) own show ?thesis by blast
qed

lemma compat_remap_spec:
  assumes "compat_remap pid pms m0 = Inr m"
  shows "m k = Some pm \<longleftrightarrow> m0 k = Some pm \<or>
    (\<exists>pm0\<in>set pms. \<exists>q seg. id_Parse (pm_ID pm0) = Inr (q, seg) \<and> NewProviderModelID pid seg = Inr k \<and> pm = pm0\<lparr>pm_ID := k\<rparr>)"
  using assms
proof (induction pms arbitrary: m0)
  case (Cons a pms)
  then obtain q seg k1 where a: "id_Parse (pm_ID a) = Inr (q, seg)" "NewProviderModelID pid seg = Inr k1" "m0 k1 = None"
    and l: "compat_remap pid pms (m0(k1 \<mapsto> a\<lparr>pm_ID := k1\<rparr>)) = Inr m"
    by (auto split: sum.splits if_splits)
  from Cons.IH [OF l] a show ?case by auto
qed simp

lemma compat_discovery_owned:
  assumes "fst (compat_DiscoverModels order txt ce now filt p) = Inr s" and "snap_models s k = Some pm"
  shows "pm_ID pm = k" and "\<exists>seg. id_Parse k = Inr (cv_id p, seg)"
proof -
  from assms(1) obtain pms m t where "compat_remap (cv_id p) pms Map.empty = Inr m" "s = snapshot_of t m"
    by (auto simp: compat_DiscoverModels_def split: sum.splits)
  with assms(2) compat_remap_spec [of "cv_id p" pms Map.empty m k pm]
  obtain pm0 seg where "NewProviderModelID (cv_id p) seg = Inr k" "pm = pm0\<lparr>pm_ID := k\<rparr>" by auto
  then show "pm_ID pm = k" and "\<exists>seg. id_Parse k = Inr (cv_id p, seg)" using NewProviderModelID_Parse by auto
qed

text \<open>What the catalog of a configured endpoint holds: the models its answer names and its filter
  keeps, each under the id of this provider and nobody else's, with the upstream name unchanged; the
  remapping neither merges, drops nor invents a model.\<close>

theorem compat_discovery:
  assumes "fst (compat_DiscoverModels order txt ce now filt p) = Inr s"
    and order: "\<And>m. finite (dom m) \<Longrightarrow> iter_order (order m) m"
  shows "\<exists>es. catalog_answer entry_UnmarshalJSON (opencode_catalog_failed FailureNetwork ce)
      (opencode_catalog_failed FailureProtocol ce) txt (fst (http_Do (bearerTransport (cv_resolve p)) ce
        \<lparr>hq_Method = ''GET'', hq_URL = models_url (oc_BaseURL (cv_backend p)), hq_Authorization = None, hq_Body = None\<rparr>)) = Inr es \<and>
    (\<forall>k. snap_models s k \<noteq> None \<longleftrightarrow> (\<exists>e\<in>set es. \<exists>k0. published (cv_backend p) filt e k0 \<and>
      NewProviderModelID (cv_id p) (providerModelSegment (ct_ID e)) = Inr k)) \<and>
    (\<forall>k pm. snap_models s k = Some pm \<longrightarrow> pm_ID pm = k \<and> id_Parse k = Inr (cv_id p, providerModelSegment (pm_UpstreamID pm)) \<and>
      (\<exists>e\<in>set es. pm = entry_model canonicalize k e))"
proof -
  from assms(1) obtain b m where b: "fst (opencode_DiscoverModels (bearerTransport (cv_resolve p)) txt ce now filt (cv_backend p)) = Inr b"
    and r: "compat_remap (cv_id p) (map (\<lambda>k. the (snap_models b k)) (order (snap_models b))) Map.empty = Inr m"
    and s: "s = snapshot_of (cs_CreatedAt b) m"
    by (auto simp: compat_DiscoverModels_def split: sum.splits)
  from b obtain ans es mb where a: "catalog_answer entry_UnmarshalJSON (opencode_catalog_failed FailureNetwork ce)
      (opencode_catalog_failed FailureProtocol ce) txt ans = Inr es"
    and l: "catalog_loop ProviderID canonicalize (entry_keep filt) es Map.empty = Inr mb"
    and ans: "ans = fst (http_Do (bearerTransport (cv_resolve p)) ce
        \<lparr>hq_Method = ''GET'', hq_URL = models_url (oc_BaseURL (cv_backend p)), hq_Authorization = None, hq_Body = None\<rparr>)"
    and sb: "b = snapshot_of now (if oc_nativeFreeOnly (cv_backend p) then verified_only mb else mb)"
    by (rule opencode_DiscoverModels_split)
  note ex = discovery_exact [OF l sb]
  have "dom (snap_models b) \<subseteq> dom mb" by (auto simp: sb verified_only_Some)
  with catalog_loop_finite [OF l] have "finite (dom (snap_models b))" by (auto intro: finite_subset)
  from order [OF this] have order: "set (order (snap_models b)) = dom (snap_models b)" by (simp add: iter_order_def)
  have models: "snap_models s k = Some pm \<longleftrightarrow> (\<exists>k0 pm0 q seg. snap_models b k0 = Some pm0 \<and> id_Parse (pm_ID pm0) = Inr (q, seg) \<and>
      NewProviderModelID (cv_id p) seg = Inr k \<and> pm = pm0\<lparr>pm_ID := k\<rparr>)" for k pm
    using compat_remap_spec [OF r, of k pm] by (auto simp: s order dom_def) force
  have entry: "\<exists>e\<in>set es. published (cv_backend p) filt e k0 \<and> pm0 = entry_model canonicalize k0 e \<and>
      id_Parse (pm_ID pm0) = Inr (ProviderID, providerModelSegment (ct_ID e))" if "snap_models b k0 = Some pm0" for k0 pm0
  proof -
    from ex(1) [OF that] obtain e where "e \<in> set es" "published (cv_backend p) filt e k0" "pm0 = entry_model canonicalize k0 e"
      by blast
    moreover from this(2) have "id_Parse k0 = Inr (ProviderID, providerModelSegment (ct_ID e))"
      unfolding published_def using accepted_Parse by blast
    ultimately show ?thesis by (intro bexI [of _ e]) simp_all
  qed
  have rename: "(entry_model canonicalize k0 e)\<lparr>pm_ID := k\<rparr> = entry_model canonicalize k e" for k0 k e
    by (simp add: entry_model_def)
  have sound: "\<exists>e\<in>set es. \<exists>k0. published (cv_backend p) filt e k0 \<and>
      NewProviderModelID (cv_id p) (providerModelSegment (ct_ID e)) = Inr k \<and> pm = entry_model canonicalize k e"
    if "snap_models s k = Some pm" for k pm
    using that entry rename unfolding models by fastforce
  have complete: "snap_models s k \<noteq> None" if "e \<in> set es" "published (cv_backend p) filt e k0"
    "NewProviderModelID (cv_id p) (providerModelSegment (ct_ID e)) = Inr k" for k e k0
  proof -
    from ex(2) [OF that(1,2)] obtain pm0 where pm0: "snap_models b k0 = Some pm0" "pm_UpstreamID pm0 = ct_ID e" by blast
    from entry [OF pm0(1)] pm0(2) have "id_Parse (pm_ID pm0) = Inr (ProviderID, providerModelSegment (ct_ID e))" by auto
    with models [of k "pm0\<lparr>pm_ID := k\<rparr>"] pm0(1) that(3) show ?thesis by fastforce
  qed
  have "snap_models s k \<noteq> None \<longleftrightarrow> (\<exists>e\<in>set es. \<exists>k0. published (cv_backend p) filt e k0 \<and>
      NewProviderModelID (cv_id p) (providerModelSegment (ct_ID e)) = Inr k)" for k
    using sound complete by blast
  moreover have "pm_ID pm = k \<and> id_Parse k = Inr (cv_id p, providerModelSegment (pm_UpstreamID pm)) \<and>
      (\<exists>e\<in>set es. pm = entry_model canonicalize k e)" if "snap_models s k = Some pm" for k pm
    using sound [OF that] NewProviderModelID_Parse by auto
  ultimately show ?thesis using a ans by blast
qed

text \<open>A single name that is too long under the id of the endpoint costs its whole catalog: the backend accepts
  it and the remapping fails, where it should skip the model like every other name that makes no id.\<close>

lemma compat_long_name_fails:
  assumes "pm \<in> set pms" and "id_Parse (pm_ID pm) = Inr (q, seg)" and "NewProviderModelID pid seg = Inl e"
  shows "\<exists>err. compat_remap pid pms m0 = Inl err"
  using assms by (induction pms arbitrary: m0) (auto split: sum.splits if_splits)

text \<open>The clients with one key: the key is sent to the base address only and only when it is set, every
  model of their catalog stands for an entry of the answer under the client's own id, and their routes
  need the key and are never chosen automatically.\<close>

theorem keyed_clients_closed:
  assumes "keyed_DiscoverModels pid canon env txt ce now base = (res, sent)"
  shows "(\<forall>q. q \<in> set sent \<longrightarrow> sent = [q] \<and> hq_URL q = models_url base \<and>
      hq_Authorization q = (if TrimSpace env = [] then None else Some (bearer (TrimSpace env)))) \<and>
    (\<forall>s k pm. res = Inr s \<and> snap_models s k = Some pm \<longrightarrow>
      pm_ID pm = k \<and> id_Parse k = Inr (pid, providerModelSegment (pm_UpstreamID pm)) \<and> pm_UpstreamID pm \<noteq> [] \<and>
      (\<forall>r. r \<in> set (keyed_Routes (keyed_route pid routeName) env k (pm_UpstreamID pm)) \<longrightarrow>
        TrimSpace env \<noteq> [] \<and> rt_ModelID r = k \<and> rt_Provider r = pid \<and> rt_UpstreamModelID r = pm_UpstreamID pm \<and>
        \<not> AllowsAutomaticRouting r))"
proof -
  let ?q = "\<lparr>hq_Method = ''GET'', hq_URL = models_url base,
      hq_Authorization = (if TrimSpace env \<noteq> [] then Some (bearer (TrimSpace env)) else None), hq_Body = None\<rparr>"
  from assms have sent: "sent = [] \<or> sent = [?q]"
    by (auto simp: keyed_DiscoverModels_def http_Do_def plain_transport_def Let_def split: if_splits)
  have model: "pm_ID pm = k \<and> id_Parse k = Inr (pid, providerModelSegment (pm_UpstreamID pm)) \<and> pm_UpstreamID pm \<noteq> []"
    if "res = Inr s" "snap_models s k = Some pm" for s k pm
  proof -
    from assms that(1) obtain es m where l: "catalog_loop pid canon (\<lambda>_. True) es Map.empty = Inr m" and s: "s = snapshot_of now m"
      by (auto simp: keyed_DiscoverModels_def Let_def map_prod_def split: if_splits sum.splits prod.splits)
    from that(2) s have "m k = Some pm" by simp
    from catalog_loop_sound [OF l this] obtain e where "accepted pid (\<lambda>_. True) e k" "pm = entry_model canon k e" by auto
    moreover from this(1) have "id_Parse k = Inr (pid, providerModelSegment (ct_ID e))" by (rule accepted_Parse)
    ultimately show ?thesis by (simp add: accepted_def)
  qed
  have route: "TrimSpace env \<noteq> [] \<and> rt_ModelID r = k \<and> rt_Provider r = pid \<and> rt_UpstreamModelID r = u \<and> \<not> AllowsAutomaticRouting r"
    if "r \<in> set (keyed_Routes (keyed_route pid routeName) env k u)" for r k u
    using that by (auto simp: keyed_Routes_def keyed_route_def AllowsAutomaticRouting_def AutoRoutable.simps EffectiveAccess_def
        split: if_splits)
  from sent model route show ?thesis by auto
qed

lemma keyed_sent:
  "ce_urlOK ce (models_url base) \<Longrightarrow> \<exists>q. snd (keyed_DiscoverModels pid canon env txt ce now base) = [q]"
  by (simp add: keyed_DiscoverModels_def http_Do_def plain_transport_def Let_def)

section \<open>Concrete inputs\<close>

definition listing_text :: JsonText where
  "listing_text = \<lparr>jt_parse = (\<lambda>_. Some (JObj [(''data'', JArr [JObj [(''id'', JStr ''a/b''), (''tools'', JNull)]])])), jt_text = (\<lambda>_. [])\<rparr>"

definition listing_env :: CallEnv where
  "listing_env = down_env\<lparr>ce_do := \<lambda>_. HttpAnswer 200 \<lparr>bd_data = [], bd_fail = None\<rparr>\<rparr>"

definition listed_entry :: CatalogEntry where
  "listed_entry = zero_entry\<lparr>ct_ID := ''a/b'', ct_Tools := Some False\<rparr>"

lemma listing_entries:
  "dec_catalog entry_UnmarshalJSON listing_text [] = Some [listed_entry]"
  "dec_catalog (dec_struct catalog_entry_field) listing_text [] = Some [zero_entry\<lparr>ct_ID := ''a/b''\<rparr>]"
  by code_simp+

lemma listing_segment: "providerModelSegment ''a/b'' = ''b64-YS9i''"
  by (simp add: providerModelSegment_def is_separator_def RawURLEncode_def url_alphabet_def)

lemma listing_models:
  "NewProviderModelID ProviderID ''b64-YS9i'' = Inr ''opencode/b64-YS9i''"
  "NewProviderModelID ''acme'' ''b64-YS9i'' = Inr ''acme/b64-YS9i''"
  "id_Parse ''opencode/b64-YS9i'' = Inr (''opencode'', ''b64-YS9i'')"
  by code_simp+

definition sample_endpoint :: OpenCodeProvider where
  "sample_endpoint = \<lparr>oc_BaseURL = ''http://h'', oc_resolveCredential = None, oc_nativeFreeOnly = False\<rparr>"

lemma listing_discovered:
  assumes "tr = plain_transport \<or> tr = bearerTransport None"
  shows "fst (opencode_DiscoverModels tr listing_text listing_env now None sample_endpoint) =
    Inr (snapshot_of now [''opencode/b64-YS9i'' \<mapsto> entry_model canonicalize ''opencode/b64-YS9i'' listed_entry])"
  using assms
  by (auto simp: opencode_DiscoverModels_def sample_endpoint_def listing_env_def down_env_def http_Do_def plain_transport_def
      bearerTransport_def catalog_answer_def read_limited_def maxCatalogBytes_def listing_entries catalog_step_def listed_entry_def
      zero_entry_def listing_segment listing_models)

theorem opencode_discovery_witness:
  "\<exists>s. fst (opencode_DiscoverModels plain_transport listing_text listing_env 0 None sample_endpoint) = Inr s \<and>
    snap_models s ''opencode/b64-YS9i'' \<noteq> None"
proof -
  let ?k = "''opencode/b64-YS9i''"
  let ?s = "snapshot_of 0 [?k \<mapsto> entry_model canonicalize ?k listed_entry]"
  have d: "fst (opencode_DiscoverModels plain_transport listing_text listing_env 0 None sample_endpoint) = Inr ?s"
    by (simp add: listing_discovered)
  from opencode_discovery [OF d, of "[]"] d show ?thesis by (intro exI [of _ ?s]) auto
qed

theorem compat_discovery_witness:
  "\<exists>s. fst (compat_DiscoverModels (\<lambda>m. sorted_list_of_set (dom m)) listing_text listing_env 0 None
      \<lparr>cv_id = ''acme'', cv_backend = sample_endpoint, cv_resolve = None\<rparr>) = Inr s \<and>
    snap_models s ''acme/b64-YS9i'' \<noteq> None \<and> pm_UpstreamID (the (snap_models s ''acme/b64-YS9i'')) = ''a/b''"
proof -
  let ?k = "''opencode/b64-YS9i''"
  let ?p = "\<lparr>cv_id = ''acme'', cv_backend = sample_endpoint, cv_resolve = None\<rparr>"
  let ?s = "snapshot_of 0 [''acme/b64-YS9i'' \<mapsto> entry_model canonicalize ''acme/b64-YS9i'' listed_entry]"
  have ren: "(entry_model canonicalize ?k listed_entry)\<lparr>pm_ID := ''acme/b64-YS9i''\<rparr> = entry_model canonicalize ''acme/b64-YS9i'' listed_entry"
    by (simp add: entry_model_def)
  have d: "fst (compat_DiscoverModels (\<lambda>m. sorted_list_of_set (dom m)) listing_text listing_env 0 None ?p) = Inr ?s"
    by (simp add: compat_DiscoverModels_def listing_discovered listing_models ren) (simp add: snapshot_of_def)
  from compat_discovery [OF d] have "snap_models ?s ''acme/b64-YS9i'' \<noteq> None \<and>
      pm_ID (the (snap_models ?s ''acme/b64-YS9i'')) = ''acme/b64-YS9i''"
    by (force simp: iter_order_def)
  with d show ?thesis by (intro exI [of _ ?s]) (simp add: listed_entry_def)
qed

theorem keyed_clients_closed_witness:
  "hq_Authorization (hd (snd (gemini_DiscoverModels '' key '' listing_text listing_env 0 ''http://h''))) = Some ''Bearer key''"
proof -
  have "TrimSpace '' key '' = ''key''" by code_simp
  have q: "\<exists>q. snd (gemini_DiscoverModels '' key '' listing_text listing_env 0 ''http://h'') = [q]"
    unfolding gemini_DiscoverModels_def by (rule keyed_sent) (simp add: listing_env_def down_env_def)
  then obtain q where q: "snd (gemini_DiscoverModels '' key '' listing_text listing_env 0 ''http://h'') = [q]" by blast
  obtain res sent where r: "gemini_DiscoverModels '' key '' listing_text listing_env 0 ''http://h'' = (res, sent)" by fastforce
  with q have sent: "sent = [q]" by simp
  note closed = keyed_clients_closed [OF r [unfolded gemini_DiscoverModels_def], THEN conjunct1, rule_format, of q]
  from closed sent have "hq_Authorization q = Some (bearer ''key'')"
    by (simp only: \<open>TrimSpace '' key '' = ''key''\<close> list.set insert_iff) simp
  with q show ?thesis by (simp add: bearer_def)
qed

end
