(* ===== verification/ProviderSetup.thy ===== *)
theory ProviderSetup
  imports Secrets Discovery
begin

text \<open>
  Package \<open>internal/app\<close>, file \<open>providers.go\<close>: which provider the registry gets for each entry of the
  configuration, the routes of its models and the credential its requests carry. A credential is looked
  up at the time of a request; the state of the vault at that time is an argument.
\<close>

section \<open>Routes of a configured endpoint (providers.go)\<close>

definition genericRoutes :: "ProviderConfig \<Rightarrow> ProviderModel \<Rightarrow> goerr + ProviderRoute list" where
  "genericRoutes pc pm =
     (case NewRouteID (pf_ID pc) (pm_UpstreamID pm) of
        Inl _ \<Rightarrow> Inl (PlainError ''route id'')
      | Inr routeID \<Rightarrow>
          (let excluded = ModelExcluded pc (pm_UpstreamID pm)
           in Inr [\<lparr>rt_ID = routeID, rt_ModelID = pm_ID pm, rt_Provider = pf_ID pc, rt_UpstreamModelID = pm_UpstreamID pm,
                rt_CredentialID = pf_ID pc, rt_Access = AccessUnknown, rt_CapabilityOverride = Some allCapabilities,
                rt_Enabled = (\<not> excluded), rt_AutoRouteAllowed = Some (\<not> excluded),
                rt_ProbeAllowed = Some (AutoProbeEnabled pc \<and> \<not> excluded), rt_DefaultSelected = Some (\<not> excluded)\<rparr>]))"

section \<open>Credentials (providers.go)\<close>

text \<open>What resolving a reference answers; \<open>blank\<close> is the answer when the entry has none.\<close>

definition resolve_ref ::
  "'c Codec \<Rightarrow> bool \<Rightarrow> 'b SecretStore option \<Rightarrow> ('b, 'c) Vault \<Rightarrow> gostring \<Rightarrow> gostring \<Rightarrow> goerr + gostring" where
  "resolve_ref cd readable store v blank ref =
     (if TrimSpace ref = [] then Inr blank
      else if store = None then Inl (PlainError ''credential store unavailable'')
      else case secret_Get cd readable store ref v of
        Inl ErrSecretNotFound \<Rightarrow> Inl (PlainError ''credential is not configured'')
      | Inl _ \<Rightarrow> Inl (PlainError ''secret store'')
      | Inr key \<Rightarrow> Inr key)"

section \<open>The providers of a configuration (providers.go)\<close>

datatype Instance = Native OpenCodeProvider | Compatible ProviderConfig CompatProvider "CatalogFilter option"

datatype setup_error =
    ConfigNil
  | SetupProtocol gostring gostring
  | ConfigureProvider gostring goerr
  | RegistryError registry_error

definition is_native :: "ProviderConfig \<Rightarrow> bool" where
  "is_native item \<longleftrightarrow> pf_ID item = ''opencode'' \<and> str_TrimRight CHR ''/'' (pf_BaseURL item) = AuthBaseURL"

definition configured_instance ::
  "'c Codec \<Rightarrow> bool \<Rightarrow> 'b SecretStore option \<Rightarrow> ('b, 'c) Vault \<Rightarrow> gostring \<Rightarrow> (gostring \<Rightarrow> gostring option) \<Rightarrow>
   ProviderConfig \<Rightarrow> setup_error + Instance" where
  "configured_instance cd readable store v env hostname item =
     (if pf_Protocol item \<noteq> OpenAICompatibleProtocol then Inl (SetupProtocol (pf_ID item) (pf_Protocol item))
      else if is_native item
      then Inr (Native (opencode_New (pf_BaseURL item)
        (Some (resolve_ref cd readable store v (AuthKey env) (pf_CredentialRef item)))))
      else case compat_New hostname (pf_ID item) (pf_BaseURL item)
          (Some (resolve_ref cd readable store v [] (pf_CredentialRef item))) of
        Inl e \<Rightarrow> Inl (ConfigureProvider (pf_ID item) e)
      | Inr p \<Rightarrow> Inr (Compatible item p (compat_filter hostname (pf_BaseURL item))))"

text \<open>What an instance does with one call; the requests it sends are kept beside the answer.\<close>

definition instance_Chat ::
  "gostring \<Rightarrow> JsonText \<Rightarrow> CallEnv \<Rightarrow> Instance \<Rightarrow> ProviderRoute \<Rightarrow> NormalizedRequest \<Rightarrow> chat_result" where
  "instance_Chat env txt ce i route req =
     (case i of
        Native p \<Rightarrow> opencode_ChatCompletion env plain_transport txt ce p route req
      | Compatible _ p _ \<Rightarrow> compat_ChatCompletion env txt ce p route req)"

definition instance_Discover ::
  "(models \<Rightarrow> ProviderModelID list) \<Rightarrow> JsonText \<Rightarrow> CallEnv \<Rightarrow> time \<Rightarrow> Instance \<Rightarrow> catalog_result" where
  "instance_Discover order txt ce now i =
     (case i of
        Native p \<Rightarrow> opencode_DiscoverModels plain_transport txt ce now None p
      | Compatible _ p filt \<Rightarrow> compat_DiscoverModels order txt ce now filt p)"

definition instance_Routes :: "gostring \<Rightarrow> Instance \<Rightarrow> RouteBuilder" where
  "instance_Routes env i pm =
     (case i of
        Native p \<Rightarrow> Inr (provider_Routes env p pm)
      | Compatible item _ _ \<Rightarrow> genericRoutes item pm)"

text \<open>The surroundings of the calls: the variable with OpenCode's key and the exchanges by provider id.\<close>

record SetupEnv =
  su_env :: gostring
  su_txt :: JsonText
  su_now :: time
  su_order :: "models \<Rightarrow> ProviderModelID list"
  su_chat :: "gostring \<Rightarrow> CallEnv"
  su_discover :: "gostring \<Rightarrow> CallEnv"
  su_hostname :: "gostring \<Rightarrow> gostring option"

definition instance_entry :: "SetupEnv \<Rightarrow> gostring \<Rightarrow> Instance \<Rightarrow> ChatStream Entry" where
  "instance_entry se pid i =
     \<lparr>en_ID = pid,
      en_Backend = Some \<lparr>bk_Discover = (case fst (instance_Discover (su_order se) (su_txt se) (su_discover se pid) (su_now se) i) of
            Inl e \<Rightarrow> Inl e | Inr s \<Rightarrow> Inr (Some s)),
        bk_Chat = (\<lambda>route req. fst (instance_Chat (su_env se) (su_txt se) (su_chat se pid) i route req))\<rparr>,
      en_Routes = Some (instance_Routes (su_env se) i)\<rparr>"

fun configured_entries ::
  "'c Codec \<Rightarrow> bool \<Rightarrow> 'b SecretStore option \<Rightarrow> ('b, 'c) Vault \<Rightarrow> SetupEnv \<Rightarrow> ProviderConfig list \<Rightarrow>
   setup_error + ChatStream Entry list" where
  "configured_entries cd readable store v se [] = Inr []"
| "configured_entries cd readable store v se (item # items) =
     (if \<not> pf_Enabled item then configured_entries cd readable store v se items
      else case configured_instance cd readable store v (su_env se) (su_hostname se) item of
        Inl e \<Rightarrow> Inl e
      | Inr i \<Rightarrow>
          (case configured_entries cd readable store v se items of
             Inl e \<Rightarrow> Inl e
           | Inr es \<Rightarrow> Inr (instance_entry se (pf_ID item) i # es)))"

definition configuredProvider ::
  "'c Codec \<Rightarrow> bool \<Rightarrow> 'b SecretStore option \<Rightarrow> ('b, 'c) Vault \<Rightarrow> SetupEnv \<Rightarrow> PersistedConfig option \<Rightarrow>
   setup_error + ChatStream ProviderRegistry" where
  "configuredProvider cd readable store v se cfg =
     (case cfg of
        None \<Rightarrow> Inl ConfigNil
      | Some cfg \<Rightarrow>
          (case configured_entries cd readable store v se (cf_Providers cfg) of
             Inl e \<Rightarrow> Inl e
           | Inr es \<Rightarrow> (case registry_New es of Inl e \<Rightarrow> Inl (RegistryError e) | Inr r \<Rightarrow> Inr r)))"

section \<open>Properties\<close>

lemma chat_url_trim: "str_TrimRight CHR ''/'' base = AuthBaseURL \<Longrightarrow> chat_url AuthBaseURL = chat_url base"
proof -
  assume base: "str_TrimRight CHR ''/'' base = AuthBaseURL"
  have "str_TrimRight CHR ''/'' AuthBaseURL = AuthBaseURL" by code_simp
  with base show ?thesis by (simp only: chat_url_def)
qed

lemma configured_instance_cases:
  assumes "configured_instance cd readable store v env hostname item = Inr i"
  obtains (native) "is_native item" "i = Native \<lparr>oc_BaseURL = pf_BaseURL item,
        oc_resolveCredential = Some (resolve_ref cd readable store v (AuthKey env) (pf_CredentialRef item)), oc_nativeFreeOnly = True\<rparr>"
  | (compatible) p where "\<not> is_native item" "i = Compatible item p (compat_filter hostname (pf_BaseURL item))"
      "compat_New hostname (pf_ID item) (pf_BaseURL item) (Some (resolve_ref cd readable store v [] (pf_CredentialRef item))) = Inr p"
proof (cases "is_native item")
  case True
  then have "str_TrimRight CHR ''/'' (pf_BaseURL item) = AuthBaseURL" by (simp only: is_native_def)
  moreover from this have "pf_BaseURL item \<noteq> []" by (auto simp: AuthBaseURL_def)
  ultimately have "opencode_New (pf_BaseURL item) r = \<lparr>oc_BaseURL = pf_BaseURL item, oc_resolveCredential = r, oc_nativeFreeOnly = True\<rparr>" for r
    by (simp only: opencode_New_def Let_def if_False) simp
  with assms True native show ?thesis by (auto simp: configured_instance_def split: if_splits)
next
  case False
  with assms compatible show ?thesis by (auto simp: configured_instance_def split: if_splits sum.splits)
qed


text \<open>A model the configuration excludes is never used: the router does not choose it, the probes leave
  it alone, and it is not selected by default.\<close>

theorem excluded_models_unused:
  assumes "genericRoutes pc pm = Inr rs" and "ModelExcluded pc (pm_UpstreamID pm)" and "r \<in> set rs"
  shows "\<not> AllowsProbe r \<and> \<not> SelectedByDefault r \<and> (c \<in> set (er_Eligible (Filter inp)) \<longrightarrow> cd_Route c \<noteq> r)"
proof -
  from assms have r: "\<not> rt_Enabled r" "\<not> AllowsProbe r" "\<not> SelectedByDefault r"
    by (auto simp: genericRoutes_def AllowsProbe_def SelectedByDefault_def Let_def split: sum.splits)
  then show ?thesis using Filter_mem_iff [of c inp] by (auto simp: route_eligible_def)
qed

text \<open>No configured provider can enter models under another's name: whatever its endpoint answers, every
  model of the catalog it discovers passes the ownership checks of the registry with the routes that are
  built for it, unless no routes can be built.\<close>

theorem configured_models_owned:
  assumes "configured_instance cd readable store v env hostname item = Inr i"
    and "fst (instance_Discover order txt ce now i) = Inr s"
    and "snap_models s k = Some pm" and "instance_Routes env i pm = Inr rs"
  shows "owned_model (pf_ID item) (instance_Routes env i) Map.empty k pm = Inr rs"
  using assms(1)
proof (cases rule: configured_instance_cases)
  case native
  with assms(2) obtain p where i: "i = Native p" and d: "fst (opencode_DiscoverModels plain_transport txt ce now None p) = Inr s"
    by (auto simp: instance_Discover_def)
  from opencode_discovery_owned [OF d assms(3), of env] native(1) i assms(4) show ?thesis
    by (simp add: instance_Routes_def [abs_def] is_native_def ProviderID_def)
next
  case (compatible p)
  from assms(2) compatible(2) have d: "fst (compat_DiscoverModels order txt ce now (compat_filter hostname (pf_BaseURL item)) p) = Inr s"
    by (simp add: instance_Discover_def)
  from compat_discovery_owned [OF d assms(3)] compat_New_fields [OF compatible(3)]
  obtain seg where "pm_ID pm = k" "id_Parse k = Inr (pf_ID item, seg)" by auto
  with assms(4) compatible(2) show ?thesis
    by (auto simp: owned_model_def instance_Routes_def genericRoutes_def Let_def split: sum.splits)
qed

section \<open>Concrete inputs\<close>

definition sample_item :: ProviderConfig where
  "sample_item = \<lparr>pf_ID = ''acme'', pf_Name = ''Acme'', pf_Protocol = OpenAICompatibleProtocol, pf_BaseURL = ''http://h'',
     pf_Enabled = True, pf_CredentialRef = [], pf_AutoProbe = None, pf_ExcludedModelIDs = [''x'']\<rparr>"

definition sample_pm :: "gostring \<Rightarrow> ProviderModel" where
  "sample_pm u = \<lparr>pm_ID = ''acme/'' @ u, pm_CanonicalKey = [], pm_DisplayName = u, pm_Base = zeroCapabilities, pm_UpstreamID = u\<rparr>"

definition sample_instance :: Instance where
  "sample_instance = Compatible sample_item \<lparr>cv_id = ''acme'', cv_backend = sample_endpoint, cv_resolve = Some (Inr [])\<rparr> None"

lemma sample_configured:
  "configured_instance sample_codec True (Some sample_store) v env (\<lambda>_. None) sample_item = Inr sample_instance"
proof -
  have facts: "isl (NewProviderModelID ''acme'' ''model'') = False" "TrimSpace ''http://h'' \<noteq> []"
    "str_TrimRight CHR ''/'' ''http://h'' = ''http://h''" "\<not> is_native sample_item" "TrimSpace ([] :: gostring) = []"
    by code_simp+
  then show ?thesis
    by (auto simp: configured_instance_def sample_item_def sample_instance_def compat_New_def isOpenRouterBaseURL_def compat_filter_def
        resolve_ref_def sample_endpoint_def simp del: str_TrimRight.simps split: sum.splits)
qed

lemma sample_routes: "\<exists>r. genericRoutes sample_item (sample_pm u) = Inr [r] \<and> rt_Provider r = ''acme'' \<and> rt_UpstreamModelID r = u
    \<and> rt_ID r = ''acme::'' @ u" if "u = ''m'' \<or> u = ''x''"
proof -
  have "NewRouteID ''acme'' ''m'' = Inr ''acme::m''" "NewRouteID ''acme'' ''x'' = Inr ''acme::x''" by code_simp+
  with that show ?thesis by (auto simp: genericRoutes_def sample_item_def sample_pm_def Let_def)
qed


theorem excluded_models_unused_witness:
  "\<exists>r. genericRoutes sample_item (sample_pm ''x'') = Inr [r] \<and> \<not> AllowsProbe r"
proof -
  from sample_routes [of "''x''"] obtain r where r: "genericRoutes sample_item (sample_pm ''x'') = Inr [r]" by auto
  have "ModelExcluded sample_item (pm_UpstreamID (sample_pm ''x''))" by code_simp
  from excluded_models_unused [OF r this, of r] r show ?thesis by auto
qed

theorem configured_models_owned_witness:
  "\<exists>s pm rs. snap_models s ''acme/b64-YS9i'' = Some pm \<and>
    owned_model ''acme'' (instance_Routes [] sample_instance) Map.empty ''acme/b64-YS9i'' pm = Inr rs"
proof -
  let ?k = "''opencode/b64-YS9i''" and ?order = "\<lambda>m. sorted_list_of_set (dom m)"
  let ?p = "\<lparr>cv_id = ''acme'', cv_backend = sample_endpoint, cv_resolve = Some (Inr [])\<rparr>"
  let ?pm = "entry_model canonicalize ''acme/b64-YS9i'' listed_entry"
  let ?s = "snapshot_of 0 [''acme/b64-YS9i'' \<mapsto> ?pm]"
  have ren: "(entry_model canonicalize ?k listed_entry)\<lparr>pm_ID := ''acme/b64-YS9i''\<rparr> = ?pm" by (simp add: entry_model_def)
  have bl: "TrimSpace ([] :: gostring) = []" by code_simp
  then have "http_Do (bearerTransport (Some (Inr []))) listing_env = http_Do (bearerTransport None) listing_env"
    by (simp add: fun_eq_iff http_Do_def bearerTransport_def)
  then have "opencode_DiscoverModels (bearerTransport (Some (Inr []))) listing_text listing_env 0 None sample_endpoint =
      opencode_DiscoverModels (bearerTransport None) listing_text listing_env 0 None sample_endpoint"
    by (simp only: opencode_DiscoverModels_def)
  then have d: "fst (instance_Discover ?order listing_text listing_env 0 sample_instance) = Inr ?s"
    by (simp add: instance_Discover_def sample_instance_def compat_DiscoverModels_def listing_discovered listing_models ren)
      (simp add: snapshot_of_def)
  have "NewRouteID ''acme'' ''a/b'' = Inr ''acme::a/b''" by code_simp
  then obtain rs where rs: "instance_Routes [] sample_instance ?pm = Inr rs"
    by (simp add: instance_Routes_def sample_instance_def genericRoutes_def sample_item_def listed_entry_def Let_def)
  have m: "snap_models ?s ''acme/b64-YS9i'' = Some ?pm" by simp
  have "pf_ID sample_item = ''acme''" by (simp add: sample_item_def)
  with configured_models_owned [OF sample_configured d m rs]
  have "owned_model ''acme'' (instance_Routes [] sample_instance) Map.empty ''acme/b64-YS9i'' ?pm = Inr rs" by (simp only:)
  with m show ?thesis by blast
qed

end
