(* ===== verification/ConfigUpdate.thy ===== *)
theory ConfigUpdate
  imports ProviderSetup ControlView
begin

text \<open>
  Package \<open>internal/app\<close>: the update of the configuration a control client asks for (\<open>config_update.go\<close>)
  and what the application keeps of the control state (\<open>app.go\<close>), with the request and response types
  of \<open>internal/control/api.go\<close>. The state is the configuration in memory and the vault, whose file system
  also holds the configuration file. The orders Go maps are ranged over are arguments.
\<close>

section \<open>Requests and responses (api.go)\<close>

record ProviderConfigResponse =
  pr_ID :: gostring
  pr_Name :: gostring
  pr_Protocol :: gostring
  pr_BaseURL :: gostring
  pr_Enabled :: bool
  pr_HasCredential :: bool
  pr_AutoProbe :: bool
  pr_ExcludedModelIDs :: "gostring list"

record ConfigResponse =
  cr_Bind :: gostring
  cr_ManagementBind :: gostring
  cr_LogLevel :: gostring
  cr_ModelPool :: "gostring list"
  cr_ModelPoolMode :: gostring
  cr_PinnedModel :: gostring
  cr_Revision :: int
  cr_Providers :: "ProviderConfigResponse list"
  cr_InferenceKeyConfigured :: bool

record ProviderConfigUpdate =
  pu_ID :: gostring
  pu_Name :: gostring
  pu_Protocol :: gostring
  pu_BaseURL :: gostring
  pu_Enabled :: bool
  pu_APIKey :: "gostring option"
  pu_AutoProbe :: "bool option"
  pu_ExcludedModelIDs :: "gostring list option"

record ConfigUpdateRequest =
  cq_Revision :: int
  cq_Bind :: gostring
  cq_Providers :: "ProviderConfigUpdate list"
  cq_InferenceKey :: "gostring option"
  cq_GenerateInferenceKey :: bool

record ConfigUpdateResponse =
  cu_Config :: ConfigResponse
  cu_RestartRequired :: bool
  cu_CredentialCleanupPending :: bool
  cu_GeneratedInferenceKey :: gostring

text \<open>\<open>rand.Read\<close> and \<open>hex.EncodeToString\<close>: no bytes, no token.\<close>

definition hex_digit :: "nat \<Rightarrow> char" where
  "hex_digit n = ''0123456789abcdef'' ! n"

definition hex_encode :: "8 word list \<Rightarrow> gostring" where
  "hex_encode bs = concat (map (\<lambda>b. [hex_digit (unat b div 16), hex_digit (unat b mod 16)]) bs)"

definition NewToken :: "8 word list option \<Rightarrow> gostring" where
  "NewToken random = (case random of None \<Rightarrow> [] | Some raw \<Rightarrow> hex_encode raw)"

definition NewInstanceID :: "8 word list option \<Rightarrow> gostring" where
  "NewInstanceID random =
     (case random of None \<Rightarrow> ''fmr-instance-unknown'' | Some raw \<Rightarrow> ''fmr-instance-'' @ hex_encode raw)"

section \<open>The application's state (app.go)\<close>

record ('b, 'c) AppState =
  ap_cfg :: PersistedConfig
  ap_vault :: "('b, 'c) Vault"

definition provider_view :: "ProviderConfig \<Rightarrow> ProviderConfigResponse" where
  "provider_view p = \<lparr>pr_ID = pf_ID p, pr_Name = pf_Name p, pr_Protocol = pf_Protocol p, pr_BaseURL = pf_BaseURL p,
     pr_Enabled = pf_Enabled p, pr_HasCredential = (pf_CredentialRef p \<noteq> []), pr_AutoProbe = AutoProbeEnabled p,
     pr_ExcludedModelIDs = pf_ExcludedModelIDs p\<rparr>"

definition configView ::
  "'c Codec \<Rightarrow> bool \<Rightarrow> 'b SecretStore option \<Rightarrow> ('b, 'c) Vault \<Rightarrow> PersistedConfig \<Rightarrow> ConfigResponse" where
  "configView cd readable store v cfg =
     \<lparr>cr_Bind = cf_Bind cfg, cr_ManagementBind = cf_ManagementBind cfg, cr_LogLevel = cf_LogLevel cfg,
      cr_ModelPool = cf_ModelPool cfg, cr_ModelPoolMode = cf_ModelPoolMode cfg, cr_PinnedModel = cf_PinnedModel cfg,
      cr_Revision = cf_ConfigRevision cfg, cr_Providers = map provider_view (cf_Providers cfg),
      cr_InferenceKeyConfigured = (store \<noteq> None \<and> (case secret_Get cd readable store InferenceTokenKey v of
         Inl _ \<Rightarrow> False | Inr key \<Rightarrow> TrimSpace key \<noteq> []))\<rparr>"

definition resolveToken ::
  "'c Codec \<Rightarrow> 'c SecretEnv \<Rightarrow> 'b SecretStore option \<Rightarrow> gostring \<Rightarrow> bool \<Rightarrow> 8 word list option \<Rightarrow> ('b, 'c) Vault \<Rightarrow>
   (goerr + gostring) \<times> ('b, 'c) Vault" where
  "resolveToken cd senv store key persist random v =
     (let generate =
        (let token = NewToken random
         in if token = [] then (Inl (PlainError ''generate token''), v)
            else if persist then (case secret_Set cd senv store key token v of
                (Some _, v') \<Rightarrow> (Inl (PlainError ''store token''), v')
              | (None, v') \<Rightarrow> (Inr token, v'))
            else (Inr token, v))
      in if store = None then (Inl (PlainError ''secret store must not be nil''), v)
         else case secret_Get cd (se_read senv) store key v of
           Inr token \<Rightarrow> if TrimSpace token \<noteq> [] then (Inr token, v) else generate
         | Inl _ \<Rightarrow> generate)"

definition mode_text :: "PoolMode \<Rightarrow> gostring" where
  "mode_text m = (case m of ModeAutomatic \<Rightarrow> ''Automatic'' | ModeManual \<Rightarrow> ''Manual'' | ModeOther s \<Rightarrow> s)"

definition mode_of_text :: "gostring \<Rightarrow> PoolMode" where
  "mode_of_text s = (if s = ''Automatic'' then ModeAutomatic else if s = ''Manual'' then ModeManual else ModeOther s)"

text \<open>The configuration in memory changes whether or not it can be saved.\<close>

definition persistControlState ::
  "url_parser \<Rightarrow> 'c Codec \<Rightarrow> 'c WriteEnv \<Rightarrow> ControlState \<Rightarrow> ('b, 'c) AppState \<Rightarrow> config_error option \<times> ('b, 'c) AppState" where
  "persistControlState parseURL cd wenv snapshot st =
     (let cfg = (ap_cfg st)\<lparr>cf_ModelPool := pc_Selected (vs_Pool snapshot), cf_ModelPoolMode := mode_text (pc_Mode (vs_Pool snapshot)),
            cf_PinnedModel := vs_PinnedModel snapshot\<rparr>;
          st' = st\<lparr>ap_cfg := cfg\<rparr>
      in if cf_SourcePath cfg = [] then (None, st')
         else case SavePersisted parseURL (jc_print cd) (jc_none cd) wenv (cf_SourcePath cfg) (Some cfg) (va_fs (ap_vault st)) of
           (e, fss) \<Rightarrow> (e, st'\<lparr>ap_vault := (ap_vault st)\<lparr>va_fs := last fss\<rparr>\<rparr>))"

definition LoadConfig ::
  "url_parser \<Rightarrow> 'c Codec \<Rightarrow> 'c LoadConfigEnv \<Rightarrow> gostring option \<Rightarrow> gostring \<Rightarrow> 'c fs \<Rightarrow> 'c loaded" where
  "LoadConfig parseURL cd env defaultPath path f =
     (if path = [] then (case defaultPath of
          None \<Rightarrow> Some (Inl EmptyConfigPath, [f])
        | Some p \<Rightarrow> LoadPersisted parseURL (jc_print cd) (jc_parse cd) (jc_size cd) (jc_none cd) env p f)
      else LoadPersisted parseURL (jc_print cd) (jc_parse cd) (jc_size cd) (jc_none cd) env path f)"

section \<open>Staging the providers (config_update.go)\<close>

datatype update_error =
    StorageUnavailable
  | ErrConfigRevisionConflict
  | EndpointChanged gostring
  | NoneEnabled
  | InvalidCandidate config_error
  | StoreCredential secret_error
  | SaveCandidate config_error
  | StoreInferenceKey secret_error
  | WithCleanup update_error secret_error

record Staging =
  sg_Stale :: "gostring list"
  sg_Staged :: "(gostring \<times> gostring) list"
  sg_Providers :: "ProviderConfig list"

definition existing_of :: "ProviderConfig list \<Rightarrow> gostring \<rightharpoonup> ProviderConfig" where
  "existing_of ps = map_of (rev (map (\<lambda>p. (pf_ID p, p)) ps))"

definition staged_ref :: "gostring \<Rightarrow> int \<Rightarrow> gostring" where
  "staged_ref pid revision = ''provider.'' @ pid @ ''.'' @ Itoa revision"

text \<open>The new entry for one item before its key is looked at.\<close>

definition merged_entry :: "ProviderConfig option \<Rightarrow> ProviderConfigUpdate \<Rightarrow> ProviderConfig" where
  "merged_entry old item =
     (let pc = \<lparr>pf_ID = pu_ID item, pf_Name = pu_Name item, pf_Protocol = pu_Protocol item, pf_BaseURL = pu_BaseURL item,
            pf_Enabled = pu_Enabled item, pf_CredentialRef = [], pf_AutoProbe = None, pf_ExcludedModelIDs = []\<rparr>;
          pc = (case old of None \<Rightarrow> pc
            | Some prev \<Rightarrow> pc\<lparr>pf_CredentialRef := pf_CredentialRef prev, pf_AutoProbe := pf_AutoProbe prev,
                pf_ExcludedModelIDs := pf_ExcludedModelIDs prev\<rparr>);
          pc = (case pu_AutoProbe item of
              Some b \<Rightarrow> pc\<lparr>pf_AutoProbe := Some b\<rparr>
            | None \<Rightarrow> if old = None then pc\<lparr>pf_AutoProbe := Some True\<rparr> else pc)
      in case pu_ExcludedModelIDs item of None \<Rightarrow> pc | Some excl \<Rightarrow> pc\<lparr>pf_ExcludedModelIDs := excl\<rparr>)"

definition stage_item ::
  "(gostring \<rightharpoonup> ProviderConfig) \<Rightarrow> int \<Rightarrow> ProviderConfigUpdate \<Rightarrow> Staging \<Rightarrow> update_error + Staging" where
  "stage_item existing revision item sg =
     (let old = existing (pu_ID item); pc = merged_entry old item
      in if (case old of None \<Rightarrow> False
           | Some prev \<Rightarrow> pf_BaseURL prev \<noteq> pu_BaseURL item \<and> pf_CredentialRef prev \<noteq> [] \<and> pu_APIKey item = None)
         then Inl (EndpointChanged (pu_ID item))
         else case pu_APIKey item of
           None \<Rightarrow> Inr (sg\<lparr>sg_Providers := sg_Providers sg @ [pc]\<rparr>)
         | Some key \<Rightarrow>
             (let stale = sg_Stale sg @ (if pf_CredentialRef pc \<noteq> [] then [pf_CredentialRef pc] else []);
                  value = TrimSpace key;
                  ref = (if value \<noteq> [] then staged_ref (pu_ID item) revision else [])
              in Inr (sg\<lparr>sg_Stale := stale,
                   sg_Staged := (if value \<noteq> [] then AList.update ref value (sg_Staged sg) else sg_Staged sg),
                   sg_Providers := sg_Providers sg @ [pc\<lparr>pf_CredentialRef := ref\<rparr>]\<rparr>)))"

fun stage_items ::
  "(gostring \<rightharpoonup> ProviderConfig) \<Rightarrow> int \<Rightarrow> ProviderConfigUpdate list \<Rightarrow> Staging \<Rightarrow> update_error + Staging" where
  "stage_items existing revision [] sg = Inr sg"
| "stage_items existing revision (item # items) sg =
     (case stage_item existing revision item sg of
        Inl e \<Rightarrow> Inl e
      | Inr sg \<Rightarrow> stage_items existing revision items sg)"

text \<open>References of entries that are gone; \<open>order\<close> is the order the map of entries is ranged over.\<close>

definition removed_refs :: "(gostring \<rightharpoonup> ProviderConfig) \<Rightarrow> gostring list \<Rightarrow> ProviderConfig list \<Rightarrow> gostring list" where
  "removed_refs existing order candidates =
     concat (map (\<lambda>pid. case existing pid of
         None \<Rightarrow> []
       | Some old \<Rightarrow>
           if \<not> list_ex (\<lambda>item. pf_ID item = pid) candidates \<and> pf_CredentialRef old \<noteq> [] then [pf_CredentialRef old] else [])
       order)"

text \<open>\<open>int64\<close> addition wraps.\<close>

definition next_revision :: "int \<Rightarrow> int" where
  "next_revision r = sint (word_of_int (r + 1) :: 64 word)"

section \<open>Applying an update (config_update.go)\<close>

fun store_staged ::
  "'c Codec \<Rightarrow> (gostring \<Rightarrow> 'c SecretEnv) \<Rightarrow> 'b SecretStore option \<Rightarrow> (gostring \<times> gostring) list \<Rightarrow> gostring list \<Rightarrow>
   gostring list \<Rightarrow> ('b, 'c) Vault \<Rightarrow> secret_error option \<times> gostring list \<times> ('b, 'c) Vault" where
  "store_staged cd env store staged [] written v = (None, written, v)"
| "store_staged cd env store staged (ref # order) written v =
     (case map_of staged ref of
        None \<Rightarrow> store_staged cd env store staged order written v
      | Some value \<Rightarrow>
          (case secret_Set cd (env ref) store ref value v of
             (Some e, v) \<Rightarrow> (Some e, written, v)
           | (None, v) \<Rightarrow> store_staged cd env store staged order (written @ [ref]) v))"

fun cleanupStagedSecrets ::
  "'c Codec \<Rightarrow> (gostring \<Rightarrow> 'c SecretEnv) \<Rightarrow> 'b SecretStore option \<Rightarrow> gostring list \<Rightarrow> ('b, 'c) Vault \<Rightarrow>
   secret_error option \<times> ('b, 'c) Vault" where
  "cleanupStagedSecrets cd env store [] v = (None, v)"
| "cleanupStagedSecrets cd env store (ref # refs) v =
     (case DeleteStrict cd (env ref) store ref v of
        (e, v) \<Rightarrow> (case cleanupStagedSecrets cd env store refs v of
          (e', v) \<Rightarrow> (if e \<noteq> None then e else e', v)))"

definition withCleanupError :: "update_error \<Rightarrow> secret_error option \<Rightarrow> update_error" where
  "withCleanupError e cleanup = (case cleanup of None \<Rightarrow> e | Some c \<Rightarrow> WithCleanup e c)"

fun delete_stale ::
  "'c Codec \<Rightarrow> (gostring \<Rightarrow> 'c SecretEnv) \<Rightarrow> 'b SecretStore option \<Rightarrow> gostring list \<Rightarrow> bool \<Rightarrow> ('b, 'c) Vault \<Rightarrow>
   bool \<times> ('b, 'c) Vault" where
  "delete_stale cd env store [] pending v = (pending, v)"
| "delete_stale cd env store (ref # refs) pending v =
     (if ref = [] then delete_stale cd env store refs pending v
      else case DeleteStrict cd (env ref) store ref v of
        (e, v) \<Rightarrow> delete_stale cd env store refs (pending \<or> e \<noteq> None) v)"

text \<open>The outcomes of the system calls of one update, the orders of its maps and the random bytes.\<close>

record 'c UpdateEnv =
  ue_set :: "gostring \<Rightarrow> 'c SecretEnv"
  ue_cleanup :: "gostring \<Rightarrow> 'c SecretEnv"
  ue_save :: "'c WriteEnv"
  ue_key :: "'c SecretEnv"
  ue_restore :: "'c WriteEnv"
  ue_stale :: "gostring \<Rightarrow> 'c SecretEnv"
  ue_view :: bool
  ue_random :: "8 word list option"
  ue_existingOrder :: "gostring list"
  ue_stagedOrder :: "gostring list"

definition candidate_of :: "PersistedConfig \<Rightarrow> ConfigUpdateRequest \<Rightarrow> PersistedConfig" where
  "candidate_of cfg request =
     cfg\<lparr>cf_Bind := TrimSpace (cq_Bind request), cf_ConfigRevision := next_revision (cf_ConfigRevision cfg)\<rparr>"

text \<open>The checks before anything is written: the candidate, its staged keys and the stale references.\<close>

definition prepare_update ::
  "url_parser \<Rightarrow> gostring list \<Rightarrow> PersistedConfig \<Rightarrow> ConfigUpdateRequest \<Rightarrow>
   update_error + PersistedConfig \<times> (gostring \<times> gostring) list \<times> gostring list" where
  "prepare_update parseURL order cfg request =
     (if cq_Revision request \<noteq> cf_ConfigRevision cfg then Inl ErrConfigRevisionConflict
      else let candidate = candidate_of cfg request; existing = existing_of (cf_Providers cfg)
        in case stage_items existing (cf_ConfigRevision candidate) (cq_Providers request)
            \<lparr>sg_Stale = [], sg_Staged = [], sg_Providers = []\<rparr> of
          Inl e \<Rightarrow> Inl e
        | Inr sg \<Rightarrow>
            (let candidate = candidate\<lparr>cf_Providers := sg_Providers sg\<rparr>
             in if \<not> list_ex pf_Enabled (cf_Providers candidate) then Inl NoneEnabled
                else case config_validate parseURL candidate of
                  Some e \<Rightarrow> Inl (InvalidCandidate e)
                | None \<Rightarrow> Inr (candidate, sg_Staged sg, sg_Stale sg @ removed_refs existing order (cf_Providers candidate))))"

text \<open>Saving the configuration, when it has a file.\<close>

definition save_config ::
  "url_parser \<Rightarrow> 'c Codec \<Rightarrow> 'c WriteEnv \<Rightarrow> PersistedConfig \<Rightarrow> ('b, 'c) Vault \<Rightarrow> config_error option \<times> ('b, 'c) Vault" where
  "save_config parseURL cd wenv cfg v =
     (if cf_SourcePath cfg = [] then (None, v)
      else case SavePersisted parseURL (jc_print cd) (jc_none cd) wenv (cf_SourcePath cfg) (Some cfg) (va_fs v) of
        (e, fss) \<Rightarrow> (e, v\<lparr>va_fs := last fss\<rparr>))"

text \<open>The inference key of the request and the generated one.\<close>

definition requested_key :: "8 word list option \<Rightarrow> ConfigUpdateRequest \<Rightarrow> gostring option \<times> gostring" where
  "requested_key random request =
     (if cq_GenerateInferenceKey request then (Some (NewToken random), NewToken random)
      else (cq_InferenceKey request, []))"

definition store_inference_key ::
  "'c Codec \<Rightarrow> 'c SecretEnv \<Rightarrow> 'b SecretStore option \<Rightarrow> gostring option \<Rightarrow> ('b, 'c) Vault \<Rightarrow>
   secret_error option \<times> ('b, 'c) Vault" where
  "store_inference_key cd senv store key v =
     (case key of
        None \<Rightarrow> (None, v)
      | Some k \<Rightarrow>
          if TrimSpace k = [] then DeleteStrict cd senv store InferenceTokenKey v
          else secret_Set cd senv store InferenceTokenKey (TrimSpace k) v)"

definition updateConfig ::
  "url_parser \<Rightarrow> 'c Codec \<Rightarrow> 'c UpdateEnv \<Rightarrow> 'b SecretStore option \<Rightarrow> ConfigUpdateRequest \<Rightarrow> ('b, 'c) AppState \<Rightarrow>
   (update_error + ConfigUpdateResponse) \<times> ('b, 'c) AppState" where
  "updateConfig parseURL cd env store request st =
     (let failed = (\<lambda>e written v. case cleanupStagedSecrets cd (ue_cleanup env) store written v of
          (c, v) \<Rightarrow> (Inl (withCleanupError e c), st\<lparr>ap_vault := v\<rparr>))
      in if store = None then (Inl StorageUnavailable, st)
         else case prepare_update parseURL (ue_existingOrder env) (ap_cfg st) request of
           Inl e \<Rightarrow> (Inl e, st)
         | Inr (candidate, staged, stale) \<Rightarrow>
             (case store_staged cd (ue_set env) store staged (ue_stagedOrder env) [] (ap_vault st) of
                (Some e, written, v) \<Rightarrow> failed (StoreCredential e) written v
              | (None, written, v) \<Rightarrow>
                  (case save_config parseURL cd (ue_save env) candidate v of
                     (Some e, v) \<Rightarrow> failed (SaveCandidate e) written v
                   | (None, v) \<Rightarrow>
                       (let (key, generated) = requested_key (ue_random env) request
                        in case store_inference_key cd (ue_key env) store key v of
                          (Some e, v) \<Rightarrow>
                            failed (StoreInferenceKey e) written (snd (save_config parseURL cd (ue_restore env) (ap_cfg st) v))
                        | (None, v) \<Rightarrow>
                            (case delete_stale cd (ue_stale env) store stale False v of
                               (pending, v) \<Rightarrow>
                                 (Inr \<lparr>cu_Config = configView cd (ue_view env) store v candidate, cu_RestartRequired = True,
                                    cu_CredentialCleanupPending = pending, cu_GeneratedInferenceKey = generated\<rparr>,
                                  \<lparr>ap_cfg = candidate, ap_vault = v\<rparr>))))))"

section \<open>What an accepted update does\<close>

lemma merged_entry_fields:
  "pf_ID (merged_entry old item) = pu_ID item" "pf_Name (merged_entry old item) = pu_Name item"
  "pf_Protocol (merged_entry old item) = pu_Protocol item" "pf_BaseURL (merged_entry old item) = pu_BaseURL item"
  "pf_Enabled (merged_entry old item) = pu_Enabled item"
  "pf_CredentialRef (merged_entry old item) = (case old of None \<Rightarrow> [] | Some p \<Rightarrow> pf_CredentialRef p)"
  "pf_AutoProbe (merged_entry old item) = (case pu_AutoProbe item of Some b \<Rightarrow> Some b
     | None \<Rightarrow> (case old of None \<Rightarrow> Some True | Some p \<Rightarrow> pf_AutoProbe p))"
  "pf_ExcludedModelIDs (merged_entry old item) = (case pu_ExcludedModelIDs item of Some ids' \<Rightarrow> ids'
     | None \<Rightarrow> (case old of None \<Rightarrow> [] | Some p \<Rightarrow> pf_ExcludedModelIDs p))"
  by (simp_all add: merged_entry_def Let_def split: option.splits)

text \<open>
  The entry \<open>pc\<close> is what the item asks for: the fields an item always carries are its own, those it
  leaves out are the ones of the entry \<open>old\<close> with its id, or the defaults of a new entry; and its credential
  is new or stays with its address.
\<close>

definition item_applied :: "ProviderConfig option \<Rightarrow> int \<Rightarrow> ProviderConfigUpdate \<Rightarrow> ProviderConfig \<Rightarrow> bool" where
  "item_applied old revision item pc \<longleftrightarrow>
     pf_ID pc = pu_ID item \<and> pf_Name pc = pu_Name item \<and> pf_Protocol pc = pu_Protocol item \<and>
     pf_BaseURL pc = pu_BaseURL item \<and> pf_Enabled pc = pu_Enabled item \<and>
     pf_AutoProbe pc = (case (pu_AutoProbe item, old) of
         (Some b, _) \<Rightarrow> Some b | (None, Some prev) \<Rightarrow> pf_AutoProbe prev | (None, None) \<Rightarrow> Some True) \<and>
     pf_ExcludedModelIDs pc = (case (pu_ExcludedModelIDs item, old) of
         (Some excl, _) \<Rightarrow> excl | (None, Some prev) \<Rightarrow> pf_ExcludedModelIDs prev | (None, None) \<Rightarrow> []) \<and>
     (case (pu_APIKey item, old) of
        (Some key, _) \<Rightarrow> pf_CredentialRef pc = (if TrimSpace key = [] then [] else staged_ref (pu_ID item) revision)
      | (None, None) \<Rightarrow> pf_CredentialRef pc = []
      | (None, Some prev) \<Rightarrow> pf_CredentialRef pc = pf_CredentialRef prev \<and>
          (pf_CredentialRef prev = [] \<or> pf_BaseURL prev = pf_BaseURL pc))"

lemma stage_item_applied:
  assumes "stage_item existing revision item sg = Inr sg'"
  shows "\<exists>pc. sg_Providers sg' = sg_Providers sg @ [pc] \<and> item_applied (existing (pu_ID item)) revision item pc"
proof (cases "pu_APIKey item")
  case None
  with assms have "sg_Providers sg' = sg_Providers sg @ [merged_entry (existing (pu_ID item)) item]"
    and "\<And>old. existing (pu_ID item) = Some old \<Longrightarrow> pf_CredentialRef old = [] \<or> pf_BaseURL old = pu_BaseURL item"
    by (auto simp: stage_item_def Let_def split: if_splits option.splits)
  then show ?thesis using None
    by (intro exI [of _ "merged_entry (existing (pu_ID item)) item"])
       (auto simp: item_applied_def merged_entry_fields split: option.splits)
next
  case (Some key)
  let ?pc = "(merged_entry (existing (pu_ID item)) item)\<lparr>pf_CredentialRef := if TrimSpace key = [] then [] else staged_ref (pu_ID item) revision\<rparr>"
  from Some assms have "sg_Providers sg' = sg_Providers sg @ [?pc]"
    by (auto simp: stage_item_def Let_def split: if_splits option.splits)
  then show ?thesis using Some
    by (intro exI [of _ ?pc]) (auto simp: item_applied_def merged_entry_fields split: option.splits)
qed

lemma stage_items_applied:
  assumes "stage_items existing revision items sg = Inr sg'"
  shows "\<exists>pcs. sg_Providers sg' = sg_Providers sg @ pcs \<and>
    list_all2 (\<lambda>item. item_applied (existing (pu_ID item)) revision item) items pcs"
  using assms
proof (induction items arbitrary: sg)
  case (Cons item items)
  then obtain sg1 where s: "stage_item existing revision item sg = Inr sg1" and r: "stage_items existing revision items sg1 = Inr sg'"
    by (auto split: sum.splits)
  from stage_item_applied [OF s] obtain pc where "sg_Providers sg1 = sg_Providers sg @ [pc]"
    "item_applied (existing (pu_ID item)) revision item pc"
    by blast
  moreover from Cons.IH [OF r] obtain pcs where "sg_Providers sg' = sg_Providers sg1 @ pcs"
    "list_all2 (\<lambda>item. item_applied (existing (pu_ID item)) revision item) items pcs"
    by blast
  ultimately show ?case by (intro exI [of _ "pc # pcs"]) simp
qed simp

lemma map_of_find: "map_of (map (\<lambda>p. (k p, p)) ps) x = List.find (\<lambda>p. k p = x) ps"
  by (induction ps) auto

lemma existing_of_find: "existing_of ps x = List.find (\<lambda>p. pf_ID p = x) (rev ps)"
  by (simp add: existing_of_def rev_map map_of_find)

lemma prepare_update_Inr:
  assumes "prepare_update parseURL order cfg request = Inr (candidate, staged, stale)"
  shows "cq_Revision request = cf_ConfigRevision cfg"
    and "candidate = cfg\<lparr>cf_Bind := TrimSpace (cq_Bind request),
      cf_ConfigRevision := next_revision (cf_ConfigRevision cfg), cf_Providers := cf_Providers candidate\<rparr>"
    and "list_all2 (\<lambda>item. item_applied (List.find (\<lambda>p. pf_ID p = pu_ID item) (rev (cf_Providers cfg)))
        (next_revision (cf_ConfigRevision cfg)) item) (cq_Providers request) (cf_Providers candidate)"
    and "list_ex pf_Enabled (cf_Providers candidate)" and "config_validate parseURL candidate = None"
  using assms by (auto simp: prepare_update_def Let_def candidate_of_def existing_of_find split: if_splits sum.splits option.splits
      dest!: stage_items_applied)

lemma updateConfig_Inr:
  assumes "updateConfig parseURL cd env store request st = (Inr resp, st')"
  obtains staged stale where "prepare_update parseURL (ue_existingOrder env) (ap_cfg st) request = Inr (ap_cfg st', staged, stale)"
    and "store \<noteq> None" and "cu_Config resp = configView cd (ue_view env) store (ap_vault st') (ap_cfg st')"
    and "cu_GeneratedInferenceKey resp = snd (requested_key (ue_random env) request)"
  using assms by (auto simp: updateConfig_def Let_def split: if_splits sum.splits prod.splits option.splits)

lemma next_revision_neq: "next_revision r \<noteq> r"
proof
  assume "next_revision r = r"
  then have "sint (word_of_int (r + 1) :: 64 word) = r" by (simp add: next_revision_def)
  then have "(of_int (sint (of_int (r + 1) :: 64 word)) :: 64 word) = of_int r" by simp
  then have "(of_int r + 1 :: 64 word) = of_int r" by simp
  then show False by simp
qed

text \<open>C12: what an accepted update of the configuration leaves: the configuration it started from, with the
  bind address of the request (spaces trimmed), the next revision and the provider list of the request,
  valid and with at least one provider enabled. Each provider has the fields the request gives it; automatic
  probing and excluded models it does not mention are those of the provider's entry before, or the defaults
  if it is new; a credential it does not mention stays with the address it was given for, a new one gets a
  name of its own. A second update made from the same revision is refused without any effect.\<close>

theorem updateConfig_applied:
  assumes "updateConfig parseURL cd env store request st = (Inr resp, st')"
  shows "ap_cfg st' = (ap_cfg st)\<lparr>cf_Bind := TrimSpace (cq_Bind request),
       cf_ConfigRevision := next_revision (cf_ConfigRevision (ap_cfg st)), cf_Providers := cf_Providers (ap_cfg st')\<rparr> \<and>
    cq_Revision request = cf_ConfigRevision (ap_cfg st) \<and> config_validate parseURL (ap_cfg st') = None \<and>
    list_ex pf_Enabled (cf_Providers (ap_cfg st')) \<and>
    list_all2 (\<lambda>item. item_applied (List.find (\<lambda>p. pf_ID p = pu_ID item) (rev (cf_Providers (ap_cfg st))))
        (next_revision (cf_ConfigRevision (ap_cfg st))) item) (cq_Providers request) (cf_Providers (ap_cfg st')) \<and>
    cu_Config resp = configView cd (ue_view env) store (ap_vault st') (ap_cfg st') \<and>
    (cq_Revision request' = cq_Revision request \<longrightarrow>
      updateConfig parseURL cd env' store request' st' = (Inl ErrConfigRevisionConflict, st'))"
proof -
  from assms obtain staged stale where p: "prepare_update parseURL (ue_existingOrder env) (ap_cfg st) request = Inr (ap_cfg st', staged, stale)"
    and s: "store \<noteq> None" "cu_Config resp = configView cd (ue_view env) store (ap_vault st') (ap_cfg st')"
    by (rule updateConfig_Inr)
  note prep = prepare_update_Inr [OF p]
  have "cf_ConfigRevision (ap_cfg st') = next_revision (cf_ConfigRevision (ap_cfg st))"
    by (subst prep(2)) simp
  with prep(1) next_revision_neq [of "cf_ConfigRevision (ap_cfg st)"]
  have "cq_Revision request \<noteq> cf_ConfigRevision (ap_cfg st')" by simp
  with s(1) have "cq_Revision request' = cq_Revision request \<longrightarrow>
      updateConfig parseURL cd env' store request' st' = (Inl ErrConfigRevisionConflict, st')"
    by (auto simp: updateConfig_def prepare_update_def)
  with prep s(2) show ?thesis by blast
qed

text \<open>An error that is found before anything is written.\<close>

fun rejected :: "update_error \<Rightarrow> bool" where
  "rejected (StoreCredential _) = False"
| "rejected (SaveCandidate _) = False"
| "rejected (StoreInferenceKey _) = False"
| "rejected (WithCleanup _ _) = False"
| "rejected _ = True"

text \<open>C13: a failed update never changes the configuration in memory, and one that is refused for what it asks
  leaves the vault, and with it every file, untouched as well. A request from another revision always fails
  and changes nothing: with the conflict error, or, where there is no credential store at all, with the error
  for that.\<close>

theorem updateConfig_failed:
  "(case updateConfig parseURL cd env store request st of
      (Inl e, st') \<Rightarrow> ap_cfg st' = ap_cfg st \<and> (rejected e \<longrightarrow> st' = st)
    | (Inr _, _) \<Rightarrow> True) \<and>
   (cq_Revision request \<noteq> cf_ConfigRevision (ap_cfg st) \<longrightarrow> updateConfig parseURL cd env store request st =
      (Inl (if store = None then StorageUnavailable else ErrConfigRevisionConflict), st))"
proof -
  have stage: "rejected e'" if "stage_items existing r items sg = Inl e'" for existing r items sg e'
    using that by (induction items arbitrary: sg) (auto simp: stage_item_def Let_def split: if_splits sum.splits option.splits)
  have prep: "rejected e'" if "prepare_update parseURL order cfg request = Inl e'" for order cfg e'
    using that stage by (auto simp: prepare_update_def Let_def split: if_splits sum.splits option.splits)
  have cleanup: "\<not> rejected (withCleanupError e' c)" if "\<not> rejected e'" for e' c
    using that by (cases c) (simp_all add: withCleanupError_def)
  have failed: "ap_cfg st' = ap_cfg st \<and> (rejected e \<longrightarrow> st' = st)" if "updateConfig parseURL cd env store request st = (Inl e, st')" for e st'
    using that by (auto simp: updateConfig_def Let_def cleanup split: if_splits sum.splits prod.splits option.splits)
  obtain res st' where r: "updateConfig parseURL cd env store request st = (res, st')" by fastforce
  show ?thesis
  proof (intro conjI impI)
    show "case updateConfig parseURL cd env store request st of
        (Inl e, st') \<Rightarrow> ap_cfg st' = ap_cfg st \<and> (rejected e \<longrightarrow> st' = st) | (Inr _, _) \<Rightarrow> True"
      using failed [of _ st'] unfolding r by (cases res) simp_all
    assume "cq_Revision request \<noteq> cf_ConfigRevision (ap_cfg st)"
    then have "prepare_update parseURL (ue_existingOrder env) (ap_cfg st) request = Inl ErrConfigRevisionConflict"
      by (simp add: prepare_update_def)
    then show "updateConfig parseURL cd env store request st = (Inl (if store = None then StorageUnavailable else ErrConfigRevisionConflict), st)"
      by (simp add: updateConfig_def Let_def)
  qed
qed

section \<open>Concrete inputs\<close>

definition idle_state :: "(unit, json) AppState" where
  "idle_state = \<lparr>ap_cfg = PersistedDefaults, ap_vault = \<lparr>va_backend = (), va_fs = Map.empty\<rparr>\<rparr>"

definition sample_update_env :: "json UpdateEnv" where
  "sample_update_env = \<lparr>ue_set = \<lambda>_. sample_secret_env, ue_cleanup = \<lambda>_. sample_secret_env, ue_save = ok_write JNull,
     ue_key = sample_secret_env, ue_restore = ok_write JNull, ue_stale = \<lambda>_. sample_secret_env, ue_view = True,
     ue_random = None, ue_existingOrder = [''opencode''], ue_stagedOrder = []\<rparr>"

definition sample_update :: "int \<Rightarrow> ConfigUpdateRequest" where
  "sample_update r = \<lparr>cq_Revision = r, cq_Bind = '' 127.0.0.1:1 '', cq_Providers = [\<lparr>pu_ID = ''opencode'', pu_Name = ''OC'',
     pu_Protocol = OpenAICompatibleProtocol, pu_BaseURL = ''https://opencode.ai/zen/v1'', pu_Enabled = True, pu_APIKey = None,
     pu_AutoProbe = Some False, pu_ExcludedModelIDs = Some [''x'']\<rparr>], cq_InferenceKey = None, cq_GenerateInferenceKey = False\<rparr>"

definition sample_candidate_cfg :: PersistedConfig where
  "sample_candidate_cfg = PersistedDefaults\<lparr>cf_Bind := ''127.0.0.1:1'', cf_ConfigRevision := 1, cf_Providers :=
     [\<lparr>pf_ID = ''opencode'', pf_Name = ''OC'', pf_Protocol = OpenAICompatibleProtocol, pf_BaseURL = ''https://opencode.ai/zen/v1'',
       pf_Enabled = True, pf_CredentialRef = [], pf_AutoProbe = Some False, pf_ExcludedModelIDs = [''x'']\<rparr>]\<rparr>"

lemma sample_prepare:
  "prepare_update sample_parseURL [''opencode''] PersistedDefaults (sample_update 0) = Inr (sample_candidate_cfg, [], [])"
proof -
  have rev: "next_revision 0 = 1" by (simp add: next_revision_def)
  have t: "TrimSpace '' 127.0.0.1:1 '' = ''127.0.0.1:1''" "config_validate sample_parseURL sample_candidate_cfg = None" by code_simp+
  have c: "(candidate_of PersistedDefaults (sample_update 0))\<lparr>cf_Providers := cf_Providers sample_candidate_cfg\<rparr> = sample_candidate_cfg"
    by (simp add: candidate_of_def sample_update_def sample_candidate_cfg_def t(1) PersistedDefaults_def rev)
  have s: "stage_items (existing_of (cf_Providers PersistedDefaults)) n (cq_Providers (sample_update 0))
      \<lparr>sg_Stale = [], sg_Staged = [], sg_Providers = []\<rparr> = Inr \<lparr>sg_Stale = [], sg_Staged = [], sg_Providers = cf_Providers sample_candidate_cfg\<rparr>" for n
    by (simp add: stage_item_def merged_entry_def existing_of_def sample_update_def sample_candidate_cfg_def PersistedDefaults_def
        defaultProviders_def Let_def)
  have "removed_refs (existing_of (cf_Providers PersistedDefaults)) [''opencode''] (cf_Providers sample_candidate_cfg) = []"
    "list_ex pf_Enabled (cf_Providers sample_candidate_cfg)" "cq_Revision (sample_update 0) = cf_ConfigRevision PersistedDefaults"
    by code_simp+
  then show ?thesis by (simp add: prepare_update_def s c t(2) Let_def)
qed

theorem updateConfig_applied_witness:
  "ap_cfg (snd (updateConfig sample_parseURL sample_codec sample_update_env (Some sample_store) (sample_update 0) idle_state)) =
     sample_candidate_cfg \<and> list_ex pf_Enabled (cf_Providers sample_candidate_cfg)"
proof -
  let ?u = "updateConfig sample_parseURL sample_codec sample_update_env (Some sample_store) (sample_update 0) idle_state"
  have e: "\<exists>resp. ?u = (Inr resp, \<lparr>ap_cfg = sample_candidate_cfg, ap_vault = ap_vault idle_state\<rparr>)"
    using sample_prepare by (simp add: updateConfig_def sample_update_env_def idle_state_def save_config_def sample_candidate_cfg_def
        PersistedDefaults_def requested_key_def sample_update_def store_inference_key_def Let_def)
  then obtain resp where r: "?u = (Inr resp, \<lparr>ap_cfg = sample_candidate_cfg, ap_vault = ap_vault idle_state\<rparr>)" by blast
  have "list_ex pf_Enabled (cf_Providers (ap_cfg \<lparr>ap_cfg = sample_candidate_cfg, ap_vault = ap_vault idle_state\<rparr>))"
    by (rule updateConfig_applied [OF r, THEN conjunct2, THEN conjunct2, THEN conjunct2, THEN conjunct1])
  then show ?thesis unfolding r snd_conv AppState.select_convs(1) by (intro conjI refl)
qed

theorem updateConfig_failed_witness:
  "updateConfig sample_parseURL sample_codec sample_update_env (Some sample_store) (sample_update 7) idle_state =
     (Inl ErrConfigRevisionConflict, idle_state)"
proof -
  have r: "cq_Revision (sample_update 7) \<noteq> cf_ConfigRevision (ap_cfg idle_state)"
    by (simp add: sample_update_def idle_state_def PersistedDefaults_def)
  with updateConfig_failed [where request = "sample_update 7" and st = idle_state and store = "Some sample_store"]
  show ?thesis by simp
qed

end
