(* ===== verification/AppRun.thy ===== *)
theory AppRun
  imports ConfigUpdate Gateway
begin

text \<open>
  Package \<open>internal/app\<close>, file \<open>app.go\<close>: how the application starts, from the stored control state to the
  handlers behind its two listeners, and what a restart keeps of the control state. The usage store, the
  background refreshes and serving itself are left out; whether an address can be listened on, the
  environment and random bytes are given.
\<close>

section \<open>Starting the gateway (app.go)\<close>

datatype run_error =
    NilProviderErr
  | InitGateway gateway_error
  | RestoreState gateway_error
  | ValidateManagementBind security_error
  | ResolveManagementToken goerr
  | InitControl
  | ListenManagement
  | ResolveInferenceToken goerr
  | ConfigureAuth security_error
  | ListenInference

text \<open>\<open>ks\<close> and \<open>rks\<close> are the orders the catalog and the routes are ranged over.\<close>

definition start_gateway ::
  "ProviderModelID list \<Rightarrow> ProviderModelID list \<Rightarrow> time \<Rightarrow> Discovery option \<Rightarrow> FailoverPolicy \<Rightarrow> PersistedConfig \<Rightarrow>
   run_error + Gateway" where
  "start_gateway ks rks now d policy cfg =
     (case NewGatewayWithFailoverPolicy ks now d policy of
        Inl e \<Rightarrow> Inl (InitGateway e)
      | Inr g \<Rightarrow>
          (case RestoreControlState rks (cf_ModelPool cfg) (mode_of_text (cf_ModelPoolMode cfg)) (cf_PinnedModel cfg) g of
             (Some e, _) \<Rightarrow> Inl (RestoreState e)
           | (None, g) \<Rightarrow> Inr g))"

section \<open>Handlers and listeners (app.go)\<close>

definition inference_bind :: "gostring \<Rightarrow> PersistedConfig \<Rightarrow> gostring" where
  "inference_bind envBind cfg =
     (if TrimSpace envBind \<noteq> [] then TrimSpace envBind
      else if cf_Bind cfg = [] then cf_Bind PersistedDefaults else cf_Bind cfg)"

text \<open>The management address, \<open>None\<close> when the control API is off.\<close>

definition management_bind :: "PersistedConfig \<Rightarrow> gostring option" where
  "management_bind cfg =
     (let mb = TrimSpace (cf_ManagementBind cfg)
      in if mb = [] \<and> cf_SourcePath cfg = [] then None
         else Some (if mb = [] then cf_ManagementBind PersistedDefaults else mb))"

record 'c RunEnv =
  re_envBind :: gostring
  re_managementSecret :: "'c SecretEnv"
  re_managementRandom :: "8 word list option"
  re_inferenceSecret :: "'c SecretEnv"
  re_inferenceRandom :: "8 word list option"
  re_listen :: "gostring \<Rightarrow> bool"

record ('q, 'r) Running =
  rn_Bind :: gostring
  rn_Handler :: "('q, 'r) Handler"
  rn_Control :: "(gostring \<times> gostring) option"

text \<open>The control listener with its token.\<close>

definition control_setup ::
  "'c Codec \<Rightarrow> 'c RunEnv \<Rightarrow> 'b SecretStore \<Rightarrow> PersistedConfig \<Rightarrow> ('b, 'c) Vault \<Rightarrow>
   (run_error + (gostring \<times> gostring) option) \<times> ('b, 'c) Vault" where
  "control_setup cd env store cfg v =
     (case management_bind cfg of
        None \<Rightarrow> (Inr None, v)
      | Some mb \<Rightarrow>
          (case ValidateLoopbackBind mb of
             Some e \<Rightarrow> (Inl (ValidateManagementBind e), v)
           | None \<Rightarrow>
               (case resolveToken cd (re_managementSecret env) (Some store) ManagementTokenKey (cf_SourcePath cfg \<noteq> [])
                   (re_managementRandom env) v of
                  (Inl e, v) \<Rightarrow> (Inl (ResolveManagementToken e), v)
                | (Inr token, v) \<Rightarrow>
                    if TrimSpace token = [] then (Inl InitControl, v)
                    else if \<not> re_listen env mb then (Inl ListenManagement, v)
                    else (Inr (Some (mb, TrimSpace token)), v))))"

text \<open>The handler of the inference API; the first check uses a placeholder for the token.\<close>

definition inference_setup ::
  "'c Codec \<Rightarrow> 'c RunEnv \<Rightarrow> 'b SecretStore \<Rightarrow> PersistedConfig \<Rightarrow> ('q, 'r) Handler \<Rightarrow> gostring \<Rightarrow> ('b, 'c) Vault \<Rightarrow>
   (run_error + ('q, 'r) Handler) \<times> ('b, 'c) Vault" where
  "inference_setup cd env store cfg h bind v =
     (let wrap = (\<lambda>token. case RequireInferenceAuth (Some h) bind token of
          Inl e \<Rightarrow> Inl (ConfigureAuth e) | Inr h' \<Rightarrow> Inr h')
      in if IsLoopbackBind bind then (wrap ''configured'', v)
         else case resolveToken cd (re_inferenceSecret env) (Some store) InferenceTokenKey (cf_SourcePath cfg \<noteq> [])
             (re_inferenceRandom env) v of
           (Inl e, v) \<Rightarrow> (Inl (ResolveInferenceToken e), v)
         | (Inr token, v) \<Rightarrow> (wrap token, v))"

definition RunWithProvider ::
  "'c Codec \<Rightarrow> 'c RunEnv \<Rightarrow> 'b SecretStore \<Rightarrow> PersistedConfig \<Rightarrow> run_error + Gateway \<Rightarrow> (Gateway \<Rightarrow> ('q, 'r) Handler) \<Rightarrow>
   ('b, 'c) Vault \<Rightarrow> (run_error + ('q, 'r) Running) \<times> ('b, 'c) Vault" where
  "RunWithProvider cd env store cfg started handler v =
     (let bind = inference_bind (re_envBind env) cfg
      in case started of
        Inl e \<Rightarrow> (Inl e, v)
      | Inr g \<Rightarrow>
          (case control_setup cd env store cfg v of
             (Inl e, v) \<Rightarrow> (Inl e, v)
           | (Inr ctl, v) \<Rightarrow>
               (case inference_setup cd env store cfg (handler g) bind v of
                  (Inl e, v) \<Rightarrow> (Inl e, v)
                | (Inr h, v) \<Rightarrow>
                    if \<not> re_listen env bind then (Inl ListenInference, v)
                    else (Inr \<lparr>rn_Bind = bind, rn_Handler = h, rn_Control = ctl\<rparr>, v))))"

section \<open>Nothing is exposed without a token\<close>

text \<open>C9: whatever the configuration, the environment and the stored secrets say, an application that has
  started serves the inference API beyond this machine only behind a bearer token that is not blank, and
  the control API on a loopback address only, always behind a token.\<close>

theorem run_exposure:
  assumes "RunWithProvider cd env store cfg started handler v = (Inr rn, v')"
  shows "(\<not> IsLoopbackBind (rn_Bind rn) \<longrightarrow> (\<exists>token. TrimSpace token \<noteq> [] \<and>
      (\<forall>auth q. \<not> validBearer auth (TrimSpace token) \<longrightarrow> rn_Handler rn auth q = Unauthorized challenge ''unauthorized'' 401))) \<and>
    (\<forall>bind token. rn_Control rn = Some (bind, token) \<longrightarrow> IsLoopbackBind bind \<and> token \<noteq> [])"
proof -
  from assms obtain g ctl v1 where c: "control_setup cd env store cfg v = (Inr ctl, v1)" "rn_Control rn = ctl"
    and i: "inference_setup cd env store cfg (handler g) (rn_Bind rn) v1 = (Inr (rn_Handler rn), v')"
    by (auto simp: RunWithProvider_def Let_def split: sum.splits prod.splits if_splits)
  have "IsLoopbackBind bind \<and> token \<noteq> []" if "ctl = Some (bind, token)" for bind token
    using c(1) that by (auto simp: control_setup_def ValidateLoopbackBind_def split: option.splits sum.splits prod.splits if_splits)
  moreover have "\<exists>token. TrimSpace token \<noteq> [] \<and>
      (\<forall>auth q. \<not> validBearer auth (TrimSpace token) \<longrightarrow> rn_Handler rn auth q = Unauthorized challenge ''unauthorized'' 401)"
    if "\<not> IsLoopbackBind (rn_Bind rn)"
  proof -
    from i that obtain token where "RequireInferenceAuth (Some (handler g)) (rn_Bind rn) token = Inr (rn_Handler rn)"
      by (auto simp: inference_setup_def Let_def split: sum.splits prod.splits)
    with that have h: "TrimSpace token \<noteq> []" "RequireBearer (Some (handler g)) token = rn_Handler rn"
      by (auto simp: RequireInferenceAuth_def split: sum.splits if_splits)
    from h(1) show ?thesis unfolding h(2) [symmetric] by (intro exI [of _ token]) (simp add: RequireBearer_def Let_def)
  qed
  ultimately show ?thesis using c(2) by blast
qed

section \<open>What a restart keeps\<close>

lemma choose_loop_eq:
  "distinct rks \<Longrightarrow> choose_loop routes rks chosen pid =
    (if pid \<in> set rks then (case default_choice (routes_of routes pid) of Some b \<Rightarrow> Some b | None \<Rightarrow> chosen pid) else chosen pid)"
  by (induction rks arbitrary: chosen) (auto split: option.splits)

text \<open>The models that are selected after the policy: the first explicit default of a model's routes decides.\<close>

definition kept :: "Routes \<Rightarrow> ProviderModelID list \<Rightarrow> ProviderModelID \<Rightarrow> bool" where
  "kept routes selected pid = (case default_choice (routes_of routes pid) of Some b \<Rightarrow> b | None \<Rightarrow> pid \<in> set selected)"

lemma routes_of_None: "routes pid = None \<Longrightarrow> default_choice (routes_of routes pid) = None"
  by (simp add: routes_of_def default_choice_def)

lemma policy_set:
  assumes "iter_order rks routes"
  shows "set (applyGenericSelectionPolicy rks routes selected) = {pid. kept routes selected pid}"
proof -
  have "pid \<in> set (applyGenericSelectionPolicy rks routes selected) \<longleftrightarrow> kept routes selected pid" for pid
  proof (cases "pid \<in> set rks")
    case True
    then show ?thesis using assms
      by (auto simp: applyGenericSelectionPolicy_def Let_def iter_order_def choose_loop_eq kept_def split: option.splits)
  next
    case False
    with assms have "routes pid = None" by (auto simp: iter_order_def)
    with False assms show ?thesis
      by (auto simp: applyGenericSelectionPolicy_def Let_def iter_order_def choose_loop_eq kept_def routes_of_None)
  qed
  then show ?thesis by blast
qed

lemma mode_of_text_text [simp]: "m = ModeAutomatic \<or> m = ModeManual \<Longrightarrow> mode_of_text (mode_text m) = m"
  by (auto simp: mode_text_def mode_of_text_def)

lemma RestoreControlState_result:
  assumes "RestoreControlState rks selected m pinned g = (err, g')" and "selected \<noteq> [] \<or> m = ModeManual"
    and "m = ModeAutomatic \<or> m = ModeManual" and "iter_order rks (gw_routes g)"
  shows "pc_Mode (current_pool g') = m \<and> set (pc_Selected (current_pool g')) = {pid. kept (gw_routes g) selected pid} \<and>
    (err = None \<longleftrightarrow> pinned = [] \<or> (kept (gw_routes g) selected pinned \<and> (\<exists>cat. gw_catalog g = Some cat \<and> snap_models cat pinned \<noteq> None))) \<and>
    (err = None \<longrightarrow> pinned \<noteq> [] \<longrightarrow> gw_pinnedModel g' = pinned) \<and> (err \<noteq> None \<longrightarrow> err = Some ErrControlModelNotFound)"
proof -
  have replace: "pool_Replace s m (Some p) = Inr \<lparr>ps_Config = bump m ((ps_Config p)\<lparr>pc_Selected := s\<rparr>), ps_tombstones = {}\<rparr>" for s p
    using assms(3) by (auto simp: pool_Replace_def Let_def)
  have bump: "pc_Mode (bump m c) = m" "pc_Selected (bump m c) = pc_Selected c" for c
    using assms(3) by (auto simp: bump_def)
  from assms(2,3) have "0 < length selected \<or> m = ModeManual" "m \<noteq> ModeOther []" by auto
  with assms(1) show ?thesis
    by (auto simp: RestoreControlState_def try_mutate_eq replace bump Let_def policy_set [OF assms(4)] current_pool_simp
        Contains_def set_pool_def split: option.splits if_splits)
qed

lemma NewGateway_unpinned: "NewGatewayWithFailoverPolicy ks now d policy = Inr g \<Longrightarrow> gw_pinnedModel g = []"
  by (auto simp: NewGatewayWithFailoverPolicy_def RefreshCatalog_def newGatewayState_def Let_def
      split: option.splits prod.splits sum.splits if_splits)

text \<open>C15: what a restart keeps of the control state: after the state of a gateway, in manual mode or with some
  model selected, was put into the configuration, a gateway started from it over a fresh catalog has the same
  mode, and the same models selected except where the configuration gives a model an explicit default, which
  then decides. It starts exactly when no model was pinned or the pinned one is still selected and in the
  catalog, and then that model is pinned; otherwise it fails with the error for a model that is not there.
  (An empty selection in automatic mode is not restored: the fresh catalog's own selection stays.)\<close>

theorem restart_keeps_control_state:
  assumes "persistControlState parseURL cd wenv (ControlSnapshot order rks0 now0 g) st = (e, st')"
    and "pc_Mode (current_pool g) = ModeAutomatic \<or> pc_Mode (current_pool g) = ModeManual"
    and "pc_Selected (current_pool g) \<noteq> [] \<or> pc_Mode (current_pool g) = ModeManual"
    and "NewGatewayWithFailoverPolicy ks now d policy = Inr g0" and "iter_order rks (gw_routes g0)"
  shows "case start_gateway ks rks now d policy (ap_cfg st') of
      Inl err \<Rightarrow> err = RestoreState ErrControlModelNotFound \<and>
        \<not> (gw_pinnedModel g = [] \<or> kept (gw_routes g0) (pc_Selected (current_pool g)) (gw_pinnedModel g) \<and>
          (\<exists>cat. gw_catalog g0 = Some cat \<and> snap_models cat (gw_pinnedModel g) \<noteq> None))
    | Inr g1 \<Rightarrow>
        (gw_pinnedModel g = [] \<or> kept (gw_routes g0) (pc_Selected (current_pool g)) (gw_pinnedModel g) \<and>
          (\<exists>cat. gw_catalog g0 = Some cat \<and> snap_models cat (gw_pinnedModel g) \<noteq> None)) \<and>
        pc_Mode (current_pool g1) = pc_Mode (current_pool g) \<and> gw_pinnedModel g1 = gw_pinnedModel g \<and>
        set (pc_Selected (current_pool g1)) = {pid. kept (gw_routes g0) (pc_Selected (current_pool g)) pid}"
proof -
  have snap: "vs_Pool (ControlSnapshot order rks0 now0 g) = current_pool g"
    "vs_PinnedModel (ControlSnapshot order rks0 now0 g) = gw_pinnedModel g"
    by (auto simp: ControlSnapshot_def Let_def split: option.splits prod.splits)
  with assms(1) have cfg: "cf_ModelPool (ap_cfg st') = pc_Selected (current_pool g)"
    "cf_ModelPoolMode (ap_cfg st') = mode_text (pc_Mode (current_pool g))" "cf_PinnedModel (ap_cfg st') = gw_pinnedModel g"
    by (auto simp: persistControlState_def Let_def split: if_splits prod.splits)
  obtain err g1 where r: "RestoreControlState rks (pc_Selected (current_pool g)) (pc_Mode (current_pool g)) (gw_pinnedModel g) g0 = (err, g1)"
    by fastforce
  note res = RestoreControlState_result [OF r assms(3,2,5)]
  have pin: "gw_pinnedModel g1 = gw_pinnedModel g0" if "gw_pinnedModel g = []"
    using r that by (auto simp: RestoreControlState_def try_mutate_eq Let_def split: if_splits sum.splits)
  have "start_gateway ks rks now d policy (ap_cfg st') = (case err of Some e \<Rightarrow> Inl (RestoreState e) | None \<Rightarrow> Inr g1)"
    using assms(4) r by (simp add: start_gateway_def cfg mode_of_text_text [OF assms(2)])
  with res pin NewGateway_unpinned [OF assms(4)] show ?thesis by (cases err) auto
qed

text \<open>A pinned model that the configuration has come to exclude, or that has left the catalog, keeps the
  application from starting at all.\<close>

lemma stale_pin_blocks_start:
  assumes "NewGatewayWithFailoverPolicy ks now d policy = Inr g0" and "iter_order rks (gw_routes g0)"
    and "mode_of_text (cf_ModelPoolMode cfg) = ModeManual" and "cf_PinnedModel cfg \<noteq> []"
    and "\<not> kept (gw_routes g0) (cf_ModelPool cfg) (cf_PinnedModel cfg)"
  shows "start_gateway ks rks now d policy cfg = Inl (RestoreState ErrControlModelNotFound)"
proof -
  obtain err g1 where r: "RestoreControlState rks (cf_ModelPool cfg) ModeManual (cf_PinnedModel cfg) g0 = (err, g1)" by fastforce
  from RestoreControlState_result [OF r _ _ assms(2)] assms(4,5) have "err = Some ErrControlModelNotFound" by auto
  with assms(1,3) r show ?thesis by (simp add: start_gateway_def)
qed

lemma excluded_not_kept:
  assumes "genericRoutes pc pm = Inr rs" and "ModelExcluded pc (pm_UpstreamID pm)" and "routes pid = Some rs"
  shows "\<not> kept routes selected pid"
  using assms by (auto simp: genericRoutes_def kept_def routes_of_def default_choice_def SelectedByDefault_def Let_def
      ex_bool_eq split: sum.splits)

section \<open>Concrete inputs\<close>

lemma sample_gateway_pool: "current_pool sample_gateway = \<lparr>pc_Revision = 1, pc_Mode = ModeAutomatic, pc_Selected = [''p/a'']\<rparr>"
  by code_simp

lemma sample_new: "NewGatewayWithFailoverPolicy [''p/b'', ''p/a''] 7 (Some sample_discovery) sample_policy = Inr sample_gateway"
  unfolding NewGatewayWithFailoverPolicy_def option.case sample_refresh prod.case ..

lemma sample_routes_order: "iter_order [''p/a'', ''p/b''] (gw_routes sample_gateway)"
proof -
  have routes: "gw_routes (repick ks h) = gw_routes h" for ks h
    by (simp add: repick_def split: list.split)
  have d: "discovered sample_discovery = Inr (sample_snap [''p/a'', ''p/b''],
      [''p/a'' \<mapsto> [sample_route ''p::a'' ''p/a'' AccessFree], ''p/b'' \<mapsto> [sample_route ''p::b'' ''p/b'' AccessPaid]], [])"
    by (simp add: discovered_def sample_discovery_def)
  from RefreshCatalog_result [OF sample_refresh] obtain snap rts ps p committed st where
    r: "discovered sample_discovery = Inr (snap, rts, ps)" and g: "sample_gateway = repick [''p/b'', ''p/a'']
      (rebuildBenchmarkBindings (newGatewayState sample_policy\<lparr>gw_pool := st\<lparr>so_pool := p\<rparr>,
        gw_catalog := Some committed, gw_routes := rts, gw_providers := ps\<rparr>))"
    by blast
  have "gw_routes sample_gateway = rts" unfolding g routes rebuild_sel by simp
  with d r have "gw_routes sample_gateway = [''p/a'' \<mapsto> [sample_route ''p::a'' ''p/a'' AccessFree], ''p/b'' \<mapsto> [sample_route ''p::b'' ''p/b'' AccessPaid]]"
    by simp
  then show ?thesis by (auto simp: iter_order_def)
qed

theorem restart_keeps_control_state_witness:
  "\<exists>g1. start_gateway [''p/b'', ''p/a''] [''p/a'', ''p/b''] 7 (Some sample_discovery) sample_policy
      (ap_cfg (snd (persistControlState sample_parseURL sample_codec (ok_write JNull)
        (ControlSnapshot [''p/b'', ''p/a''] [''p/a'', ''p/b''] 9 sample_gateway) idle_state))) = Inr g1 \<and>
    pc_Mode (current_pool g1) = ModeAutomatic"
proof -
  obtain e st' where p: "persistControlState sample_parseURL sample_codec (ok_write JNull)
        (ControlSnapshot [''p/b'', ''p/a''] [''p/a'', ''p/b''] 9 sample_gateway) idle_state = (e, st')" by fastforce
  have "gw_pinnedModel sample_gateway = []" by (rule NewGateway_unpinned [OF sample_new])
  with restart_keeps_control_state [OF p _ _ sample_new sample_routes_order] p show ?thesis
    by (auto simp: sample_gateway_pool split: sum.splits)
qed

definition sample_run_env :: "json RunEnv" where
  "sample_run_env = \<lparr>re_envBind = [], re_managementSecret = sample_secret_env, re_managementRandom = Some [7],
     re_inferenceSecret = sample_secret_env, re_inferenceRandom = Some [8], re_listen = \<lambda>_. True\<rparr>"

lemma fresh_token:
  assumes "normalizeSecretKey key = Inr key"
  shows "resolveToken sample_codec senv (Some sample_store) key False (Some [b]) \<lparr>va_backend = (), va_fs = Map.empty\<rparr> =
    (Inr (hex_encode [b]), \<lparr>va_backend = (), va_fs = Map.empty\<rparr>)"
  using assms by (simp add: resolveToken_def secret_Get_def env_value_def sample_store_def backend_value_def readSecretFile_def
      os_ReadFile_def NewToken_def hex_encode_def)

theorem run_exposure_witness:
  "case fst (RunWithProvider sample_codec sample_run_env sample_store (PersistedDefaults\<lparr>cf_Bind := ''10.0.0.1:1''\<rparr>)
      (Inr sample_gateway) (\<lambda>g auth q :: unit. Reply q) \<lparr>va_backend = (), va_fs = Map.empty\<rparr>) of
    Inl e \<Rightarrow> False | Inr rn \<Rightarrow> rn_Handler rn [] () = Unauthorized challenge ''unauthorized'' 401"
proof -
  let ?cfg = "PersistedDefaults\<lparr>cf_Bind := ''10.0.0.1:1''\<rparr>" and ?v = "\<lparr>va_backend = (), va_fs = Map.empty\<rparr> :: (unit, json) Vault"
  have facts: "\<not> IsLoopbackBind ''10.0.0.1:1''" "ValidateLoopbackBind ''127.0.0.1:8788'' = None"
    "normalizeSecretKey ManagementTokenKey = Inr ManagementTokenKey" "normalizeSecretKey InferenceTokenKey = Inr InferenceTokenKey"
    "isl (bindHost ''10.0.0.1:1'') = False" "Fields ([] :: gostring) = []" "inference_bind [] ?cfg = ''10.0.0.1:1''"
    "management_bind ?cfg = Some ''127.0.0.1:8788''" "cf_SourcePath ?cfg = []" by code_simp+
  have hex: "hex_encode [7] = ''07''" "hex_encode [8] = ''08''" by (simp_all add: hex_encode_def hex_digit_def)
  have tok: "TrimSpace ''07'' = ''07''" "TrimSpace ''08'' = ''08''" by code_simp+
  have c: "control_setup sample_codec sample_run_env sample_store ?cfg ?v = (Inr (Some (''127.0.0.1:8788'', ''07'')), ?v)"
    using facts tok by (simp add: control_setup_def sample_run_env_def fresh_token hex)
  obtain host where "bindHost ''10.0.0.1:1'' = Inr host" using facts(5) by (cases "bindHost ''10.0.0.1:1''") auto
  then have i: "inference_setup sample_codec sample_run_env sample_store ?cfg (\<lambda>auth q :: unit. Reply q) ''10.0.0.1:1'' ?v =
      (Inr (RequireBearer (Some (\<lambda>auth q. Reply q)) ''08''), ?v)"
    using facts tok by (simp add: inference_setup_def sample_run_env_def fresh_token hex RequireInferenceAuth_def)
  let ?rn = "\<lparr>rn_Bind = ''10.0.0.1:1'', rn_Handler = RequireBearer (Some (\<lambda>auth q :: unit. Reply q)) ''08'',
      rn_Control = Some (''127.0.0.1:8788'', ''07'')\<rparr>"
  have bind: "inference_bind (re_envBind sample_run_env) ?cfg = ''10.0.0.1:1''" "re_listen sample_run_env ''10.0.0.1:1''"
    using facts(7) by (simp_all add: sample_run_env_def)
  have r: "RunWithProvider sample_codec sample_run_env sample_store ?cfg (Inr sample_gateway) (\<lambda>g auth q :: unit. Reply q) ?v = (Inr ?rn, ?v)"
    using bind c i by (simp add: RunWithProvider_def Let_def)
  from run_exposure [OF r] facts(1) obtain token where t: "\<not> validBearer [] (TrimSpace token) \<longrightarrow>
      rn_Handler ?rn [] () = Unauthorized challenge ''unauthorized'' 401" by auto
  have "\<not> validBearer [] (TrimSpace token)" by (simp add: validBearer_def facts(6))
  with t r show ?thesis by simp
qed

end
