(* ===== verification/ControlServer.thy ===== *)
theory ControlServer
  imports ConfigUpdate Usage
begin

text \<open>
  Package \<open>internal/control\<close>, files \<open>server.go\<close> and \<open>api.go\<close>: the management API. A request is its method,
  path, peer, credentials, query and body; the server's state is the gateway, the application's
  configuration with its vault, and the usage log. Go maps' orders, the clock and the outcomes of system
  calls are arguments. The body is what the decoder finds in its first megabyte: the JSON values one after
  the other, and whether it then meets the end of the input or an error. The event stream of
  \<open>/_fmr/logs/events\<close> is only opened here.
\<close>

section \<open>Requests and responses (server.go)\<close>

record BodyScan =
  bs_values :: "json list"
  bs_broken :: bool

record ControlRequest =
  hr_Method :: gostring
  hr_Path :: gostring
  hr_Remote :: gostring
  hr_Authorization :: gostring
  hr_Query :: "gostring \<Rightarrow> gostring"
  hr_Body :: "BodyScan option"

record PoolResponse =
  po_Revision :: int
  po_Mode :: gostring
  po_Selected :: "gostring list"
  po_PinnedModel :: gostring

record StatusResponse =
  sr_APIVersion :: gostring
  sr_BuildVersion :: gostring
  sr_InstanceID :: gostring
  sr_Features :: "gostring list"
  sr_CatalogRevision :: int
  sr_PoolRevision :: int
  sr_PinnedModel :: gostring
  sr_Benchmark :: BenchmarkStatus

datatype problem =
    Unavailable
  | LocalhostOnly
  | InvalidJSON
  | ExtraJSON
  | BodyRequired
  | RevisionRequired
  | InvalidModelId gostring
  | DuplicateModelId gostring
  | InvalidQuery gostring
  | GatewayProblem gateway_error
  | PersistProblem config_error
  | UsageProblem usage_error
  | UpdateProblem update_error

text \<open>What is shown of providers, routes and models; times are texts.\<close>

record ProviderResponse =
  pa_ID :: gostring
  pa_Models :: nat
  pa_Routes :: nat
  pa_Enabled :: bool
  pa_Available :: bool
  pa_ErrorCode :: gostring
  pa_Message :: gostring

record RouteHealthResponse =
  ha_CoolingUntil :: gostring
  ha_QuotaExhausted :: bool
  ha_ConsecutiveFailures :: int
  ha_Available :: bool

record RouteResponse =
  ra_ID :: gostring
  ra_ModelID :: gostring
  ra_Provider :: gostring
  ra_UpstreamModelID :: gostring
  ra_CredentialID :: gostring
  ra_Access :: AccessClass
  ra_Enabled :: bool
  ra_AutoRouteAllowed :: bool
  ra_ProbeAllowed :: bool
  ra_Capabilities :: Capabilities
  ra_Health :: RouteHealthResponse
  ra_TTFTMs :: float64
  ra_TTFTKnown :: bool
  ra_LastKnownTTFTMs :: float64
  ra_TTFTKnownEver :: bool
  ra_TTFTMeasuredAt :: gostring
  ra_TTFTSource :: gostring
  ra_ProbeOutcome :: gostring
  ra_ProbeAttemptAt :: gostring
  ra_Performance :: float64
  ra_PerformanceKnown :: bool
  ra_EffectivePerformance :: float64
  ra_Confidence :: float64
  ra_LatencyScore :: float64
  ra_RoutingScore :: float64
  ra_RoutingScoreKnown :: bool
  ra_PerformanceReason :: gostring
  ra_LatencyReason :: gostring
  ra_ScoreReason :: gostring

record ModelResponse =
  ma_ID :: gostring
  ma_CanonicalKey :: gostring
  ma_DisplayName :: gostring
  ma_UpstreamID :: gostring
  ma_Capabilities :: Capabilities
  ma_Selected :: bool
  ma_Pinned :: bool
  ma_RoutingScore :: float64
  ma_RoutingScoreKnown :: bool
  ma_Routes :: "RouteResponse list"

datatype control_reply =
    ReplyError int problem
  | ReplyUnauthorized
  | ReplyNoRoute int
  | ReplyStatus StatusResponse
  | ReplyProviders "ProviderResponse list"
  | ReplyModels i64 "ModelResponse list" BenchmarkStatus
  | ReplyRefreshed i64
  | ReplyPool PoolResponse
  | ReplyLogs "RequestRecord list"
  | ReplyEvents
  | ReplyConfig ConfigResponse
  | ReplyUpdated ConfigUpdateResponse
  | ReplyStopping

fun reply_status :: "control_reply \<Rightarrow> int" where
  "reply_status (ReplyError s _) = s"
| "reply_status ReplyUnauthorized = 401"
| "reply_status (ReplyNoRoute s) = s"
| "reply_status ReplyStopping = 202"
| "reply_status _ = 200"

section \<open>Decoding (server.go)\<close>

text \<open>\<open>DisallowUnknownFields\<close>: a name that stands for no field is an error.\<close>

definition strict :: "gostring list \<Rightarrow> (gostring \<Rightarrow> json \<Rightarrow> 's \<Rightarrow> 's option) \<Rightarrow> gostring \<Rightarrow> json \<Rightarrow> 's \<Rightarrow> 's option" where
  "strict names step k j s = (if field_named names k = None then None else step k j s)"

definition empty_struct :: "json \<Rightarrow> bool" where
  "empty_struct j = (j = JNull \<or> j = JObj [])"

definition trailing_problem :: "json list \<Rightarrow> bool \<Rightarrow> problem option" where
  "trailing_problem rest broken =
     (case rest of
        [] \<Rightarrow> if broken then Some InvalidJSON else None
      | j # _ \<Rightarrow> Some (if empty_struct j then ExtraJSON else InvalidJSON))"

definition decodeJSON :: "('s \<Rightarrow> json \<Rightarrow> 's option) \<Rightarrow> 's \<Rightarrow> BodyScan option \<Rightarrow> problem + 's" where
  "decodeJSON dec zero body =
     (case body of
        None \<Rightarrow> Inl BodyRequired
      | Some b \<Rightarrow>
          (case bs_values b of
             [] \<Rightarrow> Inl InvalidJSON
           | j # rest \<Rightarrow>
               (case dec zero j of
                  None \<Rightarrow> Inl InvalidJSON
                | Some x \<Rightarrow> (case trailing_problem rest (bs_broken b) of Some p \<Rightarrow> Inl p | None \<Rightarrow> Inr x))))"

definition decodeJSONOptional :: "('s \<Rightarrow> json \<Rightarrow> 's option) \<Rightarrow> 's \<Rightarrow> BodyScan option \<Rightarrow> problem + 's" where
  "decodeJSONOptional dec zero body =
     (case body of
        None \<Rightarrow> Inr zero
      | Some b \<Rightarrow> if bs_values b = [] \<and> \<not> bs_broken b then Inr zero else decodeJSON dec zero body)"

record PoolPut =
  pp_Revision :: "int option"
  pp_Mode :: gostring
  pp_Selected :: "gostring list"

definition pool_put_field :: "gostring \<Rightarrow> json \<Rightarrow> PoolPut \<Rightarrow> PoolPut option" where
  "pool_put_field k j r = (case field_named [''revision'', ''mode'', ''selectedProviderModelIds''] k of
       None \<Rightarrow> Some r
     | Some n \<Rightarrow>
         if n = ''revision'' then map_option (\<lambda>x. r\<lparr>pp_Revision := x\<rparr>) (dec_ptr dec_int 0 (pp_Revision r) j)
         else if n = ''mode'' then map_option (\<lambda>x. r\<lparr>pp_Mode := x\<rparr>) (dec_string (pp_Mode r) j)
         else map_option (\<lambda>x. r\<lparr>pp_Selected := x\<rparr>) (dec_list dec_string [] (pp_Selected r) j))"

definition dec_pool_put :: "PoolPut \<Rightarrow> json \<Rightarrow> PoolPut option" where
  "dec_pool_put = dec_struct (strict [''revision'', ''mode'', ''selectedProviderModelIds''] pool_put_field)"

record PoolPatch =
  px_Revision :: "int option"
  px_Select :: "gostring list"
  px_Deselect :: "gostring list"
  px_SelectAll :: bool
  px_ClearAll :: bool
  px_Mode :: "gostring option"

definition pool_patch_names :: "gostring list" where
  "pool_patch_names = [''revision'', ''select'', ''deselect'', ''selectAll'', ''clearAll'', ''mode'']"

definition pool_patch_field :: "gostring \<Rightarrow> json \<Rightarrow> PoolPatch \<Rightarrow> PoolPatch option" where
  "pool_patch_field k j r = (case field_named pool_patch_names k of
       None \<Rightarrow> Some r
     | Some n \<Rightarrow>
         if n = ''revision'' then map_option (\<lambda>x. r\<lparr>px_Revision := x\<rparr>) (dec_ptr dec_int 0 (px_Revision r) j)
         else if n = ''select'' then map_option (\<lambda>x. r\<lparr>px_Select := x\<rparr>) (dec_list dec_string [] (px_Select r) j)
         else if n = ''deselect'' then map_option (\<lambda>x. r\<lparr>px_Deselect := x\<rparr>) (dec_list dec_string [] (px_Deselect r) j)
         else if n = ''selectAll'' then map_option (\<lambda>x. r\<lparr>px_SelectAll := x\<rparr>) (dec_bool (px_SelectAll r) j)
         else if n = ''clearAll'' then map_option (\<lambda>x. r\<lparr>px_ClearAll := x\<rparr>) (dec_bool (px_ClearAll r) j)
         else map_option (\<lambda>x. r\<lparr>px_Mode := x\<rparr>) (dec_ptr dec_string [] (px_Mode r) j))"

definition dec_pool_patch :: "PoolPatch \<Rightarrow> json \<Rightarrow> PoolPatch option" where
  "dec_pool_patch = dec_struct (strict pool_patch_names pool_patch_field)"

record PinRequest =
  pi_Revision :: "int option"
  pi_ModelID :: gostring

definition pin_field :: "gostring \<Rightarrow> json \<Rightarrow> PinRequest \<Rightarrow> PinRequest option" where
  "pin_field k j r = (case field_named [''revision'', ''providerModelId''] k of
       None \<Rightarrow> Some r
     | Some n \<Rightarrow>
         if n = ''revision'' then map_option (\<lambda>x. r\<lparr>pi_Revision := x\<rparr>) (dec_ptr dec_int 0 (pi_Revision r) j)
         else map_option (\<lambda>x. r\<lparr>pi_ModelID := x\<rparr>) (dec_string (pi_ModelID r) j))"

definition dec_pin :: "PinRequest \<Rightarrow> json \<Rightarrow> PinRequest option" where
  "dec_pin = dec_struct (strict [''revision'', ''providerModelId''] pin_field)"

definition dec_revision :: "int option \<Rightarrow> json \<Rightarrow> int option option" where
  "dec_revision = dec_struct (strict [''revision''] (\<lambda>k j r. dec_ptr dec_int 0 r j))"

definition provider_update_names :: "gostring list" where
  "provider_update_names = [''id'', ''name'', ''protocol'', ''baseUrl'', ''enabled'', ''apiKey'', ''autoProbe'', ''excludedModelIds'']"

definition provider_update_field :: "gostring \<Rightarrow> json \<Rightarrow> ProviderConfigUpdate \<Rightarrow> ProviderConfigUpdate option" where
  "provider_update_field k j u = (case field_named provider_update_names k of
       None \<Rightarrow> Some u
     | Some n \<Rightarrow>
         if n = ''id'' then map_option (\<lambda>x. u\<lparr>pu_ID := x\<rparr>) (dec_string (pu_ID u) j)
         else if n = ''name'' then map_option (\<lambda>x. u\<lparr>pu_Name := x\<rparr>) (dec_string (pu_Name u) j)
         else if n = ''protocol'' then map_option (\<lambda>x. u\<lparr>pu_Protocol := x\<rparr>) (dec_string (pu_Protocol u) j)
         else if n = ''baseUrl'' then map_option (\<lambda>x. u\<lparr>pu_BaseURL := x\<rparr>) (dec_string (pu_BaseURL u) j)
         else if n = ''enabled'' then map_option (\<lambda>x. u\<lparr>pu_Enabled := x\<rparr>) (dec_bool (pu_Enabled u) j)
         else if n = ''apiKey'' then map_option (\<lambda>x. u\<lparr>pu_APIKey := x\<rparr>) (dec_ptr dec_string [] (pu_APIKey u) j)
         else if n = ''autoProbe'' then map_option (\<lambda>x. u\<lparr>pu_AutoProbe := x\<rparr>) (dec_ptr dec_bool False (pu_AutoProbe u) j)
         else map_option (\<lambda>x. u\<lparr>pu_ExcludedModelIDs := x\<rparr>) (dec_ptr (dec_list dec_string []) [] (pu_ExcludedModelIDs u) j))"

definition zero_provider_update :: ProviderConfigUpdate where
  "zero_provider_update = \<lparr>pu_ID = [], pu_Name = [], pu_Protocol = [], pu_BaseURL = [], pu_Enabled = False, pu_APIKey = None,
     pu_AutoProbe = None, pu_ExcludedModelIDs = None\<rparr>"

definition update_names :: "gostring list" where
  "update_names = [''revision'', ''bind'', ''providers'', ''inferenceKey'', ''generateInferenceKey'']"

definition update_field :: "gostring \<Rightarrow> json \<Rightarrow> ConfigUpdateRequest \<Rightarrow> ConfigUpdateRequest option" where
  "update_field k j q = (case field_named update_names k of
       None \<Rightarrow> Some q
     | Some n \<Rightarrow>
         if n = ''revision'' then map_option (\<lambda>x. q\<lparr>cq_Revision := x\<rparr>) (dec_int (cq_Revision q) j)
         else if n = ''bind'' then map_option (\<lambda>x. q\<lparr>cq_Bind := x\<rparr>) (dec_string (cq_Bind q) j)
         else if n = ''providers''
         then map_option (\<lambda>x. q\<lparr>cq_Providers := x\<rparr>)
           (dec_list (dec_struct (strict provider_update_names provider_update_field)) zero_provider_update (cq_Providers q) j)
         else if n = ''inferenceKey'' then map_option (\<lambda>x. q\<lparr>cq_InferenceKey := x\<rparr>) (dec_ptr dec_string [] (cq_InferenceKey q) j)
         else map_option (\<lambda>x. q\<lparr>cq_GenerateInferenceKey := x\<rparr>) (dec_bool (cq_GenerateInferenceKey q) j))"

definition dec_update :: "ConfigUpdateRequest \<Rightarrow> json \<Rightarrow> ConfigUpdateRequest option" where
  "dec_update = dec_struct (strict update_names update_field)"

definition zero_update :: ConfigUpdateRequest where
  "zero_update = \<lparr>cq_Revision = 0, cq_Bind = [], cq_Providers = [], cq_InferenceKey = None, cq_GenerateInferenceKey = False\<rparr>"

fun validateIDs_loop :: "gostring set \<Rightarrow> gostring list \<Rightarrow> problem option" where
  "validateIDs_loop seen [] = None"
| "validateIDs_loop seen (pid # pids) =
     (case id_Parse pid of
        Inl _ \<Rightarrow> Some (InvalidModelId pid)
      | Inr _ \<Rightarrow> if pid \<in> seen then Some (DuplicateModelId pid) else validateIDs_loop (insert pid seen) pids)"

definition validateIDs :: "gostring list \<Rightarrow> problem option" where
  "validateIDs ids' = validateIDs_loop {} ids'"

section \<open>Queries of the usage log (server.go)\<close>

definition result_of_text :: "gostring \<Rightarrow> Outcome option" where
  "result_of_text s = (if s = [] then Some ResultNone else if s = ''success'' then Some ResultSuccess
     else if s = ''failure'' then Some ResultFailure else if s = ''canceled'' then Some ResultCanceled
     else if s = ''partial'' then Some ResultPartial else None)"

text \<open>\<open>strconv.ParseBool\<close>\<close>

definition ParseBool :: "gostring \<Rightarrow> bool option" where
  "ParseBool s = (if s \<in> {''1'', ''t'', ''T'', ''TRUE'', ''true'', ''True''} then Some True
     else if s \<in> {''0'', ''f'', ''F'', ''FALSE'', ''false'', ''False''} then Some False else None)"

definition maxQueryLimit :: int where
  "maxQueryLimit = 1000"

text \<open>
  \<open>parseTime\<close> reads a time in RFC 3339. The result filter stays text: a name that is no result matches
  nothing.
\<close>

definition parseUsageQuery ::
  "(gostring \<Rightarrow> time option) \<Rightarrow> (gostring \<Rightarrow> gostring) \<Rightarrow> problem + Query \<times> gostring" where
  "parseUsageQuery parseTime get =
     (let read_time = (\<lambda>name. if get name = [] then Inr 0 else case parseTime (get name) of
            None \<Rightarrow> Inl (InvalidQuery name) | Some t \<Rightarrow> Inr t);
          count = (\<lambda>name. if get name = [] then Inr 0 else case Atoi (get name) of
            None \<Rightarrow> Inl (InvalidQuery name) | Some n \<Rightarrow> if n < 0 then Inl (InvalidQuery name) else Inr n)
      in case read_time ''from'' of Inl p \<Rightarrow> Inl p | Inr from' \<Rightarrow>
         (case read_time ''to'' of Inl p \<Rightarrow> Inl p | Inr to' \<Rightarrow>
         (case (if get ''fallback'' = [] then Some None else map_option Some (ParseBool (get ''fallback''))) of
            None \<Rightarrow> Inl (InvalidQuery ''fallback'')
          | Some fb \<Rightarrow>
         (case count ''offset'' of Inl p \<Rightarrow> Inl p | Inr off \<Rightarrow>
         (case count ''limit'' of Inl p \<Rightarrow> Inl p | Inr cnt \<Rightarrow>
            Inr (\<lparr>qu_From = from', qu_To = to', qu_Provider = get ''provider'', qu_Model = get ''model'',
              qu_Result = ResultNone, qu_Fallback = fb, qu_Offset = off,
              qu_Limit = (if cnt > maxQueryLimit then maxQueryLimit else cnt)\<rparr>, get ''result''))))))"

text \<open>Reading the log for a query; a result that does not exist selects nothing.\<close>

definition query_logs :: "Query \<Rightarrow> gostring \<Rightarrow> UsageStore \<Rightarrow> usage_error + RequestRecord list" where
  "query_logs q result s =
     (case result_of_text result of
        Some o' \<Rightarrow> usage_List (q\<lparr>qu_Result := o'\<rparr>) s
      | None \<Rightarrow> (case usage_List q s of Inl e \<Rightarrow> Inl e | Inr _ \<Rightarrow> Inr []))"

section \<open>Handlers (server.go, api.go)\<close>

text \<open>What the server was built with; \<open>None\<close> and \<open>False\<close> stand for what was not given.\<close>

record Options =
  op_Token :: gostring
  op_APIVersion :: gostring
  op_BuildVersion :: gostring
  op_InstanceID :: gostring
  op_Features :: "gostring list"
  op_Logs :: bool
  op_Events :: bool
  op_Config :: bool
  op_UpdateConfig :: bool
  op_OnChange :: bool
  op_Stop :: bool

record ('b, 'c) ServerState =
  sv_gateway :: Gateway
  sv_app :: "('b, 'c) AppState"
  sv_usage :: UsageStore
  sv_stopping :: bool

text \<open>The surroundings of one request: orders of maps, the clock, the calls of the gateway and the
  application it may lead to.\<close>

record ('b, 'c) ServerEnv =
  sx_catalogOrder :: "ProviderModelID list"
  sx_routeOrder :: "ProviderModelID list"
  sx_refreshOrder :: "ProviderModelID list"
  sx_now :: time
  sx_discovery :: Discovery
  sx_parseURL :: url_parser
  sx_codec :: "'c Codec"
  sx_persist :: "'c WriteEnv"
  sx_update :: "'c UpdateEnv"
  sx_store :: "'b SecretStore option"
  sx_view :: bool
  sx_parseTime :: "gostring \<Rightarrow> time option"
  sx_formatTime :: "time \<Rightarrow> gostring"

text \<open>The answers of \<open>handleProviders\<close> and \<open>handleModels\<close>.\<close>

definition provider_response :: "ControlProvider \<Rightarrow> ProviderResponse" where
  "provider_response p = \<lparr>pa_ID = vp_ID p, pa_Models = vp_Models p, pa_Routes = vp_Routes p, pa_Enabled = vp_Enabled p,
     pa_Available = vp_Available p, pa_ErrorCode = vp_ErrorCode p, pa_Message = vp_Message p\<rparr>"

definition time_text :: "(time \<Rightarrow> gostring) \<Rightarrow> time \<Rightarrow> gostring" where
  "time_text fmt t = (if IsZero t then [] else fmt t)"

definition route_response :: "(time \<Rightarrow> gostring) \<Rightarrow> time \<Rightarrow> ControlRoute \<Rightarrow> RouteResponse" where
  "route_response fmt now r =
     \<lparr>ra_ID = vr_ID r, ra_ModelID = vr_ModelID r, ra_Provider = vr_Provider r, ra_UpstreamModelID = vr_UpstreamModelID r,
      ra_CredentialID = vr_CredentialID r, ra_Access = vr_Access r, ra_Enabled = vr_Enabled r,
      ra_AutoRouteAllowed = vr_AutoRouteAllowed r, ra_ProbeAllowed = vr_ProbeAllowed r, ra_Capabilities = vr_Capabilities r,
      ra_Health = \<lparr>ha_CoolingUntil = time_text fmt (hs_CoolingUntil (vr_Health r)),
        ha_QuotaExhausted = hs_QuotaExhausted (vr_Health r),
        ha_ConsecutiveFailures = hs_ConsecutiveFailures (vr_Health r),
        ha_Available = (\<not> hs_QuotaExhausted (vr_Health r) \<and>
          (IsZero (hs_CoolingUntil (vr_Health r)) \<or> now > hs_CoolingUntil (vr_Health r)))\<rparr>,
      ra_TTFTMs = vr_TTFTMs r, ra_TTFTKnown = vr_TTFTKnown r, ra_LastKnownTTFTMs = vr_LastKnownTTFTMs r,
      ra_TTFTKnownEver = vr_TTFTKnownEver r, ra_TTFTMeasuredAt = time_text fmt (vr_TTFTMeasuredAt r),
      ra_TTFTSource = vr_TTFTSource r, ra_ProbeOutcome = vr_ProbeOutcome r,
      ra_ProbeAttemptAt = time_text fmt (vr_ProbeAttemptAt r), ra_Performance = vr_Performance r,
      ra_PerformanceKnown = vr_PerformanceKnown r, ra_EffectivePerformance = vr_EffectivePerformance r,
      ra_Confidence = vr_Confidence r, ra_LatencyScore = vr_LatencyScore r, ra_RoutingScore = vr_RoutingScore r,
      ra_RoutingScoreKnown = vr_RoutingScoreKnown r, ra_PerformanceReason = vr_PerformanceReason r,
      ra_LatencyReason = vr_LatencyReason r, ra_ScoreReason = vr_ScoreReason r\<rparr>"

definition model_response :: "(time \<Rightarrow> gostring) \<Rightarrow> time \<Rightarrow> ControlModel \<Rightarrow> ModelResponse" where
  "model_response fmt now m =
     \<lparr>ma_ID = pm_ID (vm_Model m), ma_CanonicalKey = pm_CanonicalKey (vm_Model m), ma_DisplayName = pm_DisplayName (vm_Model m),
      ma_UpstreamID = pm_UpstreamID (vm_Model m), ma_Capabilities = pm_Base (vm_Model m), ma_Selected = vm_Selected m,
      ma_Pinned = vm_Pinned m, ma_RoutingScore = vm_RoutingScore m, ma_RoutingScoreKnown = vm_RoutingScoreKnown m,
      ma_Routes = map (route_response fmt now) (vm_Routes m)\<rparr>"

definition availableFeatures :: "gostring list \<Rightarrow> bool \<Rightarrow> gostring list" where
  "availableFeatures configured events =
     (if configured = [] then [''control-api'', ''model-pool'', ''usage-logs''] @ (if events then [''usage-events''] else [])
      else filter (\<lambda>f. \<not> (f = ''usage-events'' \<and> \<not> events)) configured)"

definition Status :: "Options \<Rightarrow> ControlState \<Rightarrow> StatusResponse" where
  "Status o' snapshot =
     \<lparr>sr_APIVersion = (if op_APIVersion o' = [] then ''1'' else op_APIVersion o'),
      sr_BuildVersion = (if op_BuildVersion o' = [] then ''dev'' else op_BuildVersion o'),
      sr_InstanceID = op_InstanceID o', sr_Features = availableFeatures (op_Features o') (op_Events o'),
      sr_CatalogRevision = sint (vs_CatalogRevision snapshot), sr_PoolRevision = sint (pc_Revision (vs_Pool snapshot)),
      sr_PinnedModel = vs_PinnedModel snapshot, sr_Benchmark = vs_Benchmark snapshot\<rparr>"

definition APIMajor :: "gostring \<Rightarrow> gostring" where
  "APIMajor version = takeWhile (\<lambda>c. c \<noteq> CHR ''.'') (TrimSpace version)"

definition CompatibleAPIMajor :: "gostring \<Rightarrow> gostring \<Rightarrow> bool" where
  "CompatibleAPIMajor local remote = (APIMajor local \<noteq> [] \<and> APIMajor local = APIMajor remote)"

definition control_snapshot :: "('b, 'c) ServerEnv \<Rightarrow> Gateway \<Rightarrow> ControlState" where
  "control_snapshot sx g = ControlSnapshot (sx_catalogOrder sx) (sx_routeOrder sx) (sx_now sx) g"

definition poolResponse :: "ControlState \<Rightarrow> PoolResponse" where
  "poolResponse snapshot = \<lparr>po_Revision = sint (pc_Revision (vs_Pool snapshot)), po_Mode = mode_text (pc_Mode (vs_Pool snapshot)),
     po_Selected = pc_Selected (vs_Pool snapshot), po_PinnedModel = vs_PinnedModel snapshot\<rparr>"

definition writePool :: "('b, 'c) ServerEnv \<Rightarrow> Gateway \<Rightarrow> ModelPoolConfig \<Rightarrow> control_reply" where
  "writePool sx g pool = ReplyPool (poolResponse ((control_snapshot sx g)\<lparr>vs_Pool := pool\<rparr>))"

definition changed :: "Options \<Rightarrow> ('b, 'c) ServerEnv \<Rightarrow> ('b, 'c) ServerState \<Rightarrow> config_error option \<times> ('b, 'c) ServerState" where
  "changed opts sx s =
     (if \<not> op_OnChange opts then (None, s)
      else case persistControlState (sx_parseURL sx) (sx_codec sx) (sx_persist sx) (control_snapshot sx (sv_gateway s)) (sv_app s) of
        (e, app) \<Rightarrow> (e, s\<lparr>sv_app := app\<rparr>))"

definition mutation_problem :: "gateway_error \<Rightarrow> control_reply" where
  "mutation_problem e = ReplyError
     (if e = ErrPoolRevisionConflict then 409 else if e = ErrControlModelNotFound then 404 else 400) (GatewayProblem e)"

text \<open>The common end of the four handlers that change the pool.\<close>

definition apply_mutating ::
  "Options \<Rightarrow> ('b, 'c) ServerEnv \<Rightarrow> (gateway_error + ModelPoolConfig) \<times> Gateway \<Rightarrow> ('b, 'c) ServerState \<Rightarrow>
   control_reply \<times> ('b, 'c) ServerState" where
  "apply_mutating opts sx r s =
     (case r of
        (Inl e, g) \<Rightarrow> (mutation_problem e, s\<lparr>sv_gateway := g\<rparr>)
      | (Inr pool, g) \<Rightarrow>
          (case changed opts sx (s\<lparr>sv_gateway := g\<rparr>) of
             (Some e, s) \<Rightarrow> (ReplyError 500 (PersistProblem e), s)
           | (None, s) \<Rightarrow> (writePool sx g pool, s)))"

definition bad_request :: "problem \<Rightarrow> ('b, 'c) ServerState \<Rightarrow> control_reply \<times> ('b, 'c) ServerState" where
  "bad_request p s = (ReplyError 400 p, s)"

definition handlePoolPut ::
  "Options \<Rightarrow> ('b, 'c) ServerEnv \<Rightarrow> ControlRequest \<Rightarrow> ('b, 'c) ServerState \<Rightarrow> control_reply \<times> ('b, 'c) ServerState" where
  "handlePoolPut opts sx r s =
     (case decodeJSON dec_pool_put \<lparr>pp_Revision = None, pp_Mode = [], pp_Selected = []\<rparr> (hr_Body r) of
        Inl p \<Rightarrow> bad_request p s
      | Inr q \<Rightarrow>
          (case pp_Revision q of
             None \<Rightarrow> bad_request RevisionRequired s
           | Some rev' \<Rightarrow>
               (case validateIDs (pp_Selected q) of
                  Some p \<Rightarrow> bad_request p s
                | None \<Rightarrow> apply_mutating opts sx (ReplaceModelPool (word_of_int rev') (pp_Selected q)
                    (if pp_Mode q = [] then ModeManual else mode_of_text (pp_Mode q)) (sv_gateway s)) s)))"

definition handlePoolPatch ::
  "Options \<Rightarrow> ('b, 'c) ServerEnv \<Rightarrow> ControlRequest \<Rightarrow> ('b, 'c) ServerState \<Rightarrow> control_reply \<times> ('b, 'c) ServerState" where
  "handlePoolPatch opts sx r s =
     (case decodeJSON dec_pool_patch \<lparr>px_Revision = None, px_Select = [], px_Deselect = [], px_SelectAll = False,
         px_ClearAll = False, px_Mode = None\<rparr> (hr_Body r) of
        Inl p \<Rightarrow> bad_request p s
      | Inr q \<Rightarrow>
          (case px_Revision q of
             None \<Rightarrow> bad_request RevisionRequired s
           | Some rev' \<Rightarrow>
               (case validateIDs (px_Select q) of
                  Some p \<Rightarrow> bad_request p s
                | None \<Rightarrow>
                    (case validateIDs (px_Deselect q) of
                       Some p \<Rightarrow> bad_request p s
                     | None \<Rightarrow> apply_mutating opts sx (UpdateModelPool (sx_catalogOrder sx) (word_of_int rev')
                         \<lparr>mu_Select = px_Select q, mu_Deselect = px_Deselect q, mu_SelectAll = px_SelectAll q,
                          mu_ClearAll = px_ClearAll q, mu_Mode = map_option mode_of_text (px_Mode q)\<rparr> (sv_gateway s)) s))))"

definition handlePin ::
  "Options \<Rightarrow> ('b, 'c) ServerEnv \<Rightarrow> ControlRequest \<Rightarrow> ('b, 'c) ServerState \<Rightarrow> control_reply \<times> ('b, 'c) ServerState" where
  "handlePin opts sx r s =
     (case decodeJSON dec_pin \<lparr>pi_Revision = None, pi_ModelID = []\<rparr> (hr_Body r) of
        Inl p \<Rightarrow> bad_request p s
      | Inr q \<Rightarrow>
          (case pi_Revision q of
             None \<Rightarrow> bad_request RevisionRequired s
           | Some rev' \<Rightarrow>
               (case id_Parse (pi_ModelID q) of
                  Inl _ \<Rightarrow> bad_request (InvalidModelId (pi_ModelID q)) s
                | Inr _ \<Rightarrow> apply_mutating opts sx (PinModel (word_of_int rev') (pi_ModelID q) (sv_gateway s)) s)))"

definition handleAuto ::
  "Options \<Rightarrow> ('b, 'c) ServerEnv \<Rightarrow> ControlRequest \<Rightarrow> ('b, 'c) ServerState \<Rightarrow> control_reply \<times> ('b, 'c) ServerState" where
  "handleAuto opts sx r s =
     (case decodeJSONOptional dec_revision None (hr_Body r) of
        Inl p \<Rightarrow> bad_request p s
      | Inr None \<Rightarrow> bad_request RevisionRequired s
      | Inr (Some rev') \<Rightarrow> apply_mutating opts sx (AutoSelect (sx_catalogOrder sx) (word_of_int rev') (sv_gateway s)) s)"

definition handleCatalogRefresh ::
  "('b, 'c) ServerEnv \<Rightarrow> ('b, 'c) ServerState \<Rightarrow> control_reply \<times> ('b, 'c) ServerState" where
  "handleCatalogRefresh sx s =
     (case RefreshCatalog (sx_refreshOrder sx) (sx_now sx) (sx_discovery sx) (sv_gateway s) of
        (Some e, g) \<Rightarrow> (ReplyError 502 (GatewayProblem e), s\<lparr>sv_gateway := g\<rparr>)
      | (None, g) \<Rightarrow> (ReplyRefreshed (vs_CatalogRevision (control_snapshot sx g)), s\<lparr>sv_gateway := g\<rparr>))"

definition handleLogs ::
  "Options \<Rightarrow> ('b, 'c) ServerEnv \<Rightarrow> ControlRequest \<Rightarrow> ('b, 'c) ServerState \<Rightarrow> control_reply" where
  "handleLogs opts sx r s =
     (case parseUsageQuery (sx_parseTime sx) (hr_Query r) of
        Inl p \<Rightarrow> ReplyError 400 p
      | Inr (q, result) \<Rightarrow>
          if \<not> op_Logs opts then ReplyLogs []
          else (case query_logs q result (sv_usage s) of Inl e \<Rightarrow> ReplyError 500 (UsageProblem e) | Inr rs \<Rightarrow> ReplyLogs rs))"

definition handleConfigUpdate ::
  "Options \<Rightarrow> ('b, 'c) ServerEnv \<Rightarrow> ControlRequest \<Rightarrow> ('b, 'c) ServerState \<Rightarrow> control_reply \<times> ('b, 'c) ServerState" where
  "handleConfigUpdate opts sx r s =
     (if \<not> op_UpdateConfig opts then (ReplyError 404 Unavailable, s)
      else case decodeJSON dec_update zero_update (hr_Body r) of
        Inl p \<Rightarrow> bad_request p s
      | Inr q \<Rightarrow>
          (case updateConfig (sx_parseURL sx) (sx_codec sx) (sx_update sx) (sx_store sx) q (sv_app s) of
             (Inl e, app) \<Rightarrow>
               (ReplyError (if e = ErrConfigRevisionConflict then 409 else 400) (UpdateProblem e), s\<lparr>sv_app := app\<rparr>)
           | (Inr resp, app) \<Rightarrow> (ReplyUpdated resp, s\<lparr>sv_app := app\<rparr>)))"

definition handle ::
  "Options \<Rightarrow> ('b, 'c) ServerEnv \<Rightarrow> ControlRequest \<Rightarrow> ('b, 'c) ServerState \<Rightarrow> control_reply \<times> ('b, 'c) ServerState" where
  "handle opts sx r s =
     (let snap = control_snapshot sx (sv_gateway s); m = hr_Method r; p = hr_Path r;
          get = (m = ''GET'' \<or> m = ''HEAD'')
      in if p = ''/_fmr/status'' \<and> get then (ReplyStatus (Status opts snap), s)
         else if p = ''/_fmr/providers'' \<and> get then (ReplyProviders (map provider_response (vs_Providers snap)), s)
         else if p = ''/_fmr/models'' \<and> get then (ReplyModels (vs_CatalogRevision snap) (map (model_response (sx_formatTime sx) (sx_now sx)) (vs_Models snap)) (vs_Benchmark snap), s)
         else if p = ''/_fmr/catalog/refresh'' \<and> m = ''POST'' then handleCatalogRefresh sx s
         else if p = ''/_fmr/model-pool'' \<and> get then (ReplyPool (poolResponse snap), s)
         else if p = ''/_fmr/model-pool'' \<and> m = ''PUT'' then handlePoolPut opts sx r s
         else if p = ''/_fmr/model-pool'' \<and> m = ''PATCH'' then handlePoolPatch opts sx r s
         else if p = ''/_fmr/pin'' \<and> m = ''POST'' then handlePin opts sx r s
         else if p = ''/_fmr/auto'' \<and> m = ''POST'' then handleAuto opts sx r s
         else if p = ''/_fmr/logs'' \<and> get then (handleLogs opts sx r s, s)
         else if p = ''/_fmr/logs/events'' \<and> get
         then (if op_Events opts then ReplyEvents else ReplyError 404 Unavailable, s)
         else if p = ''/_fmr/config'' \<and> get
         then (if op_Config opts
               then ReplyConfig (configView (sx_codec sx) (sx_view sx) (sx_store sx) (ap_vault (sv_app s)) (ap_cfg (sv_app s)))
               else ReplyError 404 Unavailable, s)
         else if p = ''/_fmr/config'' \<and> m = ''PUT'' then handleConfigUpdate opts sx r s
         else if p = ''/_fmr/stop'' \<and> m = ''POST''
         then (if op_Stop opts then (ReplyStopping, s\<lparr>sv_stopping := True\<rparr>) else (ReplyError 404 Unavailable, s))
         else (ReplyNoRoute (if p \<in> {''/_fmr/status'', ''/_fmr/providers'', ''/_fmr/models'', ''/_fmr/catalog/refresh'', ''/_fmr/model-pool'',
             ''/_fmr/pin'', ''/_fmr/auto'', ''/_fmr/logs'', ''/_fmr/logs/events'', ''/_fmr/config'', ''/_fmr/stop''} then 405 else 404), s))"

definition NewServer :: "Options \<Rightarrow> gostring \<Rightarrow> Options option" where
  "NewServer opts instance_id =
     (if TrimSpace (op_Token opts) = [] then None
      else Some (opts\<lparr>op_Token := TrimSpace (op_Token opts),
        op_APIVersion := (if op_APIVersion opts = [] then ''1'' else op_APIVersion opts),
        op_BuildVersion := (if op_BuildVersion opts = [] then ''dev'' else op_BuildVersion opts),
        op_InstanceID := (if op_InstanceID opts = [] then instance_id else op_InstanceID opts),
        op_Features := availableFeatures (op_Features opts) (op_Events opts)\<rparr>))"

definition ServeHTTP ::
  "Options \<Rightarrow> ('b, 'c) ServerEnv \<Rightarrow> ControlRequest \<Rightarrow> ('b, 'c) ServerState \<Rightarrow> control_reply \<times> ('b, 'c) ServerState" where
  "ServeHTTP opts sx r s =
     (if \<not> IsLoopbackRemote (hr_Remote r) then (ReplyError 403 LocalhostOnly, s)
      else case RequireBearer (Some (\<lambda>_ r. Reply (handle opts sx r s))) (op_Token opts) (hr_Authorization r) r of
        Reply x \<Rightarrow> x
      | Unauthorized _ _ _ \<Rightarrow> (ReplyUnauthorized, s)
      | NotFound \<Rightarrow> (ReplyNoRoute 404, s))"

section \<open>Who is served\<close>

lemma ServeHTTP_eq:
  "ServeHTTP opts sx r s =
    (if \<not> IsLoopbackRemote (hr_Remote r) then (ReplyError 403 LocalhostOnly, s)
     else if validBearer (hr_Authorization r) (TrimSpace (op_Token opts)) then handle opts sx r s else (ReplyUnauthorized, s))"
  by (auto simp: ServeHTTP_def RequireBearer_def Let_def)

text \<open>C10: the management API of a server that could be made, so one with a token that is not blank, answers
  a peer at an IPv4 address outside 127/8 with 403, and a local peer (127/8 or \<open>::1\<close>) with 401 unless its
  \<open>Authorization\<close> header is the Bearer scheme and the token, neither of which changes anything; with that
  header a local peer gets what the handlers answer.\<close>

theorem management_gate:
  assumes "NewServer opts0 i = Some opts"
    and "a < 256" "b < 256" "c < 256" "d < 256" and "list_all is_digit port"
    and "hr_Remote r = (if six then ''[::1]'' else dotted (a, b, c, d)) @ colon # port"
  shows "TrimSpace (op_Token opts0) \<noteq> [] \<and>
    ServeHTTP opts sx r s =
     (if \<not> six \<and> a \<noteq> 127 then (ReplyError 403 LocalhostOnly, s)
      else if \<exists>scheme. Fields (hr_Authorization r) = [scheme, TrimSpace (op_Token opts0)] \<and> EqualFold_ascii scheme ''Bearer''
      then handle opts sx r s else (ReplyUnauthorized, s))"
proof -
  have "IsLoopbackRemote (hr_Remote r) \<longleftrightarrow> six \<or> a = 127"
    using IsLoopbackRemote_dotted [OF assms(2-6)] IsLoopbackRemote_loopback6 [OF assms(6)] assms(7) by (cases six) simp_all
  with assms(1) show ?thesis
    unfolding validBearer_iff [symmetric] by (auto simp: ServeHTTP_eq NewServer_def Let_def split: if_splits)
qed

section \<open>What the handlers change\<close>

definition mirrors :: "PersistedConfig \<Rightarrow> Gateway \<Rightarrow> bool" where
  "mirrors cfg g \<longleftrightarrow> cf_ModelPool cfg = pc_Selected (current_pool g) \<and> cf_ModelPoolMode cfg = mode_text (pc_Mode (current_pool g)) \<and>
     cf_PinnedModel cfg = gw_pinnedModel g"

lemma control_snapshot_pool: "vs_Pool (control_snapshot sx g) = current_pool g" "vs_PinnedModel (control_snapshot sx g) = gw_pinnedModel g"
  by (auto simp: control_snapshot_def ControlSnapshot_def Let_def split: option.splits prod.splits)

lemma changed_result:
  assumes "changed opts sx s = (e, s')"
  shows "sv_gateway s' = sv_gateway s \<and> sv_usage s' = sv_usage s \<and> sv_stopping s' = sv_stopping s \<and>
    (op_OnChange opts \<longrightarrow> mirrors (ap_cfg (sv_app s')) (sv_gateway s))"
  using assms by (auto simp: changed_def persistControlState_def mirrors_def control_snapshot_pool Let_def split: if_splits prod.splits)

text \<open>A request that changes the pool: nothing, or one write of the gateway followed by the configuration.\<close>

definition pool_outcome ::
  "Options \<Rightarrow> control_reply \<Rightarrow> ('b, 'c) ServerState \<Rightarrow> ('b, 'c) ServerState \<Rightarrow> bool" where
  "pool_outcome opts rep s s' \<longleftrightarrow>
     (reply_status rep \<in> {400, 404, 409} \<and> s' = s) \<or>
     (\<exists>op e pool. apply_control op e (sv_gateway s) = (Inr pool, sv_gateway s') \<and> sv_usage s' = sv_usage s \<and>
        (op_OnChange opts \<longrightarrow> mirrors (ap_cfg (sv_app s')) (sv_gateway s')) \<and>
        ((\<exists>p. rep = ReplyError 500 (PersistProblem p)) \<or>
         rep = ReplyPool \<lparr>po_Revision = sint (pc_Revision pool), po_Mode = mode_text (pc_Mode pool), po_Selected = pc_Selected pool,
           po_PinnedModel = gw_pinnedModel (sv_gateway s')\<rparr>))"

lemma apply_mutating_outcome:
  assumes "apply_mutating opts sx (apply_control op e (sv_gateway s)) s = (rep, s')"
  shows "pool_outcome opts rep s s'"
proof (cases "apply_control op e (sv_gateway s)")
  case (Pair res g)
  show ?thesis
  proof (cases res)
    case (Inl err)
    with Pair control.put_fail have "g = sv_gateway s" by blast
    with assms Pair Inl show ?thesis by (auto simp: apply_mutating_def mutation_problem_def pool_outcome_def split: if_splits)
  next
    case (Inr pool)
    obtain er s1 where c: "changed opts sx (s\<lparr>sv_gateway := g\<rparr>) = (er, s1)" by fastforce
    from changed_result [OF c] assms Pair Inr c have "sv_gateway s' = g" "sv_usage s' = sv_usage s" "s' = s1"
      "op_OnChange opts \<longrightarrow> mirrors (ap_cfg (sv_app s')) g"
      "(\<exists>p. rep = ReplyError 500 (PersistProblem p)) \<or> rep = writePool sx g pool"
      by (auto simp: apply_mutating_def split: option.splits)
    with Pair Inr show ?thesis
      unfolding pool_outcome_def by (intro disjI2 exI [of _ op] exI [of _ e] exI [of _ pool])
        (auto simp: writePool_def poolResponse_def control_snapshot_pool)
  qed
qed

lemma bad_request_outcome: "bad_request p s = (rep, s') \<Longrightarrow> pool_outcome opts rep s s'"
  by (auto simp: bad_request_def pool_outcome_def)

lemmas mutating_cases =
  apply_mutating_outcome [where op = "CtlUpdate ks m" for ks m, simplified]
  apply_mutating_outcome [where op = "CtlReplace sel m" for sel m, simplified]
  apply_mutating_outcome [where op = "CtlPin pid" for pid, simplified]
  apply_mutating_outcome [where op = "CtlAuto ks" for ks, simplified] bad_request_outcome

lemma pool_handlers:
  "handlePoolPut opts sx r s = (rep, s') \<Longrightarrow> pool_outcome opts rep s s'"
  "handlePoolPatch opts sx r s = (rep, s') \<Longrightarrow> pool_outcome opts rep s s'"
  "handlePin opts sx r s = (rep, s') \<Longrightarrow> pool_outcome opts rep s s'"
  "handleAuto opts sx r s = (rep, s') \<Longrightarrow> pool_outcome opts rep s s'"
  by (auto simp: handlePoolPut_def handlePoolPatch_def handlePin_def handleAuto_def
      split: sum.splits option.splits intro: mutating_cases)


section \<open>Queries\<close>

text \<open>A query the log endpoint accepts is one the log accepts: offset and limit are not negative, a limit
  is at most 1000, and at most this many records are answered, unless the client leaves the limit out.\<close>

theorem log_queries_bounded:
  assumes "parseUsageQuery parseTime get = Inr (q, result)"
  shows "0 \<le> qu_Offset q \<and> 0 \<le> qu_Limit q \<and> qu_Limit q \<le> maxQueryLimit \<and>
    (case query_logs q result u of
       Inl e \<Rightarrow> e = ErrClosed
     | Inr rs \<Rightarrow> (qu_Limit q = 0 \<or> int (length rs) \<le> qu_Limit q) \<and> set rs \<subseteq> set (us_records u))"
proof -
  have b: "0 \<le> qu_Offset q \<and> 0 \<le> qu_Limit q \<and> qu_Limit q \<le> maxQueryLimit"
    using assms by (auto simp: parseUsageQuery_def maxQueryLimit_def Let_def split: if_splits sum.splits option.splits)
  have list': "case usage_List q' u of Inl e \<Rightarrow> e = ErrClosed
     | Inr rs \<Rightarrow> (qu_Limit q = 0 \<or> int (length rs) \<le> qu_Limit q) \<and> set rs \<subseteq> set (us_records u)"
    if "qu_Offset q' = qu_Offset q" "qu_Limit q' = qu_Limit q" for q'
    using b that by (auto simp: usage_List_def Let_def dest!: in_set_takeD in_set_dropD split: if_splits)
  from list' [of q] list' [of "q\<lparr>qu_Result := o'\<rparr>" for o'] b show ?thesis
    by (auto simp: query_logs_def split: option.splits sum.splits)
qed

section \<open>Concrete inputs\<close>

definition sample_opts :: Options where
  "sample_opts = \<lparr>op_Token = ''key'', op_APIVersion = [], op_BuildVersion = [], op_InstanceID = [], op_Features = [], op_Logs = True,
     op_Events = True, op_Config = True, op_UpdateConfig = True, op_OnChange = True, op_Stop = True\<rparr>"

definition sample_sx :: "(unit, json) ServerEnv" where
  "sample_sx = \<lparr>sx_catalogOrder = [''p/a'', ''p/b''], sx_routeOrder = [''p/a'', ''p/b''], sx_refreshOrder = [''p/a'', ''p/b''], sx_now = 9,
     sx_discovery = sample_discovery, sx_parseURL = sample_parseURL, sx_codec = sample_codec, sx_persist = ok_write JNull,
     sx_update = sample_update_env, sx_store = Some sample_store, sx_view = True, sx_parseTime = \<lambda>_. None,
     sx_formatTime = \<lambda>_. []\<rparr>"

definition sample_request :: "gostring \<Rightarrow> json \<Rightarrow> ControlRequest" where
  "sample_request p j = \<lparr>hr_Method = ''PUT'', hr_Path = p, hr_Remote = ''127.0.0.1:9'', hr_Authorization = ''Bearer key'',
     hr_Query = \<lambda>_. [], hr_Body = Some \<lparr>bs_values = [j], bs_broken = False\<rparr>\<rparr>"

definition sample_server :: "(unit, json) ServerState" where
  "sample_server = \<lparr>sv_gateway = sample_gateway, sv_app = idle_state,
     sv_usage = NewMemory, sv_stopping = False\<rparr>"

theorem management_gate_witness:
  "\<exists>opts. NewServer sample_opts ''i'' = Some opts \<and>
     ServeHTTP opts sample_sx ((sample_request ''/_fmr/stop'' JNull)\<lparr>hr_Remote := ''10.0.0.1:9''\<rparr>) sample_server =
       (ReplyError 403 LocalhostOnly, sample_server) \<and>
     ServeHTTP opts sample_sx ((sample_request ''/_fmr/stop'' JNull)\<lparr>hr_Remote := ''[::1]:9'', hr_Authorization := ''Bearer''\<rparr>) sample_server =
       (ReplyUnauthorized, sample_server)"
proof -
  have tok: "TrimSpace (op_Token sample_opts) = ''key''" by code_simp
  then obtain opts where opts: "NewServer sample_opts ''i'' = Some opts" by (simp add: NewServer_def)
  have far: "''10.0.0.1:9'' = dotted (10, 0, 0, 1) @ colon # ''9''" and near: "''[::1]:9'' = ''[::1]'' @ colon # ''9''"
    and port: "list_all is_digit ''9''" and none: "Fields ''Bearer'' = [''Bearer'']" by code_simp+
  show ?thesis
    using opts tok none port far near
      management_gate [OF opts, where a = 10 and b = 0 and c = 0 and d = 1 and port = "''9''" and six = False and sx = sample_sx
        and r = "(sample_request ''/_fmr/stop'' JNull)\<lparr>hr_Remote := ''10.0.0.1:9''\<rparr>" and s = sample_server]
      management_gate [OF opts, where a = 10 and b = 0 and c = 0 and d = 1 and port = "''9''" and six = True and sx = sample_sx
        and r = "(sample_request ''/_fmr/stop'' JNull)\<lparr>hr_Remote := ''[::1]:9'', hr_Authorization := ''Bearer''\<rparr>" and s = sample_server]
    by (intro exI [of _ opts] conjI) simp_all
qed


theorem log_queries_bounded_witness:
  "\<exists>q result. parseUsageQuery (\<lambda>_. None) (\<lambda>k. if k = ''limit'' then ''5000'' else []) = Inr (q, result) \<and> qu_Limit q = 1000"
proof -
  have "Atoi ''5000'' = Some 5000" by (simp add: Atoi_def digits_val_def in_int64_def is_digit_def)
  then obtain q result where q: "parseUsageQuery (\<lambda>_. None) (\<lambda>k. if k = ''limit'' then ''5000'' else []) = Inr (q, result)" "qu_Limit q = 1000"
    by (auto simp: parseUsageQuery_def maxQueryLimit_def)
  from log_queries_bounded [OF q(1)] q show ?thesis by blast
qed

end
