(* ===== verification/Desktop.thy ===== *)
theory Desktop
  imports ControlServer
begin

text \<open>
  The desktop lifecycle of \<open>internal/desktop/desktop.go\<close>: the lease file that keeps one desktop instance per
  profile, attaching to a gateway or starting one, the tray menu and the startup entry. The lease protocol
  is given one system call at a time, so that the calls of several processes can interleave; the lock file is
  a directory entry that points to an inode, as a process keeps writing to the file it has created
  when the entry is renamed away.
\<close>

section \<open>Leases\<close>

definition OwnershipDesktopManaged :: gostring where
  "OwnershipDesktopManaged = ''desktop-managed''"

definition OwnershipExternal :: gostring where
  "OwnershipExternal = ''external''"

record Lease =
  le_PID :: int
  le_InstanceID :: gostring
  le_Address :: gostring
  le_Ownership :: gostring
  le_Profile :: gostring
  le_StartedAt :: time

definition zero_lease :: Lease where
  "zero_lease = \<lparr>le_PID = 0, le_InstanceID = [], le_Address = [], le_Ownership = [], le_Profile = [], le_StartedAt = 0\<rparr>"

text \<open>JSON text and the text of times, which has no form for years beyond 9999.\<close>

record 'c LeaseCodec =
  lc_codec :: "'c Codec"
  lc_formatTime :: "time \<Rightarrow> gostring option"
  lc_parseTime :: "gostring \<Rightarrow> time option"

definition lease_json :: "'c LeaseCodec \<Rightarrow> Lease \<Rightarrow> json option" where
  "lease_json cd l = map_option (\<lambda>t. JObj ([(''pid'', enc_int (le_PID l)), (''instanceId'', JStr (le_InstanceID l)),
     (''address'', JStr (le_Address l)), (''ownership'', JStr (le_Ownership l))] @
     omit_if (le_Profile l = []) ''profile'' (JStr (le_Profile l)) @ [(''startedAt'', JStr t)]))
     (lc_formatTime cd (le_StartedAt l))"

definition dec_time :: "(gostring \<Rightarrow> time option) \<Rightarrow> time \<Rightarrow> json \<Rightarrow> time option" where
  "dec_time parse old j = (case j of JNull \<Rightarrow> Some old | JStr s \<Rightarrow> parse s | _ \<Rightarrow> None)"

definition lease_field :: "'c LeaseCodec \<Rightarrow> gostring \<Rightarrow> json \<Rightarrow> Lease \<Rightarrow> Lease option" where
  "lease_field cd k j l =
     (case field_named [''pid'', ''instanceId'', ''address'', ''ownership'', ''profile'', ''startedAt''] k of
        None \<Rightarrow> Some l
      | Some n \<Rightarrow>
          if n = ''pid'' then map_option (\<lambda>x. l\<lparr>le_PID := x\<rparr>) (dec_int (le_PID l) j)
          else if n = ''instanceId'' then map_option (\<lambda>x. l\<lparr>le_InstanceID := x\<rparr>) (dec_string (le_InstanceID l) j)
          else if n = ''address'' then map_option (\<lambda>x. l\<lparr>le_Address := x\<rparr>) (dec_string (le_Address l) j)
          else if n = ''ownership'' then map_option (\<lambda>x. l\<lparr>le_Ownership := x\<rparr>) (dec_string (le_Ownership l) j)
          else if n = ''profile'' then map_option (\<lambda>x. l\<lparr>le_Profile := x\<rparr>) (dec_string (le_Profile l) j)
          else map_option (\<lambda>x. l\<lparr>le_StartedAt := x\<rparr>) (dec_time (lc_parseTime cd) (le_StartedAt l) j))"

definition parse_lease :: "'c LeaseCodec \<Rightarrow> 'c \<Rightarrow> Lease option" where
  "parse_lease cd c = Option.bind (jc_parse (lc_codec cd) c) (dec_struct (lease_field cd) zero_lease)"

definition print_lease :: "'c LeaseCodec \<Rightarrow> Lease \<Rightarrow> 'c option" where
  "print_lease cd l = map_option (jc_print (lc_codec cd)) (lease_json cd l)"

definition newDesktopInstanceID :: "8 word list option \<Rightarrow> time \<Rightarrow> gostring" where
  "newDesktopInstanceID random now =
     (case random of Some raw \<Rightarrow> ''desktop-'' @ hex_encode raw | None \<Rightarrow> ''desktop-'' @ Itoa now)"

definition normalizeLease :: "int \<Rightarrow> gostring \<Rightarrow> time \<Rightarrow> Lease \<Rightarrow> Lease" where
  "normalizeLease pid fresh_id now lease =
     (let l = (if le_PID lease \<le> 0 then lease\<lparr>le_PID := pid\<rparr> else lease);
          l = (if le_InstanceID l = [] then l\<lparr>le_InstanceID := fresh_id\<rparr> else l);
          l = (if le_Ownership l = [] then l\<lparr>le_Ownership := OwnershipDesktopManaged\<rparr> else l)
      in if IsZero (le_StartedAt l) then l\<lparr>le_StartedAt := now\<rparr> else l)"

section \<open>The lock file and its calls\<close>

record 'c LockFile =
  lf_at :: "nat option"
  lf_data :: "nat \<Rightarrow> 'c"
  lf_next :: nat

datatype lease_problem = LeaseMissing | LeaseUnreadable | LeaseCorrupt | LeaseInvalid

datatype lock_error =
    EmptyLockPath
  | CreateLockDir
  | MarshalLease
  | WriteLease
  | SyncLease
  | CreateLease
  | ReadLease lease_problem
  | AlreadyRunning Lease
  | LeaseChanged
  | CloseLease
  | RemoveLease

definition readLease :: "'c LeaseCodec \<Rightarrow> bool \<Rightarrow> 'c LockFile \<Rightarrow> lease_problem + Lease" where
  "readLease cd readable f =
     (case lf_at f of
        None \<Rightarrow> Inl LeaseMissing
      | Some i \<Rightarrow>
          if \<not> readable then Inl LeaseUnreadable
          else case parse_lease cd (lf_data f i) of
            None \<Rightarrow> Inl LeaseCorrupt
          | Some l \<Rightarrow> if le_PID l < 0 \<or> le_InstanceID l = [] then Inl LeaseInvalid else Inr l)"

text \<open>Where a process is in \<open>Acquire\<close> (number of the attempt, inode it created) or in \<open>Release\<close>.\<close>

datatype lock_pc =
    LCreate nat
  | LWrite nat
  | LSync nat
  | LUndo nat lock_error
  | LRead nat
  | LRename nat
  | LHeld nat
  | LFailed lock_error
  | LRelease nat
  | LRelRemove nat "lock_error option"
  | LReleased "lock_error option"

text \<open>What a call meets: its success, what is alive, what a failing write leaves, whether closing works.\<close>

record 'c LockCall =
  lk_ok :: bool
  lk_alive :: "int \<Rightarrow> bool"
  lk_partial :: 'c
  lk_close :: bool

definition unlink :: "bool \<Rightarrow> 'c LockFile \<Rightarrow> 'c LockFile" where
  "unlink ok f = (if ok then f\<lparr>lf_at := None\<rparr> else f)"

definition store_at :: "nat \<Rightarrow> 'c \<Rightarrow> 'c LockFile \<Rightarrow> 'c LockFile" where
  "store_at i c f = f\<lparr>lf_data := (lf_data f)(i := c)\<rparr>"

definition maxLockAttempts :: nat where
  "maxLockAttempts = 4"

fun lock_call :: "'c LeaseCodec \<Rightarrow> Lease \<Rightarrow> 'c LockCall \<Rightarrow> lock_pc \<Rightarrow> 'c LockFile \<Rightarrow> lock_pc \<times> 'c LockFile" where
  "lock_call cd lease c (LCreate n) f =
     (if \<not> n < maxLockAttempts then (LFailed LeaseChanged, f)
      else if \<not> lk_ok c then (LFailed CreateLease, f)
      else case lf_at f of
        Some _ \<Rightarrow> (LRead n, f)
      | None \<Rightarrow> (LWrite (lf_next f),
          store_at (lf_next f) (jc_none (lc_codec cd)) (f\<lparr>lf_at := Some (lf_next f), lf_next := Suc (lf_next f)\<rparr>)))"
| "lock_call cd lease c (LWrite i) f =
     (case print_lease cd lease of
        None \<Rightarrow> (LUndo i MarshalLease, f)
      | Some t \<Rightarrow> if lk_ok c then (LSync i, store_at i t f) else (LUndo i WriteLease, store_at i (lk_partial c) f))"
| "lock_call cd lease c (LSync i) f = (if lk_ok c then LHeld i else LUndo i SyncLease, f)"
| "lock_call cd lease c (LUndo i e) f = (LFailed e, unlink (lk_ok c) f)"
| "lock_call cd lease c (LRead n) f =
     (case readLease cd (lk_ok c) f of
        Inl p \<Rightarrow> (LFailed (ReadLease p), f)
      | Inr existing \<Rightarrow>
          if le_PID existing > 0 \<and> lk_alive c (le_PID existing) then (LFailed (AlreadyRunning existing), f) else (LRename n, f))"
| "lock_call cd lease c (LRename n) f = (LCreate (Suc n), unlink (lk_ok c) f)"
| "lock_call cd lease c (LRelease i) f =
     (let e = (if lk_close c then None else Some CloseLease)
      in case readLease cd (lk_ok c) f of
        Inr current \<Rightarrow>
          if le_PID current = le_PID lease \<and> le_InstanceID current = le_InstanceID lease then (LRelRemove i e, f)
          else (LReleased e, f)
      | Inl LeaseMissing \<Rightarrow> (LReleased e, f)
      | Inl p \<Rightarrow> (LReleased (if e = None then Some (ReadLease p) else e), f))"
| "lock_call cd lease c (LRelRemove i e) f =
     (LReleased (if \<not> lk_ok c \<and> e = None then Some RemoveLease else e), unlink (lk_ok c) f)"
| "lock_call cd lease c pc f = (pc, f)"

text \<open>A process that runs alone.\<close>

fun lock_run :: "'c LeaseCodec \<Rightarrow> Lease \<Rightarrow> 'c LockCall list \<Rightarrow> lock_pc \<Rightarrow> 'c LockFile \<Rightarrow> lock_pc \<times> 'c LockFile" where
  "lock_run cd lease [] pc f = (pc, f)"
| "lock_run cd lease (c # cs) pc f = (case lock_call cd lease c pc f of (pc, f) \<Rightarrow> lock_run cd lease cs pc f)"

section \<open>Acquire and Release (desktop.go)\<close>

record InstanceLock =
  il_Path :: gostring
  il_Lease :: Lease
  il_path :: gostring
  il_lease :: Lease
  il_acquired :: bool
  il_file :: nat

definition NewInstanceLock :: "gostring \<Rightarrow> Lease option \<Rightarrow> InstanceLock" where
  "NewInstanceLock path initial =
     (let l = (case initial of None \<Rightarrow> zero_lease | Some x \<Rightarrow> x)
      in \<lparr>il_Path = TrimSpace path, il_Lease = l, il_path = TrimSpace path, il_lease = l, il_acquired = False, il_file = 0\<rparr>)"

record LockEnv =
  lo_mkdir :: bool
  lo_pid :: int
  lo_id :: gostring
  lo_now :: time

text \<open>The steps of \<open>Acquire\<close> before its loop; the lease is the one to be written.\<close>

definition prepare_lock :: "LockEnv \<Rightarrow> Lease option \<Rightarrow> InstanceLock \<Rightarrow> (lock_error + Lease) \<times> InstanceLock" where
  "prepare_lock env initial l =
     (let l = (case initial of None \<Rightarrow> l | Some x \<Rightarrow> l\<lparr>il_Lease := x, il_lease := x\<rparr>);
          l = (if il_Path l \<noteq> [] then l\<lparr>il_path := TrimSpace (il_Path l)\<rparr> else l);
          lease = (if IsZero (le_StartedAt (il_lease l)) then (il_lease l)\<lparr>le_StartedAt := lo_now env\<rparr> else il_lease l)
      in if il_path l = [] then (Inl EmptyLockPath, l)
         else if \<not> lo_mkdir env then (Inl CreateLockDir, l)
         else (Inr (normalizeLease (lo_pid env) (lo_id env) (lo_now env) lease), l))"

text \<open>\<open>None\<close> when the given calls do not bring it to an end.\<close>

definition Acquire ::
  "'c LeaseCodec \<Rightarrow> LockEnv \<Rightarrow> 'c LockCall list \<Rightarrow> Lease option \<Rightarrow> InstanceLock \<Rightarrow> 'c LockFile \<Rightarrow>
   ((lock_error + Lease) \<times> InstanceLock \<times> 'c LockFile) option" where
  "Acquire cd env cs initial l f =
     (if il_acquired l then Some (Inr (il_lease l), l, f)
      else case prepare_lock env initial l of
        (Inl e, l) \<Rightarrow> Some (Inl e, l, f)
      | (Inr lease, l) \<Rightarrow>
          (case lock_run cd lease cs (LCreate 0) f of
             (LHeld i, f) \<Rightarrow> Some (Inr lease, l\<lparr>il_file := i, il_lease := lease, il_Lease := lease, il_acquired := True\<rparr>, f)
           | (LFailed e, f) \<Rightarrow> Some (Inl e, l, f)
           | _ \<Rightarrow> None))"

definition Release ::
  "'c LeaseCodec \<Rightarrow> 'c LockCall \<Rightarrow> 'c LockCall \<Rightarrow> InstanceLock \<Rightarrow> 'c LockFile \<Rightarrow> lock_error option \<times> InstanceLock \<times> 'c LockFile" where
  "Release cd c1 c2 l f =
     (if \<not> il_acquired l then (None, l, f)
      else case lock_run cd (il_lease l) [c1, c2] (LRelease (il_file l)) f of
        (LReleased e, f) \<Rightarrow> (e, l\<lparr>il_acquired := False, il_file := 0\<rparr>, f)
      | (_, f) \<Rightarrow> (None, l, f))"

section \<open>One process alone\<close>

fun lock_done :: "lock_pc \<Rightarrow> bool" where
  "lock_done (LHeld _) = True"
| "lock_done (LFailed _) = True"
| "lock_done (LReleased _) = True"
| "lock_done _ = False"

text \<open>The number of calls that are left at most.\<close>

fun lock_left :: "lock_pc \<Rightarrow> nat" where
  "lock_left (LCreate n) = 3 * (maxLockAttempts - n) + 4"
| "lock_left (LRead n) = 3 * (maxLockAttempts - n) + 3"
| "lock_left (LRename n) = 3 * (maxLockAttempts - n) + 2"
| "lock_left (LWrite _) = 3"
| "lock_left (LSync _) = 2"
| "lock_left (LUndo _ _) = 1"
| "lock_left (LRelease _) = 2"
| "lock_left (LRelRemove _ _) = 1"
| "lock_left _ = 0"

fun lock_pc_ok :: "lock_pc \<Rightarrow> bool" where
  "lock_pc_ok (LRead n) = (n < maxLockAttempts)"
| "lock_pc_ok (LRename n) = (n < maxLockAttempts)"
| "lock_pc_ok _ = True"

lemma lock_done_stays: "lock_done pc \<Longrightarrow> lock_run cd lease cs pc f = (pc, f)"
  by (induction cs) (cases pc; simp)+

lemma lock_call_left:
  assumes "\<not> lock_done pc" and "lock_pc_ok pc" and "lock_call cd lease c pc f = (pc', f')"
  shows "lock_left pc' < lock_left pc \<and> lock_pc_ok pc'"
  using assms
  by (cases pc) (auto simp: Let_def maxLockAttempts_def split: if_splits option.splits sum.splits lease_problem.splits)

lemma lock_run_ends:
  "lock_pc_ok pc \<Longrightarrow> lock_left pc \<le> length cs \<Longrightarrow> lock_done (fst (lock_run cd lease cs pc f))"
proof (induction cs arbitrary: pc f)
  case Nil
  then show ?case by (cases pc) (simp_all add: maxLockAttempts_def)
next
  case (Cons c cs)
  show ?case
  proof (cases "lock_done pc")
    case True
    then show ?thesis using lock_done_stays [OF True] by (metis fst_conv)
  next
    case False
    obtain pc' f' where s: "lock_call cd lease c pc f = (pc', f')" by fastforce
    from lock_call_left [OF False Cons.prems(1) s] Cons.prems(2) show ?thesis by (simp add: s Cons.IH)
  qed
qed


text \<open>A lock file may be taken over when there is none, or when one of the calls finds its owner dead.\<close>

definition takeable :: "'c LeaseCodec \<Rightarrow> 'c LockCall set \<Rightarrow> 'c LockFile \<Rightarrow> bool" where
  "takeable cd S f \<longleftrightarrow> lf_at f = None \<or>
     (\<exists>old. readLease cd True f = Inr old \<and> (\<exists>c\<in>S. \<not> (le_PID old > 0 \<and> lk_alive c (le_PID old))))"

definition busy_with :: "'c LeaseCodec \<Rightarrow> 'c LockCall set \<Rightarrow> 'c LockFile \<Rightarrow> lock_error \<Rightarrow> bool" where
  "busy_with cd S f e \<longleftrightarrow> (\<forall>ex. e = AlreadyRunning ex \<longrightarrow>
     readLease cd True f = Inr ex \<and> le_PID ex > 0 \<and> (\<exists>c\<in>S. lk_alive c (le_PID ex)))"

fun alone_ok :: "'c LeaseCodec \<Rightarrow> 'c LockCall set \<Rightarrow> Lease \<Rightarrow> 'c LockFile \<Rightarrow> lock_pc \<Rightarrow> 'c LockFile \<Rightarrow> bool" where
  "alone_ok cd S lease f0 (LCreate n) f \<longleftrightarrow> f = f0 \<or> lf_at f = None \<and> takeable cd S f0"
| "alone_ok cd S lease f0 (LRead n) f \<longleftrightarrow> f = f0"
| "alone_ok cd S lease f0 (LRename n) f \<longleftrightarrow> f = f0 \<and> takeable cd S f0"
| "alone_ok cd S lease f0 (LWrite i) f \<longleftrightarrow> lf_at f = Some i \<and> takeable cd S f0"
| "alone_ok cd S lease f0 (LSync i) f \<longleftrightarrow> lf_at f = Some i \<and> takeable cd S f0 \<and> print_lease cd lease = Some (lf_data f i)"
| "alone_ok cd S lease f0 (LHeld i) f \<longleftrightarrow> lf_at f = Some i \<and> takeable cd S f0 \<and> print_lease cd lease = Some (lf_data f i)"
| "alone_ok cd S lease f0 (LUndo i e) f \<longleftrightarrow> takeable cd S f0 \<and> (\<forall>ex. e \<noteq> AlreadyRunning ex)"
| "alone_ok cd S lease f0 (LFailed e) f \<longleftrightarrow> (if \<exists>ex. e = AlreadyRunning ex then f = f0 \<and> busy_with cd S f0 e else f = f0 \<or> takeable cd S f0)"
| "alone_ok cd S lease f0 _ f \<longleftrightarrow> False"

lemma readLease_readable: "readLease cd b f = Inr l \<Longrightarrow> readLease cd True f = Inr l"
  by (auto simp: readLease_def split: option.splits if_splits)

lemma takeable_stale:
  "readLease cd b f = Inr x \<Longrightarrow> c \<in> S \<Longrightarrow> \<not> (0 < le_PID x \<and> lk_alive c (le_PID x)) \<Longrightarrow> takeable cd S f"
  unfolding takeable_def using readLease_readable by blast

lemma alone_step:
  assumes "alone_ok cd S lease f0 pc f" and "c \<in> S" and "lock_call cd lease c pc f = (pc', f')"
  shows "alone_ok cd S lease f0 pc' f'"
proof (cases pc)
  case (LCreate n)
  with assms show ?thesis
    by (auto simp: store_at_def takeable_def split: if_splits option.splits)
next
  case (LRead n)
  with assms show ?thesis
    by (auto simp: busy_with_def intro: takeable_stale dest: readLease_readable split: if_splits sum.splits)
qed (use assms in \<open>auto simp: store_at_def unlink_def split: if_splits option.splits\<close>)

lemma alone_run:
  "alone_ok cd S lease f0 pc f \<Longrightarrow> set cs \<subseteq> S \<Longrightarrow> lock_run cd lease cs pc f = (pc', f') \<Longrightarrow>
   alone_ok cd S lease f0 pc' f'"
proof (induction cs arbitrary: pc f)
  case (Cons c cs)
  then show ?case by (auto split: prod.splits dest: alone_step)
qed simp

lemma prepare_lock_acquired: "prepare_lock env initial l = (r, l') \<Longrightarrow> il_acquired l' = il_acquired l"
  by (auto simp: prepare_lock_def Let_def split: if_splits option.splits)

text \<open>Acquiring the desktop lease comes to an end after at most sixteen system calls. A process that runs
  alone gets the lease only when there was no lease file or it read one whose owner is not alive, and the
  file then holds the new lease; when it is told that another instance runs, this is the lease in the file,
  with a live owner, and the file is as it was; any other failure leaves a live owner's file alone too.\<close>

theorem Acquire_alone:
  assumes "\<not> il_acquired l" and "16 \<le> length cs"
  shows "\<exists>r l' f'. Acquire cd env cs initial l f = Some (r, l', f') \<and> (il_acquired l' \<longleftrightarrow> \<not> isl r) \<and>
    (\<not> takeable cd (set cs) f \<longrightarrow> f' = f \<and> isl r) \<and>
    (case r of
       Inr lease \<Rightarrow> lf_at f' = Some (il_file l') \<and> print_lease cd lease = Some (lf_data f' (il_file l')) \<and> il_lease l' = lease
     | Inl e \<Rightarrow> busy_with cd (set cs) f e \<and> ((\<exists>ex. e = AlreadyRunning ex) \<longrightarrow> f' = f))"
proof (cases "prepare_lock env initial l")
  case (Pair p l1)
  note acq = prepare_lock_acquired [OF Pair]
  show ?thesis
  proof (cases p)
    case (Inl e)
    with Pair have "\<forall>ex. e \<noteq> AlreadyRunning ex" by (auto simp: prepare_lock_def Let_def split: if_splits)
    with Inl Pair acq assms(1) show ?thesis by (simp add: Acquire_def busy_with_def)
  next
    case (Inr lease)
    obtain pc f' where r: "lock_run cd lease cs (LCreate 0) f = (pc, f')" by fastforce
    from lock_run_ends [of "LCreate 0" cs cd lease f] assms(2) r have d: "lock_done pc" by (simp add: maxLockAttempts_def)
    from alone_run [OF _ subset_refl r, of f] have a: "alone_ok cd (set cs) lease f pc f'" by simp
    from a d r Inr Pair acq assms(1) show ?thesis
      by (cases pc) (auto simp: Acquire_def busy_with_def split: if_splits)
  qed
qed

section \<open>Several processes\<close>

record 'c LockWorld =
  lw_pc :: "nat \<Rightarrow> lock_pc"
  lw_file :: "'c LockFile"

text \<open>Each step is one call of one process, or a process that starts to release what it holds. \<open>good\<close>
  restricts what the calls may meet.\<close>

inductive lock_step :: "'c LeaseCodec \<Rightarrow> (nat \<Rightarrow> Lease) \<Rightarrow> ('c LockCall \<Rightarrow> bool) \<Rightarrow> 'c LockWorld \<Rightarrow> 'c LockWorld \<Rightarrow> bool"
  for cd leases good where
  call: "good c \<Longrightarrow> lock_call cd (leases p) c (lw_pc w p) (lw_file w) = (pc, f) \<Longrightarrow>
    lock_step cd leases good w (w\<lparr>lw_pc := (lw_pc w)(p := pc), lw_file := f\<rparr>)"
| release: "lw_pc w p = LHeld i \<Longrightarrow> lock_step cd leases good w (w\<lparr>lw_pc := (lw_pc w)(p := LRelease i)\<rparr>)"
| again: "lock_done (lw_pc w p) \<Longrightarrow> (\<And>j. lw_pc w p \<noteq> LHeld j) \<Longrightarrow>
    lock_step cd leases good w (w\<lparr>lw_pc := (lw_pc w)(p := LCreate 0)\<rparr>)"

inductive lock_reach :: "'c LeaseCodec \<Rightarrow> (nat \<Rightarrow> Lease) \<Rightarrow> ('c LockCall \<Rightarrow> bool) \<Rightarrow> 'c LockWorld \<Rightarrow> 'c LockWorld \<Rightarrow> bool"
  for cd leases good w0 where
  start: "lock_reach cd leases good w0 w0"
| onward: "lock_reach cd leases good w0 w \<Longrightarrow> lock_step cd leases good w w' \<Longrightarrow> lock_reach cd leases good w0 w'"


text \<open>The calls of a run in which every owner is alive, and what a failing write leaves is no other lease.\<close>

definition all_alive :: "'c LeaseCodec \<Rightarrow> (nat \<Rightarrow> Lease) \<Rightarrow> 'c LockCall \<Rightarrow> bool" where
  "all_alive cd leases c \<longleftrightarrow> (\<forall>p. lk_alive c (le_PID (leases p))) \<and> parse_lease cd (lk_partial c) = None"

definition leases_ok :: "'c LeaseCodec \<Rightarrow> (nat \<Rightarrow> Lease) \<Rightarrow> bool" where
  "leases_ok cd leases \<longleftrightarrow> parse_lease cd (jc_none (lc_codec cd)) = None \<and>
     (\<forall>p t. le_PID (leases p) > 0 \<and> (print_lease cd (leases p) = Some t \<longrightarrow> parse_lease cd t = Some (leases p)))"

fun owns :: "lock_pc \<Rightarrow> nat option" where
  "owns (LWrite i) = Some i"
| "owns (LSync i) = Some i"
| "owns (LUndo i _) = Some i"
| "owns (LHeld i) = Some i"
| "owns (LRelease i) = Some i"
| "owns (LRelRemove i _) = Some i"
| "owns _ = None"

definition lock_inv :: "'c LeaseCodec \<Rightarrow> (nat \<Rightarrow> Lease) \<Rightarrow> 'c LockWorld \<Rightarrow> bool" where
  "lock_inv cd leases w \<longleftrightarrow>
     (\<forall>p n. lw_pc w p \<noteq> LRename n) \<and>
     (\<forall>p i. owns (lw_pc w p) = Some i \<longrightarrow> lf_at (lw_file w) = Some i) \<and>
     (\<forall>p q. owns (lw_pc w p) \<noteq> None \<and> owns (lw_pc w q) \<noteq> None \<longrightarrow> p = q) \<and>
     (\<forall>i. lf_at (lw_file w) = Some i \<longrightarrow>
        (case parse_lease cd (lf_data (lw_file w) i) of None \<Rightarrow> True | Some l \<Rightarrow> l \<in> range leases))"

lemma readLease_parse:
  "readLease cd b f = Inr l \<Longrightarrow> \<exists>i. lf_at f = Some i \<and> parse_lease cd (lf_data f i) = Some l"
  by (auto simp: readLease_def split: option.splits if_splits)

definition file_ok :: "'c LeaseCodec \<Rightarrow> (nat \<Rightarrow> Lease) \<Rightarrow> 'c LockFile \<Rightarrow> bool" where
  "file_ok cd leases f \<longleftrightarrow> (\<forall>i. lf_at f = Some i \<longrightarrow>
     (case parse_lease cd (lf_data f i) of None \<Rightarrow> True | Some l \<Rightarrow> l \<in> range leases))"

text \<open>One call of a process: the other processes are seen only through whether one of them owns the file.\<close>

lemma lock_call_inv:
  assumes ok: "leases_ok cd leases" "all_alive cd leases c" "file_ok cd leases f"
    and pc: "\<And>n. pc \<noteq> LRename n" "\<And>i. owns pc = Some i \<Longrightarrow> lf_at f = Some i"
    and step: "lock_call cd (leases p) c pc f = (pc', f')"
  shows "(\<forall>n. pc' \<noteq> LRename n) \<and> (\<forall>i. owns pc' = Some i \<longrightarrow> lf_at f' = Some i) \<and> file_ok cd leases f' \<and>
    (owns pc = None \<longrightarrow> lf_at f' = lf_at f \<and> owns pc' = None \<or> lf_at f = None)"
proof (cases pc)
  case (LCreate n)
  with assms show ?thesis by (auto simp: store_at_def file_ok_def leases_ok_def split: if_splits option.splits)
next
  case (LWrite i)
  with assms show ?thesis
    by (auto simp: store_at_def file_ok_def leases_ok_def all_alive_def split: if_splits option.splits)
next
  case (LRead n)
  { fix l assume r: "readLease cd (lk_ok c) f = Inr l"
    from readLease_parse [OF r] ok(3) have "l \<in> range leases" by (auto simp: file_ok_def split: option.splits)
    with ok(1,2) have "le_PID l > 0 \<and> lk_alive c (le_PID l)" by (auto simp: leases_ok_def all_alive_def) }
  with assms LRead show ?thesis by (auto split: sum.splits if_splits)
qed (use assms in \<open>auto simp: unlink_def file_ok_def Let_def split: if_splits sum.splits lease_problem.splits\<close>)

lemma lock_inv_iff:
  "lock_inv cd leases w \<longleftrightarrow> (\<forall>p n. lw_pc w p \<noteq> LRename n) \<and>
     (\<forall>p i. owns (lw_pc w p) = Some i \<longrightarrow> lf_at (lw_file w) = Some i) \<and>
     (\<forall>p q. owns (lw_pc w p) \<noteq> None \<and> owns (lw_pc w q) \<noteq> None \<longrightarrow> p = q) \<and> file_ok cd leases (lw_file w)"
  by (simp add: lock_inv_def file_ok_def)

lemma lock_world_simps:
  "lw_pc (w\<lparr>lw_pc := a, lw_file := b\<rparr>) = a" "lw_file (w\<lparr>lw_pc := a, lw_file := b\<rparr>) = b"
  "lw_pc (w\<lparr>lw_pc := a\<rparr>) = a" "lw_file (w\<lparr>lw_pc := a\<rparr>) = lw_file w"
  by simp_all

lemma lock_inv_weaken:
  assumes "lock_inv cd leases w"
    and "\<And>q n. pcs q = lw_pc w q \<or> pcs q \<noteq> LRename n" and "\<And>q i. owns (pcs q) = Some i \<Longrightarrow> owns (lw_pc w q) = Some i"
  shows "lock_inv cd leases (w\<lparr>lw_pc := pcs\<rparr>)"
proof -
  from assms(3) have "owns (pcs q) \<noteq> None \<Longrightarrow> owns (lw_pc w q) \<noteq> None" for q by blast
  with assms show ?thesis unfolding lock_inv_iff lock_world_simps by metis
qed

lemma lock_step_inv:
  assumes "leases_ok cd leases" and "lock_step cd leases (all_alive cd leases) w w'" and "lock_inv cd leases w"
  shows "lock_inv cd leases w'"
  using assms(2)
proof cases
  case (call c p pc f)
  from assms(3) have i: "\<And>q n. lw_pc w q \<noteq> LRename n" "\<And>q i. owns (lw_pc w q) = Some i \<Longrightarrow> lf_at (lw_file w) = Some i"
    "\<And>q r. owns (lw_pc w q) \<noteq> None \<Longrightarrow> owns (lw_pc w r) \<noteq> None \<Longrightarrow> q = r" "file_ok cd leases (lw_file w)"
    by (auto simp: lock_inv_iff)
  have s: "(\<forall>n. pc \<noteq> LRename n) \<and> (\<forall>i. owns pc = Some i \<longrightarrow> lf_at f = Some i) \<and> file_ok cd leases f \<and>
    (owns (lw_pc w p) = None \<longrightarrow> lf_at f = lf_at (lw_file w) \<and> owns pc = None \<or> lf_at (lw_file w) = None)"
    by (rule lock_call_inv [OF assms(1) call(2) i(4) _ _ call(3)]) (use i in auto)
  have other: "owns pc = None \<and> lf_at f = Some j" if "owns (lw_pc w q) = Some j" "q \<noteq> p" for q j
    using s i(2) [of q] i(3) [of q p] that by auto
  have f: "file_ok cd leases f" and pc: "\<forall>n. pc \<noteq> LRename n" "\<forall>i. owns pc = Some i \<longrightarrow> lf_at f = Some i"
    using s by blast+
  let ?pc = "(lw_pc w)(p := pc)"
  have "?pc q \<noteq> LRename n" for q n using i(1) pc(1) by simp
  moreover have "lf_at f = Some j" if "owns (?pc q) = Some j" for q j
    using that pc(2) other [of q j] by (cases "q = p") simp_all
  moreover have "q = r" if ow: "owns (?pc q) \<noteq> None" "owns (?pc r) \<noteq> None" for q r
  proof (rule ccontr)
    assume "q \<noteq> r"
    then consider "q = p" "r \<noteq> p" | "q \<noteq> p" "r = p" | "q \<noteq> p" "r \<noteq> p" by blast
    then show False
    proof cases
      case 1 with ow other [of r] show ?thesis by auto
    next
      case 2 with ow other [of q] show ?thesis by auto
    next
      case 3 with ow i(3) [of q r] \<open>q \<noteq> r\<close> show ?thesis by simp
    qed
  qed
  ultimately show ?thesis unfolding call(1) lock_inv_iff using f by (simp only: lock_world_simps) blast
next
  case (release p i)
  show ?thesis unfolding release(1) by (rule lock_inv_weaken [OF assms(3)]) (simp_all add: release(2) split: if_splits)
next
  case (again p)
  show ?thesis unfolding again(1) by (rule lock_inv_weaken [OF assms(3)]) (simp_all split: if_splits)
qed

lemma lock_reach_inv:
  "lock_reach cd leases (all_alive cd leases) w0 w \<Longrightarrow> leases_ok cd leases \<Longrightarrow> lock_inv cd leases w0 \<Longrightarrow> lock_inv cd leases w"
  by (induction rule: lock_reach.induct) (auto intro: lock_step_inv)


text \<open>C18: as long as every process whose lease is found in the file is alive, at most one of the processes that
  compete for the desktop lease holds it, however their system calls interleave and fail, and the file
  is the one this process has written.\<close>

theorem lock_exclusive:
  assumes "leases_ok cd leases" and "lock_reach cd leases (all_alive cd leases) w0 w"
    and "lf_at (lw_file w0) = None" and "\<And>p. lw_pc w0 p = LCreate 0"
    and "lw_pc w p = LHeld i" and "lw_pc w q = LHeld j"
  shows "p = q \<and> lf_at (lw_file w) = Some i"
proof -
  have "lock_inv cd leases w0" using assms(3,4) by (simp add: lock_inv_def)
  from lock_reach_inv [OF assms(2,1) this] have inv: "lock_inv cd leases w" .
  then have "owns (lw_pc w p) \<noteq> None \<and> owns (lw_pc w q) \<noteq> None \<longrightarrow> p = q" unfolding lock_inv_def by blast
  moreover from inv have "owns (lw_pc w p) = Some i \<longrightarrow> lf_at (lw_file w) = Some i" unfolding lock_inv_def by blast
  ultimately show ?thesis using assms(5,6) by simp
qed

section \<open>Reading a lease back\<close>

lemma lease_field_names:
  "field_named [''pid'', ''instanceId'', ''address'', ''ownership'', ''profile'', ''startedAt''] ''pid'' = Some ''pid''"
  "field_named [''pid'', ''instanceId'', ''address'', ''ownership'', ''profile'', ''startedAt''] ''instanceId'' = Some ''instanceId''"
  "field_named [''pid'', ''instanceId'', ''address'', ''ownership'', ''profile'', ''startedAt''] ''address'' = Some ''address''"
  "field_named [''pid'', ''instanceId'', ''address'', ''ownership'', ''profile'', ''startedAt''] ''ownership'' = Some ''ownership''"
  "field_named [''pid'', ''instanceId'', ''address'', ''ownership'', ''profile'', ''startedAt''] ''profile'' = Some ''profile''"
  "field_named [''pid'', ''instanceId'', ''address'', ''ownership'', ''profile'', ''startedAt''] ''startedAt'' = Some ''startedAt''"
  by code_simp+

lemma parse_print_lease:
  assumes "codec_ok (lc_codec cd)" and "lc_formatTime cd (le_StartedAt l) = Some t" and "lc_parseTime cd t = Some (le_StartedAt l)"
    and "le_PID l \<in> {- (2 ^ 63) ..< 2 ^ 63}"
  shows "Option.bind (print_lease cd l) (parse_lease cd) = Some l"
  using assms
  by (simp add: print_lease_def parse_lease_def lease_json_def codec_ok_def dec_struct_def lease_field_def lease_field_names
      omit_if_def dec_time_def zero_lease_def)

section \<open>What stale leases allow\<close>

definition lease_codec :: "json LeaseCodec" where
  "lease_codec = \<lparr>lc_codec = \<lparr>jc_print = \<lambda>j. j, jc_parse = Some, jc_size = \<lambda>_. 0, jc_none = JBool False\<rparr>,
     lc_formatTime = \<lambda>t. Some [], lc_parseTime = \<lambda>_. Some 1\<rparr>"

definition sample_lease :: "int \<Rightarrow> Lease" where
  "sample_lease pid = \<lparr>le_PID = pid, le_InstanceID = ''desktop'', le_Address = [], le_Ownership = OwnershipDesktopManaged,
     le_Profile = [], le_StartedAt = 1\<rparr>"

definition two_alive :: "json LockCall" where
  "two_alive = \<lparr>lk_ok = True, lk_alive = \<lambda>pid. pid = 100 \<or> pid = 101, lk_partial = JBool False, lk_close = True\<rparr>"

definition two_leases :: "nat \<Rightarrow> Lease" where
  "two_leases p = sample_lease (if p = 0 then 100 else 101)"

lemma sample_lease_text:
  "pid \<in> {0 ..< 2 ^ 63} \<Longrightarrow> \<exists>t. print_lease lease_codec (sample_lease pid) = Some t \<and> parse_lease lease_codec t = Some (sample_lease pid)"
  using parse_print_lease [of lease_codec "sample_lease pid" "[]"]
  by (auto simp: lease_codec_def codec_ok_def sample_lease_def bind_eq_Some_conv)

lemma two_leases_ok: "leases_ok lease_codec two_leases" "all_alive lease_codec two_leases two_alive"
proof -
  have "parse_lease lease_codec (JBool False) = None" by (simp add: parse_lease_def lease_codec_def dec_struct_def)
  then show "leases_ok lease_codec two_leases" "all_alive lease_codec two_leases two_alive"
    using sample_lease_text [of 100] sample_lease_text [of 101]
    by (auto simp: leases_ok_def all_alive_def two_alive_def two_leases_def lease_codec_def sample_lease_def)
qed

text \<open>A given order of calls, all of them succeeding.\<close>

fun schedule :: "nat list \<Rightarrow> json LockWorld \<Rightarrow> json LockWorld" where
  "schedule [] w = w"
| "schedule (p # ps) w =
     (case lock_call lease_codec (two_leases p) two_alive (lw_pc w p) (lw_file w) of
        (pc, f) \<Rightarrow> schedule ps (w\<lparr>lw_pc := (lw_pc w)(p := pc), lw_file := f\<rparr>))"

lemma schedule_reach:
  "lock_reach lease_codec two_leases (all_alive lease_codec two_leases) w0 w \<Longrightarrow>
   lock_reach lease_codec two_leases (all_alive lease_codec two_leases) w0 (schedule ps w)"
proof (induction ps arbitrary: w)
  case (Cons p ps)
  obtain pc f where c: "lock_call lease_codec (two_leases p) two_alive (lw_pc w p) (lw_file w) = (pc, f)" by fastforce
  from Cons.IH [OF lock_reach.onward [OF Cons.prems lock_step.call [where p = p and w = w and good = "all_alive lease_codec two_leases" and leases = two_leases, OF two_leases_ok(2) c]]] c show ?case by simp
qed simp

definition lock_start :: "nat option \<Rightarrow> json \<Rightarrow> json LockWorld" where
  "lock_start at' content = \<lparr>lw_pc = \<lambda>_. LCreate 0, lw_file = \<lparr>lf_at = at', lf_data = \<lambda>_. content, lf_next = 1\<rparr>\<rparr>"

text \<open>When the file holds the lease of a dead process, two processes that have both read it can both end up
  with the lease: the second one renames away the lease that the first one has just written.\<close>

lemma stale_recovery_race:
  assumes "print_lease lease_codec (sample_lease 7) = Some t"
  shows "\<exists>w. lock_reach lease_codec two_leases (all_alive lease_codec two_leases) (lock_start (Some 0) t) w \<and>
    lw_pc w 0 = LHeld 1 \<and> lw_pc w 1 = LHeld 2"
proof -
  let ?w = "schedule [0, 0, 1, 1, 0, 0, 0, 0, 1, 1, 1, 1] (lock_start (Some 0) t)"
  have t: "parse_lease lease_codec t = Some (sample_lease 7)" using sample_lease_text [of 7] assms by auto
  obtain t0 t1 where p: "print_lease lease_codec (sample_lease 100) = Some t0" "print_lease lease_codec (sample_lease 101) = Some t1"
    using sample_lease_text [of 100] sample_lease_text [of 101] by auto
  have "lw_pc ?w 0 = LHeld 1 \<and> lw_pc ?w 1 = LHeld 2"
    by (simp add: lock_start_def maxLockAttempts_def two_alive_def readLease_def t sample_lease_def [of 7] unlink_def two_leases_def p store_at_def)
  then show ?thesis using schedule_reach [OF lock_reach.start] by blast
qed

theorem lock_exclusive_witness:
  "\<exists>w. lock_reach lease_codec two_leases (all_alive lease_codec two_leases) (lock_start None JNull) w \<and>
    lw_pc w 0 = LHeld 1 \<and> (\<forall>q. lw_pc w q = LHeld 1 \<longrightarrow> 0 = q \<and> lf_at (lw_file w) = Some 1)"
proof -
  let ?w = "schedule [0, 1, 0, 1, 0] (lock_start None JNull)"
  obtain t0 t1 where p: "print_lease lease_codec (sample_lease 100) = Some t0" "print_lease lease_codec (sample_lease 101) = Some t1"
    using sample_lease_text [of 100] sample_lease_text [of 101] by auto
  have "parse_lease lease_codec (JBool False) = None" by (simp add: parse_lease_def lease_codec_def dec_struct_def)
  then have h: "lw_pc ?w 0 = LHeld 1"
    by (simp add: lock_start_def maxLockAttempts_def two_alive_def readLease_def unlink_def two_leases_def p store_at_def split: sum.split option.split)
  have r: "lock_reach lease_codec two_leases (all_alive lease_codec two_leases) (lock_start None JNull) ?w"
    by (rule schedule_reach [OF lock_reach.start])
  have "0 = q \<and> lf_at (lw_file ?w) = Some 1" if "lw_pc ?w q = LHeld 1" for q
    by (rule lock_exclusive [OF two_leases_ok(1) r _ _ h that]) (simp_all add: lock_start_def)
  with r h show ?thesis by blast
qed

theorem Acquire_alone_witness:
  "\<exists>r l' f'. Acquire lease_codec \<lparr>lo_mkdir = True, lo_pid = 100, lo_id = ''desktop'', lo_now = 1\<rparr> (replicate 16 two_alive) None
     (NewInstanceLock ''lock'' None) \<lparr>lf_at = None, lf_data = \<lambda>_. JNull, lf_next = 0\<rparr> = Some (r, l', f')"
  using Acquire_alone [where l = "NewInstanceLock ''lock'' None" and cs = "replicate 16 two_alive" and cd = lease_codec
      and env = "\<lparr>lo_mkdir = True, lo_pid = 100, lo_id = ''desktop'', lo_now = 1\<rparr>" and initial = None
      and f = "\<lparr>lf_at = None, lf_data = \<lambda>_. JNull, lf_next = 0\<rparr>"]
  by (auto simp: NewInstanceLock_def)


section \<open>Releasing\<close>

text \<open>Releasing removes the file only when it holds the lease of this very lock, by process and instance.\<close>

lemma Release_own:
  assumes "Release cd c1 c2 l f = (e, l', f')"
  shows "(f' = f \<or> (\<exists>current. readLease cd True f = Inr current \<and> le_PID current = le_PID (il_lease l) \<and>
      le_InstanceID current = le_InstanceID (il_lease l) \<and> f' = f\<lparr>lf_at := None\<rparr>)) \<and> \<not> il_acquired l'"
proof (cases "il_acquired l")
  case True
  show ?thesis
  proof (cases "readLease cd (lk_ok c1) f")
    case (Inl p)
    with assms True show ?thesis by (cases p) (auto simp: Release_def Let_def)
  next
    case (Inr current)
    note r = readLease_readable [OF this]
    show ?thesis
    proof (cases "le_PID current = le_PID (il_lease l) \<and> le_InstanceID current = le_InstanceID (il_lease l)")
      case True
      with assms Inr \<open>il_acquired l\<close> r show ?thesis by (auto simp: Release_def Let_def unlink_def)
    next
      case False
      with assms Inr \<open>il_acquired l\<close> show ?thesis by (auto simp: Release_def Let_def)
    qed
  qed
qed (use assms in \<open>simp add: Release_def\<close>)

text \<open>Releasing a second time does nothing.\<close>

lemma Release_twice:
  "Release cd c1 c2 l f = (e, l', f') \<Longrightarrow> Release cd c3 c4 l' f'' = (None, l', f'')"
  using Release_own [of cd c1 c2 l f e l' f'] by (simp add: Release_def)

section \<open>Attaching to a gateway or starting one (desktop.go)\<close>

text \<open>What a probe of the control API can say; an HTTP error keeps its status.\<close>

datatype probe_error = ProbeHTTP int gostring | ProbeFailed goerr

datatype attach_error =
    AddressRequired
  | GatewayUnauthorized probe_error
  | GatewayUnavailable probe_error
  | StartFailed goerr
  | ProcessNil
  | NotReady probe_error
  | VersionMismatch gostring gostring StatusResponse

text \<open>A started process is named by a number; what happens to processes is kept as a list of events.\<close>

datatype process_event = Started nat | Stopped nat

datatype start_result = StartError goerr | NoProcess | Process nat

record GatewayConnector =
  gx_Address :: gostring
  gx_APIVersion :: gostring
  gx_Starter :: "start_result option"

record GatewayConnection =
  gc_Status :: StatusResponse
  gc_Address :: gostring
  gc_Ownership :: gostring
  gc_Process :: "nat option"
  gc_closed :: bool
  gc_closeErr :: "goerr option"

definition expectedAPIVersion :: "GatewayConnector \<Rightarrow> gostring" where
  "expectedAPIVersion c = (if TrimSpace (gx_APIVersion c) = [] then ''1'' else gx_APIVersion c)"

definition externalConnection ::
  "GatewayConnector \<Rightarrow> gostring \<Rightarrow> StatusResponse \<Rightarrow> attach_error + GatewayConnection" where
  "externalConnection c address status =
     (if \<not> CompatibleAPIMajor (expectedAPIVersion c) (sr_APIVersion status)
      then Inl (VersionMismatch (expectedAPIVersion c) (sr_APIVersion status) status)
      else Inr \<lparr>gc_Status = status, gc_Address = address, gc_Ownership = OwnershipExternal, gc_Process = None,
        gc_closed = False, gc_closeErr = None\<rparr>)"

text \<open>One turn of the polling loop: the answer of the probe, and whether the context ends before the next tick.
  \<open>None\<close>: the given turns do not bring it to an end.\<close>

fun waitForStatus :: "((probe_error + StatusResponse) \<times> bool) list \<Rightarrow> (probe_error + StatusResponse) option" where
  "waitForStatus [] = None"
| "waitForStatus ((Inr status, _) # turns) = Some (Inr status)"
| "waitForStatus ((Inl e, done') # turns) = (if done' then Some (Inl e) else waitForStatus turns)"

definition AttachOrStart ::
  "GatewayConnector \<Rightarrow> gostring \<Rightarrow> probe_error + StatusResponse \<Rightarrow> ((probe_error + StatusResponse) \<times> bool) list \<Rightarrow>
   ((attach_error + GatewayConnection) \<times> process_event list) option" where
  "AttachOrStart c addr first turns =
     (let address = (if TrimSpace addr = [] then TrimSpace (gx_Address c) else TrimSpace addr)
      in if address = [] then Some (Inl AddressRequired, [])
         else case first of
           Inr status \<Rightarrow> Some (externalConnection c address status, [])
         | Inl e \<Rightarrow>
             if (\<exists>s\<in>{401, 403}. \<exists>b. e = ProbeHTTP s b) then Some (Inl (GatewayUnauthorized e), [])
             else (case gx_Starter c of
                 None \<Rightarrow> Some (Inl (GatewayUnavailable e), [])
               | Some (StartError se) \<Rightarrow> Some (Inl (StartFailed se), [])
               | Some NoProcess \<Rightarrow> Some (Inl ProcessNil, [])
               | Some (Process p) \<Rightarrow>
                   (case waitForStatus turns of
                      None \<Rightarrow> None
                    | Some (Inl e) \<Rightarrow> Some (Inl (NotReady e), [Started p, Stopped p])
                    | Some (Inr status) \<Rightarrow>
                        if \<not> CompatibleAPIMajor (expectedAPIVersion c) (sr_APIVersion status)
                        then Some (Inl (VersionMismatch (expectedAPIVersion c) (sr_APIVersion status) status), [Started p, Stopped p])
                        else Some (Inr \<lparr>gc_Status = status, gc_Address = address, gc_Ownership = OwnershipDesktopManaged,
                          gc_Process = Some p, gc_closed = False, gc_closeErr = None\<rparr>, [Started p]))))"

text \<open>\<open>stop\<close> is what stopping a process answers.\<close>

definition connection_Stop ::
  "(nat \<Rightarrow> goerr option) \<Rightarrow> GatewayConnection \<Rightarrow> goerr option \<times> GatewayConnection \<times> process_event list" where
  "connection_Stop stop c =
     (if gc_closed c then (gc_closeErr c, c, [])
      else case gc_Process c of
        Some p \<Rightarrow>
          if gc_Ownership c = OwnershipDesktopManaged
          then (stop p, c\<lparr>gc_closed := True, gc_closeErr := stop p\<rparr>, [Stopped p])
          else (gc_closeErr c, c\<lparr>gc_closed := True\<rparr>, [])
      | None \<Rightarrow> (gc_closeErr c, c\<lparr>gc_closed := True\<rparr>, []))"

text \<open>Stopping again and again.\<close>

fun stop_times :: "(nat \<Rightarrow> goerr option) \<Rightarrow> nat \<Rightarrow> GatewayConnection \<Rightarrow> process_event list" where
  "stop_times stop 0 c = []"
| "stop_times stop (Suc n) c = (case connection_Stop stop c of (_, c, evs) \<Rightarrow> evs @ stop_times stop n c)"

lemma stop_times_closed: "gc_closed c \<Longrightarrow> stop_times stop n c = []"
  by (induction n) (simp_all add: connection_Stop_def)

lemma stop_times_open:
  "\<not> gc_closed c \<Longrightarrow> stop_times stop (Suc n) c =
    (case gc_Process c of Some p \<Rightarrow> if gc_Ownership c = OwnershipDesktopManaged then [Stopped p] else [] | None \<Rightarrow> [])"
  by (simp add: connection_Stop_def stop_times_closed split: option.split)

text \<open>C16: a desktop never stops a gateway it has not started and never leaves one behind: when attaching
  or starting fails, a process that was started has been stopped, exactly once; when it succeeds the gateway
  speaks a compatible version, and either it answered the first probe, nothing was started and
  stopping the connection stops nothing, or it is the process that was started, and stopping the connection,
  once or more, stops it exactly once. When the first probe is answered 401 or 403 nothing is started and
  the refusal is what attaching reports (unless there is no address at all).\<close>

theorem attach_lifecycle:
  assumes "AttachOrStart c addr first turns = Some (r, evs)"
  shows "(case r of
      Inl e \<Rightarrow> evs = [] \<or> (\<exists>p. evs = [Started p, Stopped p] \<and> \<not> (\<exists>pe. e = GatewayUnauthorized pe))
    | Inr conn \<Rightarrow>
        CompatibleAPIMajor (expectedAPIVersion c) (sr_APIVersion (gc_Status conn)) \<and>
        (gc_Ownership conn = OwnershipExternal \<and> first = Inr (gc_Status conn) \<and> evs = [] \<and> (\<forall>n. stop_times stop n conn = []) \<or>
         gc_Ownership conn = OwnershipDesktopManaged \<and> \<not> (\<exists>s. first = Inr s) \<and>
         (\<exists>p. evs = [Started p] \<and> (\<forall>n. stop_times stop n conn = (if n = 0 then [] else [Stopped p]))))) \<and>
    (\<forall>code body. first = Inl (ProbeHTTP code body) \<and> (code = 401 \<or> code = 403) \<longrightarrow>
       evs = [] \<and> (r = Inl (GatewayUnauthorized (ProbeHTTP code body)) \<or> r = Inl AddressRequired))"
proof
  have ne: "OwnershipExternal \<noteq> OwnershipDesktopManaged" by (simp add: OwnershipExternal_def OwnershipDesktopManaged_def)
  have st: "stop_times stop n conn = (if n = 0 then [] else
      case gc_Process conn of Some p \<Rightarrow> if gc_Ownership conn = OwnershipDesktopManaged then [Stopped p] else [] | None \<Rightarrow> [])"
    if "\<not> gc_closed conn" for n conn using that by (cases n) (simp_all add: stop_times_open del: stop_times.simps(2))
  from assms show "case r of
      Inl e \<Rightarrow> evs = [] \<or> (\<exists>p. evs = [Started p, Stopped p] \<and> \<not> (\<exists>pe. e = GatewayUnauthorized pe))
    | Inr conn \<Rightarrow>
        CompatibleAPIMajor (expectedAPIVersion c) (sr_APIVersion (gc_Status conn)) \<and>
        (gc_Ownership conn = OwnershipExternal \<and> first = Inr (gc_Status conn) \<and> evs = [] \<and> (\<forall>n. stop_times stop n conn = []) \<or>
         gc_Ownership conn = OwnershipDesktopManaged \<and> \<not> (\<exists>s. first = Inr s) \<and>
         (\<exists>p. evs = [Started p] \<and> (\<forall>n. stop_times stop n conn = (if n = 0 then [] else [Stopped p]))))"
    by (auto simp: AttachOrStart_def externalConnection_def Let_def st ne
        split: if_splits sum.splits option.splits start_result.splits)
  show "\<forall>code body. first = Inl (ProbeHTTP code body) \<and> (code = 401 \<or> code = 403) \<longrightarrow>
       evs = [] \<and> (r = Inl (GatewayUnauthorized (ProbeHTTP code body)) \<or> r = Inl AddressRequired)"
    using assms by (auto simp: AttachOrStart_def Let_def split: if_splits)
qed

lemma waitForStatus_ready:
  "k < length turns \<Longrightarrow> fst (turns ! k) = Inr status \<Longrightarrow> (\<And>i. i < k \<Longrightarrow> isl (fst (turns ! i)) \<and> \<not> snd (turns ! i)) \<Longrightarrow>
   waitForStatus turns = Some (Inr status)"
proof (induction turns arbitrary: k)
  case (Cons t turns)
  show ?case
  proof (cases k)
    case 0
    with Cons.prems(2) show ?thesis by (cases t) simp
  next
    case (Suc m)
    with Cons.prems(3) [of 0] obtain e where "t = (Inl e, False)" by (cases t) (auto simp: isl_def)
    moreover have "waitForStatus turns = Some (Inr status)"
      using Cons.IH [of m] Cons.prems(1,2) Cons.prems(3) [of "Suc _"] Suc by simp
    ultimately show ?thesis by simp
  qed
qed simp

lemma waitForStatus_ends:
  "k < length turns \<Longrightarrow> snd (turns ! k) \<Longrightarrow> \<exists>r. waitForStatus turns = Some r"
proof (induction turns arbitrary: k)
  case (Cons t turns)
  then show ?case by (cases t; cases "fst t"; cases k) auto
qed simp

text \<open>C19: a gateway that comes up is reached: when nothing answers at first, a process can be started and one
  of the later probes gets a status of a compatible version before the context ends, the desktop
  ends up connected to the process it has started; and when the context ends first, attaching ends as well.\<close>

theorem attach_eventually:
  assumes "TrimSpace addr \<noteq> []" and "gx_Starter c = Some (Process p)" and "first = Inl (ProbeFailed e)"
    and "k < length turns"
  shows "(fst (turns ! k) = Inr status \<and> CompatibleAPIMajor (expectedAPIVersion c) (sr_APIVersion status) \<and>
      (\<forall>i<k. isl (fst (turns ! i)) \<and> \<not> snd (turns ! i)) \<longrightarrow>
      (\<exists>conn. AttachOrStart c addr first turns = Some (Inr conn, [Started p]) \<and> gc_Status conn = status \<and>
        gc_Process conn = Some p \<and> gc_Address conn = TrimSpace addr)) \<and>
    (snd (turns ! k) \<longrightarrow> AttachOrStart c addr first turns \<noteq> None)"
proof (intro conjI impI)
  assume "fst (turns ! k) = Inr status \<and> CompatibleAPIMajor (expectedAPIVersion c) (sr_APIVersion status) \<and>
      (\<forall>i<k. isl (fst (turns ! i)) \<and> \<not> snd (turns ! i))"
  with waitForStatus_ready [OF assms(4)] assms(1-3) show "\<exists>conn. AttachOrStart c addr first turns = Some (Inr conn, [Started p]) \<and>
      gc_Status conn = status \<and> gc_Process conn = Some p \<and> gc_Address conn = TrimSpace addr"
    by (simp add: AttachOrStart_def)
next
  assume "snd (turns ! k)"
  from waitForStatus_ends [OF assms(4) this] assms(1-3) show "AttachOrStart c addr first turns \<noteq> None"
    by (auto simp: AttachOrStart_def split: sum.splits)
qed


section \<open>The started process (desktop.go)\<close>

definition CommandStarter_Start :: "gostring \<Rightarrow> goerr option \<Rightarrow> goerr + nat \<Rightarrow> start_result" where
  "CommandStarter_Start binary ctxErr started =
     (if TrimSpace binary = [] then StartError (PlainError ''gateway binary must not be empty'')
      else case ctxErr of
        Some e \<Rightarrow> StartError e
      | None \<Rightarrow> (case started of Inl e \<Rightarrow> StartError e | Inr p \<Rightarrow> Process p))"

text \<open>What the system answers to the signal and to waiting for the end; \<open>ProcessDone\<close> is \<open>os.ErrProcessDone\<close>.\<close>

datatype process_answer = ProcessOk | ProcessDone | ProcessErr goerr

record CommandProcess =
  cp_once :: bool
  cp_err :: "goerr option"

definition commandProcess_Stop :: "process_answer \<Rightarrow> process_answer \<Rightarrow> CommandProcess \<Rightarrow> goerr option \<times> CommandProcess" where
  "commandProcess_Stop kill wait p =
     (if cp_once p then (cp_err p, p)
      else let e = (case kill of
            ProcessErr e \<Rightarrow> Some e
          | _ \<Rightarrow> (case wait of ProcessErr e \<Rightarrow> Some e | _ \<Rightarrow> None))
        in (e, p\<lparr>cp_once := True, cp_err := e\<rparr>))"

text \<open>Waiting for a killed process reports the signal as an error, and so does \<open>Stop\<close>, now and ever after.\<close>

lemma killed_process_reports:
  "commandProcess_Stop ProcessOk (ProcessErr e) \<lparr>cp_once = False, cp_err = None\<rparr> = (Some e, p) \<Longrightarrow>
   commandProcess_Stop kill wait p = (Some e, p)"
  by (auto simp: commandProcess_Stop_def Let_def)

section \<open>The tray (desktop.go)\<close>

record ProviderMenuEntry =
  me_ID :: gostring
  me_Label :: gostring
  me_Models :: nat
  me_Routes :: nat
  me_Enabled :: bool

record TraySnapshot =
  ts_Tooltip :: gostring
  ts_APIVersion :: gostring
  ts_BuildVersion :: gostring
  ts_InstanceID :: gostring
  ts_Ownership :: gostring
  ts_Address :: gostring
  ts_Ready :: bool
  ts_Providers :: "ProviderMenuEntry list"
  ts_ProviderMenu :: "ProviderMenuEntry list"

definition menu_entry :: "ControlProvider \<Rightarrow> ProviderMenuEntry" where
  "menu_entry p = \<lparr>me_ID = vp_ID p,
     me_Label = vp_ID p @ '' ('' @ Itoa (int (vp_Models p)) @ '' models, '' @ Itoa (int (vp_Routes p)) @ '' routes)'' @
       (if vp_Enabled p then [] else '' [disabled]''),
     me_Models = vp_Models p, me_Routes = vp_Routes p, me_Enabled = vp_Enabled p\<rparr>"

text \<open>The entries have different ids, so that it does not matter that \<open>sort.Slice\<close> is not stable.\<close>

definition BuildProviderMenu :: "ControlProvider list \<Rightarrow> ProviderMenuEntry list" where
  "BuildProviderMenu providers = sort_key me_ID (map menu_entry providers)"

definition Tooltip :: "StatusResponse \<Rightarrow> gostring \<Rightarrow> gostring" where
  "Tooltip status ownership = ''Free-Model-Router | API '' @ sr_APIVersion status @ '' | build '' @ sr_BuildVersion status @
     '' | instance '' @ sr_InstanceID status @ '' | ownership '' @ ownership"

definition BuildTraySnapshot :: "StatusResponse \<Rightarrow> ControlProvider list \<Rightarrow> gostring \<Rightarrow> gostring list \<Rightarrow> TraySnapshot" where
  "BuildTraySnapshot status providers ownership addresses =
     (let menu = BuildProviderMenu providers; build = TrimSpace (sr_BuildVersion status)
      in \<lparr>ts_Tooltip = Tooltip status (if ownership = [] then OwnershipExternal else ownership),
          ts_APIVersion = sr_APIVersion status, ts_BuildVersion = (if build = [] then ''unknown'' else build),
          ts_InstanceID = sr_InstanceID status, ts_Ownership = ownership,
          ts_Address = (case addresses of [] \<Rightarrow> [] | a # _ \<Rightarrow> a), ts_Ready = (sr_InstanceID status \<noteq> []),
          ts_Providers = menu, ts_ProviderMenu = menu\<rparr>)"

text \<open>The menu depends on the set of providers only.\<close>

lemma menu_order_irrelevant:
  assumes "mset ps = mset qs" and "distinct (map vp_ID ps)"
  shows "BuildProviderMenu ps = BuildProviderMenu qs"
proof -
  have d: "inj_on me_ID (set (map menu_entry ps))"
    using assms(2) by (auto simp: distinct_map inj_on_def menu_entry_def)
  have "mset (map menu_entry ps) = mset (map menu_entry qs)" using assms(1) by simp
  from properties_for_sort_key [of "sort_key me_ID (map menu_entry ps)" "map menu_entry qs" me_ID] this d show ?thesis
    unfolding BuildProviderMenu_def
    by (metis (mono_tags, lifting) mset_sort sorted_sort_key set_sort sort_key_inj_key_eq)
qed

section \<open>The startup entry (desktop.go)\<close>

record FileAutostart =
  fa_Path :: gostring
  fa_Command :: gostring

datatype autostart_error =
    PathRequired
  | PathCommandRequired
  | CheckAutostart
  | CreateAutostartDir
  | WriteAutostart gostring
  | RemoveAutostart
  | NameEmpty
  | NoBaseDir goerr

definition NewFileAutostart :: "gostring \<Rightarrow> gostring \<Rightarrow> FileAutostart" where
  "NewFileAutostart path command = \<lparr>fa_Path = TrimSpace path, fa_Command = TrimSpace command\<rparr>"

definition autostart_Enabled :: "bool \<Rightarrow> FileAutostart option \<Rightarrow> gostring fs \<Rightarrow> autostart_error + bool" where
  "autostart_Enabled readable a f =
     (case a of
        None \<Rightarrow> Inr False
      | Some a \<Rightarrow>
          (let path = TrimSpace (fa_Path a)
           in if path = [] then Inl PathRequired
              else if \<not> readable then Inl CheckAutostart
              else Inr (f path \<noteq> None)))"

text \<open>The outcomes of the system calls of \<open>atomicWrite\<close> and the name of its temporary file.\<close>

record AutostartEnv =
  ae_mkdir :: bool
  ae_create :: bool
  ae_tmpName :: gostring
  ae_chmod :: bool
  ae_write :: bool
  ae_partial :: gostring
  ae_sync :: bool
  ae_close :: bool
  ae_rename1 :: bool
  ae_remove :: bool
  ae_rename2 :: bool
  ae_cleanup :: bool

definition atomicWrite :: "AutostartEnv \<Rightarrow> gostring \<Rightarrow> gostring \<Rightarrow> gostring fs \<Rightarrow> gostring option \<times> gostring fs" where
  "atomicWrite env path data f =
     (if \<not> ae_create env then (Some ''create'', f)
      else let tmp = ae_tmpName env; cleanup = (\<lambda>(e, f). (e, os_Remove (ae_cleanup env) tmp f)); f0 = f(tmp \<mapsto> []); f1 = f(tmp \<mapsto> data)
        in cleanup
          (if \<not> ae_chmod env then (Some ''chmod'', f0)
           else if \<not> ae_write env then (Some ''write'', f(tmp \<mapsto> ae_partial env))
           else if \<not> ae_sync env then (Some ''sync'', f1)
           else if \<not> ae_close env then (Some ''close'', f1)
           else case os_Rename (ae_rename1 env) tmp path f1 of
             (None, f2) \<Rightarrow> (None, f2)
           | (Some _, f2) \<Rightarrow>
               if f2 path \<noteq> None \<and> \<not> ae_remove env then (Some ''remove'', f2)
               else (case os_Rename (ae_rename2 env) tmp path (os_Remove True path f2) of
                  (None, f3) \<Rightarrow> (None, f3) | (Some _, f3) \<Rightarrow> (Some ''rename'', f3))))"

definition startup_script :: "gostring \<Rightarrow> gostring" where
  "startup_script command = ''@echo off'' @ [CHR 0x0D, CHR 0x0A] @ ''start '' @ [CHR 0x22, CHR 0x22] @ '' '' @ command @ [CHR 0x0D, CHR 0x0A]"

definition autostart_Enable :: "AutostartEnv \<Rightarrow> FileAutostart option \<Rightarrow> gostring fs \<Rightarrow> autostart_error option \<times> gostring fs" where
  "autostart_Enable env a f =
     (case a of
        None \<Rightarrow> (Some PathCommandRequired, f)
      | Some a \<Rightarrow>
          if fa_Path a = [] \<or> fa_Command a = [] then (Some PathCommandRequired, f)
          else if \<not> ae_mkdir env then (Some CreateAutostartDir, f)
          else case atomicWrite env (fa_Path a) (startup_script (fa_Command a)) f of
            (Some e, f) \<Rightarrow> (Some (WriteAutostart e), f)
          | (None, f) \<Rightarrow> (None, f))"

definition autostart_Disable :: "bool \<Rightarrow> FileAutostart option \<Rightarrow> gostring fs \<Rightarrow> autostart_error option \<times> gostring fs" where
  "autostart_Disable removable a f =
     (case a of
        None \<Rightarrow> (None, f)
      | Some a \<Rightarrow>
          if fa_Path a = [] then (None, f)
          else if f (fa_Path a) \<noteq> None \<and> \<not> removable then (Some RemoveAutostart, f)
          else (None, os_Remove True (fa_Path a) f))"

definition DefaultAutostart ::
  "path_join \<Rightarrow> bool \<Rightarrow> gostring \<Rightarrow> goerr + gostring \<Rightarrow> gostring \<Rightarrow> gostring \<Rightarrow> autostart_error + FileAutostart" where
  "DefaultAutostart join windows appdata userConfigDir name command =
     (if TrimSpace name = [] then Inl NameEmpty
      else if windows \<and> appdata = [] then Inl (NoBaseDir (PlainError ''APPDATA is not set''))
      else case (if windows then Inr (join [appdata, ''Microsoft'', ''Windows'', ''Start Menu'', ''Programs'', ''Startup''])
          else map_sum id (\<lambda>base. join [base, ''fmr'', ''autostart'']) userConfigDir) of
        Inl e \<Rightarrow> Inl (NoBaseDir e)
      | Inr base \<Rightarrow> Inr (NewFileAutostart (join [base, TrimSpace name @ ''.cmd'']) command))"

lemma atomicWrite_ok:
  assumes "atomicWrite env path data f = (None, f')" and "ae_tmpName env \<noteq> path"
  shows "f' path = Some data" and "q \<notin> {path, ae_tmpName env} \<Longrightarrow> f' q = f q"
  using assms by (auto simp: atomicWrite_def Let_def os_Rename_def os_Remove_def split: if_splits option.splits)

text \<open>The startup entry is what was enabled: after \<open>Enable\<close> succeeded the script with the command is in place
  and the entry counts as enabled; after \<open>Disable\<close> succeeded it does not; no other file but the temporary
  one is touched.\<close>

theorem autostart_spec:
  assumes "autostart_Enable env (Some a) f = (None, f1)" and "ae_tmpName env \<noteq> fa_Path a" and "TrimSpace (fa_Path a) = fa_Path a"
  shows "f1 (fa_Path a) = Some (startup_script (fa_Command a)) \<and> autostart_Enabled True (Some a) f1 = Inr True \<and>
    (\<forall>q. q \<notin> {fa_Path a, ae_tmpName env} \<longrightarrow> f1 q = f q) \<and>
    (autostart_Disable b (Some a) f1 = (None, f2) \<longrightarrow> autostart_Enabled True (Some a) f2 = Inr False)"
proof -
  from assms(1) have w: "atomicWrite env (fa_Path a) (startup_script (fa_Command a)) f = (None, f1)" and p: "fa_Path a \<noteq> []"
    by (auto simp: autostart_Enable_def split: if_splits prod.splits option.splits)
  from atomicWrite_ok [OF w assms(2)] p assms(3) show ?thesis
    by (auto simp: autostart_Enabled_def autostart_Disable_def os_Remove_def split: if_splits)
qed

text \<open>The write is not atomic: when both renames fail after the old entry was removed, there is neither.\<close>

lemma atomicWrite_loses_both:
  assumes "ae_create env" "ae_chmod env" "ae_write env" "ae_sync env" "ae_close env" "\<not> ae_rename1 env" "ae_remove env"
    "\<not> ae_rename2 env" "ae_cleanup env" "ae_tmpName env \<noteq> path"
  shows "\<exists>f'. atomicWrite env path data f = (Some ''rename'', f') \<and> f' path = None \<and> f' (ae_tmpName env) = None"
  using assms by (simp add: atomicWrite_def Let_def os_Rename_def os_Remove_def)

section \<open>Witnesses\<close>

definition sample_status :: StatusResponse where
  "sample_status = \<lparr>sr_APIVersion = ''1'', sr_BuildVersion = ''dev'', sr_InstanceID = ''i'', sr_Features = [],
     sr_CatalogRevision = 0, sr_PoolRevision = 0, sr_PinnedModel = [],
     sr_Benchmark = \<lparr>bs_State = [], bs_Source = [], bs_LastAttemptAt = 0, bs_LastSuccessAt = 0, bs_RecordCount = 0, bs_ErrorCode = []\<rparr>\<rparr>"

definition sample_connector :: GatewayConnector where
  "sample_connector = \<lparr>gx_Address = ''127.0.0.1:8788'', gx_APIVersion = [], gx_Starter = Some (Process 7)\<rparr>"

lemma sample_compatible: "CompatibleAPIMajor (expectedAPIVersion sample_connector) (sr_APIVersion sample_status)"
  by code_simp

theorem attach_lifecycle_witness:
  "\<exists>conn. AttachOrStart sample_connector ''a'' (Inl (ProbeFailed (PlainError []))) [(Inl (ProbeFailed (PlainError [])), False), (Inr sample_status, False)] =
     Some (Inr conn, [Started 7]) \<and> gc_Ownership conn = OwnershipDesktopManaged \<and> stop_times (\<lambda>_. None) 3 conn = [Stopped 7]"
proof -
  have a: "TrimSpace ''a'' \<noteq> []" by code_simp
  obtain conn where c: "AttachOrStart sample_connector ''a'' (Inl (ProbeFailed (PlainError [])))
      [(Inl (ProbeFailed (PlainError [])), False), (Inr sample_status, False)] = Some (Inr conn, [Started 7])"
    using a sample_compatible by (simp add: AttachOrStart_def sample_connector_def)
  from attach_lifecycle [OF c, where stop = "\<lambda>_. None"] c show ?thesis by auto
qed

theorem attach_eventually_witness:
  "\<exists>conn. AttachOrStart sample_connector ''a'' (Inl (ProbeFailed (PlainError []))) [(Inl (ProbeFailed (PlainError [])), False), (Inr sample_status, False)] =
     Some (Inr conn, [Started 7]) \<and> gc_Status conn = sample_status"
proof -
  have a: "TrimSpace ''a'' \<noteq> []" by code_simp
  from attach_eventually [where addr = "''a''" and c = sample_connector and p = 7 and e = "PlainError []" and k = 1 and status = sample_status
      and turns = "[(Inl (ProbeFailed (PlainError [])), False), (Inr sample_status, False)]", OF a _ refl] sample_compatible
  show ?thesis by (auto simp: sample_connector_def)
qed


end
