(* ===== verification/ControlClient.thy ===== *)
theory ControlClient
  imports Desktop Transport
begin

text \<open>
  The control clients of \<open>internal/control\<close>: the HTTP client with its typed calls (\<open>client.go\<close>,
  \<open>client_typed.go\<close>) and the filters and the order of the model manager (\<open>model_manager.go\<close>). The last
  sections put the client, the server and the desktop together.
\<close>

section \<open>The client (client.go)\<close>

datatype client_error =
    ParseControlURL
  | CreateControlRequest
  | Exchange goerr
  | ReadResponse goerr
  | HTTPErr int gostring
  | BadJSON

record Client =
  ct_BaseURL :: gostring
  ct_Token :: gostring

definition str_TrimLeft :: "char \<Rightarrow> gostring \<Rightarrow> gostring" where
  "str_TrimLeft c s = dropWhile (\<lambda>x. x = c) s"

definition NewClient :: "gostring \<Rightarrow> gostring \<Rightarrow> Client" where
  "NewClient addr token =
     (let a = TrimSpace addr; url = (if str_Contains a ''://'' then a else ''http://'' @ a)
      in \<lparr>ct_BaseURL = str_TrimRight CHR ''/'' url, ct_Token = token\<rparr>)"

text \<open>\<open>url.Parse\<close> with the text of its result, whether a request can be made, and the exchange.\<close>

record ClientEnv =
  ke_parseURL :: "gostring \<Rightarrow> gostring option"
  ke_requestOK :: "gostring \<Rightarrow> gostring \<Rightarrow> bool"
  ke_do :: "HttpRequest \<Rightarrow> http_answer"

definition maxControlBytes :: nat where
  "maxControlBytes = 16 * 1024 * 1024"

definition endpoint :: "Client \<Rightarrow> gostring \<Rightarrow> gostring" where
  "endpoint c path = str_TrimRight CHR ''/'' (ct_BaseURL c) @ ''/'' @ str_TrimLeft CHR ''/'' path"

definition client_Do ::
  "ClientEnv \<Rightarrow> Client \<Rightarrow> gostring \<Rightarrow> gostring \<Rightarrow> json option \<Rightarrow> (client_error + gostring) \<times> HttpRequest list" where
  "client_Do env c verb path body =
     (case ke_parseURL env (endpoint c path) of
        None \<Rightarrow> (Inl ParseControlURL, [])
      | Some url \<Rightarrow>
          if \<not> ke_requestOK env verb url then (Inl CreateControlRequest, [])
          else let token = TrimSpace (ct_Token c);
            q = \<lparr>hq_Method = verb, hq_URL = url, hq_Authorization = (if token \<noteq> [] then Some (bearer token) else None), hq_Body = body\<rparr>
          in (case ke_do env q of
              HttpError e \<Rightarrow> Inl (Exchange e)
            | HttpAnswer code b \<Rightarrow>
                (case read_limited maxControlBytes b of
                   Inl e \<Rightarrow> Inl (ReadResponse e)
                 | Inr data \<Rightarrow> if code < 200 \<or> code \<ge> 300 then Inl (HTTPErr code (TrimSpace data)) else Inr data),
              [q]))"

section \<open>Typed calls (client_typed.go)\<close>

text \<open>Reading an answer of the wanted type is given.\<close>

definition doJSON ::
  "ClientEnv \<Rightarrow> (gostring \<Rightarrow> 'a option) \<Rightarrow> Client \<Rightarrow> gostring \<Rightarrow> gostring \<Rightarrow> json option \<Rightarrow> (client_error + 'a) \<times> HttpRequest list" where
  "doJSON env dec c verb path body =
     (case client_Do env c verb path body of
        (Inl e, qs) \<Rightarrow> (Inl e, qs)
      | (Inr data, qs) \<Rightarrow> (case dec data of None \<Rightarrow> Inl BadJSON | Some v \<Rightarrow> Inr v, qs))"

definition getJSON ::
  "ClientEnv \<Rightarrow> (gostring \<Rightarrow> 'a option) \<Rightarrow> Client \<Rightarrow> gostring \<Rightarrow> (client_error + 'a) \<times> HttpRequest list" where
  "getJSON env dec c path = doJSON env dec c ''GET'' path None"

definition enc_revision :: "int option \<Rightarrow> json" where
  "enc_revision r = (case r of None \<Rightarrow> JNull | Some n \<Rightarrow> enc_int n)"

definition pool_put_json :: "PoolPut \<Rightarrow> json" where
  "pool_put_json q = JObj [(''revision'', enc_revision (pp_Revision q)), (''mode'', JStr (pp_Mode q)),
     (''selectedProviderModelIds'', enc_strings (pp_Selected q))]"

definition pool_patch_json :: "PoolPatch \<Rightarrow> json" where
  "pool_patch_json q = JObj [(''revision'', enc_revision (px_Revision q)), (''select'', enc_strings (px_Select q)),
     (''deselect'', enc_strings (px_Deselect q)), (''selectAll'', JBool (px_SelectAll q)), (''clearAll'', JBool (px_ClearAll q)),
     (''mode'', case px_Mode q of None \<Rightarrow> JNull | Some m \<Rightarrow> JStr m)]"

definition pin_json :: "PinRequest \<Rightarrow> json" where
  "pin_json q = JObj [(''revision'', enc_revision (pi_Revision q)), (''providerModelId'', JStr (pi_ModelID q))]"

definition revision_json :: "int option \<Rightarrow> json" where
  "revision_json r = JObj [(''revision'', enc_revision r)]"

definition provider_update_json :: "ProviderConfigUpdate \<Rightarrow> json" where
  "provider_update_json u = JObj ([(''id'', JStr (pu_ID u)), (''name'', JStr (pu_Name u)), (''protocol'', JStr (pu_Protocol u)),
     (''baseUrl'', JStr (pu_BaseURL u)), (''enabled'', JBool (pu_Enabled u))] @
     omit_if (pu_APIKey u = None) ''apiKey'' (JStr (the (pu_APIKey u))) @
     omit_if (pu_AutoProbe u = None) ''autoProbe'' (JBool (the (pu_AutoProbe u))) @
     omit_if (pu_ExcludedModelIDs u = None) ''excludedModelIds'' (enc_strings (the (pu_ExcludedModelIDs u))))"

definition update_json :: "ConfigUpdateRequest \<Rightarrow> json" where
  "update_json q = JObj ([(''revision'', enc_int (cq_Revision q)), (''bind'', JStr (cq_Bind q)),
     (''providers'', JArr (map provider_update_json (cq_Providers q)))] @
     omit_if (cq_InferenceKey q = None) ''inferenceKey'' (JStr (the (cq_InferenceKey q))) @
     omit_if (\<not> cq_GenerateInferenceKey q) ''generateInferenceKey'' (JBool (cq_GenerateInferenceKey q)))"

definition client_Config :: "ClientEnv \<Rightarrow> (gostring \<Rightarrow> ConfigResponse option) \<Rightarrow> Client \<Rightarrow> (client_error + ConfigResponse) \<times> HttpRequest list" where
  "client_Config env dec c = getJSON env dec c ''/_fmr/config''"

definition client_UpdateConfig ::
  "ClientEnv \<Rightarrow> (gostring \<Rightarrow> ConfigUpdateResponse option) \<Rightarrow> Client \<Rightarrow> ConfigUpdateRequest \<Rightarrow>
   (client_error + ConfigUpdateResponse) \<times> HttpRequest list" where
  "client_UpdateConfig env dec c q = doJSON env dec c ''PUT'' ''/_fmr/config'' (Some (update_json q))"

definition client_Status :: "ClientEnv \<Rightarrow> (gostring \<Rightarrow> StatusResponse option) \<Rightarrow> Client \<Rightarrow> (client_error + StatusResponse) \<times> HttpRequest list" where
  "client_Status env dec c = getJSON env dec c ''/_fmr/status''"

definition client_Providers :: "ClientEnv \<Rightarrow> (gostring \<Rightarrow> 'a option) \<Rightarrow> Client \<Rightarrow> (client_error + 'a) \<times> HttpRequest list" where
  "client_Providers env dec c = getJSON env dec c ''/_fmr/providers''"

definition client_Models :: "ClientEnv \<Rightarrow> (gostring \<Rightarrow> 'a option) \<Rightarrow> Client \<Rightarrow> (client_error + 'a) \<times> HttpRequest list" where
  "client_Models env dec c = getJSON env dec c ''/_fmr/models''"

definition client_RefreshCatalog :: "ClientEnv \<Rightarrow> (gostring \<Rightarrow> gostring option) \<Rightarrow> Client \<Rightarrow> (client_error + gostring) \<times> HttpRequest list" where
  "client_RefreshCatalog env dec c = doJSON env dec c ''POST'' ''/_fmr/catalog/refresh'' (Some (JObj []))"

definition client_ModelPool :: "ClientEnv \<Rightarrow> (gostring \<Rightarrow> PoolResponse option) \<Rightarrow> Client \<Rightarrow> (client_error + PoolResponse) \<times> HttpRequest list" where
  "client_ModelPool env dec c = getJSON env dec c ''/_fmr/model-pool''"

text \<open>\<open>query\<close> is the encoded query, empty when there are no values.\<close>

definition client_Logs :: "ClientEnv \<Rightarrow> (gostring \<Rightarrow> RequestRecord list option) \<Rightarrow> Client \<Rightarrow> gostring \<Rightarrow> (client_error + RequestRecord list) \<times> HttpRequest list" where
  "client_Logs env dec c query = getJSON env dec c (''/_fmr/logs'' @ (if query = [] then [] else ''?'' @ query))"

definition client_ReplaceModelPool ::
  "ClientEnv \<Rightarrow> (gostring \<Rightarrow> PoolResponse option) \<Rightarrow> Client \<Rightarrow> PoolPut \<Rightarrow> (client_error + PoolResponse) \<times> HttpRequest list" where
  "client_ReplaceModelPool env dec c q = doJSON env dec c ''PUT'' ''/_fmr/model-pool'' (Some (pool_put_json q))"

definition client_PatchModelPool ::
  "ClientEnv \<Rightarrow> (gostring \<Rightarrow> PoolResponse option) \<Rightarrow> Client \<Rightarrow> PoolPatch \<Rightarrow> (client_error + PoolResponse) \<times> HttpRequest list" where
  "client_PatchModelPool env dec c q = doJSON env dec c ''PATCH'' ''/_fmr/model-pool'' (Some (pool_patch_json q))"

definition client_Pin ::
  "ClientEnv \<Rightarrow> (gostring \<Rightarrow> PoolResponse option) \<Rightarrow> Client \<Rightarrow> PinRequest \<Rightarrow> (client_error + PoolResponse) \<times> HttpRequest list" where
  "client_Pin env dec c q = doJSON env dec c ''POST'' ''/_fmr/pin'' (Some (pin_json q))"

definition client_Auto ::
  "ClientEnv \<Rightarrow> (gostring \<Rightarrow> PoolResponse option) \<Rightarrow> Client \<Rightarrow> int option \<Rightarrow> (client_error + PoolResponse) \<times> HttpRequest list" where
  "client_Auto env dec c r = doJSON env dec c ''POST'' ''/_fmr/auto'' (Some (revision_json r))"

section \<open>The model manager (model\_manager.go)\<close>

record ModelFilters =
  mf_Search :: gostring
  mf_Provider :: gostring
  mf_Access :: gostring
  mf_Status :: gostring
  mf_Capability :: gostring

definition normalizeFilter :: "gostring \<Rightarrow> gostring" where
  "normalizeFilter v = map (\<lambda>c. if c = CHR '' '' then CHR ''-'' else c)
     (map (\<lambda>c. if c = CHR ''_'' then CHR ''-'' else c) (ToLower (TrimSpace v)))"

definition modelHasCapability :: "Capabilities \<Rightarrow> gostring \<Rightarrow> bool" where
  "modelHasCapability cap capability =
     (if capability \<in> {''streaming'', ''stream''} then cap_Streaming cap
      else if capability \<in> {''tools'', ''tool''} then cap_Tools cap
      else if capability = ''vision'' then cap_Vision cap
      else if capability \<in> {''structured-output'', ''structuredoutput'', ''structured''} then cap_StructuredOutput cap
      else capability = ''reasoning'' \<and> cap_Reasoning cap)"

definition modelHasAnyCapability :: "ModelResponse \<Rightarrow> gostring \<Rightarrow> bool" where
  "modelHasAnyCapability m capability =
     (modelHasCapability (ma_Capabilities m) capability \<or>
      list_ex (\<lambda>r. modelHasCapability (ra_Capabilities r) capability) (ma_Routes m))"

definition modelSearchMatches :: "ModelResponse \<Rightarrow> gostring \<Rightarrow> bool" where
  "modelSearchMatches m search =
     list_ex (\<lambda>v. str_Contains (ToLower v) search)
       ([ma_ID m, ma_CanonicalKey m, ma_DisplayName m, ma_UpstreamID m] @
        concat (map (\<lambda>r. [ra_Provider r, ra_ID r, ra_UpstreamModelID r]) (ma_Routes m)))"

definition modelHasProvider :: "ModelResponse \<Rightarrow> gostring \<Rightarrow> bool" where
  "modelHasProvider m provider = list_ex (\<lambda>r. EqualFold (ra_Provider r) provider) (ma_Routes m)"

definition modelHasAccess :: "ModelResponse \<Rightarrow> gostring \<Rightarrow> bool" where
  "modelHasAccess m access = list_ex (\<lambda>r. normalizeFilter (AccessClass_str (ra_Access r)) = access) (ma_Routes m)"

definition modelAvailable :: "ModelResponse \<Rightarrow> bool" where
  "modelAvailable m = list_ex (\<lambda>r. ha_Available (ra_Health r) \<and> ra_Enabled r) (ma_Routes m)"

definition modelHasStatus :: "ModelResponse \<Rightarrow> gostring \<Rightarrow> bool" where
  "modelHasStatus m status =
     (if status = ''selected'' then ma_Selected m
      else if status = ''unselected'' then \<not> ma_Selected m
      else if status = ''pinned'' then ma_Pinned m
      else if status = ''available'' then modelAvailable m
      else if status = ''unavailable'' then \<not> modelAvailable m
      else True)"

fun FilterModels_loop :: "gostring \<Rightarrow> gostring \<Rightarrow> gostring \<Rightarrow> gostring \<Rightarrow> gostring \<Rightarrow> ModelResponse list \<Rightarrow> ModelResponse list \<Rightarrow> ModelResponse list" where
  "FilterModels_loop search provider access status capability [] out = out"
| "FilterModels_loop search provider access status capability (m # ms) out =
     (if search \<noteq> [] \<and> \<not> modelSearchMatches m search
      then FilterModels_loop search provider access status capability ms out
      else if provider \<noteq> [] \<and> \<not> modelHasProvider m provider
      then FilterModels_loop search provider access status capability ms out
      else if access \<noteq> [] \<and> \<not> modelHasAccess m access
      then FilterModels_loop search provider access status capability ms out
      else if status \<noteq> [] \<and> \<not> modelHasStatus m status
      then FilterModels_loop search provider access status capability ms out
      else if capability \<noteq> [] \<and> \<not> modelHasAnyCapability m capability
      then FilterModels_loop search provider access status capability ms out
      else FilterModels_loop search provider access status capability ms (out @ [m]))"

definition FilterModels :: "ModelResponse list \<Rightarrow> ModelFilters \<Rightarrow> ModelResponse list" where
  "FilterModels models filters =
     FilterModels_loop (ToLower (TrimSpace (mf_Search filters))) (ToLower (TrimSpace (mf_Provider filters)))
       (normalizeFilter (mf_Access filters)) (normalizeFilter (mf_Status filters)) (normalizeFilter (mf_Capability filters)) models []"

definition model_row_key :: "ModelResponse \<Rightarrow> gostring" where
  "model_row_key m = ToLower (ma_DisplayName m @ ma_ID m)"

definition SortModelResponses :: "ModelResponse list \<Rightarrow> ModelResponse list" where
  "SortModelResponses models = sort_stable (\<lambda>m n. model_row_key m < model_row_key n) models"

text \<open>What a row has to satisfy.\<close>

definition row_matches :: "ModelFilters \<Rightarrow> ModelResponse \<Rightarrow> bool" where
  "row_matches filters m \<longleftrightarrow>
     (ToLower (TrimSpace (mf_Search filters)) = [] \<or> modelSearchMatches m (ToLower (TrimSpace (mf_Search filters)))) \<and>
     (ToLower (TrimSpace (mf_Provider filters)) = [] \<or> modelHasProvider m (ToLower (TrimSpace (mf_Provider filters)))) \<and>
     (normalizeFilter (mf_Access filters) = [] \<or> modelHasAccess m (normalizeFilter (mf_Access filters))) \<and>
     (normalizeFilter (mf_Status filters) = [] \<or> modelHasStatus m (normalizeFilter (mf_Status filters))) \<and>
     (normalizeFilter (mf_Capability filters) = [] \<or> modelHasAnyCapability m (normalizeFilter (mf_Capability filters)))"

lemma FilterModels_filter: "FilterModels models filters = filter (row_matches filters) models"
proof -
  have "FilterModels_loop (ToLower (TrimSpace (mf_Search filters))) (ToLower (TrimSpace (mf_Provider filters)))
      (normalizeFilter (mf_Access filters)) (normalizeFilter (mf_Status filters)) (normalizeFilter (mf_Capability filters)) ms out =
    out @ filter (row_matches filters) ms" for ms out
    by (induction ms arbitrary: out) (auto simp: row_matches_def)
  then show ?thesis by (simp add: FilterModels_def)
qed

text \<open>The words of a status split the rows in two; an unknown word filters nothing.\<close>

lemma mset_filter_split: "mset (filter P xs) + mset (filter (\<lambda>x. \<not> P x) xs) = mset xs"
  by (induction xs) simp_all

lemma status_complement:
  assumes "mf_Status f = ''available''"
  shows "mset (FilterModels models f) + mset (FilterModels models (f\<lparr>mf_Status := ''unavailable''\<rparr>)) =
    mset (FilterModels models (f\<lparr>mf_Status := []\<rparr>))"
proof -
  let ?all = "filter (row_matches (f\<lparr>mf_Status := []\<rparr>)) models"
  have n: "normalizeFilter ''available'' = ''available''" "normalizeFilter ''unavailable'' = ''unavailable''" "normalizeFilter [] = []"
    by code_simp+
  have "row_matches f m = (row_matches (f\<lparr>mf_Status := []\<rparr>) m \<and> modelAvailable m)"
    "row_matches (f\<lparr>mf_Status := ''unavailable''\<rparr>) m = (row_matches (f\<lparr>mf_Status := []\<rparr>) m \<and> \<not> modelAvailable m)" for m
    by (auto simp: row_matches_def assms n modelHasStatus_def)
  then have "FilterModels models f = filter modelAvailable ?all"
    "FilterModels models (f\<lparr>mf_Status := ''unavailable''\<rparr>) = filter (\<lambda>m. \<not> modelAvailable m) ?all"
    unfolding FilterModels_filter filter_filter by (auto intro!: filter_cong)
  then show ?thesis by (simp only: mset_filter_split FilterModels_filter)
qed

section \<open>Requests arrive as they were meant\<close>

text \<open>The request a server sees of what a client sends, from a given peer and for a given path.\<close>

definition arrives :: "gostring \<Rightarrow> gostring \<Rightarrow> HttpRequest \<Rightarrow> ControlRequest" where
  "arrives remote path q =
     \<lparr>hr_Method = hq_Method q, hr_Path = path, hr_Remote = remote,
      hr_Authorization = (case hq_Authorization q of None \<Rightarrow> [] | Some a \<Rightarrow> a), hr_Query = \<lambda>_. [],
      hr_Body = Some (case hq_Body q of None \<Rightarrow> \<lparr>bs_values = [], bs_broken = False\<rparr> | Some j \<Rightarrow> \<lparr>bs_values = [j], bs_broken = False\<rparr>)\<rparr>"

text \<open>
  The path the server takes out of the request's address, up to a query or a fragment: \<open>received\<close> is what
  it sees of a request sent to its own address.
\<close>

definition url_path :: "gostring \<Rightarrow> gostring" where
  "url_path url = takeWhile (\<lambda>c. c \<notin> {CHR ''?'', CHR ''#''})
     (dropWhile (\<lambda>c. c \<notin> {CHR ''/'', CHR ''?'', CHR ''#''}) (drop 3 (dropWhile (\<lambda>c. c \<noteq> CHR '':'') url)))"

definition received :: "gostring \<Rightarrow> HttpRequest \<Rightarrow> ControlRequest" where
  "received remote q = arrives remote (url_path (hq_URL q)) q"

text \<open>
  A base address without a path of its own, and a URL parser that writes an address whose path is made of
  letters, slashes, underscores and dashes with that path.
\<close>

definition plain_path :: "gostring \<Rightarrow> bool" where
  "plain_path p \<longleftrightarrow> list_all (\<lambda>c. c \<in> set ''abcdefghijklmnopqrstuvwxyz/_-'') p"

definition plain_host :: "gostring \<Rightarrow> bool" where
  "plain_host h \<longleftrightarrow> h \<noteq> [] \<and> CHR ''/'' \<notin> set h \<and> CHR ''?'' \<notin> set h \<and> CHR ''#'' \<notin> set h"

definition reaches :: "ClientEnv \<Rightarrow> Client \<Rightarrow> bool" where
  "reaches env c \<longleftrightarrow>
     (\<exists>scheme host. ct_BaseURL c = scheme @ ''://'' @ host \<and> CHR '':'' \<notin> set scheme \<and> plain_host host) \<and>
     (\<forall>p url. plain_path p \<and> ke_parseURL env (endpoint c p) = Some url \<longrightarrow> url_path url = url_path (endpoint c p))"

lemma plain_host_TrimRight:
  assumes "plain_host h"
  shows "str_TrimRight CHR ''/'' (pre @ h) = pre @ h"
proof -
  have h: "h \<noteq> []" using assms by (simp add: plain_host_def)
  from last_in_set [OF this] assms have "last h \<noteq> CHR ''/''" by (metis plain_host_def)
  with h have "dropWhile (\<lambda>x. x = CHR ''/'') (rev (pre @ h)) = rev (pre @ h)" by (intro dropWhile_id) (simp add: hd_rev)
  then show ?thesis by simp
qed

lemma url_path_endpoint:
  assumes "ct_BaseURL c = scheme @ ''://'' @ host" and "CHR '':'' \<notin> set scheme" and "plain_host host"
    and "rest = [] \<or> hd rest \<noteq> CHR ''/''" and "CHR ''?'' \<notin> set rest" "CHR ''#'' \<notin> set rest"
  shows "url_path (endpoint c (CHR ''/'' # rest)) = CHR ''/'' # rest"
proof -
  have trim: "str_TrimRight CHR ''/'' (ct_BaseURL c) = ct_BaseURL c"
    unfolding assms(1) append_assoc [symmetric] by (rule plain_host_TrimRight [OF assms(3)])
  have left: "str_TrimLeft CHR ''/'' (CHR ''/'' # rest) = rest"
    using assms(4) by (cases rest) (auto simp: str_TrimLeft_def)
  have e: "endpoint c (CHR ''/'' # rest) = scheme @ CHR '':'' # CHR ''/'' # CHR ''/'' # host @ CHR ''/'' # rest"
    unfolding endpoint_def trim left by (simp add: assms(1))
  have "dropWhile (\<lambda>c. c \<noteq> CHR '':'') (scheme @ CHR '':'' # xs) = CHR '':'' # xs" for xs
    using assms(2) by (subst dropWhile_append2) auto
  moreover have "dropWhile (\<lambda>c. c \<notin> {CHR ''/'', CHR ''?'', CHR ''#''}) (host @ CHR ''/'' # rest) = CHR ''/'' # rest"
    using assms(3) by (subst dropWhile_append2) (auto simp: plain_host_def)
  moreover have "takeWhile (\<lambda>c. c \<notin> {CHR ''?'', CHR ''#''}) (CHR ''/'' # rest) = CHR ''/'' # rest"
    using assms(5,6) by (subst takeWhile_eq_all_conv) auto
  ultimately show ?thesis by (simp add: url_path_def e)
qed

text \<open>What a client of such an address sends arrives at the path it asked for.\<close>

lemma sent_path:
  assumes "q \<in> set (snd (client_Do env c verb (CHR ''/'' # rest) body))" and "reaches env c"
    and "plain_path rest" and "hd rest \<noteq> CHR ''/''"
  shows "received remote q = arrives remote (CHR ''/'' # rest) q"
proof -
  have "ke_parseURL env (endpoint c (CHR ''/'' # rest)) = Some (hq_URL q)"
    using assms(1) by (auto simp: client_Do_def Let_def split: option.splits if_splits)
  moreover have "plain_path (CHR ''/'' # rest)" using assms(3) by (simp add: plain_path_def)
  ultimately have "url_path (hq_URL q) = url_path (endpoint c (CHR ''/'' # rest))"
    using assms(2) unfolding reaches_def by blast
  moreover obtain scheme host where base: "ct_BaseURL c = scheme @ ''://'' @ host" "CHR '':'' \<notin> set scheme" "plain_host host"
    using assms(2) unfolding reaches_def by (elim conjE exE)
  have "x \<notin> set rest" if "x \<notin> set ''abcdefghijklmnopqrstuvwxyz/_-''" for x
    using assms(3) that unfolding plain_path_def list_all_iff by blast
  from this [of "CHR ''?''"] this [of "CHR ''#''"] have "CHR ''?'' \<notin> set rest" "CHR ''#'' \<notin> set rest" by simp_all
  note url_path_endpoint [OF base disjI2 [OF assms(4)] this]
  ultimately show ?thesis by (simp add: received_def)
qed

lemma sent_paths:
  assumes "reaches env c"
  shows "q \<in> set (snd (client_Do env c verb ''/_fmr/model-pool'' body)) \<Longrightarrow> received remote q = arrives remote ''/_fmr/model-pool'' q"
    "q \<in> set (snd (client_Do env c verb ''/_fmr/pin'' body)) \<Longrightarrow> received remote q = arrives remote ''/_fmr/pin'' q"
    "q \<in> set (snd (client_Do env c verb ''/_fmr/auto'' body)) \<Longrightarrow> received remote q = arrives remote ''/_fmr/auto'' q"
    "q \<in> set (snd (client_Do env c verb ''/_fmr/config'' body)) \<Longrightarrow> received remote q = arrives remote ''/_fmr/config'' q"
    "q \<in> set (snd (client_Do env c verb ''/_fmr/status'' body)) \<Longrightarrow> received remote q = arrives remote ''/_fmr/status'' q"
  by (erule sent_path [OF _ assms]; simp add: plain_path_def)+

lemma request_names:
  "field_named [''revision'', ''mode'', ''selectedProviderModelIds''] ''revision'' = Some ''revision''"
  "field_named [''revision'', ''mode'', ''selectedProviderModelIds''] ''mode'' = Some ''mode''"
  "field_named [''revision'', ''mode'', ''selectedProviderModelIds''] ''selectedProviderModelIds'' = Some ''selectedProviderModelIds''"
  "field_named pool_patch_names ''revision'' = Some ''revision''" "field_named pool_patch_names ''select'' = Some ''select''"
  "field_named pool_patch_names ''deselect'' = Some ''deselect''" "field_named pool_patch_names ''selectAll'' = Some ''selectAll''"
  "field_named pool_patch_names ''clearAll'' = Some ''clearAll''" "field_named pool_patch_names ''mode'' = Some ''mode''"
  "field_named [''revision'', ''providerModelId''] ''revision'' = Some ''revision''"
  "field_named [''revision'', ''providerModelId''] ''providerModelId'' = Some ''providerModelId''"
  "field_named [''revision''] ''revision'' = Some ''revision''"
  "field_named update_names ''revision'' = Some ''revision''" "field_named update_names ''bind'' = Some ''bind''"
  "field_named update_names ''providers'' = Some ''providers''" "field_named update_names ''inferenceKey'' = Some ''inferenceKey''"
  "field_named update_names ''generateInferenceKey'' = Some ''generateInferenceKey''"
  "field_named provider_update_names ''id'' = Some ''id''" "field_named provider_update_names ''name'' = Some ''name''"
  "field_named provider_update_names ''protocol'' = Some ''protocol''" "field_named provider_update_names ''baseUrl'' = Some ''baseUrl''"
  "field_named provider_update_names ''enabled'' = Some ''enabled''" "field_named provider_update_names ''apiKey'' = Some ''apiKey''"
  "field_named provider_update_names ''autoProbe'' = Some ''autoProbe''"
  "field_named provider_update_names ''excludedModelIds'' = Some ''excludedModelIds''"
  by code_simp+

definition revision_ok :: "int option \<Rightarrow> bool" where
  "revision_ok r \<longleftrightarrow> (case r of None \<Rightarrow> True | Some n \<Rightarrow> - (2 ^ 63) \<le> n \<and> n < 2 ^ 63)"

lemma dec_enc_revision: "revision_ok r \<Longrightarrow> dec_ptr dec_int 0 None (enc_revision r) = Some r"
  using dec_enc_int [of "the r" 0] by (cases r) (simp_all add: revision_ok_def dec_ptr_def enc_revision_def enc_int_def)


lemma dec_ptr_values:
  "dec_ptr dec zero old JNull = Some None" "dec_ptr dec_string [] None (JStr s) = Some (Some s)"
  "dec_ptr dec_bool False None (JBool b) = Some (Some b)"
  "dec_ptr (dec_list dec_string []) [] None (enc_strings ss) = Some (Some ss)"
  using dec_enc_strings [of "[]" "[]" ss] by (simp_all add: dec_ptr_def enc_strings_def)

lemma dec_put: "revision_ok (pp_Revision q) \<Longrightarrow>
    dec_pool_put \<lparr>pp_Revision = None, pp_Mode = [], pp_Selected = []\<rparr> (pool_put_json q) = Some q"
  by (simp add: dec_pool_put_def pool_put_json_def dec_struct_def strict_def pool_put_field_def request_names dec_enc_revision)

lemma dec_patch: "revision_ok (px_Revision q) \<Longrightarrow>
    dec_pool_patch \<lparr>px_Revision = None, px_Select = [], px_Deselect = [], px_SelectAll = False, px_ClearAll = False, px_Mode = None\<rparr>
      (pool_patch_json q) = Some q"
  by (cases "px_Mode q")
    (simp_all add: dec_pool_patch_def pool_patch_json_def dec_struct_def strict_def pool_patch_field_def request_names dec_enc_revision
      dec_ptr_values)

lemma dec_pin_json: "revision_ok (pi_Revision q) \<Longrightarrow> dec_pin \<lparr>pi_Revision = None, pi_ModelID = []\<rparr> (pin_json q) = Some q"
  by (simp add: dec_pin_def pin_json_def dec_struct_def strict_def pin_field_def request_names dec_enc_revision)

lemma dec_auto: "revision_ok r \<Longrightarrow> dec_revision None (revision_json r) = Some r"
  by (simp add: dec_revision_def revision_json_def dec_struct_def strict_def request_names dec_enc_revision)

lemma strict_named: "field_named names k \<noteq> None \<Longrightarrow> strict names step k j s = step k j s"
  by (auto simp: strict_def)

lemma dec_provider_update: "dec_struct (strict provider_update_names provider_update_field) zero_provider_update (provider_update_json u) = Some u"
  by (simp add: provider_update_json_def dec_struct_def dec_fields_append dec_omit strict_named provider_update_field_def request_names
      zero_provider_update_def dec_ptr_values)

lemma dec_update_json:
  "- (2 ^ 63) \<le> cq_Revision q \<Longrightarrow> cq_Revision q < 2 ^ 63 \<Longrightarrow> dec_update zero_update (update_json q) = Some q"
proof -
  assume r: "- (2 ^ 63) \<le> cq_Revision q" "cq_Revision q < 2 ^ 63"
  have p: "dec_list (dec_struct (strict provider_update_names provider_update_field)) zero_provider_update []
      (JArr (map provider_update_json us)) = Some us" for us
    unfolding dec_list_def json.case
    by (rule dec_elems_map [where P = "\<lambda>u. u = zero_provider_update" and Q = "\<lambda>_. True"]) (simp_all add: dec_provider_update list_all_iff)
  show ?thesis using r
    by (cases "cq_InferenceKey q"; cases "cq_GenerateInferenceKey q"; cases q)
      (simp_all add: dec_update_def update_json_def dec_struct_def dec_fields_append dec_omit strict_named update_field_def request_names
      zero_update_def p dec_ptr_values)
qed

lemma client_Do_sent:
  assumes "q \<in> set (snd (client_Do env c verb path body))"
  shows "hq_Method q = verb \<and> hq_Body q = body \<and>
    hq_Authorization q = (if TrimSpace (ct_Token c) \<noteq> [] then Some (bearer (TrimSpace (ct_Token c))) else None)"
  using assms by (auto simp: client_Do_def Let_def split: option.splits if_splits)

lemma doJSON_sent: "snd (doJSON env dec c verb path body) = snd (client_Do env c verb path body)"
  by (simp add: doJSON_def split: prod.split sum.split)

lemma bearer_valid:
  assumes "\<not> list_ex is_space t" and "t \<noteq> []"
  shows "validBearer (bearer t) want \<longleftrightarrow> t = want"
proof -
  have "Fields (bearer t) = [''Bearer'', t]"
    using Fields_two [of "''Bearer''" t] assms by (simp add: bearer_def is_space_def)
  moreover have "EqualFold_ascii ''Bearer'' ''Bearer''" by code_simp
  ultimately show ?thesis by (auto simp: validBearer_def)
qed

lemma arrived_served:
  assumes "q \<in> set (snd (client_Do env c verb path body))" and "IsLoopbackRemote remote"
    and "\<not> list_ex is_space (TrimSpace (ct_Token c))"
  shows "ServeHTTP opts sx (arrives remote p q) s =
    (if TrimSpace (ct_Token c) \<noteq> [] \<and> TrimSpace (ct_Token c) = TrimSpace (op_Token opts)
     then handle opts sx (arrives remote p q) s else (ReplyUnauthorized, s))"
proof -
  have "\<not> validBearer [] want" for want by (simp add: validBearer_def Fields_def)
  with client_Do_sent [OF assms(1)] bearer_valid [OF assms(3)] assms(2) show ?thesis
    by (auto simp: ServeHTTP_eq arrives_def)
qed


text \<open>A client on this machine that has the server's token, which has no space inside.\<close>

definition admitted :: "gostring \<Rightarrow> Client \<Rightarrow> Options \<Rightarrow> bool" where
  "admitted remote c opts \<longleftrightarrow> IsLoopbackRemote remote \<and> \<not> list_ex is_space (TrimSpace (ct_Token c)) \<and>
     TrimSpace (ct_Token c) \<noteq> [] \<and> TrimSpace (ct_Token c) = TrimSpace (op_Token opts)"

lemma admitted_served:
  "admitted remote c opts \<Longrightarrow> q \<in> set (snd (client_Do env c verb path body)) \<Longrightarrow>
   ServeHTTP opts sx (arrives remote p q) s = handle opts sx (arrives remote p q) s \<and> hq_Method q = verb \<and> hq_Body q = body"
  using arrived_served [of q env c verb path body remote opts sx p s] client_Do_sent [of q env c verb path body]
  unfolding admitted_def by argo

lemma decode_sent:
  "decodeJSON dec0 z (Some \<lparr>bs_values = [j], bs_broken = False\<rparr>) = (case dec0 z j of None \<Rightarrow> Inl InvalidJSON | Some v \<Rightarrow> Inr v)"
  "decodeJSONOptional dec0 z (Some \<lparr>bs_values = [j], bs_broken = False\<rparr>) = (case dec0 z j of None \<Rightarrow> Inl InvalidJSON | Some v \<Rightarrow> Inr v)"
  by (simp_all add: decodeJSON_def decodeJSONOptional_def trailing_problem_def split: option.split)

lemma arrives_sel:
  "hr_Method (arrives remote p q) = hq_Method q" "hr_Path (arrives remote p q) = p"
  "hq_Body q = Some j \<Longrightarrow> hr_Body (arrives remote p q) = Some \<lparr>bs_values = [j], bs_broken = False\<rparr>"
  by (simp_all add: arrives_def)

text \<open>The handlers of the five requests.\<close>

lemma handle_routes:
  "hr_Path r = ''/_fmr/model-pool'' \<Longrightarrow> hr_Method r = ''PUT'' \<Longrightarrow> handle opts sx r s = handlePoolPut opts sx r s"
  "hr_Path r = ''/_fmr/model-pool'' \<Longrightarrow> hr_Method r = ''PATCH'' \<Longrightarrow> handle opts sx r s = handlePoolPatch opts sx r s"
  "hr_Path r = ''/_fmr/pin'' \<Longrightarrow> hr_Method r = ''POST'' \<Longrightarrow> handle opts sx r s = handlePin opts sx r s"
  "hr_Path r = ''/_fmr/auto'' \<Longrightarrow> hr_Method r = ''POST'' \<Longrightarrow> handle opts sx r s = handleAuto opts sx r s"
  "hr_Path r = ''/_fmr/config'' \<Longrightarrow> hr_Method r = ''PUT'' \<Longrightarrow> handle opts sx r s = handleConfigUpdate opts sx r s"
  "hr_Path r = ''/_fmr/status'' \<Longrightarrow> hr_Method r = ''GET'' \<Longrightarrow>
     handle opts sx r s = (ReplyStatus (Status opts (control_snapshot sx (sv_gateway s))), s)"
  by (simp_all add: handle_def Let_def)

lemmas arrive_simps = doJSON_sent arrives_sel handle_routes decode_sent bad_request_def

lemma put_arrives:
  assumes "admitted remote c opts" and "reaches env c" and "q \<in> set (snd (client_ReplaceModelPool env dec c put))"
    and "revision_ok (pp_Revision put)"
  shows "ServeHTTP opts sx (received remote q) s =
     (case (pp_Revision put, validateIDs (pp_Selected put)) of
        (None, _) \<Rightarrow> (ReplyError 400 RevisionRequired, s) | (Some _, Some p) \<Rightarrow> (ReplyError 400 p, s)
      | (Some r, None) \<Rightarrow> apply_mutating opts sx (ReplaceModelPool (word_of_int r) (pp_Selected put)
          (if pp_Mode put = [] then ModeManual else mode_of_text (pp_Mode put)) (sv_gateway s)) s)"
proof -
  have q: "q \<in> set (snd (client_Do env c ''PUT'' ''/_fmr/model-pool'' (Some (pool_put_json put))))"
    using assms(3) by (simp add: client_ReplaceModelPool_def doJSON_sent)
  from admitted_served [OF assms(1) q, of sx "''/_fmr/model-pool''" s] show ?thesis
    unfolding sent_paths(1) [OF assms(2) q]
    by (simp add: arrive_simps handlePoolPut_def dec_put assms(4) split: option.split)
qed

lemma patch_arrives:
  assumes "admitted remote c opts" and "reaches env c" and "q \<in> set (snd (client_PatchModelPool env dec c patch))"
    and "revision_ok (px_Revision patch)"
  shows "ServeHTTP opts sx (received remote q) s =
     (case (px_Revision patch, validateIDs (px_Select patch), validateIDs (px_Deselect patch)) of
        (None, _, _) \<Rightarrow> (ReplyError 400 RevisionRequired, s) | (Some _, Some p, _) \<Rightarrow> (ReplyError 400 p, s)
      | (Some _, None, Some p) \<Rightarrow> (ReplyError 400 p, s)
      | (Some r, None, None) \<Rightarrow> apply_mutating opts sx (UpdateModelPool (sx_catalogOrder sx) (word_of_int r)
          \<lparr>mu_Select = px_Select patch, mu_Deselect = px_Deselect patch, mu_SelectAll = px_SelectAll patch,
           mu_ClearAll = px_ClearAll patch, mu_Mode = map_option mode_of_text (px_Mode patch)\<rparr> (sv_gateway s)) s)"
proof -
  have q: "q \<in> set (snd (client_Do env c ''PATCH'' ''/_fmr/model-pool'' (Some (pool_patch_json patch))))"
    using assms(3) by (simp add: client_PatchModelPool_def doJSON_sent)
  from admitted_served [OF assms(1) q, of sx "''/_fmr/model-pool''" s] show ?thesis
    unfolding sent_paths(1) [OF assms(2) q]
    by (simp add: arrive_simps handlePoolPatch_def dec_patch assms(4) split: option.split)
qed

lemma pin_arrives:
  assumes "admitted remote c opts" and "reaches env c" and "q \<in> set (snd (client_Pin env dec c pin))"
    and "revision_ok (pi_Revision pin)"
  shows "ServeHTTP opts sx (received remote q) s =
     (case (pi_Revision pin, id_Parse (pi_ModelID pin)) of
        (None, _) \<Rightarrow> (ReplyError 400 RevisionRequired, s) | (Some _, Inl _) \<Rightarrow> (ReplyError 400 (InvalidModelId (pi_ModelID pin)), s)
      | (Some r, Inr _) \<Rightarrow> apply_mutating opts sx (PinModel (word_of_int r) (pi_ModelID pin) (sv_gateway s)) s)"
proof -
  have q: "q \<in> set (snd (client_Do env c ''POST'' ''/_fmr/pin'' (Some (pin_json pin))))"
    using assms(3) by (simp add: client_Pin_def doJSON_sent)
  from admitted_served [OF assms(1) q, of sx "''/_fmr/pin''" s] show ?thesis
    unfolding sent_paths(2) [OF assms(2) q]
    by (simp add: arrive_simps handlePin_def dec_pin_json assms(4) split: option.split sum.split)
qed

lemma auto_arrives:
  assumes "admitted remote c opts" and "reaches env c" and "q \<in> set (snd (client_Auto env dec c want))" and "revision_ok want"
  shows "ServeHTTP opts sx (received remote q) s =
     (case want of None \<Rightarrow> (ReplyError 400 RevisionRequired, s)
      | Some r \<Rightarrow> apply_mutating opts sx (AutoSelect (sx_catalogOrder sx) (word_of_int r) (sv_gateway s)) s)"
proof -
  have q: "q \<in> set (snd (client_Do env c ''POST'' ''/_fmr/auto'' (Some (revision_json want))))"
    using assms(3) by (simp add: client_Auto_def doJSON_sent)
  from admitted_served [OF assms(1) q, of sx "''/_fmr/auto''" s] show ?thesis
    unfolding sent_paths(3) [OF assms(2) q]
    by (simp add: arrive_simps handleAuto_def dec_auto assms(4) split: option.split)
qed

lemma update_arrives:
  assumes "admitted remote c opts" and "reaches env c" and "q \<in> set (snd (client_UpdateConfig env dec c upd))"
    and "revision_ok (Some (cq_Revision upd))" and "op_UpdateConfig opts"
  shows "ServeHTTP opts sx (received remote q) s =
     (case updateConfig (sx_parseURL sx) (sx_codec sx) (sx_update sx) (sx_store sx) upd (sv_app s) of
        (Inl e, app) \<Rightarrow> (ReplyError (if e = ErrConfigRevisionConflict then 409 else 400) (UpdateProblem e), s\<lparr>sv_app := app\<rparr>)
      | (Inr resp, app) \<Rightarrow> (ReplyUpdated resp, s\<lparr>sv_app := app\<rparr>))"
proof -
  have q: "q \<in> set (snd (client_Do env c ''PUT'' ''/_fmr/config'' (Some (update_json upd))))"
    using assms(3) by (simp add: client_UpdateConfig_def doJSON_sent)
  from admitted_served [OF assms(1) q, of sx "''/_fmr/config''" s] show ?thesis
    unfolding sent_paths(4) [OF assms(2) q]
    using dec_update_json [of upd] assms(4,5)
    by (simp add: arrive_simps handleConfigUpdate_def revision_ok_def)
qed

text \<open>C14: what a control client asks for is what the gateway is asked for: from the same machine, with the
  server's token (one without spaces inside) and at an address without a path of its own, each typed request
  (replacing or editing the pool, pinning, automatic selection, updating the configuration) arrives at the
  route of its handler with exactly the fields it was made of. Without a revision, or with a malformed or
  repeated model identity where it names models, it gets a 400 and changes nothing; otherwise it is the one
  operation of the gateway or of the configuration it names, with the revision it carried. (Revisions are
  \<open>int64\<close>, the server allows configuration updates, and the URL parser is assumed to keep a path of letters,
  slashes, underscores and dashes.)\<close>

theorem client_requests_arrive:
  assumes "admitted remote c opts" and "reaches env c"
  shows
   "(q \<in> set (snd (client_ReplaceModelPool env dec c put)) \<and> revision_ok (pp_Revision put) \<longrightarrow>
      ServeHTTP opts sx (received remote q) s =
       (case (pp_Revision put, validateIDs (pp_Selected put)) of
          (None, _) \<Rightarrow> (ReplyError 400 RevisionRequired, s) | (Some _, Some p) \<Rightarrow> (ReplyError 400 p, s)
        | (Some r, None) \<Rightarrow> apply_mutating opts sx (ReplaceModelPool (word_of_int r) (pp_Selected put)
            (if pp_Mode put = [] then ModeManual else mode_of_text (pp_Mode put)) (sv_gateway s)) s)) \<and>
    (q \<in> set (snd (client_PatchModelPool env dec c patch)) \<and> revision_ok (px_Revision patch) \<longrightarrow>
      ServeHTTP opts sx (received remote q) s =
       (case (px_Revision patch, validateIDs (px_Select patch), validateIDs (px_Deselect patch)) of
          (None, _, _) \<Rightarrow> (ReplyError 400 RevisionRequired, s) | (Some _, Some p, _) \<Rightarrow> (ReplyError 400 p, s)
        | (Some _, None, Some p) \<Rightarrow> (ReplyError 400 p, s)
        | (Some r, None, None) \<Rightarrow> apply_mutating opts sx (UpdateModelPool (sx_catalogOrder sx) (word_of_int r)
            \<lparr>mu_Select = px_Select patch, mu_Deselect = px_Deselect patch, mu_SelectAll = px_SelectAll patch,
             mu_ClearAll = px_ClearAll patch, mu_Mode = map_option mode_of_text (px_Mode patch)\<rparr> (sv_gateway s)) s)) \<and>
    (q \<in> set (snd (client_Pin env dec c pin)) \<and> revision_ok (pi_Revision pin) \<longrightarrow>
      ServeHTTP opts sx (received remote q) s =
       (case (pi_Revision pin, id_Parse (pi_ModelID pin)) of
          (None, _) \<Rightarrow> (ReplyError 400 RevisionRequired, s) | (Some _, Inl _) \<Rightarrow> (ReplyError 400 (InvalidModelId (pi_ModelID pin)), s)
        | (Some r, Inr _) \<Rightarrow> apply_mutating opts sx (PinModel (word_of_int r) (pi_ModelID pin) (sv_gateway s)) s)) \<and>
    (q \<in> set (snd (client_Auto env dec c want)) \<and> revision_ok want \<longrightarrow>
      ServeHTTP opts sx (received remote q) s =
       (case want of None \<Rightarrow> (ReplyError 400 RevisionRequired, s)
        | Some r \<Rightarrow> apply_mutating opts sx (AutoSelect (sx_catalogOrder sx) (word_of_int r) (sv_gateway s)) s)) \<and>
    (q \<in> set (snd (client_UpdateConfig env dec' c upd)) \<and> revision_ok (Some (cq_Revision upd)) \<and> op_UpdateConfig opts \<longrightarrow>
      ServeHTTP opts sx (received remote q) s =
       (case updateConfig (sx_parseURL sx) (sx_codec sx) (sx_update sx) (sx_store sx) upd (sv_app s) of
          (Inl e, app) \<Rightarrow> (ReplyError (if e = ErrConfigRevisionConflict then 409 else 400) (UpdateProblem e), s\<lparr>sv_app := app\<rparr>)
        | (Inr resp, app) \<Rightarrow> (ReplyUpdated resp, s\<lparr>sv_app := app\<rparr>)))"
proof (intro conjI impI, goal_cases)
  case 1
  then show ?case by (elim conjE) (rule put_arrives [OF assms])
next
  case 2
  then show ?case by (elim conjE) (rule patch_arrives [OF assms])
next
  case 3
  then show ?case by (elim conjE) (rule pin_arrives [OF assms])
next
  case 4
  then show ?case by (elim conjE) (rule auto_arrives [OF assms])
next
  case 5
  then show ?case by (elim conjE) (rule update_arrives [OF assms])
qed

section \<open>The desktop and a running gateway\<close>

text \<open>The connector's own probe: the status of the control API.\<close>

definition probe :: "ClientEnv \<Rightarrow> (gostring \<Rightarrow> StatusResponse option) \<Rightarrow> gostring \<Rightarrow> gostring \<Rightarrow> probe_error + StatusResponse" where
  "probe env dec token address =
     (case fst (client_Status env dec (NewClient address token)) of
        Inl (HTTPErr code b) \<Rightarrow> Inl (ProbeHTTP code b)
      | Inl _ \<Rightarrow> Inl (ProbeFailed (PlainError ''gateway status''))
      | Inr status \<Rightarrow> Inr status)"

text \<open>The exchange when a server listens at the address; \<open>text\<close> is what it writes for a reply.\<close>

definition answered_by :: "Options \<Rightarrow> ('b, 'c) ServerEnv \<Rightarrow> ('b, 'c) ServerState \<Rightarrow> gostring \<Rightarrow> (control_reply \<Rightarrow> gostring) \<Rightarrow> ClientEnv" where
  "answered_by opts sx s remote reply_text =
     \<lparr>ke_parseURL = Some, ke_requestOK = \<lambda>_ _. True,
      ke_do = \<lambda>q. let rep = fst (ServeHTTP opts sx (received remote q) s)
        in HttpAnswer (reply_status rep) \<lparr>bd_data = reply_text rep, bd_fail = None\<rparr>\<rparr>"

text \<open>An address of a host and a port, without a scheme.\<close>

lemma str_Index_chars: "str_Index s p \<noteq> None \<Longrightarrow> set p \<subseteq> set s"
proof (induction s)
  case (Cons c s)
  have "set p \<subseteq> set (c # s)" if "HasPrefix (c # s) p"
    using that set_take_subset [of "length p" "c # s"] by (simp add: HasPrefix_def)
  with Cons show ?case by (auto split: if_splits)
qed (simp split: if_splits)

lemma NewClient_host:
  assumes "plain_host (TrimSpace address)"
  shows "NewClient address token = \<lparr>ct_BaseURL = ''http://'' @ TrimSpace address, ct_Token = token\<rparr>"
proof -
  have "\<not> str_Contains (TrimSpace address) ''://''"
  proof
    assume "str_Contains (TrimSpace address) ''://''"
    then have "set ''://'' \<subseteq> set (TrimSpace address)" unfolding str_Contains_def by (rule str_Index_chars)
    with assms show False by (simp add: plain_host_def)
  qed
  then show ?thesis
    using plain_host_TrimRight [OF assms, of "''http://''"] by (simp add: NewClient_def Let_def del: str_TrimRight.simps)
qed

lemma answered_by_reaches:
  "plain_host (TrimSpace address) \<Longrightarrow> reaches (answered_by opts sx s remote reply_text) (NewClient address token)"
  unfolding reaches_def answered_by_def
  by (rule conjI, rule exI [of _ "''http''"], rule exI [of _ "TrimSpace address"]) (simp_all add: NewClient_host)

lemma probe_answered:
  assumes "IsLoopbackRemote remote" and "\<not> list_ex is_space (TrimSpace token)" and host: "plain_host (TrimSpace address)"
    and short: "\<And>rep. length (reply_text rep) < maxControlBytes"
  shows "probe (answered_by opts sx s remote reply_text) dec token address =
    (if TrimSpace token \<noteq> [] \<and> TrimSpace token = TrimSpace (op_Token opts)
     then (case dec (reply_text (ReplyStatus (Status opts (control_snapshot sx (sv_gateway s))))) of
         None \<Rightarrow> Inl (ProbeFailed (PlainError ''gateway status'')) | Some status \<Rightarrow> Inr status)
     else Inl (ProbeHTTP 401 (TrimSpace (reply_text ReplyUnauthorized))))"
proof -
  let ?c = "NewClient address token" and ?env = "answered_by opts sx s remote reply_text"
  define q where "q = \<lparr>hq_Method = ''GET'', hq_URL = endpoint ?c ''/_fmr/status'',
    hq_Authorization = (if TrimSpace token \<noteq> [] then Some (bearer (TrimSpace token)) else None), hq_Body = None\<rparr>"
  have tok: "ct_Token ?c = token" by (simp add: NewClient_def Let_def)
  have sent: "q \<in> set (snd (client_Do ?env ?c ''GET'' ''/_fmr/status'' None))" and get: "hq_Method q = ''GET''"
    by (simp_all add: client_Do_def answered_by_def tok q_def Let_def)
  note path = sent_paths(5) [OF answered_by_reaches [OF host] sent]
  from arrived_served [OF sent assms(1), unfolded tok, OF assms(2), of opts sx "''/_fmr/status''" s]
  have served: "ServeHTTP opts sx (arrives remote ''/_fmr/status'' q) s =
      (if TrimSpace token \<noteq> [] \<and> TrimSpace token = TrimSpace (op_Token opts)
       then (ReplyStatus (Status opts (control_snapshot sx (sv_gateway s))), s) else (ReplyUnauthorized, s))"
    by (simp only: handle_routes(6) [of "arrives remote ''/_fmr/status'' q", unfolded arrives_sel get, OF refl refl])
  have read: "read_limited maxControlBytes \<lparr>bd_data = reply_text rep, bd_fail = None\<rparr> = Inr (reply_text rep)" for rep
    using short [of rep] by (simp add: read_limited_def)
  have "fst (client_Do ?env ?c ''GET'' ''/_fmr/status'' None) =
      (let rep = fst (ServeHTTP opts sx (received remote q) s)
       in if reply_status rep < 200 \<or> reply_status rep \<ge> 300 then Inl (HTTPErr (reply_status rep) (TrimSpace (reply_text rep)))
          else Inr (reply_text rep))"
    by (simp add: client_Do_def answered_by_def tok Let_def read flip: q_def)
  then show ?thesis
    by (auto simp: probe_def client_Status_def getJSON_def doJSON_def path served split: prod.splits option.splits)
qed

text \<open>C17: a desktop that finds a gateway running at its address (a host and a port) leaves it alone: with another
  token than the gateway's, one without spaces inside, it gives up, told that it is not authorized, and starts
  nothing, and with the gateway's token it attaches to the running gateway when the versions agree, again
  without starting or ever stopping a process. The request it asks with is the one the client makes, answered
  by the route it asks for. (The status is read back as it was written, and fits in the client's limit.)\<close>

theorem running_gateway_attach:
  assumes "IsLoopbackRemote remote" and "\<not> list_ex is_space (TrimSpace token)" and "plain_host (TrimSpace addr)"
    and "\<And>rep. length (reply_text rep) < maxControlBytes"
    and "dec (reply_text (ReplyStatus (Status opts (control_snapshot sx (sv_gateway s))))) =
      Some (Status opts (control_snapshot sx (sv_gateway s)))"
  shows "AttachOrStart conn addr (probe (answered_by opts sx s remote reply_text) dec token (TrimSpace addr)) turns =
    (let status = Status opts (control_snapshot sx (sv_gateway s)) in
     if TrimSpace token = [] \<or> TrimSpace token \<noteq> TrimSpace (op_Token opts)
     then Some (Inl (GatewayUnauthorized (ProbeHTTP 401 (TrimSpace (reply_text ReplyUnauthorized)))), [])
     else if CompatibleAPIMajor (expectedAPIVersion conn) (sr_APIVersion status)
     then Some (Inr \<lparr>gc_Status = status, gc_Address = TrimSpace addr, gc_Ownership = OwnershipExternal, gc_Process = None,
       gc_closed = False, gc_closeErr = None\<rparr>, [])
     else Some (Inl (VersionMismatch (expectedAPIVersion conn) (sr_APIVersion status) status), []))"
proof -
  have "TrimSpace (TrimSpace addr) = TrimSpace addr" by (rule TrimSpace_idem)
  with assms(3) have host: "plain_host (TrimSpace (TrimSpace addr))" by simp
  show ?thesis
    unfolding probe_answered [OF assms(1,2) host assms(4)] using assms(3)
    by (simp add: AttachOrStart_def externalConnection_def assms(5) plain_host_def Let_def)
qed


section \<open>Concrete inputs\<close>

definition sample_client_env :: ClientEnv where
  "sample_client_env = \<lparr>ke_parseURL = Some, ke_requestOK = \<lambda>_ _. True, ke_do = \<lambda>_. HttpError (PlainError [])\<rparr>"

definition sample_client :: Client where
  "sample_client = \<lparr>ct_BaseURL = ''http://127.0.0.1:8788'', ct_Token = ''key''\<rparr>"

lemma sample_admitted: "admitted ''127.0.0.1:9'' sample_client sample_opts"
proof -
  have "IsLoopbackRemote ''127.0.0.1:9''" "\<not> list_ex is_space (TrimSpace ''key'')" "TrimSpace ''key'' \<noteq> []" by code_simp+
  then show ?thesis by (simp add: admitted_def sample_client_def sample_opts_def)
qed

lemma sample_reaches: "reaches sample_client_env sample_client"
  unfolding reaches_def sample_client_env_def
  by (rule conjI, rule exI [of _ "''http''"], rule exI [of _ "''127.0.0.1:8788''"])
     (auto simp: sample_client_def plain_host_def)

theorem client_requests_arrive_witness:
  "\<exists>q \<in> set (snd (client_Auto sample_client_env (\<lambda>_. None) sample_client (Some 1))).
    ServeHTTP sample_opts sample_sx (received ''127.0.0.1:9'' q) sample_server =
      apply_mutating sample_opts sample_sx (AutoSelect (sx_catalogOrder sample_sx) 1 (sv_gateway sample_server)) sample_server"
proof -
  obtain q where q: "q \<in> set (snd (client_Auto sample_client_env (\<lambda>_. None) sample_client (Some 1)))"
    by (auto simp: client_Auto_def doJSON_sent client_Do_def sample_client_env_def Let_def)
  have "revision_ok (Some 1)" by (simp add: revision_ok_def)
  have arrive: "q \<in> set (snd (client_Auto sample_client_env (\<lambda>_. None) sample_client (Some 1))) \<and> revision_ok (Some 1) \<longrightarrow>
      ServeHTTP sample_opts sample_sx (received ''127.0.0.1:9'' q) sample_server =
       (case Some (1 :: int) of None \<Rightarrow> (ReplyError 400 RevisionRequired, sample_server)
        | Some r \<Rightarrow> apply_mutating sample_opts sample_sx (AutoSelect (sx_catalogOrder sample_sx) (word_of_int r) (sv_gateway sample_server)) sample_server)"
    by (rule client_requests_arrive [OF sample_admitted sample_reaches, THEN conjunct2, THEN conjunct2, THEN conjunct2, THEN conjunct1])
  then have "ServeHTTP sample_opts sample_sx (received ''127.0.0.1:9'' q) sample_server =
      apply_mutating sample_opts sample_sx (AutoSelect (sx_catalogOrder sample_sx) (word_of_int 1) (sv_gateway sample_server)) sample_server"
    using q \<open>revision_ok (Some 1)\<close> unfolding option.case by (elim impE) (intro conjI)
  with q show ?thesis by auto
qed

theorem running_gateway_attach_witness:
  "AttachOrStart sample_connector ''127.0.0.1:8788''
      (probe (answered_by sample_opts sample_sx sample_server ''127.0.0.1:9'' (\<lambda>_. []))
        (\<lambda>_. Some (Status sample_opts (control_snapshot sample_sx (sv_gateway sample_server)))) ''wrong'' ''127.0.0.1:8788'') [] =
     Some (Inl (GatewayUnauthorized (ProbeHTTP 401 [])), [])"
proof -
  have t: "IsLoopbackRemote ''127.0.0.1:9''" "\<not> list_ex is_space (TrimSpace ''wrong'')" "TrimSpace ''wrong'' \<noteq> TrimSpace ''key''"
    "TrimSpace ''127.0.0.1:8788'' = ''127.0.0.1:8788''" "TrimSpace [] = []" by code_simp+
  have "AttachOrStart sample_connector ''127.0.0.1:8788''
      (probe (answered_by sample_opts sample_sx sample_server ''127.0.0.1:9'' (\<lambda>_. []))
        (\<lambda>_. Some (Status sample_opts (control_snapshot sample_sx (sv_gateway sample_server)))) ''wrong'' (TrimSpace ''127.0.0.1:8788'')) [] =
     Some (Inl (GatewayUnauthorized (ProbeHTTP 401 (TrimSpace []))), [])"
    by (subst running_gateway_attach [OF t(1,2)]) (simp_all add: t maxControlBytes_def sample_opts_def plain_host_def)
  then show ?thesis by (simp only: t)
qed

end
