(* ===== verification/Packaging.thy ===== *)
theory Packaging
  imports ControlClient
begin

text \<open>
  Release metadata of \<open>internal/packaging\<close>: the identity of a sidecar binary with its digest
  (\<open>metadata.go\<close>) and the manifest of a Windows package around it (\<open>manifest.go\<close>). SHA-256 is given; JSON
  text is given as the values a file holds. Writing is another provider of \<open>durable_file\<close>.
\<close>

section \<open>Sidecar metadata (metadata.go)\<close>

datatype package_error =
    InvalidMetadata
  | UnsupportedSchema
  | ChecksumMismatch gostring gostring
  | HashBinary cache_error
  | PackagePathEmpty
  | WritePackage cache_error
  | OpenPackage cache_error
  | InvalidManifest
  | UnsupportedManifestSchema

record SidecarMetadata =
  sm_SchemaVersion :: int
  sm_Product :: gostring
  sm_Artifact :: gostring
  sm_TargetTriple :: gostring
  sm_BinaryVersion :: gostring
  sm_APIVersion :: gostring
  sm_APIMajor :: gostring
  sm_SHA256 :: gostring
  sm_Ownership :: gostring

definition CurrentSchemaVersion :: int where
  "CurrentSchemaVersion = 1"

definition ProductName :: gostring where
  "ProductName = ''Free-Model-Router''"

definition unsafe_char :: "char \<Rightarrow> bool" where
  "unsafe_char c \<longleftrightarrow> c \<in> {CHR 0x0D, CHR 0x0A, CHR ''/'', CHR 0x5C}"

definition safeToken :: "gostring \<Rightarrow> bool" where
  "safeToken v \<longleftrightarrow> TrimSpace v \<noteq> [] \<and> \<not> list_ex unsafe_char (TrimSpace v)"

text \<open>\<open>hex.DecodeString\<close>: the number of bytes.\<close>

definition hex_length :: "gostring \<Rightarrow> nat option" where
  "hex_length s = (if list_all (\<lambda>c. hex_val c \<noteq> None) s \<and> even (length s) then Some (length s div 2) else None)"

definition metadata_Validate :: "SidecarMetadata \<Rightarrow> package_error option" where
  "metadata_Validate m =
     (if sm_SchemaVersion m > CurrentSchemaVersion then Some UnsupportedSchema
      else if sm_SchemaVersion m \<noteq> CurrentSchemaVersion then Some InvalidMetadata
      else if TrimSpace (sm_Product m) \<noteq> ProductName \<or> \<not> safeToken (sm_Artifact m) \<or> \<not> safeToken (sm_TargetTriple m) \<or>
        \<not> safeToken (sm_BinaryVersion m) then Some InvalidMetadata
      else if TrimSpace (sm_APIVersion m) = [] \<or> \<not> safeToken (sm_APIVersion m) \<or> sm_APIMajor m = [] \<or>
        \<not> safeToken (sm_APIMajor m) \<or> APIMajor (sm_APIVersion m) \<noteq> sm_APIMajor m then Some InvalidMetadata
      else if sm_Ownership m \<noteq> OwnershipDesktopManaged \<and> sm_Ownership m \<noteq> OwnershipExternal then Some InvalidMetadata
      else if hex_length (sm_SHA256 m) \<noteq> Some 32 \<or> ToLower (sm_SHA256 m) \<noteq> sm_SHA256 m then Some InvalidMetadata
      else None)"

definition SHA256File :: "('c \<Rightarrow> 8 word list) \<Rightarrow> bool \<Rightarrow> gostring \<Rightarrow> 'c fs \<Rightarrow> cache_error + gostring" where
  "SHA256File sha readable path f = (case os_ReadFile readable path f of Inl e \<Rightarrow> Inl e | Inr c \<Rightarrow> Inr (hex_encode (sha c)))"

definition VerifyFile :: "('c \<Rightarrow> 8 word list) \<Rightarrow> bool \<Rightarrow> SidecarMetadata \<Rightarrow> gostring \<Rightarrow> 'c fs \<Rightarrow> package_error option" where
  "VerifyFile sha readable m path f =
     (case metadata_Validate m of
        Some e \<Rightarrow> Some e
      | None \<Rightarrow>
          (case SHA256File sha readable path f of
             Inl e \<Rightarrow> Some (HashBinary e)
           | Inr digest \<Rightarrow> if digest \<noteq> sm_SHA256 m then Some (ChecksumMismatch (sm_SHA256 m) digest) else None))"

definition metadata_names :: "gostring list" where
  "metadata_names = [''schemaVersion'', ''product'', ''artifact'', ''targetTriple'', ''binaryVersion'', ''apiVersion'', ''apiMajor'',
     ''sha256'', ''ownership'']"

definition metadata_json :: "SidecarMetadata \<Rightarrow> json" where
  "metadata_json m = JObj [(''schemaVersion'', enc_int (sm_SchemaVersion m)), (''product'', JStr (sm_Product m)),
     (''artifact'', JStr (sm_Artifact m)), (''targetTriple'', JStr (sm_TargetTriple m)), (''binaryVersion'', JStr (sm_BinaryVersion m)),
     (''apiVersion'', JStr (sm_APIVersion m)), (''apiMajor'', JStr (sm_APIMajor m)), (''sha256'', JStr (sm_SHA256 m)),
     (''ownership'', JStr (sm_Ownership m))]"

definition metadata_field :: "gostring \<Rightarrow> json \<Rightarrow> SidecarMetadata \<Rightarrow> SidecarMetadata option" where
  "metadata_field k j m = (case field_named metadata_names k of
       None \<Rightarrow> Some m
     | Some n \<Rightarrow>
         if n = ''schemaVersion'' then map_option (\<lambda>x. m\<lparr>sm_SchemaVersion := x\<rparr>) (dec_int (sm_SchemaVersion m) j)
         else if n = ''product'' then map_option (\<lambda>x. m\<lparr>sm_Product := x\<rparr>) (dec_string (sm_Product m) j)
         else if n = ''artifact'' then map_option (\<lambda>x. m\<lparr>sm_Artifact := x\<rparr>) (dec_string (sm_Artifact m) j)
         else if n = ''targetTriple'' then map_option (\<lambda>x. m\<lparr>sm_TargetTriple := x\<rparr>) (dec_string (sm_TargetTriple m) j)
         else if n = ''binaryVersion'' then map_option (\<lambda>x. m\<lparr>sm_BinaryVersion := x\<rparr>) (dec_string (sm_BinaryVersion m) j)
         else if n = ''apiVersion'' then map_option (\<lambda>x. m\<lparr>sm_APIVersion := x\<rparr>) (dec_string (sm_APIVersion m) j)
         else if n = ''apiMajor'' then map_option (\<lambda>x. m\<lparr>sm_APIMajor := x\<rparr>) (dec_string (sm_APIMajor m) j)
         else if n = ''sha256'' then map_option (\<lambda>x. m\<lparr>sm_SHA256 := x\<rparr>) (dec_string (sm_SHA256 m) j)
         else map_option (\<lambda>x. m\<lparr>sm_Ownership := x\<rparr>) (dec_string (sm_Ownership m) j))"

definition zero_metadata :: SidecarMetadata where
  "zero_metadata = \<lparr>sm_SchemaVersion = 0, sm_Product = [], sm_Artifact = [], sm_TargetTriple = [], sm_BinaryVersion = [],
     sm_APIVersion = [], sm_APIMajor = [], sm_SHA256 = [], sm_Ownership = []\<rparr>"

text \<open>The text of a JSON document, and the values a text holds.\<close>

record 'c DocCodec =
  dc_print :: "json \<Rightarrow> 'c"
  dc_scan :: "'c \<Rightarrow> BodyScan"
  dc_none :: 'c

definition dec_metadata :: "SidecarMetadata \<Rightarrow> json \<Rightarrow> SidecarMetadata option" where
  "dec_metadata = dec_struct (strict metadata_names metadata_field)"

definition metadata_Read :: "'c DocCodec \<Rightarrow> bool \<Rightarrow> gostring \<Rightarrow> 'c fs \<Rightarrow> package_error + SidecarMetadata" where
  "metadata_Read cd readable path f =
     (case os_ReadFile readable path f of
        Inl e \<Rightarrow> Inl (OpenPackage e)
      | Inr c \<Rightarrow>
          (case decodeJSON dec_metadata zero_metadata (Some (dc_scan cd c)) of
             Inl _ \<Rightarrow> Inl InvalidMetadata
           | Inr m \<Rightarrow> (case metadata_Validate m of Some e \<Rightarrow> Inl e | None \<Rightarrow> Inr m)))"

section \<open>Writing (metadata.go)\<close>

text \<open>Unlike the cache's, this one gives up when there is nothing to move aside.\<close>

definition package_replaceFile ::
  "'c SaveEnv \<Rightarrow> gostring \<Rightarrow> gostring \<Rightarrow> 'c fs \<Rightarrow> cache_error option \<times> 'c fs list" where
  "package_replaceFile env tempPath targetPath f0 =
     (case os_Rename (ev_rename1 env) tempPath targetPath f0 of
        (None, f1) \<Rightarrow> (None, [f1])
      | (Some _, f1) \<Rightarrow>
          (let backupPath = bak targetPath; f2 = os_Remove (ev_removeBak env) backupPath f1
           in case os_Rename (ev_rename2 env) targetPath backupPath f2 of
                (Some e, f3) \<Rightarrow> (Some e, [f2, f3])
              | (None, f3) \<Rightarrow>
                  (case os_Rename (ev_rename3 env) tempPath targetPath f3 of
                     (Some e, f4) \<Rightarrow> (Some e, [f2, f3, f4, snd (os_Rename (ev_restore env) backupPath targetPath f4)])
                   | (None, f4) \<Rightarrow> (None, [f2, f3, f4, os_Remove (ev_removeBak2 env) backupPath f4]))))"

text \<open>The write of a path that is trimmed and not empty.\<close>

definition package_write ::
  "'c \<Rightarrow> 'c SaveEnv \<Rightarrow> gostring \<Rightarrow> 'c \<Rightarrow> 'c fs \<Rightarrow> cache_error option \<times> 'c fs list" where
  "package_write noBytes env path data f0 =
     (if \<not> ev_mkdir env then (Some (OSError ''create JSON directory''), [f0])
      else if \<not> ev_create env then (Some (OSError ''create JSON temp file''), [f0])
      else let tmp = ev_tmpName env; f1 = f0(tmp \<mapsto> noBytes); f2 = f0(tmp \<mapsto> ev_partial env); f3 = f0(tmp \<mapsto> data);
          (err, fss) =
            (if \<not> ev_chmodTmp env then (Some (OSError ''protect JSON temp file''), [f0, f1])
             else if \<not> ev_write env then (Some (OSError ''write JSON temp file''), [f0, f1, f2])
             else if \<not> ev_sync env then (Some (OSError ''sync JSON temp file''), [f0, f1, f2, f3])
             else if \<not> ev_close env then (Some (OSError ''close JSON temp file''), [f0, f1, f2, f3])
             else case package_replaceFile env tmp path f3 of
               (Some e, fss) \<Rightarrow> (Some e, [f0, f1, f2, f3] @ fss)
             | (None, fss) \<Rightarrow> (if ev_protect env then None else Some (OSError ''chmod''), [f0, f1, f2, f3] @ fss))
        in with_cleanup env err fss)"

definition writeAtomicJSON ::
  "'c DocCodec \<Rightarrow> 'c SaveEnv \<Rightarrow> gostring \<Rightarrow> json \<Rightarrow> 'c fs \<Rightarrow> package_error option \<times> 'c fs list" where
  "writeAtomicJSON cd env path doc f =
     (if TrimSpace path = [] then (Some PackagePathEmpty, [f])
      else case package_write (dc_none cd) env (TrimSpace path) (dc_print cd doc) f of
        (e, fss) \<Rightarrow> (map_option WritePackage e, fss))"

definition metadata_Write ::
  "'c DocCodec \<Rightarrow> 'c SaveEnv \<Rightarrow> gostring \<Rightarrow> SidecarMetadata \<Rightarrow> 'c fs \<Rightarrow> package_error option \<times> 'c fs list" where
  "metadata_Write cd env path m f =
     (case metadata_Validate m of
        Some e \<Rightarrow> (Some e, [f])
      | None \<Rightarrow> if TrimSpace path = [] then (Some InvalidMetadata, [f])
          else writeAtomicJSON cd env (TrimSpace path) (metadata_json m) f)"

text \<open>\<open>filepath.Base\<close> with \<open>/\<close> as the separator.\<close>

definition filepath_Base :: "gostring \<Rightarrow> gostring" where
  "filepath_Base p =
     (if p = [] then ''.''
      else let q = rev (dropWhile (\<lambda>c. c = CHR ''/'') (rev p))
        in if q = [] then ''/'' else rev (takeWhile (\<lambda>c. c \<noteq> CHR ''/'') (rev q)))"

definition Generate ::
  "('c \<Rightarrow> 8 word list) \<Rightarrow> bool \<Rightarrow> 'c DocCodec \<Rightarrow> 'c SaveEnv \<Rightarrow> gostring \<Rightarrow> gostring \<Rightarrow> gostring \<Rightarrow> gostring \<Rightarrow> gostring \<Rightarrow>
   gostring \<Rightarrow> 'c fs \<Rightarrow> (package_error + SidecarMetadata) \<times> 'c fs list" where
  "Generate sha readable cd env binaryPath metadataPath targetTriple binaryVersion apiVersion ownership f =
     (case SHA256File sha readable binaryPath f of
        Inl e \<Rightarrow> (Inl (HashBinary e), [f])
      | Inr digest \<Rightarrow>
          (let m = \<lparr>sm_SchemaVersion = CurrentSchemaVersion, sm_Product = ProductName, sm_Artifact = filepath_Base binaryPath,
              sm_TargetTriple = TrimSpace targetTriple, sm_BinaryVersion = TrimSpace binaryVersion, sm_APIVersion = TrimSpace apiVersion,
              sm_APIMajor = APIMajor apiVersion, sm_SHA256 = digest, sm_Ownership = ownership\<rparr>
           in case metadata_Validate m of
                Some e \<Rightarrow> (Inl e, [f])
              | None \<Rightarrow> (case metadata_Write cd env metadataPath m f of
                  (Some e, fss) \<Rightarrow> (Inl e, fss) | (None, fss) \<Rightarrow> (Inr m, fss))))"

section \<open>A write keeps the old or the new document\<close>

text \<open>When there is something to move aside, or the first rename works, the steps are those of the cache.\<close>

definition replaceable :: "'c SaveEnv \<Rightarrow> gostring \<Rightarrow> 'c \<Rightarrow> 'c fs \<Rightarrow> bool" where
  "replaceable env p d f \<longleftrightarrow> ev_rename1 env \<or> (f(ev_tmpName env \<mapsto> d)) p \<noteq> None"

lemma package_replace_same:
  assumes "replaceable env p d f"
  shows "snd (package_replaceFile env (ev_tmpName env) p (f(ev_tmpName env \<mapsto> d))) =
      snd (replaceFile env (ev_tmpName env) p (f(ev_tmpName env \<mapsto> d))) \<and>
    (fst (package_replaceFile env (ev_tmpName env) p (f(ev_tmpName env \<mapsto> d))) = None \<longleftrightarrow>
     fst (replaceFile env (ev_tmpName env) p (f(ev_tmpName env \<mapsto> d))) = None)"
proof (cases "ev_rename1 env")
  case True
  then show ?thesis by (simp add: package_replaceFile_def replaceFile_def os_Rename_def)
next
  case False
  with assms obtain c where c: "(f(ev_tmpName env \<mapsto> d)) p = Some c" by (auto simp: replaceable_def)
  let ?f2 = "os_Remove (ev_removeBak env) (bak p) (f(ev_tmpName env \<mapsto> d))"
  have c2: "?f2 p = Some c" using c by (simp add: os_Remove_def bak_neq)
  have r1: "os_Rename (ev_rename1 env) (ev_tmpName env) p (f(ev_tmpName env \<mapsto> d)) = (Some (OSError ''rename''), f(ev_tmpName env \<mapsto> d))"
    using False by (simp add: os_Rename_def)
  show ?thesis
  proof (cases "ev_rename2 env")
    case True
    then have "\<exists>f3. os_Rename (ev_rename2 env) p (bak p) ?f2 = (None, f3)" by (simp add: os_Rename_def c2)
    then show ?thesis unfolding package_replaceFile_def replaceFile_def r1
      by (auto simp: Let_def split: prod.split option.split)
  next
    case False
    then have "os_Rename (ev_rename2 env) p (bak p) ?f2 = (Some (OSError ''rename''), ?f2)" by (simp add: os_Rename_def c2)
    then show ?thesis unfolding package_replaceFile_def replaceFile_def r1 by (simp add: Let_def)
  qed
qed

definition replaceable_write ::
  "'c \<Rightarrow> 'c SaveEnv \<Rightarrow> gostring \<Rightarrow> 'c \<Rightarrow> 'c fs \<Rightarrow> cache_error option \<times> 'c fs list" where
  "replaceable_write nb env p d f = (if replaceable env p d f then package_write nb env p d f else (Some NotExist, [f]))"

lemma staged_replaceable: "staged_write (replaceable_write nb) nb"
  unfolding staged_write_def
proof (intro allI)
  fix env :: "'a SaveEnv" and p d f
  let ?w = "replaceable_write nb env p d f"
  show "fst ?w \<noteq> None \<and> snd ?w = [f] \<or>
      (fst ?w = None) = (fst (write_and_replace env p nb d f) = None) \<and>
      snd ?w = snd (with_cleanup env None (snd (write_and_replace env p nb d f)))"
  proof (cases "replaceable env p d f \<and> ev_mkdir env \<and> ev_create env")
    case True
    note same = package_replace_same [OF conjunct1 [OF True]]
    from True have "?w = package_write nb env p d f" by (simp add: replaceable_write_def)
    with same True show ?thesis
      by (cases "package_replaceFile env (ev_tmpName env) p (f(ev_tmpName env \<mapsto> d))";
          cases "replaceFile env (ev_tmpName env) p (f(ev_tmpName env \<mapsto> d))")
        (auto simp: package_write_def write_and_replace_def with_cleanup_def Let_def split: option.splits)
  next
    case False
    then show ?thesis by (auto simp: replaceable_write_def package_write_def)
  qed
qed

lemma unreplaceable_write:
  assumes "\<not> replaceable env p d f"
  shows "fst (package_write nb env p d f) \<noteq> None" and "snd (package_write nb env p d f) \<noteq> []"
    and "q \<notin> {p, bak p, ev_tmpName env} \<Longrightarrow> g \<in> set (snd (package_write nb env p d f)) \<Longrightarrow> g q = f q"
  using assms
  by (auto simp: package_write_def package_replaceFile_def replaceable_def with_cleanup_def os_Rename_def os_Remove_def Let_def bak_neq
      split: if_splits)

lemmas replaceable_durable = durable_staged [OF staged_replaceable]

lemma durable_package_write: "durable_file (package_write nb) ev_tmpName"
proof unfold_locales
  fix e p d f
  show "snd (package_write nb e p d f) \<noteq> []"
    using durable_file.steps_ne [OF replaceable_durable, of nb e p d f] unreplaceable_write(2) [of e p d f nb]
    by (cases "replaceable e p d f") (simp_all add: replaceable_write_def)
next
  fix e p f old g d
  assume a: "ev_tmpName e \<noteq> p" "ev_tmpName e \<noteq> bak p" "f p = Some old" "g \<in> set (snd (package_write nb e p d f))"
  then have "replaceable e p d f" by (simp add: replaceable_def)
  with a durable_file.keeps [OF replaceable_durable, of e p f old g nb d] show "recoverable p g \<in> {Some old, Some d}"
    by (simp add: replaceable_write_def)
next
  fix e p d f
  assume a: "ev_tmpName e \<noteq> p" "ev_tmpName e \<noteq> bak p" "fst (package_write nb e p d f) = None"
  then have "replaceable e p d f" using unreplaceable_write(1) [of e p d f nb] by (cases "replaceable e p d f") simp_all
  with a durable_file.installs [OF replaceable_durable, of e p nb d f] show "last (snd (package_write nb e p d f)) p = Some d"
    by (simp add: replaceable_write_def)
next
  fix q p e g d f
  assume a: "q \<notin> {p, bak p, ev_tmpName e}" "g \<in> set (snd (package_write nb e p d f))"
  show "g q = f q"
  proof (cases "replaceable e p d f")
    case True
    with a durable_file.others [OF replaceable_durable a(1), of g nb d f] show ?thesis by (simp add: replaceable_write_def)
  next
    case False
    from unreplaceable_write(3) [OF False a] show ?thesis .
  qed
qed

interpretation package_file: durable_file "package_write nb" ev_tmpName for nb
  by (rule durable_package_write)

section \<open>What is generated can be read and verified\<close>

text \<open>Field names without special letters that differ in more than case are found as they are.\<close>

definition plain_names :: "gostring list \<Rightarrow> bool" where
  "plain_names names \<longleftrightarrow> distinct (map ToLower names) \<and> list_all (\<lambda>n. fold_special n = n) names"

lemma field_named_plain:
  assumes "plain_names names" and "k \<in> set names"
  shows "field_named names k = Some k"
proof -
  from assms have k: "fold_special k = k" by (auto simp: plain_names_def list_all_iff)
  from assms have d: "distinct (map ToLower names)" by (simp add: plain_names_def)
  have "List.find (\<lambda>n. ToLower k = ToLower n) names = Some k"
    using d assms(2) by (induction names) (auto, metis imageI)
  then show ?thesis by (simp add: field_named_def EqualFold_ascii_def [abs_def] EqualFold_def [abs_def] k)
qed

lemma metadata_plain: "plain_names metadata_names"
  by code_simp

lemma metadata_name_fields:
  "field_named metadata_names ''schemaVersion'' = Some ''schemaVersion''" "field_named metadata_names ''product'' = Some ''product''"
  "field_named metadata_names ''artifact'' = Some ''artifact''" "field_named metadata_names ''targetTriple'' = Some ''targetTriple''"
  "field_named metadata_names ''binaryVersion'' = Some ''binaryVersion''" "field_named metadata_names ''apiVersion'' = Some ''apiVersion''"
  "field_named metadata_names ''apiMajor'' = Some ''apiMajor''" "field_named metadata_names ''sha256'' = Some ''sha256''"
  "field_named metadata_names ''ownership'' = Some ''ownership''"
  by (rule field_named_plain [OF metadata_plain], simp add: metadata_names_def)+

lemma dec_metadata_json:
  "sm_SchemaVersion m = CurrentSchemaVersion \<Longrightarrow> dec_metadata zero_metadata (metadata_json m) = Some m"
  by (cases m) (simp add: dec_metadata_def metadata_json_def dec_struct_def strict_named metadata_field_def metadata_name_fields
      zero_metadata_def CurrentSchemaVersion_def)

text \<open>A digest is always well formed.\<close>

lemma hex_digits_16: "length ''0123456789abcdef'' = 16"
  by simp

lemma hex_encode_digest:
  "hex_length (hex_encode bs) = Some (length bs)" "ToLower (hex_encode bs) = hex_encode bs"
proof -
  have all: "list_all (\<lambda>c. hex_val c \<noteq> None \<and> to_lower_char c = c) ''0123456789abcdef''" by code_simp
  have "hex_val (hex_digit n) \<noteq> None \<and> to_lower_char (hex_digit n) = hex_digit n" if "n < 16" for n
    using all that unfolding list_all_length hex_digits_16 hex_digit_def [symmetric] by blast
  then have d: "hex_val (hex_digit (unat b div 16)) \<noteq> None" "hex_val (hex_digit (unat b mod 16)) \<noteq> None"
    "to_lower_char (hex_digit (unat b div 16)) = hex_digit (unat b div 16)"
    "to_lower_char (hex_digit (unat b mod 16)) = hex_digit (unat b mod 16)" for b :: "8 word"
    using unsigned_less [where 'a = nat, of b] by (simp_all add: less_mult_imp_div_less)
  have "list_all (\<lambda>c. hex_val c \<noteq> None) (hex_encode bs)" "length (hex_encode bs) = 2 * length bs"
    using d by (induction bs) (simp_all add: hex_encode_def)
  then show "hex_length (hex_encode bs) = Some (length bs)" by (simp add: hex_length_def)
  show "ToLower (hex_encode bs) = hex_encode bs" using d by (induction bs) (simp_all add: hex_encode_def ToLower_def)
qed

text \<open>The scanner finds in a printed document exactly this document.\<close>

definition doc_codec_ok :: "'c DocCodec \<Rightarrow> bool" where
  "doc_codec_ok cd \<longleftrightarrow> (\<forall>j. dc_scan cd (dc_print cd j) = \<lparr>bs_values = [j], bs_broken = False\<rparr>)"

lemma metadata_Validate_schema: "metadata_Validate m = None \<Longrightarrow> sm_SchemaVersion m = CurrentSchemaVersion"
  by (auto simp: metadata_Validate_def split: if_splits)

lemma Write_Read:
  assumes "doc_codec_ok cd" and "metadata_Write cd env path m f = (None, fss)"
    and t: "ev_tmpName env \<noteq> TrimSpace path" "ev_tmpName env \<noteq> bak (TrimSpace path)"
  shows "metadata_Read cd True (TrimSpace path) (last fss) = Inr m" and "metadata_Validate m = None"
    and "q \<notin> {TrimSpace path, bak (TrimSpace path), ev_tmpName env} \<Longrightarrow> last fss q = f q"
proof -
  from assms(2) have v: "metadata_Validate m = None"
    and w: "package_write (dc_none cd) env (TrimSpace path) (dc_print cd (metadata_json m)) f = (None, fss)"
    by (auto simp: metadata_Write_def writeAtomicJSON_def TrimSpace_idem split: option.splits if_splits prod.splits)
  from v show "metadata_Validate m = None" .
  have "last fss (TrimSpace path) = Some (dc_print cd (metadata_json m))"
    using package_file.installs [OF t, where d = "dc_print cd (metadata_json m)" and nb = "dc_none cd" and f = f] w by simp
  then show "metadata_Read cd True (TrimSpace path) (last fss) = Inr m"
    using assms(1) v dec_metadata_json [OF metadata_Validate_schema [OF v]]
    by (simp add: metadata_Read_def os_ReadFile_def doc_codec_ok_def decode_sent(1))
  show "last fss q = f q" if "q \<notin> {TrimSpace path, bak (TrimSpace path), ev_tmpName env}"
    using package_file.after_write_others [OF that, where d = "dc_print cd (metadata_json m)" and nb = "dc_none cd" and f = f] w
    by (simp add: package_file.after_write_def)
qed

text \<open>Metadata that was generated for a binary is read back as it was made, and the binary verifies
  against it; any other content at that path, as long as its SHA-256 differs, is refused with both digests.\<close>

theorem generated_metadata_verifies:
  assumes "doc_codec_ok cd"
    and "Generate sha True cd env binaryPath metadataPath triple version api ownership f = (Inr m, fss)"
    and "ev_tmpName env \<notin> {binaryPath, TrimSpace metadataPath, bak (TrimSpace metadataPath)}"
    and "binaryPath \<notin> {TrimSpace metadataPath, bak (TrimSpace metadataPath)}"
  shows "metadata_Read cd True (TrimSpace metadataPath) (last fss) = Inr m \<and> VerifyFile sha True m binaryPath (last fss) = None \<and>
    sm_Artifact m = filepath_Base binaryPath \<and>
    (hex_encode (sha content) \<noteq> sm_SHA256 m \<longrightarrow>
      VerifyFile sha True m binaryPath ((last fss)(binaryPath \<mapsto> content)) =
        Some (ChecksumMismatch (sm_SHA256 m) (hex_encode (sha content))))"
proof -
  from assms(2) obtain c where c: "f binaryPath = Some c" "sm_SHA256 m = hex_encode (sha c)" "sm_Artifact m = filepath_Base binaryPath"
    and w: "metadata_Write cd env metadataPath m f = (None, fss)"
    by (auto simp: Generate_def SHA256File_def os_ReadFile_def Let_def split: sum.splits option.splits prod.splits)
  have t: "ev_tmpName env \<noteq> TrimSpace metadataPath" "ev_tmpName env \<noteq> bak (TrimSpace metadataPath)" using assms(3) by simp_all
  note wr = Write_Read [OF assms(1) w t]
  have "last fss binaryPath = Some c" using wr(3) [of binaryPath] assms(3,4) c(1) by auto
  with wr(1,2) c(2,3) show ?thesis by (simp add: VerifyFile_def SHA256File_def os_ReadFile_def)
qed

section \<open>The Windows manifest (manifest.go)\<close>

record ToolRequirements =
  tl_Go :: bool
  tl_Node :: bool
  tl_NPM :: bool
  tl_Rust :: bool

record WindowsInstallContract =
  wi_Format :: gostring
  wi_Upgrade :: gostring
  wi_Uninstall :: gostring

record WindowsManifest =
  wm_SchemaVersion :: int
  wm_Product :: gostring
  wm_Platform :: gostring
  wm_TargetTriple :: gostring
  wm_DesktopExecutable :: gostring
  wm_DesktopIncluded :: bool
  wm_GatewaySidecar :: gostring
  wm_ControlCLI :: gostring
  wm_SidecarMetadata :: gostring
  wm_Sidecar :: SidecarMetadata
  wm_RuntimeRequirements :: ToolRequirements
  wm_BuildRequirements :: ToolRequirements
  wm_Installer :: WindowsInstallContract

definition CurrentManifestSchemaVersion :: int where
  "CurrentManifestSchemaVersion = 1"

definition no_tools :: ToolRequirements where
  "no_tools = \<lparr>tl_Go = False, tl_Node = False, tl_NPM = False, tl_Rust = False\<rparr>"

definition build_tools :: ToolRequirements where
  "build_tools = \<lparr>tl_Go = True, tl_Node = True, tl_NPM = True, tl_Rust = True\<rparr>"

definition zip_contract :: WindowsInstallContract where
  "zip_contract = \<lparr>wi_Format = ''zip'', wi_Upgrade = ''replace-versioned-install-and-preserve-user-data'',
     wi_Uninstall = ''remove-installed-binaries-and-preserve-user-data''\<rparr>"

definition NewWindowsManifestWithDesktop :: "SidecarMetadata \<Rightarrow> gostring \<Rightarrow> bool \<Rightarrow> WindowsManifest" where
  "NewWindowsManifestWithDesktop m desktopExecutable included =
     \<lparr>wm_SchemaVersion = CurrentManifestSchemaVersion, wm_Product = ProductName, wm_Platform = ''windows'',
      wm_TargetTriple = sm_TargetTriple m,
      wm_DesktopExecutable = (if TrimSpace desktopExecutable = [] then TrimSpace ''Free-Model-Router-desktop.exe'' else TrimSpace desktopExecutable),
      wm_DesktopIncluded = included, wm_GatewaySidecar = sm_Artifact m, wm_ControlCLI = ''fmr.exe'',
      wm_SidecarMetadata = sm_Artifact m @ ''.metadata.json'', wm_Sidecar = m, wm_RuntimeRequirements = no_tools,
      wm_BuildRequirements = build_tools, wm_Installer = zip_contract\<rparr>"

definition NewWindowsManifest :: "SidecarMetadata \<Rightarrow> gostring \<Rightarrow> WindowsManifest" where
  "NewWindowsManifest m desktopExecutable = NewWindowsManifestWithDesktop m desktopExecutable False"

definition str_HasSuffix :: "gostring \<Rightarrow> gostring \<Rightarrow> bool" where
  "str_HasSuffix s t = HasPrefix (rev s) (rev t)"

definition safeFileName :: "gostring \<Rightarrow> bool" where
  "safeFileName v \<longleftrightarrow> TrimSpace v \<notin> {[], ''.'', ''..''} \<and> \<not> list_ex unsafe_char (TrimSpace v)"

definition safeWindowsExecutable :: "gostring \<Rightarrow> bool" where
  "safeWindowsExecutable v \<longleftrightarrow> safeFileName v \<and> str_HasSuffix (ToLower (TrimSpace v)) ''.exe''"

definition safeJSONFile :: "gostring \<Rightarrow> bool" where
  "safeJSONFile v \<longleftrightarrow> safeFileName v \<and> str_HasSuffix (ToLower (TrimSpace v)) ''.json''"

definition manifest_Validate :: "WindowsManifest \<Rightarrow> package_error option" where
  "manifest_Validate m =
     (if wm_SchemaVersion m > CurrentManifestSchemaVersion then Some UnsupportedManifestSchema
      else if wm_SchemaVersion m \<noteq> CurrentManifestSchemaVersion then Some InvalidManifest
      else if wm_Product m \<noteq> ProductName \<or> wm_Platform m \<noteq> ''windows'' \<or> \<not> safeWindowsExecutable (wm_DesktopExecutable m) \<or>
        \<not> safeWindowsExecutable (wm_GatewaySidecar m) \<or> \<not> safeWindowsExecutable (wm_ControlCLI m) \<or>
        \<not> safeJSONFile (wm_SidecarMetadata m) \<or> wm_TargetTriple m = [] then Some InvalidManifest
      else if metadata_Validate (wm_Sidecar m) \<noteq> None then Some InvalidManifest
      else if wm_TargetTriple m \<noteq> sm_TargetTriple (wm_Sidecar m) \<or> wm_GatewaySidecar m \<noteq> sm_Artifact (wm_Sidecar m) \<or>
        wm_SidecarMetadata m \<noteq> sm_Artifact (wm_Sidecar m) @ ''.metadata.json'' then Some InvalidManifest
      else if wm_RuntimeRequirements m \<noteq> no_tools then Some InvalidManifest
      else if wm_BuildRequirements m \<noteq> build_tools then Some InvalidManifest
      else if wm_Installer m \<noteq> zip_contract then Some InvalidManifest
      else None)"

definition tools_json :: "ToolRequirements \<Rightarrow> json" where
  "tools_json t = JObj [(''go'', JBool (tl_Go t)), (''node'', JBool (tl_Node t)), (''npm'', JBool (tl_NPM t)), (''rust'', JBool (tl_Rust t))]"

definition tool_names :: "gostring list" where
  "tool_names = [''go'', ''node'', ''npm'', ''rust'']"

definition tools_field :: "gostring \<Rightarrow> json \<Rightarrow> ToolRequirements \<Rightarrow> ToolRequirements option" where
  "tools_field k j t = (case field_named tool_names k of
       None \<Rightarrow> Some t
     | Some n \<Rightarrow>
         if n = ''go'' then map_option (\<lambda>x. t\<lparr>tl_Go := x\<rparr>) (dec_bool (tl_Go t) j)
         else if n = ''node'' then map_option (\<lambda>x. t\<lparr>tl_Node := x\<rparr>) (dec_bool (tl_Node t) j)
         else if n = ''npm'' then map_option (\<lambda>x. t\<lparr>tl_NPM := x\<rparr>) (dec_bool (tl_NPM t) j)
         else map_option (\<lambda>x. t\<lparr>tl_Rust := x\<rparr>) (dec_bool (tl_Rust t) j))"

definition installer_json :: "WindowsInstallContract \<Rightarrow> json" where
  "installer_json i = JObj [(''format'', JStr (wi_Format i)), (''upgrade'', JStr (wi_Upgrade i)), (''uninstall'', JStr (wi_Uninstall i))]"

definition installer_names :: "gostring list" where
  "installer_names = [''format'', ''upgrade'', ''uninstall'']"

definition installer_field :: "gostring \<Rightarrow> json \<Rightarrow> WindowsInstallContract \<Rightarrow> WindowsInstallContract option" where
  "installer_field k j i = (case field_named installer_names k of
       None \<Rightarrow> Some i
     | Some n \<Rightarrow>
         if n = ''format'' then map_option (\<lambda>x. i\<lparr>wi_Format := x\<rparr>) (dec_string (wi_Format i) j)
         else if n = ''upgrade'' then map_option (\<lambda>x. i\<lparr>wi_Upgrade := x\<rparr>) (dec_string (wi_Upgrade i) j)
         else map_option (\<lambda>x. i\<lparr>wi_Uninstall := x\<rparr>) (dec_string (wi_Uninstall i) j))"

definition manifest_names :: "gostring list" where
  "manifest_names = [''schemaVersion'', ''product'', ''platform'', ''targetTriple'', ''desktopExecutable'', ''desktopIncluded'',
     ''gatewaySidecar'', ''controlCli'', ''sidecarMetadata'', ''sidecar'', ''runtimeRequirements'', ''buildRequirements'', ''installer'']"

definition manifest_json :: "WindowsManifest \<Rightarrow> json" where
  "manifest_json m = JObj [(''schemaVersion'', enc_int (wm_SchemaVersion m)), (''product'', JStr (wm_Product m)),
     (''platform'', JStr (wm_Platform m)), (''targetTriple'', JStr (wm_TargetTriple m)),
     (''desktopExecutable'', JStr (wm_DesktopExecutable m)), (''desktopIncluded'', JBool (wm_DesktopIncluded m)),
     (''gatewaySidecar'', JStr (wm_GatewaySidecar m)), (''controlCli'', JStr (wm_ControlCLI m)),
     (''sidecarMetadata'', JStr (wm_SidecarMetadata m)), (''sidecar'', metadata_json (wm_Sidecar m)),
     (''runtimeRequirements'', tools_json (wm_RuntimeRequirements m)), (''buildRequirements'', tools_json (wm_BuildRequirements m)),
     (''installer'', installer_json (wm_Installer m))]"

definition manifest_field :: "gostring \<Rightarrow> json \<Rightarrow> WindowsManifest \<Rightarrow> WindowsManifest option" where
  "manifest_field k j m = (case field_named manifest_names k of
       None \<Rightarrow> Some m
     | Some n \<Rightarrow>
         if n = ''schemaVersion'' then map_option (\<lambda>x. m\<lparr>wm_SchemaVersion := x\<rparr>) (dec_int (wm_SchemaVersion m) j)
         else if n = ''product'' then map_option (\<lambda>x. m\<lparr>wm_Product := x\<rparr>) (dec_string (wm_Product m) j)
         else if n = ''platform'' then map_option (\<lambda>x. m\<lparr>wm_Platform := x\<rparr>) (dec_string (wm_Platform m) j)
         else if n = ''targetTriple'' then map_option (\<lambda>x. m\<lparr>wm_TargetTriple := x\<rparr>) (dec_string (wm_TargetTriple m) j)
         else if n = ''desktopExecutable'' then map_option (\<lambda>x. m\<lparr>wm_DesktopExecutable := x\<rparr>) (dec_string (wm_DesktopExecutable m) j)
         else if n = ''desktopIncluded'' then map_option (\<lambda>x. m\<lparr>wm_DesktopIncluded := x\<rparr>) (dec_bool (wm_DesktopIncluded m) j)
         else if n = ''gatewaySidecar'' then map_option (\<lambda>x. m\<lparr>wm_GatewaySidecar := x\<rparr>) (dec_string (wm_GatewaySidecar m) j)
         else if n = ''controlCli'' then map_option (\<lambda>x. m\<lparr>wm_ControlCLI := x\<rparr>) (dec_string (wm_ControlCLI m) j)
         else if n = ''sidecarMetadata'' then map_option (\<lambda>x. m\<lparr>wm_SidecarMetadata := x\<rparr>) (dec_string (wm_SidecarMetadata m) j)
         else if n = ''sidecar'' then map_option (\<lambda>x. m\<lparr>wm_Sidecar := x\<rparr>) (dec_metadata (wm_Sidecar m) j)
         else if n = ''runtimeRequirements''
         then map_option (\<lambda>x. m\<lparr>wm_RuntimeRequirements := x\<rparr>) (dec_struct (strict tool_names tools_field) (wm_RuntimeRequirements m) j)
         else if n = ''buildRequirements''
         then map_option (\<lambda>x. m\<lparr>wm_BuildRequirements := x\<rparr>) (dec_struct (strict tool_names tools_field) (wm_BuildRequirements m) j)
         else map_option (\<lambda>x. m\<lparr>wm_Installer := x\<rparr>) (dec_struct (strict installer_names installer_field) (wm_Installer m) j))"

definition zero_manifest :: WindowsManifest where
  "zero_manifest = \<lparr>wm_SchemaVersion = 0, wm_Product = [], wm_Platform = [], wm_TargetTriple = [], wm_DesktopExecutable = [],
     wm_DesktopIncluded = False, wm_GatewaySidecar = [], wm_ControlCLI = [], wm_SidecarMetadata = [], wm_Sidecar = zero_metadata,
     wm_RuntimeRequirements = no_tools, wm_BuildRequirements = no_tools,
     wm_Installer = \<lparr>wi_Format = [], wi_Upgrade = [], wi_Uninstall = []\<rparr>\<rparr>"

definition WriteWindowsManifest ::
  "'c DocCodec \<Rightarrow> 'c SaveEnv \<Rightarrow> gostring \<Rightarrow> WindowsManifest \<Rightarrow> 'c fs \<Rightarrow> package_error option \<times> 'c fs list" where
  "WriteWindowsManifest cd env path m f =
     (case manifest_Validate m of Some e \<Rightarrow> (Some e, [f]) | None \<Rightarrow> writeAtomicJSON cd env path (manifest_json m) f)"

definition ReadWindowsManifest :: "'c DocCodec \<Rightarrow> bool \<Rightarrow> gostring \<Rightarrow> 'c fs \<Rightarrow> package_error + WindowsManifest" where
  "ReadWindowsManifest cd readable path f =
     (case os_ReadFile readable path f of
        Inl e \<Rightarrow> Inl (OpenPackage e)
      | Inr c \<Rightarrow>
          (case decodeJSON (dec_struct (strict manifest_names manifest_field)) zero_manifest (Some (dc_scan cd c)) of
             Inl _ \<Rightarrow> Inl InvalidManifest
           | Inr m \<Rightarrow> (case manifest_Validate m of Some e \<Rightarrow> Inl e | None \<Rightarrow> Inr m)))"

section \<open>Manifests that are built, written and read\<close>

lemma manifest_plain: "plain_names manifest_names" "plain_names tool_names" "plain_names installer_names"
  by code_simp+

lemma manifest_fields:
  "list_all (\<lambda>n. field_named manifest_names n = Some n) manifest_names" "list_all (\<lambda>n. field_named tool_names n = Some n) tool_names"
  "list_all (\<lambda>n. field_named installer_names n = Some n) installer_names"
  using field_named_plain manifest_plain by (auto simp: list_all_iff)

lemma dec_struct_JObj: "dec_struct step old (JObj fs) = dec_fields step fs old"
  by (simp add: dec_struct_def)

lemma dec_tools_json: "dec_struct (strict tool_names tools_field) t0 (tools_json t) = Some t"
  using manifest_fields(2) [unfolded tool_names_def list.pred_inject, folded tool_names_def] by (cases t) (simp add: tools_json_def dec_struct_JObj strict_named tools_field_def)

lemma dec_installer_json: "dec_struct (strict installer_names installer_field) i0 (installer_json i) = Some i"
  using manifest_fields(3) [unfolded installer_names_def list.pred_inject, folded installer_names_def] by (cases i) (simp add: installer_json_def dec_struct_JObj strict_named installer_field_def)

lemma dec_manifest_json:
  assumes "wm_SchemaVersion m = CurrentManifestSchemaVersion" and "sm_SchemaVersion (wm_Sidecar m) = CurrentSchemaVersion"
  shows "dec_struct (strict manifest_names manifest_field) zero_manifest (manifest_json m) = Some m"
  using manifest_fields(1) [unfolded manifest_names_def list.pred_inject, folded manifest_names_def] assms(1) dec_metadata_json [OF assms(2)]
  by (cases m) (simp add: manifest_json_def dec_struct_JObj strict_named manifest_field_def zero_manifest_def
      dec_tools_json dec_installer_json CurrentManifestSchemaVersion_def)

lemma json_name_safe:
  assumes "TrimSpace a = a" and "safeWindowsExecutable a"
  shows "safeJSONFile (a @ ''.metadata.json'')"
proof -
  have l: "ToLower ''.metadata.json'' = ''.metadata.json''" "\<not> list_ex unsafe_char ''.metadata.json''" by code_simp+
  from assms have a: "a \<noteq> []" "\<not> list_ex unsafe_char a" by (auto simp: safeWindowsExecutable_def safeFileName_def)
  then have "\<not> is_space (hd (a @ ''.metadata.json''))" "\<not> is_space (last (a @ ''.metadata.json''))"
    using TrimSpace_ends [of a] assms(1) by (simp_all add: is_space_def)
  then have t: "TrimSpace (a @ ''.metadata.json'') = a @ ''.metadata.json''" by (intro TrimSpace_id) simp_all
  show ?thesis using a l
    by (simp add: safeJSONFile_def safeFileName_def t str_HasSuffix_def ToLower_append HasPrefix_def)
qed

text \<open>The manifest built around valid metadata of a Windows sidecar is valid, and written to a file it is
  read back as it was; and whatever manifest is valid names no file outside the package: none of its
  four file names, trimmed, is empty or a dot name or holds a separator, and the sidecar it describes is
  the one whose metadata it embeds.\<close>

theorem manifest_contract:
  assumes "metadata_Validate m = None" and "TrimSpace (sm_Artifact m) = sm_Artifact m" and "safeWindowsExecutable (sm_Artifact m)"
    and "TrimSpace desk = [] \<or> safeWindowsExecutable desk"
  shows "manifest_Validate (NewWindowsManifestWithDesktop m desk inc) = None \<and>
    (doc_codec_ok cd \<and> ev_tmpName env \<notin> {TrimSpace path, bak (TrimSpace path)} \<and>
     WriteWindowsManifest cd env path (NewWindowsManifestWithDesktop m desk inc) f = (None, fss) \<longrightarrow>
      ReadWindowsManifest cd True (TrimSpace path) (last fss) = Inr (NewWindowsManifestWithDesktop m desk inc)) \<and>
    (manifest_Validate w = None \<longrightarrow>
      (\<forall>name\<in>{wm_DesktopExecutable w, wm_GatewaySidecar w, wm_ControlCLI w, wm_SidecarMetadata w}.
        TrimSpace name \<notin> {[], ''.'', ''..''} \<and> \<not> list_ex unsafe_char (TrimSpace name)) \<and>
      wm_GatewaySidecar w = sm_Artifact (wm_Sidecar w) \<and> wm_TargetTriple w = sm_TargetTriple (wm_Sidecar w))"
proof -
  let ?m = "NewWindowsManifestWithDesktop m desk inc"
  have e: "safeWindowsExecutable ''fmr.exe''" "safeWindowsExecutable (TrimSpace ''Free-Model-Router-desktop.exe'')" by code_simp+
  have "safeWindowsExecutable (TrimSpace desk)" if "TrimSpace desk \<noteq> []"
    using assms(4) that by (simp add: safeWindowsExecutable_def safeFileName_def TrimSpace_idem)
  moreover have "sm_TargetTriple m \<noteq> []" using assms(1) by (auto simp: metadata_Validate_def safeToken_def TrimSpace_def split: if_splits)
  ultimately have v: "manifest_Validate ?m = None"
    using assms(1,3) e json_name_safe [OF assms(2,3)]
    by (simp add: manifest_Validate_def NewWindowsManifestWithDesktop_def CurrentManifestSchemaVersion_def)
  have d: "dec_struct (strict manifest_names manifest_field) zero_manifest (manifest_json ?m) = Some ?m"
    using metadata_Validate_schema [OF assms(1)] by (intro dec_manifest_json) (simp_all add: NewWindowsManifestWithDesktop_def)
  have "ReadWindowsManifest cd True (TrimSpace path) (last fss) = Inr ?m"
    if c: "doc_codec_ok cd" and t: "ev_tmpName env \<notin> {TrimSpace path, bak (TrimSpace path)}"
      and w: "WriteWindowsManifest cd env path ?m f = (None, fss)"
  proof -
    from w have "package_write (dc_none cd) env (TrimSpace path) (dc_print cd (manifest_json ?m)) f = (None, fss)"
      by (auto simp: WriteWindowsManifest_def writeAtomicJSON_def v split: if_splits prod.splits)
    with package_file.installs [of env "TrimSpace path" "dc_none cd" "dc_print cd (manifest_json ?m)" f] t
    have "last fss (TrimSpace path) = Some (dc_print cd (manifest_json ?m))" by simp
    with c v show ?thesis by (simp add: ReadWindowsManifest_def os_ReadFile_def doc_codec_ok_def decode_sent(1) d)
  qed
  moreover have "(\<forall>name\<in>{wm_DesktopExecutable w, wm_GatewaySidecar w, wm_ControlCLI w, wm_SidecarMetadata w}.
        TrimSpace name \<notin> {[], ''.'', ''..''} \<and> \<not> list_ex unsafe_char (TrimSpace name)) \<and>
      wm_GatewaySidecar w = sm_Artifact (wm_Sidecar w) \<and> wm_TargetTriple w = sm_TargetTriple (wm_Sidecar w)"
    if "manifest_Validate w = None"
    using that by (auto simp: manifest_Validate_def safeWindowsExecutable_def safeJSONFile_def safeFileName_def split: if_splits)
  ultimately show ?thesis using v by blast
qed

text \<open>The checks look at the trimmed names, the manifest keeps the names as they are: a name that ends with a
  line break is accepted.\<close>

lemma line_break_accepted: "safeWindowsExecutable (''fmr.exe'' @ [CHR 0x0A])"
  by code_simp

section \<open>Concrete inputs\<close>

definition sample_metadata :: SidecarMetadata where
  "sample_metadata = \<lparr>sm_SchemaVersion = 1, sm_Product = ProductName, sm_Artifact = ''fmr.exe'', sm_TargetTriple = ''t'',
     sm_BinaryVersion = ''1'', sm_APIVersion = ''1'', sm_APIMajor = ''1'', sm_SHA256 = hex_encode (replicate 32 0),
     sm_Ownership = OwnershipDesktopManaged\<rparr>"

lemma sample_metadata_valid: "metadata_Validate sample_metadata = None"
proof -
  have "safeToken ''fmr.exe''" "safeToken ''t''" "safeToken ''1''" "TrimSpace ProductName = ProductName" "APIMajor ''1'' = ''1''"
    "TrimSpace ''1'' \<noteq> []" by code_simp+
  then show ?thesis
    by (simp add: metadata_Validate_def sample_metadata_def CurrentSchemaVersion_def hex_encode_digest(1))
      (rule hex_encode_digest(2))
qed

theorem manifest_contract_witness:
  "manifest_Validate (NewWindowsManifestWithDesktop sample_metadata [] True) = None"
proof -
  have "TrimSpace (sm_Artifact sample_metadata) = sm_Artifact sample_metadata" "safeWindowsExecutable (sm_Artifact sample_metadata)"
    "TrimSpace [] = [] \<or> safeWindowsExecutable []" unfolding sample_metadata_def SidecarMetadata.select_convs by code_simp+
  from manifest_contract [OF sample_metadata_valid this] show ?thesis by blast
qed

definition sample_doc :: "json DocCodec" where
  "sample_doc = \<lparr>dc_print = \<lambda>j. j, dc_scan = \<lambda>j. \<lparr>bs_values = [j], bs_broken = False\<rparr>, dc_none = JNull\<rparr>"

definition zero_sha :: "json \<Rightarrow> 8 word list" where
  "zero_sha _ = replicate 32 0"

definition sample_save :: "json SaveEnv" where
  "sample_save = \<lparr>ev_mkdir = True, ev_create = True, ev_tmpName = ''tmp'', ev_chmodTmp = True, ev_write = True, ev_partial = JNull,
     ev_sync = True, ev_close = True, ev_rename1 = True, ev_rename2 = True, ev_rename3 = True, ev_restore = True, ev_removeBak = True,
     ev_removeBak2 = True, ev_removeTmp = True, ev_protect = True\<rparr>"

lemma sample_generate:
  "\<exists>fss. Generate zero_sha True sample_doc sample_save ''fmr.exe'' ''m.json'' ''t'' ''1'' ''1'' OwnershipDesktopManaged
     [''fmr.exe'' \<mapsto> JNull] = (Inr sample_metadata, fss)"
proof -
  have t: "filepath_Base ''fmr.exe'' = ''fmr.exe''" "TrimSpace ''t'' = ''t''" "TrimSpace ''1'' = ''1''" "APIMajor ''1'' = ''1''"
    "TrimSpace ''m.json'' = ''m.json''" by code_simp+
  show ?thesis using sample_metadata_valid
    by (simp add: Generate_def SHA256File_def os_ReadFile_def zero_sha_def t metadata_Write_def writeAtomicJSON_def package_write_def
        sample_save_def package_replaceFile_def os_Rename_def with_cleanup_def CurrentSchemaVersion_def sample_metadata_def Let_def)
qed

theorem generated_metadata_verifies_witness:
  "\<exists>fss. VerifyFile zero_sha True sample_metadata ''fmr.exe'' (last fss) = None \<and>
    metadata_Read sample_doc True ''m.json'' (last fss) = Inr sample_metadata"
proof -
  have t: "TrimSpace ''m.json'' = ''m.json''" by code_simp
  obtain fss where g: "Generate zero_sha True sample_doc sample_save ''fmr.exe'' ''m.json'' ''t'' ''1'' ''1'' OwnershipDesktopManaged
     [''fmr.exe'' \<mapsto> JNull] = (Inr sample_metadata, fss)" using sample_generate by blast
  have "doc_codec_ok sample_doc" by (simp add: doc_codec_ok_def sample_doc_def)
  from generated_metadata_verifies [OF this g, unfolded t] show ?thesis
    by (auto simp: sample_save_def bak_def)
qed

end
