(* ===== verification/Commands.thy ===== *)
theory Commands
  imports Packaging Secrets
begin

text \<open>
  The command-line programs: \<open>cmd/fmr-package\<close>, which generates and verifies release metadata, and
  \<open>cmd/fmr\<close>, the client of the control API that can also start the gateway. The flags are read as
  package \<open>flag\<close> reads them: what is set, in order, then the remaining arguments. Paths use \<open>/\<close>; the directory of the
  executable is given, and joined to a file name by one separator.
\<close>

section \<open>Flags\<close>

datatype flag_kind = StringFlag | BoolFlag

datatype flag_error =
    HelpWanted
  | BadSyntax gostring
  | NotDefined gostring
  | MissingArgument gostring
  | BadBool gostring gostring

definition split_value :: "gostring \<Rightarrow> gostring \<times> gostring option" where
  "split_value s = (if CHR ''='' \<in> set s
     then (takeWhile (\<lambda>c. c \<noteq> CHR ''='') s, Some (tl (dropWhile (\<lambda>c. c \<noteq> CHR ''='') s))) else (s, None))"

definition flag_name :: "gostring \<Rightarrow> gostring" where
  "flag_name s = (if s ! 1 = CHR ''-'' then drop 2 s else drop 1 s)"

type_synonym settings = "(gostring \<times> gostring) list"

fun parse_flags :: "(gostring \<Rightarrow> flag_kind option) \<Rightarrow> gostring list \<Rightarrow> flag_error + settings \<times> gostring list" where
  "parse_flags kinds [] = Inr ([], [])"
| "parse_flags kinds (s # rest) =
     (if length s < 2 \<or> hd s \<noteq> CHR ''-'' then Inr ([], s # rest)
      else if s = ''--'' then Inr ([], rest)
      else let name = flag_name s
        in if name = [] \<or> hd name = CHR ''-'' \<or> hd name = CHR ''='' then Inl (BadSyntax s)
           else case split_value name of
             (n, v) \<Rightarrow>
               (case kinds n of
                  None \<Rightarrow> Inl (if n = ''help'' \<or> n = ''h'' then HelpWanted else NotDefined n)
                | Some BoolFlag \<Rightarrow>
                    (case ParseBool (case v of None \<Rightarrow> ''true'' | Some t \<Rightarrow> t) of
                       None \<Rightarrow> Inl (BadBool n (case v of None \<Rightarrow> [] | Some t \<Rightarrow> t))
                     | Some b \<Rightarrow> map_sum id (apfst ((#) (n, if b then ''true'' else ''false''))) (parse_flags kinds rest))
                | Some StringFlag \<Rightarrow>
                    (case v of
                       Some t \<Rightarrow> map_sum id (apfst ((#) (n, t))) (parse_flags kinds rest)
                     | None \<Rightarrow> (case rest of
                         [] \<Rightarrow> Inl (MissingArgument n)
                       | t # rest' \<Rightarrow> map_sum id (apfst ((#) (n, t))) (parse_flags kinds rest')))))"

text \<open>The last setting of a flag counts.\<close>

definition string_flag :: "settings \<Rightarrow> gostring \<Rightarrow> gostring \<Rightarrow> gostring" where
  "string_flag fs name dflt = (case map_of (rev fs) name of None \<Rightarrow> dflt | Some v \<Rightarrow> v)"

definition bool_flag :: "settings \<Rightarrow> gostring \<Rightarrow> bool" where
  "bool_flag fs name = (map_of (rev fs) name = Some ''true'')"

section \<open>The packaging helper (cmd/fmr-package)\<close>

definition control_APIVersion :: gostring where
  "control_APIVersion = ''1''"

definition package_flags :: "gostring \<Rightarrow> flag_kind option" where
  "package_flags n =
     (if n \<in> {''binary'', ''metadata'', ''manifest'', ''desktop-executable'', ''target'', ''version'', ''api-version'', ''ownership''}
      then Some StringFlag
      else if n \<in> {''desktop-included'', ''validate''} then Some BoolFlag else None)"

datatype command_error =
    FlagError flag_error
  | UnexpectedArguments "gostring list"
  | MetadataRequired
  | BinaryRequired
  | PackageError package_error
  | OutputFailed

text \<open>
  What the run meets: the digest and the text of documents, whether the three files can be read, the
  two writes, and whether the output can be written.
\<close>

record 'c PackageEnv =
  pe_sha :: "'c \<Rightarrow> 8 word list"
  pe_codec :: "'c DocCodec"
  pe_readBinary :: bool
  pe_readMetadata :: bool
  pe_readManifest :: bool
  pe_saveMetadata :: "'c SaveEnv"
  pe_saveManifest :: "'c SaveEnv"
  pe_stdout :: bool

definition package_result :: "SidecarMetadata \<Rightarrow> WindowsManifest option \<Rightarrow> json" where
  "package_result m mf = JObj ((''metadata'', metadata_json m) # (case mf of None \<Rightarrow> [] | Some w \<Rightarrow> [(''manifest'', manifest_json w)]))"

definition package_validate ::
  "'c PackageEnv \<Rightarrow> gostring \<Rightarrow> gostring \<Rightarrow> gostring \<Rightarrow> 'c fs \<Rightarrow> command_error + SidecarMetadata \<times> WindowsManifest option" where
  "package_validate env binaryPath metadataPath manifestPath f =
     (case metadata_Read (pe_codec env) (pe_readMetadata env) metadataPath f of
        Inl e \<Rightarrow> Inl (PackageError e)
      | Inr m \<Rightarrow>
          (case (if binaryPath \<noteq> [] then VerifyFile (pe_sha env) (pe_readBinary env) m binaryPath f else None) of
             Some e \<Rightarrow> Inl (PackageError e)
           | None \<Rightarrow>
               if manifestPath = [] then Inr (m, None)
               else case ReadWindowsManifest (pe_codec env) (pe_readManifest env) manifestPath f of
                 Inl e \<Rightarrow> Inl (PackageError e)
               | Inr w \<Rightarrow> Inr (m, Some w)))"

definition package_generate ::
  "'c PackageEnv \<Rightarrow> settings \<Rightarrow> gostring \<Rightarrow> gostring \<Rightarrow> gostring \<Rightarrow> 'c fs \<Rightarrow>
   (command_error + SidecarMetadata \<times> WindowsManifest option) \<times> 'c fs list" where
  "package_generate env fs binaryPath metadataPath manifestPath f =
     (if binaryPath = [] then (Inl BinaryRequired, [f])
      else case Generate (pe_sha env) (pe_readBinary env) (pe_codec env) (pe_saveMetadata env) binaryPath metadataPath
          (string_flag fs ''target'' ''x86_64-pc-windows-msvc'') (string_flag fs ''version'' ''dev'')
          (string_flag fs ''api-version'' control_APIVersion) (string_flag fs ''ownership'' OwnershipDesktopManaged) f of
        (Inl e, fss) \<Rightarrow> (Inl (PackageError e), fss)
      | (Inr m, fss) \<Rightarrow>
          if manifestPath = [] then (Inr (m, None), fss)
          else let w = NewWindowsManifestWithDesktop m (string_flag fs ''desktop-executable'' ''Free-Model-Router-desktop.exe'')
                (bool_flag fs ''desktop-included'')
            in case WriteWindowsManifest (pe_codec env) (pe_saveManifest env) manifestPath w (last fss) of
              (Some e, fss') \<Rightarrow> (Inl (PackageError e), fss @ fss')
            | (None, fss') \<Rightarrow> (Inr (m, Some w), fss @ fss'))"

text \<open>The result is an error, the help text (\<open>None\<close>) or what was printed.\<close>

definition package_run ::
  "'c PackageEnv \<Rightarrow> gostring list \<Rightarrow> 'c fs \<Rightarrow> (command_error + json option) \<times> 'c fs list" where
  "package_run env args f =
     (case parse_flags package_flags args of
        Inl e \<Rightarrow> (if e = HelpWanted then Inr None else Inl (FlagError e), [f])
      | Inr (fs, rest) \<Rightarrow>
          if rest \<noteq> [] then (Inl (UnexpectedArguments rest), [f])
          else let binaryPath = string_flag fs ''binary'' []; metadataPath = string_flag fs ''metadata'' [];
                 metadataPath = (if metadataPath = [] \<and> binaryPath \<noteq> [] then binaryPath @ ''.metadata.json'' else metadataPath);
                 manifestPath = string_flag fs ''manifest'' []
            in if metadataPath = [] then (Inl MetadataRequired, [f])
               else case (if bool_flag fs ''validate'' then (package_validate env binaryPath metadataPath manifestPath f, [f])
                          else package_generate env fs binaryPath metadataPath manifestPath f) of
                 (Inl e, fss) \<Rightarrow> (Inl e, fss)
               | (Inr (m, w), fss) \<Rightarrow> (if pe_stdout env then Inr (Some (package_result m w)) else Inl OutputFailed, fss))"


section \<open>What was generated passes the validation\<close>

lemma Manifest_Write_Read:
  assumes "doc_codec_ok cd" and "WriteWindowsManifest cd env path w f = (None, fss)"
    and t: "ev_tmpName env \<noteq> TrimSpace path" "ev_tmpName env \<noteq> bak (TrimSpace path)"
  shows "ReadWindowsManifest cd True (TrimSpace path) (last fss) = Inr w"
    and "q \<notin> {TrimSpace path, bak (TrimSpace path), ev_tmpName env} \<Longrightarrow> last fss q = f q" and "fss \<noteq> []"
proof -
  from assms(2) have v: "manifest_Validate w = None"
    and w: "package_write (dc_none cd) env (TrimSpace path) (dc_print cd (manifest_json w)) f = (None, fss)"
    by (auto simp: WriteWindowsManifest_def writeAtomicJSON_def split: option.splits if_splits prod.splits)
  from v have sc: "wm_SchemaVersion w = CurrentManifestSchemaVersion" "sm_SchemaVersion (wm_Sidecar w) = CurrentSchemaVersion"
    using metadata_Validate_schema by (auto simp: manifest_Validate_def split: if_splits)
  have "last fss (TrimSpace path) = Some (dc_print cd (manifest_json w))"
    using package_file.installs [OF t, where d = "dc_print cd (manifest_json w)" and nb = "dc_none cd" and f = f] w by simp
  then show "ReadWindowsManifest cd True (TrimSpace path) (last fss) = Inr w"
    using assms(1) v dec_manifest_json [OF sc] by (simp add: ReadWindowsManifest_def os_ReadFile_def doc_codec_ok_def decode_sent(1))
  show "last fss q = f q" if "q \<notin> {TrimSpace path, bak (TrimSpace path), ev_tmpName env}"
    using package_file.after_write_others [OF that, where d = "dc_print cd (manifest_json w)" and nb = "dc_none cd" and f = f] w
    by (simp add: package_file.after_write_def)
  show "fss \<noteq> []" using package_file.steps_ne [of "dc_none cd" env "TrimSpace path" "dc_print cd (manifest_json w)" f] w by simp
qed

lemma Generate_writes:
  assumes "Generate sha ok cd env b p triple version api own f = (Inr m, fss)"
  shows "metadata_Write cd env p m f = (None, fss)" and "\<exists>c. ok \<and> f b = Some c \<and> sm_SHA256 m = hex_encode (sha c)"
  using assms by (auto simp: Generate_def SHA256File_def os_ReadFile_def Let_def split: sum.splits option.splits prod.splits if_splits)

lemma validated_files:
  assumes "metadata_Read (pe_codec env) (pe_readMetadata env) p f = Inr m" and "f b = Some c"
    and "pe_readBinary env" and "sm_SHA256 m = hex_encode (pe_sha env c)" and "metadata_Validate m = None"
  shows "package_validate env b p w f = (if w = [] then Inr (m, None)
    else case ReadWindowsManifest (pe_codec env) (pe_readManifest env) w f of Inl e \<Rightarrow> Inl (PackageError e) | Inr mf \<Rightarrow> Inr (m, Some mf))"
  using assms by (simp add: package_validate_def VerifyFile_def SHA256File_def os_ReadFile_def)

text \<open>The files a run of the helper uses, all different.\<close>

definition package_files :: "'c PackageEnv \<Rightarrow> gostring \<Rightarrow> gostring \<Rightarrow> gostring \<Rightarrow> gostring list" where
  "package_files env b p w = [b, p, bak p, ev_tmpName (pe_saveMetadata env), w, bak w, ev_tmpName (pe_saveManifest env)]"

lemma generate_then_validate:
  assumes "doc_codec_ok (pe_codec env)" and "pe_readMetadata env" and "pe_readManifest env"
    and "TrimSpace p = p" and "TrimSpace w = w" and "distinct (package_files env b p w)"
    and "package_generate env fs b p w f = (Inr r, fss)"
  shows "package_validate env b p w (last fss) = Inr r"
proof -
  from assms(7) have b: "b \<noteq> []" by (auto simp: package_generate_def split: if_splits)
  from assms(7) b obtain m fss1 triple version api own
    where g: "Generate (pe_sha env) (pe_readBinary env) (pe_codec env) (pe_saveMetadata env) b p triple version api own f = (Inr m, fss1)"
    and rest: "if w = [] then r = (m, None) \<and> fss = fss1
      else \<exists>mf fss2. WriteWindowsManifest (pe_codec env) (pe_saveManifest env) w mf (last fss1) = (None, fss2) \<and>
        r = (m, Some mf) \<and> fss = fss1 @ fss2"
    by (auto simp: package_generate_def Let_def split: prod.splits sum.splits option.splits if_splits)
  from assms(6) have ne: "ev_tmpName (pe_saveMetadata env) \<noteq> TrimSpace p" "ev_tmpName (pe_saveMetadata env) \<noteq> bak (TrimSpace p)"
    "ev_tmpName (pe_saveManifest env) \<noteq> TrimSpace w" "ev_tmpName (pe_saveManifest env) \<noteq> bak (TrimSpace w)"
    by (auto simp: package_files_def assms(4,5))
  obtain c where c: "pe_readBinary env" "f b = Some c" "sm_SHA256 m = hex_encode (pe_sha env c)" using Generate_writes(2) [OF g] by blast
  note wr = Write_Read [OF assms(1) Generate_writes(1) [OF g] ne(1,2), unfolded assms(4)]
  have c1: "last fss1 b = Some c" using wr(3) [of b] assms(6) c(2) by (auto simp: package_files_def)
  note ok = validated_files [OF _ _ c(1) c(3) wr(2)]
  show ?thesis
  proof (cases "w = []")
    case True
    with rest wr(1) c1 assms(2) show ?thesis by (simp add: ok)
  next
    case False
    with rest obtain mf fss2 where mf: "WriteWindowsManifest (pe_codec env) (pe_saveManifest env) w mf (last fss1) = (None, fss2)"
      "r = (m, Some mf)" "fss = fss1 @ fss2" by auto
    note mr = Manifest_Write_Read [OF assms(1) mf(1) ne(3,4), unfolded assms(5)]
    have "last fss2 b = Some c" "last fss2 p = last fss1 p" using mr(2) assms(6) c1 by (auto simp: package_files_def)
    with wr(1) have "metadata_Read (pe_codec env) (pe_readMetadata env) p (last fss2) = Inr m" "last fss2 b = Some c"
      using assms(2) by (simp_all add: metadata_Read_def os_ReadFile_def)
    with mr(1,3) mf(2,3) assms(3) False show ?thesis by (simp add: ok)
  qed
qed


lemma flag_front:
  "n \<noteq> k \<Longrightarrow> string_flag ((k, v) # fs) n d = string_flag fs n d" "n \<noteq> k \<Longrightarrow> bool_flag ((k, v) # fs) n = bool_flag fs n"
  "k \<notin> fst ` set fs \<Longrightarrow> bool_flag ((k, v) # fs) k = (v = ''true'')" "k \<notin> fst ` set fs \<Longrightarrow> \<not> bool_flag fs k"
proof -
  have none: "map_of (rev fs) k = None" if "k \<notin> fst ` set fs" using that by (simp add: map_of_eq_None_iff)
  show "n \<noteq> k \<Longrightarrow> string_flag ((k, v) # fs) n d = string_flag fs n d" "n \<noteq> k \<Longrightarrow> bool_flag ((k, v) # fs) n = bool_flag fs n"
    by (simp_all add: string_flag_def bool_flag_def map_add_def split: option.split)
  show "k \<notin> fst ` set fs \<Longrightarrow> bool_flag ((k, v) # fs) k = (v = ''true'')" "k \<notin> fst ` set fs \<Longrightarrow> \<not> bool_flag fs k"
    using none by (simp_all add: bool_flag_def map_add_def)
qed

lemma parse_validate:
  "parse_flags package_flags (''-validate'' # args) = map_sum id (apfst ((#) (''validate'', ''true''))) (parse_flags package_flags args)"
proof -
  have "flag_name ''-validate'' = ''validate''" "split_value ''validate'' = (''validate'', None)"
    "package_flags ''validate'' = Some BoolFlag" "ParseBool ''true'' = Some True" by code_simp+
  then show ?thesis by simp
qed

text \<open>The path of the metadata document a run uses.\<close>

definition metadata_path :: "settings \<Rightarrow> gostring" where
  "metadata_path fs = (let b = string_flag fs ''binary'' []; p = string_flag fs ''metadata'' []
     in if p = [] \<and> b \<noteq> [] then b @ ''.metadata.json'' else p)"

text \<open>C38: whatever a run of the packaging helper has generated, the same command line with \<open>-validate\<close> in front
  accepts: it reads back the same metadata and the same manifest, finds that the binary has the digest, prints
  the same result and changes no file. (The files are different ones, can be read, and their names have no space
  around them.)\<close>

theorem generated_package_validates:
  assumes "parse_flags package_flags args = Inr (fs, [])" and "''validate'' \<notin> fst ` set fs"
    and "doc_codec_ok (pe_codec env)" and "pe_readMetadata env" and "pe_readManifest env"
    and "TrimSpace (metadata_path fs) = metadata_path fs" and "TrimSpace (string_flag fs ''manifest'' []) = string_flag fs ''manifest'' []"
    and "distinct (package_files env (string_flag fs ''binary'' []) (metadata_path fs) (string_flag fs ''manifest'' []))"
    and run: "package_run env args f = (Inr (Some out), fss)"
  shows "package_run env (''-validate'' # args) (last fss) = (Inr (Some out), [last fss])"
proof -
  let ?b = "string_flag fs ''binary'' []" and ?w = "string_flag fs ''manifest'' []" and ?p = "metadata_path fs"
  have p: "?p \<noteq> []" using run assms(1) by (auto simp: package_run_def metadata_path_def Let_def split: if_splits)
  from run assms(1) p flag_front(4) [OF assms(2)] obtain m w where g: "package_generate env fs ?b ?p ?w f = (Inr (m, w), fss)"
    and out: "pe_stdout env" "out = package_result m w"
    by (auto simp: package_run_def Let_def simp flip: metadata_path_def [unfolded Let_def] split: prod.splits sum.splits if_splits)
  from generate_then_validate [OF assms(3-8) g]
  have v: "package_validate env ?b ?p ?w (last fss) = Inr (m, w)" .
  have same: "string_flag ((''validate'', ''true'') # fs) n [] = string_flag fs n []" if "n \<in> {''binary'', ''metadata'', ''manifest''}" for n
    using that by (intro flag_front(1)) auto
  show ?thesis
    using v out p flag_front(3) [OF assms(2), of "''true''"]
    by (simp add: package_run_def parse_validate assms(1) same Let_def metadata_path_def [unfolded Let_def, symmetric] del: parse_flags.simps)
qed

text \<open>The validation does not compare the manifest with the metadata: a manifest of another release passes.\<close>

lemma validate_ignores_release:
  assumes "metadata_Read (pe_codec env) (pe_readMetadata env) p f = Inr m"
    and "ReadWindowsManifest (pe_codec env) (pe_readManifest env) w f = Inr mf" and "w \<noteq> []" and "wm_Sidecar mf \<noteq> m"
  shows "package_validate env [] p w f = Inr (m, Some mf)"
  using assms(1-3) by (simp add: package_validate_def)

definition sample_package :: "json PackageEnv" where
  "sample_package = \<lparr>pe_sha = zero_sha, pe_codec = sample_doc, pe_readBinary = True, pe_readMetadata = True, pe_readManifest = True,
     pe_saveMetadata = sample_save, pe_saveManifest = sample_save\<lparr>ev_tmpName := ''tmp2''\<rparr>, pe_stdout = True\<rparr>"

definition sample_args :: "gostring list" where
  "sample_args = [''-binary'', ''fmr.exe'', ''--metadata=m.json'', ''-target'', ''t'', ''-version'', ''1'']"

definition sample_settings :: settings where
  "sample_settings = [(''binary'', ''fmr.exe''), (''metadata'', ''m.json''), (''target'', ''t''), (''version'', ''1'')]"

lemma sample_flags:
  "parse_flags package_flags sample_args = Inr (sample_settings, [])" "metadata_path sample_settings = ''m.json''"
  "string_flag sample_settings ''binary'' [] = ''fmr.exe''" "string_flag sample_settings ''manifest'' [] = []"
  "string_flag sample_settings ''target'' d = ''t''" "string_flag sample_settings ''version'' d = ''1''"
  "string_flag sample_settings ''api-version'' d = d" "string_flag sample_settings ''ownership'' d = d"
  "\<not> bool_flag sample_settings ''validate''" "string_flag sample_settings ''metadata'' [] = ''m.json''"
  by (code_simp | simp add: string_flag_def bool_flag_def sample_settings_def)+

theorem generated_package_validates_witness:
  "fst (package_run sample_package (''-validate'' # sample_args)
      (last (snd (package_run sample_package sample_args [''fmr.exe'' \<mapsto> JNull])))) = Inr (Some (package_result sample_metadata None))"
proof -
  obtain fss where g: "Generate zero_sha True sample_doc sample_save ''fmr.exe'' ''m.json'' ''t'' ''1'' ''1'' OwnershipDesktopManaged
     [''fmr.exe'' \<mapsto> JNull] = (Inr sample_metadata, fss)" using sample_generate by blast
  have run: "package_run sample_package sample_args [''fmr.exe'' \<mapsto> JNull] = (Inr (Some (package_result sample_metadata None)), fss)"
    by (simp add: package_run_def sample_flags package_generate_def sample_package_def control_APIVersion_def g)
  have hyps: "''validate'' \<notin> fst ` set sample_settings" "doc_codec_ok (pe_codec sample_package)" "pe_readMetadata sample_package"
    "pe_readManifest sample_package" "TrimSpace (metadata_path sample_settings) = metadata_path sample_settings"
    "TrimSpace (string_flag sample_settings ''manifest'' []) = string_flag sample_settings ''manifest'' []"
    "distinct (package_files sample_package (string_flag sample_settings ''binary'' []) (metadata_path sample_settings)
      (string_flag sample_settings ''manifest'' []))"
    unfolding sample_flags
    by (simp_all add: sample_settings_def sample_package_def doc_codec_ok_def sample_doc_def package_files_def sample_save_def bak_def
        TrimSpace_def is_space_def)
  from generated_package_validates [OF sample_flags(1) hyps run]
  show ?thesis by (simp only: run fst_conv snd_conv)
qed


section \<open>The control command (cmd/fmr)\<close>

definition commandNames :: "gostring list" where
  "commandNames = [''start'', ''stop'', ''status'', ''models'', ''providers'', ''model-pool'', ''config'', ''logs'', ''doctor'']"

definition containsCommand :: "gostring \<Rightarrow> bool" where
  "containsCommand command = list_ex (\<lambda>c. c = command) commandNames"

definition fmr_flags :: "gostring \<Rightarrow> flag_kind option" where
  "fmr_flags n =
     (if n \<in> {''addr'', ''token'', ''config''} then Some StringFlag else if n = ''json'' then Some BoolFlag else None)"

datatype cli_event =
    Sent HttpRequest
  | Spawned gostring "gostring list"
  | Printed gostring

datatype cli_error =
    UnknownCommand gostring
  | CliFlagError flag_error
  | CallFailed client_error
  | NoExecutable
  | BinaryNotFound
  | SpawnFailed goerr
  | GatewayNotReady client_error
  | CheckFailed cli_error
  | StdoutFailed

text \<open>One turn of the wait: how the control API answers, what the stored token is now, whether the ten seconds are over.\<close>

record WaitTurn =
  wt_client :: ClientEnv
  wt_secret :: "secret_error + gostring"
  wt_over :: bool

text \<open>
  The environment of a run: two variables, the answer of the secret store, the control API, the directory of
  the executable and what is a file there, starting a process, \<open>json.Indent\<close>, and the standard output.
\<close>

record CliEnv =
  cl_controlAddr :: gostring
  cl_tokenVar :: gostring
  cl_secret :: "secret_error + gostring"
  cl_client :: ClientEnv
  cl_dir :: "gostring option"
  cl_isFile :: "gostring \<Rightarrow> bool"
  cl_start :: "goerr option"
  cl_turns :: "WaitTurn list"
  cl_indent :: "gostring \<Rightarrow> gostring option"
  cl_stdout :: bool

definition readStoredToken :: "secret_error + gostring \<Rightarrow> gostring" where
  "readStoredToken r = (case r of Inl _ \<Rightarrow> [] | Inr token \<Rightarrow> token)"

definition usage_text :: gostring where
  "usage_text = ''Usage: fmr <command> [flags]'' @ [newline, newline] @ ''Commands:'' @ [newline] @
     concat (map (\<lambda>c. ''  '' @ c @ [newline]) commandNames) @ [newline] @ ''Flags: -addr, -token, -config, -json'' @ [newline]"

definition printBody :: "CliEnv \<Rightarrow> gostring \<Rightarrow> bool \<Rightarrow> cli_error option \<times> cli_event list" where
  "printBody e body jsonOutput =
     (let payload = TrimSpace body;
          payload = (if \<not> jsonOutput then (case cl_indent e payload of Some pretty \<Rightarrow> pretty | None \<Rightarrow> payload) else payload)
      in if cl_stdout e then (None, [Printed (payload @ [newline])]) else (Some StdoutFailed, []))"

definition getAndPrint :: "CliEnv \<Rightarrow> Client \<Rightarrow> gostring \<Rightarrow> bool \<Rightarrow> cli_error option \<times> cli_event list" where
  "getAndPrint e c path jsonOutput =
     (case client_Do (cl_client e) c ''GET'' path None of
        (Inl err, qs) \<Rightarrow> (Some (CallFailed err), map Sent qs)
      | (Inr body, qs) \<Rightarrow> apsnd ((@) (map Sent qs)) (printBody e body jsonOutput))"

definition gateway_binaries :: "gostring \<Rightarrow> gostring list" where
  "gateway_binaries dir = [dir @ ''/Free-Model-Router.exe'', dir @ ''/Free-Model-Router'']"

definition gatewayBinaryPath :: "CliEnv \<Rightarrow> cli_error + gostring" where
  "gatewayBinaryPath e =
     (case cl_dir e of
        None \<Rightarrow> Inl NoExecutable
      | Some dir \<Rightarrow> (case List.find (cl_isFile e) (gateway_binaries dir) of None \<Rightarrow> Inl BinaryNotFound | Some b \<Rightarrow> Inr b))"

definition startGateway :: "CliEnv \<Rightarrow> gostring \<Rightarrow> cli_error option \<times> cli_event list" where
  "startGateway e configPath =
     (case gatewayBinaryPath e of
        Inl err \<Rightarrow> (Some err, [])
      | Inr binary \<Rightarrow>
          (case cl_start e of
             Some err \<Rightarrow> (Some (SpawnFailed err), [])
           | None \<Rightarrow> (None, [Spawned binary (if TrimSpace configPath \<noteq> [] then [''-config'', configPath] else [])])))"

fun waitForGateway :: "WaitTurn list \<Rightarrow> Client \<Rightarrow> (cli_error option \<times> cli_event list) option" where
  "waitForGateway [] c = None"
| "waitForGateway (t # ts) c =
     (case client_Do (wt_client t) c ''GET'' ''/_fmr/status'' None of
        (Inr _, qs) \<Rightarrow> Some (None, map Sent qs)
      | (Inl err, qs) \<Rightarrow>
          let token = readStoredToken (wt_secret t);
              c = (if TrimSpace (ct_Token c) = [] \<and> token \<noteq> [] then c\<lparr>ct_Token := token\<rparr> else c)
          in if wt_over t then Some (Some (GatewayNotReady err), map Sent qs)
             else map_option (apsnd ((@) (map Sent qs))) (waitForGateway ts c))"

definition fmr_start :: "CliEnv \<Rightarrow> Client \<Rightarrow> gostring \<Rightarrow> bool \<Rightarrow> (cli_error option \<times> cli_event list) option" where
  "fmr_start e c configPath jsonOutput =
     (case client_Do (cl_client e) c ''GET'' ''/_fmr/status'' None of
        (Inr _, qs) \<Rightarrow> Some (apsnd ((@) (map Sent qs)) (printBody e (''{\"status\":\"already-running\"}'' @ [newline]) jsonOutput))
      | (Inl _, qs) \<Rightarrow>
          (case startGateway e configPath of
             (Some err, evs) \<Rightarrow> Some (Some err, map Sent qs @ evs)
           | (None, evs) \<Rightarrow>
               (case waitForGateway (cl_turns e) c of
                  None \<Rightarrow> None
                | Some (Some err, evs') \<Rightarrow> Some (Some err, map Sent qs @ evs @ evs')
                | Some (None, evs') \<Rightarrow>
                    Some (apsnd ((@) (map Sent qs @ evs @ evs')) (printBody e (''{\"status\":\"started\"}'' @ [newline]) jsonOutput)))))"

definition fmr_stop :: "CliEnv \<Rightarrow> Client \<Rightarrow> bool \<Rightarrow> cli_error option \<times> cli_event list" where
  "fmr_stop e c jsonOutput =
     (case client_Do (cl_client e) c ''POST'' ''/_fmr/stop'' None of
        (Inl err, qs) \<Rightarrow> (Some (CallFailed err), map Sent qs)
      | (Inr body, qs) \<Rightarrow> apsnd ((@) (map Sent qs)) (printBody e body jsonOutput))"

definition fmr_client :: "CliEnv \<Rightarrow> settings \<Rightarrow> Client" where
  "fmr_client e fs =
     (let addr = string_flag fs ''addr'' (if cl_controlAddr e = [] then ''127.0.0.1:8788'' else cl_controlAddr e);
          token = string_flag fs ''token'' (cl_tokenVar e)
      in NewClient addr (if token = [] then readStoredToken (cl_secret e) else token))"

definition fmr_command :: "CliEnv \<Rightarrow> gostring \<Rightarrow> settings \<Rightarrow> (cli_error option \<times> cli_event list) option" where
  "fmr_command e command fs =
     (let c = fmr_client e fs; jsonOutput = bool_flag fs ''json''
      in if command = ''start'' then fmr_start e c (string_flag fs ''config'' []) jsonOutput
         else if command = ''stop'' then Some (fmr_stop e c jsonOutput)
         else if command = ''doctor''
         then Some (apfst (map_option CheckFailed) (getAndPrint e c ''/_fmr/status'' jsonOutput))
         else Some (getAndPrint e c (''/_fmr/'' @ command) jsonOutput))"

definition fmr_run :: "CliEnv \<Rightarrow> gostring list \<Rightarrow> (cli_error option \<times> cli_event list) option" where
  "fmr_run e args =
     (case args of
        [] \<Rightarrow> Some (None, [Printed usage_text])
      | command # rest \<Rightarrow>
          if command \<in> {''-h'', ''--help'', ''help''} then Some (None, [Printed usage_text])
          else if \<not> containsCommand command then Some (Some (UnknownCommand command), [])
          else case parse_flags fmr_flags rest of
            Inl err \<Rightarrow> Some (if err = HelpWanted then None else Some (CliFlagError err), [])
          | Inr (fs, _) \<Rightarrow> fmr_command e command fs)"


section \<open>What a command does to the gateway\<close>

definition command_request :: "gostring \<Rightarrow> gostring \<times> gostring" where
  "command_request command =
     (if command = ''stop'' then (''POST'', ''/_fmr/stop'')
      else if command \<in> {''start'', ''status'', ''doctor''} then (''GET'', ''/_fmr/status'') else (''GET'', ''/_fmr/'' @ command))"

text \<open>All requests use a method and go to the address of an endpoint, as one of some environments writes it.\<close>

definition sends :: "ClientEnv set \<Rightarrow> gostring \<times> gostring \<Rightarrow> cli_event list \<Rightarrow> bool" where
  "sends E vp evs \<longleftrightarrow> (\<forall>q. Sent q \<in> set evs \<longrightarrow> hq_Method q = fst vp \<and>
     (\<exists>env\<in>E. \<exists>c. ke_parseURL env (endpoint c (snd vp)) = Some (hq_URL q)))"

definition cl_envs :: "CliEnv \<Rightarrow> ClientEnv set" where
  "cl_envs e = insert (cl_client e) (wt_client ` set (cl_turns e))"

definition spawns :: "cli_event list \<Rightarrow> (gostring \<times> gostring list) list" where
  "spawns evs = List.map_filter (\<lambda>ev. case ev of Spawned b as \<Rightarrow> Some (b, as) | _ \<Rightarrow> None) evs"

lemma sends_simps [simp]:
  "sends E v []" "sends E v (xs @ ys) = (sends E v xs \<and> sends E v ys)" "sends E v [Printed t]" "sends E v [Spawned b as]"
  by (auto simp: sends_def)

lemma spawns_simps [simp]:
  "spawns [] = []" "spawns (xs @ ys) = spawns xs @ spawns ys" "spawns (map Sent qs) = []" "spawns [Printed t] = []"
  "spawns [Spawned b as] = [(b, as)]"
  by (simp_all add: spawns_def List.map_filter_def)

lemma client_Do_url:
  "q \<in> set (snd (client_Do env c verb path body)) \<Longrightarrow> ke_parseURL env (endpoint c path) = Some (hq_URL q)"
  by (auto simp: client_Do_def Let_def split: option.splits if_splits)

lemma sends_calls: "client_Do env c verb path body = (r, qs) \<Longrightarrow> env \<in> E \<Longrightarrow> sends E (verb, path) (map Sent qs)"
  using client_Do_sent [of _ env c verb path body] client_Do_url [of _ env c verb path body] by (fastforce simp: sends_def)

lemma cl_envs_turns: "wt_client ` set (cl_turns e) \<subseteq> cl_envs e"
  by (auto simp: cl_envs_def)

lemma cl_envs_client [simp]: "cl_client e \<in> cl_envs e"
  by (simp add: cl_envs_def)

lemma printBody_events: "sends E v (snd (printBody e t j)) \<and> spawns (snd (printBody e t j)) = []"
  by (simp add: printBody_def Let_def)

lemma print_after:
  assumes "apsnd ((@) xs) (printBody e t j) = (err, evs)"
  shows "spawns evs = spawns xs \<and> sends E v evs = sends E v xs"
proof (cases "printBody e t j")
  case (Pair a ys)
  with printBody_events [of E v e t j] assms show ?thesis by auto
qed

lemma getAndPrint_events: "sends (cl_envs e) (''GET'', path) (snd (getAndPrint e c path j)) \<and> spawns (snd (getAndPrint e c path j)) = []"
  using printBody_events by (auto simp: getAndPrint_def sends_calls split: prod.split sum.split)

lemma waitForGateway_events:
  "waitForGateway ts c = Some (r, evs) \<Longrightarrow> wt_client ` set ts \<subseteq> E \<Longrightarrow> sends E (''GET'', ''/_fmr/status'') evs \<and> spawns evs = []"
  by (induction ts c arbitrary: r evs rule: waitForGateway.induct)
    (auto simp: sends_calls Let_def split: prod.splits sum.splits if_splits)


text \<open>The gateway a start may run, and the evidence a start needs to report success.\<close>

definition found_binary :: "CliEnv \<Rightarrow> gostring \<Rightarrow> bool" where
  "found_binary e b \<longleftrightarrow> (\<exists>dir. cl_dir e = Some dir \<and> b \<in> set (gateway_binaries dir) \<and> cl_isFile e b)"

definition answers_status :: "ClientEnv \<Rightarrow> Client \<Rightarrow> bool" where
  "answers_status env c \<longleftrightarrow> (\<exists>body. fst (client_Do env c ''GET'' ''/_fmr/status'' None) = Inr body)"

lemma startGateway_events:
  "startGateway e cfg = (err, evs) \<Longrightarrow> sends E v evs \<and>
    (case err of Some _ \<Rightarrow> spawns evs = [] | None \<Rightarrow> \<exists>b as. spawns evs = [(b, as)] \<and> found_binary e b)"
  by (auto simp: startGateway_def gatewayBinaryPath_def found_binary_def find_Some_iff in_set_conv_nth split: sum.splits option.splits)

lemma wait_ready: "waitForGateway ts c = Some (None, evs) \<Longrightarrow> \<exists>t\<in>set ts. \<exists>c'. answers_status (wt_client t) c'"
proof (induction ts arbitrary: c evs)
  case (Cons t ts)
  show ?case
  proof (cases "answers_status (wt_client t) c")
    case False
    then obtain err qs where "client_Do (wt_client t) c ''GET'' ''/_fmr/status'' None = (Inl err, qs)"
      by (cases "client_Do (wt_client t) c ''GET'' ''/_fmr/status'' None"; cases "fst (client_Do (wt_client t) c ''GET'' ''/_fmr/status'' None)")
        (auto simp: answers_status_def)
    with Cons.prems obtain c' evs' where "waitForGateway ts c' = Some (None, evs')"
      by (auto simp: Let_def split: if_splits)
    from Cons.IH [OF this] show ?thesis by auto
  qed auto
qed simp

text \<open>A start that finds the gateway running, one that cannot start it, and one that waits for it.\<close>

lemma fmr_start_cases:
  assumes "fmr_start e c cfg j = Some (err, evs)"
  obtains (running) qs body t where "client_Do (cl_client e) c ''GET'' ''/_fmr/status'' None = (Inr body, qs)"
      "apsnd ((@) (map Sent qs)) (printBody e t j) = (err, evs)"
  | (refused) qs e0 e1 evs2 where "client_Do (cl_client e) c ''GET'' ''/_fmr/status'' None = (Inl e0, qs)"
      "startGateway e cfg = (Some e1, evs2)" "err = Some e1" "evs = map Sent qs @ evs2"
  | (lost) qs e0 e1 evs2 evs3 where "client_Do (cl_client e) c ''GET'' ''/_fmr/status'' None = (Inl e0, qs)"
      "startGateway e cfg = (None, evs2)" "waitForGateway (cl_turns e) c = Some (Some e1, evs3)" "err = Some e1"
      "evs = map Sent qs @ evs2 @ evs3"
  | (started) qs e0 evs2 evs3 t where "client_Do (cl_client e) c ''GET'' ''/_fmr/status'' None = (Inl e0, qs)"
      "startGateway e cfg = (None, evs2)" "waitForGateway (cl_turns e) c = Some (None, evs3)"
      "apsnd ((@) (map Sent qs @ evs2 @ evs3)) (printBody e t j) = (err, evs)"
  using assms unfolding fmr_start_def by (simp split: prod.splits sum.splits option.splits)

lemma fmr_start_events:
  assumes "fmr_start e c cfg j = Some (err, evs)"
  shows "sends (cl_envs e) (''GET'', ''/_fmr/status'') evs \<and> length (spawns evs) \<le> 1 \<and>
    (\<forall>b as. (b, as) \<in> set (spawns evs) \<longrightarrow> found_binary e b \<and> \<not> answers_status (cl_client e) c) \<and>
    (err = None \<longrightarrow> answers_status (cl_client e) c \<or> (\<exists>t\<in>set (cl_turns e). \<exists>c'. answers_status (wt_client t) c'))"
  using assms
proof (cases rule: fmr_start_cases)
  case (running qs body t)
  with print_after [OF running(2), of "cl_envs e" "(''GET'', ''/_fmr/status'')"] show ?thesis by (simp add: sends_calls answers_status_def)
next
  case (refused qs e0 e1 evs2)
  with startGateway_events [OF refused(2), of "cl_envs e" "(''GET'', ''/_fmr/status'')"] show ?thesis by (simp add: sends_calls)
next
  case (lost qs e0 e1 evs2 evs3)
  with startGateway_events [OF lost(2), of "cl_envs e" "(''GET'', ''/_fmr/status'')"] waitForGateway_events [OF lost(3) cl_envs_turns]
  show ?thesis by (auto simp: sends_calls answers_status_def)
next
  case (started qs e0 evs2 evs3 t)
  with startGateway_events [OF started(2), of "cl_envs e" "(''GET'', ''/_fmr/status'')"] waitForGateway_events [OF started(3) cl_envs_turns] wait_ready [OF started(3)]
    print_after [OF started(4), of "cl_envs e" "(''GET'', ''/_fmr/status'')"]
  show ?thesis by (auto simp: sends_calls answers_status_def)
qed


definition routed :: "Options \<Rightarrow> ('b, 'c) ServerEnv \<Rightarrow> ControlRequest \<Rightarrow> ('b, 'c) ServerState \<Rightarrow> bool" where
  "routed opts sx r s \<longleftrightarrow> (\<forall>n. fst (handle opts sx r s) \<noteq> ReplyNoRoute n) \<and> snd (handle opts sx r s) = s"

lemma handleLogs_routed: "handleLogs opts sx r s \<noteq> ReplyNoRoute n"
  by (auto simp: handleLogs_def split: sum.split prod.split)

lemma read_routes:
  "hr_Path r = ''/_fmr/status'' \<Longrightarrow> hr_Method r = ''GET'' \<Longrightarrow> routed opts sx r s"
  "hr_Path r = ''/_fmr/models'' \<Longrightarrow> hr_Method r = ''GET'' \<Longrightarrow> routed opts sx r s"
  "hr_Path r = ''/_fmr/providers'' \<Longrightarrow> hr_Method r = ''GET'' \<Longrightarrow> routed opts sx r s"
  "hr_Path r = ''/_fmr/model-pool'' \<Longrightarrow> hr_Method r = ''GET'' \<Longrightarrow> routed opts sx r s"
  "hr_Path r = ''/_fmr/config'' \<Longrightarrow> hr_Method r = ''GET'' \<Longrightarrow> routed opts sx r s"
  "hr_Path r = ''/_fmr/logs'' \<Longrightarrow> hr_Method r = ''GET'' \<Longrightarrow> routed opts sx r s"
  by (simp_all add: routed_def handle_def Let_def handleLogs_routed)

lemma stop_route:
  "hr_Path r = ''/_fmr/stop'' \<Longrightarrow> hr_Method r = ''POST'' \<Longrightarrow>
   handle opts sx r s = (if op_Stop opts then (ReplyStopping, s\<lparr>sv_stopping := True\<rparr>) else (ReplyError 404 Unavailable, s))"
  by (simp add: handle_def Let_def)

lemma command_request_of:
  "command_request ''stop'' = (''POST'', ''/_fmr/stop'')" "command_request ''start'' = (''GET'', ''/_fmr/status'')"
  "command_request ''status'' = (''GET'', ''/_fmr/status'')" "command_request ''doctor'' = (''GET'', ''/_fmr/status'')"
  "command_request ''models'' = (''GET'', ''/_fmr/models'')" "command_request ''providers'' = (''GET'', ''/_fmr/providers'')"
  "command_request ''model-pool'' = (''GET'', ''/_fmr/model-pool'')" "command_request ''config'' = (''GET'', ''/_fmr/config'')"
  "command_request ''logs'' = (''GET'', ''/_fmr/logs'')"
  by (simp_all add: command_request_def)

lemma containsCommand_iff: "containsCommand command \<longleftrightarrow> command \<in> set commandNames"
  by (auto simp: containsCommand_def list_ex_iff)

lemma commands_routed:
  "\<forall>c\<in>set commandNames. c = ''stop'' \<or> (\<forall>r. hr_Path r = snd (command_request c) \<longrightarrow> hr_Method r = fst (command_request c) \<longrightarrow>
    routed opts sx r s)"
  unfolding commandNames_def list.set ball_simps command_request_of fst_conv snd_conv
  using read_routes [of _ opts sx s] by simp

lemma command_routes:
  assumes "containsCommand command" and "hr_Method r = fst (command_request command)" and "hr_Path r = snd (command_request command)"
  shows "(\<forall>n. fst (handle opts sx r s) \<noteq> ReplyNoRoute n) \<and>
    (snd (handle opts sx r s) = s \<or> command = ''stop'' \<and> snd (handle opts sx r s) = s\<lparr>sv_stopping := True\<rparr>)"
proof (cases "command = ''stop''")
  case True
  with assms(2,3) have "hr_Path r = ''/_fmr/stop''" "hr_Method r = ''POST''" unfolding True command_request_of by simp_all
  from stop_route [OF this, of opts sx s] True show ?thesis by simp
next
  case False
  with assms commands_routed [of opts sx s] have "routed opts sx r s" unfolding containsCommand_iff by blast
  then show ?thesis by (simp add: routed_def)
qed

lemma fmr_stop_events: "sends (cl_envs e) (''POST'', ''/_fmr/stop'') (snd (fmr_stop e c j)) \<and> spawns (snd (fmr_stop e c j)) = []"
  using printBody_events by (auto simp: fmr_stop_def sends_calls split: prod.split sum.split)

lemma fmr_command_events:
  assumes "fmr_command e command fs = Some (err, evs)"
  shows "sends (cl_envs e) (command_request command) evs \<and> length (spawns evs) \<le> 1 \<and>
    (\<forall>b as. (b, as) \<in> set (spawns evs) \<longrightarrow> command = ''start'' \<and> found_binary e b \<and> \<not> answers_status (cl_client e) (fmr_client e fs))"
proof -
  let ?c = "fmr_client e fs" and ?j = "bool_flag fs ''json''"
  from assms have evs: "map_option snd (fmr_command e command fs) = Some evs" by simp
  show ?thesis
  proof (cases "command = ''start''")
    case True
    with assms have "fmr_start e ?c (string_flag fs ''config'' []) ?j = Some (err, evs)" by (simp add: fmr_command_def Let_def)
    from fmr_start_events [OF this] True show ?thesis by (simp add: command_request_def)
  next
    case start: False
    show ?thesis
    proof (cases "command = ''stop''")
      case True
      with evs have "evs = snd (fmr_stop e ?c ?j)" by (simp add: fmr_command_def Let_def)
      with True fmr_stop_events show ?thesis by (simp add: command_request_def)
    next
      case False
      have "evs = snd (getAndPrint e ?c (snd (command_request command)) ?j)" "fst (command_request command) = ''GET''"
        using start False evs by (cases "command = ''doctor''"; cases "command = ''status''"; simp add: fmr_command_def Let_def command_request_def)+
      with start getAndPrint_events [of e "snd (command_request command)" ?c ?j] show ?thesis by (metis prod.collapse list.size(3) le0 empty_iff empty_set)
    qed
  qed
qed

lemma fmr_run_cases:
  assumes "fmr_run e (command # args) = Some (err, evs)"
  obtains (quiet) "\<And>q. Sent q \<notin> set evs" "spawns evs = []"
  | (ran) fs where "containsCommand command" "fmr_command e command fs = Some (err, evs)"
  using assms by (auto simp: fmr_run_def split: if_splits sum.splits prod.splits)

text \<open>C39: whatever a command of the CLI sends to a gateway, the gateway has a route for it, and no command but
  \<open>stop\<close> changes anything there, \<open>stop\<close> asking it to stop; no command but \<open>start\<close> runs a program, it runs one at
  most, a gateway binary next to the executable, and only when no running gateway has answered its status request.\<close>

theorem fmr_commands:
  assumes "fmr_run e (command # args) = Some (err, evs)"
  shows "(\<forall>q remote. Sent q \<in> set evs \<longrightarrow>
      (\<exists>env\<in>cl_envs e. \<exists>c. ke_parseURL env (endpoint c (snd (command_request command))) = Some (hq_URL q)) \<and>
      (case ServeHTTP opts sx (arrives remote (snd (command_request command)) q) s of (rep, s') \<Rightarrow>
        (\<forall>n. rep \<noteq> ReplyNoRoute n) \<and> (s' = s \<or> command = ''stop'' \<and> s' = s\<lparr>sv_stopping := True\<rparr>))) \<and>
    length (spawns evs) \<le> 1 \<and>
    (\<forall>b as. (b, as) \<in> set (spawns evs) \<longrightarrow> command = ''start'' \<and> found_binary e b \<and>
      (\<exists>fs. \<not> answers_status (cl_client e) (fmr_client e fs)))"
  using assms
proof (cases rule: fmr_run_cases)
  case quiet
  then show ?thesis by simp
next
  case (ran fs)
  note ev = fmr_command_events [OF ran(2)]
  have "(\<forall>n. fst (ServeHTTP opts sx (arrives remote (snd (command_request command)) q) s) \<noteq> ReplyNoRoute n) \<and>
      (snd (ServeHTTP opts sx (arrives remote (snd (command_request command)) q) s) = s \<or>
       command = ''stop'' \<and> snd (ServeHTTP opts sx (arrives remote (snd (command_request command)) q) s) = s\<lparr>sv_stopping := True\<rparr>)"
    if "Sent q \<in> set evs" for q remote
  proof -
    from that ev have "hr_Method (arrives remote (snd (command_request command)) q) = fst (command_request command)"
      by (simp add: sends_def arrives_sel)
    from command_routes [OF ran(1) this arrives_sel(2), of opts sx s] show ?thesis by (simp add: ServeHTTP_eq)
  qed
  moreover have "\<exists>env\<in>cl_envs e. \<exists>c. ke_parseURL env (endpoint c (snd (command_request command))) = Some (hq_URL q)"
    if "Sent q \<in> set evs" for q using that ev by (simp add: sends_def)
  ultimately show ?thesis using ev by (auto simp: case_prod_beta)
qed


definition sample_cli :: CliEnv where
  "sample_cli = \<lparr>cl_controlAddr = [], cl_tokenVar = ''t'', cl_secret = Inl ErrSecretNotFound,
     cl_client = \<lparr>ke_parseURL = Some, ke_requestOK = \<lambda>_ _. True, ke_do = \<lambda>_. HttpError ErrCanceled\<rparr>, cl_dir = Some ''/fmr'',
     cl_isFile = \<lambda>f. f = ''/fmr/Free-Model-Router'', cl_start = None,
     cl_turns = [\<lparr>wt_client = \<lparr>ke_parseURL = Some, ke_requestOK = \<lambda>_ _. True, ke_do = \<lambda>_. HttpAnswer 200 \<lparr>bd_data = ''{}'', bd_fail = None\<rparr>\<rparr>,
       wt_secret = Inl ErrSecretNotFound, wt_over = False\<rparr>], cl_indent = \<lambda>_. None, cl_stdout = True\<rparr>"

lemma sample_start:
  "\<exists>evs. fmr_run sample_cli [''start''] = Some (None, evs) \<and> spawns evs = [(''/fmr/Free-Model-Router'', [])]"
proof -
  have c: "containsCommand ''start''" by code_simp
  have b: "gatewayBinaryPath sample_cli = Inr ''/fmr/Free-Model-Router''" by (simp add: gatewayBinaryPath_def gateway_binaries_def sample_cli_def)
  have d: "\<exists>q. client_Do (cl_client sample_cli) k v p None = (Inl (Exchange ErrCanceled), [q])"
    "\<exists>q. client_Do (wt_client (hd (cl_turns sample_cli))) k v p None = (Inr ''{}'', [q])" for k v p
    by (simp_all add: client_Do_def sample_cli_def read_limited_def maxControlBytes_def Let_def)
  let ?k = "fmr_client sample_cli []"
  obtain q1 q2 where q: "client_Do (cl_client sample_cli) ?k ''GET'' ''/_fmr/status'' None = (Inl (Exchange ErrCanceled), [q1])"
    "client_Do (wt_client (hd (cl_turns sample_cli))) ?k ''GET'' ''/_fmr/status'' None = (Inr ''{}'', [q2])" using d by metis
  obtain t where t: "cl_turns sample_cli = [t]" by (simp add: sample_cli_def)
  have w: "waitForGateway (cl_turns sample_cli) ?k = Some (None, [Sent q2])" using q(2) by (simp add: t)
  have "startGateway sample_cli [] = (None, [Spawned ''/fmr/Free-Model-Router'' []])"
    by (simp add: startGateway_def b) (simp add: sample_cli_def TrimSpace_def)
  then show ?thesis using c
    by (simp add: fmr_run_def fmr_command_def fmr_start_def q(1) w string_flag_def printBody_def Let_def spawns_def List.map_filter_def)
      (simp add: sample_cli_def)
qed

theorem fmr_commands_witness:
  "\<exists>evs b as. fmr_run sample_cli [''start''] = Some (None, evs) \<and> (b, as) \<in> set (spawns evs) \<and> found_binary sample_cli b"
proof -
  obtain evs where e: "fmr_run sample_cli [''start''] = Some (None, evs)" "spawns evs = [(''/fmr/Free-Model-Router'', [])]"
    using sample_start by blast
  with fmr_commands [OF e(1)] show ?thesis by auto
qed

end
