(* ===== verification/OpenEvals.thy ===== *)
theory OpenEvals
  imports Discovery Gateway
begin

text \<open>
  Package \<open>internal/benchmarks/openevals\<close> and \<open>internal/app/benchmark.go\<close>: the public leaderboard that scores
  come from, and its refresh. A fetch reads the revision of the dataset, then the leaderboard pinned to it,
  and turns the leaderboard into a benchmark snapshot: per model the mean of its mid-rank percentiles in two
  groups of benchmarks. Go ranges over the maps of results and over the two groups in any order, so both
  orders are arguments. Where the first JSON value of a text ends, and the reading of a time, are given.
\<close>

section \<open>The leaderboard (client.go)\<close>

record BenchmarkResult =
  br_Score :: "float64 option"
  br_Date :: gostring

record LeaderboardModel =
  lm_ID :: gostring
  lm_Name :: gostring
  lm_Benchmarks :: "(gostring \<times> BenchmarkResult) list"

record BoardMetadata =
  lb_Version :: gostring
  lb_LastUpdated :: gostring

record Leaderboard =
  lb_Metadata :: BoardMetadata
  lb_Models :: "LeaderboardModel list"

definition evals_Dataset :: gostring where
  "evals_Dataset = ''OpenEvals/leaderboard-data''"

definition evals_Source :: gostring where
  "evals_Source = ''huggingface/openevals/leaderboard-data''"

definition evals_Policy :: gostring where
  "evals_Policy = ''openevals-v1''"

definition evals_maxBodySize :: nat where
  "evals_maxBodySize = 2 * 2 ^ 20"

section \<open>Decoding (client.go)\<close>

definition dec_float :: "float64 \<Rightarrow> json \<Rightarrow> float64 option" where
  "dec_float old j = (case j of JNull \<Rightarrow> Some old | JNum t \<Rightarrow> ParseFloat t | _ \<Rightarrow> None)"

definition sha_field :: "gostring \<Rightarrow> json \<Rightarrow> gostring \<Rightarrow> gostring option" where
  "sha_field k j sha = (case field_named [''sha''] k of None \<Rightarrow> Some sha | Some _ \<Rightarrow> dec_string sha j)"

definition result_field :: "gostring \<Rightarrow> json \<Rightarrow> BenchmarkResult \<Rightarrow> BenchmarkResult option" where
  "result_field k j r = (case field_named [''score'', ''date''] k of
       None \<Rightarrow> Some r
     | Some n \<Rightarrow>
         if n = ''score'' then map_option (\<lambda>x. r\<lparr>br_Score := x\<rparr>) (dec_ptr dec_float (Fin 0) (br_Score r) j)
         else map_option (\<lambda>x. r\<lparr>br_Date := x\<rparr>) (dec_string (br_Date r) j))"

definition zero_result :: BenchmarkResult where
  "zero_result = \<lparr>br_Score = None, br_Date = []\<rparr>"

definition board_model_field :: "gostring \<Rightarrow> json \<Rightarrow> LeaderboardModel \<Rightarrow> LeaderboardModel option" where
  "board_model_field k j m = (case field_named [''id'', ''name'', ''benchmarks''] k of
       None \<Rightarrow> Some m
     | Some n \<Rightarrow>
         if n = ''id'' then map_option (\<lambda>x. m\<lparr>lm_ID := x\<rparr>) (dec_string (lm_ID m) j)
         else if n = ''name'' then map_option (\<lambda>x. m\<lparr>lm_Name := x\<rparr>) (dec_string (lm_Name m) j)
         else map_option (\<lambda>x. m\<lparr>lm_Benchmarks := x\<rparr>)
           (dec_map (dec_struct result_field) zero_result (lm_Benchmarks m) j))"

definition zero_board_model :: LeaderboardModel where
  "zero_board_model = \<lparr>lm_ID = [], lm_Name = [], lm_Benchmarks = []\<rparr>"

definition board_metadata_field :: "gostring \<Rightarrow> json \<Rightarrow> BoardMetadata \<Rightarrow> BoardMetadata option" where
  "board_metadata_field k j m = (case field_named [''version'', ''lastUpdated''] k of
       None \<Rightarrow> Some m
     | Some n \<Rightarrow>
         if n = ''version'' then map_option (\<lambda>x. m\<lparr>lb_Version := x\<rparr>) (dec_string (lb_Version m) j)
         else map_option (\<lambda>x. m\<lparr>lb_LastUpdated := x\<rparr>) (dec_string (lb_LastUpdated m) j))"

definition board_field :: "gostring \<Rightarrow> json \<Rightarrow> Leaderboard \<Rightarrow> Leaderboard option" where
  "board_field k j b = (case field_named [''metadata'', ''models''] k of
       None \<Rightarrow> Some b
     | Some n \<Rightarrow>
         if n = ''metadata''
         then map_option (\<lambda>x. b\<lparr>lb_Metadata := x\<rparr>) (dec_struct board_metadata_field (lb_Metadata b) j)
         else map_option (\<lambda>x. b\<lparr>lb_Models := x\<rparr>)
           (dec_list (dec_struct board_model_field) zero_board_model (lb_Models b) j))"

definition zero_board :: Leaderboard where
  "zero_board = \<lparr>lb_Metadata = \<lparr>lb_Version = [], lb_LastUpdated = []\<rparr>, lb_Models = []\<rparr>"

section \<open>From a leaderboard to a snapshot (client.go)\<close>

definition capabilityBenchmarks :: "gostring list" where
  "capabilityBenchmarks = [''sweVerified'', ''swePro'', ''terminalBench'']"

definition intelligenceBenchmarks :: "gostring list" where
  "intelligenceBenchmarks = [''gsm8k'', ''mmluPro'', ''gpqa'', ''hle'', ''aime2026'', ''hmmt2026'']"

type_synonym results = "(gostring \<times> BenchmarkResult) list"
type_synonym populations = "gostring \<Rightarrow> float64 list"

definition approved :: "gostring \<Rightarrow> bool" where
  "approved name \<longleftrightarrow> name \<in> set capabilityBenchmarks \<or> name \<in> set intelligenceBenchmarks"

definition bad_score :: "float64 \<Rightarrow> bool" where
  "bad_score x \<longleftrightarrow> IsNaN x \<or> IsInf x \<or> flt x (Fin 0) \<or> flt (Fin 100) x"

fun scan_results :: "gostring \<Rightarrow> results \<Rightarrow> populations \<Rightarrow> goerr + populations" where
  "scan_results pid [] values = Inr values"
| "scan_results pid ((name, result) # rest) values =
     (if \<not> approved name then scan_results pid rest values
      else case br_Score result of
        None \<Rightarrow> scan_results pid rest values
      | Some x \<Rightarrow>
          if bad_score x then Inl (PlainError (''invalid '' @ name @ '' score for '' @ pid))
          else scan_results pid rest (values(name := values name @ [x])))"

fun scan_models :: "(results \<Rightarrow> results) \<Rightarrow> LeaderboardModel list \<Rightarrow> gostring set \<Rightarrow> populations \<Rightarrow> goerr + populations" where
  "scan_models rng [] seen values = Inr values"
| "scan_models rng (model # rest) seen values =
     (let pid = TrimSpace (lm_ID model)
      in if pid = [] \<or> pid \<in> seen then Inl (PlainError ''duplicate or empty OpenEvals model id'')
         else case scan_results pid (rng (lm_Benchmarks model)) values of
           Inl e \<Rightarrow> Inl e
         | Inr values \<Rightarrow> scan_models rng rest (insert pid seen) values)"

text \<open>\<open>sort.Float64s\<close> puts NaN first.\<close>

definition float_less :: "float64 \<Rightarrow> float64 \<Rightarrow> bool" where
  "float_less x y \<longleftrightarrow> flt x y \<or> IsNaN x \<and> \<not> IsNaN y"

definition benchmark_score :: "results \<Rightarrow> populations \<Rightarrow> gostring \<Rightarrow> float64 option" where
  "benchmark_score results pops name =
     (case map_of results name of
        None \<Rightarrow> None
      | Some result \<Rightarrow>
          (case br_Score result of
             None \<Rightarrow> None
           | Some x \<Rightarrow> if length (pops name) < 2 then None else Some (Percentile x (pops name) True)))"

definition categoryPercentile :: "results \<Rightarrow> populations \<Rightarrow> gostring list \<Rightarrow> float64 option" where
  "categoryPercentile results pops allowed =
     (let scores = List.map_filter (benchmark_score results pops) allowed
      in if scores = [] then None
         else Some (fdiv (foldl fadd (Fin 0) (sort_stable float_less scores)) (float_of_int (int (length scores)))))"

fun unique_trimmed :: "gostring set \<Rightarrow> gostring list \<Rightarrow> gostring list" where
  "unique_trimmed seen [] = []"
| "unique_trimmed seen (v # vs) =
     (let v = TrimSpace v
      in if v \<noteq> [] \<and> v \<notin> seen then v # unique_trimmed (insert v seen) vs else unique_trimmed seen vs)"

definition uniqueAliases :: "gostring \<Rightarrow> gostring \<Rightarrow> gostring list" where
  "uniqueAliases pid name = unique_trimmed {} ([pid, name] @ (case LastIndexByte name CHR ''/'' of
       None \<Rightarrow> []
     | Some slash \<Rightarrow> if slash + 1 < length name then [drop (slash + 1) name] else []))"

fun score_models ::
  "(gostring list \<Rightarrow> gostring list) \<Rightarrow> populations \<Rightarrow> LeaderboardModel list \<Rightarrow> (gostring \<times> Metrics) list \<Rightarrow>
   (gostring \<times> Metrics) list \<times> BenchmarkModel list" where
  "score_models cats values [] metrics = (metrics, [])"
| "score_models cats values (m # rest) metrics =
     (let capability = categoryPercentile (lm_Benchmarks m) values (cats capabilityBenchmarks);
          intelligence = categoryPercentile (lm_Benchmarks m) values (cats intelligenceBenchmarks)
      in if capability = None \<and> intelligence = None then score_models cats values rest metrics
         else case score_models cats values rest (AList.update (lm_ID m)
             \<lparr>me_Capability = capability, me_Availability = None, me_Intelligence = intelligence\<rparr> metrics) of
           (all, benchmarks) \<Rightarrow> (all, \<lparr>bm_SourceModelID = lm_ID m, bm_CanonicalModelKey = [], bm_Name = lm_Name m,
               bm_Aliases = uniqueAliases (lm_ID m) (lm_Name m)\<rparr> # benchmarks))"

definition evals_normalize ::
  "(results \<Rightarrow> results) \<Rightarrow> (gostring list \<Rightarrow> gostring list) \<Rightarrow> (gostring \<Rightarrow> time option) \<Rightarrow> Leaderboard \<Rightarrow>
   gostring \<Rightarrow> time \<Rightarrow> goerr + Snapshot" where
  "evals_normalize rng cats parseTime board sha now =
     (if lb_Models board = [] then Inl (PlainError ''OpenEvals has no models'')
      else case scan_models rng (lb_Models board) {} (\<lambda>_. []) of
        Inl e \<Rightarrow> Inl e
      | Inr values \<Rightarrow>
          (case score_models cats values (lb_Models board) [] of
             (metrics, benchmarks) \<Rightarrow>
               if metrics = [] then Inl (PlainError ''OpenEvals has no usable approved benchmark scores'')
               else let md = lb_Metadata board;
                    updatedAt = (case parseTime (TrimSpace (lb_LastUpdated md)) of None \<Rightarrow> 0 | Some t \<Rightarrow> t)
                 in Inr \<lparr>sn_Version = TrimSpace (lb_Version md) @ ''+'' @ sha @ ''+'' @ evals_Policy, sn_Source = evals_Source,
                   sn_RetrievedAt = now, sn_Benchmarks = benchmarks, sn_Models = Some (map_of metrics),
                   sn_Provenance = Some \<lparr>pv_Revision = sha, pv_UpstreamVersion = lb_Version md,
                     pv_UpstreamUpdatedAt = updatedAt, pv_PolicyVersion = evals_Policy\<rparr>\<rparr>))"

section \<open>Fetching (client.go)\<close>

datatype first_value = FirstValue json | Malformed | Incomplete

definition evals_getJSON ::
  "(gostring \<Rightarrow> first_value) \<Rightarrow> ('s \<Rightarrow> json \<Rightarrow> 's option) \<Rightarrow> 's \<Rightarrow> CallEnv \<Rightarrow> gostring \<Rightarrow> (goerr + 's) \<times> HttpRequest list" where
  "evals_getJSON first dec zero ce url =
     (if \<not> ce_urlOK ce url then (Inl (PlainError ''url''), [])
      else case http_Do plain_transport ce \<lparr>hq_Method = ''GET'', hq_URL = url, hq_Authorization = None, hq_Body = None\<rparr> of
        (answer, sent) \<Rightarrow>
          (case answer of
             HttpError e \<Rightarrow> Inl e
           | HttpAnswer code b \<Rightarrow>
               if code < 200 \<or> code \<ge> 300 then Inl (PlainError (''unexpected HTTP status '' @ Itoa code))
               else case first (take (evals_maxBodySize + 1) (bd_data b)) of
                 Malformed \<Rightarrow> Inl (PlainError ''JSON'')
               | Incomplete \<Rightarrow>
                   Inl (case bd_fail b of
                      Some e \<Rightarrow> if length (bd_data b) \<le> evals_maxBodySize then e else PlainError ''unexpected EOF''
                    | None \<Rightarrow> PlainError ''unexpected EOF'')
               | FirstValue j \<Rightarrow> (case dec zero j of None \<Rightarrow> Inl (PlainError ''JSON'') | Some v \<Rightarrow> Inr v), sent))"

definition is_sha :: "gostring \<Rightarrow> bool" where
  "is_sha s \<longleftrightarrow> length s = 40 \<and> list_all (\<lambda>c. c \<in> set ''0123456789abcdef'') s"

definition metadata_url :: gostring where
  "metadata_url = ''https://huggingface.co/api/datasets/'' @ evals_Dataset"

definition board_url :: "gostring \<Rightarrow> gostring" where
  "board_url sha = ''https://huggingface.co/datasets/'' @ evals_Dataset @ ''/resolve/'' @ sha @ ''/leaderboard.json''"

record FetchEnv =
  fe_rng :: "results \<Rightarrow> results"
  fe_cats :: "gostring list \<Rightarrow> gostring list"
  fe_parseTime :: "gostring \<Rightarrow> time option"
  fe_first :: "gostring \<Rightarrow> first_value"
  fe_now :: time

definition evals_Fetch :: "FetchEnv \<Rightarrow> CallEnv \<Rightarrow> (goerr + Snapshot) \<times> HttpRequest list" where
  "evals_Fetch fe ce =
     (case evals_getJSON (fe_first fe) (dec_struct sha_field) [] ce metadata_url of
        (Inl e, qs) \<Rightarrow> (Inl (WrapError ''read OpenEvals metadata: '' e), qs)
      | (Inr raw, qs) \<Rightarrow>
          (let sha = ToLower (TrimSpace raw)
           in if \<not> is_sha sha then (Inl (PlainError ''invalid OpenEvals revision''), qs)
              else case evals_getJSON (fe_first fe) (dec_struct board_field) zero_board ce (board_url sha) of
                (Inl e, qs') \<Rightarrow> (Inl (WrapError ''read OpenEvals leaderboard: '' e), qs @ qs')
              | (Inr board, qs') \<Rightarrow> (evals_normalize (fe_rng fe) (fe_cats fe) (fe_parseTime fe) board sha (fe_now fe), qs @ qs')))"

section \<open>Refreshing (app/benchmark.go)\<close>

definition benchmarkErrorCode :: "goerr \<Rightarrow> gostring" where
  "benchmarkErrorCode err =
     (if err_Is err ErrDeadlineExceeded then ''fetch_timeout''
      else if err_Is err ErrCanceled then ''fetch_canceled''
      else ''fetch_failed'')"

text \<open>What one refresh finds: the time it starts, the answers of the source and of the file system, the time it ends.\<close>

record 'c RefreshEnv =
  re_attemptedAt :: time
  re_fetch :: FetchEnv
  re_call :: CallEnv
  re_save :: "'c SaveEnv"
  re_doneAt :: time

definition benchmark_refresh ::
  "(Snapshot \<Rightarrow> 'c option) \<Rightarrow> 'c \<Rightarrow> (Snapshot \<Rightarrow> gostring list) \<Rightarrow> Cache \<Rightarrow> 'c RefreshEnv \<Rightarrow> Gateway \<times> 'c fs \<Rightarrow>
   Gateway \<times> 'c fs list" where
  "benchmark_refresh marshal noBytes order cache env st =
     (case st of (g, f) \<Rightarrow>
        let g = MarkBenchmarkFetching (re_attemptedAt env) g
        in case fst (evals_Fetch (re_fetch env) (re_call env)) of
             Inl e \<Rightarrow> (MarkBenchmarkFailure (re_attemptedAt env) (benchmarkErrorCode e) g, [f])
           | Inr snapshot \<Rightarrow>
               let fss = snd (Save marshal noBytes order (re_save env) (Some cache) snapshot f)
               in (case SetBenchmarkSnapshot (order snapshot) snapshot g of
                     (Some _, g) \<Rightarrow> MarkBenchmarkFailure (re_attemptedAt env) ''invalid_snapshot'' g
                   | (None, g) \<Rightarrow> SetBenchmarkSource ''live'' (re_doneAt env) g, fss))"

text \<open>Before serving, a cached snapshot is installed; after that one refresh per tick.\<close>

definition install_cached ::
  "('c \<Rightarrow> Snapshot option) \<Rightarrow> ('c \<Rightarrow> nat) \<Rightarrow> (Snapshot \<Rightarrow> gostring list) \<Rightarrow> Cache \<Rightarrow> LoadEnv \<Rightarrow> time \<Rightarrow> Gateway \<times> 'c fs \<Rightarrow>
   Gateway \<times> 'c fs" where
  "install_cached unmarshal nbytes order cache lenv now st =
     (case st of (g, f) \<Rightarrow>
        case LoadLastKnownGood unmarshal nbytes order lenv (Some cache) f of
          (Inl _, f) \<Rightarrow> (g, f)
        | (Inr cached, f) \<Rightarrow>
            (case SetBenchmarkSnapshot (order cached) cached g of
               (Some _, g) \<Rightarrow> (g, f)
             | (None, g) \<Rightarrow> (SetBenchmarkSource ''cache'' now g, f)))"

fun refresh_ticks ::
  "(Snapshot \<Rightarrow> 'c option) \<Rightarrow> 'c \<Rightarrow> (Snapshot \<Rightarrow> gostring list) \<Rightarrow> Cache \<Rightarrow> 'c RefreshEnv list \<Rightarrow> Gateway \<times> 'c fs \<Rightarrow>
   Gateway \<times> 'c fs" where
  "refresh_ticks marshal noBytes order cache [] st = st"
| "refresh_ticks marshal noBytes order cache (env # envs) st =
     (case benchmark_refresh marshal noBytes order cache env st of
        (g, fss) \<Rightarrow> refresh_ticks marshal noBytes order cache envs (g, last fss))"

definition startBenchmarkRefresh ::
  "(Snapshot \<Rightarrow> 'c option) \<Rightarrow> 'c \<Rightarrow> ('c \<Rightarrow> Snapshot option) \<Rightarrow> ('c \<Rightarrow> nat) \<Rightarrow> (Snapshot \<Rightarrow> gostring list) \<Rightarrow> Cache \<Rightarrow>
   LoadEnv \<Rightarrow> time \<Rightarrow> 'c RefreshEnv list \<Rightarrow> Gateway \<times> 'c fs \<Rightarrow> Gateway \<times> 'c fs" where
  "startBenchmarkRefresh marshal noBytes unmarshal nbytes order cache lenv now envs st =
     refresh_ticks marshal noBytes order cache envs (install_cached unmarshal nbytes order cache lenv now st)"


section \<open>Scores are percentages\<close>

lemma Percentile_range: "in_range 100 (Percentile v pop h)"
  using in_range_iff [of 100 UnknownScore] by (simp add: Percentile_def Let_def UnknownScore_def)

lemma foldl_fadd_range:
  assumes "\<forall>x\<in>set xs. in_range 100 x" and "in_range (of_int a) s" and "a + 100 * int (length xs) < 2 ^ 53"
  shows "in_range (of_int (a + 100 * int (length xs))) (foldl fadd s xs)"
  using assms
proof (induction xs arbitrary: a s)
  case Nil
  then show ?case by simp
next
  case (Cons x xs)
  from Cons.prems have "in_range (of_int (a + 100)) (fadd s x)" by (intro fadd_range) auto
  with Cons.prems Cons.IH [of "a + 100" "fadd s x"] show ?case by (simp add: algebra_simps)
qed

lemma mean_range:
  assumes "\<forall>x\<in>set xs. in_range 100 x" and "xs \<noteq> []" and "length xs < 2 ^ 40"
  shows "in_range 100 (fdiv (foldl fadd (Fin 0) xs) (float_of_int (int (length xs))))"
proof -
  let ?n = "int (length xs)"
  have n: "0 < ?n" "100 * ?n < 2 ^ 53" using assms by simp_all
  from foldl_fadd_range [of xs 0 "Fin 0"] assms(1) n(2)
  obtain s where s: "foldl fadd (Fin 0) xs = Fin s" "0 \<le> s" "s \<le> of_int (100 * ?n)"
    by (auto simp: in_range_iff)
  have "s / of_int ?n \<le> of_int 100" using n(1) s(3) by (simp add: divide_le_eq)
  with s n have "in_range (of_int 100) (fl (s / of_int ?n))" by (intro fl_in_range) auto
  with s n show ?thesis by (simp add: float_of_int_exact)
qed

lemma categoryPercentile_range:
  assumes "categoryPercentile results pops allowed = Some x" and "length allowed < 2 ^ 40"
  shows "in_range 100 x \<and> (\<exists>name\<in>set allowed. \<exists>r. map_of results name = Some r \<and> br_Score r \<noteq> None \<and> 2 \<le> length (pops name))"
proof -
  let ?scores = "List.map_filter (benchmark_score results pops) allowed"
  from assms(1) have x: "?scores \<noteq> []" "x = fdiv (foldl fadd (Fin 0) (sort_stable float_less ?scores)) (float_of_int (int (length ?scores)))"
    by (auto simp: categoryPercentile_def Let_def split: if_splits)
  have b: "benchmark_score results pops n = Some y \<Longrightarrow>
      in_range 100 y \<and> (\<exists>r. map_of results n = Some r \<and> br_Score r \<noteq> None \<and> 2 \<le> length (pops n))" for n y
    by (auto simp: benchmark_score_def Percentile_range split: option.splits if_splits)
  have mem: "y \<in> set ?scores \<longleftrightarrow> (\<exists>n\<in>set allowed. benchmark_score results pops n = Some y)" for y
    by (force simp: List.map_filter_def)
  have "length ?scores \<le> length allowed" by (simp add: List.map_filter_def)
  with assms(2) have "length (sort_stable float_less ?scores) < 2 ^ 40" by simp
  moreover have "\<forall>y\<in>set (sort_stable float_less ?scores). in_range 100 y" using b mem by auto
  ultimately have "in_range 100 x" using mean_range [of "sort_stable float_less ?scores"] x by simp
  moreover obtain y where "y \<in> set ?scores" using x(1) by (cases ?scores) auto
  ultimately show ?thesis using mem b by blast
qed

section \<open>What the scan collects\<close>

definition bad_entry :: "gostring \<times> BenchmarkResult \<Rightarrow> bool" where
  "bad_entry p \<longleftrightarrow> approved (fst p) \<and> (case br_Score (snd p) of None \<Rightarrow> False | Some x \<Rightarrow> bad_score x)"

definition approved_scores :: "gostring \<Rightarrow> results \<Rightarrow> float64 list" where
  "approved_scores name rs =
     (if approved name then List.map_filter (\<lambda>p. br_Score (snd p)) (filter (\<lambda>p. fst p = name) rs) else [])"

lemma scan_results_spec:
  "(if list_ex bad_entry rs then (\<exists>e. scan_results pid rs vals = Inl e)
    else scan_results pid rs vals = Inr (\<lambda>n. vals n @ approved_scores n rs))"
proof (induction rs arbitrary: vals)
  case Nil
  have "approved_scores n [] = []" for n by (simp add: approved_scores_def List.map_filter_def)
  then show ?case by simp
next
  case (Cons p rs)
  obtain name r where p: "p = (name, r)" by (cases p)
  show ?case
  proof (cases "approved name \<and> br_Score r \<noteq> None")
    case False
    then have "bad_entry p = False" "approved_scores n (p # rs) = approved_scores n rs" for n
      by (auto simp: p bad_entry_def approved_scores_def List.map_filter_def)
    with False Cons.IH [of vals] show ?thesis by (auto simp: p)
  next
    case True
    then obtain x where x: "br_Score r = Some x" by blast
    have "approved_scores n (p # rs) = (if n = name then x # approved_scores n rs else approved_scores n rs)" for n
      using True x by (simp add: p approved_scores_def List.map_filter_def)
    with True x Cons.IH [of "vals(name := vals name @ [x])"] show ?thesis
      by (auto simp: p bad_entry_def fun_eq_iff)
  qed
qed

text \<open>The populations the two orders give hold the same scores.\<close>

definition same_populations :: "goerr + populations \<Rightarrow> goerr + populations \<Rightarrow> bool" where
  "same_populations a b = (case (a, b) of
       (Inr v, Inr w) \<Rightarrow> \<forall>n. mset (v n) = mset (w n)
     | (Inl _, Inl _) \<Rightarrow> True
     | _ \<Rightarrow> False)"

lemma approved_scores_mset: "mset rs = mset rs' \<Longrightarrow> mset (approved_scores n rs) = mset (approved_scores n rs')"
  by (simp add: approved_scores_def List.map_filter_def mset_filter)

lemma scan_models_order:
  assumes "\<forall>m. mset (rng m) = mset (rng' m)" and "\<forall>n. mset (v n) = mset (w n)"
  shows "same_populations (scan_models rng ms seen v) (scan_models rng' ms seen w)"
  using assms(2)
proof (induction ms arbitrary: seen v w)
  case Nil
  then show ?case by (simp add: same_populations_def)
next
  case (Cons m ms)
  let ?id = "TrimSpace (lm_ID m)" and ?rs = "rng (lm_Benchmarks m)" and ?rs' = "rng' (lm_Benchmarks m)"
  have eq: "mset ?rs = mset ?rs'" using assms(1) by blast
  then have ex: "list_ex bad_entry ?rs = list_ex bad_entry ?rs'" by (metis list_ex_iff mset_eq_setD)
  show ?case
  proof (cases "?id = [] \<or> ?id \<in> seen \<or> list_ex bad_entry ?rs")
    case True
    then show ?thesis using scan_results_spec [of ?rs ?id v] scan_results_spec [of ?rs' ?id w] ex
      by (auto simp: same_populations_def Let_def)
  next
    case False
    with scan_results_spec [of ?rs ?id v] scan_results_spec [of ?rs' ?id w] ex
    have r: "scan_results ?id ?rs v = Inr (\<lambda>n. v n @ approved_scores n ?rs)"
      "scan_results ?id ?rs' w = Inr (\<lambda>n. w n @ approved_scores n ?rs')" by auto
    have "\<forall>n. mset (v n @ approved_scores n ?rs) = mset (w n @ approved_scores n ?rs')"
      using Cons.prems approved_scores_mset [OF eq] by simp
    from Cons.IH [OF this] False r show ?thesis by (auto simp: Let_def)
  qed
qed

section \<open>The order of the maps does not matter\<close>

lemma IsNaN_iff: "IsNaN x \<longleftrightarrow> x = NaN"
  by (cases x) (simp_all add: IsNaN_def)

lemma flt_NaN [simp]: "\<not> flt NaN x" "\<not> flt x NaN"
  by (cases x; simp)+

interpretation float_sort: strict_total_on float_less id
proof
  show "\<not> float_less x x" for x by (simp add: float_less_def)
  show "float_less x z \<Longrightarrow> float_less x y \<or> float_less y z" for x y z
    unfolding float_less_def IsNaN_iff by (cases "y = NaN"; cases "x = NaN"; cases "z = NaN") (auto dest: flt_linear flt_trans)
  show "float_less x y \<Longrightarrow> float_less y z \<Longrightarrow> float_less x z" for x y z
    unfolding float_less_def IsNaN_iff using flt_trans [of x y z] by auto
  show "id x \<noteq> id y \<Longrightarrow> float_less x y \<or> float_less y x" for x y
    unfolding float_less_def IsNaN_iff using flt_linear [of x y] by auto
qed


lemma benchmark_score_order:
  assumes "\<forall>n. mset (v n) = mset (w n)"
  shows "benchmark_score rs v n = benchmark_score rs w n"
proof -
  have "length (v n) = length (w n)" "Percentile x (v n) True = Percentile x (w n) True" for x
    using assms Percentile_perm by (metis size_mset) (use assms Percentile_perm in blast)
  note same = this
  show ?thesis by (simp add: benchmark_score_def same split: option.split)
qed

lemma categoryPercentile_order:
  assumes "\<forall>n. mset (v n) = mset (w n)" and "mset ns = mset ns'"
  shows "categoryPercentile rs v ns = categoryPercentile rs w ns'"
proof -
  let ?s = "List.map_filter (benchmark_score rs v) ns" and ?s' = "List.map_filter (benchmark_score rs w) ns'"
  have "benchmark_score rs v = benchmark_score rs w" using benchmark_score_order [OF assms(1)] by blast
  with assms(2) have eq: "mset ?s = mset ?s'" by (simp add: List.map_filter_def mset_filter)
  then have "sort_stable float_less ?s = sort_stable float_less ?s'" by (intro float_sort.sort_stable_cong) simp_all
  moreover have "length ?s = length ?s'" and "?s = [] \<longleftrightarrow> ?s' = []" using eq by (auto dest: mset_eq_length)
  ultimately show ?thesis by (simp add: categoryPercentile_def Let_def)
qed

lemma score_models_order:
  assumes "\<forall>n. mset (v n) = mset (w n)" and "\<forall>ns. mset (cats ns) = mset (cats' ns)"
  shows "score_models cats v ms metrics = score_models cats' w ms metrics"
  using categoryPercentile_order [OF assms(1) assms(2) [THEN spec]]
  by (induction ms arbitrary: metrics) (simp_all add: Let_def)

text \<open>C40: whatever orders Go ranges over its maps in, the same leaderboard gives the same snapshot, to the
  last bit of every score, or is refused in both cases.\<close>

theorem normalize_order:
  assumes "\<forall>rs. mset (rng rs) = mset (rng' rs)" and "\<forall>ns. mset (cats ns) = mset (cats' ns)"
  shows "evals_normalize rng cats parseTime board sha now = evals_normalize rng' cats' parseTime board sha now \<or>
    (\<exists>e e'. evals_normalize rng cats parseTime board sha now = Inl e \<and> evals_normalize rng' cats' parseTime board sha now = Inl e')"
proof -
  have "same_populations (scan_models rng (lb_Models board) {} (\<lambda>_. [])) (scan_models rng' (lb_Models board) {} (\<lambda>_. []))"
    using scan_models_order [OF assms(1)] by simp
  then consider (scanned) v w where "scan_models rng (lb_Models board) {} (\<lambda>_. []) = Inr v"
      "scan_models rng' (lb_Models board) {} (\<lambda>_. []) = Inr w" "\<forall>n. mset (v n) = mset (w n)"
    | (refused) e e' where "scan_models rng (lb_Models board) {} (\<lambda>_. []) = Inl e"
      "scan_models rng' (lb_Models board) {} (\<lambda>_. []) = Inl e'"
    by (auto simp: same_populations_def split: sum.splits)
  then show ?thesis
  proof cases
    case scanned
    from score_models_order [OF scanned(3) assms(2)] scanned show ?thesis by (simp add: evals_normalize_def)
  next
    case refused
    then show ?thesis by (simp add: evals_normalize_def)
  qed
qed

section \<open>A fetched snapshot is valid\<close>

lemma scan_models_ids:
  assumes "scan_models rng ms seen v = Inr w"
  shows "distinct (map (\<lambda>m. TrimSpace (lm_ID m)) ms)"
    and "\<forall>m\<in>set ms. TrimSpace (lm_ID m) \<noteq> [] \<and> TrimSpace (lm_ID m) \<notin> seen"
proof -
  have "distinct (map (\<lambda>m. TrimSpace (lm_ID m)) ms) \<and> (\<forall>m\<in>set ms. TrimSpace (lm_ID m) \<noteq> [] \<and> TrimSpace (lm_ID m) \<notin> seen)"
    using assms
  proof (induction ms arbitrary: seen v)
    case (Cons m ms)
    then obtain x where "TrimSpace (lm_ID m) \<noteq> []" "TrimSpace (lm_ID m) \<notin> seen"
      "scan_models rng ms (insert (TrimSpace (lm_ID m)) seen) x = Inr w"
      by (auto simp: Let_def split: if_splits sum.splits)
    with Cons.IH show ?case by force
  qed simp
  then show "distinct (map (\<lambda>m. TrimSpace (lm_ID m)) ms)"
    and "\<forall>m\<in>set ms. TrimSpace (lm_ID m) \<noteq> [] \<and> TrimSpace (lm_ID m) \<notin> seen" by auto
qed

text \<open>The entry of a model, and the models that have one.\<close>

definition model_metrics :: "(gostring list \<Rightarrow> gostring list) \<Rightarrow> populations \<Rightarrow> LeaderboardModel \<Rightarrow> Metrics" where
  "model_metrics cats pops m =
     \<lparr>me_Capability = categoryPercentile (lm_Benchmarks m) pops (cats capabilityBenchmarks), me_Availability = None,
      me_Intelligence = categoryPercentile (lm_Benchmarks m) pops (cats intelligenceBenchmarks)\<rparr>"

definition measured :: "(gostring list \<Rightarrow> gostring list) \<Rightarrow> populations \<Rightarrow> LeaderboardModel \<Rightarrow> bool" where
  "measured cats pops m \<longleftrightarrow>
     me_Capability (model_metrics cats pops m) \<noteq> None \<or> me_Intelligence (model_metrics cats pops m) \<noteq> None"

lemma score_models_spec:
  assumes "distinct (map lm_ID ms)" and "\<forall>m\<in>set ms. lm_ID m \<notin> fst ` set metrics"
  shows "map_of (fst (score_models cats pops ms metrics)) =
      map_of metrics ++ map_of (map (\<lambda>m. (lm_ID m, model_metrics cats pops m)) (filter (measured cats pops) ms)) \<and>
    map bm_SourceModelID (snd (score_models cats pops ms metrics)) = map lm_ID (filter (measured cats pops) ms)"
  using assms
proof (induction ms arbitrary: metrics)
  case (Cons m ms)
  let ?up = "AList.update (lm_ID m) (model_metrics cats pops m) metrics"
  have step: "score_models cats pops (m # ms) metrics =
      (if measured cats pops m
       then case score_models cats pops ms ?up of
         (all, bs) \<Rightarrow> (all, \<lparr>bm_SourceModelID = lm_ID m, bm_CanonicalModelKey = [], bm_Name = lm_Name m,
             bm_Aliases = uniqueAliases (lm_ID m) (lm_Name m)\<rparr> # bs)
       else score_models cats pops ms metrics)"
    by (simp add: measured_def model_metrics_def Let_def)
  have up: "\<forall>x\<in>set ms. lm_ID x \<notin> fst ` set ?up" and tl: "\<forall>x\<in>set ms. lm_ID x \<notin> fst ` set metrics" "distinct (map lm_ID ms)"
    and fresh: "lm_ID m \<notin> lm_ID ` set ms"
    using Cons.prems by (auto simp: dom_map_of_conv_image_fst [symmetric] update_conv') (metis imageI)
  let ?T = "map_of (map (\<lambda>m. (lm_ID m, model_metrics cats pops m)) (filter (measured cats pops) ms))"
  have "?T (lm_ID m) = None" using fresh by (auto simp: map_of_eq_None_iff)
  then have "map_of ?up ++ ?T = map_of metrics ++ ?T(lm_ID m \<mapsto> model_metrics cats pops m)"
    by (simp add: update_conv' map_add_upd_left domIff del: fun_upd_apply)
  then show ?case unfolding step using Cons.IH [OF tl(2) up] Cons.IH [OF tl(2,1)]
    by (cases "measured cats pops m") (simp_all add: case_prod_beta del: fun_upd_apply)
qed simp


lemma models_ok_finite:
  assumes "\<forall>k v. m k = Some v \<longrightarrow> TrimSpace k \<noteq> [] \<and> \<not> metric_bad (me_Capability v) \<and>
      \<not> metric_bad (me_Availability v) \<and> \<not> metric_bad (me_Intelligence v)"
  shows "models_ok ks m = None"
  using assms by (induction ks) (auto split: option.split)

lemma benchmark_ids_distinct:
  assumes "distinct (map (\<lambda>b. TrimSpace (bm_SourceModelID b)) bs)"
    and "\<forall>b\<in>set bs. TrimSpace (bm_SourceModelID b) \<noteq> [] \<and> TrimSpace (bm_SourceModelID b) \<notin> seen"
  shows "benchmark_ids_ok seen bs = None"
  using assms
proof (induction bs arbitrary: seen)
  case (Cons b bs)
  let ?id = "\<lambda>b. TrimSpace (bm_SourceModelID b)"
  have "?id c \<noteq> ?id b" if "c \<in> set bs" for c
    using Cons.prems(1) imageI [OF that, of ?id] by auto
  with Cons.prems have "benchmark_ids_ok (insert (?id b) seen) bs = None" by (intro Cons.IH) auto
  with Cons.prems show ?case by (simp add: Let_def)
qed simp

lemma TrimSpace_Nil:
  assumes "TrimSpace s = []"
  shows "list_all is_space s"
proof -
  let ?t = "dropWhile is_space s"
  from assms have "dropWhile is_space (rev ?t) = []" by (simp add: TrimSpace_def)
  then have "\<forall>x\<in>set ?t. is_space x" using dropWhile_eq_Nil_conv [of is_space "rev ?t"] by simp
  then have "?t = []" using hd_dropWhile [of is_space s] hd_in_set [of ?t] by blast
  then show ?thesis by (simp add: dropWhile_eq_Nil_conv list_all_iff)
qed

lemma normalize_shape:
  assumes "evals_normalize rng cats parseTime board sha now = Inr s"
  shows "\<exists>pops. scan_models rng (lb_Models board) {} (\<lambda>_. []) = Inr pops \<and>
    sn_Models s = Some (map_of (map (\<lambda>m. (lm_ID m, model_metrics cats pops m)) (filter (measured cats pops) (lb_Models board)))) \<and>
    map bm_SourceModelID (sn_Benchmarks s) = map lm_ID (filter (measured cats pops) (lb_Models board)) \<and>
    sn_RetrievedAt s = now \<and> TrimSpace (sn_Version s) \<noteq> [] \<and> sn_Source s = evals_Source"
proof -
  from assms obtain pops where p: "scan_models rng (lb_Models board) {} (\<lambda>_. []) = Inr pops"
    by (auto simp: evals_normalize_def split: if_splits sum.splits)
  note spec = score_models_spec [where metrics = "[]" and cats = cats and pops = pops, simplified]
  have d: "distinct (map lm_ID (lb_Models board))"
    using scan_models_ids(1) [OF p] distinct_map [of TrimSpace "map lm_ID (lb_Models board)"] by (simp add: comp_def)
  have v: "TrimSpace (v @ ''+'' @ u) \<noteq> []" for u v
    using TrimSpace_Nil [of "v @ ''+'' @ u"] by (auto simp: is_space_def)
  obtain mets bs where m: "score_models cats pops (lb_Models board) [] = (mets, bs)" by force
  from assms p m have "sn_Models s = Some (map_of mets)" "sn_Benchmarks s = bs" "sn_RetrievedAt s = now"
    "sn_Version s = TrimSpace (lb_Version (lb_Metadata board)) @ ''+'' @ sha @ ''+'' @ evals_Policy" "sn_Source s = evals_Source"
    by (auto simp: evals_normalize_def Let_def split: if_splits)
  with p m spec [OF d] v show ?thesis by auto
qed


section \<open>Validity\<close>

definition groups :: "gostring list set" where
  "groups = {capabilityBenchmarks, intelligenceBenchmarks}"

lemma group_range:
  assumes "categoryPercentile results pops (cats ns) = Some x" and "ns \<in> groups" and "\<forall>ns. mset (cats ns) = mset ns"
  shows "in_range 100 x \<and> (\<exists>name\<in>set ns. \<exists>r. map_of results name = Some r \<and> br_Score r \<noteq> None)"
proof -
  from assms(3) have "set (cats ns) = set ns" "length (cats ns) = length ns"
    by (metis mset_eq_setD) (metis assms(3) mset_eq_length)
  moreover from this(2) assms(2) have "length (cats ns) < 2 ^ 40"
    by (auto simp: groups_def capabilityBenchmarks_def intelligenceBenchmarks_def)
  ultimately show ?thesis using categoryPercentile_range [OF assms(1)] by auto
qed

lemma group_fine:
  assumes "ns \<in> groups" and "\<forall>ns. mset (cats ns) = mset ns"
  shows "\<not> metric_bad (categoryPercentile results pops (cats ns))"
proof (cases "categoryPercentile results pops (cats ns)")
  case (Some x)
  with group_range [where cats = cats, OF Some assms] in_range_finite [of 100 x] show ?thesis
    by (simp add: metric_bad_def finite_f_def)
qed (simp add: metric_bad_def)

lemma listed_entry_of:
  assumes "sn_Models s = Some (map_of (map (\<lambda>m. (lm_ID m, model_metrics cats pops m)) ms))" and "bench_models s pid = Some mt"
  shows "\<exists>m\<in>set ms. lm_ID m = pid \<and> mt = model_metrics cats pops m"
  using assms map_of_SomeD by (fastforce simp: bench_models_def)

lemma evals_Source_trim: "TrimSpace evals_Source \<noteq> []"
  by code_simp

lemma normalize_valid:
  assumes "evals_normalize rng cats parseTime board sha now = Inr s" and "\<not> IsZero now"
    and "\<forall>ns. mset (cats ns) = mset ns"
  shows "snapshot_Validate ks s = None"
proof -
  from normalize_shape [OF assms(1)] obtain pops where p: "scan_models rng (lb_Models board) {} (\<lambda>_. []) = Inr pops"
    and mo: "sn_Models s = Some (map_of (map (\<lambda>m. (lm_ID m, model_metrics cats pops m)) (filter (measured cats pops) (lb_Models board))))"
    and be: "map bm_SourceModelID (sn_Benchmarks s) = map lm_ID (filter (measured cats pops) (lb_Models board))"
    and re: "sn_RetrievedAt s = now" "TrimSpace (sn_Version s) \<noteq> []" "sn_Source s = evals_Source" by blast
  let ?ms = "filter (measured cats pops) (lb_Models board)"
  have ids: "distinct (map (\<lambda>m. TrimSpace (lm_ID m)) ?ms)" "\<forall>m\<in>set ?ms. TrimSpace (lm_ID m) \<noteq> []"
    using scan_models_ids [OF p] by (auto intro: distinct_map_filter)
  have trim: "map (\<lambda>b. TrimSpace (bm_SourceModelID b)) (sn_Benchmarks s) = map (\<lambda>m. TrimSpace (lm_ID m)) ?ms"
    using arg_cong [OF be, of "map TrimSpace"] by (simp add: comp_def)
  then have "\<forall>b\<in>set (sn_Benchmarks s). TrimSpace (bm_SourceModelID b) \<noteq> []"
    using ids(2) by (metis (no_types, lifting) image_iff list.set_map)
  with trim ids(1) have bs: "benchmark_ids_ok {} (sn_Benchmarks s) = None" by (intro benchmark_ids_distinct) simp_all
  have "models_ok ks (bench_models s) = None"
  proof (intro models_ok_finite allI impI)
    fix pid mt
    assume "bench_models s pid = Some mt"
    from listed_entry_of [OF mo this] ids(2) group_fine [OF _ assms(3)]
    show "TrimSpace pid \<noteq> [] \<and> \<not> metric_bad (me_Capability mt) \<and>
        \<not> metric_bad (me_Availability mt) \<and> \<not> metric_bad (me_Intelligence mt)"
      by (auto simp: model_metrics_def groups_def) (auto simp: metric_bad_def)
  qed
  with bs re assms(2) mo evals_Source_trim show ?thesis by (simp add: snapshot_Validate_def bench_models_def)
qed

text \<open>The scores of one benchmark over the whole board, and those of its benchmarks a model is measured in.\<close>

definition board_scores :: "Leaderboard \<Rightarrow> gostring \<Rightarrow> float64 list" where
  "board_scores board name = concat (map (\<lambda>m. approved_scores name (lm_Benchmarks m)) (lb_Models board))"

definition own_score :: "LeaderboardModel \<Rightarrow> gostring \<Rightarrow> float64 option" where
  "own_score m name = Option.bind (map_of (lm_Benchmarks m) name) br_Score"

definition scored_in :: "Leaderboard \<Rightarrow> LeaderboardModel \<Rightarrow> gostring list \<Rightarrow> gostring list" where
  "scored_in board m names = filter (\<lambda>name. own_score m name \<noteq> None \<and> 2 \<le> length (board_scores board name)) names"

text \<open>
  The metric of a group: the mean, over exactly the benchmarks of the group the model has a score in (and
  at least one other), of the percentiles of its scores among those of the board, summed in ascending order.
\<close>

definition group_mean :: "Leaderboard \<Rightarrow> LeaderboardModel \<Rightarrow> gostring list \<Rightarrow> float64 option \<Rightarrow> bool" where
  "group_mean board m names metric \<longleftrightarrow> (case metric of
       None \<Rightarrow> scored_in board m names = []
     | Some x \<Rightarrow> scored_in board m names \<noteq> [] \<and>
         (\<exists>ys. mset ys = mset (map (\<lambda>name. Percentile (the (own_score m name)) (board_scores board name) True)
               (scored_in board m names)) \<and>
            sorted_wrt (\<lambda>a b. \<not> float_less b a) ys \<and>
            x = fdiv (foldl fadd (Fin 0) ys) (float_of_int (int (length (scored_in board m names))))))"

lemma scan_models_pops:
  "scan_models rng ms seen v = Inr w \<Longrightarrow> w n = v n @ concat (map (\<lambda>m. approved_scores n (rng (lm_Benchmarks m))) ms)"
proof (induction ms arbitrary: seen v)
  case (Cons m ms)
  then obtain x where x: "scan_results (TrimSpace (lm_ID m)) (rng (lm_Benchmarks m)) v = Inr x"
    "scan_models rng ms (insert (TrimSpace (lm_ID m)) seen) x = Inr w"
    by (auto simp: Let_def split: if_splits sum.splits)
  with scan_results_spec [of "rng (lm_Benchmarks m)" "TrimSpace (lm_ID m)" v]
  have "x n = v n @ approved_scores n (rng (lm_Benchmarks m))" by (auto split: if_splits)
  with Cons.IH [OF x(2)] show ?case by simp
qed simp

lemma board_scores_pops:
  assumes "scan_models rng (lb_Models board) {} (\<lambda>_. []) = Inr pops" and "\<forall>rs. mset (rng rs) = mset rs"
  shows "mset (pops n) = mset (board_scores board n)"
proof -
  have "mset (approved_scores n (rng rs)) = mset (approved_scores n rs)" for rs
    using assms(2) by (intro approved_scores_mset) blast
  then have "mset (concat (map (\<lambda>m. approved_scores n (rng (lm_Benchmarks m))) ms)) =
      mset (concat (map (\<lambda>m. approved_scores n (lm_Benchmarks m)) ms))" for ms
    by (induction ms) simp_all
  with scan_models_pops [OF assms(1), of n] show ?thesis by (simp add: board_scores_def)
qed

lemma scored_percentiles:
  "List.map_filter (benchmark_score (lm_Benchmarks m) (board_scores board)) names =
    map (\<lambda>name. Percentile (the (own_score m name)) (board_scores board name) True) (scored_in board m names)"
  by (induction names)
     (auto simp: scored_in_def own_score_def benchmark_score_def map_filter_simps split: option.splits if_splits)

lemma categoryPercentile_mean:
  assumes "scan_models rng (lb_Models board) {} (\<lambda>_. []) = Inr pops" and "\<forall>rs. mset (rng rs) = mset rs"
    and "\<forall>ns. mset (cats ns) = mset ns"
  shows "group_mean board m names (categoryPercentile (lm_Benchmarks m) pops (cats names))"
proof -
  let ?ps = "map (\<lambda>name. Percentile (the (own_score m name)) (board_scores board name) True) (scored_in board m names)"
  have "categoryPercentile (lm_Benchmarks m) pops (cats names) = categoryPercentile (lm_Benchmarks m) (board_scores board) names"
    using board_scores_pops [OF assms(1,2)] assms(3) by (intro categoryPercentile_order) simp_all
  also have "\<dots> = (if scored_in board m names = [] then None
      else Some (fdiv (foldl fadd (Fin 0) (sort_stable float_less ?ps)) (float_of_int (int (length (scored_in board m names))))))"
    by (simp add: categoryPercentile_def scored_percentiles Let_def)
  finally show ?thesis
    using float_sort.sorted_sort_stable [of ?ps] by (auto simp: group_mean_def intro!: exI [of _ "sort_stable float_less ?ps"])
qed

text \<open>C25: the snapshot a fetch makes at a clock reading passes the validation of the snapshot, whatever order the
  validation ranges in; exactly the listed benchmark rows have metrics. A model's metric of a group is the mean
  of the percentiles of its scores, over exactly the approved benchmarks of the group in which it and at least
  one other row have a score: no missing score is filled in or counted, and without such a benchmark there is no
  metric. It is a percentage, and availability is left unknown.\<close>

theorem normalize_sound:
  assumes "evals_normalize rng cats parseTime board sha now = Inr s" and "\<not> IsZero now"
    and "\<forall>rs. mset (rng rs) = mset rs" and "\<forall>ns. mset (cats ns) = mset ns"
  shows "snapshot_Validate ks s = None \<and> dom (bench_models s) = set (map bm_SourceModelID (sn_Benchmarks s)) \<and>
    (\<forall>pid mt. bench_models s pid = Some mt \<longrightarrow> me_Availability mt = None \<and>
      (\<exists>m\<in>set (lb_Models board). lm_ID m = pid \<and>
        (\<forall>(group, metric)\<in>{(capabilityBenchmarks, me_Capability mt), (intelligenceBenchmarks, me_Intelligence mt)}.
          group_mean board m group metric \<and> (case metric of None \<Rightarrow> True | Some x \<Rightarrow> in_range 100 x))))"
proof (intro conjI allI impI normalize_valid [OF assms(1,2,4)])
  from normalize_shape [OF assms(1)] obtain pops where p: "scan_models rng (lb_Models board) {} (\<lambda>_. []) = Inr pops"
    and mo: "sn_Models s = Some (map_of (map (\<lambda>m. (lm_ID m, model_metrics cats pops m)) (filter (measured cats pops) (lb_Models board))))"
    and be: "map bm_SourceModelID (sn_Benchmarks s) = map lm_ID (filter (measured cats pops) (lb_Models board))" by blast
  show "dom (bench_models s) = set (map bm_SourceModelID (sn_Benchmarks s))"
    by (simp add: be bench_models_def mo dom_map_of_conv_image_fst image_image)
  fix pid mt
  assume "bench_models s pid = Some mt"
  from listed_entry_of [OF mo this] obtain m where
    m: "m \<in> set (lb_Models board)" "lm_ID m = pid" "mt = model_metrics cats pops m" by auto
  show "me_Availability mt = None" by (simp add: m(3) model_metrics_def)
  have "case categoryPercentile (lm_Benchmarks m) pops (cats ns) of None \<Rightarrow> True | Some x \<Rightarrow> in_range 100 x" if "ns \<in> groups" for ns
    using group_range [OF _ that assms(4)] by (simp split: option.split)
  then have range: "case categoryPercentile (lm_Benchmarks m) pops (cats capabilityBenchmarks) of None \<Rightarrow> True | Some x \<Rightarrow> in_range 100 x"
    "case categoryPercentile (lm_Benchmarks m) pops (cats intelligenceBenchmarks) of None \<Rightarrow> True | Some x \<Rightarrow> in_range 100 x"
    by (simp_all add: groups_def)
  show "\<exists>m\<in>set (lb_Models board). lm_ID m = pid \<and>
        (\<forall>(group, metric)\<in>{(capabilityBenchmarks, me_Capability mt), (intelligenceBenchmarks, me_Intelligence mt)}.
          group_mean board m group metric \<and> (case metric of None \<Rightarrow> True | Some x \<Rightarrow> in_range 100 x))"
    using m(1,2) range categoryPercentile_mean [OF p assms(3,4)]
    by (intro bexI [of _ m]) (simp_all add: m(3) model_metrics_def)
qed

section \<open>A refresh keeps what is usable\<close>

lemma Fetch_valid:
  assumes "fst (evals_Fetch fe ce) = Inr s" and "\<not> IsZero (fe_now fe)" and "\<forall>ns. mset (fe_cats fe ns) = mset ns"
  shows "snapshot_Validate ks s = None"
  using assms normalize_valid [OF _ assms(2,3)]
  by (auto simp: evals_Fetch_def Let_def split: prod.splits sum.splits if_splits)

lemma normalize_nonempty:
  assumes "evals_normalize rng cats parseTime board sha now = Inr s"
  shows "dom (bench_models s) \<noteq> {}"
  using assms by (auto simp: evals_normalize_def Let_def bench_models_def dom_map_of_conv_image_fst split: if_splits sum.splits prod.splits)

text \<open>C32: a refresh that fetches nothing leaves the snapshot, the bindings and the cache file as they were and
  reports the failure as a timeout, a cancellation or another failure; one that fetches a snapshot always
  installs it, with the bindings it gives for the current catalog, even when the file cannot be written, and wherever
  the write is cut off, the file or its backup holds the old snapshot or the new one.\<close>

theorem benchmark_refresh_safe:
  assumes "\<not> IsZero (fe_now (re_fetch env))" and "\<forall>ns. mset (fe_cats (re_fetch env) ns) = mset ns"
    and "f (ca_path cache) = Some old" and "ev_tmpName (re_save env) \<notin> {ca_path cache, bak (ca_path cache)}"
    and r: "benchmark_refresh marshal noBytes order cache env (g, f) = (g', fss)"
  shows "(case fst (evals_Fetch (re_fetch env) (re_call env)) of
      Inl e \<Rightarrow> gw_benchmarkSnapshot g' = gw_benchmarkSnapshot g \<and> gw_benchmarkBindings g' = gw_benchmarkBindings g \<and> fss = [f] \<and>
        bs_State (gw_benchmarkStatus g') = ''failed'' \<and>
        bs_ErrorCode (gw_benchmarkStatus g') \<in> {''fetch_timeout'', ''fetch_canceled'', ''fetch_failed''} \<and>
        bs_LastSuccessAt (gw_benchmarkStatus g') = bs_LastSuccessAt (gw_benchmarkStatus g)
    | Inr s \<Rightarrow> gw_benchmarkSnapshot g' = snapshot_Clone s \<and>
        gw_benchmarkBindings g' = bindings_for (gw_catalog g) (snapshot_Clone s) \<and>
        bs_State (gw_benchmarkStatus g') = ''live'' \<and> bs_ErrorCode (gw_benchmarkStatus g') = [] \<and>
        (\<forall>f'\<in>set fss. recoverable (ca_path cache) f' = Some old \<or> recoverable (ca_path cache) f' = marshal (snapshot_Clone s))) \<and>
    gw_pool g' = gw_pool g \<and> gw_catalog g' = gw_catalog g \<and> gw_routes g' = gw_routes g"
proof (cases "fst (evals_Fetch (re_fetch env) (re_call env))")
  case (Inl e)
  have "benchmarkErrorCode e \<in> {''fetch_timeout'', ''fetch_canceled'', ''fetch_failed''}" by (simp add: benchmarkErrorCode_def)
  with Inl r show ?thesis by (auto simp: benchmark_refresh_def Let_def MarkBenchmarkFailure_def MarkBenchmarkFetching_def)
next
  case (Inr s)
  note valid = Fetch_valid [OF Inr assms(1,2)]
  from r valid have g': "g' = SetBenchmarkSource ''live'' (re_doneAt env)
      (rebuildBenchmarkBindings (MarkBenchmarkFetching (re_attemptedAt env) g\<lparr>gw_benchmarkSnapshot := snapshot_Clone s\<rparr>))"
    and fss: "fss = snd (saveLocked marshal noBytes (re_save env) (ca_path cache) (snapshot_Clone s) f)"
    by (auto simp: benchmark_refresh_def Inr Let_def SetBenchmarkSnapshot_def Save_def)
  have "\<forall>f'\<in>set fss. recoverable (ca_path cache) f' = Some old \<or> recoverable (ca_path cache) f' = marshal (snapshot_Clone s)"
    unfolding fss using saveLocked_recoverable(1) [where ?f0.0 = f and path = "ca_path cache" and env = "re_save env"] assms(3,4) by simp
  then show ?thesis by (simp add: Inr g' SetBenchmarkSource_def rebuildBenchmarkBindings_def MarkBenchmarkFetching_def)
qed


section \<open>A concrete leaderboard\<close>

definition sample_row :: "gostring \<Rightarrow> rat \<Rightarrow> LeaderboardModel" where
  "sample_row pid x = \<lparr>lm_ID = pid, lm_Name = ''org/'' @ pid,
     lm_Benchmarks = [(''gpqa'', \<lparr>br_Score = Some (Fin x), br_Date = []\<rparr>), (''other'', \<lparr>br_Score = None, br_Date = []\<rparr>)]\<rparr>"

definition sample_board :: Leaderboard where
  "sample_board = \<lparr>lb_Metadata = \<lparr>lb_Version = ''3'', lb_LastUpdated = []\<rparr>, lb_Models = [sample_row ''a'' 40, sample_row ''b'' 70]\<rparr>"

lemma sample_scan:
  "scan_models rng [sample_row ''a'' 40, sample_row ''b'' 70] {} (\<lambda>_. []) =
    (case scan_results ''a'' (rng (lm_Benchmarks (sample_row ''a'' 40))) (\<lambda>_. []) of
       Inl e \<Rightarrow> Inl e
     | Inr values \<Rightarrow> scan_results ''b'' (rng (lm_Benchmarks (sample_row ''b'' 70))) values)"
proof -
  have "TrimSpace ''a'' = ''a''" "TrimSpace ''b'' = ''b''" by code_simp+
  then show ?thesis by (simp add: sample_row_def Let_def split: sum.split)
qed

lemma update_nonempty: "AList.update k v xs \<noteq> []"
  by (cases xs) auto

lemma sample_normalize: "\<exists>s. evals_normalize id id parseTime sample_board sha now = Inr s"
proof -
  have a: "approved ''gpqa''" "\<not> approved ''other''" by code_simp+
  have sc: "scan_models id [sample_row ''a'' 40, sample_row ''b'' 70] {} (\<lambda>_. []) = Inr ((\<lambda>_. [])(''gpqa'' := [Fin 40, Fin 70]))"
    unfolding sample_scan by (simp add: sample_row_def a bad_score_def IsNaN_def IsInf_def)
  have sh: "lm_Benchmarks (sample_row k x) = [(''gpqa'', \<lparr>br_Score = Some (Fin x), br_Date = []\<rparr>), (''other'', \<lparr>br_Score = None, br_Date = []\<rparr>)]" for k x
    by (simp add: sample_row_def)
  have "categoryPercentile (lm_Benchmarks (sample_row k x)) ((\<lambda>_. [])(''gpqa'' := [Fin 40, Fin 70])) intelligenceBenchmarks \<noteq> None" for k x
    by (simp add: sh categoryPercentile_def benchmark_score_def List.map_filter_def intelligenceBenchmarks_def)
  then show ?thesis
    by (auto simp: evals_normalize_def sample_board_def sc Let_def case_prod_beta update_nonempty simp del: scan_models.simps)
qed

theorem normalize_order_witness:
  "evals_normalize id id (\<lambda>_. None) sample_board ''0'' 1 = evals_normalize rev rev (\<lambda>_. None) sample_board ''0'' 1"
  using normalize_order [of id rev id rev "\<lambda>_. None" sample_board "''0''" 1] sample_normalize [of "\<lambda>_. None" "''0''" 1] by auto

theorem normalize_sound_witness:
  "\<exists>s. evals_normalize id id (\<lambda>_. None) sample_board ''0'' 1 = Inr s \<and> snapshot_Validate [''a''] s = None"
proof -
  obtain s where s: "evals_normalize id id (\<lambda>_. None) sample_board ''0'' 1 = Inr s" using sample_normalize by blast
  have "\<not> IsZero 1" by (simp add: IsZero_def)
  from normalize_sound [OF s this] s show ?thesis by auto
qed


definition sample_sha :: gostring where
  "sample_sha = replicate 40 CHR ''0''"

definition row_doc :: "gostring \<Rightarrow> gostring \<Rightarrow> json" where
  "row_doc pid x = JObj [(''id'', JStr pid), (''name'', JStr (''org/'' @ pid)), (''benchmarks'', JObj
     [(''gpqa'', JObj [(''score'', JNum x)]), (''other'', JObj [(''score'', JNull)])])]"

definition board_doc :: json where
  "board_doc = JObj [(''metadata'', JObj [(''version'', JStr ''3'')]), (''models'', JArr [row_doc ''a'' ''40'', row_doc ''b'' ''70''])]"

definition sample_fetch :: FetchEnv where
  "sample_fetch = \<lparr>fe_rng = id, fe_cats = id, fe_parseTime = \<lambda>_. None,
     fe_first = \<lambda>u. FirstValue (if u = metadata_url then JObj [(''sha'', JStr sample_sha)] else board_doc), fe_now = 1\<rparr>"

definition echo_env :: CallEnv where
  "echo_env = \<lparr>ce_urlOK = \<lambda>_. True, ce_do = \<lambda>q. HttpAnswer 200 \<lparr>bd_data = hq_URL q, bd_fail = None\<rparr>, ce_ctxErr = None, ce_deadline = False\<rparr>"

lemma sample_docs:
  "dec_struct sha_field [] (JObj [(''sha'', JStr sample_sha)]) = Some sample_sha" "ToLower (TrimSpace sample_sha) = sample_sha"
  "is_sha sample_sha" "dec_struct board_field zero_board board_doc = Some sample_board" "board_url sample_sha \<noteq> metadata_url"
  by code_simp+

lemma echo_getJSON:
  assumes "length url \<le> evals_maxBodySize"
  shows "fst (evals_getJSON first dec zero echo_env url) = (case first url of
      Malformed \<Rightarrow> Inl (PlainError ''JSON'') | Incomplete \<Rightarrow> Inl (PlainError ''unexpected EOF'')
    | FirstValue j \<Rightarrow> (case dec zero j of None \<Rightarrow> Inl (PlainError ''JSON'') | Some v \<Rightarrow> Inr v))"
  using assms by (simp add: evals_getJSON_def echo_env_def http_Do_def plain_transport_def split: first_value.split)

lemma sample_Fetch: "fst (evals_Fetch sample_fetch echo_env) = evals_normalize id id (\<lambda>_. None) sample_board sample_sha 1"
proof -
  have l: "length metadata_url \<le> evals_maxBodySize" "length (board_url sample_sha) \<le> evals_maxBodySize"
    by (simp_all add: metadata_url_def board_url_def evals_Dataset_def evals_maxBodySize_def sample_sha_def)
  from echo_getJSON [OF l(1), of "fe_first sample_fetch" "dec_struct sha_field" "[]"]
    echo_getJSON [OF l(2), of "fe_first sample_fetch" "dec_struct board_field" zero_board]
  show ?thesis using sample_docs
    by (auto simp: evals_Fetch_def sample_fetch_def Let_def split: prod.split)
qed


definition sample_refresh :: "gostring RefreshEnv" where
  "sample_refresh = \<lparr>re_attemptedAt = 1, re_fetch = sample_fetch, re_call = echo_env, re_save = sample_env, re_doneAt = 2\<rparr>"

theorem benchmark_refresh_safe_witness:
  "\<forall>g. \<exists>s. gw_benchmarkSnapshot (fst (benchmark_refresh (\<lambda>s. Some (sn_Version s)) [] (\<lambda>_. [''a'']) (NewCache ''p'' 0) sample_refresh
      (g, [''p'' \<mapsto> ''old'']))) = snapshot_Clone s \<and> dom (bench_models s) \<noteq> {}"
proof
  fix g
  let ?r = "benchmark_refresh (\<lambda>s. Some (sn_Version s)) [] (\<lambda>_. [''a'']) (NewCache ''p'' 0) sample_refresh (g, [''p'' \<mapsto> ''old''])"
  obtain s where s: "evals_normalize id id (\<lambda>_. None) sample_board sample_sha 1 = Inr s" using sample_normalize by blast
  have "\<not> IsZero (fe_now (re_fetch sample_refresh))" "\<forall>ns. mset (fe_cats (re_fetch sample_refresh) ns) = mset ns"
    "[''p'' \<mapsto> ''old''] (ca_path (NewCache ''p'' 0)) = Some ''old''"
    "ev_tmpName (re_save sample_refresh) \<notin> {ca_path (NewCache ''p'' 0), bak (ca_path (NewCache ''p'' 0))}"
    by (simp_all add: sample_refresh_def sample_fetch_def IsZero_def NewCache_def sample_env_def bak_def)
  note hyps = this
  from benchmark_refresh_safe [where env = sample_refresh and f = "[''p'' \<mapsto> ''old'']" and cache = "NewCache ''p'' 0" and old = "''old''"
      and marshal = "\<lambda>s. Some (sn_Version s)" and noBytes = "[]" and order = "\<lambda>_. [''a'']" and g = g and g' = "fst ?r" and fss = "snd ?r",
      OF hyps] sample_Fetch s
  have "gw_benchmarkSnapshot (fst ?r) = snapshot_Clone s" by (simp add: sample_refresh_def)
  moreover have "dom (bench_models s) \<noteq> {}" using normalize_nonempty [OF s] .
  ultimately show "\<exists>s. gw_benchmarkSnapshot (fst ?r) = snapshot_Clone s \<and> dom (bench_models s) \<noteq> {}" by blast
qed

end
