(* ===== verification/Spec2Isabelle.thy ===== *)
theory Spec2Isabelle
  imports ChatHandler ProviderRegistry Probe ControlView Secrets AppRun Commands OpenEvals
begin

text \<open>
  Free-Model-Router (FMR): a local gateway that offers one OpenAI-compatible endpoint over the free
  models of several upstream providers. It discovers a catalog of models and routes, keeps a pool of
  selected models, ranks the eligible routes of a request by benchmark scores and measured latency, tries
  them one after the other until one answers, and records usage, health and latency on the way. A second
  API, on loopback and behind a token, lets a desktop client see and change its state. The
  program is Go; this development models its packages under \<open>src/internal\<close>.

  \<^bold>\<open>The theories and the code.\<close>
  \<^item> \<open>Prelude\<close>: strings, durations, maps ranged over in a given order, insertion sort as the model of
    \<open>sort.SliceStable\<close>, with the locales \<open>strict_weak_order\<close> and \<open>strict_total_on\<close> for comparison functions.
  \<^item> \<open>Float64\<close>: the finite IEEE doubles with round-half-even, infinities and NaN, and monotonicity of the
    operations used by scores and averages.
  \<^item> \<open>JsonCodec\<close>, \<open>Files\<close>: JSON values and the decoding of Go structs from them; a directory of files whose
    system calls may fail, and the locale \<open>durable_file\<close> of what replacing a file promises.
  \<^item> \<open>ModelTypes\<close> (\<open>model/identity.go\<close>, \<open>types.go\<close>, \<open>failure.go\<close>): identities, access classes, capabilities,
    snapshots, failures and the action each failure suggests.
  \<^item> \<open>Provider\<close> (\<open>provider/provider.go\<close>): error values with \<open>errors.As\<close> and \<open>errors.Is\<close>, requests, events.
  \<^item> \<open>Health\<close> (\<open>health/health.go\<close>): route cooldowns; provider slots as an inductive step relation over
    waiting goroutines.
  \<^item> \<open>Latency\<close> (\<open>latency/latency.go\<close>): moving averages and freshness of measurements.
  \<^item> \<open>Router\<close> (\<open>router/filter.go\<close>): eligibility of routes and the order of candidates.
  \<^item> \<open>Matcher\<close> (\<open>matcher/matcher.go\<close>), \<open>Scoring\<close> (\<open>scoring/scoring.go\<close>), \<open>BenchmarkCache\<close>
    (\<open>scoring/cache.go\<close>): from benchmark rows to scores, and the cache file of the last known snapshot.
  \<^item> \<open>OpenEvals\<close> (\<open>benchmarks/openevals/client.go\<close>, \<open>app/benchmark.go\<close>): the public leaderboard, read at one
    revision, its normalization to a benchmark snapshot, and the refresh of the gateway's snapshot.
  \<^item> \<open>Catalog\<close> (\<open>catalog/pool.go\<close>, \<open>reconcile.go\<close>, \<open>store.go\<close>): the pool of selected models, its revision
    and tombstones, and what a new catalog does to it; locale \<open>revisioned\<close>.
  \<^item> \<open>OpenCode\<close>, \<open>Transport\<close>, \<open>Sse\<close>, \<open>Discovery\<close> (\<open>providers/opencode\<close>, \<open>gemini\<close>, \<open>xai\<close>, \<open>nvidia\<close>,
    \<open>openaicompat\<close>): routes; the request a completion sends and how its answer is classified; the reader of
    event streams over the bytes of a body; the catalog each upstream publishes.
  \<^item> \<open>ProviderRegistry\<close> (\<open>providers/registry/registry.go\<close>): several providers behind one.
  \<^item> \<open>Gateway\<close> (\<open>gateway/gateway.go\<close>, \<open>control.go\<close>, \<open>performance.go\<close>, \<open>failover.go\<close>): the state of the
    gateway, catalog refresh, control operations with optimistic concurrency (locale \<open>optimistic\<close>),
    benchmark bindings, ranking, failover policy. \<open>ControlView\<close> is the snapshot it shows to control clients.
  \<^item> \<open>Failover\<close>, \<open>Attempt\<close>, \<open>ChatHandler\<close> (\<open>gateway/attempt.go\<close>): a chat request from its decoded body to the
    bytes the client sees: the chain of candidates, the choice of the next one, one attempt with its commit
    guard, the loop of attempts and the usage record.
  \<^item> \<open>Probe\<close> (\<open>probe/probe.go\<close>): background latency probes, one at a time per route, as a step relation.
  \<^item> \<open>Usage\<close> (\<open>usage/usage.go\<close>, \<open>events.go\<close>): the bounded usage log, its file, and the live broadcaster.
  \<^item> \<open>Security\<close> (\<open>security/security.go\<close>): loopback addresses and bearer tokens in front of a handler.
  \<^item> \<open>Config\<close>, \<open>Secrets\<close> (\<open>config\<close>): the configuration file with quarantine of a corrupt one, and the store of
    secrets; locale \<open>secret_keeper\<close>.
  \<^item> \<open>ProviderSetup\<close>, \<open>ConfigUpdate\<close>, \<open>AppRun\<close> (\<open>app\<close>): providers built from the configuration, an update
    of the configuration with its credentials, start-up from the files to the two listeners.
  \<^item> \<open>ControlServer\<close> (\<open>control/server.go\<close>, \<open>api.go\<close>): the management API over gateway, configuration and log.
    \<open>ControlClient\<close> (\<open>control/client.go\<close>, \<open>client_typed.go\<close>, \<open>model_manager.go\<close>): the client of that API and the
    filters of its model list. A request of the client is put before the server with the path of the URL the
    client built (\<open>url_path\<close>, \<open>received\<close>), for base addresses without a path of their own.
  \<^item> \<open>Desktop\<close> (\<open>desktop/desktop.go\<close>): the lease file that makes one desktop process the owner, one system call
    at a time, and attaching to a running gateway or starting one.
  \<^item> \<open>Packaging\<close> (\<open>packaging/metadata.go\<close>, \<open>manifest.go\<close>): the metadata of the shipped gateway binary and the
    manifest around it, another provider of \<open>durable_file\<close>.
  \<^item> \<open>Commands\<close> (\<open>cmd/fmr\<close>, \<open>cmd/fmr-package\<close>): the flags, the control command and the packaging helper, run to their
    requests, processes, files and output.

  \<^bold>\<open>How the outside is modelled.\<close> Mutex-protected operations are functions on the state; concurrency is a
  step relation where it matters (slots, gateway operations, probes, broadcaster). Everything the code does not
  determine is an argument: readings of the clock, the order in which a Go map is ranged over, the result
  of each file-system call, of each HTTP exchange, of JSON parsing and printing, of each upstream call and each
  read of its stream, and the point at which a timer fires. A chat request takes one \<open>AttemptScript\<close> per attempt and one \<open>NextItem\<close>
  per read; a script that stops before the code would gives \<open>None\<close> (the request still waits), and
  \<open>ChatHandler_terminates\<close> states how much script is always enough: as many attempts as the policy allows,
  each stream ending with an end-of-file or an error. \<open>stream_ends\<close> shows that the readers of the real
  transports are such streams: as many reads as the body has bytes, and one more, reach the end. Other loops
  are structural recursions over the script or the data.

  \<^bold>\<open>What the lemmas show.\<close> Each component has its invariant and the preservation by every operation, the
  behaviour of each operation on every branch including errors, and the equivalence of the code's loops
  with a short description (\<open>Intersect\<close> is the meet of capabilities, \<open>MatchUnique\<close> the unique best match,
  \<open>Percentile\<close> a mid-rank count, tombstones a history of removals). Across components: no request reaches a
  paid route unasked, no route is called twice for a request, the number of upstream calls is bounded by
  the policy, a client never sees parts of two answers, slots are always given back, a failed refresh
  leaves the gateway as it was, a credential goes to the address it was configured for, nothing is served
  beyond the machine without a token, and a refused control request changes nothing.

  \<^bold>\<open>Not modelled.\<close> JSON text, HTTP and TLS themselves, operating system services (processes, signals, the
  Windows credential store), the timers of the background loops, and the desktop shell, which is written in another language; see the
  manifest for the status of every part.
\<close>

end
